(* ===== verification/Prelude.thy ===== *)
theory Prelude
  imports Main "HOL-Library.AList"
begin

text \<open>
  Shared vocabulary of the development. It holds the reading of Go's idioms that every
  component uses: an \<open>error\<close> return as an option whose \<^term>\<open>None\<close> is \<open>nil\<close>, a
  \<open>(value, error)\<close> return as a sum, the \<open>Maybe\<close> wrapper of the generated API types,
  an early-return validation loop, and the generic lemmas on them. The named collections
  \<open>err_simps\<close> and \<open>maybe_simps\<close> gather the rewrite rules the component proofs pass to
  the simplifier.
\<close>

named_theorems err_simps
named_theorems maybe_simps

section \<open>Go errors\<close>

text \<open>
  \<open>then_err e k\<close> is the statement \<open>if err := e; err != nil { return err }; return k\<close>.
  \<open>find_err f xs\<close> is a loop over \<open>xs\<close> whose body may return an error.
\<close>

fun then_err :: "'e option \<Rightarrow> 'e option \<Rightarrow> 'e option" where
  "then_err (Some e) k = Some e"
| "then_err None k = k"

fun find_err :: "('a \<Rightarrow> 'e option) \<Rightarrow> 'a list \<Rightarrow> 'e option" where
  "find_err f [] = None"
| "find_err f (x # xs) = then_err (f x) (find_err f xs)"

definition wrap_err :: "('e \<Rightarrow> 'f) \<Rightarrow> 'e option \<Rightarrow> 'f option" where
  "wrap_err w e = map_option w e"

text \<open>Sequencing of \<open>(value, error)\<close> returns: \<open>Inl\<close> is the error.\<close>

fun bindE :: "'e + 'a \<Rightarrow> ('a \<Rightarrow> 'e + 'b) \<Rightarrow> 'e + 'b" where
  "bindE (Inl e) k = Inl e"
| "bindE (Inr a) k = k a"

fun foldE :: "('a \<Rightarrow> 's \<Rightarrow> 'e + 's) \<Rightarrow> 'a list \<Rightarrow> 's \<Rightarrow> 'e + 's" where
  "foldE f [] s = Inr s"
| "foldE f (x # xs) s = bindE (f x s) (foldE f xs)"

lemma then_err_None [simp, err_simps]: "then_err e k = None \<longleftrightarrow> e = None \<and> k = None"
  by (cases e) auto

lemma then_err_None_right [simp]: "then_err e None = e"
  by (cases e) auto

lemma find_err_None [err_simps]: "find_err f xs = None \<longleftrightarrow> (\<forall>x \<in> set xs. f x = None)"
  by (induction xs) auto

lemma find_err_Some: "find_err f xs = Some e \<Longrightarrow> \<exists>x \<in> set xs. f x = Some e"
proof (induction xs)
  case (Cons x xs)
  then show ?case by (cases "f x") auto
qed simp

lemma wrap_err_None [simp, err_simps]: "wrap_err w e = None \<longleftrightarrow> e = None"
  by (simp add: wrap_err_def)

lemma bindE_Inr [err_simps]: "bindE m k = Inr b \<longleftrightarrow> (\<exists>a. m = Inr a \<and> k a = Inr b)"
  by (cases m) auto

lemma bindE_Inl [err_simps]: "bindE m k = Inl e \<longleftrightarrow> m = Inl e \<or> (\<exists>a. m = Inr a \<and> k a = Inl e)"
  by (cases m) auto

lemma foldE_append: "foldE f (xs @ ys) s = bindE (foldE f xs s) (foldE f ys)"
proof (induction xs arbitrary: s)
  case (Cons x xs)
  then show ?case by (cases "f x s") auto
qed simp

text \<open>A predicate that every step of the loop keeps holds of its result.\<close>

lemma foldE_invariant:
  assumes "foldE f xs s = Inr t" and "P s"
    and "\<And>x u v. x \<in> set xs \<Longrightarrow> P u \<Longrightarrow> f x u = Inr v \<Longrightarrow> P v"
  shows "P t"
  using assms
proof (induction xs arbitrary: s)
  case (Cons x xs)
  from Cons.prems(1) obtain u where u: "f x s = Inr u" "foldE f xs u = Inr t"
    by (auto simp: bindE_Inr)
  moreover have "P u" using Cons.prems(2,3) u(1) by auto
  ultimately show ?case using Cons.IH Cons.prems(3) by auto
qed simp

text \<open>Total correctness of a loop over an index range: every step succeeds and moves the invariant on.\<close>

lemma foldE_range:
  assumes "Q 0 s" and "\<And>i u. i < n \<Longrightarrow> Q i u \<Longrightarrow> \<exists>v. f i u = Inr v \<and> Q (Suc i) v"
  shows "\<exists>t. foldE f [0 ..< n] s = Inr t \<and> Q n t"
  using assms
proof (induction n)
  case (Suc n)
  then obtain u where u: "foldE f [0 ..< n] s = Inr u" "Q n u" by fastforce
  with Suc.prems(2) [of n u] show ?case by (auto simp: foldE_append)
qed simp

section \<open>Maybe\<close>

text \<open>
  \<open>backend/apigen/maybe.gen.go\<close>: \<open>Maybe\<close> keeps the value beside the presence flag, and
  some code reads \<open>.Value\<close> without testing \<open>.Present\<close>, so both fields are kept.
\<close>

record 'a maybe =
  Value :: 'a
  Present :: bool

definition some_maybe :: "'a \<Rightarrow> 'a maybe" where
  "some_maybe v = \<lparr>Value = v, Present = True\<rparr>"

definition absent :: "'a \<Rightarrow> 'a maybe" where
  "absent z = \<lparr>Value = z, Present = False\<rparr>"

lemma some_maybe_sel [simp, maybe_simps]: "Value (some_maybe v) = v" "Present (some_maybe v)"
  by (simp_all add: some_maybe_def)

lemma absent_sel [simp, maybe_simps]: "Value (absent z) = z" "\<not> Present (absent z)"
  by (simp_all add: absent_def)

section \<open>Lists\<close>

text \<open>\<open>slices.Sort\<close> of the keys of a Go map, and a deletion by index.\<close>

definition remove_at :: "nat \<Rightarrow> 'a list \<Rightarrow> 'a list" where
  "remove_at i xs = take i xs @ drop (Suc i) xs"

fun find_index :: "('a \<Rightarrow> bool) \<Rightarrow> 'a list \<Rightarrow> nat option" where
  "find_index p [] = None"
| "find_index p (x # xs) = (if p x then Some 0 else map_option Suc (find_index p xs))"

lemma find_index_None: "find_index p xs = None \<longleftrightarrow> (\<forall>x \<in> set xs. \<not> p x)"
  by (induction xs) auto

lemma find_index_Some:
  "find_index p xs = Some i \<Longrightarrow> i < length xs \<and> p (xs ! i) \<and> (\<forall>j < i. \<not> p (xs ! j))"
proof (induction xs arbitrary: i)
  case (Cons x xs)
  then show ?case by (auto split: if_splits simp: nth_Cons split: nat.splits)
qed simp

lemma set_remove_at: "set (remove_at i xs) \<subseteq> set xs"
  by (auto simp: remove_at_def dest: in_set_takeD in_set_dropD)

lemma set_remove_at_nth: "i < length xs \<Longrightarrow> set xs = insert (xs ! i) (set (remove_at i xs))"
proof -
  assume "i < length xs"
  then have "set xs = set (take i xs @ xs ! i # drop (Suc i) xs)"
    by (simp add: id_take_nth_drop [symmetric])
  then show ?thesis by (auto simp: remove_at_def)
qed

lemma distinct_map_remove_at:
  assumes "distinct (map f xs)" and "i < length xs"
  shows "distinct (map f (remove_at i xs))" and "f (xs ! i) \<notin> f ` set (remove_at i xs)"
proof -
  have "map f xs = map f (take i xs) @ f (xs ! i) # map f (drop (Suc i) xs)"
    by (metis assms(2) id_take_nth_drop list.simps(9) map_append)
  with assms(1) have d: "distinct (map f (take i xs) @ f (xs ! i) # map f (drop (Suc i) xs))"
    by simp
  then show "distinct (map f (remove_at i xs))"
    by (simp add: remove_at_def)
  from d show "f (xs ! i) \<notin> f ` set (remove_at i xs)"
    by (auto simp: remove_at_def)
qed

end
