(* ===== verification/Authz_Model.thy ===== *)
theory Authz_Model
  imports Prelude
begin

text \<open>
  The access-control data of \<open>backend/apigen/model.gen.go\<close>: verbs, entity kinds, selectors,
  rules, grant templates, grants and global rules. Enums are the \<open>int32\<close> values they are on
  the wire, because the validation code compares them by range and a decoded message may carry
  an undeclared value. A protobuf \<open>oneof\<close> is a record of optional alternatives, as the
  generated Go struct is, so a message with none or several of them set is representable.
  The single-field list wrappers (\<open>AuthzVerbList\<close> and its kin) are plain lists, and the
  ids are natural numbers: no code here does arithmetic on them.
\<close>

section \<open>Enumerations\<close>

type_synonym AuthzVerb = int
type_synonym AuthzEntityKind = int
type_synonym AuthzArgumentKind = int

abbreviation (input) VERB_UNSPECIFIED :: AuthzVerb where "VERB_UNSPECIFIED \<equiv> 0"
abbreviation (input) VERB_CREATE :: AuthzVerb where "VERB_CREATE \<equiv> 1"
abbreviation (input) VERB_UPDATE :: AuthzVerb where "VERB_UPDATE \<equiv> 2"
abbreviation (input) VERB_DELETE :: AuthzVerb where "VERB_DELETE \<equiv> 3"
abbreviation (input) VERB_VIEW :: AuthzVerb where "VERB_VIEW \<equiv> 4"
abbreviation (input) VERB_VIEW_LOGS :: AuthzVerb where "VERB_VIEW_LOGS \<equiv> 5"
abbreviation (input) VERB_REVEAL :: AuthzVerb where "VERB_REVEAL \<equiv> 6"
abbreviation (input) VERB_USE_HOST_MOUNTS :: AuthzVerb where "VERB_USE_HOST_MOUNTS \<equiv> 7"
abbreviation (input) VERB_USE_HOST_NETWORK :: AuthzVerb where "VERB_USE_HOST_NETWORK \<equiv> 8"

abbreviation (input) KIND_UNSPECIFIED :: AuthzEntityKind where "KIND_UNSPECIFIED \<equiv> 0"
abbreviation (input) KIND_SPACE :: AuthzEntityKind where "KIND_SPACE \<equiv> 1"
abbreviation (input) KIND_DEPLOYMENT :: AuthzEntityKind where "KIND_DEPLOYMENT \<equiv> 2"
abbreviation (input) KIND_SECRET :: AuthzEntityKind where "KIND_SECRET \<equiv> 3"
abbreviation (input) KIND_CONFIG :: AuthzEntityKind where "KIND_CONFIG \<equiv> 4"
abbreviation (input) KIND_ASSET :: AuthzEntityKind where "KIND_ASSET \<equiv> 5"
abbreviation (input) KIND_NODE :: AuthzEntityKind where "KIND_NODE \<equiv> 6"
abbreviation (input) KIND_CLUSTER :: AuthzEntityKind where "KIND_CLUSTER \<equiv> 7"
abbreviation (input) KIND_USER :: AuthzEntityKind where "KIND_USER \<equiv> 8"
abbreviation (input) KIND_ACCESS :: AuthzEntityKind where "KIND_ACCESS \<equiv> 9"

abbreviation (input) ARG_PERMISSION :: AuthzArgumentKind where "ARG_PERMISSION \<equiv> 1"
abbreviation (input) ARG_SPACE :: AuthzArgumentKind where "ARG_SPACE \<equiv> 2"
abbreviation (input) ARG_ENTITY_TYPE :: AuthzArgumentKind where "ARG_ENTITY_TYPE \<equiv> 3"
abbreviation (input) ARG_ENTITY_REF :: AuthzArgumentKind where "ARG_ENTITY_REF \<equiv> 4"

section \<open>Entity references and selectors\<close>

record AuthzEntityRef =
  ref_Space :: "nat option"
  ref_Deployment :: "nat option"
  ref_Secret :: "nat option"
  ref_Config :: "nat option"
  ref_Asset :: "nat option"
  ref_Node :: "nat option"
  ref_SystemConfig :: "nat option"
  ref_User :: "nat option"
  ref_AuthzGrantTemplate :: "nat option"
  ref_AuthzGrant :: "nat option"
  ref_AuthzGlobalRule :: "nat option"

text \<open>
  The four selector messages (\<open>AuthzPermissionSelector\<close>, \<open>AuthzSpaceSelector\<close>,
  \<open>AuthzEntityTypeSelector\<close>, \<open>AuthzEntityRefSelector\<close>) have one shape: an optional
  exact list and an optional exclusion list.
\<close>

record 'a position =
  Exact :: "'a list maybe"
  AllExcluding :: "'a list maybe"

type_synonym AuthzPermissionSelector = "AuthzVerb position"
type_synonym AuthzSpaceSelector = "nat position"
type_synonym AuthzEntityTypeSelector = "AuthzEntityKind position"
type_synonym AuthzEntityRefSelector = "AuthzEntityRef position"

record AuthzSelector =
  sel_Permissions :: AuthzPermissionSelector
  sel_Spaces :: AuthzSpaceSelector
  sel_EntityTypes :: AuthzEntityTypeSelector
  sel_EntityRefs :: AuthzEntityRefSelector

text \<open>A template position is the \<open>oneof\<close> of an argument id and a literal selector.\<close>

record 'a template_position =
  Argument :: "nat option"
  Selector :: "'a position option"

record AuthzTemplateSelector =
  tsel_Permissions :: "AuthzVerb template_position"
  tsel_Spaces :: "nat template_position"
  tsel_EntityTypes :: "AuthzEntityKind template_position"
  tsel_EntityRefs :: "AuthzEntityRef template_position"

section \<open>Rules, templates, grants\<close>

text \<open>\<open>Allow\<close> carries \<open>DelegationAllowed\<close>, \<open>Deny\<close> carries \<open>DelegatedOnly\<close>.\<close>

record AuthzEffect =
  Allow :: "bool option"
  Deny :: "bool option"

record AuthzRule =
  rule_Effect :: AuthzEffect
  rule_Selector :: AuthzSelector

record AuthzTemplateRule =
  trule_Effect :: AuthzEffect
  trule_Selector :: AuthzTemplateSelector

record AuthzTemplateArgument =
  arg_ID :: nat
  arg_Name :: string
  arg_Kind :: AuthzArgumentKind

record AuthzGrantTemplateSpec =
  Arguments :: "AuthzTemplateArgument list"
  Rules :: "AuthzTemplateRule list"

record AuthzGrantTemplate =
  tpl_ID :: nat
  tpl_Name :: string
  tpl_Builtin :: bool
  tpl_Spec :: AuthzGrantTemplateSpec

record AuthzArgumentValues =
  val_Permissions :: "AuthzVerb list option"
  val_Spaces :: "nat list option"
  val_EntityTypes :: "AuthzEntityKind list option"
  val_EntityRefs :: "AuthzEntityRef list option"

record AuthzArgumentBinding =
  bind_ArgumentID :: nat
  bind_Values :: AuthzArgumentValues

record AuthzTemplateGrant =
  tg_TemplateID :: nat
  tg_Args :: "AuthzArgumentBinding list"

record AuthzGrantSource =
  src_Rule :: "AuthzRule option"
  src_Template :: "AuthzTemplateGrant option"

record AuthzGrant =
  grant_ID :: nat
  grant_UserID :: nat
  grant_Source :: AuthzGrantSource

record AuthzGlobalRule =
  gr_ID :: nat
  gr_Name :: string
  gr_Rule :: AuthzRule

section \<open>Requests\<close>

record RequestedAccess =
  req_Verb :: AuthzVerb
  req_SpaceID :: nat
  req_EntityType :: AuthzEntityKind
  req_EntityID :: nat
  req_Delegated :: bool

end
