(* ===== verification/Authz_Eval.thy ===== *)
theory Authz_Eval
  imports Authz_Model
begin

text \<open>
  The rule evaluator of \<open>backend/app/primary/domain/authz/evaluate.go\<close>, in the order of the
  file: which requests a selector position matches, how a grant template resolves its argument
  bindings, the fence around space 0, and when a rule or a grant matches in allow or deny mode.
  The service's \<open>templates\<close> map is an association list from template id to template.
  The four selector positions share one contract, the locale \<open>selector_position\<close>, which
  gives each of them its denotation as a set.
\<close>

section \<open>Positions\<close>

definition EntityRefTarget :: "AuthzEntityRef \<Rightarrow> AuthzEntityKind \<times> nat \<times> bool" where
  "EntityRefTarget r =
    (if ref_Space r \<noteq> None then (KIND_SPACE, the (ref_Space r), True)
     else if ref_Deployment r \<noteq> None then (KIND_DEPLOYMENT, the (ref_Deployment r), True)
     else if ref_Secret r \<noteq> None then (KIND_SECRET, the (ref_Secret r), True)
     else if ref_Config r \<noteq> None then (KIND_CONFIG, the (ref_Config r), True)
     else if ref_Asset r \<noteq> None then (KIND_ASSET, the (ref_Asset r), True)
     else if ref_Node r \<noteq> None then (KIND_NODE, the (ref_Node r), True)
     else if ref_SystemConfig r \<noteq> None then (KIND_CLUSTER, the (ref_SystemConfig r), True)
     else if ref_User r \<noteq> None then (KIND_USER, the (ref_User r), True)
     else if ref_AuthzGrantTemplate r \<noteq> None then (KIND_ACCESS, the (ref_AuthzGrantTemplate r), True)
     else if ref_AuthzGrant r \<noteq> None then (KIND_ACCESS, the (ref_AuthzGrant r), True)
     else if ref_AuthzGlobalRule r \<noteq> None then (KIND_ACCESS, the (ref_AuthzGlobalRule r), True)
     else (KIND_UNSPECIFIED, 0, False))"

fun refsContain :: "AuthzEntityRef list \<Rightarrow> AuthzEntityKind \<Rightarrow> nat \<Rightarrow> bool" where
  "refsContain [] kind i = False"
| "refsContain (r # rs) kind i =
    (case EntityRefTarget r of (k, refID, ok) \<Rightarrow>
      if ok \<and> k = kind \<and> refID = i then True else refsContain rs kind i)"

definition verbMatches :: "AuthzPermissionSelector \<Rightarrow> AuthzVerb \<Rightarrow> bool" where
  "verbMatches sel v =
    (if Present (Exact sel) then v \<in> set (Value (Exact sel))
     else if Present (AllExcluding sel) then v \<notin> set (Value (AllExcluding sel))
     else False)"

definition spaceMatches :: "AuthzSpaceSelector \<Rightarrow> nat \<Rightarrow> bool" where
  "spaceMatches sel i =
    (if Present (Exact sel) then i \<in> set (Value (Exact sel))
     else if Present (AllExcluding sel) then i \<notin> set (Value (AllExcluding sel))
     else False)"

definition entityTypeMatches :: "AuthzEntityTypeSelector \<Rightarrow> AuthzEntityKind \<Rightarrow> bool" where
  "entityTypeMatches sel k =
    (if Present (Exact sel) then k \<in> set (Value (Exact sel))
     else if Present (AllExcluding sel) then k \<notin> set (Value (AllExcluding sel))
     else False)"

definition entityRefMatches :: "AuthzEntityRefSelector \<Rightarrow> AuthzEntityKind \<Rightarrow> nat \<Rightarrow> bool" where
  "entityRefMatches sel kind i =
    (if Present (Exact sel) then refsContain (Value (Exact sel)) kind i
     else if Present (AllExcluding sel) then \<not> refsContain (Value (AllExcluding sel)) kind i
     else False)"

definition selectorMatches :: "AuthzSelector \<Rightarrow> RequestedAccess \<Rightarrow> bool" where
  "selectorMatches sel req \<longleftrightarrow>
    verbMatches (sel_Permissions sel) (req_Verb req) \<and>
    spaceMatches (sel_Spaces sel) (req_SpaceID req) \<and>
    entityTypeMatches (sel_EntityTypes sel) (req_EntityType req) \<and>
    entityRefMatches (sel_EntityRefs sel) (req_EntityType req) (req_EntityID req)"

section \<open>Template positions\<close>

fun binding :: "AuthzArgumentBinding list \<Rightarrow> nat \<Rightarrow> AuthzArgumentBinding option" where
  "binding [] a = None"
| "binding (b # bs) a = (if bind_ArgumentID b = a then Some b else binding bs a)"

definition templateVerbMatches ::
  "AuthzVerb template_position \<Rightarrow> AuthzArgumentBinding list \<Rightarrow> AuthzVerb \<Rightarrow> bool" where
  "templateVerbMatches sel bs v =
    (case Argument sel of
       Some a \<Rightarrow> (case binding bs a of None \<Rightarrow> False
                 | Some b \<Rightarrow> (case val_Permissions (bind_Values b) of None \<Rightarrow> False
                             | Some vs \<Rightarrow> v \<in> set vs))
     | None \<Rightarrow> (case Selector sel of Some s \<Rightarrow> verbMatches s v | None \<Rightarrow> False))"

definition templateSpaceMatches ::
  "nat template_position \<Rightarrow> AuthzArgumentBinding list \<Rightarrow> nat \<Rightarrow> bool" where
  "templateSpaceMatches sel bs i =
    (case Argument sel of
       Some a \<Rightarrow> (case binding bs a of None \<Rightarrow> False
                 | Some b \<Rightarrow> (case val_Spaces (bind_Values b) of None \<Rightarrow> False
                             | Some vs \<Rightarrow> i \<in> set vs))
     | None \<Rightarrow> (case Selector sel of Some s \<Rightarrow> spaceMatches s i | None \<Rightarrow> False))"

definition templateEntityTypeMatches ::
  "AuthzEntityKind template_position \<Rightarrow> AuthzArgumentBinding list \<Rightarrow> AuthzEntityKind \<Rightarrow> bool" where
  "templateEntityTypeMatches sel bs k =
    (case Argument sel of
       Some a \<Rightarrow> (case binding bs a of None \<Rightarrow> False
                 | Some b \<Rightarrow> (case val_EntityTypes (bind_Values b) of None \<Rightarrow> False
                             | Some vs \<Rightarrow> k \<in> set vs))
     | None \<Rightarrow> (case Selector sel of Some s \<Rightarrow> entityTypeMatches s k | None \<Rightarrow> False))"

definition templateEntityRefMatches ::
  "AuthzEntityRef template_position \<Rightarrow> AuthzArgumentBinding list \<Rightarrow> AuthzEntityKind \<Rightarrow> nat \<Rightarrow> bool" where
  "templateEntityRefMatches sel bs kind i =
    (case Argument sel of
       Some a \<Rightarrow> (case binding bs a of None \<Rightarrow> False
                 | Some b \<Rightarrow> (case val_EntityRefs (bind_Values b) of None \<Rightarrow> False
                             | Some vs \<Rightarrow> refsContain vs kind i))
     | None \<Rightarrow> (case Selector sel of Some s \<Rightarrow> entityRefMatches s kind i | None \<Rightarrow> False))"

definition templateSelectorMatches ::
  "AuthzTemplateSelector \<Rightarrow> AuthzArgumentBinding list \<Rightarrow> RequestedAccess \<Rightarrow> bool" where
  "templateSelectorMatches sel bs req \<longleftrightarrow>
    templateVerbMatches (tsel_Permissions sel) bs (req_Verb req) \<and>
    templateSpaceMatches (tsel_Spaces sel) bs (req_SpaceID req) \<and>
    templateEntityTypeMatches (tsel_EntityTypes sel) bs (req_EntityType req) \<and>
    templateEntityRefMatches (tsel_EntityRefs sel) bs (req_EntityType req) (req_EntityID req)"

section \<open>The fence, rules and grants\<close>

definition SystemSpaceAllows :: "RequestedAccess \<Rightarrow> bool" where
  "SystemSpaceAllows req =
    (if req_SpaceID req \<noteq> 0 then True
     else if req_EntityType req = KIND_SECRET \<or> req_EntityType req = KIND_CONFIG
          \<or> req_EntityType req = KIND_ASSET then False
     else if req_EntityType req = KIND_DEPLOYMENT then req_Verb req \<noteq> VERB_CREATE
     else True)"

definition effectMatches :: "AuthzEffect \<Rightarrow> RequestedAccess \<Rightarrow> bool \<Rightarrow> bool" where
  "effectMatches e req deny =
    (if deny
     then (case Deny e of None \<Rightarrow> False | Some delegatedOnly \<Rightarrow> req_Delegated req \<or> \<not> delegatedOnly)
     else (case Allow e of None \<Rightarrow> False
           | Some delegationAllowed \<Rightarrow> \<not> req_Delegated req \<or> delegationAllowed))"

definition ruleMatches :: "AuthzRule \<Rightarrow> RequestedAccess \<Rightarrow> bool \<Rightarrow> bool" where
  "ruleMatches rule req deny \<longleftrightarrow>
    effectMatches (rule_Effect rule) req deny \<and> selectorMatches (rule_Selector rule) req"

definition templateRuleMatches ::
  "AuthzTemplateRule \<Rightarrow> AuthzArgumentBinding list \<Rightarrow> RequestedAccess \<Rightarrow> bool \<Rightarrow> bool" where
  "templateRuleMatches rule bs req deny \<longleftrightarrow>
    effectMatches (trule_Effect rule) req deny \<and> templateSelectorMatches (trule_Selector rule) bs req"

definition allowTouchesSpace :: "AuthzEffect \<Rightarrow> bool \<Rightarrow> bool" where
  "allowTouchesSpace e delegated =
    (case Allow e of None \<Rightarrow> False | Some delegationAllowed \<Rightarrow> \<not> delegated \<or> delegationAllowed)"

type_synonym templates = "(nat \<times> AuthzGrantTemplate) list"

definition grantTouchesSpaceLocked :: "templates \<Rightarrow> AuthzGrant \<Rightarrow> nat \<Rightarrow> bool \<Rightarrow> bool" where
  "grantTouchesSpaceLocked ts g spaceID delegated =
    (case src_Rule (grant_Source g) of
       Some rule \<Rightarrow> allowTouchesSpace (rule_Effect rule) delegated \<and>
                    spaceMatches (sel_Spaces (rule_Selector rule)) spaceID
     | None \<Rightarrow> (case src_Template (grant_Source g) of
         None \<Rightarrow> False
       | Some tg \<Rightarrow> (case map_of ts (tg_TemplateID tg) of
           None \<Rightarrow> False
         | Some t \<Rightarrow> list_ex (\<lambda>rule. allowTouchesSpace (trule_Effect rule) delegated \<and>
                       templateSpaceMatches (tsel_Spaces (trule_Selector rule)) (tg_Args tg) spaceID)
                     (Rules (tpl_Spec t)))))"

definition grantMatchesLocked :: "templates \<Rightarrow> AuthzGrant \<Rightarrow> RequestedAccess \<Rightarrow> bool \<Rightarrow> bool" where
  "grantMatchesLocked ts g req deny =
    (case src_Rule (grant_Source g) of
       Some rule \<Rightarrow> ruleMatches rule req deny
     | None \<Rightarrow> (case src_Template (grant_Source g) of
         None \<Rightarrow> False
       | Some tg \<Rightarrow> (case map_of ts (tg_TemplateID tg) of
           None \<Rightarrow> False
         | Some t \<Rightarrow> list_ex (\<lambda>rule. templateRuleMatches rule (tg_Args tg) req deny) (Rules (tpl_Spec t)))))"

section \<open>Positions as sets\<close>

text \<open>
  What a selector position means: the exact list when it is set, otherwise everything outside
  the exclusion list, and nothing for an empty message. \<open>keys\<close> reads a listed value as the
  subjects it names; for entity references that is their target, so an unset reference names
  nothing.
\<close>

definition position_set :: "('v \<Rightarrow> 'k set) \<Rightarrow> 'v position \<Rightarrow> 'k set" where
  "position_set keys sel =
    (if Present (Exact sel) then \<Union> (keys ` set (Value (Exact sel)))
     else if Present (AllExcluding sel) then - \<Union> (keys ` set (Value (AllExcluding sel)))
     else {})"

definition ref_keys :: "AuthzEntityRef \<Rightarrow> (AuthzEntityKind \<times> nat) set" where
  "ref_keys r = (case EntityRefTarget r of (k, i, ok) \<Rightarrow> if ok then {(k, i)} else {})"

locale selector_position =
  fixes matches :: "'v position \<Rightarrow> 'k \<Rightarrow> bool"
    and keys :: "'v \<Rightarrow> 'k set"
  assumes matches_set: "matches sel k \<longleftrightarrow> k \<in> position_set keys sel"
begin

lemma exact_wins: "Present (Exact sel) \<Longrightarrow> matches sel k \<longleftrightarrow> (\<exists>v \<in> set (Value (Exact sel)). k \<in> keys v)"
  by (simp add: matches_set position_set_def)

lemma wildcard: "\<not> Present (Exact sel) \<Longrightarrow> Present (AllExcluding sel) \<Longrightarrow>
    Value (AllExcluding sel) = [] \<Longrightarrow> matches sel k"
  by (simp add: matches_set position_set_def)

lemma empty_matches_nothing: "\<not> Present (Exact sel) \<Longrightarrow> \<not> Present (AllExcluding sel) \<Longrightarrow> \<not> matches sel k"
  by (simp add: matches_set position_set_def)

end

lemma refsContain_iff: "refsContain rs kind i \<longleftrightarrow> (kind, i) \<in> \<Union> (ref_keys ` set rs)"
  by (induction rs) (auto simp: ref_keys_def split: prod.splits)

interpretation verbs: selector_position verbMatches "\<lambda>v. {v}"
  by unfold_locales (simp add: verbMatches_def position_set_def)

interpretation spaces: selector_position spaceMatches "\<lambda>v. {v}"
  by unfold_locales (simp add: spaceMatches_def position_set_def)

interpretation entity_types: selector_position entityTypeMatches "\<lambda>v. {v}"
  by unfold_locales (simp add: entityTypeMatches_def position_set_def)

interpretation entity_refs: selector_position "\<lambda>sel (kind, i). entityRefMatches sel kind i" ref_keys
  by unfold_locales (auto simp: entityRefMatches_def position_set_def refsContain_iff)

section \<open>Resolving a template\<close>

text \<open>
  Binding a template rule to a grant's arguments gives a concrete rule: an argument position
  becomes the exact list of the bound values (the empty list when the binding is missing or of
  another kind), a literal selector stays, and a position with neither set matches nothing.
\<close>

definition resolve_position ::
  "(AuthzArgumentValues \<Rightarrow> 'a list option) \<Rightarrow> AuthzArgumentBinding list \<Rightarrow> 'a template_position \<Rightarrow> 'a position" where
  "resolve_position vals bs p =
    (case Argument p of
       Some a \<Rightarrow> \<lparr>Exact = some_maybe (case binding bs a of None \<Rightarrow> []
                     | Some b \<Rightarrow> (case vals (bind_Values b) of None \<Rightarrow> [] | Some vs \<Rightarrow> vs)),
                  AllExcluding = absent []\<rparr>
     | None \<Rightarrow> (case Selector p of Some s \<Rightarrow> s
               | None \<Rightarrow> \<lparr>Exact = some_maybe [], AllExcluding = absent []\<rparr>))"

definition resolve_rule :: "AuthzArgumentBinding list \<Rightarrow> AuthzTemplateRule \<Rightarrow> AuthzRule" where
  "resolve_rule bs r =
    \<lparr>rule_Effect = trule_Effect r,
     rule_Selector =
      \<lparr>sel_Permissions = resolve_position val_Permissions bs (tsel_Permissions (trule_Selector r)),
       sel_Spaces = resolve_position val_Spaces bs (tsel_Spaces (trule_Selector r)),
       sel_EntityTypes = resolve_position val_EntityTypes bs (tsel_EntityTypes (trule_Selector r)),
       sel_EntityRefs = resolve_position val_EntityRefs bs (tsel_EntityRefs (trule_Selector r))\<rparr>\<rparr>"

text \<open>The concrete rules a grant stands for.\<close>

definition grant_rules :: "templates \<Rightarrow> AuthzGrant \<Rightarrow> AuthzRule list" where
  "grant_rules ts g =
    (case src_Rule (grant_Source g) of
       Some rule \<Rightarrow> [rule]
     | None \<Rightarrow> (case src_Template (grant_Source g) of
         None \<Rightarrow> []
       | Some tg \<Rightarrow> (case map_of ts (tg_TemplateID tg) of
           None \<Rightarrow> []
         | Some t \<Rightarrow> map (resolve_rule (tg_Args tg)) (Rules (tpl_Spec t)))))"

lemmas template_position_defs =
  templateVerbMatches_def templateSpaceMatches_def templateEntityTypeMatches_def
  templateEntityRefMatches_def verbMatches_def spaceMatches_def entityTypeMatches_def
  entityRefMatches_def resolve_position_def

lemma resolve_verb:
  "templateVerbMatches p bs v \<longleftrightarrow> verbMatches (resolve_position val_Permissions bs p) v"
  by (auto simp: template_position_defs split: option.splits)

lemma resolve_space:
  "templateSpaceMatches p bs i \<longleftrightarrow> spaceMatches (resolve_position val_Spaces bs p) i"
  by (auto simp: template_position_defs split: option.splits)

lemma resolve_entity_type:
  "templateEntityTypeMatches p bs k \<longleftrightarrow> entityTypeMatches (resolve_position val_EntityTypes bs p) k"
  by (auto simp: template_position_defs split: option.splits)

lemma resolve_entity_ref:
  "templateEntityRefMatches p bs k i \<longleftrightarrow> entityRefMatches (resolve_position val_EntityRefs bs p) k i"
  by (auto simp: template_position_defs split: option.splits)

lemma templateRuleMatches_resolve:
  "templateRuleMatches r bs req deny \<longleftrightarrow> ruleMatches (resolve_rule bs r) req deny"
  by (simp add: templateRuleMatches_def ruleMatches_def templateSelectorMatches_def
      selectorMatches_def resolve_rule_def resolve_verb resolve_space resolve_entity_type
      resolve_entity_ref)

lemma grantMatchesLocked_rules:
  "grantMatchesLocked ts g req deny \<longleftrightarrow> (\<exists>r \<in> set (grant_rules ts g). ruleMatches r req deny)"
  by (auto simp: grantMatchesLocked_def grant_rules_def list_ex_iff templateRuleMatches_resolve
      split: option.splits)

lemma grantTouchesSpaceLocked_rules:
  "grantTouchesSpaceLocked ts g sp d \<longleftrightarrow>
    (\<exists>r \<in> set (grant_rules ts g). allowTouchesSpace (rule_Effect r) d \<and>
       spaceMatches (sel_Spaces (rule_Selector r)) sp)"
  by (auto simp: grantTouchesSpaceLocked_def grant_rules_def list_ex_iff resolve_space
      resolve_rule_def split: option.splits)

lemma allow_match_touches_space:
  "ruleMatches r req False \<Longrightarrow> allowTouchesSpace (rule_Effect r) (req_Delegated req) \<and>
     spaceMatches (sel_Spaces (rule_Selector r)) (req_SpaceID req)"
  by (auto simp: ruleMatches_def effectMatches_def allowTouchesSpace_def selectorMatches_def
      split: option.splits)

end
