(* ===== verification/Authz_Validate.thy ===== *)
theory Authz_Validate
  imports Authz_Eval
begin

text \<open>
  The validation of rules, templates and argument bindings in
  \<open>backend/app/primary/domain/authz/validate.go\<close>. An \<open>error\<close> return is an option; the
  message texts are constructors that carry the values the message prints, and a wrapping
  \<open>fmt.Errorf("...: %w", err)\<close> is \<open>Wrapped\<close> with its context. Go maps built inside a
  validation are association lists in insertion order; where the code ranges over a map to
  find an error, the model reports the first in that order.
  The main result is that the two validation paths agree: a template that passes
  \<open>validateTemplate\<close>, bound to arguments that pass \<open>validateArgs\<close>, stands for concrete
  rules that each pass \<open>validateRule\<close>.
\<close>

section \<open>Errors\<close>

datatype authz_field = FSpaces | FEntityTypes | FEntityRefs | FPermissions

datatype invalid_reason =
    BadTemplateName string
  | BadValue int
  | BadEntityRef
  | NotExactlyOne
  | MatchesNothing
  | BadEffect
  | RuleEmpty
  | DeniesAccess
  | GlobalRuleEmpty
  | BadGlobalRuleName string
  | SelectorMissing authz_field
  | TemplateEmpty
  | BadArgumentID
  | DuplicateArgumentID nat
  | BadArgumentName string
  | DuplicateArgumentName string
  | BadArgumentKind nat
  | NoRules
  | UndeclaredArgument nat authz_field nat
  | WrongArgumentKind nat authz_field nat
  | RuleDeniesAccess nat
  | UnusedArgument nat
  | RequiresKind AuthzArgumentKind
  | RequiresValues
  | InvalidKind
  | TakesNoArguments string
  | BindingMissingID
  | DuplicateBinding nat
  | NoSuchArgument string nat
  | ArgumentDeniesAccess nat
  | RequiresAllBindings string nat
  | GrantNeedsUser
  | GrantNotExactlyOne

datatype error_context =
    CField authz_field
  | CRule nat
  | CGlobalRule
  | CGrantRule
  | CArgument nat
  | CUpdateInvalidates nat
  | CGrantTemplate nat

datatype authz_error =
    ErrNotFound
  | ErrBuiltin
  | ErrNameTaken
  | ErrTemplateInUse
  | ErrLastAdmin
  | Invalid invalid_reason
  | Wrapped error_context authz_error
  | NilDereference

text \<open>\<open>errors.Is(err, ErrInvalid)\<close>: through the wrapping, as \<open>mapAuthzErr\<close> uses it.\<close>

fun is_invalid :: "authz_error \<Rightarrow> bool" where
  "is_invalid (Invalid r) = True"
| "is_invalid (Wrapped c e) = is_invalid e"
| "is_invalid _ = False"

section \<open>Names and values\<close>

definition maxNameLen :: nat where
  "maxNameLen = 64"

definition is_lower :: "char \<Rightarrow> bool" where
  "is_lower c \<longleftrightarrow> 97 \<le> (of_char c :: int) \<and> (of_char c :: int) \<le> 122"

definition is_digit :: "char \<Rightarrow> bool" where
  "is_digit c \<longleftrightarrow> 48 \<le> (of_char c :: int) \<and> (of_char c :: int) \<le> 57"

text \<open>The regular expression \<open>^[a-z][a-z0-9_]*$\<close>.\<close>

fun nameRe :: "string \<Rightarrow> bool" where
  "nameRe [] = False"
| "nameRe (c # cs) \<longleftrightarrow> is_lower c \<and> list_all (\<lambda>d. is_lower d \<or> is_digit d \<or> d = CHR ''_'') cs"

definition bad_name :: "string \<Rightarrow> bool" where
  "bad_name name \<longleftrightarrow> name = [] \<or> length name > maxNameLen \<or> \<not> nameRe name"

definition validateTemplateName :: "string \<Rightarrow> authz_error option" where
  "validateTemplateName name = (if bad_name name then Some (Invalid (BadTemplateName name)) else None)"

definition validVerb :: "AuthzVerb \<Rightarrow> bool" where
  "validVerb v \<longleftrightarrow> v \<ge> VERB_CREATE \<and> v \<le> VERB_USE_HOST_NETWORK"

definition validEntityKind :: "AuthzEntityKind \<Rightarrow> bool" where
  "validEntityKind v \<longleftrightarrow> v \<ge> KIND_SPACE \<and> v \<le> KIND_ACCESS"

definition validArgumentKind :: "AuthzArgumentKind \<Rightarrow> bool" where
  "validArgumentKind v \<longleftrightarrow> v \<ge> ARG_PERMISSION \<and> v \<le> ARG_ENTITY_REF"

definition validSpaceID :: "nat \<Rightarrow> bool" where
  "validSpaceID v \<longleftrightarrow> int v \<le> 65535"

definition validEntityRef :: "AuthzEntityRef \<Rightarrow> bool" where
  "validEntityRef r = (case EntityRefTarget r of (_, i, ok) \<Rightarrow> ok \<and> i > 0)"

definition validateVerbs :: "AuthzVerb list \<Rightarrow> authz_error option" where
  "validateVerbs vs = find_err (\<lambda>v. if \<not> validVerb v then Some (Invalid (BadValue v)) else None) vs"

definition validateSpaces :: "nat list \<Rightarrow> authz_error option" where
  "validateSpaces ids = find_err (\<lambda>v. if \<not> validSpaceID v then Some (Invalid (BadValue (int v))) else None) ids"

definition validateEntityKinds :: "AuthzEntityKind list \<Rightarrow> authz_error option" where
  "validateEntityKinds ks = find_err (\<lambda>v. if \<not> validEntityKind v then Some (Invalid (BadValue v)) else None) ks"

definition validateEntityRefs :: "AuthzEntityRef list \<Rightarrow> authz_error option" where
  "validateEntityRefs refs = find_err (\<lambda>r. if \<not> validEntityRef r then Some (Invalid BadEntityRef) else None) refs"

section \<open>Selectors and rules\<close>

definition oneOfTwo :: "bool \<Rightarrow> bool \<Rightarrow> nat \<Rightarrow> authz_error option" where
  "oneOfTwo exact allExcluding exactLen =
    (if exact = allExcluding then Some (Invalid NotExactlyOne)
     else if exact \<and> exactLen = 0 then Some (Invalid MatchesNothing)
     else None)"

definition validatePermissionSelector :: "AuthzPermissionSelector \<Rightarrow> authz_error option" where
  "validatePermissionSelector sel =
    then_err (oneOfTwo (Present (Exact sel)) (Present (AllExcluding sel)) (length (Value (Exact sel))))
    (then_err (validateVerbs (Value (Exact sel))) (validateVerbs (Value (AllExcluding sel))))"

definition validateSpaceSelector :: "AuthzSpaceSelector \<Rightarrow> authz_error option" where
  "validateSpaceSelector sel =
    then_err (oneOfTwo (Present (Exact sel)) (Present (AllExcluding sel)) (length (Value (Exact sel))))
    (then_err (validateSpaces (Value (Exact sel))) (validateSpaces (Value (AllExcluding sel))))"

definition validateEntityTypeSelector :: "AuthzEntityTypeSelector \<Rightarrow> authz_error option" where
  "validateEntityTypeSelector sel =
    then_err (oneOfTwo (Present (Exact sel)) (Present (AllExcluding sel)) (length (Value (Exact sel))))
    (then_err (validateEntityKinds (Value (Exact sel))) (validateEntityKinds (Value (AllExcluding sel))))"

definition validateEntityRefSelector :: "AuthzEntityRefSelector \<Rightarrow> authz_error option" where
  "validateEntityRefSelector sel =
    then_err (oneOfTwo (Present (Exact sel)) (Present (AllExcluding sel)) (length (Value (Exact sel))))
    (then_err (validateEntityRefs (Value (Exact sel))) (validateEntityRefs (Value (AllExcluding sel))))"

definition validateSelector :: "AuthzSelector \<Rightarrow> authz_error option" where
  "validateSelector sel =
    then_err (wrap_err (Wrapped (CField FSpaces)) (validateSpaceSelector (sel_Spaces sel)))
    (then_err (wrap_err (Wrapped (CField FEntityTypes)) (validateEntityTypeSelector (sel_EntityTypes sel)))
    (then_err (wrap_err (Wrapped (CField FEntityRefs)) (validateEntityRefSelector (sel_EntityRefs sel)))
    (wrap_err (Wrapped (CField FPermissions)) (validatePermissionSelector (sel_Permissions sel)))))"

text \<open>\<open>AuthzEffectValueOneof.Validate\<close> counts the selected alternatives.\<close>

definition selected :: "'a option \<Rightarrow> nat" where
  "selected x = (case x of None \<Rightarrow> 0 | Some _ \<Rightarrow> 1)"

definition validateEffect :: "AuthzEffect \<Rightarrow> authz_error option" where
  "validateEffect e = (if selected (Allow e) + selected (Deny e) \<noteq> 1 then Some (Invalid BadEffect) else None)"

definition isDeny :: "AuthzEffect \<Rightarrow> bool" where
  "isDeny e \<longleftrightarrow> Deny e \<noteq> None"

definition deniesAccess :: "AuthzEffect \<Rightarrow> AuthzEntityTypeSelector \<Rightarrow> bool" where
  "deniesAccess e sel \<longleftrightarrow> isDeny e \<and> KIND_ACCESS \<in> set (Value (Exact sel))"

definition validateRule :: "AuthzRule option \<Rightarrow> authz_error option" where
  "validateRule r =
    (case r of None \<Rightarrow> Some (Invalid RuleEmpty)
     | Some r \<Rightarrow>
        then_err (validateEffect (rule_Effect r))
        (then_err (validateSelector (rule_Selector r))
        (if deniesAccess (rule_Effect r) (sel_EntityTypes (rule_Selector r))
         then Some (Invalid DeniesAccess) else None)))"

definition validateGlobalRule :: "string \<Rightarrow> AuthzRule option \<Rightarrow> authz_error option" where
  "validateGlobalRule name r =
    (if r = None then Some (Invalid GlobalRuleEmpty)
     else if bad_name name then Some (Invalid (BadGlobalRuleName name))
     else wrap_err (Wrapped CGlobalRule) (validateRule r))"

section \<open>Templates\<close>

record argumentUse =
  use_id :: nat
  use_kind :: AuthzArgumentKind
  use_name :: authz_field

text \<open>One \<open>switch\<close> of \<open>templateSelectorUses\<close>: an argument is a use, a literal is validated.\<close>

definition position_uses ::
  "authz_field \<Rightarrow> AuthzArgumentKind \<Rightarrow> ('a position \<Rightarrow> authz_error option) \<Rightarrow> 'a template_position \<Rightarrow>
   authz_error + argumentUse list" where
  "position_uses f kind validate p =
    (case Argument p of
       Some a \<Rightarrow> Inr [\<lparr>use_id = a, use_kind = kind, use_name = f\<rparr>]
     | None \<Rightarrow> (case Selector p of
         Some s \<Rightarrow> (case validate s of Some e \<Rightarrow> Inl (Wrapped (CField f) e) | None \<Rightarrow> Inr [])
       | None \<Rightarrow> Inl (Invalid (SelectorMissing f))))"

definition templateSelectorUses :: "AuthzTemplateSelector \<Rightarrow> authz_error + argumentUse list" where
  "templateSelectorUses sel =
    bindE (position_uses FSpaces ARG_SPACE validateSpaceSelector (tsel_Spaces sel)) (\<lambda>a.
    bindE (position_uses FEntityTypes ARG_ENTITY_TYPE validateEntityTypeSelector (tsel_EntityTypes sel)) (\<lambda>b.
    bindE (position_uses FEntityRefs ARG_ENTITY_REF validateEntityRefSelector (tsel_EntityRefs sel)) (\<lambda>c.
    bindE (position_uses FPermissions ARG_PERMISSION validatePermissionSelector (tsel_Permissions sel)) (\<lambda>d.
    Inr (a @ b @ c @ d)))))"

type_synonym declared = "(nat \<times> AuthzArgumentKind) list"

fun declare_args :: "AuthzTemplateArgument list \<Rightarrow> declared \<Rightarrow> string list \<Rightarrow> authz_error + declared" where
  "declare_args [] declared argNames = Inr declared"
| "declare_args (a # as) declared argNames =
    (if arg_ID a = 0 then Inl (Invalid BadArgumentID)
     else if map_of declared (arg_ID a) \<noteq> None then Inl (Invalid (DuplicateArgumentID (arg_ID a)))
     else if bad_name (arg_Name a) then Inl (Invalid (BadArgumentName (arg_Name a)))
     else if arg_Name a \<in> set argNames then Inl (Invalid (DuplicateArgumentName (arg_Name a)))
     else if \<not> validArgumentKind (arg_Kind a) then Inl (Invalid (BadArgumentKind (arg_ID a)))
     else declare_args as (declared @ [(arg_ID a, arg_Kind a)]) (arg_Name a # argNames))"

fun check_uses :: "nat \<Rightarrow> declared \<Rightarrow> argumentUse list \<Rightarrow> nat list \<Rightarrow> authz_error + nat list" where
  "check_uses i declared [] used = Inr used"
| "check_uses i declared (u # us) used =
    (case map_of declared (use_id u) of
       None \<Rightarrow> Inl (Invalid (UndeclaredArgument i (use_name u) (use_id u)))
     | Some kind \<Rightarrow>
        if kind \<noteq> use_kind u then Inl (Invalid (WrongArgumentKind i (use_name u) (use_id u)))
        else check_uses i declared us (use_id u # used))"

definition literal_denies_access :: "AuthzTemplateRule \<Rightarrow> bool" where
  "literal_denies_access rule =
    (case Selector (tsel_EntityTypes (trule_Selector rule)) of
       None \<Rightarrow> False | Some s \<Rightarrow> deniesAccess (trule_Effect rule) s)"

fun check_rules :: "nat \<Rightarrow> declared \<Rightarrow> AuthzTemplateRule list \<Rightarrow> nat list \<Rightarrow> authz_error + nat list" where
  "check_rules i declared [] used = Inr used"
| "check_rules i declared (rule # rules) used =
    (case validateEffect (trule_Effect rule) of
       Some e \<Rightarrow> Inl (Wrapped (CRule i) e)
     | None \<Rightarrow>
      (case templateSelectorUses (trule_Selector rule) of
         Inl e \<Rightarrow> Inl (Wrapped (CRule i) e)
       | Inr uses \<Rightarrow>
        bindE (check_uses i declared uses used) (\<lambda>used'.
          if literal_denies_access rule then Inl (Invalid (RuleDeniesAccess i))
          else check_rules (Suc i) declared rules used')))"

definition validateTemplate :: "string \<Rightarrow> AuthzGrantTemplateSpec option \<Rightarrow> authz_error option" where
  "validateTemplate name spec =
    then_err (validateTemplateName name)
    (case spec of None \<Rightarrow> Some (Invalid TemplateEmpty)
     | Some t \<Rightarrow>
      (case declare_args (Arguments t) [] [] of
         Inl e \<Rightarrow> Some e
       | Inr declared \<Rightarrow>
          if Rules t = [] then Some (Invalid NoRules)
          else (case check_rules 0 declared (Rules t) [] of
             Inl e \<Rightarrow> Some e
           | Inr used \<Rightarrow>
              find_err (\<lambda>(i, k). if i \<notin> set used then Some (Invalid (UnusedArgument i)) else None) declared)))"

definition denyEntityTypeArguments :: "AuthzGrantTemplateSpec \<Rightarrow> nat list" where
  "denyEntityTypeArguments t =
    concat (map (\<lambda>rule. case Argument (tsel_EntityTypes (trule_Selector rule)) of
        Some a \<Rightarrow> if isDeny (trule_Effect rule) then [a] else []
      | None \<Rightarrow> []) (Rules t))"

definition binding_values ::
  "AuthzArgumentKind \<Rightarrow> 'a list option \<Rightarrow> ('a list \<Rightarrow> authz_error option) \<Rightarrow> authz_error option" where
  "binding_values kind vs validate =
    (case vs of None \<Rightarrow> Some (Invalid (RequiresKind kind))
     | Some vs \<Rightarrow> if vs = [] then Some (Invalid RequiresValues) else validate vs)"

definition validateBindingValues :: "AuthzArgumentKind \<Rightarrow> AuthzArgumentValues \<Rightarrow> authz_error option" where
  "validateBindingValues kind v =
    (if kind = ARG_PERMISSION then binding_values kind (val_Permissions v) validateVerbs
     else if kind = ARG_SPACE then binding_values kind (val_Spaces v) validateSpaces
     else if kind = ARG_ENTITY_TYPE then binding_values kind (val_EntityTypes v) validateEntityKinds
     else if kind = ARG_ENTITY_REF then binding_values kind (val_EntityRefs v) validateEntityRefs
     else Some (Invalid InvalidKind))"

fun check_bindings ::
  "string \<Rightarrow> declared \<Rightarrow> nat list \<Rightarrow> AuthzArgumentBinding list \<Rightarrow> nat list \<Rightarrow> authz_error + nat list" where
  "check_bindings name declared denyKinds [] seen = Inr seen"
| "check_bindings name declared denyKinds (b # bs) seen =
    (if bind_ArgumentID b = 0 then Inl (Invalid BindingMissingID)
     else if bind_ArgumentID b \<in> set seen then Inl (Invalid (DuplicateBinding (bind_ArgumentID b)))
     else (case map_of declared (bind_ArgumentID b) of
        None \<Rightarrow> Inl (Invalid (NoSuchArgument name (bind_ArgumentID b)))
      | Some kind \<Rightarrow>
       (case validateBindingValues kind (bind_Values b) of
          Some e \<Rightarrow> Inl (Wrapped (CArgument (bind_ArgumentID b)) e)
        | None \<Rightarrow>
          if bind_ArgumentID b \<in> set denyKinds then
            (case val_EntityTypes (bind_Values b) of
               None \<Rightarrow> Inl NilDereference
             | Some ks \<Rightarrow>
                if KIND_ACCESS \<in> set ks then Inl (Invalid (ArgumentDeniesAccess (bind_ArgumentID b)))
                else check_bindings name declared denyKinds bs (bind_ArgumentID b # seen))
          else check_bindings name declared denyKinds bs (bind_ArgumentID b # seen))))"

definition declared_args :: "AuthzGrantTemplateSpec \<Rightarrow> declared" where
  "declared_args t = fold (\<lambda>a d. AList.update (arg_ID a) (arg_Kind a) d) (Arguments t) []"

definition validateArgs :: "AuthzGrantTemplate \<Rightarrow> AuthzArgumentBinding list \<Rightarrow> authz_error option" where
  "validateArgs t bindings =
    (if Arguments (tpl_Spec t) = [] then
       (if bindings \<noteq> [] then Some (Invalid (TakesNoArguments (tpl_Name t))) else None)
     else
       (let declared = declared_args (tpl_Spec t) in
        case check_bindings (tpl_Name t) declared (denyEntityTypeArguments (tpl_Spec t)) bindings [] of
          Inl e \<Rightarrow> Some e
        | Inr seen \<Rightarrow> if length seen \<noteq> length declared
                     then Some (Invalid (RequiresAllBindings (tpl_Name t) (length declared))) else None))"


section \<open>What validation establishes\<close>

definition position_ok :: "('a \<Rightarrow> bool) \<Rightarrow> 'a position \<Rightarrow> bool" where
  "position_ok valid sel \<longleftrightarrow>
    Present (Exact sel) \<noteq> Present (AllExcluding sel) \<and>
    (Present (Exact sel) \<longrightarrow> Value (Exact sel) \<noteq> []) \<and>
    (\<forall>v \<in> set (Value (Exact sel)) \<union> set (Value (AllExcluding sel)). valid v)"

lemma oneOfTwo_None [err_simps]: "oneOfTwo e a n = None \<longleftrightarrow> e \<noteq> a \<and> (e \<longrightarrow> n \<noteq> 0)"
  by (auto simp: oneOfTwo_def)

lemma validateVerbs_None [err_simps]: "validateVerbs vs = None \<longleftrightarrow> (\<forall>v \<in> set vs. validVerb v)"
  by (auto simp: validateVerbs_def find_err_None)

lemma validateSpaces_None [err_simps]: "validateSpaces vs = None \<longleftrightarrow> (\<forall>v \<in> set vs. validSpaceID v)"
  by (auto simp: validateSpaces_def find_err_None)

lemma validateEntityKinds_None [err_simps]: "validateEntityKinds vs = None \<longleftrightarrow> (\<forall>v \<in> set vs. validEntityKind v)"
  by (auto simp: validateEntityKinds_def find_err_None)

lemma validateEntityRefs_None [err_simps]: "validateEntityRefs vs = None \<longleftrightarrow> (\<forall>v \<in> set vs. validEntityRef v)"
  by (auto simp: validateEntityRefs_def find_err_None)

text \<open>
  The contract of a position's validator: it accepts exactly the well-formed positions, and
  the validator of a bound value list accepts exactly the lists of valid values. A template
  position then resolves to a position its own validator accepts.
\<close>

locale position_validator =
  fixes validate :: "'a position \<Rightarrow> authz_error option"
    and values_ok :: "'a list \<Rightarrow> authz_error option"
    and valid :: "'a \<Rightarrow> bool"
  assumes validate_iff: "validate sel = None \<longleftrightarrow> position_ok valid sel"
    and values_iff: "values_ok vs = None \<longleftrightarrow> (\<forall>v \<in> set vs. valid v)"
begin

lemma bound_argument:
  "vs \<noteq> [] \<Longrightarrow> values_ok vs = None \<Longrightarrow>
   validate \<lparr>Exact = some_maybe vs, AllExcluding = absent []\<rparr> = None"
  by (auto simp: validate_iff values_iff position_ok_def)

lemma resolved:
  assumes "position_uses f kind validate p = Inr us"
    and "\<And>u. u \<in> set us \<Longrightarrow> \<exists>b vs. binding bs (use_id u) = Some b \<and>
           vals (bind_Values b) = Some vs \<and> vs \<noteq> [] \<and> values_ok vs = None"
  shows "validate (resolve_position vals bs p) = None"
proof (cases "Argument p")
  case None
  with assms(1) show ?thesis
    by (auto simp: position_uses_def resolve_position_def split: option.splits)
next
  case (Some a)
  with assms(1) have "us = [\<lparr>use_id = a, use_kind = kind, use_name = f\<rparr>]"
    by (simp add: position_uses_def)
  with assms(2) obtain b vs where "binding bs a = Some b" "vals (bind_Values b) = Some vs"
      "vs \<noteq> []" "values_ok vs = None"
    by auto
  with Some show ?thesis by (simp add: resolve_position_def bound_argument)
qed

end

interpretation space_validator: position_validator validateSpaceSelector validateSpaces validSpaceID
  by unfold_locales (auto simp: validateSpaceSelector_def err_simps position_ok_def)

interpretation kind_validator: position_validator validateEntityTypeSelector validateEntityKinds validEntityKind
  by unfold_locales (auto simp: validateEntityTypeSelector_def err_simps position_ok_def)

interpretation ref_validator: position_validator validateEntityRefSelector validateEntityRefs validEntityRef
  by unfold_locales (auto simp: validateEntityRefSelector_def err_simps position_ok_def)

interpretation verb_validator: position_validator validatePermissionSelector validateVerbs validVerb
  by unfold_locales (auto simp: validatePermissionSelector_def err_simps position_ok_def)

definition selector_ok :: "AuthzSelector \<Rightarrow> bool" where
  "selector_ok sel \<longleftrightarrow>
    position_ok validSpaceID (sel_Spaces sel) \<and> position_ok validEntityKind (sel_EntityTypes sel) \<and>
    position_ok validEntityRef (sel_EntityRefs sel) \<and> position_ok validVerb (sel_Permissions sel)"

lemma validateSelector_None [err_simps]: "validateSelector sel = None \<longleftrightarrow> selector_ok sel"
  by (simp add: validateSelector_def selector_ok_def space_validator.validate_iff
      kind_validator.validate_iff ref_validator.validate_iff verb_validator.validate_iff)

lemma validateEffect_None [err_simps]:
  "validateEffect e = None \<longleftrightarrow> (Allow e = None) \<noteq> (Deny e = None)"
  by (auto simp: validateEffect_def selected_def split: option.splits)

lemma validateRule_None [err_simps]:
  "validateRule (Some r) = None \<longleftrightarrow> (Allow (rule_Effect r) = None) \<noteq> (Deny (rule_Effect r) = None) \<and>
     selector_ok (rule_Selector r) \<and> \<not> deniesAccess (rule_Effect r) (sel_EntityTypes (rule_Selector r))"
  by (simp add: validateRule_def err_simps)

section \<open>Templates and bindings agree\<close>

lemma binding_Some: "binding bs a = Some b \<Longrightarrow> b \<in> set bs \<and> bind_ArgumentID b = a"
  by (induction bs) (auto split: if_splits)

lemma binding_exists: "a \<in> bind_ArgumentID ` set bs \<Longrightarrow> \<exists>b. binding bs a = Some b"
  by (induction bs) auto

lemma declare_args_Inr:
  "declare_args as d ns = Inr D \<Longrightarrow> distinct (map fst d) \<Longrightarrow>
   D = d @ map (\<lambda>a. (arg_ID a, arg_Kind a)) as \<and> distinct (map fst D)"
proof (induction as arbitrary: d ns)
  case (Cons a as)
  let ?d = "d @ [(arg_ID a, arg_Kind a)]"
  from Cons.prems(1) have c: "map_of d (arg_ID a) = None"
    and rest: "declare_args as ?d (arg_Name a # ns) = Inr D"
    by (auto split: if_splits)
  from c Cons.prems(2) have "distinct (map fst ?d)" by (auto simp: map_of_eq_None_iff)
  note ih = Cons.IH [OF rest this]
  show ?case
  proof (intro conjI)
    from ih show "distinct (map fst D)" by blast
    from ih show "D = d @ map (\<lambda>a. (arg_ID a, arg_Kind a)) (a # as)" by simp
  qed
qed simp

lemma fold_update_distinct:
  "distinct (map fst d @ map arg_ID as) \<Longrightarrow>
   fold (\<lambda>a d. AList.update (arg_ID a) (arg_Kind a) d) as d = d @ map (\<lambda>a. (arg_ID a, arg_Kind a)) as"
proof (induction as arbitrary: d)
  case (Cons a as)
  have "arg_ID a \<notin> fst ` set d" using Cons.prems by auto
  then have "AList.update (arg_ID a) (arg_Kind a) d = d @ [(arg_ID a, arg_Kind a)]"
    by (induction d) auto
  moreover have "distinct (map fst (d @ [(arg_ID a, arg_Kind a)]) @ map arg_ID as)"
    using Cons.prems by auto
  ultimately show ?case using Cons.IH by simp
qed simp

lemma declared_args_eq:
  assumes "declare_args (Arguments t) [] [] = Inr D"
  shows "declared_args t = D" and "distinct (map fst D)"
proof -
  from declare_args_Inr [OF assms]
  have D: "D = map (\<lambda>a. (arg_ID a, arg_Kind a)) (Arguments t)" and dist: "distinct (map fst D)"
    by auto
  from dist show "distinct (map fst D)" .
  from D dist have "distinct (map fst [] @ map arg_ID (Arguments t))" by (simp add: comp_def)
  from fold_update_distinct [OF this] D show "declared_args t = D"
    by (simp add: declared_args_def)
qed

lemma check_uses_Inr:
  "check_uses i D us used = Inr used' \<Longrightarrow> \<forall>u \<in> set us. map_of D (use_id u) = Some (use_kind u)"
  by (induction us arbitrary: used) (auto split: option.splits if_splits)

lemma check_rules_Inr:
  "check_rules i D rules used = Inr used' \<Longrightarrow> r \<in> set rules \<Longrightarrow>
   validateEffect (trule_Effect r) = None \<and> \<not> literal_denies_access r \<and>
   (\<exists>us. templateSelectorUses (trule_Selector r) = Inr us \<and>
         (\<forall>u \<in> set us. map_of D (use_id u) = Some (use_kind u)))"
proof (induction i D rules used rule: check_rules.induct)
  case (2 i D rule rules used)
  then show ?case
    by (auto split: option.splits sum.splits if_splits simp: bindE_Inr dest!: check_uses_Inr)
qed simp

lemma check_bindings_Inr:
  "check_bindings name D deny bs seen = Inr seen' \<Longrightarrow>
   seen' = rev (map bind_ArgumentID bs) @ seen \<and>
   (distinct seen \<longrightarrow> distinct seen') \<and>
   (\<forall>b \<in> set bs. \<exists>kind. map_of D (bind_ArgumentID b) = Some kind \<and>
      validateBindingValues kind (bind_Values b) = None \<and>
      (bind_ArgumentID b \<in> set deny \<longrightarrow>
        (\<exists>ks. val_EntityTypes (bind_Values b) = Some ks \<and> KIND_ACCESS \<notin> set ks)))"
proof (induction name D deny bs seen rule: check_bindings.induct)
  case (2 name D deny b bs seen)
  then show ?case by (fastforce split: if_splits option.splits)
qed simp

lemma binding_values_None [err_simps]:
  "binding_values kind vs v = None \<longleftrightarrow> (\<exists>xs. vs = Some xs \<and> xs \<noteq> [] \<and> v xs = None)"
  by (auto simp: binding_values_def split: option.splits)

text \<open>Every declared argument of a template is bound by validated arguments, with its kind.\<close>

lemma validateArgs_bound:
  assumes "validateArgs t bs = None"
    and D: "declare_args (Arguments (tpl_Spec t)) [] [] = Inr D"
    and a: "map_of D a = Some kind"
  obtains b where "binding bs a = Some b" "b \<in> set bs"
    "validateBindingValues kind (bind_Values b) = None"
    "a \<in> set (denyEntityTypeArguments (tpl_Spec t)) \<longrightarrow>
       (\<exists>ks. val_EntityTypes (bind_Values b) = Some ks \<and> KIND_ACCESS \<notin> set ks)"
proof -
  have "D \<noteq> []" using a by auto
  then have "Arguments (tpl_Spec t) \<noteq> []" using declare_args_Inr [OF D] by auto
  with assms(1) obtain seen where
    seen: "check_bindings (tpl_Name t) D (denyEntityTypeArguments (tpl_Spec t)) bs [] = Inr seen"
      "length seen = length D"
    by (auto simp: validateArgs_def declared_args_eq [OF D] Let_def split: sum.splits if_splits)
  note facts = check_bindings_Inr [OF seen(1)]
  have "bind_ArgumentID b \<in> fst ` set D" if "b \<in> set bs" for b
    using facts that by (metis domI dom_map_of_conv_image_fst)
  with facts have "set seen \<subseteq> set (map fst D)" by auto
  moreover have "card (set seen) = card (set (map fst D))"
    using facts seen(2) distinct_card [of seen] distinct_card [OF declared_args_eq(2) [OF D]]
    by (metis distinct.simps(1) length_map)
  ultimately have "set seen = set (map fst D)"
    by (metis List.finite_set card_subset_eq)
  moreover have "a \<in> set (map fst D)" using a by (force dest: map_of_SomeD)
  ultimately have "a \<in> bind_ArgumentID ` set bs" using facts by auto
  then obtain b where b: "binding bs a = Some b" using binding_exists by blast
  then have "b \<in> set bs" "bind_ArgumentID b = a" using binding_Some by auto
  with facts a b that show ?thesis by fastforce
qed

lemma validateTemplate_None:
  assumes "validateTemplate n (Some t) = None"
  obtains D where "declare_args (Arguments t) [] [] = Inr D" "Rules t \<noteq> []" "\<not> bad_name n"
    "\<And>r. r \<in> set (Rules t) \<Longrightarrow> validateEffect (trule_Effect r) = None \<and> \<not> literal_denies_access r \<and>
       (\<exists>us. templateSelectorUses (trule_Selector r) = Inr us \<and>
             (\<forall>u \<in> set us. map_of D (use_id u) = Some (use_kind u)))"
proof -
  from assms obtain D used where D: "declare_args (Arguments t) [] [] = Inr D"
    and "Rules t \<noteq> []" "\<not> bad_name n" and "check_rules 0 D (Rules t) [] = Inr used"
    by (auto simp: validateTemplate_def validateTemplateName_def split: sum.splits if_splits)
  with that show ?thesis using check_rules_Inr by blast
qed

lemma deny_argument_collected:
  "r \<in> set (Rules t) \<Longrightarrow> Argument (tsel_EntityTypes (trule_Selector r)) = Some a \<Longrightarrow>
   isDeny (trule_Effect r) \<Longrightarrow> a \<in> set (denyEntityTypeArguments t)"
  by (force simp: denyEntityTypeArguments_def)

lemma templateSelectorUses_Inr:
  assumes "templateSelectorUses sel = Inr us"
  obtains a b c d where "us = a @ b @ c @ d"
    "position_uses FSpaces ARG_SPACE validateSpaceSelector (tsel_Spaces sel) = Inr a"
    "position_uses FEntityTypes ARG_ENTITY_TYPE validateEntityTypeSelector (tsel_EntityTypes sel) = Inr b"
    "position_uses FEntityRefs ARG_ENTITY_REF validateEntityRefSelector (tsel_EntityRefs sel) = Inr c"
    "position_uses FPermissions ARG_PERMISSION validatePermissionSelector (tsel_Permissions sel) = Inr d"
  using assms by (auto simp: templateSelectorUses_def bindE_Inr)

lemma position_uses_kind:
  "position_uses f kind v p = Inr us \<Longrightarrow> u \<in> set us \<Longrightarrow> use_kind u = kind \<and> Argument p = Some (use_id u)"
  by (auto simp: position_uses_def split: option.splits)

text \<open>
  The point of validating a template once and its bindings on every grant: whatever rule the
  pair resolves to is a rule that \<open>validateRule\<close> would have accepted on its own.
\<close>

lemma position_uses_bound:
  assumes "validateArgs t bs = None"
    and "declare_args (Arguments (tpl_Spec t)) [] [] = Inr D"
    and "\<forall>u \<in> set us. map_of D (use_id u) = Some kind"
    and "\<And>vals. validateBindingValues kind vals = None \<Longrightarrow>
           (\<exists>vs. get vals = Some vs \<and> vs \<noteq> [] \<and> values_ok vs = None)"
  shows "\<forall>u \<in> set us. \<exists>b vs. binding bs (use_id u) = Some b \<and> get (bind_Values b) = Some vs \<and>
           vs \<noteq> [] \<and> values_ok vs = None"
proof
  fix u assume "u \<in> set us"
  with assms(3) have "map_of D (use_id u) = Some kind" by auto
  from validateArgs_bound [OF assms(1,2) this] obtain b where
    "binding bs (use_id u) = Some b" "validateBindingValues kind (bind_Values b) = None"
    by blast
  with assms(4) show "\<exists>b vs. binding bs (use_id u) = Some b \<and> get (bind_Values b) = Some vs \<and>
           vs \<noteq> [] \<and> values_ok vs = None" by blast
qed

lemma resolved_not_deny_access:
  assumes bs: "validateArgs t bs = None"
    and D: "declare_args (Arguments (tpl_Spec t)) [] [] = Inr D"
    and r: "r \<in> set (Rules (tpl_Spec t))" and lit: "\<not> literal_denies_access r"
    and p: "position_uses FEntityTypes ARG_ENTITY_TYPE validateEntityTypeSelector
              (tsel_EntityTypes (trule_Selector r)) = Inr us"
    and us: "\<forall>u \<in> set us. map_of D (use_id u) = Some ARG_ENTITY_TYPE"
  shows "\<not> deniesAccess (trule_Effect r)
           (resolve_position val_EntityTypes bs (tsel_EntityTypes (trule_Selector r)))"
proof (cases "Argument (tsel_EntityTypes (trule_Selector r))")
  case None
  with lit p show ?thesis
    by (auto simp: position_uses_def literal_denies_access_def resolve_position_def
        split: option.splits)
next
  case (Some a)
  with p us have "map_of D a = Some ARG_ENTITY_TYPE" by (auto simp: position_uses_def)
  from validateArgs_bound [OF bs D this] obtain b where "binding bs a = Some b"
    "a \<in> set (denyEntityTypeArguments (tpl_Spec t)) \<longrightarrow>
       (\<exists>ks. val_EntityTypes (bind_Values b) = Some ks \<and> KIND_ACCESS \<notin> set ks)" .
  with Some deny_argument_collected [OF r Some] show ?thesis
    by (auto simp: deniesAccess_def resolve_position_def)
qed

lemmas bound_by_kind = validateBindingValues_def binding_values_None

lemma resolved_rule_valid:
  assumes t: "validateTemplate n (Some (tpl_Spec t)) = None" and bs: "validateArgs t bs = None"
    and r: "r \<in> set (Rules (tpl_Spec t))"
  shows "validateRule (Some (resolve_rule bs r)) = None"
proof -
  let ?sel = "trule_Selector r"
  from validateTemplate_None [OF t] r obtain D us where D: "declare_args (Arguments (tpl_Spec t)) [] [] = Inr D"
    and eff: "validateEffect (trule_Effect r) = None" and lit: "\<not> literal_denies_access r"
    and us: "templateSelectorUses ?sel = Inr us"
    and bound: "\<forall>u \<in> set us. map_of D (use_id u) = Some (use_kind u)"
    by metis
  from templateSelectorUses_Inr [OF us] obtain a b c d where abcd: "us = a @ b @ c @ d"
    and a: "position_uses FSpaces ARG_SPACE validateSpaceSelector (tsel_Spaces ?sel) = Inr a"
    and b: "position_uses FEntityTypes ARG_ENTITY_TYPE validateEntityTypeSelector (tsel_EntityTypes ?sel) = Inr b"
    and c: "position_uses FEntityRefs ARG_ENTITY_REF validateEntityRefSelector (tsel_EntityRefs ?sel) = Inr c"
    and d: "position_uses FPermissions ARG_PERMISSION validatePermissionSelector (tsel_Permissions ?sel) = Inr d" .
  have kinds: "\<forall>u \<in> set a. map_of D (use_id u) = Some ARG_SPACE"
    "\<forall>u \<in> set b. map_of D (use_id u) = Some ARG_ENTITY_TYPE"
    "\<forall>u \<in> set c. map_of D (use_id u) = Some ARG_ENTITY_REF"
    "\<forall>u \<in> set d. map_of D (use_id u) = Some ARG_PERMISSION"
    using bound abcd position_uses_kind [OF a] position_uses_kind [OF b] position_uses_kind [OF c]
      position_uses_kind [OF d] by auto
  note pb = position_uses_bound [OF bs D]
  have "validateSpaceSelector (resolve_position val_Spaces bs (tsel_Spaces ?sel)) = None"
    using space_validator.resolved [OF a] pb [OF kinds(1), of val_Spaces validateSpaces]
    by (simp add: bound_by_kind)
  moreover have "validateEntityTypeSelector (resolve_position val_EntityTypes bs (tsel_EntityTypes ?sel)) = None"
    using kind_validator.resolved [OF b] pb [OF kinds(2), of val_EntityTypes validateEntityKinds]
    by (simp add: bound_by_kind)
  moreover have "validateEntityRefSelector (resolve_position val_EntityRefs bs (tsel_EntityRefs ?sel)) = None"
    using ref_validator.resolved [OF c] pb [OF kinds(3), of val_EntityRefs validateEntityRefs]
    by (simp add: bound_by_kind)
  moreover have "validatePermissionSelector (resolve_position val_Permissions bs (tsel_Permissions ?sel)) = None"
    using verb_validator.resolved [OF d] pb [OF kinds(4), of val_Permissions validateVerbs]
    by (simp add: bound_by_kind)
  moreover have "\<not> deniesAccess (trule_Effect r) (resolve_position val_EntityTypes bs (tsel_EntityTypes ?sel))"
    by (rule resolved_not_deny_access [OF bs D r lit b kinds(2)])
  ultimately show ?thesis using eff
    by (simp add: validateRule_def resolve_rule_def validateSelector_def)
qed

end
