(* ===== verification/Api.thy ===== *)
theory Api
  imports Authz_Model "HOL-Library.Word"
begin

text \<open>
  The entities of \<open>backend/apigen/model.gen.go\<close> that the primary stores, and the accessors of
  \<open>backend/apigen/model_ext.go\<close>. A message is a record, a \<open>Maybe\<close> field keeps its presence
  flag beside its value, and a \<open>oneof\<close> is an optional value of a datatype with the source's
  alternatives (\<^term>\<open>None\<close> when none is set). Ids and counters are natural numbers, clocks and
  sequence numbers are integers, a \<open>time.Time\<close> is its Unix nanoseconds, and enums are the
  integers they are on the wire. The counters that the source keeps in 32 bits are unbounded here:
  they advance by one per commit.
\<close>

type_synonym bytes = "8 word list"
type_synonym clock = int

section \<open>Enumerations\<close>

type_synonym ScheduledInstanceTarget = int
type_synonym RunningStatus = int
type_synonym InputsStatus = int
type_synonym ImageStatus = int
type_synonym PreparationStatus = int
type_synonym ContainerUpgradeStrategy = int
type_synonym NodeLifecycleStatus = int
type_synonym CoreEntityType = int

abbreviation (input) TARGET_RUN_SERVING :: ScheduledInstanceTarget where "TARGET_RUN_SERVING \<equiv> 0"
abbreviation (input) TARGET_TERMINATE :: ScheduledInstanceTarget where "TARGET_TERMINATE \<equiv> 1"
abbreviation (input) TARGET_FINALIZED :: ScheduledInstanceTarget where "TARGET_FINALIZED \<equiv> 2"
abbreviation (input) TARGET_RUN_STANDBY :: ScheduledInstanceTarget where "TARGET_RUN_STANDBY \<equiv> 3"
abbreviation (input) TARGET_RUN_DRAINING :: ScheduledInstanceTarget where "TARGET_RUN_DRAINING \<equiv> 4"

abbreviation (input) RUNNING_STATUS_UNSPECIFIED :: RunningStatus where "RUNNING_STATUS_UNSPECIFIED \<equiv> 0"
abbreviation (input) RUNNING_STATUS_NO_DEPLOYMENT :: RunningStatus where "RUNNING_STATUS_NO_DEPLOYMENT \<equiv> 1"
abbreviation (input) RUNNING_STATUS_RUNNING :: RunningStatus where "RUNNING_STATUS_RUNNING \<equiv> 2"
abbreviation (input) RUNNING_STATUS_STOPPED :: RunningStatus where "RUNNING_STATUS_STOPPED \<equiv> 3"
abbreviation (input) RUNNING_STATUS_STARTING :: RunningStatus where "RUNNING_STATUS_STARTING \<equiv> 4"
abbreviation (input) RUNNING_STATUS_CRASHED :: RunningStatus where "RUNNING_STATUS_CRASHED \<equiv> 5"

abbreviation (input) INPUTS_UNSPECIFIED :: InputsStatus where "INPUTS_UNSPECIFIED \<equiv> 0"
abbreviation (input) INPUTS_RESOLVING :: InputsStatus where "INPUTS_RESOLVING \<equiv> 1"
abbreviation (input) INPUTS_READY :: InputsStatus where "INPUTS_READY \<equiv> 2"
abbreviation (input) INPUTS_FAILED :: InputsStatus where "INPUTS_FAILED \<equiv> 3"

abbreviation (input) IMAGE_UNSPECIFIED :: ImageStatus where "IMAGE_UNSPECIFIED \<equiv> 0"
abbreviation (input) IMAGE_BUILDING :: ImageStatus where "IMAGE_BUILDING \<equiv> 1"
abbreviation (input) IMAGE_PULLING :: ImageStatus where "IMAGE_PULLING \<equiv> 2"
abbreviation (input) IMAGE_DOWNLOADING :: ImageStatus where "IMAGE_DOWNLOADING \<equiv> 3"
abbreviation (input) IMAGE_READY :: ImageStatus where "IMAGE_READY \<equiv> 4"
abbreviation (input) IMAGE_FAILED :: ImageStatus where "IMAGE_FAILED \<equiv> 5"

abbreviation (input) PREPARATION_UNSPECIFIED :: PreparationStatus where "PREPARATION_UNSPECIFIED \<equiv> 0"
abbreviation (input) PREPARATION_PREPARING :: PreparationStatus where "PREPARATION_PREPARING \<equiv> 1"
abbreviation (input) PREPARATION_DOWNLOADING :: PreparationStatus where "PREPARATION_DOWNLOADING \<equiv> 2"
abbreviation (input) PREPARATION_READY :: PreparationStatus where "PREPARATION_READY \<equiv> 3"
abbreviation (input) PREPARATION_FAILED :: PreparationStatus where "PREPARATION_FAILED \<equiv> 4"
abbreviation (input) PREPARATION_PULLING :: PreparationStatus where "PREPARATION_PULLING \<equiv> 5"

abbreviation (input) UPGRADE_UNSPECIFIED :: ContainerUpgradeStrategy where "UPGRADE_UNSPECIFIED \<equiv> 0"
abbreviation (input) UPGRADE_RECREATE :: ContainerUpgradeStrategy where "UPGRADE_RECREATE \<equiv> 1"
abbreviation (input) UPGRADE_ROLLOVER :: ContainerUpgradeStrategy where "UPGRADE_ROLLOVER \<equiv> 2"

abbreviation (input) NODE_MEMBER_EVICTED :: NodeLifecycleStatus where "NODE_MEMBER_EVICTED \<equiv> 8"

abbreviation (input) CORE_DEPLOYMENT :: CoreEntityType where "CORE_DEPLOYMENT \<equiv> 1"
abbreviation (input) CORE_SCHEDULED_INSTANCE :: CoreEntityType where "CORE_SCHEDULED_INSTANCE \<equiv> 2"
abbreviation (input) CORE_NODE :: CoreEntityType where "CORE_NODE \<equiv> 3"
abbreviation (input) CORE_SECRET :: CoreEntityType where "CORE_SECRET \<equiv> 4"
abbreviation (input) CORE_CONFIG :: CoreEntityType where "CORE_CONFIG \<equiv> 5"
abbreviation (input) CORE_ASSET :: CoreEntityType where "CORE_ASSET \<equiv> 6"
abbreviation (input) CORE_NETWORK_POLICY :: CoreEntityType where "CORE_NETWORK_POLICY \<equiv> 7"
abbreviation (input) CORE_SPACE :: CoreEntityType where "CORE_SPACE \<equiv> 8"
abbreviation (input) CORE_USER :: CoreEntityType where "CORE_USER \<equiv> 9"
abbreviation (input) CORE_VALUE_DIRECTORY :: CoreEntityType where "CORE_VALUE_DIRECTORY \<equiv> 10"
abbreviation (input) CORE_ASSET_DIRECTORY :: CoreEntityType where "CORE_ASSET_DIRECTORY \<equiv> 11"
abbreviation (input) CORE_AUTHZ_GRANT_TEMPLATE :: CoreEntityType where "CORE_AUTHZ_GRANT_TEMPLATE \<equiv> 12"
abbreviation (input) CORE_AUTHZ_GRANT :: CoreEntityType where "CORE_AUTHZ_GRANT \<equiv> 13"
abbreviation (input) CORE_AUTHZ_GLOBAL_RULE :: CoreEntityType where "CORE_AUTHZ_GLOBAL_RULE \<equiv> 14"
abbreviation (input) CORE_SYSTEM_CONFIG :: CoreEntityType where "CORE_SYSTEM_CONFIG \<equiv> 15"
abbreviation (input) CORE_SCHEDULED_INSTANCE_STATUS :: CoreEntityType where "CORE_SCHEDULED_INSTANCE_STATUS \<equiv> 16"
abbreviation (input) CORE_NODE_STATUS :: CoreEntityType where "CORE_NODE_STATUS \<equiv> 17"
abbreviation (input) CORE_AGENT_SESSION :: CoreEntityType where "CORE_AGENT_SESSION \<equiv> 18"
abbreviation (input) CORE_USER_SESSION :: CoreEntityType where "CORE_USER_SESSION \<equiv> 19"
abbreviation (input) CORE_NIX_STORE_RESET :: CoreEntityType where "CORE_NIX_STORE_RESET \<equiv> 20"
abbreviation (input) CORE_SECRET_KEYSLOT :: CoreEntityType where "CORE_SECRET_KEYSLOT \<equiv> 21"

section \<open>Deployments\<close>

datatype IpAddressValue = Ipv4 bytes | Ipv6 bytes
type_synonym IpAddress = "IpAddressValue option"

record IpPrefixValue =
  pfx_Address :: IpAddressValue
  pfx_Length :: nat

type_synonym IpPrefix = "IpPrefixValue option"

text \<open>\<open>SecretRef\<close>, \<open>ConfigRef\<close> and \<open>AssetRef\<close>: an entity id and a value version.\<close>

record ValueRef =
  vref_ID :: nat
  vref_Version :: nat

datatype ContainerSource =
    NixImageBuild string string string
  | RemoteImage string

datatype EnvVar =
    LiteralEnv string
  | SecretEnv ValueRef
  | ConfigEnv ValueRef
  | AssetEnv string ValueRef
  | AddressEnv nat nat

record DefaultVolumeMount =
  dv_ContainerPath :: string
  dv_Disabled :: bool

record CrossDeploymentMount =
  cdm_DeploymentID :: nat
  cdm_ContainerPath :: string
  cdm_Permission :: int

record HostMount =
  hm_HostPath :: string
  hm_ContainerPath :: string
  hm_Permission :: int

record AssetMount =
  am_Asset :: ValueRef
  am_ContainerPath :: string
  am_Permission :: int

record IssuedTLSMount =
  tls_ContainerPath :: string
  tls_ExtraNames :: "string list"
  tls_CaOnly :: bool

record ContainerRuntime =
  rt_User :: string
  rt_EnvVars :: "(string \<times> EnvVar option) list"
  rt_OverrideCommand :: "string list"
  rt_OverrideWorkingDir :: string
  rt_DefaultVolume :: DefaultVolumeMount
  rt_CrossDeploymentMounts :: "CrossDeploymentMount list"
  rt_Mounts :: "HostMount list"
  rt_AssetMounts :: "AssetMount list"
  rt_DevShmSizeKb :: "nat maybe"
  rt_FileDescriptorLimit :: "nat maybe"
  rt_IssuedTlsMount :: "IssuedTLSMount option"

record ContainerSpec =
  cs_Source :: "ContainerSource option"
  cs_Runtime :: ContainerRuntime
  cs_Version :: string
  cs_UpgradeStrategy :: ContainerUpgradeStrategy
  cs_ReadinessSignal :: "nat maybe option"

record IpFilter =
  ipf_Mode :: int
  ipf_Prefix :: IpPrefix

record PortForward =
  pf_Protocol :: int
  pf_HostPort :: nat
  pf_ContainerPort :: nat
  pf_IpFilter :: "IpFilter list"

datatype IngressNode = AnyNode | SpecificNode nat

record IngressListen =
  il_Node :: "IngressNode option option"
  il_Addresses :: "IpPrefix list"

datatype CertSource = AcmeCertSource int | SecretCertSource ValueRef

record TlsPassthroughConfig =
  tp_HostPort :: "nat maybe"
  tp_ContainerPort :: nat

record HttpsConfig =
  hc_ContainerPort :: nat
  hc_PathPrefix :: string
  hc_StripPrefix :: bool
  hc_BackendProtocol :: int
  hc_MaxRequestBodyBytes :: "nat maybe"
  hc_FlushIntervalMs :: "nat maybe"
  hc_CertSource :: "CertSource option option"

datatype IngressConfig = TlsPassthrough TlsPassthroughConfig | Https HttpsConfig

record Ingress =
  in_Hostname :: string
  in_Listen :: "IngressListen list"
  in_Config :: "IngressConfig option"

record NetworkingConfig =
  nc_Mode :: int
  nc_PortForwarding :: "PortForward list"
  nc_Ingress :: "Ingress list"

record DeploymentSpec =
  ds_Container :: "ContainerSpec option"
  ds_Networking :: NetworkingConfig

record Scheduling =
  sch_Running :: bool
  sch_DedicatedNodes :: "nat list option"
  sch_RestartGeneration :: nat

record Deployment =
  dep_ID :: nat
  dep_Name :: string
  dep_SpaceID :: nat
  dep_Spec :: DeploymentSpec
  dep_Scheduling :: Scheduling

section \<open>Placements and their status\<close>

record DeploymentRef =
  dref_DeploymentID :: nat
  dref_Version :: nat

record ScheduledInstance =
  si_ID :: nat
  si_NodeID :: nat
  si_InstanceOrdinal :: nat
  si_State :: ScheduledInstanceTarget
  si_SpaceID :: nat
  si_Deployment :: DeploymentRef

record PreparerStatus =
  ps_SpecVersion :: nat
  ps_Artifact :: string
  ps_Inputs :: InputsStatus
  ps_Image :: "ImageStatus maybe"

record RunnerStatus =
  rs_SpecVersion :: nat
  rs_RunningPid :: "nat maybe"
  rs_RunningArtifact :: string
  rs_Status :: RunningStatus
  rs_NumberOfRestarts :: nat
  rs_LastRestartAt :: "clock maybe"
  rs_NetworkDiagnostics :: "string list"
  rs_ExitCode :: "int maybe"

record ScheduledInstanceStatus =
  sis_ScheduledInstanceID :: nat
  sis_UpdatedAt :: "clock maybe"
  sis_Preparer :: "PreparerStatus option"
  sis_Runner :: "RunnerStatus option"

section \<open>Nodes\<close>

record NodeOperator =
  no_Name :: string
  no_Roles :: "int list"
  no_AllowedSpaces :: "nat list"
  no_EnrolledTime :: "clock maybe"

record NodeReported =
  nr_Identifier :: string
  nr_UnderlayAddress :: IpAddress
  nr_WgPublicKey :: string
  nr_HostAddresses :: "IpAddress list"
  nr_HostAddressesUnknown :: bool

record Node =
  node_ID :: nat
  node_Status :: NodeLifecycleStatus
  node_EnrollmentRequestedAt :: "clock maybe"
  node_Operator :: NodeOperator
  node_Reported :: NodeReported

record NodeStatus =
  ns_NodeID :: nat
  ns_UpdatedAt :: "clock maybe"
  ns_IsConnected :: bool
  ns_LastConnectedAt :: "clock maybe"
  ns_RemoteAddress :: string
  ns_OpendeployVersion :: string
  ns_RuntimeVersions :: string

section \<open>Values, assets, spaces\<close>

record Space =
  space_ID :: nat
  space_Name :: string

record Fs =
  fs_Key :: string
  fs_DirectoryID :: "nat maybe"

record SealedSecret =
  sealed_SmkVersion :: nat
  sealed_Ciphertext :: bytes
  sealed_Nonce :: bytes

record Secret =
  sec_ID :: nat
  sec_Fs :: Fs
  sec_SpaceID :: nat
  sec_Sealed :: "SealedSecret option"

record Config =
  cfg_ID :: nat
  cfg_Fs :: Fs
  cfg_SpaceID :: nat
  cfg_Value :: string

record Asset =
  ast_ID :: nat
  ast_Fs :: Fs
  ast_SpaceID :: nat
  ast_SizeBytes :: nat
  ast_Sha256 :: bytes
  ast_StorageKey :: string

text \<open>\<open>ValueDirectory\<close> and \<open>AssetDirectory\<close> are messages with the same fields.\<close>

record Directory =
  dir_ID :: nat
  dir_SpaceID :: nat
  dir_Key :: string
  dir_ParentID :: "nat maybe"

section \<open>The write log\<close>

record EntityMeta =
  meta_CreatedTime :: int
  meta_UpdatedTime :: int
  meta_UpdatedSeq :: int
  meta_UpdatedActor :: int
  meta_Version :: nat
  meta_SpecVersion :: nat
  meta_ValueVersion :: nat
  meta_Deleted :: bool

record DeploymentRecord =
  drec_Deployment :: Deployment
  drec_Meta :: EntityMeta

section \<open>Accessors\<close>

definition WantsRunning :: "ScheduledInstanceTarget \<Rightarrow> bool" where
  "WantsRunning t \<longleftrightarrow> t = TARGET_RUN_SERVING \<or> t = TARGET_RUN_STANDBY \<or> t = TARGET_RUN_DRAINING"

definition IsFinal :: "ScheduledInstanceTarget \<Rightarrow> bool" where
  "IsFinal t \<longleftrightarrow> t = TARGET_FINALIZED"

text \<open>The wall clock \<open>time.Now()\<close> is the argument \<open>now\<close>.\<close>

definition nextObservationTime :: "clock \<Rightarrow> clock \<Rightarrow> clock" where
  "nextObservationTime now previous = (if now > previous then now else previous + 1)"

definition BumpUpdatedAt :: "clock \<Rightarrow> ScheduledInstanceStatus \<Rightarrow> ScheduledInstanceStatus" where
  "BumpUpdatedAt now s = s\<lparr>sis_UpdatedAt := some_maybe (nextObservationTime now (Value (sis_UpdatedAt s)))\<rparr>"

definition NodeStatus_BumpUpdatedAt :: "clock \<Rightarrow> NodeStatus \<Rightarrow> NodeStatus" where
  "NodeStatus_BumpUpdatedAt now s = s\<lparr>ns_UpdatedAt := some_maybe (nextObservationTime now (Value (ns_UpdatedAt s)))\<rparr>"

definition WorkloadRunning :: "DeploymentRecord \<Rightarrow> bool" where
  "WorkloadRunning d = sch_Running (dep_Scheduling (drec_Deployment d))"

definition Deleted :: "DeploymentRecord \<Rightarrow> bool" where
  "Deleted d = meta_Deleted (drec_Meta d)"

definition EffectiveUpgradeStrategy :: "DeploymentRecord \<Rightarrow> ContainerUpgradeStrategy" where
  "EffectiveUpgradeStrategy d =
    (case ds_Container (dep_Spec (drec_Deployment d)) of
       None \<Rightarrow> UPGRADE_RECREATE
     | Some c \<Rightarrow> if cs_UpgradeStrategy c = UPGRADE_UNSPECIFIED then UPGRADE_RECREATE
                else cs_UpgradeStrategy c)"

definition PlacementNodeID :: "Deployment \<Rightarrow> nat" where
  "PlacementNodeID d =
    (case sch_DedicatedNodes (dep_Scheduling d) of
       None \<Rightarrow> 0
     | Some nodes \<Rightarrow> if nodes = [] then 0 else hd nodes)"

definition WorkloadVersion :: "DeploymentSpec \<Rightarrow> string" where
  "WorkloadVersion s = (case ds_Container s of Some c \<Rightarrow> cs_Version c | None \<Rightarrow> [])"

definition SetWorkloadVersion :: "string \<Rightarrow> DeploymentSpec \<Rightarrow> string + DeploymentSpec" where
  "SetWorkloadVersion version s =
    (case ds_Container s of
       Some c \<Rightarrow> Inr (s\<lparr>ds_Container := Some (c\<lparr>cs_Version := version\<rparr>)\<rparr>)
     | None \<Rightarrow> Inl ''deployment spec has no supported workload'')"

definition SetWorkloadState :: "string \<Rightarrow> bool \<Rightarrow> DeploymentRecord \<Rightarrow> string + DeploymentRecord" where
  "SetWorkloadState version running d =
    bindE (SetWorkloadVersion version (dep_Spec (drec_Deployment d))) (\<lambda>spec.
      Inr (d\<lparr>drec_Deployment := (drec_Deployment d)\<lparr>dep_Spec := spec,
                dep_Scheduling := (dep_Scheduling (drec_Deployment d))\<lparr>sch_Running := running\<rparr>\<rparr>\<rparr>))"

definition Rollup :: "PreparerStatus \<Rightarrow> PreparationStatus" where
  "Rollup p =
    (let image = (if Present (ps_Image p) then Value (ps_Image p) else IMAGE_UNSPECIFIED) in
     if ps_Inputs p = INPUTS_FAILED \<or> image = IMAGE_FAILED then PREPARATION_FAILED
     else if image = IMAGE_READY then PREPARATION_READY
     else if image = IMAGE_PULLING then PREPARATION_PULLING
     else if image = IMAGE_DOWNLOADING then PREPARATION_DOWNLOADING
     else if image = IMAGE_BUILDING then PREPARATION_PREPARING
     else if ps_Inputs p \<noteq> INPUTS_UNSPECIFIED then PREPARATION_PREPARING
     else PREPARATION_UNSPECIFIED)"

definition ImageStage :: "PreparerStatus \<Rightarrow> ImageStatus" where
  "ImageStage p = (if \<not> Present (ps_Image p) then IMAGE_UNSPECIFIED else Value (ps_Image p))"

definition SetImage :: "ImageStatus \<Rightarrow> PreparerStatus \<Rightarrow> PreparerStatus" where
  "SetImage s p = p\<lparr>ps_Image := some_maybe s\<rparr>"

definition RunningVersion :: "DeploymentRecord option \<Rightarrow> ScheduledInstanceStatus \<Rightarrow> string" where
  "RunningVersion cfg st =
    (case (cfg, sis_Runner st) of
       (Some c, Some r) \<Rightarrow>
         if rs_SpecVersion r = 0 \<or> rs_SpecVersion r \<noteq> meta_SpecVersion (drec_Meta c) then []
         else WorkloadVersion (dep_Spec (drec_Deployment c))
     | _ \<Rightarrow> [])"

lemma nextObservationTime_advances: "previous < nextObservationTime now previous"
  by (simp add: nextObservationTime_def)

lemma nextObservationTime_ge_now: "now \<le> nextObservationTime now previous"
  by (simp add: nextObservationTime_def)

lemma Rollup_ready_iff: "Rollup p = PREPARATION_READY \<longleftrightarrow> ImageStage p = IMAGE_READY \<and> ps_Inputs p \<noteq> INPUTS_FAILED"
  by (auto simp: Rollup_def ImageStage_def Let_def)

end
