(* ===== verification/Tables.thy ===== *)
theory Tables
  imports Prelude "HOL-Library.Product_Lexorder"
begin

text \<open>
  SQLite tables as the queries of \<open>backend/storage/primarydb/pq\<close> see them: rows under a primary
  key, read back with \<open>ORDER BY\<close> that key. A table is an association list in key order. The
  locale \<open>keyed_table\<close> is the contract the store relies on: what a lookup returns after a write
  or a delete, and that every statement keeps the rows in order. \<open>row\<close> is a materialised row,
  its columns beside the envelope of its last write, and \<open>upsert\<close> the
  \<open>INSERT ... ON CONFLICT (id) DO UPDATE ... RETURNING created_time\<close> that every reducer runs.
\<close>

named_theorems table_simps

section \<open>Keyed tables\<close>

type_synonym ('k, 'v) table = "('k \<times> 'v) list"

abbreviation tbl_get :: "('k, 'v) table \<Rightarrow> 'k \<Rightarrow> 'v option" where
  "tbl_get \<equiv> map_of"

fun tbl_put :: "'k::linorder \<Rightarrow> 'v \<Rightarrow> ('k, 'v) table \<Rightarrow> ('k, 'v) table" where
  "tbl_put k v [] = [(k, v)]"
| "tbl_put k v ((k', v') # t) =
    (if k < k' then (k, v) # (k', v') # t
     else if k = k' then (k, v) # t
     else (k', v') # tbl_put k v t)"

definition tbl_del :: "'k \<Rightarrow> ('k, 'v) table \<Rightarrow> ('k, 'v) table" where
  "tbl_del k t = filter (\<lambda>(k', v). k' \<noteq> k) t"

definition tbl_wf :: "('k::linorder, 'v) table \<Rightarrow> bool" where
  "tbl_wf t \<longleftrightarrow> sorted (map fst t) \<and> distinct (map fst t)"

locale keyed_table =
  fixes get :: "'t \<Rightarrow> 'k \<Rightarrow> 'v option"
    and put :: "'k \<Rightarrow> 'v \<Rightarrow> 't \<Rightarrow> 't"
    and del :: "'k \<Rightarrow> 't \<Rightarrow> 't"
    and wf :: "'t \<Rightarrow> bool"
  assumes get_put: "wf t \<Longrightarrow> get (put k v t) k' = (if k' = k then Some v else get t k')"
    and get_del: "wf t \<Longrightarrow> get (del k t) k' = (if k' = k then None else get t k')"
    and wf_put: "wf t \<Longrightarrow> wf (put k v t)"
    and wf_del: "wf t \<Longrightarrow> wf (del k t)"
    and ext: "wf t \<Longrightarrow> wf u \<Longrightarrow> get t = get u \<Longrightarrow> t = u"
begin

lemma put_put: "wf t \<Longrightarrow> put k v (put k w t) = put k v t"
  by (rule ext) (auto simp: wf_put get_put)

lemma put_commute: "wf t \<Longrightarrow> k \<noteq> k' \<Longrightarrow> put k v (put k' v' t) = put k' v' (put k v t)"
  by (rule ext) (auto simp: wf_put get_put)

lemma del_put: "wf t \<Longrightarrow> del k (put k v t) = del k t"
  by (rule ext) (auto simp: wf_put wf_del get_put get_del)

lemma put_same: "wf t \<Longrightarrow> get t k = Some v \<Longrightarrow> put k v t = t"
  by (rule ext) (auto simp: wf_put get_put)

lemma del_absent: "wf t \<Longrightarrow> get t k = None \<Longrightarrow> del k t = t"
  by (rule ext) (auto simp: wf_del get_del)

lemma del_commute: "wf t \<Longrightarrow> del k (del k' t) = del k' (del k t)"
  by (rule ext) (auto simp: wf_del get_del)

end

lemma fst_set_tbl_put [table_simps]: "fst ` set (tbl_put k v t) = insert k (fst ` set t)"
proof (induction t)
  case (Cons e t)
  then show ?case by (cases e) (simp add: insert_commute)
qed simp

lemma tbl_put_wf [table_simps]: "tbl_wf t \<Longrightarrow> tbl_wf (tbl_put k v t)"
proof (induction t)
  case (Cons e t)
  obtain k' v' where e: "e = (k', v')" by (cases e)
  from Cons.prems e have t: "tbl_wf t" and lt: "\<forall>x \<in> fst ` set t. k' < x"
    by (auto simp: tbl_wf_def order.strict_iff_order)
  from Cons.IH [OF t] have ih: "sorted (map fst (tbl_put k v t))" "distinct (map fst (tbl_put k v t))"
    by (auto simp: tbl_wf_def)
  consider "k < k'" | "k = k'" | "k' < k" by force
  then show ?case
  proof cases
    case 3
    with lt have "\<forall>x \<in> fst ` set (tbl_put k v t). k' < x" by (auto simp: fst_set_tbl_put)
    with 3 e ih show ?thesis by (force simp: tbl_wf_def)
  qed (use Cons.prems e lt in \<open>force simp: tbl_wf_def\<close>)+
qed (simp add: tbl_wf_def)

lemma tbl_del_wf [table_simps]: "tbl_wf t \<Longrightarrow> tbl_wf (tbl_del k t)"
  by (induction t) (auto simp: tbl_wf_def tbl_del_def)

lemma tbl_filter_wf [table_simps]: "tbl_wf t \<Longrightarrow> tbl_wf (filter P t)"
  by (induction t) (auto simp: tbl_wf_def)

lemma tbl_get_put: "tbl_wf t \<Longrightarrow> tbl_get (tbl_put k v t) k' = (if k' = k then Some v else tbl_get t k')"
proof (induction t)
  case (Cons e t)
  then have "tbl_wf t" by (simp add: tbl_wf_def)
  with Cons.IH show ?case by (cases e) auto
qed simp

lemma tbl_get_del: "tbl_get (tbl_del k t) k' = (if k' = k then None else tbl_get t k')"
  by (induction t) (auto simp: tbl_del_def)

lemma tbl_ext:
  assumes "tbl_wf t" "tbl_wf u" "tbl_get t = tbl_get u"
  shows "t = u"
proof -
  have "set t = set u"
    by (metis assms map_of_eqI map_of_inject_set tbl_wf_def)
  moreover have "sorted (map fst t)" "distinct (map fst t)" "sorted (map fst u)" "distinct (map fst u)"
    using assms(1,2) by (simp_all add: tbl_wf_def)
  ultimately show ?thesis
    by (metis map_sorted_distinct_set_unique [of fst t u] eq_key_imp_eq_value inj_on_def prod.collapse Un_absorb)
qed

interpretation tbl: keyed_table tbl_get tbl_put tbl_del tbl_wf
  by unfold_locales (auto simp: tbl_get_put tbl_get_del table_simps intro: tbl_ext)

lemma tbl_get_filter: "distinct (map fst t) \<Longrightarrow>
    tbl_get (filter P t) k = (case tbl_get t k of None \<Rightarrow> None | Some v \<Rightarrow> if P (k, v) then Some v else None)"
  by (induction t) (auto simp: map_of_eq_None_iff [symmetric] split: option.splits dest: map_of_SomeD)

lemma tbl_get_in: "tbl_wf t \<Longrightarrow> tbl_get t k = Some v \<longleftrightarrow> (k, v) \<in> set t"
  by (simp add: tbl_wf_def)

lemma tbl_wf_Nil [simp]: "tbl_wf []"
  by (simp add: tbl_wf_def)

section \<open>Rows\<close>

text \<open>\<open>rowEnvelope\<close> of \<open>pq/materialise.go\<close>, and a row with its creation time.\<close>

record rowEnvelope =
  env_Seq :: int
  env_EventTime :: int
  env_Author :: int
  env_Logged :: "(nat \<times> nat) option"

record 'a row =
  row_value :: 'a
  row_seq :: int
  row_event_time :: int
  row_author :: int
  row_created_time :: int

definition make_row :: "rowEnvelope \<Rightarrow> 'a \<Rightarrow> int \<Rightarrow> 'a row" where
  "make_row env v created =
    \<lparr>row_value = v, row_seq = env_Seq env, row_event_time = env_EventTime env,
     row_author = env_Author env, row_created_time = created\<rparr>"

definition upsert_created :: "rowEnvelope \<Rightarrow> 'k::linorder \<Rightarrow> ('k, 'a row) table \<Rightarrow> int \<Rightarrow> int" where
  "upsert_created env k t created = (case tbl_get t k of Some r \<Rightarrow> row_created_time r | None \<Rightarrow> created)"

definition upsert :: "rowEnvelope \<Rightarrow> 'k::linorder \<Rightarrow> 'a \<Rightarrow> int \<Rightarrow> ('k, 'a row) table \<Rightarrow> ('k, 'a row) table" where
  "upsert env k v created t = tbl_put k (make_row env v (upsert_created env k t created)) t"

text \<open>A unique index over the columns \<open>f\<close>: another row than \<open>k\<close> already holds them.\<close>

definition unique_violated :: "('a \<Rightarrow> 'u) \<Rightarrow> 'k \<Rightarrow> 'a \<Rightarrow> ('k, 'a row) table \<Rightarrow> bool" where
  "unique_violated f k v t = list_ex (\<lambda>(k', r). k' \<noteq> k \<and> f (row_value r) = f v) t"

lemma upsert_wf [table_simps]: "tbl_wf t \<Longrightarrow> tbl_wf (upsert env k v c t)"
  by (simp add: upsert_def table_simps)

lemma upsert_get:
  "tbl_wf t \<Longrightarrow> tbl_get (upsert env k v c t) k' =
    (if k' = k then Some (make_row env v (upsert_created env k t c)) else tbl_get t k')"
  by (simp add: upsert_def tbl_get_put)

lemma make_row_sel [simp]:
  "row_value (make_row env v c) = v" "row_created_time (make_row env v c) = c"
  "row_seq (make_row env v c) = env_Seq env" "row_event_time (make_row env v c) = env_EventTime env"
  "row_author (make_row env v c) = env_Author env"
  by (simp_all add: make_row_def)

text \<open>A row keeps the creation time of its first write.\<close>

lemma upsert_keeps_created:
  "tbl_wf t \<Longrightarrow> tbl_get t k = Some r \<Longrightarrow>
   \<exists>r'. tbl_get (upsert env k v c t) k = Some r' \<and> row_created_time r' = row_created_time r"
  by (simp add: upsert_get upsert_created_def)

end
