(* ===== verification/Store_Model.thy ===== *)
theory Store_Model
  imports Api Tables
begin

text \<open>
  The data of the primary store: the entities of the remaining tables, the mutations a commit
  carries (\<open>apigen/model.gen.go\<close>, accessors in \<open>apigen/model_ext.go\<close>, constructors in
  \<open>pq/mutations.go\<close>), the column forms of the tables whose rows are not the payload itself, and
  the database record with one field per table of \<open>pq/sql/schema*.sql\<close>. A column that holds an
  encoded message, a JSON list or an address text holds the value it encodes. The codec is
  generated code: decoding what was encoded gives the message back.
\<close>

section \<open>Entities\<close>

record WebAuthnCredential =
  cred_ID :: bytes
  cred_Data :: bytes

record UserAuthentication =
  auth_WebAuthnID :: bytes
  auth_Credentials :: "WebAuthnCredential list"

record User =
  user_ID :: nat
  user_Name :: string
  user_Authentication :: UserAuthentication

datatype NetworkPolicyPeer = SpacePeer nat | DeploymentPeer nat

record NetworkPolicy =
  np_ID :: nat
  np_Action :: int
  np_Source :: "NetworkPolicyPeer option"
  np_Destination :: "NetworkPolicyPeer option"
  np_Ports :: "(int \<times> nat \<times> nat) list"

record AgentToken =
  tok_Hash :: "bytes maybe"
  tok_Prefix :: string
  tok_ExpiresAt :: clock

record AgentSession =
  as_ID :: nat
  as_SessionID :: string
  as_UserID :: nat
  as_Status :: int
  as_ApprovedAt :: "clock maybe"
  as_RequestingAddress :: string
  as_ApprovalCode :: "string maybe"
  as_Token :: "AgentToken option"

record UserSession =
  us_ID :: nat
  us_SessionID :: string
  us_UserID :: nat
  us_Kind :: int
  us_ExpiresAt :: clock
  us_RevokedAt :: "clock maybe"
  us_RequestingAddress :: string
  us_UserAgent :: string
  us_TokenHash :: "bytes maybe"

record NixStoreReset =
  nix_ID :: nat
  nix_Repo :: string

datatype KeyslotWrapping = MachineKey nat | RecoveryCode bytes

record SecretKeyslot =
  ks_ID :: nat
  ks_SmkVersion :: nat
  ks_WrappedSmk :: bytes
  ks_Nonce :: bytes
  ks_Wrapping :: "KeyslotWrapping option"

text \<open>The settings document is carried whole: its \<open>ClusterSettings\<close> part is the encoded message.\<close>

record SystemConfig =
  sc_ID :: nat
  sc_Settings :: bytes
  sc_MasterPasswordHash :: "string maybe"
  sc_NetworkUlaPrefix :: bytes

text \<open>\<open>ENone\<close> is the entity with no alternative set, which a delete carries.\<close>

datatype CoreEntity =
    ENone
  | EDeployment Deployment
  | EScheduledInstance ScheduledInstance
  | ENode Node
  | ESecret Secret
  | EConfig Config
  | EAsset Asset
  | ENetworkPolicy NetworkPolicy
  | ESpace Space
  | EUser User
  | EValueDirectory Directory
  | EAssetDirectory Directory
  | EAuthzGrantTemplate AuthzGrantTemplate
  | EAuthzGrant AuthzGrant
  | EAuthzGlobalRule AuthzGlobalRule
  | ESystemConfig SystemConfig
  | EScheduledInstanceStatus ScheduledInstanceStatus
  | ENodeStatus NodeStatus
  | EAgentSession AgentSession
  | EUserSession UserSession
  | ENixStoreReset NixStoreReset
  | ESecretKeyslot SecretKeyslot

section \<open>Mutations and updates\<close>

datatype CoreMutation =
    CreateMutation CoreEntityType nat CoreEntity "EntityMeta option"
  | UpdateMutation CoreEntityType nat CoreEntity "EntityMeta option"
  | DeleteMutation CoreEntityType nat

record CoreWriteUpdate =
  upd_Seq :: int
  upd_Time :: int
  upd_Actor :: int
  upd_Mutations :: "CoreMutation list"

definition empty_update :: CoreWriteUpdate where
  "empty_update = \<lparr>upd_Seq = 0, upd_Time = 0, upd_Actor = 0, upd_Mutations = []\<rparr>"

definition IsEmpty :: "CoreWriteUpdate option \<Rightarrow> bool" where
  "IsEmpty u = (case u of None \<Rightarrow> True | Some u \<Rightarrow> upd_Mutations u = [])"

fun Kind :: "CoreMutation \<Rightarrow> AuthzVerb" where
  "Kind (DeleteMutation t i) = VERB_DELETE"
| "Kind (CreateMutation t i e m) = VERB_CREATE"
| "Kind (UpdateMutation t i e m) = VERB_UPDATE"

fun Type :: "CoreMutation \<Rightarrow> CoreEntityType" where
  "Type (CreateMutation t i e m) = t"
| "Type (UpdateMutation t i e m) = t"
| "Type (DeleteMutation t i) = t"

fun EntityID :: "CoreMutation \<Rightarrow> nat" where
  "EntityID (CreateMutation t i e m) = i"
| "EntityID (UpdateMutation t i e m) = i"
| "EntityID (DeleteMutation t i) = i"

fun Entity :: "CoreMutation \<Rightarrow> CoreEntity option" where
  "Entity (CreateMutation t i e m) = Some e"
| "Entity (UpdateMutation t i e m) = Some e"
| "Entity (DeleteMutation t i) = None"

fun Meta :: "CoreMutation \<Rightarrow> EntityMeta option" where
  "Meta (CreateMutation t i e m) = m"
| "Meta (UpdateMutation t i e m) = m"
| "Meta (DeleteMutation t i) = None"

fun SetMeta :: "EntityMeta \<Rightarrow> CoreMutation \<Rightarrow> CoreMutation" where
  "SetMeta meta (CreateMutation t i e m) = CreateMutation t i e (Some meta)"
| "SetMeta meta (UpdateMutation t i e m) = UpdateMutation t i e (Some meta)"
| "SetMeta meta (DeleteMutation t i) = DeleteMutation t i"

definition CreateMutationOf :: "CoreEntityType \<Rightarrow> nat \<Rightarrow> CoreEntity \<Rightarrow> CoreMutation" where
  "CreateMutationOf t i e = CreateMutation t i e None"

definition UpdateMutationOf :: "CoreEntityType \<Rightarrow> nat \<Rightarrow> CoreEntity \<Rightarrow> CoreMutation" where
  "UpdateMutationOf t i e = UpdateMutation t i e None"

definition DeleteMutationOf :: "CoreEntityType \<Rightarrow> nat \<Rightarrow> CoreMutation" where
  "DeleteMutationOf t i = DeleteMutation t i"

definition Has :: "CoreEntityType \<Rightarrow> CoreWriteUpdate option \<Rightarrow> bool" where
  "Has t u = (case u of None \<Rightarrow> False | Some u \<Rightarrow> list_ex (\<lambda>m. Type m = t) (upd_Mutations u))"

text \<open>\<open>pq.EventMeta\<close> and \<open>pq.Mutation\<close>: one write before it is put on the wire.\<close>

record EventMeta =
  em_GlobalSeq :: int
  em_EventTime :: int
  em_Author :: int
  em_EventType :: AuthzVerb

record Mutation =
  mut_Meta :: EventMeta
  mut_RowID :: nat
  mut_Type :: CoreEntityType
  mut_ID :: nat
  mut_Entity :: CoreEntity

definition Wire :: "Mutation \<Rightarrow> CoreMutation" where
  "Wire m =
    (if em_EventType (mut_Meta m) = VERB_DELETE then DeleteMutationOf (mut_Type m) (mut_ID m)
     else if em_EventType (mut_Meta m) = VERB_CREATE then CreateMutationOf (mut_Type m) (mut_ID m) (mut_Entity m)
     else UpdateMutationOf (mut_Type m) (mut_ID m) (mut_Entity m))"

text \<open>\<open>NewUpdate\<close> and \<open>AppendMutations\<close>: the first mutation gives the update its clock and actor.\<close>

fun AppendMutations :: "CoreWriteUpdate \<Rightarrow> Mutation list \<Rightarrow> CoreWriteUpdate" where
  "AppendMutations u [] = u"
| "AppendMutations u (m # ms) =
    (let u' = (if upd_Mutations u = []
               then u\<lparr>upd_Time := em_EventTime (mut_Meta m), upd_Actor := em_Author (mut_Meta m)\<rparr> else u)
     in AppendMutations (u'\<lparr>upd_Mutations := upd_Mutations u' @ [Wire m]\<rparr>) ms)"

definition NewUpdate :: "Mutation list \<Rightarrow> CoreWriteUpdate" where
  "NewUpdate ms = AppendMutations empty_update ms"

definition entity_mutation :: "EventMeta \<Rightarrow> nat \<Rightarrow> CoreEntityType \<Rightarrow> nat \<Rightarrow> CoreEntity \<Rightarrow> Mutation" where
  "entity_mutation meta rowid t i e =
    \<lparr>mut_Meta = meta, mut_RowID = rowid, mut_Type = t, mut_ID = i, mut_Entity = e\<rparr>"

definition DeploymentMutationOf :: "AuthzVerb \<Rightarrow> DeploymentRecord \<Rightarrow> Mutation" where
  "DeploymentMutationOf verb r =
    entity_mutation
      \<lparr>em_GlobalSeq = meta_UpdatedSeq (drec_Meta r), em_EventTime = meta_UpdatedTime (drec_Meta r),
       em_Author = meta_UpdatedActor (drec_Meta r), em_EventType = verb\<rparr>
      (meta_Version (drec_Meta r)) CORE_DEPLOYMENT (dep_ID (drec_Deployment r))
      (if verb \<noteq> VERB_DELETE then EDeployment (drec_Deployment r) else ENone)"

definition DeploymentMutation :: "DeploymentRecord \<Rightarrow> Mutation" where
  "DeploymentMutation r =
    DeploymentMutationOf
      (if meta_Deleted (drec_Meta r) then VERB_DELETE
       else if meta_Version (drec_Meta r) = 1 then VERB_CREATE else VERB_UPDATE) r"

text \<open>\<open>pq.ScheduledInstanceEvent\<close>: a placement with the envelope of its last write.\<close>

record ScheduledInstanceEvent =
  sie_ScheduledInstanceID :: nat
  sie_Seq :: int
  sie_Author :: int
  sie_CreatedTime :: int
  sie_EventTime :: int
  sie_Value :: ScheduledInstance

definition ScheduledInstanceMutation :: "AuthzVerb \<Rightarrow> ScheduledInstanceEvent \<Rightarrow> Mutation" where
  "ScheduledInstanceMutation verb e =
    entity_mutation
      \<lparr>em_GlobalSeq = sie_Seq e, em_EventTime = sie_EventTime e, em_Author = 0, em_EventType = verb\<rparr>
      (sie_ScheduledInstanceID e) CORE_SCHEDULED_INSTANCE (sie_ScheduledInstanceID e)
      (EScheduledInstance ((sie_Value e)\<lparr>si_ID := sie_ScheduledInstanceID e\<rparr>))"

definition SpaceMutation :: "EventMeta \<Rightarrow> Space \<Rightarrow> Mutation" where
  "SpaceMutation meta s = entity_mutation meta 0 CORE_SPACE (space_ID s) (ESpace s)"

definition SecretMutation :: "EventMeta \<Rightarrow> nat \<Rightarrow> Secret \<Rightarrow> Mutation" where
  "SecretMutation meta i s = entity_mutation meta 0 CORE_SECRET i (ESecret (s\<lparr>sec_ID := i\<rparr>))"

definition ConfigMutation :: "EventMeta \<Rightarrow> nat \<Rightarrow> Config \<Rightarrow> Mutation" where
  "ConfigMutation meta i c = entity_mutation meta 0 CORE_CONFIG i (EConfig (c\<lparr>cfg_ID := i\<rparr>))"

definition AssetMutation :: "EventMeta \<Rightarrow> nat \<Rightarrow> Asset \<Rightarrow> Mutation" where
  "AssetMutation meta i a = entity_mutation meta 0 CORE_ASSET i (EAsset (a\<lparr>ast_ID := i\<rparr>))"

definition AuthzGrantTemplateMutation :: "EventMeta \<Rightarrow> AuthzGrantTemplate \<Rightarrow> Mutation" where
  "AuthzGrantTemplateMutation meta t =
    entity_mutation meta 0 CORE_AUTHZ_GRANT_TEMPLATE (tpl_ID t) (EAuthzGrantTemplate t)"

definition AuthzGrantMutation :: "EventMeta \<Rightarrow> nat \<Rightarrow> AuthzGrant \<Rightarrow> Mutation" where
  "AuthzGrantMutation meta i g = entity_mutation meta 0 CORE_AUTHZ_GRANT i (EAuthzGrant (g\<lparr>grant_ID := i\<rparr>))"

definition AuthzGlobalRuleMutation :: "EventMeta \<Rightarrow> AuthzGlobalRule \<Rightarrow> Mutation" where
  "AuthzGlobalRuleMutation meta r = entity_mutation meta 0 CORE_AUTHZ_GLOBAL_RULE (gr_ID r) (EAuthzGlobalRule r)"

definition ScheduledInstanceStatusMutation :: "int \<Rightarrow> int \<Rightarrow> ScheduledInstanceStatus \<Rightarrow> Mutation" where
  "ScheduledInstanceStatusMutation seq eventTime st =
    entity_mutation \<lparr>em_GlobalSeq = seq, em_EventTime = eventTime, em_Author = 0, em_EventType = VERB_UPDATE\<rparr>
      0 CORE_SCHEDULED_INSTANCE_STATUS (sis_ScheduledInstanceID st) (EScheduledInstanceStatus st)"

definition delete_mutation :: "EventMeta \<Rightarrow> CoreEntityType \<Rightarrow> nat \<Rightarrow> Mutation" where
  "delete_mutation meta t i = entity_mutation (meta\<lparr>em_EventType := VERB_DELETE\<rparr>) 0 t i ENone"

fun StampEntityID :: "nat \<Rightarrow> CoreEntity \<Rightarrow> CoreEntity" where
  "StampEntityID i ENone = ENone"
| "StampEntityID i (EDeployment v) = EDeployment (v\<lparr>dep_ID := i\<rparr>)"
| "StampEntityID i (EScheduledInstance v) = EScheduledInstance (v\<lparr>si_ID := i\<rparr>)"
| "StampEntityID i (ENode v) = ENode (v\<lparr>node_ID := i\<rparr>)"
| "StampEntityID i (ESecret v) = ESecret (v\<lparr>sec_ID := i\<rparr>)"
| "StampEntityID i (EConfig v) = EConfig (v\<lparr>cfg_ID := i\<rparr>)"
| "StampEntityID i (EAsset v) = EAsset (v\<lparr>ast_ID := i\<rparr>)"
| "StampEntityID i (ENetworkPolicy v) = ENetworkPolicy (v\<lparr>np_ID := i\<rparr>)"
| "StampEntityID i (ESpace v) = ESpace (v\<lparr>space_ID := i\<rparr>)"
| "StampEntityID i (EUser v) = EUser (v\<lparr>user_ID := i\<rparr>)"
| "StampEntityID i (EValueDirectory v) = EValueDirectory (v\<lparr>dir_ID := i\<rparr>)"
| "StampEntityID i (EAssetDirectory v) = EAssetDirectory (v\<lparr>dir_ID := i\<rparr>)"
| "StampEntityID i (EAuthzGrantTemplate v) = EAuthzGrantTemplate (v\<lparr>tpl_ID := i\<rparr>)"
| "StampEntityID i (EAuthzGrant v) = EAuthzGrant (v\<lparr>grant_ID := i\<rparr>)"
| "StampEntityID i (EAuthzGlobalRule v) = EAuthzGlobalRule (v\<lparr>gr_ID := i\<rparr>)"
| "StampEntityID i (ESystemConfig v) = ESystemConfig (v\<lparr>sc_ID := i mod 2 ^ 32\<rparr>)"
| "StampEntityID i (EScheduledInstanceStatus v) = EScheduledInstanceStatus (v\<lparr>sis_ScheduledInstanceID := i\<rparr>)"
| "StampEntityID i (ENodeStatus v) = ENodeStatus (v\<lparr>ns_NodeID := i\<rparr>)"
| "StampEntityID i (EAgentSession v) = EAgentSession (v\<lparr>as_ID := i\<rparr>)"
| "StampEntityID i (EUserSession v) = EUserSession (v\<lparr>us_ID := i\<rparr>)"
| "StampEntityID i (ENixStoreReset v) = ENixStoreReset (v\<lparr>nix_ID := i\<rparr>)"
| "StampEntityID i (ESecretKeyslot v) = ESecretKeyslot (v\<lparr>ks_ID := i\<rparr>)"

section \<open>Columns\<close>

text \<open>\<open>pq/clock.go\<close>: clocks as nanoseconds, milliseconds or seconds, 0 for an absent one.\<close>

definition clockToNanos :: "clock maybe \<Rightarrow> int" where
  "clockToNanos t = (if \<not> Present t then 0 else Value t)"

definition nanosToClock :: "int \<Rightarrow> clock maybe" where
  "nanosToClock n = (if n = 0 then absent 0 else some_maybe n)"

definition UnixMilli :: "clock \<Rightarrow> int" where "UnixMilli t = t div 1000000"
definition Unix :: "clock \<Rightarrow> int" where "Unix t = t div 1000000000"

definition timeToMillis :: "clock maybe \<Rightarrow> int" where
  "timeToMillis t = (if \<not> Present t then 0 else UnixMilli (Value t))"

definition millisToTime :: "int \<Rightarrow> clock maybe" where
  "millisToTime ms = (if ms = 0 then absent 0 else some_maybe (ms * 1000000))"

definition unixOrZero :: "clock maybe \<Rightarrow> int" where
  "unixOrZero t = (if \<not> Present t then 0 else Unix (Value t))"

record DeploymentRow =
  dr_SpaceID :: nat
  dr_Name :: string
  dr_Version :: nat
  dr_SpecVersion :: nat

record DeploymentVersionRow =
  dvr_SpecVersion :: nat
  dvr_Value :: Deployment

record ValueIdentityRow =
  vi_SpaceID :: nat
  vi_DirectoryID :: nat
  vi_Key :: string
  vi_ValueVersion :: nat

text \<open>\<open>sha256\<close> is stored as hexadecimal text: the bytes it encodes.\<close>

record AssetVersionRow =
  av_Sha256 :: bytes
  av_SizeBytes :: nat
  av_StorageKey :: string

record DirectoryRow =
  dirr_SpaceID :: nat
  dirr_ParentID :: nat
  dirr_Key :: string

record scheduledInstanceStatusRow =
  sr_updatedAt :: int
  sr_preparerSpecVersion :: "nat option"
  sr_preparerArtifact :: "string option"
  sr_preparerInputsStatus :: int
  sr_preparerImageStatus :: int
  sr_runnerSpecVersion :: "nat option"
  sr_runnerPid :: "nat option"
  sr_runnerArtifact :: "string option"
  sr_runnerStatus :: "int option"
  sr_runnerNumRestarts :: "nat option"
  sr_runnerLastRestartAt :: "int option"
  sr_runnerExtraBlob :: "string list"
  sr_runnerExitCode :: "int option"

record NodeRow =
  nrow_Name :: string
  nrow_Identifier :: string
  nrow_Status :: NodeLifecycleStatus
  nrow_Roles :: "int list"
  nrow_AllowedSpaces :: "nat list"
  nrow_EnrolledTime :: int
  nrow_EnrollmentRequestedAt :: int
  nrow_UnderlayAddress :: IpAddress
  nrow_WgPublicKey :: string
  nrow_HostAddresses :: "IpAddress list"
  nrow_HostAddressesUnknown :: bool

record NodeStatusRow =
  nst_updatedAt :: int
  nst_isConnected :: bool
  nst_lastConnectedAt :: int
  nst_opendeployVersion :: string
  nst_remoteAddress :: string
  nst_runtimeVersions :: string

record AgentSessionRow =
  asr_SessionID :: string
  asr_UserID :: nat
  asr_ExpiresAt :: int
  asr_TokenHash :: bytes
  asr_TokenPrefix :: string
  asr_Status :: int
  asr_RequestingAddress :: string
  asr_ApprovalCode :: string
  asr_ApprovedAt :: int

record UserSessionRow =
  usr_SessionID :: string
  usr_UserID :: nat
  usr_ExpiresAt :: int
  usr_TokenHash :: bytes
  usr_RevokedAt :: int
  usr_Kind :: int
  usr_RequestingAddress :: string
  usr_UserAgent :: string

record NixStoreResetRow =
  nixr_Repo :: string
  nixr_RequestedAt :: int

record SecretKeyslotRow =
  ksr_Kind :: int
  ksr_NodeID :: nat
  ksr_SmkVersion :: nat
  ksr_WrappedSmk :: bytes
  ksr_Nonce :: bytes
  ksr_KdfSalt :: bytes

section \<open>The database\<close>

text \<open>
  A logged event is its envelope and its mutations in publication order, each with the deployment
  counters the row may carry. \<open>namespace_key\<close> is the primary key of \<open>value_keys\<close> and
  \<open>asset_keys\<close>: space, parent and path component.
\<close>

record logged_mutation =
  lm_entity_type :: CoreEntityType
  lm_entity_id :: nat
  lm_op :: AuthzVerb
  lm_payload :: "CoreEntity option"
  lm_facts :: "(nat \<times> nat) option"

record write_event =
  we_seq :: int
  we_time :: int
  we_actor :: int
  we_mutations :: "logged_mutation list"

type_synonym namespace_key = "nat \<times> nat \<times> string"
type_synonym namespace = "(namespace_key \<times> CoreEntityType \<times> nat) list"

record tables =
  deployments :: "(nat, DeploymentRow row) table"
  deployment_versions :: "(nat \<times> nat, DeploymentVersionRow row) table"
  scheduled_instances :: "(nat, ScheduledInstance row) table"
  scheduled_instance_status :: "(nat, scheduledInstanceStatusRow row) table"
  nodes :: "(nat, NodeRow row) table"
  node_status :: "(nat, NodeStatusRow row) table"
  secrets :: "(nat, ValueIdentityRow row) table"
  secret_versions :: "(nat \<times> nat, SealedSecret row) table"
  configs :: "(nat, ValueIdentityRow row) table"
  config_versions :: "(nat \<times> nat, string row) table"
  assets :: "(nat, ValueIdentityRow row) table"
  asset_versions :: "(nat \<times> nat, AssetVersionRow row) table"
  value_directories :: "(nat, DirectoryRow row) table"
  asset_directories :: "(nat, DirectoryRow row) table"
  value_keys :: namespace
  asset_keys :: namespace
  spaces :: "(nat, string row) table"
  users :: "(nat, (string \<times> UserAuthentication) row) table"
  network_policies :: "(nat, NetworkPolicy row) table"
  authz_grant_templates :: "(nat, AuthzGrantTemplate row) table"
  authz_grants :: "(nat, AuthzGrant row) table"
  authz_global_rules :: "(nat, AuthzGlobalRule row) table"
  agent_sessions :: "(nat, AgentSessionRow row) table"
  user_sessions :: "(nat, UserSessionRow row) table"
  nix_store_resets :: "(nat, NixStoreResetRow row) table"
  secret_keyslots :: "(nat, SecretKeyslotRow row) table"
  system_config :: "(nat, SystemConfig row) table"

definition empty_tables :: tables where
  "empty_tables =
    \<lparr>deployments = [], deployment_versions = [], scheduled_instances = [], scheduled_instance_status = [],
     nodes = [], node_status = [], secrets = [], secret_versions = [], configs = [], config_versions = [],
     assets = [], asset_versions = [], value_directories = [], asset_directories = [], value_keys = [],
     asset_keys = [], spaces = [], users = [], network_policies = [], authz_grant_templates = [],
     authz_grants = [], authz_global_rules = [], agent_sessions = [], user_sessions = [],
     nix_store_resets = [], secret_keyslots = [], system_config = []\<rparr>"

record db =
  db_tables :: tables
  db_entity_ids :: "(CoreEntityType, nat) table"
  db_global_seq :: int
  db_log :: "write_event list"

end
