(* ===== verification/Store.thy ===== *)
theory Store
  imports Store_Model
begin

text \<open>
  The reducer of the primary store (\<open>backend/storage/primarydb/pq\<close>): the id counter, one reducer
  and one delete per entity type, the retention rules of a deployment, the reduction of an update,
  the write log and its replay, and \<open>Commit\<close> of \<open>state/commit.go\<close>. A transaction that
  returns an error is rolled back, so an operation returns either the error or the new database.
\<close>

section \<open>Errors\<close>

datatype store_error =
    NoRows
  | NoPayload CoreEntityType
  | NoSealedValue
  | NoTokenHash
  | NoWrapping nat
  | ConstraintFailed string
  | MutationWithoutPayload CoreEntityType nat
  | UnknownEntityType CoreEntityType nat int
  | ReduceFailed CoreEntityType nat int store_error
  | DuplicateSeq int
  | NotStabilized nat
  | WriterFailed string

section \<open>Entity ids\<close>

definition NextEntityID :: "CoreEntityType \<Rightarrow> db \<Rightarrow> nat \<times> db" where
  "NextEntityID t d =
    (case tbl_get (db_entity_ids d) t of
       None \<Rightarrow> (1, d\<lparr>db_entity_ids := tbl_put t 2 (db_entity_ids d)\<rparr>)
     | Some next \<Rightarrow> (next, d\<lparr>db_entity_ids := tbl_put t (next + 1) (db_entity_ids d)\<rparr>))"

definition bumpEntityID :: "CoreEntityType \<Rightarrow> nat \<Rightarrow> db \<Rightarrow> db" where
  "bumpEntityID t i d =
    d\<lparr>db_entity_ids := tbl_put t
        (case tbl_get (db_entity_ids d) t of None \<Rightarrow> i + 1 | Some next \<Rightarrow> max next (i + 1)) (db_entity_ids d)\<rparr>"

section \<open>Meta\<close>

definition newMeta :: "rowEnvelope \<Rightarrow> EntityMeta" where
  "newMeta env = \<lparr>meta_CreatedTime = 0, meta_UpdatedTime = env_EventTime env, meta_UpdatedSeq = env_Seq env,
     meta_UpdatedActor = env_Author env, meta_Version = 0, meta_SpecVersion = 0, meta_ValueVersion = 0,
     meta_Deleted = False\<rparr>"

definition rowMeta :: "int \<Rightarrow> int \<Rightarrow> int \<Rightarrow> int \<Rightarrow> EntityMeta" where
  "rowMeta createdTime seq eventTime author =
    \<lparr>meta_CreatedTime = createdTime, meta_UpdatedTime = eventTime, meta_UpdatedSeq = seq,
     meta_UpdatedActor = author, meta_Version = 0, meta_SpecVersion = 0, meta_ValueVersion = 0,
     meta_Deleted = False\<rparr>"

text \<open>
  A reducer gets the tables and the fresh meta and returns the tables it wrote and the meta with
  the row's creation time. \<open>put_row\<close> is the call of \<open>q.upsert\<close> on one table.
\<close>

type_synonym reduced = "store_error + EntityMeta \<times> tables"

definition put_row ::
  "(tables \<Rightarrow> ('k::linorder, 'a row) table) \<Rightarrow> ((('k, 'a row) table \<Rightarrow> ('k, 'a row) table) \<Rightarrow> tables \<Rightarrow> tables) \<Rightarrow>
   rowEnvelope \<Rightarrow> EntityMeta \<Rightarrow> 'k \<Rightarrow> 'a \<Rightarrow> int \<Rightarrow> tables \<Rightarrow> EntityMeta \<times> tables" where
  "put_row tab upd env meta k v created ts =
    (meta\<lparr>meta_CreatedTime := upsert_created env k (tab ts) created\<rparr>, upd (upsert env k v created) ts)"

section \<open>Plain tables\<close>

definition reduceSpace :: "rowEnvelope \<Rightarrow> EntityMeta \<Rightarrow> nat \<Rightarrow> Space option \<Rightarrow> tables \<Rightarrow> reduced" where
  "reduceSpace env meta i s ts =
    (case s of None \<Rightarrow> Inl (NoPayload CORE_SPACE)
     | Some s \<Rightarrow>
        if i > 65535 then Inl (ConstraintFailed ''spaces.id'')
        else Inr (put_row spaces spaces_update env meta i (space_Name s) (env_EventTime env) ts))"

definition reduceUser :: "rowEnvelope \<Rightarrow> EntityMeta \<Rightarrow> nat \<Rightarrow> User option \<Rightarrow> tables \<Rightarrow> reduced" where
  "reduceUser env meta i u ts =
    (case u of None \<Rightarrow> Inl (NoPayload CORE_USER)
     | Some u \<Rightarrow> Inr (put_row users users_update env meta i (user_Name u, user_Authentication u) (env_EventTime env) ts))"

definition reduceNetworkPolicy :: "rowEnvelope \<Rightarrow> EntityMeta \<Rightarrow> nat \<Rightarrow> NetworkPolicy option \<Rightarrow> tables \<Rightarrow> reduced" where
  "reduceNetworkPolicy env meta i p ts =
    (case p of None \<Rightarrow> Inl (NoPayload CORE_NETWORK_POLICY)
     | Some p \<Rightarrow> Inr (put_row network_policies network_policies_update env meta i (p\<lparr>np_ID := 0\<rparr>) (env_EventTime env) ts))"

definition reduceAuthzGrantTemplate ::
  "rowEnvelope \<Rightarrow> EntityMeta \<Rightarrow> nat \<Rightarrow> AuthzGrantTemplate option \<Rightarrow> tables \<Rightarrow> reduced" where
  "reduceAuthzGrantTemplate env meta i t ts =
    (case t of None \<Rightarrow> Inl (NoPayload CORE_AUTHZ_GRANT_TEMPLATE)
     | Some t \<Rightarrow> Inr (put_row authz_grant_templates authz_grant_templates_update env meta i
                        (t\<lparr>tpl_ID := i\<rparr>) (env_EventTime env) ts))"

definition reduceAuthzGrant :: "rowEnvelope \<Rightarrow> EntityMeta \<Rightarrow> nat \<Rightarrow> AuthzGrant option \<Rightarrow> tables \<Rightarrow> reduced" where
  "reduceAuthzGrant env meta i g ts =
    (case g of None \<Rightarrow> Inl (NoPayload CORE_AUTHZ_GRANT)
     | Some g \<Rightarrow> Inr (put_row authz_grants authz_grants_update env meta i (g\<lparr>grant_ID := i\<rparr>) (env_EventTime env) ts))"

definition reduceAuthzGlobalRule :: "rowEnvelope \<Rightarrow> EntityMeta \<Rightarrow> nat \<Rightarrow> AuthzGlobalRule option \<Rightarrow> tables \<Rightarrow> reduced" where
  "reduceAuthzGlobalRule env meta i r ts =
    (case r of None \<Rightarrow> Inl (NoPayload CORE_AUTHZ_GLOBAL_RULE)
     | Some r \<Rightarrow> Inr (put_row authz_global_rules authz_global_rules_update env meta i (r\<lparr>gr_ID := i\<rparr>) (env_EventTime env) ts))"

definition reduceSystemConfig :: "rowEnvelope \<Rightarrow> EntityMeta \<Rightarrow> nat \<Rightarrow> SystemConfig option \<Rightarrow> tables \<Rightarrow> reduced" where
  "reduceSystemConfig env meta i c ts =
    (case c of None \<Rightarrow> Inl (NoPayload CORE_SYSTEM_CONFIG)
     | Some c \<Rightarrow>
        if i \<noteq> 1 then Inl (ConstraintFailed ''system_config.id'')
        else Inr (put_row system_config system_config_update env meta i (c\<lparr>sc_ID := 1\<rparr>) (env_EventTime env) ts))"

definition reduceAgentSession :: "rowEnvelope \<Rightarrow> EntityMeta \<Rightarrow> nat \<Rightarrow> AgentSession option \<Rightarrow> tables \<Rightarrow> reduced" where
  "reduceAgentSession env meta i s ts =
    (case s of None \<Rightarrow> Inl (NoPayload CORE_AGENT_SESSION)
     | Some s \<Rightarrow>
       (let r = \<lparr>asr_SessionID = as_SessionID s, asr_UserID = as_UserID s,
                 asr_ExpiresAt = (case as_Token s of None \<Rightarrow> 0 | Some t \<Rightarrow> Unix (tok_ExpiresAt t)),
                 asr_TokenHash = (case as_Token s of None \<Rightarrow> [] | Some t \<Rightarrow> Value (tok_Hash t)),
                 asr_TokenPrefix = (case as_Token s of None \<Rightarrow> [] | Some t \<Rightarrow> tok_Prefix t),
                 asr_Status = as_Status s, asr_RequestingAddress = as_RequestingAddress s,
                 asr_ApprovalCode = Value (as_ApprovalCode s), asr_ApprovedAt = unixOrZero (as_ApprovedAt s)\<rparr>
        in if unique_violated asr_SessionID i r (agent_sessions ts)
           then Inl (ConstraintFailed ''agent_sessions.session_id'')
           else Inr (put_row agent_sessions agent_sessions_update env meta i r (env_EventTime env) ts)))"

definition reduceUserSession :: "rowEnvelope \<Rightarrow> EntityMeta \<Rightarrow> nat \<Rightarrow> UserSession option \<Rightarrow> tables \<Rightarrow> reduced" where
  "reduceUserSession env meta i s ts =
    (case s of None \<Rightarrow> Inl (NoPayload CORE_USER_SESSION)
     | Some s \<Rightarrow>
       if \<not> Present (us_TokenHash s) then Inl NoTokenHash else
       (let r = \<lparr>usr_SessionID = us_SessionID s, usr_UserID = us_UserID s, usr_ExpiresAt = Unix (us_ExpiresAt s),
                 usr_TokenHash = Value (us_TokenHash s), usr_RevokedAt = unixOrZero (us_RevokedAt s),
                 usr_Kind = us_Kind s, usr_RequestingAddress = us_RequestingAddress s, usr_UserAgent = us_UserAgent s\<rparr>
        in if unique_violated usr_SessionID i r (user_sessions ts)
           then Inl (ConstraintFailed ''user_sessions.session_id'')
           else Inr (put_row user_sessions user_sessions_update env meta i r (env_EventTime env) ts)))"

definition reduceNixStoreReset :: "rowEnvelope \<Rightarrow> EntityMeta \<Rightarrow> nat \<Rightarrow> NixStoreReset option \<Rightarrow> tables \<Rightarrow> reduced" where
  "reduceNixStoreReset env meta i r ts =
    (case r of None \<Rightarrow> Inl (NoPayload CORE_NIX_STORE_RESET)
     | Some r \<Rightarrow>
       (let row = \<lparr>nixr_Repo = nix_Repo r, nixr_RequestedAt = env_EventTime env\<rparr>
        in if unique_violated nixr_Repo i row (nix_store_resets ts)
           then Inl (ConstraintFailed ''nix_store_resets.repo'')
           else Inr (put_row nix_store_resets nix_store_resets_update env meta i row (env_EventTime env) ts)))"

definition keyslotColumns :: "SecretKeyslot \<Rightarrow> store_error + int \<times> nat \<times> bytes" where
  "keyslotColumns k =
    (case ks_Wrapping k of
       Some (MachineKey n) \<Rightarrow> Inr (1, n, [])
     | Some (RecoveryCode salt) \<Rightarrow> Inr (2, 0, salt)
     | None \<Rightarrow> Inl (NoWrapping (ks_ID k)))"

definition reduceSecretKeyslot :: "rowEnvelope \<Rightarrow> EntityMeta \<Rightarrow> nat \<Rightarrow> SecretKeyslot option \<Rightarrow> tables \<Rightarrow> reduced" where
  "reduceSecretKeyslot env meta i k ts =
    (case k of None \<Rightarrow> Inl (NoPayload CORE_SECRET_KEYSLOT)
     | Some k \<Rightarrow> bindE (keyslotColumns k) (\<lambda>(kind, nodeID, salt).
        let r = \<lparr>ksr_Kind = kind, ksr_NodeID = nodeID, ksr_SmkVersion = ks_SmkVersion k,
                 ksr_WrappedSmk = ks_WrappedSmk k, ksr_Nonce = ks_Nonce k, ksr_KdfSalt = salt\<rparr>
        in if unique_violated (\<lambda>r. (ksr_Kind r, ksr_NodeID r)) i r (secret_keyslots ts)
           then Inl (ConstraintFailed ''secret_keyslots.kind_node'')
           else Inr (put_row secret_keyslots secret_keyslots_update env meta i r (env_EventTime env) ts)))"

section \<open>Nodes\<close>

text \<open>
  \<open>addressText\<close> followed by \<open>addressColumn\<close>: an address survives its text column when its
  octets fit its family, and an IPv4-mapped address comes back as the IPv4 address it names.
\<close>

definition valid_address :: "IpAddress \<Rightarrow> bool" where
  "valid_address a = (case a of Some (Ipv4 b) \<Rightarrow> length b = 4 | Some (Ipv6 b) \<Rightarrow> length b = 16 | None \<Rightarrow> False)"

definition address_column :: "IpAddress \<Rightarrow> IpAddress" where
  "address_column a =
    (if \<not> valid_address a then None
     else (case a of
        Some (Ipv6 b) \<Rightarrow> if take 12 b = replicate 10 0 @ [255, 255] then Some (Ipv4 (drop 12 b)) else a
      | _ \<Rightarrow> a))"

definition reduceNode :: "rowEnvelope \<Rightarrow> EntityMeta \<Rightarrow> nat \<Rightarrow> Node option \<Rightarrow> tables \<Rightarrow> reduced" where
  "reduceNode env meta i n ts =
    (case n of None \<Rightarrow> Inl (NoPayload CORE_NODE)
     | Some n \<Rightarrow>
       (let r = \<lparr>nrow_Name = no_Name (node_Operator n), nrow_Identifier = nr_Identifier (node_Reported n),
                 nrow_Status = node_Status n, nrow_Roles = no_Roles (node_Operator n),
                 nrow_AllowedSpaces = no_AllowedSpaces (node_Operator n),
                 nrow_EnrolledTime = timeToMillis (no_EnrolledTime (node_Operator n)),
                 nrow_EnrollmentRequestedAt = timeToMillis (node_EnrollmentRequestedAt n),
                 nrow_UnderlayAddress = address_column (nr_UnderlayAddress (node_Reported n)),
                 nrow_WgPublicKey = nr_WgPublicKey (node_Reported n),
                 nrow_HostAddresses = map address_column (filter valid_address (nr_HostAddresses (node_Reported n))),
                 nrow_HostAddressesUnknown = nr_HostAddressesUnknown (node_Reported n)\<rparr>
        in if unique_violated nrow_Identifier i r (nodes ts)
           then Inl (ConstraintFailed ''nodes.identifier'')
           else Inr (put_row nodes nodes_update env meta i r (env_EventTime env) ts)))"

fun normaliseAllowedSpaces_go :: "nat list \<Rightarrow> nat list \<Rightarrow> nat list" where
  "normaliseAllowedSpaces_go out [] = out"
| "normaliseAllowedSpaces_go out (i # is) =
    (if i \<in> set out then normaliseAllowedSpaces_go out is else normaliseAllowedSpaces_go (out @ [i]) is)"

definition normaliseAllowedSpaces :: "nat list \<Rightarrow> nat list" where
  "normaliseAllowedSpaces ids = normaliseAllowedSpaces_go [0] ids"

text \<open>A status report is kept when its clock is not behind the row's.\<close>

definition reduceNodeStatus :: "rowEnvelope \<Rightarrow> EntityMeta \<Rightarrow> nat \<Rightarrow> NodeStatus option \<Rightarrow> tables \<Rightarrow> reduced" where
  "reduceNodeStatus env meta i st ts =
    (case st of None \<Rightarrow> Inl (NoPayload CORE_NODE_STATUS)
     | Some st \<Rightarrow>
       (let r = \<lparr>nst_updatedAt = clockToNanos (ns_UpdatedAt st), nst_isConnected = ns_IsConnected st,
                 nst_lastConnectedAt = timeToMillis (ns_LastConnectedAt st),
                 nst_opendeployVersion = ns_OpendeployVersion st, nst_remoteAddress = ns_RemoteAddress st,
                 nst_runtimeVersions = ns_RuntimeVersions st\<rparr>
        in (case tbl_get (node_status ts) i of
              Some old \<Rightarrow>
                if nst_updatedAt r \<ge> nst_updatedAt (row_value old)
                then Inr (put_row node_status node_status_update env meta i r (env_EventTime env) ts)
                else Inr (rowMeta (row_created_time old) (row_seq old) (row_event_time old) (row_author old), ts)
            | None \<Rightarrow> Inr (put_row node_status node_status_update env meta i r (env_EventTime env) ts))))"

section \<open>The value and asset namespaces\<close>

text \<open>
  \<open>setValueKey\<close> and \<open>setAssetKey\<close> drop the entity's old path component and insert the new one;
  the primary key refuses a component that is taken.
\<close>

definition set_key :: "string \<Rightarrow> nat \<Rightarrow> nat \<Rightarrow> string \<Rightarrow> CoreEntityType \<Rightarrow> nat \<Rightarrow> namespace \<Rightarrow> store_error + namespace" where
  "set_key table space parent key kind i ks =
    (let rest = filter (\<lambda>(k, e). e \<noteq> (kind, i)) ks in
     if map_of rest (space, parent, key) \<noteq> None then Inl (ConstraintFailed table)
     else Inr (rest @ [((space, parent, key), (kind, i))]))"

definition setValueKey :: "nat \<Rightarrow> nat \<Rightarrow> string \<Rightarrow> CoreEntityType \<Rightarrow> nat \<Rightarrow> tables \<Rightarrow> store_error + tables" where
  "setValueKey space parent key kind i ts =
    bindE (set_key ''value_keys'' space parent key kind i (value_keys ts)) (\<lambda>ks. Inr (ts\<lparr>value_keys := ks\<rparr>))"

definition setAssetKey :: "nat \<Rightarrow> nat \<Rightarrow> string \<Rightarrow> CoreEntityType \<Rightarrow> nat \<Rightarrow> tables \<Rightarrow> store_error + tables" where
  "setAssetKey space parent key kind i ts =
    bindE (set_key ''asset_keys'' space parent key kind i (asset_keys ts)) (\<lambda>ks. Inr (ts\<lparr>asset_keys := ks\<rparr>))"

definition delete_key :: "CoreEntityType \<Rightarrow> nat \<Rightarrow> namespace \<Rightarrow> namespace" where
  "delete_key kind i ks = filter (\<lambda>(k, e). e \<noteq> (kind, i)) ks"

text \<open>
  \<open>nextValueVersion\<close>: version 1 for an identity the table has never seen, the current version
  when \<open>unchanged\<close> says the value equals that version's row, the next one otherwise. The row
  of the current version must exist.
\<close>

definition nextValueVersion ::
  "(nat, ValueIdentityRow row) table \<Rightarrow> nat \<Rightarrow> (nat \<Rightarrow> store_error + bool) \<Rightarrow> store_error + nat" where
  "nextValueVersion t i unchanged =
    (case tbl_get t i of
       None \<Rightarrow> Inr 1
     | Some r \<Rightarrow>
        (let current = vi_ValueVersion (row_value r) in
         bindE (unchanged current) (\<lambda>same. Inr (if same then current else current + 1))))"

definition version_unchanged :: "(nat \<times> nat, 'a row) table \<Rightarrow> nat \<Rightarrow> 'a \<Rightarrow> nat \<Rightarrow> store_error + bool" where
  "version_unchanged versions i v current =
    (case tbl_get versions (i, current) of None \<Rightarrow> Inl NoRows | Some r \<Rightarrow> Inr (row_value r = v))"

text \<open>\<open>INSERT INTO ..._versions ... ON CONFLICT DO NOTHING\<close>: a version row is written once.\<close>

definition insert_version :: "rowEnvelope \<Rightarrow> nat \<Rightarrow> nat \<Rightarrow> 'a \<Rightarrow> int \<Rightarrow> (nat \<times> nat, 'a row) table \<Rightarrow> (nat \<times> nat, 'a row) table" where
  "insert_version env i version v created t =
    (case tbl_get t (i, version) of Some r \<Rightarrow> t | None \<Rightarrow> tbl_put (i, version) (make_row env v created) t)"

definition identity_row :: "nat \<Rightarrow> Fs \<Rightarrow> nat \<Rightarrow> ValueIdentityRow" where
  "identity_row space fs version =
    \<lparr>vi_SpaceID = space, vi_DirectoryID = Value (fs_DirectoryID fs), vi_Key = fs_Key fs, vi_ValueVersion = version\<rparr>"

abbreviation identity_path :: "ValueIdentityRow \<Rightarrow> nat \<times> nat \<times> string" where
  "identity_path r \<equiv> (vi_SpaceID r, vi_DirectoryID r, vi_Key r)"

definition reduceSecret :: "rowEnvelope \<Rightarrow> EntityMeta \<Rightarrow> nat \<Rightarrow> Secret option \<Rightarrow> tables \<Rightarrow> reduced" where
  "reduceSecret env meta i s ts =
    (case s of None \<Rightarrow> Inl (NoPayload CORE_SECRET)
     | Some s \<Rightarrow> (case sec_Sealed s of None \<Rightarrow> Inl NoSealedValue
       | Some sealed \<Rightarrow>
          bindE (nextValueVersion (secrets ts) i (version_unchanged (secret_versions ts) i sealed)) (\<lambda>version.
            let r = identity_row (sec_SpaceID s) (sec_Fs s) version in
            if unique_violated identity_path i r (secrets ts) then Inl (ConstraintFailed ''secrets.key'') else
            let (meta', ts') = put_row secrets secrets_update env meta i r (env_EventTime env) ts;
                ts'' = ts'\<lparr>secret_versions := insert_version env i version sealed 0 (secret_versions ts')\<rparr>
            in bindE (setValueKey (sec_SpaceID s) (Value (fs_DirectoryID (sec_Fs s))) (fs_Key (sec_Fs s)) CORE_SECRET i ts'')
                 (\<lambda>ts3. Inr (meta'\<lparr>meta_ValueVersion := version\<rparr>, ts3)))))"

definition reduceConfig :: "rowEnvelope \<Rightarrow> EntityMeta \<Rightarrow> nat \<Rightarrow> Config option \<Rightarrow> tables \<Rightarrow> reduced" where
  "reduceConfig env meta i c ts =
    (case c of None \<Rightarrow> Inl (NoPayload CORE_CONFIG)
     | Some c \<Rightarrow>
        bindE (nextValueVersion (configs ts) i (version_unchanged (config_versions ts) i (cfg_Value c))) (\<lambda>version.
          let r = identity_row (cfg_SpaceID c) (cfg_Fs c) version in
          if unique_violated identity_path i r (configs ts) then Inl (ConstraintFailed ''configs.key'') else
          let (meta', ts') = put_row configs configs_update env meta i r (env_EventTime env) ts;
              ts'' = ts'\<lparr>config_versions := insert_version env i version (cfg_Value c) 0 (config_versions ts')\<rparr>
          in bindE (setValueKey (cfg_SpaceID c) (Value (fs_DirectoryID (cfg_Fs c))) (fs_Key (cfg_Fs c)) CORE_CONFIG i ts'')
               (\<lambda>ts3. Inr (meta'\<lparr>meta_ValueVersion := version\<rparr>, ts3))))"

definition reduceAsset :: "rowEnvelope \<Rightarrow> EntityMeta \<Rightarrow> nat \<Rightarrow> Asset option \<Rightarrow> tables \<Rightarrow> reduced" where
  "reduceAsset env meta i a ts =
    (case a of None \<Rightarrow> Inl (NoPayload CORE_ASSET)
     | Some a \<Rightarrow>
        let content = \<lparr>av_Sha256 = ast_Sha256 a, av_SizeBytes = ast_SizeBytes a, av_StorageKey = ast_StorageKey a\<rparr> in
        bindE (nextValueVersion (assets ts) i (version_unchanged (asset_versions ts) i content)) (\<lambda>version.
          let r = identity_row (ast_SpaceID a) (ast_Fs a) version in
          if unique_violated identity_path i r (assets ts) then Inl (ConstraintFailed ''assets.key'') else
          let (meta', ts') = put_row assets assets_update env meta i r (env_EventTime env) ts;
              ts'' = ts'\<lparr>asset_versions := insert_version env i version content 0 (asset_versions ts')\<rparr>
          in bindE (setAssetKey (ast_SpaceID a) (Value (fs_DirectoryID (ast_Fs a))) (fs_Key (ast_Fs a)) CORE_ASSET i ts'')
               (\<lambda>ts3. Inr (meta'\<lparr>meta_ValueVersion := version\<rparr>, ts3))))"

definition directory_row :: "Directory \<Rightarrow> DirectoryRow" where
  "directory_row d = \<lparr>dirr_SpaceID = dir_SpaceID d, dirr_ParentID = Value (dir_ParentID d), dirr_Key = dir_Key d\<rparr>"

abbreviation directory_path :: "DirectoryRow \<Rightarrow> nat \<times> nat \<times> string" where
  "directory_path r \<equiv> (dirr_SpaceID r, dirr_ParentID r, dirr_Key r)"

definition reduceValueDirectory :: "rowEnvelope \<Rightarrow> EntityMeta \<Rightarrow> nat \<Rightarrow> Directory option \<Rightarrow> tables \<Rightarrow> reduced" where
  "reduceValueDirectory env meta i d ts =
    (case d of None \<Rightarrow> Inl (NoPayload CORE_VALUE_DIRECTORY)
     | Some d \<Rightarrow>
        let r = directory_row d in
        if unique_violated directory_path i r (value_directories ts) then Inl (ConstraintFailed ''value_directories.key'') else
        let (meta', ts') = put_row value_directories value_directories_update env meta i r (env_EventTime env) ts
        in bindE (setValueKey (dir_SpaceID d) (Value (dir_ParentID d)) (dir_Key d) CORE_VALUE_DIRECTORY i ts')
             (\<lambda>ts2. Inr (meta', ts2)))"

definition reduceAssetDirectory :: "rowEnvelope \<Rightarrow> EntityMeta \<Rightarrow> nat \<Rightarrow> Directory option \<Rightarrow> tables \<Rightarrow> reduced" where
  "reduceAssetDirectory env meta i d ts =
    (case d of None \<Rightarrow> Inl (NoPayload CORE_ASSET_DIRECTORY)
     | Some d \<Rightarrow>
        let r = directory_row d in
        if unique_violated directory_path i r (asset_directories ts) then Inl (ConstraintFailed ''asset_directories.key'') else
        let (meta', ts') = put_row asset_directories asset_directories_update env meta i r (env_EventTime env) ts
        in bindE (setAssetKey (dir_SpaceID d) (Value (dir_ParentID d)) (dir_Key d) CORE_ASSET_DIRECTORY i ts')
             (\<lambda>ts2. Inr (meta', ts2)))"

text \<open>Deleting an identity takes its versions and its path component with it.\<close>

definition deleteSecretRows :: "nat \<Rightarrow> tables \<Rightarrow> tables" where
  "deleteSecretRows i ts =
    ts\<lparr>value_keys := delete_key CORE_SECRET i (value_keys ts),
       secret_versions := filter (\<lambda>((j, v), r). j \<noteq> i) (secret_versions ts),
       secrets := tbl_del i (secrets ts)\<rparr>"

definition deleteConfigRows :: "nat \<Rightarrow> tables \<Rightarrow> tables" where
  "deleteConfigRows i ts =
    ts\<lparr>value_keys := delete_key CORE_CONFIG i (value_keys ts),
       config_versions := filter (\<lambda>((j, v), r). j \<noteq> i) (config_versions ts),
       configs := tbl_del i (configs ts)\<rparr>"

definition deleteAssetRows :: "nat \<Rightarrow> tables \<Rightarrow> tables" where
  "deleteAssetRows i ts =
    ts\<lparr>asset_keys := delete_key CORE_ASSET i (asset_keys ts),
       asset_versions := filter (\<lambda>((j, v), r). j \<noteq> i) (asset_versions ts),
       assets := tbl_del i (assets ts)\<rparr>"

definition deleteValueDirectoryRows :: "nat \<Rightarrow> tables \<Rightarrow> tables" where
  "deleteValueDirectoryRows i ts =
    ts\<lparr>value_keys := delete_key CORE_VALUE_DIRECTORY i (value_keys ts),
       value_directories := tbl_del i (value_directories ts)\<rparr>"

definition deleteAssetDirectoryRows :: "nat \<Rightarrow> tables \<Rightarrow> tables" where
  "deleteAssetDirectoryRows i ts =
    ts\<lparr>asset_keys := delete_key CORE_ASSET_DIRECTORY i (asset_keys ts),
       asset_directories := tbl_del i (asset_directories ts)\<rparr>"

end
