(* ===== verification/Reducer.thy ===== *)
theory Reducer
  imports Store
begin

text \<open>
  Deployments, placements and their statuses (\<open>pq/deployments.go\<close>,
  \<open>pq/scheduled_instances.go\<close>, \<open>pq/scheduled_instance_status.go\<close>), the dispatch of one logged
  mutation (\<open>reduce\<close> of \<open>pq/materialise.go\<close>), the retention rules and the reduction of a
  whole update. The \<open>affected\<close> set of \<open>reduceUpdate\<close> is a list in the order its ids were
  added; Go ranges over it in an arbitrary order, and \<open>retainDeployment_commute\<close> shows that the
  order does not matter.
\<close>

section \<open>Deployments\<close>

definition deployment_record :: "nat \<Rightarrow> nat \<Rightarrow> DeploymentVersionRow row \<Rightarrow> DeploymentRecord" where
  "deployment_record i version r =
    \<lparr>drec_Deployment = (dvr_Value (row_value r))\<lparr>dep_ID := i\<rparr>,
     drec_Meta = \<lparr>meta_CreatedTime = row_created_time r, meta_UpdatedTime = row_event_time r,
       meta_UpdatedSeq = row_seq r, meta_UpdatedActor = row_author r, meta_Version = version,
       meta_SpecVersion = dvr_SpecVersion (row_value r), meta_ValueVersion = 0, meta_Deleted = False\<rparr>\<rparr>"

definition GetDeploymentVersion :: "nat \<Rightarrow> nat \<Rightarrow> tables \<Rightarrow> DeploymentRecord option" where
  "GetDeploymentVersion i version ts =
    map_option (deployment_record i version) (tbl_get (deployment_versions ts) (i, version))"

definition GetLatestDeployment :: "nat \<Rightarrow> tables \<Rightarrow> DeploymentRecord option" where
  "GetLatestDeployment i ts =
    (case tbl_get (deployments ts) i of
       None \<Rightarrow> None
     | Some d \<Rightarrow> GetDeploymentVersion i (dr_Version (row_value d)) ts)"

definition ListActiveDeployments :: "tables \<Rightarrow> DeploymentRecord list" where
  "ListActiveDeployments ts =
    List.map_filter (\<lambda>(i, d). GetDeploymentVersion i (dr_Version (row_value d)) ts) (deployments ts)"

text \<open>\<open>DeepEqual\<close> of the re-decoded messages: equality of the values they hold.\<close>

definition DeploymentSpecsEqual :: "DeploymentSpec \<Rightarrow> DeploymentSpec \<Rightarrow> bool" where
  "DeploymentSpecsEqual a b \<longleftrightarrow> a = b"

definition DeploymentSchedulingEqual :: "Scheduling \<Rightarrow> Scheduling \<Rightarrow> bool" where
  "DeploymentSchedulingEqual a b \<longleftrightarrow> a = b"

definition BuildDeploymentUpdateRecord ::
  "DeploymentRecord \<Rightarrow> Deployment \<Rightarrow> int \<Rightarrow> int \<Rightarrow> DeploymentRecord \<times> bool" where
  "BuildDeploymentUpdateRecord prev updated author now =
    (let prevDef = drec_Deployment prev;
         specChanged = (\<not> DeploymentSpecsEqual (dep_Spec updated) (dep_Spec prevDef));
         record = \<lparr>drec_Deployment = updated\<lparr>dep_ID := dep_ID prevDef\<rparr>,
           drec_Meta = \<lparr>meta_CreatedTime = meta_CreatedTime (drec_Meta prev), meta_UpdatedTime = now,
             meta_UpdatedSeq = 0, meta_UpdatedActor = author, meta_Version = meta_Version (drec_Meta prev) + 1,
             meta_SpecVersion = meta_SpecVersion (drec_Meta prev) + (if specChanged then 1 else 0),
             meta_ValueVersion = 0, meta_Deleted = False\<rparr>\<rparr>;
         changed = (specChanged \<or> \<not> DeploymentSchedulingEqual (dep_Scheduling updated) (dep_Scheduling prevDef)
           \<or> dep_SpaceID updated \<noteq> dep_SpaceID prevDef \<or> dep_Name updated \<noteq> dep_Name prevDef)
     in (record, changed))"

text \<open>The version, spec version and creation time of the document a write carries.\<close>

definition deployment_facts :: "rowEnvelope \<Rightarrow> nat \<Rightarrow> Deployment \<Rightarrow> tables \<Rightarrow> nat \<times> nat \<times> int" where
  "deployment_facts env i d ts =
    (let (version, specVersion, created) =
           (case GetLatestDeployment i ts of
              None \<Rightarrow> (1, 1, env_EventTime env)
            | Some prev \<Rightarrow>
               (meta_Version (drec_Meta prev) + 1,
                meta_SpecVersion (drec_Meta prev) +
                  (if \<not> DeploymentSpecsEqual (dep_Spec d) (dep_Spec (drec_Deployment prev)) then 1 else 0),
                meta_CreatedTime (drec_Meta prev)))
     in (case env_Logged env of
           Some (v, sv) \<Rightarrow> (v, sv, created)
         | None \<Rightarrow> (version, specVersion, created)))"

definition reduceDeployment :: "rowEnvelope \<Rightarrow> EntityMeta \<Rightarrow> nat \<Rightarrow> Deployment option \<Rightarrow> tables \<Rightarrow> reduced" where
  "reduceDeployment env meta i d ts =
    (case d of None \<Rightarrow> Inl (NoPayload CORE_DEPLOYMENT)
     | Some d \<Rightarrow>
       (case deployment_facts env i d ts of (version, specVersion, created) \<Rightarrow>
          let ts' = ts\<lparr>deployment_versions := insert_version env i version
                         \<lparr>dvr_SpecVersion = specVersion, dvr_Value = d\<lparr>dep_ID := 0\<rparr>\<rparr> created (deployment_versions ts)\<rparr>
          in if \<not> (1 \<le> i \<and> i \<le> 16777215) then Inl (ConstraintFailed ''deployments.id'')
             else let (meta', ts'') = put_row deployments deployments_update env meta i
                        \<lparr>dr_SpaceID = dep_SpaceID d, dr_Name = dep_Name d, dr_Version = version, dr_SpecVersion = specVersion\<rparr>
                        created ts'
                  in Inr (meta'\<lparr>meta_Version := version, meta_SpecVersion := specVersion\<rparr>, ts'')))"

definition deleteDeploymentRow :: "nat \<Rightarrow> tables \<Rightarrow> tables" where
  "deleteDeploymentRow i ts = ts\<lparr>deployments := tbl_del i (deployments ts)\<rparr>"

section \<open>Placements\<close>

definition scheduled_instance_event :: "nat \<times> ScheduledInstance row \<Rightarrow> ScheduledInstanceEvent" where
  "scheduled_instance_event = (\<lambda>(i, r).
    \<lparr>sie_ScheduledInstanceID = i, sie_Seq = row_seq r, sie_Author = row_author r,
     sie_CreatedTime = row_created_time r, sie_EventTime = row_event_time r,
     sie_Value = (row_value r)\<lparr>si_ID := i\<rparr>\<rparr>)"

definition NextScheduledInstanceID :: "db \<Rightarrow> nat \<times> db" where
  "NextScheduledInstanceID d = NextEntityID CORE_SCHEDULED_INSTANCE d"

definition GetScheduledInstance :: "nat \<Rightarrow> tables \<Rightarrow> ScheduledInstanceEvent option" where
  "GetScheduledInstance i ts = map_option (\<lambda>r. scheduled_instance_event (i, r)) (tbl_get (scheduled_instances ts) i)"

definition ListRetainedScheduledInstances :: "tables \<Rightarrow> ScheduledInstanceEvent list" where
  "ListRetainedScheduledInstances ts = map scheduled_instance_event (scheduled_instances ts)"

definition ListNonFinalScheduledInstances :: "tables \<Rightarrow> ScheduledInstanceEvent list" where
  "ListNonFinalScheduledInstances ts =
    map scheduled_instance_event (filter (\<lambda>(i, r). si_State (row_value r) \<noteq> TARGET_FINALIZED) (scheduled_instances ts))"

definition ListNonFinalScheduledInstancesForDeployment :: "nat \<Rightarrow> tables \<Rightarrow> ScheduledInstanceEvent list" where
  "ListNonFinalScheduledInstancesForDeployment dep ts =
    map scheduled_instance_event (filter (\<lambda>(i, r). dref_DeploymentID (si_Deployment (row_value r)) = dep \<and>
      si_State (row_value r) \<noteq> TARGET_FINALIZED) (scheduled_instances ts))"

definition ListDrainingDeploymentIDs :: "tables \<Rightarrow> nat list" where
  "ListDrainingDeploymentIDs ts =
    sort (remdups (map (\<lambda>(i, r). dref_DeploymentID (si_Deployment (row_value r)))
      (filter (\<lambda>(i, r). si_State (row_value r) = TARGET_RUN_DRAINING) (scheduled_instances ts))))"

definition NewScheduledInstanceEvent ::
  "int \<Rightarrow> ScheduledInstance \<Rightarrow> ScheduledInstanceTarget \<Rightarrow> clock \<Rightarrow> ScheduledInstanceEvent" where
  "NewScheduledInstanceEvent seq inst state at =
    \<lparr>sie_ScheduledInstanceID = si_ID inst, sie_Seq = seq, sie_Author = 0, sie_CreatedTime = UnixMilli at,
     sie_EventTime = UnixMilli at, sie_Value = inst\<lparr>si_State := state\<rparr>\<rparr>"

definition ScheduledInstanceTransition ::
  "int \<Rightarrow> ScheduledInstanceEvent \<Rightarrow> ScheduledInstanceTarget \<Rightarrow> clock \<Rightarrow> ScheduledInstanceEvent" where
  "ScheduledInstanceTransition seq current state at =
    current\<lparr>sie_Seq := seq, sie_EventTime := UnixMilli at, sie_Author := 0,
            sie_Value := (sie_Value current)\<lparr>si_State := state\<rparr>\<rparr>"

definition reduceScheduledInstance ::
  "rowEnvelope \<Rightarrow> EntityMeta \<Rightarrow> nat \<Rightarrow> ScheduledInstance option \<Rightarrow> tables \<Rightarrow> reduced" where
  "reduceScheduledInstance env meta i inst ts =
    (case inst of None \<Rightarrow> Inl (NoPayload CORE_SCHEDULED_INSTANCE)
     | Some inst \<Rightarrow> Inr (put_row scheduled_instances scheduled_instances_update env meta i
                          (inst\<lparr>si_ID := i\<rparr>) (env_EventTime env) ts))"

section \<open>Statuses\<close>

definition status_columns :: "ScheduledInstanceStatus \<Rightarrow> scheduledInstanceStatusRow" where
  "status_columns st =
    \<lparr>sr_updatedAt = clockToNanos (sis_UpdatedAt st),
     sr_preparerSpecVersion = map_option ps_SpecVersion (sis_Preparer st),
     sr_preparerArtifact = map_option ps_Artifact (sis_Preparer st),
     sr_preparerInputsStatus = (case sis_Preparer st of None \<Rightarrow> 0 | Some p \<Rightarrow> ps_Inputs p),
     sr_preparerImageStatus = (case sis_Preparer st of None \<Rightarrow> 0 | Some p \<Rightarrow> Value (ps_Image p)),
     sr_runnerSpecVersion = map_option rs_SpecVersion (sis_Runner st),
     sr_runnerPid = (case sis_Runner st of None \<Rightarrow> None | Some r \<Rightarrow>
        if Present (rs_RunningPid r) then Some (Value (rs_RunningPid r)) else None),
     sr_runnerArtifact = map_option rs_RunningArtifact (sis_Runner st),
     sr_runnerStatus = map_option rs_Status (sis_Runner st),
     sr_runnerNumRestarts = map_option rs_NumberOfRestarts (sis_Runner st),
     sr_runnerLastRestartAt = (case sis_Runner st of None \<Rightarrow> None | Some r \<Rightarrow>
        if Present (rs_LastRestartAt r) then Some (timeToMillis (rs_LastRestartAt r)) else None),
     sr_runnerExtraBlob = (case sis_Runner st of None \<Rightarrow> [] | Some r \<Rightarrow> rs_NetworkDiagnostics r),
     sr_runnerExitCode = (case sis_Runner st of None \<Rightarrow> None | Some r \<Rightarrow>
        if Present (rs_ExitCode r) then Some (Value (rs_ExitCode r)) else None)\<rparr>"

definition column_maybe :: "'a \<Rightarrow> 'a option \<Rightarrow> 'a maybe" where
  "column_maybe z c = (case c of None \<Rightarrow> absent z | Some v \<Rightarrow> some_maybe v)"

definition toStatus :: "nat \<Rightarrow> scheduledInstanceStatusRow \<Rightarrow> ScheduledInstanceStatus" where
  "toStatus i r =
    \<lparr>sis_ScheduledInstanceID = i, sis_UpdatedAt = nanosToClock (sr_updatedAt r),
     sis_Preparer = (case sr_preparerSpecVersion r of None \<Rightarrow> None | Some v \<Rightarrow>
       Some \<lparr>ps_SpecVersion = v,
             ps_Artifact = (case sr_preparerArtifact r of None \<Rightarrow> [] | Some a \<Rightarrow> a),
             ps_Inputs = sr_preparerInputsStatus r,
             ps_Image = (if sr_preparerImageStatus r \<noteq> 0 then some_maybe (sr_preparerImageStatus r) else absent 0)\<rparr>),
     sis_Runner = (case sr_runnerStatus r of None \<Rightarrow> None | Some s \<Rightarrow>
       Some \<lparr>rs_SpecVersion = (case sr_runnerSpecVersion r of None \<Rightarrow> 0 | Some v \<Rightarrow> v),
             rs_RunningPid = column_maybe 0 (sr_runnerPid r),
             rs_RunningArtifact = (case sr_runnerArtifact r of None \<Rightarrow> [] | Some a \<Rightarrow> a),
             rs_Status = s,
             rs_NumberOfRestarts = (case sr_runnerNumRestarts r of None \<Rightarrow> 0 | Some n \<Rightarrow> n),
             rs_LastRestartAt = column_maybe 0 (map_option (\<lambda>ms. ms * 1000000) (sr_runnerLastRestartAt r)),
             rs_NetworkDiagnostics = sr_runnerExtraBlob r,
             rs_ExitCode = column_maybe 0 (sr_runnerExitCode r)\<rparr>)\<rparr>"

definition GetLatestScheduledInstanceStatus :: "nat \<Rightarrow> tables \<Rightarrow> ScheduledInstanceStatus option" where
  "GetLatestScheduledInstanceStatus i ts =
    map_option (\<lambda>r. toStatus i (row_value r)) (tbl_get (scheduled_instance_status ts) i)"

definition CanonicalScheduledInstanceStatus :: "ScheduledInstanceStatus \<Rightarrow> ScheduledInstanceStatus" where
  "CanonicalScheduledInstanceStatus st =
    st\<lparr>sis_Runner := map_option (\<lambda>r. if Present (rs_LastRestartAt r)
         then r\<lparr>rs_LastRestartAt := some_maybe (UnixMilli (Value (rs_LastRestartAt r)) * 1000000)\<rparr> else r)
       (sis_Runner st)\<rparr>"

definition reduceScheduledInstanceStatus ::
  "rowEnvelope \<Rightarrow> EntityMeta \<Rightarrow> nat \<Rightarrow> ScheduledInstanceStatus option \<Rightarrow> tables \<Rightarrow> reduced" where
  "reduceScheduledInstanceStatus env meta i st ts =
    (case st of None \<Rightarrow> Inl (NoPayload CORE_SCHEDULED_INSTANCE_STATUS)
     | Some st \<Rightarrow>
       (let r = status_columns st;
            write = put_row scheduled_instance_status scheduled_instance_status_update env meta i r (env_EventTime env) ts
        in (case tbl_get (scheduled_instance_status ts) i of
              Some old \<Rightarrow>
                if sr_updatedAt r \<ge> sr_updatedAt (row_value old) then Inr write
                else Inr (rowMeta (row_created_time old) (row_seq old) (row_event_time old) (row_author old), ts)
            | None \<Rightarrow> Inr write)))"

definition deleteScheduledInstanceStatusRow :: "nat \<Rightarrow> tables \<Rightarrow> tables" where
  "deleteScheduledInstanceStatusRow i ts =
    ts\<lparr>scheduled_instance_status := tbl_del i (scheduled_instance_status ts)\<rparr>"

definition deleteScheduledInstanceRows :: "nat \<Rightarrow> tables \<Rightarrow> tables" where
  "deleteScheduledInstanceRows i ts =
    (let ts' = deleteScheduledInstanceStatusRow i ts
     in ts'\<lparr>scheduled_instances := tbl_del i (scheduled_instances ts')\<rparr>)"

definition deleteOrphanScheduledInstanceStatus :: "nat \<Rightarrow> tables \<Rightarrow> tables" where
  "deleteOrphanScheduledInstanceStatus i ts =
    (if tbl_get (scheduled_instances ts) i = None then deleteScheduledInstanceStatusRow i ts else ts)"

definition deleteNodeRows :: "nat \<Rightarrow> tables \<Rightarrow> tables" where
  "deleteNodeRows i ts =
    ts\<lparr>node_status := tbl_del i (node_status ts), nodes := tbl_del i (nodes ts)\<rparr>"

section \<open>One mutation\<close>

definition wrap_reduced :: "CoreEntityType \<Rightarrow> nat \<Rightarrow> rowEnvelope \<Rightarrow> reduced \<Rightarrow> reduced" where
  "wrap_reduced t i env r = (case r of Inl e \<Rightarrow> Inl (ReduceFailed t i (env_Seq env) e) | Inr x \<Rightarrow> Inr x)"

text \<open>The dispatch on the entity type: the delete of the type, or its reducer on the payload alternative.\<close>

definition delete_rows :: "CoreEntityType \<Rightarrow> nat \<Rightarrow> tables \<Rightarrow> tables option" where
  "delete_rows t i ts =
    (if t = CORE_DEPLOYMENT then Some (deleteDeploymentRow i ts)
     else if t = CORE_SCHEDULED_INSTANCE then Some (deleteScheduledInstanceRows i ts)
     else if t = CORE_NODE then Some (deleteNodeRows i ts)
     else if t = CORE_SCHEDULED_INSTANCE_STATUS then Some (deleteScheduledInstanceStatusRow i ts)
     else if t = CORE_NODE_STATUS then Some (ts\<lparr>node_status := tbl_del i (node_status ts)\<rparr>)
     else if t = CORE_SECRET then Some (deleteSecretRows i ts)
     else if t = CORE_CONFIG then Some (deleteConfigRows i ts)
     else if t = CORE_ASSET then Some (deleteAssetRows i ts)
     else if t = CORE_VALUE_DIRECTORY then Some (deleteValueDirectoryRows i ts)
     else if t = CORE_ASSET_DIRECTORY then Some (deleteAssetDirectoryRows i ts)
     else if t = CORE_SPACE then Some (ts\<lparr>spaces := tbl_del i (spaces ts)\<rparr>)
     else if t = CORE_USER then Some (ts\<lparr>users := tbl_del i (users ts)\<rparr>)
     else if t = CORE_NETWORK_POLICY then Some (ts\<lparr>network_policies := tbl_del i (network_policies ts)\<rparr>)
     else if t = CORE_AUTHZ_GRANT_TEMPLATE then Some (ts\<lparr>authz_grant_templates := tbl_del i (authz_grant_templates ts)\<rparr>)
     else if t = CORE_AUTHZ_GRANT then Some (ts\<lparr>authz_grants := tbl_del i (authz_grants ts)\<rparr>)
     else if t = CORE_AUTHZ_GLOBAL_RULE then Some (ts\<lparr>authz_global_rules := tbl_del i (authz_global_rules ts)\<rparr>)
     else if t = CORE_AGENT_SESSION then Some (ts\<lparr>agent_sessions := tbl_del i (agent_sessions ts)\<rparr>)
     else if t = CORE_USER_SESSION then Some (ts\<lparr>user_sessions := tbl_del i (user_sessions ts)\<rparr>)
     else if t = CORE_NIX_STORE_RESET then Some (ts\<lparr>nix_store_resets := tbl_del i (nix_store_resets ts)\<rparr>)
     else if t = CORE_SECRET_KEYSLOT then Some (ts\<lparr>secret_keyslots := tbl_del i (secret_keyslots ts)\<rparr>)
     else if t = CORE_SYSTEM_CONFIG then Some (ts\<lparr>system_config := tbl_del i (system_config ts)\<rparr>)
     else None)"

definition reduce_entity :: "CoreEntityType \<Rightarrow> rowEnvelope \<Rightarrow> EntityMeta \<Rightarrow> nat \<Rightarrow> CoreEntity \<Rightarrow> tables \<Rightarrow> reduced option" where
  "reduce_entity t env meta i v ts =
    (if t = CORE_DEPLOYMENT then Some (reduceDeployment env meta i (case v of EDeployment x \<Rightarrow> Some x | _ \<Rightarrow> None) ts)
     else if t = CORE_SCHEDULED_INSTANCE then Some (reduceScheduledInstance env meta i (case v of EScheduledInstance x \<Rightarrow> Some x | _ \<Rightarrow> None) ts)
     else if t = CORE_NODE then Some (reduceNode env meta i (case v of ENode x \<Rightarrow> Some x | _ \<Rightarrow> None) ts)
     else if t = CORE_SCHEDULED_INSTANCE_STATUS then Some (reduceScheduledInstanceStatus env meta i (case v of EScheduledInstanceStatus x \<Rightarrow> Some x | _ \<Rightarrow> None) ts)
     else if t = CORE_NODE_STATUS then Some (reduceNodeStatus env meta i (case v of ENodeStatus x \<Rightarrow> Some x | _ \<Rightarrow> None) ts)
     else if t = CORE_SECRET then Some (reduceSecret env meta i (case v of ESecret x \<Rightarrow> Some x | _ \<Rightarrow> None) ts)
     else if t = CORE_CONFIG then Some (reduceConfig env meta i (case v of EConfig x \<Rightarrow> Some x | _ \<Rightarrow> None) ts)
     else if t = CORE_ASSET then Some (reduceAsset env meta i (case v of EAsset x \<Rightarrow> Some x | _ \<Rightarrow> None) ts)
     else if t = CORE_VALUE_DIRECTORY then Some (reduceValueDirectory env meta i (case v of EValueDirectory x \<Rightarrow> Some x | _ \<Rightarrow> None) ts)
     else if t = CORE_ASSET_DIRECTORY then Some (reduceAssetDirectory env meta i (case v of EAssetDirectory x \<Rightarrow> Some x | _ \<Rightarrow> None) ts)
     else if t = CORE_SPACE then Some (reduceSpace env meta i (case v of ESpace x \<Rightarrow> Some x | _ \<Rightarrow> None) ts)
     else if t = CORE_USER then Some (reduceUser env meta i (case v of EUser x \<Rightarrow> Some x | _ \<Rightarrow> None) ts)
     else if t = CORE_NETWORK_POLICY then Some (reduceNetworkPolicy env meta i (case v of ENetworkPolicy x \<Rightarrow> Some x | _ \<Rightarrow> None) ts)
     else if t = CORE_AUTHZ_GRANT_TEMPLATE then Some (reduceAuthzGrantTemplate env meta i (case v of EAuthzGrantTemplate x \<Rightarrow> Some x | _ \<Rightarrow> None) ts)
     else if t = CORE_AUTHZ_GRANT then Some (reduceAuthzGrant env meta i (case v of EAuthzGrant x \<Rightarrow> Some x | _ \<Rightarrow> None) ts)
     else if t = CORE_AUTHZ_GLOBAL_RULE then Some (reduceAuthzGlobalRule env meta i (case v of EAuthzGlobalRule x \<Rightarrow> Some x | _ \<Rightarrow> None) ts)
     else if t = CORE_AGENT_SESSION then Some (reduceAgentSession env meta i (case v of EAgentSession x \<Rightarrow> Some x | _ \<Rightarrow> None) ts)
     else if t = CORE_USER_SESSION then Some (reduceUserSession env meta i (case v of EUserSession x \<Rightarrow> Some x | _ \<Rightarrow> None) ts)
     else if t = CORE_NIX_STORE_RESET then Some (reduceNixStoreReset env meta i (case v of ENixStoreReset x \<Rightarrow> Some x | _ \<Rightarrow> None) ts)
     else if t = CORE_SECRET_KEYSLOT then Some (reduceSecretKeyslot env meta i (case v of ESecretKeyslot x \<Rightarrow> Some x | _ \<Rightarrow> None) ts)
     else if t = CORE_SYSTEM_CONFIG then Some (reduceSystemConfig env meta i (case v of ESystemConfig x \<Rightarrow> Some x | _ \<Rightarrow> None) ts)
     else None)"

definition reduce :: "rowEnvelope \<Rightarrow> CoreMutation \<Rightarrow> db \<Rightarrow> store_error + CoreMutation \<times> db" where
  "reduce env m d =
    (let i = EntityID m; t = Type m in
     if Kind m = VERB_DELETE then
       (case delete_rows t i (db_tables d) of
          None \<Rightarrow> Inl (UnknownEntityType t i (env_Seq env))
        | Some ts \<Rightarrow> Inr (m, d\<lparr>db_tables := ts\<rparr>))
     else (case Entity m of
       None \<Rightarrow> Inl (MutationWithoutPayload t i)
     | Some v \<Rightarrow>
        (case reduce_entity t env (newMeta env) i v (db_tables d) of
           None \<Rightarrow> Inl (UnknownEntityType t i (env_Seq env))
         | Some r \<Rightarrow> bindE (wrap_reduced t i env r) (\<lambda>(meta, ts).
             Inr (SetMeta meta m, bumpEntityID t i (d\<lparr>db_tables := ts\<rparr>))))))"

section \<open>Retention\<close>

abbreviation row_deployment :: "ScheduledInstance row \<Rightarrow> nat" where
  "row_deployment r \<equiv> dref_DeploymentID (si_Deployment (row_value r))"

abbreviation row_final :: "ScheduledInstance row \<Rightarrow> bool" where
  "row_final r \<equiv> si_State (row_value r) = TARGET_FINALIZED"

abbreviation row_ordinal :: "ScheduledInstance row \<Rightarrow> nat" where
  "row_ordinal r \<equiv> si_InstanceOrdinal (row_value r)"

text \<open>The \<open>SELECT\<close> of \<open>retainDeployment\<close>: the final placements of a deployment that are pruned.\<close>

definition pruned_instance :: "nat \<Rightarrow> bool \<Rightarrow> (nat, ScheduledInstance row) table \<Rightarrow> nat \<times> ScheduledInstance row \<Rightarrow> bool" where
  "pruned_instance dep live t = (\<lambda>(i, s).
    row_deployment s = dep \<and> row_final s \<and>
    (\<not> live
     \<or> list_ex (\<lambda>(j, r). row_deployment r = dep \<and> row_ordinal r = row_ordinal s \<and> \<not> row_final r) t
     \<or> list_ex (\<lambda>(j, r). row_deployment r = dep \<and> row_ordinal r = row_ordinal s \<and> row_final r \<and> i < j) t))"

definition retainDeployment :: "nat \<Rightarrow> tables \<Rightarrow> tables" where
  "retainDeployment dep ts =
    (let current = tbl_get (deployments ts) dep;
         pruned = map fst (filter (pruned_instance dep (current \<noteq> None) (scheduled_instances ts)) (scheduled_instances ts));
         ts' = fold deleteScheduledInstanceRows pruned ts;
         version = (case current of None \<Rightarrow> 0 | Some r \<Rightarrow> dr_Version (row_value r));
         pinned = map (\<lambda>(i, r). dref_Version (si_Deployment (row_value r)))
                    (filter (\<lambda>(i, r). row_deployment r = dep) (scheduled_instances ts'))
     in ts'\<lparr>deployment_versions := filter (\<lambda>((j, v), r). \<not> (j = dep \<and> v \<noteq> version \<and> v \<notin> set pinned))
              (deployment_versions ts')\<rparr>)"

section \<open>Updates\<close>

definition affectedDeployment :: "CoreMutation \<Rightarrow> tables \<Rightarrow> nat list \<Rightarrow> nat list" where
  "affectedDeployment m ts affected =
    (if Type m = CORE_DEPLOYMENT then List.insert (EntityID m) affected
     else if Type m = CORE_SCHEDULED_INSTANCE then
       (let affected' = (case Entity m of Some (EScheduledInstance s) \<Rightarrow>
              List.insert (dref_DeploymentID (si_Deployment s)) affected | _ \<Rightarrow> affected)
        in (case tbl_get (scheduled_instances ts) (EntityID m) of
              None \<Rightarrow> affected' | Some r \<Rightarrow> List.insert (row_deployment r) affected'))
     else affected)"

fun reduce_mutations ::
  "int \<Rightarrow> int \<Rightarrow> int \<Rightarrow> (CoreMutation \<times> (nat \<times> nat) option) list \<Rightarrow> nat list \<Rightarrow> db \<Rightarrow>
   store_error + CoreMutation list \<times> nat list \<times> db" where
  "reduce_mutations seq time actor [] affected d = Inr ([], affected, d)"
| "reduce_mutations seq time actor ((m, logged) # ms) affected d =
    bindE (reduce \<lparr>env_Seq = seq, env_EventTime = time, env_Author = actor, env_Logged = logged\<rparr> m d) (\<lambda>(m', d').
    bindE (reduce_mutations seq time actor ms (affectedDeployment m (db_tables d) affected) d') (\<lambda>(ms', affected', d'').
      Inr (m' # ms', affected', d'')))"

definition orphan_statuses :: "CoreMutation list \<Rightarrow> nat list" where
  "orphan_statuses ms = map EntityID (filter (\<lambda>m. Type m = CORE_SCHEDULED_INSTANCE_STATUS \<and> Kind m \<noteq> VERB_DELETE) ms)"

text \<open>
  \<open>reduceUpdate start u logged d\<close>: \<open>start\<close> is \<open>q.applied[u]\<close>, the number of mutations that
  earlier calls in the transaction have materialised.
\<close>

definition reduceUpdate ::
  "nat \<Rightarrow> CoreWriteUpdate \<Rightarrow> (nat \<times> nat) option list \<Rightarrow> db \<Rightarrow> store_error + CoreWriteUpdate \<times> db" where
  "reduceUpdate start u logged d =
    (let ms = upd_Mutations u in
     if start \<ge> length ms then Inr (u, d)
     else bindE (reduce_mutations (upd_Seq u) (upd_Time u) (upd_Actor u) (zip (drop start ms) (drop start logged)) [] d)
       (\<lambda>(ms', affected, d').
         Inr (u\<lparr>upd_Mutations := take start ms @ ms'\<rparr>,
              d'\<lparr>db_tables := fold retainDeployment affected
                   (fold deleteOrphanScheduledInstanceStatus (orphan_statuses (drop start ms)) (db_tables d'))\<rparr>)))"

text \<open>Within \<open>Commit\<close> no mutation carries logged counters.\<close>

definition ReduceUpdate :: "nat \<Rightarrow> CoreWriteUpdate \<Rightarrow> db \<Rightarrow> store_error + CoreWriteUpdate \<times> db" where
  "ReduceUpdate start u d = reduceUpdate start u (replicate (length (upd_Mutations u)) None) d"

end
