(* ===== verification/Commit.thy ===== *)
theory Commit
  imports Reducer
begin

text \<open>
  Transactions: the update a commit grows and reduces incrementally, the write log
  (\<open>pq/write_events.go\<close>), its replay (\<open>RebuildFromLog\<close> of \<open>pq/materialise.go\<close>) and
  \<open>Commit\<close> of \<open>state/commit.go\<close>. The mutex is the order in which commits are applied: a
  commit is one function on the database. A trigger is a function on the transaction, as the
  scheduler registers one. Subscribers are notified after the transaction and read only.
\<close>

section \<open>Transactions\<close>

record txn =
  tx_db :: db
  tx_update :: CoreWriteUpdate
  tx_applied :: nat

definition tx_reduce :: "txn \<Rightarrow> store_error + txn" where
  "tx_reduce t =
    bindE (ReduceUpdate (tx_applied t) (tx_update t) (tx_db t)) (\<lambda>(u, d).
      Inr (t\<lparr>tx_db := d, tx_update := u, tx_applied := max (tx_applied t) (length (upd_Mutations u))\<rparr>))"

definition Apply :: "Mutation list \<Rightarrow> txn \<Rightarrow> store_error + txn" where
  "Apply ms t = tx_reduce (t\<lparr>tx_update := AppendMutations (tx_update t) ms\<rparr>)"

type_synonym trigger = "txn \<Rightarrow> store_error + txn"

section \<open>The write log\<close>

definition log_mutation :: "CoreMutation \<Rightarrow> logged_mutation" where
  "log_mutation m =
    \<lparr>lm_entity_type = Type m, lm_entity_id = EntityID m, lm_op = Kind m, lm_payload = Entity m, lm_facts = None\<rparr>"

definition InsertWriteEvent :: "CoreWriteUpdate \<Rightarrow> db \<Rightarrow> store_error + db" where
  "InsertWriteEvent u d =
    (if list_ex (\<lambda>e. we_seq e = upd_Seq u) (db_log d) then Inl (DuplicateSeq (upd_Seq u))
     else Inr (d\<lparr>db_log := db_log d @
       [\<lparr>we_seq = upd_Seq u, we_time = upd_Time u, we_actor = upd_Actor u,
         we_mutations = map log_mutation (upd_Mutations u)\<rparr>]\<rparr>))"

definition decodeWriteEventMutation :: "logged_mutation \<Rightarrow> CoreMutation" where
  "decodeWriteEventMutation m =
    (let t = lm_entity_type m; i = lm_entity_id m;
         e = StampEntityID i (case lm_payload m of None \<Rightarrow> ENone | Some e \<Rightarrow> e)
     in if lm_op m = VERB_DELETE then DeleteMutationOf t i
        else if lm_op m = VERB_CREATE then CreateMutationOf t i e
        else UpdateMutationOf t i e)"

definition logged_update :: "write_event \<Rightarrow> CoreWriteUpdate" where
  "logged_update e = \<lparr>upd_Seq = we_seq e, upd_Time = we_time e, upd_Actor = we_actor e,
     upd_Mutations = map decodeWriteEventMutation (we_mutations e)\<rparr>"

definition logged_facts :: "write_event \<Rightarrow> (nat \<times> nat) option list" where
  "logged_facts e = map (\<lambda>m. case lm_facts m of
       Some (v, sv) \<Rightarrow> if v > 0 \<and> sv > 0 then Some (v, sv) else None | None \<Rightarrow> None) (we_mutations e)"

text \<open>
  The log is read in seq order and an event without mutations does not appear: the read joins
  the envelope with its mutations.
\<close>

definition loggedWriteEventsInRange :: "int \<Rightarrow> int \<Rightarrow> db \<Rightarrow> write_event list" where
  "loggedWriteEventsInRange after upTo d =
    filter (\<lambda>e. after < we_seq e \<and> we_seq e \<le> upTo \<and> we_mutations e \<noteq> []) (sort_key we_seq (db_log d))"

definition LatestMutation :: "CoreEntityType \<Rightarrow> nat \<Rightarrow> db \<Rightarrow> CoreMutation option" where
  "LatestMutation t i d =
    (case filter (\<lambda>m. lm_entity_type m = t \<and> lm_entity_id m = i)
            (concat (map we_mutations (sort_key we_seq (db_log d)))) of
       [] \<Rightarrow> None
     | ms \<Rightarrow> Some (decodeWriteEventMutation (last ms)))"

definition LatestWriteEventSeq :: "db \<Rightarrow> int" where
  "LatestWriteEventSeq d = (if db_log d = [] then -1 else Max (we_seq ` set (db_log d)))"

definition AuthzGlobalRuleNameEverLogged :: "string \<Rightarrow> db \<Rightarrow> bool" where
  "AuthzGlobalRuleNameEverLogged name d =
    list_ex (\<lambda>m. lm_entity_type m = CORE_AUTHZ_GLOBAL_RULE \<and>
      (case lm_payload m of Some (EAuthzGlobalRule r) \<Rightarrow> gr_Name r = name | _ \<Rightarrow> False))
      (concat (map we_mutations (db_log d)))"

section \<open>Replay\<close>

definition replay_event :: "write_event \<Rightarrow> db \<Rightarrow> store_error + db" where
  "replay_event e d = bindE (reduceUpdate 0 (logged_update e) (logged_facts e) d) (\<lambda>(u, d'). Inr d')"

definition reducedTypes :: "CoreEntityType list" where
  "reducedTypes = [CORE_DEPLOYMENT, CORE_SCHEDULED_INSTANCE, CORE_NODE, CORE_SCHEDULED_INSTANCE_STATUS,
    CORE_NODE_STATUS, CORE_SECRET, CORE_CONFIG, CORE_ASSET, CORE_VALUE_DIRECTORY, CORE_ASSET_DIRECTORY,
    CORE_SPACE, CORE_USER, CORE_NETWORK_POLICY, CORE_AUTHZ_GRANT_TEMPLATE, CORE_AUTHZ_GRANT,
    CORE_AUTHZ_GLOBAL_RULE, CORE_AGENT_SESSION, CORE_USER_SESSION, CORE_NIX_STORE_RESET,
    CORE_SECRET_KEYSLOT, CORE_SYSTEM_CONFIG]"

definition clear_tables :: "db \<Rightarrow> db" where
  "clear_tables d = d\<lparr>db_tables := empty_tables,
     db_entity_ids := filter (\<lambda>(t, n). t \<notin> set reducedTypes) (db_entity_ids d)\<rparr>"

definition rebuildPageSeqs :: int where "rebuildPageSeqs = 2000"

function rebuild_pages :: "int \<Rightarrow> int \<Rightarrow> db \<Rightarrow> store_error + db" where
  "rebuild_pages after seq d =
    (if after < seq then
       (let upTo = min (after + rebuildPageSeqs) seq in
        bindE (foldE replay_event (loggedWriteEventsInRange after upTo d) d) (\<lambda>d'. rebuild_pages upTo seq d'))
     else Inr d)"
  by pat_completeness auto
termination
  by (relation "measure (\<lambda>(after, seq, d). nat (seq - after))") (auto simp: rebuildPageSeqs_def)

declare rebuild_pages.simps [simp del]

definition RebuildFromLog :: "db \<Rightarrow> store_error + db" where
  "RebuildFromLog d = rebuild_pages (-1) (db_global_seq d) (clear_tables d)"

section \<open>Commit\<close>

fun run_triggers :: "trigger list \<Rightarrow> txn \<Rightarrow> store_error + txn" where
  "run_triggers [] t = Inr t"
| "run_triggers (f # fs) t = bindE (f t) (\<lambda>t'. bindE (tx_reduce t') (run_triggers fs))"

text \<open>
  \<open>mutate\<close> runs inside the transaction with the next seq and returns what its caller captures
  and the transaction: the database after the ids it allocated, the update it wrote
  (\<open>empty_update\<close> for \<open>nil\<close>) and the mutations it already applied. A commit that writes no
  mutation does not consume a seq; what the transaction wrote besides mutations stays.
\<close>

definition wrote :: "db \<Rightarrow> CoreWriteUpdate \<Rightarrow> txn" where
  "wrote d u = \<lparr>tx_db = d, tx_update = u, tx_applied = 0\<rparr>"

definition Commit ::
  "trigger list \<Rightarrow> (db \<Rightarrow> int \<Rightarrow> store_error + 'r \<times> txn) \<Rightarrow> db \<Rightarrow>
   store_error + 'r \<times> CoreWriteUpdate option \<times> db" where
  "Commit triggers mutate d =
    (let seq = db_global_seq d + 1 in
     bindE (mutate d seq) (\<lambda>(r, t).
     bindE (tx_reduce (t\<lparr>tx_update := (tx_update t)\<lparr>upd_Seq := seq\<rparr>\<rparr>)) (\<lambda>t1.
     bindE (run_triggers triggers t1) (\<lambda>t2.
       if IsEmpty (Some (tx_update t2)) then Inr (r, None, tx_db t2)
       else bindE (InsertWriteEvent (tx_update t2) (tx_db t2)) (\<lambda>d2.
         Inr (r, Some (tx_update t2), d2\<lparr>db_global_seq := seq\<rparr>))))))"

text \<open>\<open>seedWriteLogGenesis\<close>: seq 0 of a fresh database, at the time \<open>now\<close> in milliseconds.\<close>

definition empty_db :: db where
  "empty_db = \<lparr>db_tables = empty_tables, db_entity_ids = [], db_global_seq = 0, db_log = []\<rparr>"

definition genesis_update :: "int \<Rightarrow> CoreWriteUpdate" where
  "genesis_update now =
    \<lparr>upd_Seq = 0, upd_Time = now, upd_Actor = 0, upd_Mutations =
      map (\<lambda>sp. CreateMutationOf CORE_SPACE (space_ID sp) (ESpace sp))
        [\<lparr>space_ID = 0, space_Name = ''_system''\<rparr>, \<lparr>space_ID = 1, space_Name = ''global''\<rparr>]\<rparr>"

definition seedWriteLogGenesis :: "int \<Rightarrow> db \<Rightarrow> store_error + db" where
  "seedWriteLogGenesis now d =
    (if LatestWriteEventSeq d \<ge> 0 then Inr d
     else bindE (ReduceUpdate 0 (genesis_update now) d) (\<lambda>(u, d'). InsertWriteEvent u d'))"

end
