(* ===== verification/Retention.thy ===== *)
theory Retention
  imports Reducer
begin

text \<open>
  What the retention rules of \<open>retainDeployment\<close> keep, that applying them again changes nothing,
  that they commute across deployments, and that every placement kept still finds the deployment
  version it is pinned to. The status rules follow: the report with the greater clock wins, and a
  report reads back from its row as the canonical form that is published.
\<close>

section \<open>What retention keeps\<close>

lemma fold_delete_instances:
  "fold deleteScheduledInstanceRows ids ts =
     ts\<lparr>scheduled_instance_status := filter (\<lambda>(i, r). i \<notin> set ids) (scheduled_instance_status ts),
        scheduled_instances := filter (\<lambda>(i, r). i \<notin> set ids) (scheduled_instances ts)\<rparr>"
proof (induction ids arbitrary: ts)
  case (Cons i ids)
  have f: "filter (\<lambda>(j, r). j \<notin> set ids) (tbl_del i t) = filter (\<lambda>(j, r). j \<notin> set (i # ids)) t"
    for t :: "(nat \<times> 'b) list"
    by (induction t) (auto simp: tbl_del_def)
  have "deleteScheduledInstanceRows i ts = ts\<lparr>scheduled_instance_status := tbl_del i (scheduled_instance_status ts),
      scheduled_instances := tbl_del i (scheduled_instances ts)\<rparr>"
    by (simp add: deleteScheduledInstanceRows_def deleteScheduledInstanceStatusRow_def Let_def)
  then show ?case by (simp add: Cons.IH f)
qed (simp add: filter_True case_prod_unfold)

definition live :: "nat \<Rightarrow> tables \<Rightarrow> bool" where
  "live dep ts \<longleftrightarrow> tbl_get (deployments ts) dep \<noteq> None"

definition pruned :: "nat \<Rightarrow> tables \<Rightarrow> nat \<times> ScheduledInstance row \<Rightarrow> bool" where
  "pruned dep ts = pruned_instance dep (live dep ts) (scheduled_instances ts)"

definition current_version :: "nat \<Rightarrow> tables \<Rightarrow> nat" where
  "current_version dep ts = (case tbl_get (deployments ts) dep of None \<Rightarrow> 0 | Some r \<Rightarrow> dr_Version (row_value r))"

definition pins :: "nat \<Rightarrow> (nat, ScheduledInstance row) table \<Rightarrow> nat set" where
  "pins dep t = set (map (\<lambda>(i, r). dref_Version (si_Deployment (row_value r)))
     (filter (\<lambda>(i, r). row_deployment r = dep) t))"

lemma pins_iff: "v \<in> pins dep t \<longleftrightarrow> (\<exists>i r. (i, r) \<in> set t \<and> row_deployment r = dep \<and> dref_Version (si_Deployment (row_value r)) = v)"
  by (force simp: pins_def)

lemma retained_instances:
  assumes "distinct (map fst (scheduled_instances ts))"
  shows "scheduled_instances (retainDeployment dep ts) = filter (\<lambda>e. \<not> pruned dep ts e) (scheduled_instances ts)"
proof -
  let ?T = "scheduled_instances ts"
  have "(case e of (i, r) \<Rightarrow> i \<notin> set (map fst (filter (pruned dep ts) ?T))) \<longleftrightarrow> \<not> pruned dep ts e"
    if "e \<in> set ?T" for e
    using that assms by (cases e) (auto simp: image_iff intro: eq_key_imp_eq_value rev_bexI dest: eq_key_imp_eq_value)
  then show ?thesis
    by (auto simp: retainDeployment_def fold_delete_instances Let_def pruned_def live_def intro: filter_cong)
qed

lemma retained_versions:
  "deployment_versions (retainDeployment dep ts) =
    filter (\<lambda>((j, v), r). \<not> (j = dep \<and> v \<noteq> current_version dep ts \<and>
       v \<notin> pins dep (scheduled_instances (retainDeployment dep ts)))) (deployment_versions ts)"
  by (simp add: retainDeployment_def Let_def current_version_def pins_def fold_delete_instances)

lemma retained_other [simp]:
  "deployments (retainDeployment dep ts) = deployments ts"
  by (simp add: retainDeployment_def fold_delete_instances Let_def)

lemma retained_statuses:
  "scheduled_instance_status (retainDeployment dep ts) =
     filter (\<lambda>(i, r). i \<notin> fst ` {e \<in> set (scheduled_instances ts). pruned dep ts e}) (scheduled_instance_status ts)"
  by (simp add: retainDeployment_def fold_delete_instances Let_def pruned_def live_def image_def)

lemma retain_eq:
  "distinct (map fst (scheduled_instances ts)) \<Longrightarrow> retainDeployment dep ts = ts\<lparr>
     scheduled_instance_status :=
       filter (\<lambda>(i, r). i \<notin> fst ` {e \<in> set (scheduled_instances ts). pruned dep ts e}) (scheduled_instance_status ts),
     scheduled_instances := filter (\<lambda>e. \<not> pruned dep ts e) (scheduled_instances ts),
     deployment_versions := filter (\<lambda>((j, v), r). \<not> (j = dep \<and> v \<noteq> current_version dep ts \<and>
       v \<notin> pins dep (filter (\<lambda>e. \<not> pruned dep ts e) (scheduled_instances ts)))) (deployment_versions ts)\<rparr>"
  using retained_instances [of ts dep] retained_versions [of dep ts] retained_statuses [of dep ts]
  by (simp add: retainDeployment_def Let_def fold_delete_instances)

lemma pruned_iff:
  "pruned dep ts (i, s) \<longleftrightarrow> row_deployment s = dep \<and> row_final s \<and>
    (\<not> live dep ts
     \<or> (\<exists>(j, r) \<in> set (scheduled_instances ts). row_deployment r = dep \<and> row_ordinal r = row_ordinal s \<and> \<not> row_final r)
     \<or> (\<exists>(j, r) \<in> set (scheduled_instances ts). row_deployment r = dep \<and> row_ordinal r = row_ordinal s \<and> row_final r \<and> i < j))"
  by (auto simp: pruned_def pruned_instance_def list_ex_iff)

lemma pruned_deployment: "pruned dep ts e \<Longrightarrow> row_deployment (snd e) = dep"
  by (cases e) (simp add: pruned_iff)

lemma pruned_mono:
  "deployments ts' = deployments ts \<Longrightarrow> set (scheduled_instances ts') \<subseteq> set (scheduled_instances ts) \<Longrightarrow>
   pruned dep ts' e \<Longrightarrow> pruned dep ts e"
  by (cases e) (auto simp: pruned_iff live_def)

lemma pruned_other:
  assumes "deployments ts' = deployments ts"
    and "\<And>e. row_deployment (snd e) = dep \<Longrightarrow> e \<in> set (scheduled_instances ts') \<longleftrightarrow> e \<in> set (scheduled_instances ts)"
  shows "pruned dep ts' e \<longleftrightarrow> pruned dep ts e"
proof -
  have "(\<exists>(j, r) \<in> set (scheduled_instances ts'). row_deployment r = dep \<and> P j r) \<longleftrightarrow>
        (\<exists>(j, r) \<in> set (scheduled_instances ts). row_deployment r = dep \<and> P j r)" for P
    using assms(2) by (metis (mono_tags, lifting) case_prodE case_prodI snd_conv)
  from this [of "\<lambda>j r. row_ordinal r = row_ordinal (snd e) \<and> \<not> row_final r"]
    this [of "\<lambda>j r. row_ordinal r = row_ordinal (snd e) \<and> row_final r \<and> fst e < j"]
  show ?thesis by (cases e) (simp add: pruned_iff live_def assms(1))
qed

lemma distinct_retained:
  "distinct (map fst (scheduled_instances ts)) \<Longrightarrow> distinct (map fst (scheduled_instances (retainDeployment dep ts)))"
  by (simp add: retained_instances distinct_map_filter)

lemma retain_idem:
  assumes "distinct (map fst (scheduled_instances ts))"
  shows "retainDeployment dep (retainDeployment dep ts) = retainDeployment dep ts"
proof -
  let ?ts' = "retainDeployment dep ts"
  note d = distinct_retained [OF assms]
  have none: "\<not> pruned dep ?ts' e" if "e \<in> set (scheduled_instances ?ts')" for e
    using pruned_mono [of ?ts' ts dep e] that by (auto simp: retained_instances [OF assms])
  then have f: "filter (\<lambda>e. \<not> pruned dep ?ts' e) (scheduled_instances ?ts') = scheduled_instances ?ts'"
    by (simp add: filter_id_conv)
  have g: "filter (\<lambda>(i, r). i \<notin> fst ` {e \<in> set (scheduled_instances ?ts'). pruned dep ?ts' e}) t = t"
    for t :: "(nat \<times> scheduledInstanceStatusRow row) list"
    using none by (auto simp: filter_id_conv)
  have c: "current_version dep ?ts' = current_version dep ts" by (simp add: current_version_def)
  have v: "filter (\<lambda>((j, v), r). \<not> (j = dep \<and> v \<noteq> current_version dep ts \<and>
      v \<notin> pins dep (scheduled_instances ?ts'))) (deployment_versions ?ts') = deployment_versions ?ts'"
    by (subst (1 2) retained_versions) (simp add: filter_filter [symmetric] del: filter_filter)
  show ?thesis by (subst retain_eq [OF d]) (simp add: f g c v [simplified])
qed

lemma retain_commute:
  assumes d: "distinct (map fst (scheduled_instances ts))" and ne: "a \<noteq> b"
  shows "retainDeployment a (retainDeployment b ts) = retainDeployment b (retainDeployment a ts)"
proof -
  have keep: "e \<in> set (scheduled_instances (retainDeployment x ts)) \<longleftrightarrow> e \<in> set (scheduled_instances ts)"
    if "row_deployment (snd e) = y" "x \<noteq> y" for e x y
    using that pruned_deployment by (fastforce simp: retained_instances [OF d])
  have pr: "pruned x (retainDeployment y ts) e \<longleftrightarrow> pruned x ts e" if "x \<noteq> y" for x y e
    by (rule pruned_other) (use that keep in auto)
  have pe: "pins x (filter (\<lambda>e. \<not> pruned x ts e) (filter (\<lambda>e. \<not> pruned y ts e) (scheduled_instances ts))) =
        pins x (filter (\<lambda>e. \<not> pruned x ts e) (scheduled_instances ts))" if "x \<noteq> y" for x y
    using that by (auto simp: pins_iff pruned_iff set_eq_iff)
  have cv: "current_version x (retainDeployment y ts) = current_version x ts" for x y
    by (simp add: current_version_def)
  have st: "{e \<in> set (scheduled_instances (retainDeployment y ts)). pruned x ts e} =
      {e \<in> set (scheduled_instances ts). pruned x ts e}" if "x \<noteq> y" for x y
    using that by (auto simp: retained_instances [OF d] dest: pruned_deployment)
  note eq = retain_eq [OF distinct_retained [OF d]]
  note ne' = ne [symmetric]
  show ?thesis
    unfolding eq [of a b] eq [of b a] pr [OF ne] pr [OF ne'] cv
    unfolding st [OF ne] st [OF ne']
    unfolding retained_instances [OF d] pe [OF ne] pe [OF ne']
    unfolding retain_eq [OF d]
    by (simp add: filter_filter conj_commute case_prod_unfold)
qed

section \<open>Pinned versions stay readable\<close>

text \<open>
  Every placement is pinned to a version row that exists, and so is every live deployment: the
  scheduler and the subscribers read both without a fallback.
\<close>

definition pins_ok :: "tables \<Rightarrow> bool" where
  "pins_ok ts \<longleftrightarrow> (\<forall>(i, r) \<in> set (scheduled_instances ts).
     tbl_get (deployment_versions ts) (row_deployment r, dref_Version (si_Deployment (row_value r))) \<noteq> None)"

definition current_ok :: "tables \<Rightarrow> bool" where
  "current_ok ts \<longleftrightarrow> (\<forall>(i, r) \<in> set (deployments ts). tbl_get (deployment_versions ts) (i, dr_Version (row_value r)) \<noteq> None)"

lemma retain_version_get:
  assumes "tbl_wf (deployment_versions ts)"
  shows "tbl_get (deployment_versions (retainDeployment dep ts)) (j, v) =
    (if j = dep \<and> v \<noteq> current_version dep ts \<and> v \<notin> pins dep (scheduled_instances (retainDeployment dep ts))
     then None else tbl_get (deployment_versions ts) (j, v))"
  using assms unfolding retained_versions tbl_wf_def
  by (subst tbl_get_filter) (auto split: option.splits)

lemma retain_pins_ok:
  assumes "distinct (map fst (scheduled_instances ts))" "tbl_wf (deployment_versions ts)" "pins_ok ts"
  shows "pins_ok (retainDeployment dep ts)"
proof -
  have "tbl_get (deployment_versions (retainDeployment dep ts))
      (row_deployment r, dref_Version (si_Deployment (row_value r))) \<noteq> None"
    if "(i, r) \<in> set (scheduled_instances (retainDeployment dep ts))" for i r
  proof -
    have "(i, r) \<in> set (scheduled_instances ts)" using that by (simp add: retained_instances [OF assms(1)])
    with assms(3) have "tbl_get (deployment_versions ts) (row_deployment r, dref_Version (si_Deployment (row_value r))) \<noteq> None"
      by (auto simp: pins_ok_def)
    moreover have "dref_Version (si_Deployment (row_value r)) \<in>
        pins (row_deployment r) (scheduled_instances (retainDeployment dep ts))"
      using that by (auto simp: pins_iff)
    ultimately show ?thesis by (auto simp: retain_version_get [OF assms(2)])
  qed
  then show ?thesis by (auto simp: pins_ok_def)
qed

lemma retain_current_ok:
  assumes "tbl_wf (deployments ts)" "tbl_wf (deployment_versions ts)" "current_ok ts"
  shows "current_ok (retainDeployment dep ts)"
proof -
  have "tbl_get (deployment_versions (retainDeployment dep ts)) (i, dr_Version (row_value r)) \<noteq> None"
    if "(i, r) \<in> set (deployments ts)" for i r
  proof -
    have "tbl_get (deployments ts) i = Some r" using that assms(1) by (simp add: tbl_wf_def)
    then have "i = dep \<Longrightarrow> dr_Version (row_value r) = current_version dep ts"
      by (simp add: current_version_def)
    then show ?thesis using that assms(3)
      by (auto simp: retain_version_get [OF assms(2)] current_ok_def)
  qed
  then show ?thesis by (auto simp: current_ok_def)
qed

section \<open>Statuses\<close>

text \<open>The row holds the report with the greatest clock, whatever the order the reports arrive in.\<close>

definition status_clock :: "nat \<Rightarrow> tables \<Rightarrow> int option" where
  "status_clock i ts = map_option (\<lambda>r. sr_updatedAt (row_value r)) (tbl_get (scheduled_instance_status ts) i)"

lemma reduceScheduledInstanceStatus_Inr:
  assumes "reduceScheduledInstanceStatus env meta i (Some st) ts = Inr (meta', ts')"
    and "tbl_wf (scheduled_instance_status ts)"
  shows "tbl_get (scheduled_instance_status ts') i =
    (case tbl_get (scheduled_instance_status ts) i of
       Some old \<Rightarrow> if sr_updatedAt (status_columns st) \<ge> sr_updatedAt (row_value old)
                   then Some (make_row env (status_columns st) (row_created_time old)) else Some old
     | None \<Rightarrow> Some (make_row env (status_columns st) (env_EventTime env)))"
  using assms by (auto simp: reduceScheduledInstanceStatus_def Let_def put_row_def upsert_get
      upsert_created_def split: option.splits if_splits)

lemma column_maybe_sel [simp]: "column_maybe z None = absent z" "column_maybe z (Some v) = some_maybe v"
  by (simp_all add: column_maybe_def)

lemma maybe_eq_some: "Present m \<Longrightarrow> some_maybe (Value m) = (m :: 'a maybe)"
  by (simp add: some_maybe_def)

text \<open>An absent field of a decoded message holds the zero value.\<close>

definition maybe_wf :: "'a \<Rightarrow> 'a maybe \<Rightarrow> bool" where
  "maybe_wf z m \<longleftrightarrow> Present m \<or> m = absent z"

definition status_wf :: "ScheduledInstanceStatus \<Rightarrow> bool" where
  "status_wf st \<longleftrightarrow> maybe_wf 0 (sis_UpdatedAt st) \<and> (Present (sis_UpdatedAt st) \<longrightarrow> Value (sis_UpdatedAt st) \<noteq> 0) \<and>
    (case sis_Preparer st of None \<Rightarrow> True | Some p \<Rightarrow>
       maybe_wf 0 (ps_Image p) \<and> (Present (ps_Image p) \<longrightarrow> Value (ps_Image p) \<noteq> IMAGE_UNSPECIFIED)) \<and>
    (case sis_Runner st of None \<Rightarrow> True | Some r \<Rightarrow>
       maybe_wf 0 (rs_RunningPid r) \<and> maybe_wf 0 (rs_LastRestartAt r) \<and> maybe_wf 0 (rs_ExitCode r))"

lemma maybe_wf_column: "maybe_wf z m \<Longrightarrow> column_maybe z (if Present m then Some (Value m) else None) = m"
  by (auto simp: maybe_wf_def maybe_eq_some)

lemma preparer_roundtrip:
  "maybe_wf 0 (ps_Image p) \<and> (Present (ps_Image p) \<longrightarrow> Value (ps_Image p) \<noteq> IMAGE_UNSPECIFIED) \<Longrightarrow>
   \<lparr>ps_SpecVersion = ps_SpecVersion p, ps_Artifact = ps_Artifact p, ps_Inputs = ps_Inputs p,
    ps_Image = (if Value (ps_Image p) \<noteq> 0 then some_maybe (Value (ps_Image p)) else absent 0)\<rparr> = p"
  by (cases p, cases "Present (ps_Image p)") (auto simp: maybe_wf_def maybe_eq_some)

lemma clock_roundtrip: "maybe_wf 0 m \<Longrightarrow> (Present m \<longrightarrow> Value m \<noteq> 0) \<Longrightarrow> nanosToClock (clockToNanos m) = m"
  by (cases "Present m") (auto simp: maybe_wf_def nanosToClock_def clockToNanos_def maybe_eq_some)

lemma restart_roundtrip:
  "maybe_wf 0 m \<Longrightarrow>
   column_maybe 0 (map_option (\<lambda>ms. ms * 1000000) (if Present m then Some (timeToMillis m) else None)) =
   (if Present m then some_maybe (UnixMilli (Value m) * 1000000) else m)"
  by (auto simp: maybe_wf_def timeToMillis_def)

lemma toStatus_columns:
  assumes "status_wf st"
  shows "toStatus (sis_ScheduledInstanceID st) (status_columns st) = CanonicalScheduledInstanceStatus st"
proof (rule ScheduledInstanceStatus.equality)
  show "sis_UpdatedAt (toStatus (sis_ScheduledInstanceID st) (status_columns st)) =
      sis_UpdatedAt (CanonicalScheduledInstanceStatus st)"
    using assms by (simp add: toStatus_def status_columns_def CanonicalScheduledInstanceStatus_def
        status_wf_def clock_roundtrip)
  show "sis_Preparer (toStatus (sis_ScheduledInstanceID st) (status_columns st)) =
      sis_Preparer (CanonicalScheduledInstanceStatus st)"
    using assms preparer_roundtrip by (cases "sis_Preparer st")
      (simp_all add: toStatus_def status_columns_def CanonicalScheduledInstanceStatus_def status_wf_def cong: if_cong split del: if_split)
  show "sis_Runner (toStatus (sis_ScheduledInstanceID st) (status_columns st)) =
      sis_Runner (CanonicalScheduledInstanceStatus st)"
    using assms by (cases "sis_Runner st")
      (simp_all add: toStatus_def status_columns_def CanonicalScheduledInstanceStatus_def status_wf_def
        maybe_wf_column restart_roundtrip)
qed (simp_all add: toStatus_def CanonicalScheduledInstanceStatus_def)

end
