(* ===== verification/Store_Inv.thy ===== *)
theory Store_Inv
  imports Commit Retention
begin

text \<open>
  The invariant of the primary store and that every step of a transaction keeps it. Transactions
  act on the store in two ways only, allocating an id and applying mutations; the inductive
  relation \<open>tx_steps\<close> is their closure, and a trigger is well behaved when it refines it. The
  invariant says that the tables are keyed and ordered, that the id counters are ahead of every
  row and of every create and update ever logged, that placements and deployments find their
  version rows, and that the log ends at the global seq.
\<close>

section \<open>Frames of the reducers\<close>

lemmas plain_reducer_defs =
  reduceSpace_def reduceUser_def reduceNetworkPolicy_def reduceAuthzGrantTemplate_def reduceAuthzGrant_def
  reduceAuthzGlobalRule_def reduceSystemConfig_def reduceAgentSession_def reduceUserSession_def
  reduceNixStoreReset_def reduceSecretKeyslot_def reduceNode_def reduceNodeStatus_def

lemmas value_reducer_defs =
  reduceSecret_def reduceConfig_def reduceAsset_def reduceValueDirectory_def reduceAssetDirectory_def
  setValueKey_def setAssetKey_def

lemmas instance_reducer_defs =
  reduceScheduledInstance_def reduceScheduledInstanceStatus_def

definition tables_wf :: "tables \<Rightarrow> bool" where
  "tables_wf ts \<longleftrightarrow>
    tbl_wf (deployments ts) \<and> tbl_wf (deployment_versions ts) \<and> tbl_wf (scheduled_instances ts) \<and>
    tbl_wf (scheduled_instance_status ts) \<and> tbl_wf (nodes ts) \<and> tbl_wf (node_status ts) \<and>
    tbl_wf (secrets ts) \<and> tbl_wf (secret_versions ts) \<and> tbl_wf (configs ts) \<and> tbl_wf (config_versions ts) \<and>
    tbl_wf (assets ts) \<and> tbl_wf (asset_versions ts) \<and> tbl_wf (value_directories ts) \<and>
    tbl_wf (asset_directories ts) \<and> tbl_wf (spaces ts) \<and> tbl_wf (users ts) \<and> tbl_wf (network_policies ts) \<and>
    tbl_wf (authz_grant_templates ts) \<and> tbl_wf (authz_grants ts) \<and> tbl_wf (authz_global_rules ts) \<and>
    tbl_wf (agent_sessions ts) \<and> tbl_wf (user_sessions ts) \<and> tbl_wf (nix_store_resets ts) \<and>
    tbl_wf (secret_keyslots ts) \<and> tbl_wf (system_config ts)"

lemma insert_version_wf [table_simps]: "tbl_wf t \<Longrightarrow> tbl_wf (insert_version env i v x c t)"
  by (auto simp: insert_version_def table_simps split: option.splits)

lemma insert_version_get:
  "tbl_wf t \<Longrightarrow> tbl_get (insert_version env i v x c t) k =
    (case tbl_get t k of Some r \<Rightarrow> Some r | None \<Rightarrow> if k = (i, v) then Some (make_row env x c) else None)"
  by (auto simp: insert_version_def tbl_get_put split: option.splits)

lemma tables_wf_sel:
  assumes "tables_wf ts"
  shows "tbl_wf (deployments ts)" "tbl_wf (deployment_versions ts)" "tbl_wf (scheduled_instances ts)"
    "tbl_wf (scheduled_instance_status ts)" "tbl_wf (authz_grant_templates ts)" "tbl_wf (authz_grants ts)"
    "tbl_wf (authz_global_rules ts)" "tbl_wf (nodes ts)" "tbl_wf (spaces ts)" "tbl_wf (configs ts)"
    "tbl_wf (config_versions ts)" "tbl_wf (secrets ts)" "tbl_wf (secret_versions ts)" "tbl_wf (assets ts)"
    "tbl_wf (asset_versions ts)" "tbl_wf (value_directories ts)" "tbl_wf (asset_directories ts)"
  using assms by (simp_all add: tables_wf_def)

text \<open>Writing one table in a way that keeps it keyed keeps all of them.\<close>

lemma tables_wf_update:
  assumes "tables_wf ts"
  shows "(tbl_wf (deployments ts) \<Longrightarrow> tbl_wf (f0 (deployments ts))) \<Longrightarrow> tables_wf (deployments_update f0 ts)"
    "(tbl_wf (deployment_versions ts) \<Longrightarrow> tbl_wf (f1 (deployment_versions ts))) \<Longrightarrow> tables_wf (deployment_versions_update f1 ts)"
    "(tbl_wf (scheduled_instances ts) \<Longrightarrow> tbl_wf (f2 (scheduled_instances ts))) \<Longrightarrow> tables_wf (scheduled_instances_update f2 ts)"
    "(tbl_wf (scheduled_instance_status ts) \<Longrightarrow> tbl_wf (f3 (scheduled_instance_status ts))) \<Longrightarrow> tables_wf (scheduled_instance_status_update f3 ts)"
    "(tbl_wf (nodes ts) \<Longrightarrow> tbl_wf (f4 (nodes ts))) \<Longrightarrow> tables_wf (nodes_update f4 ts)"
    "(tbl_wf (node_status ts) \<Longrightarrow> tbl_wf (f5 (node_status ts))) \<Longrightarrow> tables_wf (node_status_update f5 ts)"
    "(tbl_wf (secrets ts) \<Longrightarrow> tbl_wf (f6 (secrets ts))) \<Longrightarrow> tables_wf (secrets_update f6 ts)"
    "(tbl_wf (secret_versions ts) \<Longrightarrow> tbl_wf (f7 (secret_versions ts))) \<Longrightarrow> tables_wf (secret_versions_update f7 ts)"
    "(tbl_wf (configs ts) \<Longrightarrow> tbl_wf (f8 (configs ts))) \<Longrightarrow> tables_wf (configs_update f8 ts)"
    "(tbl_wf (config_versions ts) \<Longrightarrow> tbl_wf (f9 (config_versions ts))) \<Longrightarrow> tables_wf (config_versions_update f9 ts)"
    "(tbl_wf (assets ts) \<Longrightarrow> tbl_wf (f10 (assets ts))) \<Longrightarrow> tables_wf (assets_update f10 ts)"
    "(tbl_wf (asset_versions ts) \<Longrightarrow> tbl_wf (f11 (asset_versions ts))) \<Longrightarrow> tables_wf (asset_versions_update f11 ts)"
    "(tbl_wf (value_directories ts) \<Longrightarrow> tbl_wf (f12 (value_directories ts))) \<Longrightarrow> tables_wf (value_directories_update f12 ts)"
    "(tbl_wf (asset_directories ts) \<Longrightarrow> tbl_wf (f13 (asset_directories ts))) \<Longrightarrow> tables_wf (asset_directories_update f13 ts)"
    "(tbl_wf (spaces ts) \<Longrightarrow> tbl_wf (f14 (spaces ts))) \<Longrightarrow> tables_wf (spaces_update f14 ts)"
    "(tbl_wf (users ts) \<Longrightarrow> tbl_wf (f15 (users ts))) \<Longrightarrow> tables_wf (users_update f15 ts)"
    "(tbl_wf (network_policies ts) \<Longrightarrow> tbl_wf (f16 (network_policies ts))) \<Longrightarrow> tables_wf (network_policies_update f16 ts)"
    "(tbl_wf (authz_grant_templates ts) \<Longrightarrow> tbl_wf (f17 (authz_grant_templates ts))) \<Longrightarrow> tables_wf (authz_grant_templates_update f17 ts)"
    "(tbl_wf (authz_grants ts) \<Longrightarrow> tbl_wf (f18 (authz_grants ts))) \<Longrightarrow> tables_wf (authz_grants_update f18 ts)"
    "(tbl_wf (authz_global_rules ts) \<Longrightarrow> tbl_wf (f19 (authz_global_rules ts))) \<Longrightarrow> tables_wf (authz_global_rules_update f19 ts)"
    "(tbl_wf (agent_sessions ts) \<Longrightarrow> tbl_wf (f20 (agent_sessions ts))) \<Longrightarrow> tables_wf (agent_sessions_update f20 ts)"
    "(tbl_wf (user_sessions ts) \<Longrightarrow> tbl_wf (f21 (user_sessions ts))) \<Longrightarrow> tables_wf (user_sessions_update f21 ts)"
    "(tbl_wf (nix_store_resets ts) \<Longrightarrow> tbl_wf (f22 (nix_store_resets ts))) \<Longrightarrow> tables_wf (nix_store_resets_update f22 ts)"
    "(tbl_wf (secret_keyslots ts) \<Longrightarrow> tbl_wf (f23 (secret_keyslots ts))) \<Longrightarrow> tables_wf (secret_keyslots_update f23 ts)"
    "(tbl_wf (system_config ts) \<Longrightarrow> tbl_wf (f24 (system_config ts))) \<Longrightarrow> tables_wf (system_config_update f24 ts)"
    "tables_wf (value_keys_update g ts)" "tables_wf (asset_keys_update g ts)"
  using assms by (simp_all add: tables_wf_def)

lemma plain_reducers_wf:
  assumes "tables_wf ts"
  shows "reduceSpace env meta i v1 ts = Inr (meta', ts') \<Longrightarrow> tables_wf ts'"
    "reduceUser env meta i v2 ts = Inr (meta', ts') \<Longrightarrow> tables_wf ts'"
    "reduceNetworkPolicy env meta i v3 ts = Inr (meta', ts') \<Longrightarrow> tables_wf ts'"
    "reduceAuthzGrantTemplate env meta i v4 ts = Inr (meta', ts') \<Longrightarrow> tables_wf ts'"
    "reduceAuthzGrant env meta i v5 ts = Inr (meta', ts') \<Longrightarrow> tables_wf ts'"
    "reduceAuthzGlobalRule env meta i v6 ts = Inr (meta', ts') \<Longrightarrow> tables_wf ts'"
    "reduceSystemConfig env meta i v7 ts = Inr (meta', ts') \<Longrightarrow> tables_wf ts'"
    "reduceAgentSession env meta i v8 ts = Inr (meta', ts') \<Longrightarrow> tables_wf ts'"
    "reduceUserSession env meta i v9 ts = Inr (meta', ts') \<Longrightarrow> tables_wf ts'"
    "reduceNixStoreReset env meta i v10 ts = Inr (meta', ts') \<Longrightarrow> tables_wf ts'"
    "reduceSecretKeyslot env meta i v11 ts = Inr (meta', ts') \<Longrightarrow> tables_wf ts'"
    "reduceNode env meta i v12 ts = Inr (meta', ts') \<Longrightarrow> tables_wf ts'"
    "reduceNodeStatus env meta i v13 ts = Inr (meta', ts') \<Longrightarrow> tables_wf ts'"
    "reduceScheduledInstance env meta i v14 ts = Inr (meta', ts') \<Longrightarrow> tables_wf ts'"
    "reduceScheduledInstanceStatus env meta i v15 ts = Inr (meta', ts') \<Longrightarrow> tables_wf ts'"
  using assms
  by (auto simp: plain_reducer_defs instance_reducer_defs put_row_def Let_def bindE_Inr table_simps
      intro!: tables_wf_update split: option.splits if_splits prod.splits)

text \<open>What a value reducer writes: the identity row, the version row and the path component.\<close>

lemma reduceSecret_form:
  assumes "reduceSecret env meta i v ts = Inr (meta', ts')"
  obtains r version sealed ks where "ts' = (secrets_update (upsert env i r (env_EventTime env)) ts)\<lparr>
    secret_versions := insert_version env i version sealed 0 (secret_versions ts), value_keys := ks\<rparr>"
proof -
  from assms obtain s sealed version where "v = Some s" "sec_Sealed s = Some sealed"
    "nextValueVersion (secrets ts) i (version_unchanged (secret_versions ts) i sealed) = Inr version"
    by (auto simp: reduceSecret_def bindE_Inr split: option.splits)
  with assms that show ?thesis
    by (auto simp: reduceSecret_def put_row_def setValueKey_def Let_def bindE_Inr split: if_splits)
qed

lemma reduceConfig_form:
  assumes "reduceConfig env meta i v ts = Inr (meta', ts')"
  obtains r version val ks where "ts' = (configs_update (upsert env i r (env_EventTime env)) ts)\<lparr>
    config_versions := insert_version env i version val 0 (config_versions ts), value_keys := ks\<rparr>"
proof -
  from assms obtain c version where "v = Some c"
    "nextValueVersion (configs ts) i (version_unchanged (config_versions ts) i (cfg_Value c)) = Inr version"
    by (auto simp: reduceConfig_def bindE_Inr split: option.splits)
  with assms that show ?thesis
    by (auto simp: reduceConfig_def put_row_def setValueKey_def Let_def bindE_Inr split: if_splits)
qed

lemma reduceAsset_form:
  assumes "reduceAsset env meta i v ts = Inr (meta', ts')"
  obtains r version content ks where "ts' = (assets_update (upsert env i r (env_EventTime env)) ts)\<lparr>
    asset_versions := insert_version env i version content 0 (asset_versions ts), asset_keys := ks\<rparr>"
proof -
  from assms obtain a version where "v = Some a"
    "nextValueVersion (assets ts) i (version_unchanged (asset_versions ts) i
       \<lparr>av_Sha256 = ast_Sha256 a, av_SizeBytes = ast_SizeBytes a, av_StorageKey = ast_StorageKey a\<rparr>) = Inr version"
    by (auto simp: reduceAsset_def Let_def bindE_Inr split: option.splits)
  with assms that show ?thesis
    by (auto simp: reduceAsset_def put_row_def setAssetKey_def Let_def bindE_Inr split: if_splits)
qed

lemma reduceValueDirectory_form:
  assumes "reduceValueDirectory env meta i v ts = Inr (meta', ts')"
  obtains r ks where
    "ts' = (value_directories_update (upsert env i r (env_EventTime env)) ts)\<lparr> value_keys := ks\<rparr>"
  using assms that
  by (auto simp: reduceValueDirectory_def put_row_def setValueKey_def Let_def bindE_Inr split: option.splits if_splits)

lemma reduceAssetDirectory_form:
  assumes "reduceAssetDirectory env meta i v ts = Inr (meta', ts')"
  obtains r ks where
    "ts' = (asset_directories_update (upsert env i r (env_EventTime env)) ts)\<lparr> asset_keys := ks\<rparr>"
  using assms that
  by (auto simp: reduceAssetDirectory_def put_row_def setAssetKey_def Let_def bindE_Inr split: option.splits if_splits)

lemma reduceDeployment_form:
  assumes "reduceDeployment env meta i v ts = Inr (meta', ts')"
  obtains d version sv created where "v = Some d" "deployment_facts env i d ts = (version, sv, created)"
    "1 \<le> i" "i \<le> 16777215"
    "ts' = deployments_update (upsert env i \<lparr>dr_SpaceID = dep_SpaceID d, dr_Name = dep_Name d,
          dr_Version = version, dr_SpecVersion = sv\<rparr> created) (ts\<lparr>
      deployment_versions := insert_version env i version \<lparr>dvr_SpecVersion = sv, dvr_Value = d\<lparr>dep_ID := 0\<rparr>\<rparr>
        created (deployment_versions ts)\<rparr>)"
    "meta' = meta\<lparr>meta_CreatedTime := upsert_created env i (deployments ts) created,
       meta_Version := version, meta_SpecVersion := sv\<rparr>"
  using assms that
  by (auto simp: reduceDeployment_def put_row_def Let_def split: option.splits if_splits prod.splits)

lemma value_reducers_wf:
  assumes wf: "tables_wf ts"
  shows "reduceSecret env meta i v1 ts = Inr (meta', ts') \<Longrightarrow> tables_wf ts'"
    "reduceConfig env meta i v2 ts = Inr (meta', ts') \<Longrightarrow> tables_wf ts'"
    "reduceAsset env meta i v3 ts = Inr (meta', ts') \<Longrightarrow> tables_wf ts'"
    "reduceValueDirectory env meta i v4 ts = Inr (meta', ts') \<Longrightarrow> tables_wf ts'"
    "reduceAssetDirectory env meta i v5 ts = Inr (meta', ts') \<Longrightarrow> tables_wf ts'"
    "reduceDeployment env meta i v6 ts = Inr (meta', ts') \<Longrightarrow> tables_wf ts'"
       apply (erule reduceSecret_form, simp add: tables_wf_update wf table_simps tables_wf_sel)
      apply (erule reduceConfig_form, simp add: tables_wf_update wf table_simps tables_wf_sel)
     apply (erule reduceAsset_form, simp add: tables_wf_update wf table_simps tables_wf_sel)
    apply (erule reduceValueDirectory_form, simp add: tables_wf_update wf table_simps tables_wf_sel)
   apply (erule reduceAssetDirectory_form, simp add: tables_wf_update wf table_simps tables_wf_sel)
  apply (erule reduceDeployment_form, simp add: tables_wf_update wf table_simps tables_wf_sel)
  done

lemma reduce_entity_wf:
  assumes "reduce_entity t env meta i v ts = Some (Inr (meta', ts'))" "tables_wf ts"
  shows "tables_wf ts'"
  using assms(1) unfolding reduce_entity_def
  by (auto split: if_splits dest: plain_reducers_wf [OF assms(2)] value_reducers_wf [OF assms(2)])

lemma delete_rows_wf:
  assumes "delete_rows t i ts = Some ts'" "tables_wf ts"
  shows "tables_wf ts'"
  using assms
  by (auto intro!: tables_wf_update simp: delete_rows_def table_simps Let_def deleteDeploymentRow_def deleteScheduledInstanceRows_def
      deleteNodeRows_def deleteScheduledInstanceStatusRow_def deleteSecretRows_def deleteConfigRows_def
      deleteAssetRows_def deleteValueDirectoryRows_def deleteAssetDirectoryRows_def split: if_splits)

lemma retain_wf: "tables_wf ts \<Longrightarrow> tables_wf (retainDeployment dep ts)"
  by (simp add: retainDeployment_def fold_delete_instances tables_wf_def table_simps Let_def)

lemma orphan_wf: "tables_wf ts \<Longrightarrow> tables_wf (deleteOrphanScheduledInstanceStatus i ts)"
  by (simp add: deleteOrphanScheduledInstanceStatus_def deleteScheduledInstanceStatusRow_def tables_wf_def table_simps)

section \<open>Which tables a mutation touches\<close>

text \<open>
  The tables the scheduler and the access service read. A mutation of another entity type leaves
  all of them alone, and one of their own types writes the row of its id.
\<close>

definition core :: "tables \<Rightarrow> _" where
  "core ts = (deployments ts, deployment_versions ts, scheduled_instances ts, scheduled_instance_status ts,
     nodes ts, authz_grant_templates ts, authz_grants ts, authz_global_rules ts)"

lemma other_reducers_core:
  "reduceSpace env meta i v1 ts = Inr (meta', ts') \<Longrightarrow> core ts' = core ts"
  "reduceUser env meta i v2 ts = Inr (meta', ts') \<Longrightarrow> core ts' = core ts"
  "reduceNetworkPolicy env meta i v3 ts = Inr (meta', ts') \<Longrightarrow> core ts' = core ts"
  "reduceSystemConfig env meta i v7 ts = Inr (meta', ts') \<Longrightarrow> core ts' = core ts"
  "reduceAgentSession env meta i v8 ts = Inr (meta', ts') \<Longrightarrow> core ts' = core ts"
  "reduceUserSession env meta i v9 ts = Inr (meta', ts') \<Longrightarrow> core ts' = core ts"
  "reduceNixStoreReset env meta i v10 ts = Inr (meta', ts') \<Longrightarrow> core ts' = core ts"
  "reduceSecretKeyslot env meta i v11 ts = Inr (meta', ts') \<Longrightarrow> core ts' = core ts"
  "reduceNodeStatus env meta i v13 ts = Inr (meta', ts') \<Longrightarrow> core ts' = core ts"
  by (auto simp: plain_reducer_defs put_row_def Let_def bindE_Inr core_def
      split: option.splits if_splits prod.splits)

lemma value_reducers_core:
  "reduceSecret env meta i v1 ts = Inr (meta', ts') \<Longrightarrow> core ts' = core ts"
  "reduceConfig env meta i v2 ts = Inr (meta', ts') \<Longrightarrow> core ts' = core ts"
  "reduceAsset env meta i v3 ts = Inr (meta', ts') \<Longrightarrow> core ts' = core ts"
  "reduceValueDirectory env meta i v4 ts = Inr (meta', ts') \<Longrightarrow> core ts' = core ts"
  "reduceAssetDirectory env meta i v5 ts = Inr (meta', ts') \<Longrightarrow> core ts' = core ts"
      apply (erule reduceSecret_form, simp add: core_def)
     apply (erule reduceConfig_form, simp add: core_def)
    apply (erule reduceAsset_form, simp add: core_def)
   apply (erule reduceValueDirectory_form, simp add: core_def)
  apply (erule reduceAssetDirectory_form, simp add: core_def)
  done

definition core_types :: "CoreEntityType set" where
  "core_types = {CORE_DEPLOYMENT, CORE_SCHEDULED_INSTANCE, CORE_NODE, CORE_SCHEDULED_INSTANCE_STATUS,
     CORE_AUTHZ_GRANT_TEMPLATE, CORE_AUTHZ_GRANT, CORE_AUTHZ_GLOBAL_RULE}"

lemma reduce_entity_core:
  assumes "reduce_entity t env meta i v ts = Some (Inr (meta', ts'))" "t \<notin> core_types"
  shows "core ts' = core ts"
  using assms unfolding reduce_entity_def core_types_def
  by (auto split: if_splits dest: other_reducers_core value_reducers_core)

lemma delete_rows_core:
  assumes "delete_rows t i ts = Some ts'" "t \<notin> core_types"
  shows "core ts' = core ts"
  using assms unfolding delete_rows_def core_types_def
  by (auto split: if_splits simp: core_def deleteSecretRows_def deleteConfigRows_def deleteAssetRows_def
      deleteValueDirectoryRows_def deleteAssetDirectoryRows_def)

lemma reduce_entity_instance:
  "reduce_entity CORE_SCHEDULED_INSTANCE env meta i v ts = Some (Inr (meta', ts')) \<longleftrightarrow>
   (\<exists>s. v = EScheduledInstance s \<and>
     (meta', ts') = put_row scheduled_instances scheduled_instances_update env meta i (s\<lparr>si_ID := i\<rparr>) (env_EventTime env) ts)"
  by (auto simp: reduce_entity_def reduceScheduledInstance_def split: CoreEntity.splits option.splits)

lemma reduce_entity_grant:
  "reduce_entity CORE_AUTHZ_GRANT env meta i v ts = Some (Inr (meta', ts')) \<longleftrightarrow>
   (\<exists>s. v = EAuthzGrant s \<and>
     (meta', ts') = put_row authz_grants authz_grants_update env meta i (s\<lparr>grant_ID := i\<rparr>) (env_EventTime env) ts)"
  by (auto simp: reduce_entity_def reduceAuthzGrant_def split: CoreEntity.splits option.splits)

lemma reduce_entity_template:
  "reduce_entity CORE_AUTHZ_GRANT_TEMPLATE env meta i v ts = Some (Inr (meta', ts')) \<longleftrightarrow>
   (\<exists>s. v = EAuthzGrantTemplate s \<and>
     (meta', ts') = put_row authz_grant_templates authz_grant_templates_update env meta i (s\<lparr>tpl_ID := i\<rparr>) (env_EventTime env) ts)"
  by (auto simp: reduce_entity_def reduceAuthzGrantTemplate_def split: CoreEntity.splits option.splits)

lemma reduce_entity_rule:
  "reduce_entity CORE_AUTHZ_GLOBAL_RULE env meta i v ts = Some (Inr (meta', ts')) \<longleftrightarrow>
   (\<exists>s. v = EAuthzGlobalRule s \<and>
     (meta', ts') = put_row authz_global_rules authz_global_rules_update env meta i (s\<lparr>gr_ID := i\<rparr>) (env_EventTime env) ts)"
  by (auto simp: reduce_entity_def reduceAuthzGlobalRule_def split: CoreEntity.splits option.splits)

lemma reduce_entity_deployment:
  "reduce_entity CORE_DEPLOYMENT env meta i v ts = Some (Inr (meta', ts')) \<longleftrightarrow>
   (\<exists>d. v = EDeployment d \<and> reduceDeployment env meta i (Some d) ts = Inr (meta', ts'))"
  by (auto simp: reduce_entity_def reduceDeployment_def [of env meta i None] split: CoreEntity.splits option.splits)

section \<open>The id counters\<close>

definition counter :: "CoreEntityType \<Rightarrow> db \<Rightarrow> nat" where
  "counter t d = (case tbl_get (db_entity_ids d) t of None \<Rightarrow> 1 | Some n \<Rightarrow> n)"

lemma NextEntityID_spec:
  assumes "NextEntityID t d = (i, d')" "tbl_wf (db_entity_ids d)"
  shows "i = counter t d" "counter t' d' = (if t' = t then counter t d + 1 else counter t' d)"
    "tbl_wf (db_entity_ids d')" "db_tables d' = db_tables d" "db_log d' = db_log d" "db_global_seq d' = db_global_seq d"
  using assms
  by (auto simp: NextEntityID_def counter_def tbl_get_put table_simps split: option.splits)

lemma bumpEntityID_spec:
  assumes "tbl_wf (db_entity_ids d)"
  shows "counter t' (bumpEntityID t i d) = (if t' = t then max (counter t d) (i + 1) else counter t' d)"
    "tbl_wf (db_entity_ids (bumpEntityID t i d))"
    "db_tables (bumpEntityID t i d) = db_tables d" "db_log (bumpEntityID t i d) = db_log d"
    "db_global_seq (bumpEntityID t i d) = db_global_seq d"
  using assms by (auto simp: bumpEntityID_def counter_def tbl_get_put table_simps split: option.splits)

lemma reduce_Inr:
  assumes "reduce env m d = Inr (m', d')"
  obtains (deleted) ts where "Kind m = VERB_DELETE" "delete_rows (Type m) (EntityID m) (db_tables d) = Some ts"
      "m' = m" "d' = d\<lparr>db_tables := ts\<rparr>"
  | (written) v meta ts where "Kind m \<noteq> VERB_DELETE" "Entity m = Some v"
      "reduce_entity (Type m) env (newMeta env) (EntityID m) v (db_tables d) = Some (Inr (meta, ts))"
      "m' = SetMeta meta m" "d' = bumpEntityID (Type m) (EntityID m) (d\<lparr>db_tables := ts\<rparr>)"
  using assms
  by (auto simp: reduce_def wrap_reduced_def Let_def bindE_Inr split: if_splits option.splits sum.splits)

lemma SetMeta_sel [simp]:
  "Type (SetMeta x m) = Type m" "EntityID (SetMeta x m) = EntityID m" "Kind (SetMeta x m) = Kind m"
  "Entity (SetMeta x m) = Entity m" "log_mutation (SetMeta x m) = log_mutation m"
  by (cases m; simp add: log_mutation_def)+

definition entity_keys :: "CoreEntityType \<Rightarrow> tables \<Rightarrow> nat set" where
  "entity_keys t ts =
    (if t = CORE_DEPLOYMENT then fst ` set (deployments ts)
     else if t = CORE_SCHEDULED_INSTANCE then fst ` set (scheduled_instances ts)
     else if t = CORE_AUTHZ_GRANT_TEMPLATE then fst ` set (authz_grant_templates ts)
     else if t = CORE_AUTHZ_GRANT then fst ` set (authz_grants ts)
     else if t = CORE_AUTHZ_GLOBAL_RULE then fst ` set (authz_global_rules ts)
     else {})"

lemma entity_keys_core: "core ts' = core ts \<Longrightarrow> entity_keys t ts' = entity_keys t ts"
  by (simp add: core_def entity_keys_def)

lemma fst_upsert: "fst ` set (upsert env k v c t) = insert k (fst ` set t)"
  by (simp add: upsert_def fst_set_tbl_put)

lemma upsert_keyD: "(a, b) \<in> set (upsert env k v c t) \<Longrightarrow> a = k \<or> a \<in> fst ` set t"
  using fst_upsert [of env k v c t] by (metis fst_conv image_eqI insert_iff)

lemma entity_keys_mono:
  "set (deployments ts') \<subseteq> set (deployments ts) \<Longrightarrow> set (scheduled_instances ts') \<subseteq> set (scheduled_instances ts) \<Longrightarrow>
   set (authz_grant_templates ts') \<subseteq> set (authz_grant_templates ts) \<Longrightarrow> set (authz_grants ts') \<subseteq> set (authz_grants ts) \<Longrightarrow>
   set (authz_global_rules ts') \<subseteq> set (authz_global_rules ts) \<Longrightarrow> entity_keys t ts' \<subseteq> entity_keys t ts"
  by (simp add: entity_keys_def image_mono)

lemma other_keys:
  "reduceNode env meta i v1 ts = Inr (meta', ts') \<Longrightarrow> entity_keys t ts' = entity_keys t ts"
  "reduceScheduledInstanceStatus env meta i v2 ts = Inr (meta', ts') \<Longrightarrow> entity_keys t ts' = entity_keys t ts"
  by (auto simp: reduceNode_def reduceScheduledInstanceStatus_def put_row_def Let_def entity_keys_def
      split: option.splits if_splits)

lemma deployment_keys:
  "reduceDeployment env meta i v ts = Inr (meta', ts') \<Longrightarrow>
   entity_keys t ts' = entity_keys t ts \<union> (if t = CORE_DEPLOYMENT then {i} else {})"
  by (erule reduceDeployment_form) (auto simp: entity_keys_def fst_upsert)

lemma reduce_entity_keys:
  assumes "reduce_entity t env meta i v ts = Some (Inr (meta', ts'))"
  shows "entity_keys t' ts' \<subseteq> entity_keys t' ts \<union> (if t' = t then {i} else {})"
proof (cases "t \<in> core_types")
  case False
  then show ?thesis using entity_keys_core reduce_entity_core [OF assms False] by blast
next
  case True
  then consider "t = CORE_DEPLOYMENT" | "t = CORE_SCHEDULED_INSTANCE" | "t = CORE_NODE \<or> t = CORE_SCHEDULED_INSTANCE_STATUS"
    | "t = CORE_AUTHZ_GRANT_TEMPLATE" | "t = CORE_AUTHZ_GRANT" | "t = CORE_AUTHZ_GLOBAL_RULE"
    by (auto simp: core_types_def)
  then show ?thesis
  proof cases
    case 1
    then show ?thesis using assms deployment_keys by (auto simp: reduce_entity_deployment)
  next
    case 3
    then have "entity_keys t' ts' = entity_keys t' ts"
      using assms by (elim disjE) (simp_all add: reduce_entity_def, (erule other_keys)+)
    then show ?thesis by simp
  qed (use assms in \<open>auto simp: reduce_entity_instance reduce_entity_template reduce_entity_grant
        reduce_entity_rule put_row_def entity_keys_def dest: upsert_keyD\<close>)
qed

lemma delete_rows_keys:
  assumes "delete_rows t i ts = Some ts'"
  shows "entity_keys t' ts' \<subseteq> entity_keys t' ts"
proof (cases "t \<in> core_types")
  case False
  then show ?thesis using entity_keys_core delete_rows_core [OF assms False] by blast
next
  case True
  with assms show ?thesis
    by (intro entity_keys_mono) (auto simp: core_types_def delete_rows_def deleteDeploymentRow_def
        deleteScheduledInstanceRows_def deleteNodeRows_def deleteScheduledInstanceStatusRow_def Let_def tbl_del_def)
qed

section \<open>The invariant\<close>

definition db_inv :: "db \<Rightarrow> bool" where
  "db_inv d \<longleftrightarrow> tables_wf (db_tables d) \<and> tbl_wf (db_entity_ids d) \<and>
    (\<forall>t. \<forall>i \<in> entity_keys t (db_tables d). i < counter t d) \<and>
    (\<forall>e \<in> set (db_log d). we_seq e \<le> db_global_seq d \<and>
       (\<forall>m \<in> set (we_mutations e). lm_op m \<noteq> VERB_DELETE \<longrightarrow> lm_entity_id m < counter (lm_entity_type m) d))"

definition counters_le :: "db \<Rightarrow> db \<Rightarrow> bool" where
  "counters_le d d' \<longleftrightarrow> (\<forall>t. counter t d \<le> counter t d') \<and> db_log d' = db_log d \<and> db_global_seq d' = db_global_seq d"

lemma counters_le_refl [simp]: "counters_le d d"
  by (simp add: counters_le_def)

lemma counters_le_trans: "counters_le a b \<Longrightarrow> counters_le b c \<Longrightarrow> counters_le a c"
  by (force simp: counters_le_def intro: order_trans)

lemma db_inv_step:
  assumes "db_inv d" "counters_le d d'" "tables_wf (db_tables d')" "tbl_wf (db_entity_ids d')"
    and "\<And>t i. i \<in> entity_keys t (db_tables d') \<Longrightarrow> i \<in> entity_keys t (db_tables d) \<or> i < counter t d'"
  shows "db_inv d'"
  using assms unfolding db_inv_def counters_le_def by (metis order_less_le_trans)

lemma db_inv_NextEntityID:
  assumes "db_inv d" "NextEntityID t d = (i, d')"
  shows "db_inv d' \<and> counters_le d d'"
proof -
  from assms(1) have wf: "tbl_wf (db_entity_ids d)" by (simp add: db_inv_def)
  note n = NextEntityID_spec [OF assms(2) wf]
  have le: "counters_le d d'" using n by (simp add: counters_le_def)
  moreover have "db_inv d'"
    by (rule db_inv_step [OF assms(1) le]) (use assms(1) n in \<open>auto simp: db_inv_def\<close>)
  ultimately show ?thesis by simp
qed

lemma db_inv_tables:
  assumes "db_inv d" "tables_wf ts" "\<And>t. entity_keys t ts \<subseteq> entity_keys t (db_tables d)"
  shows "db_inv (d\<lparr>db_tables := ts\<rparr>) \<and> counters_le d (d\<lparr>db_tables := ts\<rparr>)"
  using assms by (auto simp: db_inv_def counters_le_def counter_def)

lemma db_inv_reduce:
  assumes "reduce env m d = Inr (m', d')" "db_inv d"
  shows "db_inv d'" "counters_le d d'" "Kind m \<noteq> VERB_DELETE \<Longrightarrow> EntityID m < counter (Type m) d'"
    "log_mutation m' = log_mutation m"
proof -
  from assms(2) have wf: "tables_wf (db_tables d)" "tbl_wf (db_entity_ids d)" by (simp_all add: db_inv_def)
  from assms(1) have "db_inv d' \<and> counters_le d d' \<and> (Kind m \<noteq> VERB_DELETE \<longrightarrow> EntityID m < counter (Type m) d') \<and>
    log_mutation m' = log_mutation m"
  proof (cases rule: reduce_Inr)
    case (deleted ts)
    then show ?thesis
      using db_inv_tables [OF assms(2) delete_rows_wf [OF deleted(2) wf(1)] delete_rows_keys [OF deleted(2)]] by simp
  next
    case (written v meta ts)
    let ?d = "d\<lparr>db_tables := ts\<rparr>"
    have b: "tbl_wf (db_entity_ids ?d)" using wf by simp
    note bump = bumpEntityID_spec [OF b]
    have c: "counter t ?d = counter t d" for t by (simp add: counter_def)
    have le: "counters_le d d'" using written(5) bump c by (simp add: counters_le_def)
    have keys: "i \<in> entity_keys t (db_tables d) \<or> i < counter t d'" if "i \<in> entity_keys t (db_tables d')" for t i
      using reduce_entity_keys [OF written(3), of t] that written(5) bump(1) [of t "Type m" "EntityID m"] bump(3)
      by (auto split: if_splits)
    have "db_inv d'"
      by (rule db_inv_step [OF assms(2) le])
        (use written(5) bump reduce_entity_wf [OF written(3) wf(1)] keys in auto)
    then show ?thesis using le written bump(1) by simp
  qed
  then show "db_inv d'" "counters_le d d'" "Kind m \<noteq> VERB_DELETE \<Longrightarrow> EntityID m < counter (Type m) d'"
    "log_mutation m' = log_mutation m" by auto
qed

lemma db_inv_reduce_mutations:
  assumes "reduce_mutations seq time actor ms aff d = Inr (ms', aff', d')" "db_inv d"
  shows "db_inv d' \<and> counters_le d d' \<and> map log_mutation ms' = map (log_mutation \<circ> fst) ms \<and>
    (\<forall>m \<in> set ms'. Kind m \<noteq> VERB_DELETE \<longrightarrow> EntityID m < counter (Type m) d')"
  using assms
proof (induction seq time actor ms aff d arbitrary: ms' aff' d' rule: reduce_mutations.induct)
  case (2 seq time actor m logged ms aff d)
  from "2.prems"(1) obtain m1 d1 ms2 where
    r: "reduce \<lparr>env_Seq = seq, env_EventTime = time, env_Author = actor, env_Logged = logged\<rparr> m d = Inr (m1, d1)"
    and rest: "reduce_mutations seq time actor ms (affectedDeployment m (db_tables d) aff) d1 = Inr (ms2, aff', d')"
    and ms': "ms' = m1 # ms2"
    by (auto simp: bindE_Inr)
  note step = db_inv_reduce [OF r "2.prems"(2)]
  have ih: "db_inv d' \<and> counters_le d1 d' \<and> map log_mutation ms2 = map (log_mutation \<circ> fst) ms \<and>
      (\<forall>m \<in> set ms2. Kind m \<noteq> VERB_DELETE \<longrightarrow> EntityID m < counter (Type m) d')"
    using "2.IH" [OF rest step(1)] .
  have same: "Kind m1 = Kind m" "EntityID m1 = EntityID m" "Type m1 = Type m"
    using step(4) by (simp_all add: log_mutation_def)
  with step(3) ih have "Kind m1 \<noteq> VERB_DELETE \<longrightarrow> EntityID m1 < counter (Type m1) d'"
    by (auto simp: counters_le_def intro: order_less_le_trans)
  with ih step counters_le_trans show ?case by (auto simp: ms')
qed simp

lemma retain_keys: "entity_keys t (retainDeployment dep ts) \<subseteq> entity_keys t ts"
  by (rule entity_keys_mono) (auto simp: retainDeployment_def fold_delete_instances Let_def)

lemma orphan_keys: "entity_keys t (deleteOrphanScheduledInstanceStatus i ts) = entity_keys t ts"
  by (simp add: entity_keys_def deleteOrphanScheduledInstanceStatus_def deleteScheduledInstanceStatusRow_def)

lemma fold_retain:
  "tables_wf ts \<Longrightarrow> tables_wf (fold retainDeployment ids ts) \<and> entity_keys t (fold retainDeployment ids ts) \<subseteq> entity_keys t ts"
proof (induction ids arbitrary: ts)
  case (Cons i ids)
  from Cons.IH [OF retain_wf [OF Cons.prems]] retain_keys show ?case by (auto, blast)
qed simp

lemma fold_orphan:
  "tables_wf ts \<Longrightarrow> tables_wf (fold deleteOrphanScheduledInstanceStatus ids ts) \<and>
     entity_keys t (fold deleteOrphanScheduledInstanceStatus ids ts) = entity_keys t ts"
proof (induction ids arbitrary: ts)
  case (Cons i ids)
  from Cons.IH [OF orphan_wf [OF Cons.prems]] show ?case by (simp add: orphan_keys)
qed simp

lemma db_inv_reduceUpdate:
  assumes "reduceUpdate start u logged d = Inr (u', d')" "db_inv d" "length logged = length (upd_Mutations u)"
  shows "db_inv d'" "counters_le d d'" "map log_mutation (upd_Mutations u') = map log_mutation (upd_Mutations u)"
    "take start (upd_Mutations u') = take start (upd_Mutations u)" "upd_Seq u' = upd_Seq u"
    "\<forall>m \<in> set (drop start (upd_Mutations u')). Kind m \<noteq> VERB_DELETE \<longrightarrow> EntityID m < counter (Type m) d'"
proof -
  let ?ms = "upd_Mutations u"
  have "db_inv d' \<and> counters_le d d' \<and> map log_mutation (upd_Mutations u') = map log_mutation ?ms \<and>
    take start (upd_Mutations u') = take start ?ms \<and> upd_Seq u' = upd_Seq u \<and>
    (\<forall>m \<in> set (drop start (upd_Mutations u')). Kind m \<noteq> VERB_DELETE \<longrightarrow> EntityID m < counter (Type m) d')"
  proof (cases "start \<ge> length ?ms")
    case True
    with assms(1,2) show ?thesis by (simp add: reduceUpdate_def)
  next
    case False
    with assms(1) obtain ms' aff d1 where
      r: "reduce_mutations (upd_Seq u) (upd_Time u) (upd_Actor u) (zip (drop start ?ms) (drop start logged)) [] d = Inr (ms', aff, d1)"
      and u': "u' = u\<lparr>upd_Mutations := take start ?ms @ ms'\<rparr>"
      and d': "d' = d1\<lparr>db_tables := fold retainDeployment aff
             (fold deleteOrphanScheduledInstanceStatus (orphan_statuses (drop start ?ms)) (db_tables d1))\<rparr>"
      by (auto simp: reduceUpdate_def Let_def bindE_Inr)
    from db_inv_reduce_mutations [OF r assms(2)] have i: "db_inv d1" "counters_le d d1"
      and l: "map log_mutation ms' = map (log_mutation \<circ> fst) (zip (drop start ?ms) (drop start logged))"
      and c: "\<forall>m \<in> set ms'. Kind m \<noteq> VERB_DELETE \<longrightarrow> EntityID m < counter (Type m) d1" by auto
    have l': "map log_mutation ms' = map log_mutation (drop start ?ms)"
      using l assms(3) by (simp flip: map_map)
    let ?o = "fold deleteOrphanScheduledInstanceStatus (orphan_statuses (drop start ?ms)) (db_tables d1)"
    have wf1: "tables_wf (db_tables d1)" using i(1) by (simp add: db_inv_def)
    have "db_inv d' \<and> counters_le d1 d'" unfolding d'
      by (rule db_inv_tables [OF i(1)])
        (use fold_orphan [OF wf1] fold_retain [of ?o aff] in auto)
    moreover have "counter t d' = counter t d1" for t by (simp add: d' counter_def)
    moreover have "map log_mutation (take start ?ms @ ms') = map log_mutation ?ms"
      using l' by (metis append_take_drop_id map_append)
    ultimately show ?thesis using False i c counters_le_trans by (auto simp: u')
  qed
  then show "db_inv d'" "counters_le d d'" "map log_mutation (upd_Mutations u') = map log_mutation ?ms"
    "take start (upd_Mutations u') = take start ?ms" "upd_Seq u' = upd_Seq u"
    "\<forall>m \<in> set (drop start (upd_Mutations u')). Kind m \<noteq> VERB_DELETE \<longrightarrow> EntityID m < counter (Type m) d'" by auto
qed

section \<open>Transaction steps\<close>

inductive tx_steps :: "txn \<Rightarrow> txn \<Rightarrow> bool" where
  start: "tx_steps t t"
| alloc: "tx_steps t t1 \<Longrightarrow> NextEntityID ty (tx_db t1) = (i, d) \<Longrightarrow> tx_steps t (t1\<lparr>tx_db := d\<rparr>)"
| append: "tx_steps t t1 \<Longrightarrow> tx_steps t (t1\<lparr>tx_update := AppendMutations (tx_update t1) ms\<rparr>)"
| stamp: "tx_steps t t1 \<Longrightarrow> tx_steps t (t1\<lparr>tx_update := (tx_update t1)\<lparr>upd_Seq := s\<rparr>\<rparr>)"
| reduce: "tx_steps t t1 \<Longrightarrow> tx_reduce t1 = Inr t2 \<Longrightarrow> tx_steps t t2"

lemma tx_steps_trans: "tx_steps b c \<Longrightarrow> tx_steps a b \<Longrightarrow> tx_steps a c"
  by (induction rule: tx_steps.induct) (auto intro: tx_steps.intros)

lemma tx_steps_Apply: "Apply ms t = Inr t' \<Longrightarrow> tx_steps t t'"
  unfolding Apply_def by (rule tx_steps.reduce [OF tx_steps.append [OF tx_steps.start]])

lemma AppendMutations_mutations [simp]:
  "upd_Mutations (AppendMutations u ms) = upd_Mutations u @ map Wire ms"
  by (induction u ms rule: AppendMutations.induct) (auto simp: Let_def)

lemma AppendMutations_Seq [simp]: "upd_Seq (AppendMutations u ms) = upd_Seq u"
  by (induction u ms rule: AppendMutations.induct) (auto simp: Let_def)

definition tx_inv :: "txn \<Rightarrow> bool" where
  "tx_inv t \<longleftrightarrow> db_inv (tx_db t) \<and> tx_applied t \<le> length (upd_Mutations (tx_update t)) \<and>
    (\<forall>m \<in> set (take (tx_applied t) (upd_Mutations (tx_update t))).
       Kind m \<noteq> VERB_DELETE \<longrightarrow> EntityID m < counter (Type m) (tx_db t))"

lemma tx_reduce_spec:
  assumes "tx_reduce t = Inr t'" "tx_inv t"
  shows "tx_inv t'" "counters_le (tx_db t) (tx_db t')" "tx_applied t' = length (upd_Mutations (tx_update t'))"
    "upd_Seq (tx_update t') = upd_Seq (tx_update t)"
    "map log_mutation (upd_Mutations (tx_update t')) = map log_mutation (upd_Mutations (tx_update t))"
proof -
  let ?u = "tx_update t" let ?s = "tx_applied t"
  from assms(1) obtain u d where r: "reduceUpdate ?s ?u (replicate (length (upd_Mutations ?u)) None) (tx_db t) = Inr (u, d)"
    and t': "t' = t\<lparr>tx_db := d, tx_update := u, tx_applied := max ?s (length (upd_Mutations u))\<rparr>"
    by (auto simp: tx_reduce_def ReduceUpdate_def bindE_Inr)
  have inv: "db_inv (tx_db t)" using assms(2) by (simp add: tx_inv_def)
  note R = db_inv_reduceUpdate [OF r inv length_replicate]
  have len: "length (upd_Mutations u) = length (upd_Mutations ?u)" using R(3) by (metis length_map)
  have lt: "Kind m \<noteq> VERB_DELETE \<longrightarrow> EntityID m < counter (Type m) d" if "m \<in> set (upd_Mutations u)" for m
  proof -
    have "m \<in> set (take ?s (upd_Mutations u)) \<or> m \<in> set (drop ?s (upd_Mutations u))"
      using that by (metis append_take_drop_id set_append Un_iff)
    then show ?thesis
      using R(2,4,6) assms(2) by (force simp: tx_inv_def counters_le_def intro: order_less_le_trans)
  qed
  show "tx_inv t'" using R(1) lt len assms(2) by (auto simp: tx_inv_def t' max_def dest: in_set_takeD)
  show "counters_le (tx_db t) (tx_db t')" "tx_applied t' = length (upd_Mutations (tx_update t'))"
    "upd_Seq (tx_update t') = upd_Seq ?u"
    "map log_mutation (upd_Mutations (tx_update t')) = map log_mutation (upd_Mutations ?u)"
    using R len assms(2) by (auto simp: t' tx_inv_def)
qed

lemma tx_steps_inv: "tx_steps t t' \<Longrightarrow> tx_inv t \<Longrightarrow> tx_inv t' \<and> counters_le (tx_db t) (tx_db t')"
proof (induction rule: tx_steps.induct)
  case (alloc t t1 ty i d)
  then have i: "tx_inv t1" "counters_le (tx_db t) (tx_db t1)" by auto
  then have "db_inv d \<and> counters_le (tx_db t1) d"
    using db_inv_NextEntityID [OF _ alloc.hyps(2)] by (simp add: tx_inv_def)
  with i have "EntityID m < counter (Type m) d"
    if "m \<in> set (take (tx_applied t1) (upd_Mutations (tx_update t1)))" "Kind m \<noteq> VERB_DELETE" for m
    using that unfolding tx_inv_def counters_le_def by (meson order_less_le_trans)
  with i \<open>db_inv d \<and> counters_le (tx_db t1) d\<close> show ?case
    using counters_le_trans by (auto simp: tx_inv_def)
next
  case (reduce t t1 t2)
  then show ?case using tx_reduce_spec(1,2) [OF reduce.hyps(2)] counters_le_trans by blast
qed (auto simp: tx_inv_def)

section \<open>Commits\<close>

lemma Commit_Inr:
  assumes "Commit triggers mutate d = Inr (r, u, d')"
  obtains t t1 t2 where "mutate d (db_global_seq d + 1) = Inr (r, t)"
    "tx_reduce (t\<lparr>tx_update := (tx_update t)\<lparr>upd_Seq := db_global_seq d + 1\<rparr>\<rparr>) = Inr t1"
    "run_triggers triggers t1 = Inr t2"
    "upd_Mutations (tx_update t2) = [] \<and> u = None \<and> d' = tx_db t2 \<or>
     upd_Mutations (tx_update t2) \<noteq> [] \<and> u = Some (tx_update t2) \<and>
       (\<exists>d2. InsertWriteEvent (tx_update t2) (tx_db t2) = Inr d2 \<and> d' = d2\<lparr>db_global_seq := db_global_seq d + 1\<rparr>)"
proof -
  from assms obtain r' t t1 t2 where 1: "mutate d (db_global_seq d + 1) = Inr (r', t)"
    "tx_reduce (t\<lparr>tx_update := (tx_update t)\<lparr>upd_Seq := db_global_seq d + 1\<rparr>\<rparr>) = Inr t1"
    "run_triggers triggers t1 = Inr t2"
    and 2: "(if IsEmpty (Some (tx_update t2)) then Inr (r', None, tx_db t2)
       else bindE (InsertWriteEvent (tx_update t2) (tx_db t2)) (\<lambda>d2.
         Inr (r', Some (tx_update t2), d2\<lparr>db_global_seq := db_global_seq d + 1\<rparr>))) = Inr (r, u, d')"
    unfolding Commit_def Let_def bindE_Inr by (auto simp del: bindE.simps simp: bindE_Inr)
  from 2 have "r' = r" by (auto simp: bindE_Inr split: if_splits)
  with 1 2 that [of t t1 t2] show ?thesis by (auto simp: IsEmpty_def bindE_Inr split: if_splits)
qed

lemma InsertWriteEvent_Inr:
  "InsertWriteEvent u d = Inr d' \<longleftrightarrow> upd_Seq u \<notin> we_seq ` set (db_log d) \<and>
    d' = d\<lparr>db_log := db_log d @ [\<lparr>we_seq = upd_Seq u, we_time = upd_Time u, we_actor = upd_Actor u,
           we_mutations = map log_mutation (upd_Mutations u)\<rparr>]\<rparr>"
  by (force simp: InsertWriteEvent_def list_ex_iff)

text \<open>
  The contract between \<open>Commit\<close> and its clients: the writer and every registered trigger only
  allocate ids and append and apply mutations. Then a commit keeps the invariant, never rewrites
  the log, and consumes exactly one seq when it logs something.
\<close>

locale store_clients =
  fixes triggers :: "trigger list"
    and mutate :: "db \<Rightarrow> int \<Rightarrow> store_error + 'r \<times> txn"
  assumes trigger_steps: "f \<in> set triggers \<Longrightarrow> f t = Inr t' \<Longrightarrow> tx_steps t t'"
    and trigger_keeps_seq: "f \<in> set triggers \<Longrightarrow> f t = Inr t' \<Longrightarrow> upd_Seq (tx_update t') = upd_Seq (tx_update t)"
    and mutate_steps: "mutate d seq = Inr (r, t) \<Longrightarrow> tx_steps (wrote d empty_update) t"
begin

lemma run_triggers_steps:
  "set fs \<subseteq> set triggers \<Longrightarrow> run_triggers fs t = Inr t' \<Longrightarrow> tx_steps t t'"
proof (induction fs arbitrary: t)
  case (Cons f fs)
  from Cons.prems(2) obtain t1 t2 where t: "f t = Inr t1" "tx_reduce t1 = Inr t2" "run_triggers fs t2 = Inr t'"
    by (auto simp: bindE_Inr)
  have "tx_steps t t2"
    using trigger_steps [of f t t1] t(1) Cons.prems(1) tx_steps.reduce [OF _ t(2)] by simp
  with Cons.IH [OF _ t(3)] Cons.prems(1) show ?case by (auto intro: tx_steps_trans)
qed (simp add: tx_steps.start)

lemma trigger_seq:
  "set fs \<subseteq> set triggers \<Longrightarrow> run_triggers fs t = Inr t' \<Longrightarrow> tx_inv t \<Longrightarrow> upd_Seq (tx_update t') = upd_Seq (tx_update t)"
proof (induction fs arbitrary: t)
  case (Cons f fs)
  from Cons.prems(2) obtain t1 t2 where t: "f t = Inr t1" "tx_reduce t1 = Inr t2" "run_triggers fs t2 = Inr t'"
    by (auto simp: bindE_Inr)
  have "tx_inv t1" using tx_steps_inv [OF trigger_steps [of f t t1]] t(1) Cons.prems by simp
  with Cons.IH [OF _ t(3)] tx_reduce_spec(1,4) [OF t(2)] trigger_keeps_seq [of f t t1] t(1) Cons.prems(1)
  show ?case by simp
qed simp

lemma run_triggers_applied:
  "run_triggers fs t = Inr t' \<Longrightarrow> set fs \<subseteq> set triggers \<Longrightarrow> tx_inv t \<Longrightarrow>
   tx_applied t = length (upd_Mutations (tx_update t)) \<Longrightarrow> tx_applied t' = length (upd_Mutations (tx_update t'))"
proof (induction fs arbitrary: t)
  case (Cons f fs)
  from Cons.prems(1) obtain t1 t2 where t: "f t = Inr t1" "tx_reduce t1 = Inr t2" "run_triggers fs t2 = Inr t'"
    by (auto simp: bindE_Inr)
  have "tx_inv t1" using tx_steps_inv [OF trigger_steps [of f t t1]] t(1) Cons.prems by simp
  from Cons.IH [OF t(3)] tx_reduce_spec(1,3) [OF t(2) this] Cons.prems(2) show ?case by simp
qed simp

lemma commit_inv:
  assumes "Commit triggers mutate d = Inr (r, u, d')" "db_inv d"
  shows "db_inv d'" "\<forall>t. counter t d \<le> counter t d'"
    "case u of None \<Rightarrow> db_log d' = db_log d \<and> db_global_seq d' = db_global_seq d
     | Some u \<Rightarrow> upd_Mutations u \<noteq> [] \<and> db_global_seq d' = db_global_seq d + 1 \<and> upd_Seq u = db_global_seq d + 1 \<and>
         db_log d' = db_log d @ [\<lparr>we_seq = upd_Seq u, we_time = upd_Time u, we_actor = upd_Actor u,
            we_mutations = map log_mutation (upd_Mutations u)\<rparr>]"
proof -
  let ?seq = "db_global_seq d + 1"
  from Commit_Inr [OF assms(1)] obtain t t1 t2 where t: "mutate d ?seq = Inr (r, t)"
    "tx_reduce (t\<lparr>tx_update := (tx_update t)\<lparr>upd_Seq := ?seq\<rparr>\<rparr>) = Inr t1" "run_triggers triggers t1 = Inr t2"
    and res: "upd_Mutations (tx_update t2) = [] \<and> u = None \<and> d' = tx_db t2 \<or>
     upd_Mutations (tx_update t2) \<noteq> [] \<and> u = Some (tx_update t2) \<and>
       (\<exists>d2. InsertWriteEvent (tx_update t2) (tx_db t2) = Inr d2 \<and> d' = d2\<lparr>db_global_seq := ?seq\<rparr>)" .
  have 0: "tx_inv (wrote d empty_update)" using assms(2) by (simp add: tx_inv_def wrote_def)
  have s1: "tx_steps (wrote d empty_update) (t\<lparr>tx_update := (tx_update t)\<lparr>upd_Seq := ?seq\<rparr>\<rparr>)"
    using mutate_steps [OF t(1)] by (rule tx_steps.stamp)
  then have s2: "tx_steps (wrote d empty_update) t1" using t(2) by (rule tx_steps.reduce)
  have s12: "tx_steps t1 t2" by (rule run_triggers_steps [OF order_refl t(3)])
  with s2 have s3: "tx_steps (wrote d empty_update) t2" using tx_steps_trans by blast
  note i1 = tx_steps_inv [OF s1 0] and i2 = tx_steps_inv [OF s2 0] and i3 = tx_steps_inv [OF s3 0]
  have app: "tx_applied t2 = length (upd_Mutations (tx_update t2))"
    using run_triggers_applied [OF t(3) order_refl] i2 tx_reduce_spec(3) [OF t(2)] i1 by simp
  have c: "counters_le d (tx_db t2)" using i3 by (simp add: wrote_def)
  have inv: "db_inv (tx_db t2)" using i3 by (simp add: tx_inv_def)
  have ids: "\<forall>m \<in> set (upd_Mutations (tx_update t2)). Kind m \<noteq> VERB_DELETE \<longrightarrow> EntityID m < counter (Type m) (tx_db t2)"
    using i3 app by (simp add: tx_inv_def)
  have "upd_Seq (tx_update t1) = ?seq" using tx_reduce_spec(4) [OF t(2)] i1 by simp
  then have seq: "upd_Seq (tx_update t2) = ?seq" using trigger_seq [OF order_refl t(3)] i2 by simp
  have "we_seq e \<le> ?seq" if "e \<in> set (db_log d)" for e
    using assms(2) that unfolding db_inv_def by (meson order_trans less_add_one order_less_imp_le)
  then have "db_inv d' \<and> (\<forall>t. counter t d \<le> counter t d')"
    using res c inv ids seq
    by (auto simp: InsertWriteEvent_Inr db_inv_def counters_le_def counter_def log_mutation_def)
  then show "db_inv d'" "\<forall>t. counter t d \<le> counter t d'" by auto
  show "case u of None \<Rightarrow> db_log d' = db_log d \<and> db_global_seq d' = db_global_seq d
     | Some u \<Rightarrow> upd_Mutations u \<noteq> [] \<and> db_global_seq d' = db_global_seq d + 1 \<and> upd_Seq u = db_global_seq d + 1 \<and>
         db_log d' = db_log d @ [\<lparr>we_seq = upd_Seq u, we_time = upd_Time u, we_actor = upd_Actor u,
            we_mutations = map log_mutation (upd_Mutations u)\<rparr>]"
    using res c seq by (auto simp: InsertWriteEvent_Inr counters_le_def)
qed

end

end
