(* ===== verification/Scheduler.thy ===== *)
theory Scheduler
  imports Store_Inv
begin

text \<open>
  The scheduler of \<open>backend/app/primary/scheduler\<close>: what it reads of a deployment, the pass
  over its placements (\<open>transaction.step\<close>), the reconciliation that repeats the pass until
  nothing changes, and the commits that start it. The transaction record is Go's \<open>transaction\<close>
  with the instance slice the pass mutates in place. The routing barrier of the node publisher is
  the argument \<open>sched_barrier\<close>, absent for a nil interface; \<open>now\<close> arguments are the clock in
  nanoseconds.
\<close>

section \<open>Reading the state of a deployment\<close>

record schedulingInstance =
  sc_Event :: ScheduledInstanceEvent
  sc_Config :: DeploymentRecord
  sc_Status :: ScheduledInstanceStatus

definition zero_status :: ScheduledInstanceStatus where
  "zero_status = \<lparr>sis_ScheduledInstanceID = 0, sis_UpdatedAt = absent 0, sis_Preparer = None, sis_Runner = None\<rparr>"

fun read_instances :: "tables \<Rightarrow> ScheduledInstanceEvent list \<Rightarrow> store_error + schedulingInstance list" where
  "read_instances ts [] = Inr []"
| "read_instances ts (e # es) =
    (case GetDeploymentVersion (dref_DeploymentID (si_Deployment (sie_Value e))) (dref_Version (si_Deployment (sie_Value e))) ts of
       None \<Rightarrow> Inl NoRows
     | Some pinned \<Rightarrow> bindE (read_instances ts es) (\<lambda>out.
         Inr (\<lparr>sc_Event = e, sc_Config = pinned,
               sc_Status = (case GetLatestScheduledInstanceStatus (sie_ScheduledInstanceID e) ts of
                  None \<Rightarrow> zero_status | Some st \<Rightarrow> st)\<rparr> # out)))"

definition readSchedulingState :: "nat \<Rightarrow> tables \<Rightarrow> store_error + DeploymentRecord option \<times> schedulingInstance list" where
  "readSchedulingState dep ts =
    bindE (read_instances ts (ListNonFinalScheduledInstancesForDeployment dep ts)) (\<lambda>out.
      Inr (GetLatestDeployment dep ts, out))"

definition newInstance ::
  "int \<Rightarrow> DeploymentRecord \<Rightarrow> nat \<Rightarrow> ScheduledInstanceTarget \<Rightarrow> clock \<Rightarrow> db \<Rightarrow> ScheduledInstanceEvent \<times> db" where
  "newInstance seq cfg ordinal target at d =
    (let (i, d') = NextScheduledInstanceID d;
         inst = \<lparr>si_ID = i, si_NodeID = PlacementNodeID (drec_Deployment cfg), si_InstanceOrdinal = ordinal,
                 si_State = TARGET_RUN_SERVING, si_SpaceID = dep_SpaceID (drec_Deployment cfg),
                 si_Deployment = \<lparr>dref_DeploymentID = dep_ID (drec_Deployment cfg),
                                  dref_Version = meta_Version (drec_Meta cfg)\<rparr>\<rparr>
     in (NewScheduledInstanceEvent seq inst target at, d'))"

section \<open>One pass\<close>

definition defaultInstanceOrdinal :: nat where "defaultInstanceOrdinal = 0"
definition drainTimeout :: clock where "drainTimeout = 30 * 1000000000"

record Scheduler =
  sched_barrier :: "(int \<Rightarrow> bool) option"
  sched_bootSeq :: int
  sched_bootTime :: clock

record transaction =
  st_txn :: txn
  st_seq :: int
  st_now :: clock
  st_scheduler :: Scheduler
  st_evicted :: "nat list"
  st_changed :: bool
  st_instances :: "schedulingInstance list"

abbreviation inst_at :: "transaction \<Rightarrow> nat \<Rightarrow> schedulingInstance" where
  "inst_at t i \<equiv> st_instances t ! i"

abbreviation inst_value :: "schedulingInstance \<Rightarrow> ScheduledInstance" where
  "inst_value e \<equiv> sie_Value (sc_Event e)"

abbreviation inst_state :: "schedulingInstance \<Rightarrow> ScheduledInstanceTarget" where
  "inst_state e \<equiv> si_State (inst_value e)"

abbreviation inst_id :: "schedulingInstance \<Rightarrow> nat" where
  "inst_id e \<equiv> si_ID (inst_value e)"

abbreviation inst_ordinal :: "schedulingInstance \<Rightarrow> nat" where
  "inst_ordinal e \<equiv> si_InstanceOrdinal (inst_value e)"

abbreviation inst_version :: "schedulingInstance \<Rightarrow> nat" where
  "inst_version e \<equiv> dref_Version (si_Deployment (inst_value e))"

definition evictedNodeIDs :: "tables \<Rightarrow> nat list" where
  "evictedNodeIDs ts = map fst (filter (\<lambda>(i, r). nrow_Status (row_value r) = NODE_MEMBER_EVICTED) (nodes ts))"

definition publish :: "AuthzVerb \<Rightarrow> ScheduledInstanceEvent \<Rightarrow> transaction \<Rightarrow> store_error + transaction" where
  "publish verb event t =
    bindE (Apply [ScheduledInstanceMutation verb event] (st_txn t)) (\<lambda>x.
      Inr (t\<lparr>st_txn := x, st_changed := True\<rparr>))"

definition set_target :: "nat \<Rightarrow> ScheduledInstanceTarget \<Rightarrow> transaction \<Rightarrow> store_error + transaction" where
  "set_target i target t =
    (if inst_state (inst_at t i) = target then Inr t
     else let event = ScheduledInstanceTransition (st_seq t) (sc_Event (inst_at t i)) target (st_now t)
          in publish VERB_UPDATE event
               (t\<lparr>st_instances := (st_instances t)[i := (inst_at t i)\<lparr>sc_Event := event\<rparr>]\<rparr>))"

definition terminalRunnerStatus :: "RunnerStatus option \<Rightarrow> bool" where
  "terminalRunnerStatus runner =
    (case runner of None \<Rightarrow> False
     | Some r \<Rightarrow> rs_Status r = RUNNING_STATUS_STOPPED \<or> rs_Status r = RUNNING_STATUS_NO_DEPLOYMENT)"

definition finalizeStopped :: "nat \<Rightarrow> transaction \<Rightarrow> store_error + transaction" where
  "finalizeStopped i t =
    (if inst_state (inst_at t i) = TARGET_TERMINATE \<and> terminalRunnerStatus (sis_Runner (sc_Status (inst_at t i)))
     then set_target i TARGET_FINALIZED t else Inr t)"

definition wanted :: "DeploymentRecord option \<Rightarrow> bool" where
  "wanted cfg = (case cfg of None \<Rightarrow> False | Some c \<Rightarrow> \<not> Deleted c \<and> WorkloadRunning c)"

definition retire :: "DeploymentRecord option \<Rightarrow> ScheduledInstance \<Rightarrow> bool" where
  "retire cfg inst \<longleftrightarrow> \<not> wanted cfg \<or>
    (case cfg of None \<Rightarrow> False
     | Some c \<Rightarrow> dref_Version (si_Deployment inst) \<noteq> meta_Version (drec_Meta c) \<and>
         si_InstanceOrdinal inst = defaultInstanceOrdinal \<and>
         (EffectiveUpgradeStrategy c = UPGRADE_RECREATE \<or> si_State inst = TARGET_RUN_STANDBY))"

definition retire_entry :: "DeploymentRecord option \<Rightarrow> nat \<Rightarrow> transaction \<Rightarrow> store_error + transaction" where
  "retire_entry cfg i t =
    (let inst = inst_value (inst_at t i) in
     bindE (if retire cfg inst \<and> WantsRunning (si_State inst) then set_target i TARGET_TERMINATE t else Inr t)
       (finalizeStopped i))"

definition demote :: "nat \<Rightarrow> nat \<Rightarrow> transaction \<Rightarrow> store_error + transaction" where
  "demote current i t =
    (let inst = inst_value (inst_at t i) in
     if si_ID inst \<ge> inst_id (inst_at t current) \<or> si_InstanceOrdinal inst \<noteq> inst_ordinal (inst_at t current)
        \<or> \<not> WantsRunning (si_State inst) \<or> si_State inst = TARGET_RUN_DRAINING
     then Inr t else set_target i TARGET_RUN_DRAINING t)"

definition promote :: "nat \<Rightarrow> transaction \<Rightarrow> store_error + transaction" where
  "promote current t =
    bindE (foldE (demote current) [0 ..< length (st_instances t)] t) (set_target current TARGET_RUN_SERVING)"

text \<open>The scan of the default ordinal: the last instance of the wanted version, and two flags.\<close>

definition is_exact :: "DeploymentRecord \<Rightarrow> schedulingInstance \<Rightarrow> bool" where
  "is_exact c e \<longleftrightarrow> inst_ordinal e = defaultInstanceOrdinal \<and> inst_version e = meta_Version (drec_Meta c) \<and>
     WantsRunning (inst_state e)"

definition exact_index :: "DeploymentRecord \<Rightarrow> schedulingInstance list \<Rightarrow> nat option" where
  "exact_index c es =
    (case filter (\<lambda>i. is_exact c (es ! i)) [0 ..< length es] of [] \<Rightarrow> None | is \<Rightarrow> Some (last is))"

definition is_serving :: "schedulingInstance \<Rightarrow> bool" where
  "is_serving e \<longleftrightarrow> inst_ordinal e = defaultInstanceOrdinal \<and> inst_state e = TARGET_RUN_SERVING"

definition is_blocking :: "DeploymentRecord \<Rightarrow> schedulingInstance \<Rightarrow> bool" where
  "is_blocking c e \<longleftrightarrow> inst_ordinal e = defaultInstanceOrdinal \<and> EffectiveUpgradeStrategy c = UPGRADE_RECREATE \<and>
     inst_state e = TARGET_TERMINATE"

definition ready :: "schedulingInstance \<Rightarrow> bool" where
  "ready e = (case sis_Runner (sc_Status e) of None \<Rightarrow> False
     | Some r \<Rightarrow> rs_Status r = RUNNING_STATUS_RUNNING \<and> rs_SpecVersion r = meta_SpecVersion (drec_Meta (sc_Config e)))"

text \<open>A standby takes over when an older serving instance has stopped.\<close>

definition failover :: "schedulingInstance \<Rightarrow> schedulingInstance list \<Rightarrow> bool" where
  "failover exact es = list_ex (\<lambda>old. inst_id old < inst_id exact \<and> inst_ordinal old = inst_ordinal exact \<and>
     inst_state old = TARGET_RUN_SERVING \<and> terminalRunnerStatus (sis_Runner (sc_Status old))) es"

definition place :: "DeploymentRecord \<Rightarrow> transaction \<Rightarrow> store_error + transaction" where
  "place c t =
    (let es = st_instances t in
     case exact_index c es of
       None \<Rightarrow>
         if list_ex (is_blocking c) es then Inr t
         else let target = (if list_ex is_serving es then TARGET_RUN_STANDBY else TARGET_RUN_SERVING);
                  (event, d) = newInstance (st_seq t) c defaultInstanceOrdinal target (st_now t) (tx_db (st_txn t))
              in publish VERB_CREATE event (t\<lparr>st_txn := (st_txn t)\<lparr>tx_db := d\<rparr>\<rparr>)
     | Some x \<Rightarrow>
         let target = inst_state (es ! x) in
         if ready (es ! x) \<and> (target = TARGET_RUN_STANDBY \<or> target = TARGET_RUN_SERVING) then promote x t
         else if target = TARGET_RUN_STANDBY \<and> failover (es ! x) es then promote x t
         else Inr t)"

definition drain_over :: "transaction \<Rightarrow> ScheduledInstanceEvent \<Rightarrow> bool" where
  "drain_over t event =
    (let s = st_scheduler t;
         adopted = (sie_Seq event \<le> sched_bootSeq s);
         deadline = (if adopted then sched_bootTime s + drainTimeout else sie_EventTime event * 1000000 + drainTimeout);
         applied = (case sched_barrier s of None \<Rightarrow> True | Some inForce \<Rightarrow> \<not> adopted \<and> inForce (sie_Seq event))
     in applied \<or> \<not> st_now t < deadline)"

definition drain_entry :: "nat \<Rightarrow> transaction \<Rightarrow> store_error + transaction" where
  "drain_entry i t =
    (let event = sc_Event (inst_at t i) in
     if si_State (sie_Value event) \<noteq> TARGET_RUN_DRAINING \<or> sie_Seq event \<ge> st_seq t \<or> \<not> drain_over t event then Inr t
     else bindE (set_target i TARGET_TERMINATE t) (finalizeStopped i))"

definition step :: "DeploymentRecord option \<Rightarrow> transaction \<Rightarrow> store_error + transaction" where
  "step cfg t =
    (let range = [0 ..< length (st_instances t)] in
     bindE (foldE (retire_entry cfg) range t) (\<lambda>t1.
     bindE (case cfg of None \<Rightarrow> Inr t1
            | Some c \<Rightarrow> if wanted cfg \<and> PlacementNodeID (drec_Deployment c) > 0 \<and>
                          PlacementNodeID (drec_Deployment c) \<notin> set (st_evicted t1)
                        then place c t1 else Inr t1) (\<lambda>t2.
     foldE drain_entry range t2)))"

section \<open>Reconciliation\<close>

definition begin_pass :: "Scheduler \<Rightarrow> clock \<Rightarrow> nat list \<Rightarrow> schedulingInstance list \<Rightarrow> txn \<Rightarrow> transaction" where
  "begin_pass s now evicted es x =
    \<lparr>st_txn = x, st_seq = upd_Seq (tx_update x), st_now = now, st_scheduler = s, st_evicted = evicted,
     st_changed = False, st_instances = es\<rparr>"

text \<open>\<open>left\<close> is \<open>limit - pass\<close>.\<close>

fun stabilize ::
  "Scheduler \<Rightarrow> clock \<Rightarrow> nat list \<Rightarrow> nat \<Rightarrow> nat \<Rightarrow> DeploymentRecord option \<times> schedulingInstance list \<Rightarrow> txn \<Rightarrow>
   store_error + txn" where
  "stabilize s now evicted dep left (cfg, es) x =
    bindE (step cfg (begin_pass s now evicted es x)) (\<lambda>t.
      if \<not> st_changed t then Inr (st_txn t)
      else (case left of
         0 \<Rightarrow> Inl (NotStabilized dep)
       | Suc l \<Rightarrow> bindE (readSchedulingState dep (db_tables (tx_db (st_txn t)))) (\<lambda>st.
           stabilize s now evicted dep l st (st_txn t))))"

declare stabilize.simps [simp del]

definition pass_limit :: "schedulingInstance list \<Rightarrow> nat" where
  "pass_limit es = length es * 3 + 8"

definition reconcile_deployment :: "Scheduler \<Rightarrow> clock \<Rightarrow> nat list \<Rightarrow> nat \<Rightarrow> txn \<Rightarrow> store_error + txn" where
  "reconcile_deployment s now evicted dep x =
    bindE (readSchedulingState dep (db_tables (tx_db x))) (\<lambda>(cfg, es).
      stabilize s now evicted dep (pass_limit es) (cfg, es) x)"

definition mutation_deployment :: "tables \<Rightarrow> CoreMutation \<Rightarrow> nat list" where
  "mutation_deployment ts m =
    (if Type m = CORE_DEPLOYMENT then [EntityID m]
     else if Type m = CORE_SCHEDULED_INSTANCE then
       (case Entity m of Some (EScheduledInstance i) \<Rightarrow> [dref_DeploymentID (si_Deployment i)] | _ \<Rightarrow> [])
     else if Type m = CORE_SCHEDULED_INSTANCE_STATUS then
       (case GetScheduledInstance (EntityID m) ts of None \<Rightarrow> []
        | Some inst \<Rightarrow> [dref_DeploymentID (si_Deployment (sie_Value inst))])
     else [])"

definition affected_deployments :: "(tables \<Rightarrow> nat list) option \<Rightarrow> txn \<Rightarrow> nat list" where
  "affected_deployments scope x =
    (let ts = db_tables (tx_db x);
         affected = concat (map (mutation_deployment ts) (upd_Mutations (tx_update x))) @
           (case scope of None \<Rightarrow> [] | Some ids \<Rightarrow> ids ts)
     in sort (remdups (filter (\<lambda>i. i \<noteq> 0) affected)))"

definition reconcile_now :: "clock \<Rightarrow> txn \<Rightarrow> clock" where
  "reconcile_now now x =
    (if upd_Mutations (tx_update x) \<noteq> [] \<and> upd_Time (tx_update x) \<noteq> 0 then upd_Time (tx_update x) * 1000000 else now)"

definition reconcile :: "Scheduler \<Rightarrow> clock \<Rightarrow> (tables \<Rightarrow> nat list) option \<Rightarrow> txn \<Rightarrow> store_error + txn" where
  "reconcile s now scope x =
    (let ids = affected_deployments scope x in
     if ids = [] then Inr x
     else foldE (reconcile_deployment s (reconcile_now now x) (evictedNodeIDs (db_tables (tx_db x)))) ids x)"

section \<open>Commits of the scheduler\<close>

definition scheduler_trigger :: "Scheduler \<Rightarrow> clock \<Rightarrow> trigger" where
  "scheduler_trigger s now x = reconcile s now None x"

definition seq_txn :: "db \<Rightarrow> int \<Rightarrow> txn" where
  "seq_txn d seq = wrote d (empty_update\<lparr>upd_Seq := seq\<rparr>)"

definition active_scope :: "tables \<Rightarrow> nat list" where
  "active_scope ts =
    (let ids = map (\<lambda>r. dep_ID (drec_Deployment r)) (ListActiveDeployments ts)
     in ids @ filter (\<lambda>i. i \<notin> set ids)
          (remdups (map (\<lambda>e. dref_DeploymentID (si_Deployment (sie_Value e))) (ListNonFinalScheduledInstances ts))))"

text \<open>\<open>Start\<close> notes the boot seq and time before it reconciles, and the registered trigger sees them.\<close>

definition Start :: "Scheduler \<Rightarrow> clock \<Rightarrow> trigger list \<Rightarrow> db \<Rightarrow> store_error + Scheduler \<times> CoreWriteUpdate option \<times> db" where
  "Start s now triggers d =
    (let s' = s\<lparr>sched_bootSeq := db_global_seq d, sched_bootTime := now\<rparr>
     in bindE (Commit (triggers @ [scheduler_trigger s' now])
          (\<lambda>d seq. bindE (reconcile s' now (Some active_scope) (seq_txn d seq)) (\<lambda>x. Inr ((), x))) d)
          (\<lambda>(_, u, d'). Inr (s', u, d')))"

definition Sweep :: "Scheduler \<Rightarrow> clock \<Rightarrow> trigger list \<Rightarrow> db \<Rightarrow> store_error + unit \<times> CoreWriteUpdate option \<times> db" where
  "Sweep s now triggers d =
    Commit triggers (\<lambda>d seq. bindE (reconcile s now (Some ListDrainingDeploymentIDs) (seq_txn d seq)) (\<lambda>x. Inr ((), x))) d"

text \<open>
  \<open>EnsureRunInstance\<close> panics on a target that does not run and on a failed commit; the result
  is the placement and whether it was created.
\<close>

definition ensure_mutate ::
  "nat \<Rightarrow> nat \<Rightarrow> nat \<Rightarrow> nat \<Rightarrow> ScheduledInstanceTarget \<Rightarrow> clock \<Rightarrow> db \<Rightarrow> int \<Rightarrow>
   store_error + (ScheduledInstance \<times> bool) \<times> txn" where
  "ensure_mutate dep version nodeID ordinal initial now d seq =
    (case find (\<lambda>e. dref_Version (si_Deployment (sie_Value e)) = version \<and> si_NodeID (sie_Value e) = nodeID \<and>
             si_InstanceOrdinal (sie_Value e) = ordinal \<and> WantsRunning (si_State (sie_Value e)))
            (ListNonFinalScheduledInstancesForDeployment dep (db_tables d)) of
       Some event \<Rightarrow> Inr ((sie_Value event, False), wrote d empty_update)
     | None \<Rightarrow>
        (case GetDeploymentVersion dep version (db_tables d) of
           None \<Rightarrow> Inl NoRows
         | Some cfg \<Rightarrow>
            let (i, d1) = NextScheduledInstanceID d;
                inst = \<lparr>si_ID = i, si_NodeID = nodeID, si_InstanceOrdinal = ordinal, si_State = initial,
                        si_SpaceID = dep_SpaceID (drec_Deployment cfg),
                        si_Deployment = \<lparr>dref_DeploymentID = dep, dref_Version = version\<rparr>\<rparr>
            in Inr ((inst, True), wrote d1 (NewUpdate
                 [ScheduledInstanceMutation VERB_CREATE (NewScheduledInstanceEvent seq inst initial now)]))))"

definition EnsureRunInstance ::
  "trigger list \<Rightarrow> nat \<Rightarrow> nat \<Rightarrow> nat \<Rightarrow> nat \<Rightarrow> ScheduledInstanceTarget \<Rightarrow> clock \<Rightarrow> db \<Rightarrow>
   store_error + (ScheduledInstance \<times> bool) \<times> CoreWriteUpdate option \<times> db" where
  "EnsureRunInstance triggers dep version nodeID ordinal initial now d =
    (if \<not> WantsRunning initial then Inl (WriterFailed ''EnsureRunInstance: initial state is not runnable'')
     else Commit triggers (ensure_mutate dep version nodeID ordinal initial now) d)"

end
