(* ===== verification/Scheduler_Refine.thy ===== *)
theory Scheduler_Refine
  imports Scheduler
begin

text \<open>
  Reconciliation as a refinement of the transaction steps of the store: every operation of the
  scheduler only allocates ids and applies mutations, so the store contract \<open>store_clients\<close> holds
  of the scheduler's trigger and commits. A commit that touches no deployment, placement or status
  passes through the trigger unchanged.
\<close>

section \<open>The scheduler only allocates ids and applies mutations\<close>

definition refines :: "txn \<Rightarrow> txn \<Rightarrow> bool" where
  "refines x x' \<longleftrightarrow> tx_steps x x' \<and> upd_Seq (tx_update x') = upd_Seq (tx_update x)"

lemma refines_refl [simp]: "refines x x"
  by (simp add: refines_def tx_steps.start)

lemma refines_trans: "refines x y \<Longrightarrow> refines y z \<Longrightarrow> refines x z"
  by (auto simp: refines_def intro: tx_steps_trans)

lemma reduceUpdate_Seq: "reduceUpdate start u logged d = Inr (u', d') \<Longrightarrow> upd_Seq u' = upd_Seq u"
  by (auto simp: reduceUpdate_def Let_def bindE_Inr split: if_splits)

lemma tx_reduce_Seq: "tx_reduce x = Inr x' \<Longrightarrow> upd_Seq (tx_update x') = upd_Seq (tx_update x)"
  by (auto simp: tx_reduce_def ReduceUpdate_def bindE_Inr dest: reduceUpdate_Seq)

lemma Apply_refines: "Apply ms x = Inr x' \<Longrightarrow> refines x x'"
  using tx_steps_Apply [of ms x x'] tx_reduce_Seq [of "x\<lparr>tx_update := AppendMutations (tx_update x) ms\<rparr>" x']
  by (simp add: refines_def Apply_def)

lemma publish_refines: "publish verb e t = Inr t' \<Longrightarrow> refines (st_txn t) (st_txn t')"
  by (auto simp: publish_def bindE_Inr dest: Apply_refines)

lemma set_target_refines: "set_target i g t = Inr t' \<Longrightarrow> refines (st_txn t) (st_txn t')"
  by (auto simp: set_target_def Let_def split: if_splits dest: publish_refines)

lemma finalizeStopped_refines: "finalizeStopped i t = Inr t' \<Longrightarrow> refines (st_txn t) (st_txn t')"
  by (auto simp: finalizeStopped_def split: if_splits dest: set_target_refines)

lemma set_finalize_refines:
  "bindE (set_target i g t) (finalizeStopped i) = Inr t' \<Longrightarrow> refines (st_txn t) (st_txn t')"
  by (auto simp: bindE_Inr dest!: set_target_refines finalizeStopped_refines intro: refines_trans)

lemma foldE_refines:
  assumes "foldE f is t = Inr t'" "\<And>i u v. f i u = Inr v \<Longrightarrow> refines (st_txn u) (st_txn v)"
  shows "refines (st_txn t) (st_txn t')"
  by (rule foldE_invariant [OF assms(1), of "\<lambda>u. refines (st_txn t) (st_txn u)"])
    (auto intro: refines_trans assms(2))

lemma retire_entry_refines: "retire_entry cfg i t = Inr t' \<Longrightarrow> refines (st_txn t) (st_txn t')"
  by (auto simp: retire_entry_def Let_def split: if_splits dest: finalizeStopped_refines set_finalize_refines)

lemma demote_refines: "demote c i t = Inr t' \<Longrightarrow> refines (st_txn t) (st_txn t')"
  by (auto simp: demote_def Let_def split: if_splits dest: set_target_refines)

lemma drain_entry_refines: "drain_entry i t = Inr t' \<Longrightarrow> refines (st_txn t) (st_txn t')"
  by (auto simp: drain_entry_def Let_def split: if_splits dest: set_finalize_refines)

lemma promote_refines:
  assumes "promote c t = Inr t'"
  shows "refines (st_txn t) (st_txn t')"
proof -
  from assms obtain u where u: "foldE (demote c) [0 ..< length (st_instances t)] t = Inr u"
    "set_target c TARGET_RUN_SERVING u = Inr t'"
    by (auto simp: promote_def bindE_Inr)
  have "refines (st_txn t) (st_txn u)" by (rule foldE_refines [OF u(1)]) (rule demote_refines)
  with set_target_refines [OF u(2)] show ?thesis by (blast intro: refines_trans)
qed

lemma place_refines:
  assumes "place c t = Inr t'"
  shows "refines (st_txn t) (st_txn t')"
proof (cases "exact_index c (st_instances t)")
  case None
  show ?thesis
  proof (cases "list_ex (is_blocking c) (st_instances t)")
    case False
    let ?g = "if list_ex is_serving (st_instances t) then TARGET_RUN_STANDBY else TARGET_RUN_SERVING"
    obtain e d where n: "newInstance (st_seq t) c defaultInstanceOrdinal ?g (st_now t) (tx_db (st_txn t)) = (e, d)"
      by fastforce
    then have d: "NextEntityID CORE_SCHEDULED_INSTANCE (tx_db (st_txn t)) = (fst (NextScheduledInstanceID (tx_db (st_txn t))), d)"
      by (auto simp: newInstance_def NextScheduledInstanceID_def split: prod.splits)
    have 1: "refines (st_txn t) ((st_txn t)\<lparr>tx_db := d\<rparr>)"
      using tx_steps.alloc [OF tx_steps.start d] by (simp add: refines_def)
    from assms None False n have "publish VERB_CREATE e (t\<lparr>st_txn := (st_txn t)\<lparr>tx_db := d\<rparr>\<rparr>) = Inr t'"
      by (simp add: place_def Let_def split: if_splits)
    from publish_refines [OF this] 1 show ?thesis by (auto intro: refines_trans)
  qed (use assms None in \<open>simp add: place_def\<close>)
next
  case (Some x)
  with assms show ?thesis by (auto simp: place_def Let_def split: if_splits dest: promote_refines)
qed

lemma step_refines:
  assumes "step cfg t = Inr t'"
  shows "refines (st_txn t) (st_txn t')"
proof -
  from assms obtain t1 t2 where t1: "foldE (retire_entry cfg) [0 ..< length (st_instances t)] t = Inr t1"
    and t2: "(case cfg of None \<Rightarrow> Inr t1
            | Some c \<Rightarrow> if wanted cfg \<and> PlacementNodeID (drec_Deployment c) > 0 \<and>
                          PlacementNodeID (drec_Deployment c) \<notin> set (st_evicted t1)
                        then place c t1 else Inr t1) = Inr t2"
    and t3: "foldE drain_entry [0 ..< length (st_instances t)] t2 = Inr t'"
    unfolding step_def Let_def bindE_Inr by blast
  have "refines (st_txn t) (st_txn t1)" by (rule foldE_refines [OF t1]) (rule retire_entry_refines)
  moreover from t2 have "refines (st_txn t1) (st_txn t2)"
    by (auto split: option.splits if_splits dest: place_refines)
  moreover have "refines (st_txn t2) (st_txn t')" by (rule foldE_refines [OF t3]) (rule drain_entry_refines)
  ultimately show ?thesis by (blast intro: refines_trans)
qed

lemma stabilize_refines: "stabilize s now ev dep left st x = Inr x' \<Longrightarrow> refines x x'"
proof (induction left arbitrary: st x)
  case 0
  obtain cfg es where [simp]: "st = (cfg, es)" by (cases st)
  from 0 show ?case
    by (auto simp: stabilize.simps bindE_Inr begin_pass_def split: if_splits dest: step_refines)
next
  case (Suc l)
  obtain cfg es where [simp]: "st = (cfg, es)" by (cases st)
  from Suc.prems obtain t where t: "step cfg (begin_pass s now ev es x) = Inr t"
    and rest: "\<not> st_changed t \<and> x' = st_txn t \<or>
      (\<exists>st'. stabilize s now ev dep l st' (st_txn t) = Inr x')"
    by (auto simp: stabilize.simps [of s now ev dep "Suc l"] bindE_Inr split: if_splits)
  from step_refines [OF t] have "refines x (st_txn t)" by (simp add: begin_pass_def)
  with rest Suc.IH show ?case by (auto intro: refines_trans)
qed

lemma reconcile_refines:
  assumes "reconcile s now scope x = Inr x'"
  shows "refines x x'"
proof -
  have "refines u v" if "reconcile_deployment s n ev dep u = Inr v" for n ev dep u v
    using that by (auto simp: reconcile_deployment_def bindE_Inr dest: stabilize_refines)
  then show ?thesis using assms
    by (auto simp: reconcile_def Let_def split: if_splits
        elim!: foldE_invariant [where P = "refines x"] intro: refines_trans)
qed

lemma seq_txn_steps: "tx_steps (wrote d empty_update) (seq_txn d seq)"
  using tx_steps.stamp [OF tx_steps.start, of "wrote d empty_update" seq] by (simp add: seq_txn_def wrote_def)

interpretation sweep: store_clients "[scheduler_trigger s now']"
  "\<lambda>d seq. bindE (reconcile s now (Some scope) (seq_txn d seq)) (\<lambda>x. Inr ((), x))"
  for s now now' scope
proof unfold_locales
  fix d seq r t
  assume "bindE (reconcile s now (Some scope) (seq_txn d seq)) (\<lambda>x. Inr ((), x)) = Inr (r, t)"
  then have "tx_steps (seq_txn d seq) t" by (auto simp: bindE_Inr refines_def dest: reconcile_refines)
  then show "tx_steps (wrote d empty_update) t" using seq_txn_steps by (rule tx_steps_trans)
qed (auto simp: scheduler_trigger_def refines_def dest: reconcile_refines)

lemma NewUpdate_wrote: "tx_steps (wrote d empty_update) (wrote d (NewUpdate ms))"
  using tx_steps.append [OF tx_steps.start, of "wrote d empty_update" ms] by (simp add: NewUpdate_def wrote_def)

lemma alloc_NewUpdate:
  assumes "NextEntityID ty d = (i, d1)"
  shows "tx_steps (wrote d empty_update) (wrote d1 (NewUpdate ms))"
proof -
  have "tx_steps (wrote d empty_update) (wrote d1 empty_update)"
    using tx_steps.alloc [OF tx_steps.start, of ty "wrote d empty_update" i d1] assms by (simp add: wrote_def)
  then show ?thesis using NewUpdate_wrote tx_steps_trans by blast
qed

interpretation ensure: store_clients "[scheduler_trigger s now]"
  "ensure_mutate dep version nodeID ordinal initial at"
  for s now dep version nodeID ordinal initial at
proof unfold_locales
  fix d seq r t
  assume "ensure_mutate dep version nodeID ordinal initial at d seq = Inr (r, t)"
  then show "tx_steps (wrote d empty_update) t"
    by (auto simp: ensure_mutate_def Let_def NextScheduledInstanceID_def tx_steps.start split: option.splits prod.splits
        intro: alloc_NewUpdate)
qed (auto simp: scheduler_trigger_def refines_def dest: reconcile_refines)

section \<open>Commits without placements\<close>

definition scheduling_types :: "CoreEntityType set" where
  "scheduling_types = {CORE_DEPLOYMENT, CORE_SCHEDULED_INSTANCE, CORE_SCHEDULED_INSTANCE_STATUS}"

lemma reconcile_identity:
  assumes "\<forall>m \<in> set (upd_Mutations (tx_update x)). Type m \<notin> scheduling_types"
  shows "reconcile s now None x = Inr x"
proof -
  have "mutation_deployment ts m = []" if "m \<in> set (upd_Mutations (tx_update x))" for ts m
    using assms that by (auto simp: mutation_deployment_def scheduling_types_def)
  then have "concat (map (mutation_deployment ts) (upd_Mutations (tx_update x))) = []" for ts
    by simp
  from this [of "db_tables (tx_db x)"] show ?thesis
    by (simp only: reconcile_def affected_deployments_def Let_def) simp
qed

end
