(* ===== verification/Authz_Store.thy ===== *)
theory Authz_Store
  imports Authz_Validate Scheduler_Refine
begin

text \<open>
  The rows of the access-control service: the reads of \<open>pq/authz.go\<close> and the commits of
  \<open>domain/authz/store.go\<close>. A commit here carries one mutation of an access entity, which no
  registered trigger of the primary reacts to: the locale \<open>quiet_triggers\<close> states that contract,
  gives the outcome of such a commit in closed form, and is interpreted on the scheduler's trigger.
  The codec of the generated messages is the identity on the values it encodes.
\<close>

section \<open>Reads\<close>

definition AuthzGrantTemplateEntity :: "nat \<times> AuthzGrantTemplate row \<Rightarrow> AuthzGrantTemplate" where
  "AuthzGrantTemplateEntity = (\<lambda>(i, r). (row_value r)\<lparr>tpl_ID := i\<rparr>)"

definition AuthzGrantEntity :: "nat \<times> AuthzGrant row \<Rightarrow> AuthzGrant" where
  "AuthzGrantEntity = (\<lambda>(i, r). (row_value r)\<lparr>grant_ID := i\<rparr>)"

definition AuthzGlobalRuleEntity :: "nat \<times> AuthzGlobalRule row \<Rightarrow> AuthzGlobalRule" where
  "AuthzGlobalRuleEntity = (\<lambda>(i, r). (row_value r)\<lparr>gr_ID := i\<rparr>)"

definition GetAuthzGrantTemplate :: "nat \<Rightarrow> tables \<Rightarrow> AuthzGrantTemplate option" where
  "GetAuthzGrantTemplate i ts = map_option (\<lambda>r. AuthzGrantTemplateEntity (i, r)) (tbl_get (authz_grant_templates ts) i)"

definition GetAuthzGrant :: "nat \<Rightarrow> tables \<Rightarrow> AuthzGrant option" where
  "GetAuthzGrant i ts = map_option (\<lambda>r. AuthzGrantEntity (i, r)) (tbl_get (authz_grants ts) i)"

definition GetAuthzGlobalRule :: "nat \<Rightarrow> tables \<Rightarrow> AuthzGlobalRule option" where
  "GetAuthzGlobalRule i ts = map_option (\<lambda>r. AuthzGlobalRuleEntity (i, r)) (tbl_get (authz_global_rules ts) i)"

definition ListAuthzGrantTemplates :: "tables \<Rightarrow> AuthzGrantTemplate list" where
  "ListAuthzGrantTemplates ts = map AuthzGrantTemplateEntity (authz_grant_templates ts)"

definition ListAuthzGrants :: "tables \<Rightarrow> AuthzGrant list" where
  "ListAuthzGrants ts = map AuthzGrantEntity (authz_grants ts)"

definition ListAuthzGlobalRules :: "tables \<Rightarrow> AuthzGlobalRule list" where
  "ListAuthzGlobalRules ts = map AuthzGlobalRuleEntity (authz_global_rules ts)"

section \<open>Commits\<close>

text \<open>The clock argument \<open>now\<close> is in milliseconds, as \<open>UnixMilli\<close> gives it.\<close>

definition authz_meta :: "int \<Rightarrow> int \<Rightarrow> int \<Rightarrow> AuthzVerb \<Rightarrow> EventMeta" where
  "authz_meta seq now author verb =
    \<lparr>em_GlobalSeq = seq, em_EventTime = now, em_Author = author, em_EventType = verb\<rparr>"

definition templateEntity :: "nat \<Rightarrow> string \<Rightarrow> bool \<Rightarrow> AuthzGrantTemplateSpec \<Rightarrow> AuthzGrantTemplate" where
  "templateEntity i name builtin spec = \<lparr>tpl_ID = i, tpl_Name = name, tpl_Builtin = builtin, tpl_Spec = spec\<rparr>"

definition insertGrantTemplate ::
  "trigger list \<Rightarrow> string \<Rightarrow> AuthzGrantTemplateSpec \<Rightarrow> int \<Rightarrow> int \<Rightarrow> db \<Rightarrow> store_error + nat \<times> CoreWriteUpdate option \<times> db" where
  "insertGrantTemplate triggers name spec author now =
    Commit triggers (\<lambda>d seq. let (i, d1) = NextEntityID CORE_AUTHZ_GRANT_TEMPLATE d in
      Inr (i, wrote d1 (NewUpdate [AuthzGrantTemplateMutation (authz_meta seq now author VERB_CREATE)
        (templateEntity i name False spec)])))"

definition updateGrantTemplate ::
  "trigger list \<Rightarrow> nat \<Rightarrow> string \<Rightarrow> AuthzGrantTemplateSpec \<Rightarrow> int \<Rightarrow> int \<Rightarrow> db \<Rightarrow> store_error + unit \<times> CoreWriteUpdate option \<times> db" where
  "updateGrantTemplate triggers i name spec author now =
    Commit triggers (\<lambda>d seq. case GetAuthzGrantTemplate i (db_tables d) of
        None \<Rightarrow> Inl NoRows
      | Some prev \<Rightarrow> Inr ((), wrote d (NewUpdate [AuthzGrantTemplateMutation (authz_meta seq now author VERB_UPDATE)
          (templateEntity i name (tpl_Builtin prev) spec)])))"

definition deleteGrantTemplate ::
  "trigger list \<Rightarrow> nat \<Rightarrow> int \<Rightarrow> int \<Rightarrow> db \<Rightarrow> store_error + unit \<times> CoreWriteUpdate option \<times> db" where
  "deleteGrantTemplate triggers i author now =
    Commit triggers (\<lambda>d seq. case GetAuthzGrantTemplate i (db_tables d) of
        None \<Rightarrow> Inl NoRows
      | Some _ \<Rightarrow> Inr ((), wrote d (NewUpdate [delete_mutation (authz_meta seq now author 0) CORE_AUTHZ_GRANT_TEMPLATE i])))"

definition upsertBuiltinGrantTemplate ::
  "trigger list \<Rightarrow> int \<Rightarrow> AuthzGrantTemplate \<Rightarrow> db \<Rightarrow> store_error + unit \<times> CoreWriteUpdate option \<times> db" where
  "upsertBuiltinGrantTemplate triggers now b =
    Commit triggers (\<lambda>d seq.
      let write = (\<lambda>verb. Inr ((), wrote d (NewUpdate [AuthzGrantTemplateMutation (authz_meta seq now 0 verb)
            (templateEntity (tpl_ID b) (tpl_Name b) True (tpl_Spec b))])))
      in (case GetAuthzGrantTemplate (tpl_ID b) (db_tables d) of
            None \<Rightarrow> write VERB_CREATE
          | Some prev \<Rightarrow>
              if tpl_Name prev \<noteq> tpl_Name b \<or> \<not> tpl_Builtin prev \<or> tpl_Spec prev \<noteq> tpl_Spec b then write VERB_UPDATE
              else Inr ((), wrote d empty_update)))"

definition insertGrant ::
  "trigger list \<Rightarrow> nat \<Rightarrow> AuthzGrantSource \<Rightarrow> int \<Rightarrow> int \<Rightarrow> db \<Rightarrow> store_error + nat \<times> CoreWriteUpdate option \<times> db" where
  "insertGrant triggers userID source author now =
    Commit triggers (\<lambda>d seq. let (i, d1) = NextEntityID CORE_AUTHZ_GRANT d in
      Inr (i, wrote d1 (NewUpdate [AuthzGrantMutation (authz_meta seq now author VERB_CREATE) i
        \<lparr>grant_ID = i, grant_UserID = userID, grant_Source = source\<rparr>])))"

definition deleteGrant :: "trigger list \<Rightarrow> nat \<Rightarrow> int \<Rightarrow> int \<Rightarrow> db \<Rightarrow> store_error + unit \<times> CoreWriteUpdate option \<times> db" where
  "deleteGrant triggers i author now =
    Commit triggers (\<lambda>d seq. case GetAuthzGrant i (db_tables d) of
        None \<Rightarrow> Inl NoRows
      | Some _ \<Rightarrow> Inr ((), wrote d (NewUpdate [delete_mutation (authz_meta seq now author 0) CORE_AUTHZ_GRANT i])))"

definition insertGlobalRule ::
  "trigger list \<Rightarrow> string \<Rightarrow> AuthzRule \<Rightarrow> int \<Rightarrow> int \<Rightarrow> db \<Rightarrow> store_error + nat \<times> CoreWriteUpdate option \<times> db" where
  "insertGlobalRule triggers name rule author now =
    Commit triggers (\<lambda>d seq. let (i, d1) = NextEntityID CORE_AUTHZ_GLOBAL_RULE d in
      Inr (i, wrote d1 (NewUpdate [AuthzGlobalRuleMutation (authz_meta seq now author VERB_CREATE)
        \<lparr>gr_ID = i, gr_Name = name, gr_Rule = rule\<rparr>])))"

definition deleteGlobalRule :: "trigger list \<Rightarrow> nat \<Rightarrow> int \<Rightarrow> int \<Rightarrow> db \<Rightarrow> store_error + unit \<times> CoreWriteUpdate option \<times> db" where
  "deleteGlobalRule triggers i author now =
    Commit triggers (\<lambda>d seq. case GetAuthzGlobalRule i (db_tables d) of
        None \<Rightarrow> Inl NoRows
      | Some _ \<Rightarrow> Inr ((), wrote d (NewUpdate [delete_mutation (authz_meta seq now author 0) CORE_AUTHZ_GLOBAL_RULE i])))"

definition seedGlobalRule ::
  "trigger list \<Rightarrow> string \<Rightarrow> AuthzRule \<Rightarrow> int \<Rightarrow> db \<Rightarrow> store_error + unit \<times> CoreWriteUpdate option \<times> db" where
  "seedGlobalRule triggers name rule now =
    Commit triggers (\<lambda>d seq.
      if AuthzGlobalRuleNameEverLogged name d then Inr ((), wrote d empty_update)
      else let (i, d1) = NextEntityID CORE_AUTHZ_GLOBAL_RULE d in
        Inr ((), wrote d1 (NewUpdate [AuthzGlobalRuleMutation (authz_meta seq now 0 VERB_CREATE)
          \<lparr>gr_ID = i, gr_Name = name, gr_Rule = rule\<rparr>])))"

section \<open>The outcome of a commit no trigger reacts to\<close>

lemma tx_reduce_idle:
  "tx_applied x = length (upd_Mutations (tx_update x)) \<Longrightarrow> tx_reduce x = Inr x"
  by (simp add: tx_reduce_def ReduceUpdate_def reduceUpdate_def Let_def)

lemma reduceUpdate_single:
  assumes "reduce \<lparr>env_Seq = upd_Seq u, env_EventTime = upd_Time u, env_Author = upd_Actor u, env_Logged = None\<rparr> m d = Inr (m', d')"
    and "upd_Mutations u = [m]" "Type m \<notin> scheduling_types"
  shows "ReduceUpdate 0 u d = Inr (u\<lparr>upd_Mutations := [m']\<rparr>, d')"
  using assms by (simp add: ReduceUpdate_def reduceUpdate_def affectedDeployment_def orphan_statuses_def scheduling_types_def)

definition logged_event :: "int \<Rightarrow> Mutation \<Rightarrow> write_event" where
  "logged_event seq m = \<lparr>we_seq = seq, we_time = em_EventTime (mut_Meta m), we_actor = em_Author (mut_Meta m),
     we_mutations = [log_mutation (Wire m)]\<rparr>"

locale quiet_triggers =
  fixes triggers :: "trigger list"
  assumes quiet: "f \<in> set triggers \<Longrightarrow> \<forall>m \<in> set (upd_Mutations (tx_update x)). Type m \<notin> scheduling_types \<Longrightarrow> f x = Inr x"
    and steps: "f \<in> set triggers \<Longrightarrow> f t = Inr t' \<Longrightarrow> tx_steps t t'"
    and keeps_seq: "f \<in> set triggers \<Longrightarrow> f t = Inr t' \<Longrightarrow> upd_Seq (tx_update t') = upd_Seq (tx_update t)"
begin

lemma run_quiet:
  assumes "\<forall>m \<in> set (upd_Mutations (tx_update x)). Type m \<notin> scheduling_types"
    and "tx_applied x = length (upd_Mutations (tx_update x))" "set fs \<subseteq> set triggers"
  shows "run_triggers fs x = Inr x"
  using assms(3) by (induction fs) (simp_all add: quiet [OF _ assms(1)] tx_reduce_idle [OF assms(2)])

lemma commit_nothing:
  assumes "mutate d (db_global_seq d + 1) = Inr (r, wrote d1 empty_update)"
  shows "Commit triggers mutate d = Inr (r, None, d1)"
  using assms run_quiet [of "wrote d1 (empty_update\<lparr>upd_Seq := db_global_seq d + 1\<rparr>)" triggers]
    tx_reduce_idle [of "wrote d1 (empty_update\<lparr>upd_Seq := db_global_seq d + 1\<rparr>)"]
  by (simp add: Commit_def Let_def wrote_def empty_update_def IsEmpty_def)

lemma commit_single:
  assumes mut: "mutate d (db_global_seq d + 1) = Inr (r, wrote d1 (NewUpdate [m]))"
    and red: "reduce \<lparr>env_Seq = db_global_seq d + 1, env_EventTime = em_EventTime (mut_Meta m),
        env_Author = em_Author (mut_Meta m), env_Logged = None\<rparr> (Wire m) d1 = Inr (m', d2)"
    and "Type (Wire m) \<notin> scheduling_types" "Type m' = Type (Wire m)" "log_mutation m' = log_mutation (Wire m)"
    and "\<forall>e \<in> set (db_log d2). we_seq e \<le> db_global_seq d"
  shows "\<exists>u. Commit triggers mutate d = Inr (r, Some u,
      d2\<lparr>db_log := db_log d2 @ [logged_event (db_global_seq d + 1) m], db_global_seq := db_global_seq d + 1\<rparr>)"
proof -
  let ?u = "(NewUpdate [m])\<lparr>upd_Seq := db_global_seq d + 1\<rparr>"
  let ?x = "\<lparr>tx_db = d2, tx_update = ?u\<lparr>upd_Mutations := [m']\<rparr>, tx_applied = 1\<rparr>"
  have "tx_reduce (wrote d1 ?u) = Inr ?x"
    using reduceUpdate_single [of ?u "Wire m" d1 m' d2] red assms(3)
    by (simp add: tx_reduce_def wrote_def NewUpdate_def empty_update_def)
  moreover have "run_triggers triggers ?x = Inr ?x"
    by (rule run_quiet) (use assms(3,4) in auto)
  moreover have "InsertWriteEvent (tx_update ?x) d2 = Inr (d2\<lparr>db_log := db_log d2 @ [logged_event (db_global_seq d + 1) m]\<rparr>)"
    using assms(5,6) by (auto simp: InsertWriteEvent_Inr logged_event_def NewUpdate_def empty_update_def)
  ultimately show ?thesis using mut by (simp add: Commit_def Let_def wrote_def IsEmpty_def)
qed

lemma clients:
  assumes "\<And>d seq r t. mutate d seq = Inr (r, t) \<Longrightarrow> tx_steps (wrote d empty_update) t"
  shows "store_clients triggers mutate"
  by unfold_locales (use steps keeps_seq assms in blast)+

end

interpretation scheduled: quiet_triggers "[scheduler_trigger s now]" for s now
  by unfold_locales
    (use reconcile_refines reconcile_identity in \<open>force simp: scheduler_trigger_def refines_def\<close>)+

section \<open>What the commits do to the access tables\<close>

definition template_table :: "tables \<Rightarrow> (nat, AuthzGrantTemplate) table" where
  "template_table ts = map (\<lambda>e. (fst e, AuthzGrantTemplateEntity e)) (authz_grant_templates ts)"

definition grant_table :: "tables \<Rightarrow> (nat, AuthzGrant) table" where
  "grant_table ts = map (\<lambda>e. (fst e, AuthzGrantEntity e)) (authz_grants ts)"

definition rule_table :: "tables \<Rightarrow> (nat, AuthzGlobalRule) table" where
  "rule_table ts = map (\<lambda>e. (fst e, AuthzGlobalRuleEntity e)) (authz_global_rules ts)"

definition access :: "db \<Rightarrow> (nat, AuthzGrantTemplate) table \<times> (nat, AuthzGrant) table \<times> (nat, AuthzGlobalRule) table" where
  "access d = (template_table (db_tables d), grant_table (db_tables d), rule_table (db_tables d))"

lemmas access_table_defs = template_table_def grant_table_def rule_table_def AuthzGrantTemplateEntity_def
  AuthzGrantEntity_def AuthzGlobalRuleEntity_def

lemma entity_keyed_put:
  "map (\<lambda>e. (fst e, f e)) (tbl_put k v t) = tbl_put k (f (k, v)) (map (\<lambda>e. (fst e, f e)) t)"
proof (induction t)
  case (Cons e t)
  then show ?case by (cases e) auto
qed simp

lemma entity_keyed_del: "map (\<lambda>e. (fst e, f e)) (tbl_del k t) = tbl_del k (map (\<lambda>e. (fst e, f e)) t)"
  unfolding tbl_del_def by (induction t) auto

lemma entity_keyed_wf: "tbl_wf (map (\<lambda>e. (fst e, f e)) t) \<longleftrightarrow> tbl_wf t"
  by (simp add: tbl_wf_def comp_def)

lemma entity_keyed_get: "tbl_get (map (\<lambda>e. (fst e, f e)) t) k = map_option (\<lambda>v. f (k, v)) (tbl_get t k)"
  by (induction t) auto

lemma access_put:
  "template_table (authz_grant_templates_update (upsert env i v c) ts) = tbl_put i (v\<lparr>tpl_ID := i\<rparr>) (template_table ts)"
  "grant_table (authz_grants_update (upsert env i g c) ts) = tbl_put i (g\<lparr>grant_ID := i\<rparr>) (grant_table ts)"
  "rule_table (authz_global_rules_update (upsert env i r c) ts) = tbl_put i (r\<lparr>gr_ID := i\<rparr>) (rule_table ts)"
  by (simp_all add: access_table_defs upsert_def entity_keyed_put)

lemma access_del:
  "template_table (ts\<lparr>authz_grant_templates := tbl_del i (authz_grant_templates ts)\<rparr>) = tbl_del i (template_table ts)"
  "grant_table (ts\<lparr>authz_grants := tbl_del i (authz_grants ts)\<rparr>) = tbl_del i (grant_table ts)"
  "rule_table (ts\<lparr>authz_global_rules := tbl_del i (authz_global_rules ts)\<rparr>) = tbl_del i (rule_table ts)"
  by (simp_all add: access_table_defs entity_keyed_del)

lemma tables_frame [simp]:
  "template_table (authz_grants_update a ts) = template_table ts" "template_table (authz_global_rules_update b ts) = template_table ts"
  "grant_table (authz_grant_templates_update c ts) = grant_table ts" "grant_table (authz_global_rules_update b ts) = grant_table ts"
  "rule_table (authz_grant_templates_update c ts) = rule_table ts" "rule_table (authz_grants_update a ts) = rule_table ts"
  by (simp_all add: template_table_def grant_table_def rule_table_def)

text \<open>One access mutation: the tables after it, and that the log and the seq stay.\<close>

lemmas reduce_access_defs = reduce_def reduce_entity_def delete_rows_def reduceAuthzGrantTemplate_def
  reduceAuthzGrant_def reduceAuthzGlobalRule_def put_row_def wrap_reduced_def bumpEntityID_def Let_def

lemma reduce_template:
  assumes "Kind m \<noteq> VERB_DELETE" "Type m = CORE_AUTHZ_GRANT_TEMPLATE" "EntityID m = i" "Entity m = Some (EAuthzGrantTemplate t)"
  shows "\<exists>meta d'. reduce env m d = Inr (SetMeta meta m, d') \<and> db_log d' = db_log d \<and>
    template_table (db_tables d') = tbl_put i (t\<lparr>tpl_ID := i\<rparr>) (template_table (db_tables d)) \<and>
    grant_table (db_tables d') = grant_table (db_tables d) \<and> rule_table (db_tables d') = rule_table (db_tables d)"
  using assms by (auto simp: reduce_access_defs access_put)

lemma reduce_grant:
  assumes "Kind m \<noteq> VERB_DELETE" "Type m = CORE_AUTHZ_GRANT" "EntityID m = i" "Entity m = Some (EAuthzGrant g)"
  shows "\<exists>meta d'. reduce env m d = Inr (SetMeta meta m, d') \<and> db_log d' = db_log d \<and>
    template_table (db_tables d') = template_table (db_tables d) \<and>
    grant_table (db_tables d') = tbl_put i (g\<lparr>grant_ID := i\<rparr>) (grant_table (db_tables d)) \<and>
    rule_table (db_tables d') = rule_table (db_tables d)"
  using assms by (auto simp: reduce_access_defs access_put)

lemma reduce_rule:
  assumes "Kind m \<noteq> VERB_DELETE" "Type m = CORE_AUTHZ_GLOBAL_RULE" "EntityID m = i" "Entity m = Some (EAuthzGlobalRule r)"
  shows "\<exists>meta d'. reduce env m d = Inr (SetMeta meta m, d') \<and> db_log d' = db_log d \<and>
    template_table (db_tables d') = template_table (db_tables d) \<and> grant_table (db_tables d') = grant_table (db_tables d) \<and>
    rule_table (db_tables d') = tbl_put i (r\<lparr>gr_ID := i\<rparr>) (rule_table (db_tables d))"
  using assms by (auto simp: reduce_access_defs access_put)

lemma reduce_access_delete:
  assumes "t \<in> {CORE_AUTHZ_GRANT_TEMPLATE, CORE_AUTHZ_GRANT, CORE_AUTHZ_GLOBAL_RULE}"
  shows "\<exists>d'. reduce env (DeleteMutation t i) d = Inr (DeleteMutation t i, d') \<and> db_log d' = db_log d \<and>
    template_table (db_tables d') = (if t = CORE_AUTHZ_GRANT_TEMPLATE then tbl_del i (template_table (db_tables d)) else template_table (db_tables d)) \<and>
    grant_table (db_tables d') = (if t = CORE_AUTHZ_GRANT then tbl_del i (grant_table (db_tables d)) else grant_table (db_tables d)) \<and>
    rule_table (db_tables d') = (if t = CORE_AUTHZ_GLOBAL_RULE then tbl_del i (rule_table (db_tables d)) else rule_table (db_tables d))"
  using assms by (auto simp: reduce_access_defs access_del)

lemma tbl_put_fresh: "\<forall>x \<in> fst ` set t. x < k \<Longrightarrow> tbl_put k v t = t @ [(k, v)]"
proof (induction t)
  case (Cons e t)
  then show ?case by (cases e) auto
qed simp

text \<open>A new id is past every row of its table.\<close>

lemma fresh_ids:
  assumes "db_inv d"
  shows "\<forall>x \<in> fst ` set (template_table (db_tables d)). x < counter CORE_AUTHZ_GRANT_TEMPLATE d"
    "\<forall>x \<in> fst ` set (grant_table (db_tables d)). x < counter CORE_AUTHZ_GRANT d"
    "\<forall>x \<in> fst ` set (rule_table (db_tables d)). x < counter CORE_AUTHZ_GLOBAL_RULE d"
proof -
  have k: "x < counter t d" if "x \<in> entity_keys t (db_tables d)" for t x using assms that by (simp add: db_inv_def)
  show "\<forall>x \<in> fst ` set (template_table (db_tables d)). x < counter CORE_AUTHZ_GRANT_TEMPLATE d"
    using k [where t = CORE_AUTHZ_GRANT_TEMPLATE] by (simp add: template_table_def entity_keys_def)
  show "\<forall>x \<in> fst ` set (grant_table (db_tables d)). x < counter CORE_AUTHZ_GRANT d"
    using k [where t = CORE_AUTHZ_GRANT] by (simp add: grant_table_def entity_keys_def)
  show "\<forall>x \<in> fst ` set (rule_table (db_tables d)). x < counter CORE_AUTHZ_GLOBAL_RULE d"
    using k [where t = CORE_AUTHZ_GLOBAL_RULE] by (simp add: rule_table_def entity_keys_def)
qed

lemma access_wf:
  assumes "db_inv d"
  shows "tbl_wf (template_table (db_tables d))" "tbl_wf (grant_table (db_tables d))" "tbl_wf (rule_table (db_tables d))"
  using assms by (simp_all add: db_inv_def tables_wf_def template_table_def grant_table_def rule_table_def entity_keyed_wf)

section \<open>The commits of the service\<close>

lemma NextEntityID_frame: "NextEntityID t d = (i, d1) \<Longrightarrow> db_log d1 = db_log d \<and> db_tables d1 = db_tables d"
  by (auto simp: NextEntityID_def split: option.splits)

lemma NextEntityID_counter: "NextEntityID t d = (i, d1) \<Longrightarrow> i = counter t d"
  by (auto simp: NextEntityID_def counter_def split: option.splits)

lemma wrote_steps: "d1 = d \<or> NextEntityID t d = (i, d1) \<Longrightarrow> tx_steps (wrote d empty_update) (wrote d1 (NewUpdate ms))"
  using NewUpdate_wrote alloc_NewUpdate by blast

definition committed :: "db \<Rightarrow> Mutation \<Rightarrow> db \<Rightarrow> bool" where
  "committed d m d' \<longleftrightarrow> db_inv d' \<and> db_log d' = db_log d @ [logged_event (db_global_seq d + 1) m]"

text \<open>The mutation \<open>m\<close> reduces without an error and leaves the access tables \<open>a\<close>.\<close>

definition reduces_to ::
  "CoreMutation \<Rightarrow> db \<Rightarrow> (nat, AuthzGrantTemplate) table \<times> (nat, AuthzGrant) table \<times> (nat, AuthzGlobalRule) table \<Rightarrow> bool" where
  "reduces_to m d a \<longleftrightarrow> (\<forall>env. \<exists>m' d2. reduce env m d = Inr (m', d2) \<and> (m' = m \<or> (\<exists>meta. m' = SetMeta meta m)) \<and>
     db_log d2 = db_log d \<and> access d2 = a)"

lemma reduces_template:
  "access d = (T, G, R) \<Longrightarrow> Kind m \<noteq> VERB_DELETE \<Longrightarrow> Type m = CORE_AUTHZ_GRANT_TEMPLATE \<Longrightarrow> Entity m = Some (EAuthzGrantTemplate t) \<Longrightarrow>
   reduces_to m d (tbl_put (EntityID m) (t\<lparr>tpl_ID := EntityID m\<rparr>) T, G, R)"
  using reduce_template [of m "EntityID m" t _ d] by (fastforce simp: reduces_to_def access_def)

lemma reduces_grant:
  "access d = (T, G, R) \<Longrightarrow> Kind m \<noteq> VERB_DELETE \<Longrightarrow> Type m = CORE_AUTHZ_GRANT \<Longrightarrow> Entity m = Some (EAuthzGrant g) \<Longrightarrow>
   reduces_to m d (T, tbl_put (EntityID m) (g\<lparr>grant_ID := EntityID m\<rparr>) G, R)"
  using reduce_grant [of m "EntityID m" g _ d] by (fastforce simp: reduces_to_def access_def)

lemma reduces_rule:
  "access d = (T, G, R) \<Longrightarrow> Kind m \<noteq> VERB_DELETE \<Longrightarrow> Type m = CORE_AUTHZ_GLOBAL_RULE \<Longrightarrow> Entity m = Some (EAuthzGlobalRule r) \<Longrightarrow>
   reduces_to m d (T, G, tbl_put (EntityID m) (r\<lparr>gr_ID := EntityID m\<rparr>) R)"
  using reduce_rule [of m "EntityID m" r _ d] by (fastforce simp: reduces_to_def access_def)

lemma reduces_delete:
  assumes "access d = (T, G, R)"
  shows "reduces_to (DeleteMutation CORE_AUTHZ_GRANT_TEMPLATE i) d (tbl_del i T, G, R)"
    "reduces_to (DeleteMutation CORE_AUTHZ_GRANT i) d (T, tbl_del i G, R)"
    "reduces_to (DeleteMutation CORE_AUTHZ_GLOBAL_RULE i) d (T, G, tbl_del i R)"
  using assms reduce_access_delete [of CORE_AUTHZ_GRANT_TEMPLATE _ i d] reduce_access_delete [of CORE_AUTHZ_GRANT _ i d]
    reduce_access_delete [of CORE_AUTHZ_GLOBAL_RULE _ i d] by (auto simp: reduces_to_def access_def)

context quiet_triggers
begin

lemma commit_access:
  assumes d: "db_inv d"
    and mut: "mutate d (db_global_seq d + 1) = Inr (r, wrote d1 (NewUpdate [m]))"
    and steps: "\<And>d seq r t. mutate d seq = Inr (r, t) \<Longrightarrow> tx_steps (wrote d empty_update) t"
    and "db_log d1 = db_log d" and "Type (Wire m) \<notin> scheduling_types"
    and red: "reduces_to (Wire m) d1 a"
  shows "\<exists>u d'. Commit triggers mutate d = Inr (r, Some u, d') \<and> committed d m d' \<and> access d' = a"
proof -
  obtain m' d2 where r: "reduce \<lparr>env_Seq = db_global_seq d + 1, env_EventTime = em_EventTime (mut_Meta m),
      env_Author = em_Author (mut_Meta m), env_Logged = None\<rparr> (Wire m) d1 = Inr (m', d2)"
    and m': "m' = Wire m \<or> (\<exists>meta. m' = SetMeta meta (Wire m))" and l: "db_log d2 = db_log d" and a: "access d2 = a"
    using red assms(4) unfolding reduces_to_def by metis
  have "Type m' = Type (Wire m)" "log_mutation m' = log_mutation (Wire m)" using m' by auto
  moreover have "\<forall>e \<in> set (db_log d2). we_seq e \<le> db_global_seq d" using d l by (simp add: db_inv_def)
  ultimately obtain u where c: "Commit triggers mutate d = Inr (r, Some u,
      d2\<lparr>db_log := db_log d2 @ [logged_event (db_global_seq d + 1) m], db_global_seq := db_global_seq d + 1\<rparr>)"
    using commit_single [where mutate = mutate, OF mut r assms(5)] by blast
  have "db_inv (d2\<lparr>db_log := db_log d2 @ [logged_event (db_global_seq d + 1) m], db_global_seq := db_global_seq d + 1\<rparr>)"
    by (rule store_clients.commit_inv(1) [OF clients c d]) (rule steps)
  with c l a show ?thesis by (auto simp: committed_def access_def)
qed

lemma commit_alloc:
  assumes "db_inv d" "NextEntityID t d = (i, d1)" "Type (Wire (M (db_global_seq d + 1) i)) \<notin> scheduling_types"
    and "reduces_to (Wire (M (db_global_seq d + 1) i)) d1 a"
  shows "\<exists>u d'. Commit triggers (\<lambda>d seq. let (i, d1) = NextEntityID t d in Inr (i, wrote d1 (NewUpdate [M seq i]))) d = Inr (i, Some u, d') \<and>
     committed d (M (db_global_seq d + 1) i) d' \<and> access d' = a"
proof (rule commit_access [where ?d1.0 = d1])
  show "tx_steps (wrote d empty_update) x" if "(let (i, d1) = NextEntityID t d in Inr (i, wrote d1 (NewUpdate [M seq i]))) = Inr (r, x)" for d seq r x
    using that by (auto simp: Let_def split: prod.splits intro: wrote_steps)
qed (use assms NextEntityID_frame [OF assms(2)] in auto)

lemma commit_plain:
  assumes "db_inv d" "mutate d (db_global_seq d + 1) = Inr (r, wrote d (NewUpdate [m]))"
    and "\<And>d seq r t. mutate d seq = Inr (r, t) \<Longrightarrow> tx_steps (wrote d empty_update) t"
    and "Type (Wire m) \<notin> scheduling_types" "reduces_to (Wire m) d a"
  shows "\<exists>u d'. Commit triggers mutate d = Inr (r, Some u, d') \<and> committed d m d' \<and> access d' = a"
  by (rule commit_access [where ?d1.0 = d]) (use assms in \<open>blast+\<close>)

lemmas access_mutation_defs = Wire_def AuthzGrantTemplateMutation_def AuthzGrantMutation_def AuthzGlobalRuleMutation_def
  entity_mutation_def delete_mutation_def authz_meta_def CreateMutationOf_def UpdateMutationOf_def DeleteMutationOf_def
  templateEntity_def scheduling_types_def

lemma alloc_access: "NextEntityID t d = (i, d1) \<Longrightarrow> access d1 = access d"
  by (simp add: access_def NextEntityID_frame)

lemma insertGrantTemplate_spec:
  assumes "db_inv d" "access d = (T, G, R)"
  shows "\<exists>u d' m. insertGrantTemplate triggers name spec author now d = Inr (counter CORE_AUTHZ_GRANT_TEMPLATE d, Some u, d') \<and>
    committed d m d' \<and>
    access d' = (T @ [(counter CORE_AUTHZ_GRANT_TEMPLATE d, templateEntity (counter CORE_AUTHZ_GRANT_TEMPLATE d) name False spec)], G, R)"
proof -
  obtain i d1 where n: "NextEntityID CORE_AUTHZ_GRANT_TEMPLATE d = (i, d1)" by fastforce
  let ?m = "AuthzGrantTemplateMutation (authz_meta (db_global_seq d + 1) now author VERB_CREATE) (templateEntity i name False spec)"
  note c = NextEntityID_counter [OF n]
  have "tbl_put i (templateEntity i name False spec) T = T @ [(i, templateEntity i name False spec)]"
    by (rule tbl_put_fresh) (use fresh_ids(1) [OF assms(1)] assms(2) c in \<open>simp add: access_def\<close>)
  then have "reduces_to (Wire ?m) d1 (T @ [(i, templateEntity i name False spec)], G, R)"
    using reduces_template [of d1 T G R "Wire ?m" "templateEntity i name False spec"] assms(2) alloc_access [OF n]
    by (simp add: access_mutation_defs)
  then show ?thesis unfolding insertGrantTemplate_def c [symmetric]
    using commit_alloc [OF assms(1) n, where M = "\<lambda>seq i. AuthzGrantTemplateMutation (authz_meta seq now author VERB_CREATE) (templateEntity i name False spec)"]
    by (fastforce simp: access_mutation_defs)
qed

lemma insertGrant_spec:
  assumes "db_inv d" "access d = (T, G, R)"
  shows "\<exists>u d' m. insertGrant triggers userID source author now d = Inr (counter CORE_AUTHZ_GRANT d, Some u, d') \<and>
    committed d m d' \<and>
    access d' = (T, G @ [(counter CORE_AUTHZ_GRANT d,
      \<lparr>grant_ID = counter CORE_AUTHZ_GRANT d, grant_UserID = userID, grant_Source = source\<rparr>)], R)"
proof -
  obtain i d1 where n: "NextEntityID CORE_AUTHZ_GRANT d = (i, d1)" by fastforce
  let ?g = "\<lambda>i. \<lparr>grant_ID = i, grant_UserID = userID, grant_Source = source\<rparr>"
  let ?m = "AuthzGrantMutation (authz_meta (db_global_seq d + 1) now author VERB_CREATE) i (?g i)"
  note c = NextEntityID_counter [OF n]
  have "tbl_put i (?g i) G = G @ [(i, ?g i)]"
    by (rule tbl_put_fresh) (use fresh_ids(2) [OF assms(1)] assms(2) c in \<open>simp add: access_def\<close>)
  then have "reduces_to (Wire ?m) d1 (T, G @ [(i, ?g i)], R)"
    using reduces_grant [of d1 T G R "Wire ?m" "?g i"] assms(2) alloc_access [OF n] by (simp add: access_mutation_defs)
  then show ?thesis unfolding insertGrant_def c [symmetric]
    using commit_alloc [OF assms(1) n, where M = "\<lambda>seq i. AuthzGrantMutation (authz_meta seq now author VERB_CREATE) i (?g i)"]
    by (fastforce simp: access_mutation_defs)
qed

lemma insertGlobalRule_spec:
  assumes "db_inv d" "access d = (T, G, R)"
  shows "\<exists>u d' m. insertGlobalRule triggers name rule author now d = Inr (counter CORE_AUTHZ_GLOBAL_RULE d, Some u, d') \<and>
    committed d m d' \<and>
    access d' = (T, G, R @ [(counter CORE_AUTHZ_GLOBAL_RULE d, \<lparr>gr_ID = counter CORE_AUTHZ_GLOBAL_RULE d, gr_Name = name, gr_Rule = rule\<rparr>)])"
proof -
  obtain i d1 where n: "NextEntityID CORE_AUTHZ_GLOBAL_RULE d = (i, d1)" by fastforce
  let ?r = "\<lambda>i. \<lparr>gr_ID = i, gr_Name = name, gr_Rule = rule\<rparr>"
  let ?m = "AuthzGlobalRuleMutation (authz_meta (db_global_seq d + 1) now author VERB_CREATE) (?r i)"
  note c = NextEntityID_counter [OF n]
  have "tbl_put i (?r i) R = R @ [(i, ?r i)]"
    by (rule tbl_put_fresh) (use fresh_ids(3) [OF assms(1)] assms(2) c in \<open>simp add: access_def\<close>)
  then have "reduces_to (Wire ?m) d1 (T, G, R @ [(i, ?r i)])"
    using reduces_rule [of d1 T G R "Wire ?m" "?r i"] assms(2) alloc_access [OF n] by (simp add: access_mutation_defs)
  then show ?thesis unfolding insertGlobalRule_def c [symmetric]
    using commit_alloc [OF assms(1) n, where M = "\<lambda>seq i. AuthzGlobalRuleMutation (authz_meta seq now author VERB_CREATE) (?r i)"]
    by (fastforce simp: access_mutation_defs)
qed

lemma template_get: "access d = (T, G, R) \<Longrightarrow> GetAuthzGrantTemplate i (db_tables d) = tbl_get T i"
  by (auto simp: GetAuthzGrantTemplate_def access_def template_table_def entity_keyed_get)

lemma grant_get: "access d = (T, G, R) \<Longrightarrow> GetAuthzGrant i (db_tables d) = tbl_get G i"
  by (auto simp: GetAuthzGrant_def access_def grant_table_def entity_keyed_get)

lemma rule_get: "access d = (T, G, R) \<Longrightarrow> GetAuthzGlobalRule i (db_tables d) = tbl_get R i"
  by (auto simp: GetAuthzGlobalRule_def access_def rule_table_def entity_keyed_get)

lemma row_ids:
  assumes "access d = (T, G, R)"
  shows "(i, t) \<in> set T \<Longrightarrow> tpl_ID t = i" "(i, g) \<in> set G \<Longrightarrow> grant_ID g = i" "(i, r) \<in> set R \<Longrightarrow> gr_ID r = i"
  using assms by (auto simp: access_def access_table_defs)

lemma updateGrantTemplate_spec:
  assumes "db_inv d" "access d = (T, G, R)" "tbl_get T i = Some prev"
  shows "\<exists>u d' m. updateGrantTemplate triggers i name spec author now d = Inr ((), Some u, d') \<and> committed d m d' \<and>
    access d' = (tbl_put i (templateEntity i name (tpl_Builtin prev) spec) T, G, R)"
proof -
  let ?m = "AuthzGrantTemplateMutation (authz_meta (db_global_seq d + 1) now author VERB_UPDATE) (templateEntity i name (tpl_Builtin prev) spec)"
  have "reduces_to (Wire ?m) d (tbl_put i (templateEntity i name (tpl_Builtin prev) spec) T, G, R)"
    using reduces_template [OF assms(2), of "Wire ?m" "templateEntity i name (tpl_Builtin prev) spec"] by (simp add: access_mutation_defs)
  then have "\<exists>u d'. updateGrantTemplate triggers i name spec author now d = Inr ((), Some u, d') \<and> committed d ?m d' \<and>
     access d' = (tbl_put i (templateEntity i name (tpl_Builtin prev) spec) T, G, R)" unfolding updateGrantTemplate_def
    by (intro commit_plain [OF assms(1)]) (auto simp: template_get [OF assms(2)] assms(3) access_mutation_defs split: option.splits intro: wrote_steps)
  then show ?thesis by blast
qed

lemma delete_specs:
  assumes "db_inv d" "access d = (T, G, R)"
  shows "tbl_get T i = Some t \<Longrightarrow> \<exists>u d' m. deleteGrantTemplate triggers i author now d = Inr ((), Some u, d') \<and> committed d m d' \<and> access d' = (tbl_del i T, G, R)"
    "tbl_get G i = Some g \<Longrightarrow> \<exists>u d' m. deleteGrant triggers i author now d = Inr ((), Some u, d') \<and> committed d m d' \<and> access d' = (T, tbl_del i G, R)"
    "tbl_get R i = Some r \<Longrightarrow> \<exists>u d' m. deleteGlobalRule triggers i author now d = Inr ((), Some u, d') \<and> committed d m d' \<and> access d' = (T, G, tbl_del i R)"
proof -
  let ?m = "\<lambda>t. delete_mutation (authz_meta (db_global_seq d + 1) now author 0) t i"
  have w: "Wire (?m t) = DeleteMutation t i" for t by (simp add: access_mutation_defs)
  show "\<exists>u d' m. deleteGrantTemplate triggers i author now d = Inr ((), Some u, d') \<and> committed d m d' \<and> access d' = (tbl_del i T, G, R)"
    if "tbl_get T i = Some t"
  proof -
    have "\<exists>u d'. deleteGrantTemplate triggers i author now d = Inr ((), Some u, d') \<and> committed d (?m CORE_AUTHZ_GRANT_TEMPLATE) d' \<and> access d' = (tbl_del i T, G, R)"
      unfolding deleteGrantTemplate_def
      by (intro commit_plain [OF assms(1)]) (use reduces_delete(1) [OF assms(2)] in \<open>auto simp: template_get [OF assms(2)] that w scheduling_types_def split: option.splits intro: wrote_steps\<close>)
    then show ?thesis by blast
  qed
  show "\<exists>u d' m. deleteGrant triggers i author now d = Inr ((), Some u, d') \<and> committed d m d' \<and> access d' = (T, tbl_del i G, R)"
    if "tbl_get G i = Some g"
  proof -
    have "\<exists>u d'. deleteGrant triggers i author now d = Inr ((), Some u, d') \<and> committed d (?m CORE_AUTHZ_GRANT) d' \<and> access d' = (T, tbl_del i G, R)"
      unfolding deleteGrant_def
      by (intro commit_plain [OF assms(1)]) (use reduces_delete(2) [OF assms(2)] in \<open>auto simp: grant_get [OF assms(2)] that w scheduling_types_def split: option.splits intro: wrote_steps\<close>)
    then show ?thesis by blast
  qed
  show "\<exists>u d' m. deleteGlobalRule triggers i author now d = Inr ((), Some u, d') \<and> committed d m d' \<and> access d' = (T, G, tbl_del i R)"
    if "tbl_get R i = Some r"
  proof -
    have "\<exists>u d'. deleteGlobalRule triggers i author now d = Inr ((), Some u, d') \<and> committed d (?m CORE_AUTHZ_GLOBAL_RULE) d' \<and> access d' = (T, G, tbl_del i R)"
      unfolding deleteGlobalRule_def
      by (intro commit_plain [OF assms(1)]) (use reduces_delete(3) [OF assms(2)] in \<open>auto simp: rule_get [OF assms(2)] that w scheduling_types_def split: option.splits intro: wrote_steps\<close>)
    then show ?thesis by blast
  qed
qed

text \<open>The two seeds of \<open>Open\<close> write what is missing and nothing otherwise.\<close>

lemma upsertBuiltin_spec:
  assumes "db_inv d" "access d = (T, G, R)"
    and b: "b' = templateEntity (tpl_ID b) (tpl_Name b) True (tpl_Spec b)"
  shows "\<exists>u d'. upsertBuiltinGrantTemplate triggers now b d = Inr ((), u, d') \<and> db_inv d' \<and>
    access d' = (tbl_put (tpl_ID b) b' T, G, R) \<and> (tbl_get T (tpl_ID b) = Some b' \<longrightarrow> d' = d) \<and> set (db_log d) \<subseteq> set (db_log d')"
proof (cases "tbl_get T (tpl_ID b) = Some b'")
  case True
  with b template_get [OF assms(2)] have "upsertBuiltinGrantTemplate triggers now b d = Inr ((), None, d)"
    unfolding upsertBuiltinGrantTemplate_def by (intro commit_nothing) (simp add: Let_def templateEntity_def)
  moreover have "tbl_put (tpl_ID b) b' T = T"
    by (rule tbl.put_same) (use access_wf(1) [OF assms(1)] assms(2) True in \<open>auto simp: access_def\<close>)
  ultimately show ?thesis using assms by simp
next
  case False
  have differ: "tpl_Name t \<noteq> tpl_Name b \<or> \<not> tpl_Builtin t \<or> tpl_Spec t \<noteq> tpl_Spec b" if "tbl_get T (tpl_ID b) = Some t" for t
    using row_ids(1) [OF assms(2) map_of_SomeD [OF that]] that False b by (cases t) (auto simp: templateEntity_def)
  define v where "v = (if tbl_get T (tpl_ID b) = None then VERB_CREATE else VERB_UPDATE)"
  have v: "v = VERB_CREATE \<or> v = VERB_UPDATE" by (simp add: v_def)
  let ?m = "AuthzGrantTemplateMutation (authz_meta (db_global_seq d + 1) now 0 v) b'"
  have "reduces_to (Wire ?m) d (tbl_put (tpl_ID b) b' T, G, R)"
    using reduces_template [OF assms(2), of "Wire ?m" b'] v b by (auto simp: access_mutation_defs)
  then have "\<exists>u d'. upsertBuiltinGrantTemplate triggers now b d = Inr ((), Some u, d') \<and> committed d ?m d' \<and>
     access d' = (tbl_put (tpl_ID b) b' T, G, R)" unfolding upsertBuiltinGrantTemplate_def
  proof (intro commit_plain [OF assms(1)])
    show "tx_steps (wrote d empty_update) t"
      if "(let write = \<lambda>verb. Inr ((), wrote d (NewUpdate [AuthzGrantTemplateMutation (authz_meta seq now 0 verb)
            (templateEntity (tpl_ID b) (tpl_Name b) True (tpl_Spec b))]))
          in case GetAuthzGrantTemplate (tpl_ID b) (db_tables d) of None \<Rightarrow> write VERB_CREATE
             | Some prev \<Rightarrow> if tpl_Name prev \<noteq> tpl_Name b \<or> \<not> tpl_Builtin prev \<or> tpl_Spec prev \<noteq> tpl_Spec b
                 then write VERB_UPDATE else Inr ((), wrote d empty_update)) = Inr (r, t)" for d seq r t
      using that by (auto simp: Let_def split: option.splits if_splits intro: wrote_steps tx_steps.start)
    show "Type (Wire ?m) \<notin> scheduling_types" using v b by (auto simp: access_mutation_defs)
    show "(let write = \<lambda>verb. Inr ((), wrote d (NewUpdate [AuthzGrantTemplateMutation (authz_meta (db_global_seq d + 1) now 0 verb)
            (templateEntity (tpl_ID b) (tpl_Name b) True (tpl_Spec b))]))
          in case GetAuthzGrantTemplate (tpl_ID b) (db_tables d) of None \<Rightarrow> write VERB_CREATE
             | Some prev \<Rightarrow> if tpl_Name prev \<noteq> tpl_Name b \<or> \<not> tpl_Builtin prev \<or> tpl_Spec prev \<noteq> tpl_Spec b
                 then write VERB_UPDATE else Inr ((), wrote d empty_update)) = Inr ((), wrote d (NewUpdate [?m]))"
      using differ by (auto simp: v_def b template_get [OF assms(2)] Let_def split: option.splits)
  qed
  with False show ?thesis by (auto simp: committed_def)
qed

lemma ever_logged_committed:
  assumes "committed d m d'"
  shows "AuthzGlobalRuleNameEverLogged name d' \<longleftrightarrow> AuthzGlobalRuleNameEverLogged name d \<or>
    (Type (Wire m) = CORE_AUTHZ_GLOBAL_RULE \<and> (case Entity (Wire m) of Some (EAuthzGlobalRule r) \<Rightarrow> gr_Name r = name | _ \<Rightarrow> False))"
  using assms by (auto simp: committed_def AuthzGlobalRuleNameEverLogged_def logged_event_def log_mutation_def)

lemma seedGlobalRule_spec:
  assumes "db_inv d" "access d = (T, G, R)"
  defines "i \<equiv> counter CORE_AUTHZ_GLOBAL_RULE d"
  shows "\<exists>u d'. seedGlobalRule triggers name rule now d = Inr ((), u, d') \<and> db_inv d' \<and> AuthzGlobalRuleNameEverLogged name d' \<and>
    set (db_log d) \<subseteq> set (db_log d') \<and>
    (if AuthzGlobalRuleNameEverLogged name d then d' = d
     else access d' = (T, G, R @ [(i, \<lparr>gr_ID = i, gr_Name = name, gr_Rule = rule\<rparr>)]))"
proof (cases "AuthzGlobalRuleNameEverLogged name d")
  case True
  then have "seedGlobalRule triggers name rule now d = Inr ((), None, d)"
    unfolding seedGlobalRule_def by (intro commit_nothing) simp
  with True assms show ?thesis by simp
next
  case False
  obtain d1 where n: "NextEntityID CORE_AUTHZ_GLOBAL_RULE d = (i, d1)"
    using NextEntityID_counter unfolding i_def by (metis surj_pair)
  let ?r = "\<lparr>gr_ID = i, gr_Name = name, gr_Rule = rule\<rparr>"
  let ?m = "AuthzGlobalRuleMutation (authz_meta (db_global_seq d + 1) now 0 VERB_CREATE) ?r"
  have "tbl_put i ?r R = R @ [(i, ?r)]"
    by (rule tbl_put_fresh) (use fresh_ids(3) [OF assms(1)] assms(2) in \<open>simp add: access_def i_def\<close>)
  then have red: "reduces_to (Wire ?m) d1 (T, G, R @ [(i, ?r)])"
    using reduces_rule [of d1 T G R "Wire ?m" ?r] assms(2) alloc_access [OF n] by (simp add: access_mutation_defs)
  have "\<exists>u d'. seedGlobalRule triggers name rule now d = Inr ((), Some u, d') \<and> committed d ?m d' \<and> access d' = (T, G, R @ [(i, ?r)])"
    unfolding seedGlobalRule_def
    by (rule commit_access [OF assms(1), where ?d1.0 = d1])
      (use False n red NextEntityID_frame [OF n] in \<open>auto simp: access_mutation_defs split: if_splits prod.splits intro: wrote_steps tx_steps.start\<close>)
  then obtain u d' where "seedGlobalRule triggers name rule now d = Inr ((), Some u, d')" "committed d ?m d'" "access d' = (T, G, R @ [(i, ?r)])"
    by blast
  moreover from this(2) have "AuthzGlobalRuleNameEverLogged name d'"
    by (simp add: ever_logged_committed access_mutation_defs)
  ultimately show ?thesis using False by (auto simp: committed_def)
qed

end

end
