(* ===== verification/Authz_Service.thy ===== *)
theory Authz_Service
  imports Authz_Store
begin

text \<open>
  The access-control service of \<open>backend/app/primary/domain/authz\<close>: the built-in templates
  (\<open>builtin.go\<close>), the service with its caches and every operation of \<open>authz.go\<close>, the admin
  guard of \<open>evaluate.go\<close> and the reference count of \<open>space_refs.go\<close>. The Go maps are tables in
  key order; where the code ranges over one, the order decides only which of several errors is
  reported. The mutex is the order of the operations. \<open>now\<close> is the clock in milliseconds.
\<close>

section \<open>Built-in templates\<close>

definition ClusterAdminTemplateID :: nat where "ClusterAdminTemplateID = 1"
definition SpaceAdminTemplateID :: nat where "SpaceAdminTemplateID = 2"
definition spaceAdminSpacesArgID :: nat where "spaceAdminSpacesArgID = 1"
definition DefaultUserVisibilityRuleName :: string where "DefaultUserVisibilityRuleName = ''default_user_visibility''"

definition allow :: "bool \<Rightarrow> AuthzEffect" where
  "allow delegationAllowed = \<lparr>Allow = Some delegationAllowed, Deny = None\<rparr>"

text \<open>\<open>exactVerbs\<close>, \<open>exactSpaces\<close>, \<open>exactEntityTypes\<close> and their \<open>all...Excluding\<close> counterparts.\<close>

definition exact :: "'a list \<Rightarrow> 'a position" where
  "exact vs = \<lparr>Exact = some_maybe vs, AllExcluding = absent []\<rparr>"

definition all_excluding :: "'a list \<Rightarrow> 'a position" where
  "all_excluding vs = \<lparr>Exact = absent [], AllExcluding = some_maybe vs\<rparr>"

definition literal :: "'a position \<Rightarrow> 'a template_position" where
  "literal sel = \<lparr>Argument = None, Selector = Some sel\<rparr>"

definition templateSpacesArgument :: "nat \<Rightarrow> nat template_position" where
  "templateSpacesArgument i = \<lparr>Argument = Some i, Selector = None\<rparr>"

definition defaultUserVisibilityRule :: AuthzRule where
  "defaultUserVisibilityRule =
    \<lparr>rule_Effect = allow True,
     rule_Selector = \<lparr>sel_Permissions = exact [VERB_VIEW], sel_Spaces = exact [0],
       sel_EntityTypes = exact [KIND_USER], sel_EntityRefs = all_excluding []\<rparr>\<rparr>"

definition withoutHostAccess :: AuthzPermissionSelector where
  "withoutHostAccess = all_excluding [VERB_USE_HOST_MOUNTS, VERB_USE_HOST_NETWORK]"

definition agentPerms :: AuthzPermissionSelector where
  "agentPerms = all_excluding [VERB_USE_HOST_MOUNTS, VERB_USE_HOST_NETWORK, VERB_VIEW_LOGS]"

definition delegableRules :: "nat template_position \<Rightarrow> AuthzTemplateRule list" where
  "delegableRules sp =
    [\<lparr>trule_Effect = allow True, trule_Selector = \<lparr>tsel_Permissions = literal agentPerms, tsel_Spaces = sp,
        tsel_EntityTypes = literal (all_excluding [KIND_SECRET]), tsel_EntityRefs = literal (all_excluding [])\<rparr>\<rparr>,
     \<lparr>trule_Effect = allow True, trule_Selector = \<lparr>tsel_Permissions = literal (exact [VERB_VIEW, VERB_CREATE]), tsel_Spaces = sp,
        tsel_EntityTypes = literal (exact [KIND_SECRET]), tsel_EntityRefs = literal (all_excluding [])\<rparr>\<rparr>]"

definition templateRules :: "AuthzPermissionSelector \<Rightarrow> nat template_position \<Rightarrow> nat template_position \<Rightarrow> AuthzTemplateRule list" where
  "templateRules operatorPermissions operatorSpaces delegableSpaces =
    \<lparr>trule_Effect = allow False, trule_Selector = \<lparr>tsel_Permissions = literal operatorPermissions, tsel_Spaces = operatorSpaces,
        tsel_EntityTypes = literal (all_excluding []), tsel_EntityRefs = literal (all_excluding [])\<rparr>\<rparr>
    # delegableRules delegableSpaces"

definition builtinTemplates :: "AuthzGrantTemplate list" where
  "builtinTemplates =
    [\<lparr>tpl_ID = ClusterAdminTemplateID, tpl_Name = ''cluster_admin'', tpl_Builtin = True,
      tpl_Spec = \<lparr>Arguments = [],
        Rules = templateRules (all_excluding []) (literal (all_excluding [])) (literal (all_excluding [0]))\<rparr>\<rparr>,
     \<lparr>tpl_ID = SpaceAdminTemplateID, tpl_Name = ''space_admin'', tpl_Builtin = True,
      tpl_Spec = \<lparr>Arguments = [\<lparr>arg_ID = spaceAdminSpacesArgID, arg_Name = ''spaces'', arg_Kind = ARG_SPACE\<rparr>],
        Rules = templateRules withoutHostAccess (templateSpacesArgument spaceAdminSpacesArgID)
                  (templateSpacesArgument spaceAdminSpacesArgID)\<rparr>\<rparr>]"

section \<open>The service\<close>

record Service =
  svc_db :: db
  svc_templates :: "(nat, AuthzGrantTemplate) table"
  svc_grantsByUser :: "(nat, AuthzGrant list) table"
  svc_globalRules :: "AuthzGlobalRule list"

datatype svc_error = AuthzErr authz_error | StoreErr store_error

definition on_store :: "store_error + 'a \<Rightarrow> ('a \<Rightarrow> svc_error + 'b) \<Rightarrow> svc_error + 'b" where
  "on_store r k = (case r of Inl e \<Rightarrow> Inl (StoreErr e) | Inr x \<Rightarrow> k x)"

definition sortByID :: "('a \<Rightarrow> nat) \<Rightarrow> 'a list \<Rightarrow> 'a list" where
  "sortByID i xs = sort_key i xs"

definition grantsOf :: "Service \<Rightarrow> nat \<Rightarrow> AuthzGrant list" where
  "grantsOf s userID = (case tbl_get (svc_grantsByUser s) userID of None \<Rightarrow> [] | Some gs \<Rightarrow> gs)"

definition all_grants :: "Service \<Rightarrow> AuthzGrant list" where
  "all_grants s = concat (map snd (svc_grantsByUser s))"

definition append_grant :: "AuthzGrant \<Rightarrow> (nat, AuthzGrant list) table \<Rightarrow> (nat, AuthzGrant list) table" where
  "append_grant g m = tbl_put (grant_UserID g) ((case tbl_get m (grant_UserID g) of None \<Rightarrow> [] | Some gs \<Rightarrow> gs) @ [g]) m"

definition Open :: "trigger list \<Rightarrow> int \<Rightarrow> db \<Rightarrow> svc_error + Service" where
  "Open triggers now d =
    bindE (foldE (\<lambda>b d. on_store (upsertBuiltinGrantTemplate triggers now b d) (\<lambda>(_, _, d'). Inr d')) builtinTemplates d) (\<lambda>d1.
      let tpls = fold (\<lambda>t m. tbl_put (tpl_ID t) t m) (ListAuthzGrantTemplates (db_tables d1)) [];
          byUser = map (\<lambda>(u, gs). (u, sortByID grant_ID gs)) (fold append_grant (ListAuthzGrants (db_tables d1)) [])
      in on_store (seedGlobalRule triggers DefaultUserVisibilityRuleName defaultUserVisibilityRule now d1) (\<lambda>(_, _, d2).
        Inr \<lparr>svc_db = d2, svc_templates = tpls, svc_grantsByUser = byUser,
             svc_globalRules = sortByID gr_ID (ListAuthzGlobalRules (db_tables d2))\<rparr>))"

definition HasAccess :: "Service \<Rightarrow> nat \<Rightarrow> RequestedAccess \<Rightarrow> bool" where
  "HasAccess s userID req =
    (if req_Verb req = VERB_UNSPECIFIED \<or> req_EntityType req = KIND_UNSPECIFIED \<or> \<not> SystemSpaceAllows req then False
     else if req_EntityType req \<noteq> KIND_ACCESS \<and>
             (list_ex (\<lambda>r. ruleMatches (gr_Rule r) req True) (svc_globalRules s) \<or>
              list_ex (\<lambda>g. grantMatchesLocked (svc_templates s) g req True) (grantsOf s userID)) then False
     else if list_ex (\<lambda>g. grantMatchesLocked (svc_templates s) g req False) (grantsOf s userID) then True
     else list_ex (\<lambda>r. ruleMatches (gr_Rule r) req False) (svc_globalRules s))"

definition SpaceVisible :: "Service \<Rightarrow> nat \<Rightarrow> nat \<Rightarrow> bool \<Rightarrow> bool" where
  "SpaceVisible s userID spaceID delegated =
    (if HasAccess s userID \<lparr>req_Verb = VERB_VIEW, req_SpaceID = spaceID, req_EntityType = KIND_SPACE,
          req_EntityID = spaceID, req_Delegated = delegated\<rparr> then True
     else if list_ex (\<lambda>g. grantTouchesSpaceLocked (svc_templates s) g spaceID delegated) (grantsOf s userID) then True
     else list_ex (\<lambda>r. allowTouchesSpace (rule_Effect (gr_Rule r)) delegated \<and>
            spaceMatches (sel_Spaces (rule_Selector (gr_Rule r))) spaceID) (svc_globalRules s))"

definition templateNameTakenLocked :: "Service \<Rightarrow> string \<Rightarrow> nat \<Rightarrow> bool" where
  "templateNameTakenLocked s name excludeID = list_ex (\<lambda>(_, t). tpl_ID t \<noteq> excludeID \<and> tpl_Name t = name) (svc_templates s)"

definition adminAccess :: RequestedAccess where
  "adminAccess = \<lparr>req_Verb = VERB_CREATE, req_SpaceID = 0, req_EntityType = KIND_ACCESS, req_EntityID = 0, req_Delegated = False\<rparr>"

definition otherAdminGrantExistsLocked :: "Service \<Rightarrow> nat \<Rightarrow> bool" where
  "otherAdminGrantExistsLocked s excludeGrantID =
    list_ex (\<lambda>g. grant_ID g \<noteq> excludeGrantID \<and> grantMatchesLocked (svc_templates s) g adminAccess False) (all_grants s)"

definition CreateGrantTemplate ::
  "trigger list \<Rightarrow> int \<Rightarrow> string \<Rightarrow> AuthzGrantTemplateSpec option \<Rightarrow> int \<Rightarrow> Service \<Rightarrow> svc_error + AuthzGrantTemplate \<times> Service" where
  "CreateGrantTemplate triggers now name spec author s =
    (case validateTemplate name spec of Some e \<Rightarrow> Inl (AuthzErr e)
     | None \<Rightarrow> if templateNameTakenLocked s name 0 then Inl (AuthzErr ErrNameTaken)
       else on_store (insertGrantTemplate triggers name (the spec) author now (svc_db s)) (\<lambda>(i, _, d').
         let rec = templateEntity i name False (the spec)
         in Inr (rec, s\<lparr>svc_db := d', svc_templates := tbl_put i rec (svc_templates s)\<rparr>)))"

definition UpdateGrantTemplate ::
  "trigger list \<Rightarrow> int \<Rightarrow> nat \<Rightarrow> string \<Rightarrow> AuthzGrantTemplateSpec option \<Rightarrow> int \<Rightarrow> Service \<Rightarrow> svc_error + AuthzGrantTemplate \<times> Service" where
  "UpdateGrantTemplate triggers now i name spec author s =
    (case validateTemplate name spec of Some e \<Rightarrow> Inl (AuthzErr e)
     | None \<Rightarrow> (case tbl_get (svc_templates s) i of None \<Rightarrow> Inl (AuthzErr ErrNotFound)
       | Some existing \<Rightarrow>
          if tpl_Builtin existing then Inl (AuthzErr ErrBuiltin)
          else if templateNameTakenLocked s name i then Inl (AuthzErr ErrNameTaken)
          else let rec = existing\<lparr>tpl_Name := name, tpl_Spec := the spec\<rparr>
            in (case find_err (\<lambda>g. case src_Template (grant_Source g) of None \<Rightarrow> None
                    | Some tg \<Rightarrow> if tg_TemplateID tg \<noteq> i then None
                                else wrap_err (Wrapped (CUpdateInvalidates (grant_ID g))) (validateArgs rec (tg_Args tg)))
                  (all_grants s) of
                Some e \<Rightarrow> Inl (AuthzErr e)
              | None \<Rightarrow> on_store (updateGrantTemplate triggers i name (tpl_Spec rec) author now (svc_db s)) (\<lambda>(_, _, d').
                  Inr (rec, s\<lparr>svc_db := d', svc_templates := tbl_put i rec (svc_templates s)\<rparr>)))))"

definition DeleteGrantTemplate :: "trigger list \<Rightarrow> int \<Rightarrow> nat \<Rightarrow> int \<Rightarrow> Service \<Rightarrow> svc_error + Service" where
  "DeleteGrantTemplate triggers now i author s =
    (case tbl_get (svc_templates s) i of None \<Rightarrow> Inl (AuthzErr ErrNotFound)
     | Some existing \<Rightarrow>
        if tpl_Builtin existing then Inl (AuthzErr ErrBuiltin)
        else if list_ex (\<lambda>g. case src_Template (grant_Source g) of None \<Rightarrow> False | Some tg \<Rightarrow> tg_TemplateID tg = i) (all_grants s)
        then Inl (AuthzErr ErrTemplateInUse)
        else on_store (deleteGrantTemplate triggers i author now (svc_db s)) (\<lambda>(_, _, d').
          Inr (s\<lparr>svc_db := d', svc_templates := tbl_del i (svc_templates s)\<rparr>)))"

definition GrantTemplate :: "nat \<Rightarrow> Service \<Rightarrow> svc_error + AuthzGrantTemplate" where
  "GrantTemplate i s = (case tbl_get (svc_templates s) i of None \<Rightarrow> Inl (AuthzErr ErrNotFound) | Some t \<Rightarrow> Inr t)"

definition GrantTemplates :: "Service \<Rightarrow> AuthzGrantTemplate list" where
  "GrantTemplates s = sortByID tpl_ID (map snd (svc_templates s))"

definition CreateGrant :: "trigger list \<Rightarrow> int \<Rightarrow> AuthzGrant option \<Rightarrow> int \<Rightarrow> Service \<Rightarrow> svc_error + AuthzGrant \<times> Service" where
  "CreateGrant triggers now g author s =
    (case g of None \<Rightarrow> Inl (AuthzErr (Invalid GrantNeedsUser))
     | Some g \<Rightarrow>
        if grant_UserID g = 0 then Inl (AuthzErr (Invalid GrantNeedsUser))
        else if selected (src_Rule (grant_Source g)) + selected (src_Template (grant_Source g)) \<noteq> 1
        then Inl (AuthzErr (Invalid GrantNotExactlyOne))
        else (case (case src_Rule (grant_Source g) of
              Some rule \<Rightarrow> wrap_err (Wrapped CGrantRule) (validateRule (Some rule))
            | None \<Rightarrow> (case src_Template (grant_Source g) of None \<Rightarrow> None
                | Some tg \<Rightarrow> (case tbl_get (svc_templates s) (tg_TemplateID tg) of
                      None \<Rightarrow> Some (Wrapped (CGrantTemplate (tg_TemplateID tg)) ErrNotFound)
                    | Some t \<Rightarrow> validateArgs t (tg_Args tg)))) of
            Some e \<Rightarrow> Inl (AuthzErr e)
          | None \<Rightarrow> on_store (insertGrant triggers (grant_UserID g) (grant_Source g) author now (svc_db s)) (\<lambda>(i, _, d').
              let rec = g\<lparr>grant_ID := i\<rparr>
              in Inr (rec, s\<lparr>svc_db := d', svc_grantsByUser := append_grant rec (svc_grantsByUser s)\<rparr>))))"

definition DeleteGrant :: "trigger list \<Rightarrow> int \<Rightarrow> nat \<Rightarrow> nat \<Rightarrow> int \<Rightarrow> Service \<Rightarrow> svc_error + Service" where
  "DeleteGrant triggers now userID i author s =
    (let grants = grantsOf s userID in
     case find_index (\<lambda>g. grant_ID g = i) grants of
       None \<Rightarrow> Inl (AuthzErr ErrNotFound)
     | Some idx \<Rightarrow>
        if grantMatchesLocked (svc_templates s) (grants ! idx) adminAccess False \<and> \<not> otherAdminGrantExistsLocked s i
        then Inl (AuthzErr ErrLastAdmin)
        else on_store (deleteGrant triggers i author now (svc_db s)) (\<lambda>(_, _, d').
          let remaining = remove_at idx grants
          in Inr (s\<lparr>svc_db := d', svc_grantsByUser :=
               (if remaining = [] then tbl_del userID (svc_grantsByUser s)
                else tbl_put userID remaining (svc_grantsByUser s))\<rparr>)))"

definition Grant :: "nat \<Rightarrow> nat \<Rightarrow> Service \<Rightarrow> svc_error + AuthzGrant" where
  "Grant userID i s = (case find (\<lambda>g. grant_ID g = i) (grantsOf s userID) of
     None \<Rightarrow> Inl (AuthzErr ErrNotFound) | Some g \<Rightarrow> Inr g)"

definition GrantsForUser :: "nat \<Rightarrow> Service \<Rightarrow> AuthzGrant list" where
  "GrantsForUser userID s = grantsOf s userID"

definition Grants :: "Service \<Rightarrow> AuthzGrant list" where
  "Grants s = sortByID grant_ID (all_grants s)"

definition CreateGlobalRule ::
  "trigger list \<Rightarrow> int \<Rightarrow> string \<Rightarrow> AuthzRule option \<Rightarrow> int \<Rightarrow> Service \<Rightarrow> svc_error + AuthzGlobalRule \<times> Service" where
  "CreateGlobalRule triggers now name rule author s =
    (case validateGlobalRule name rule of Some e \<Rightarrow> Inl (AuthzErr e)
     | None \<Rightarrow> on_store (insertGlobalRule triggers name (the rule) author now (svc_db s)) (\<lambda>(i, _, d').
         let rec = \<lparr>gr_ID = i, gr_Name = name, gr_Rule = the rule\<rparr>
         in Inr (rec, s\<lparr>svc_db := d', svc_globalRules := svc_globalRules s @ [rec]\<rparr>)))"

definition DeleteGlobalRule :: "trigger list \<Rightarrow> int \<Rightarrow> nat \<Rightarrow> int \<Rightarrow> Service \<Rightarrow> svc_error + Service" where
  "DeleteGlobalRule triggers now i author s =
    (case find_index (\<lambda>r. gr_ID r = i) (svc_globalRules s) of
       None \<Rightarrow> Inl (AuthzErr ErrNotFound)
     | Some idx \<Rightarrow> on_store (deleteGlobalRule triggers i author now (svc_db s)) (\<lambda>(_, _, d').
         Inr (s\<lparr>svc_db := d', svc_globalRules := remove_at idx (svc_globalRules s)\<rparr>)))"

definition GlobalRule :: "nat \<Rightarrow> Service \<Rightarrow> svc_error + AuthzGlobalRule" where
  "GlobalRule i s = (case find (\<lambda>r. gr_ID r = i) (svc_globalRules s) of
     None \<Rightarrow> Inl (AuthzErr ErrNotFound) | Some r \<Rightarrow> Inr r)"

definition GlobalRules :: "Service \<Rightarrow> AuthzGlobalRule list" where
  "GlobalRules s = svc_globalRules s"

section \<open>References to a space\<close>

record SpaceReferences =
  refs_Grants :: nat
  refs_Templates :: nat
  refs_GlobalRules :: nat

definition entityRefsNameSpace :: "AuthzEntityRef list \<Rightarrow> nat \<Rightarrow> bool" where
  "entityRefsNameSpace refs spaceID = list_ex (\<lambda>r. ref_Space r = Some spaceID) refs"

definition spaceSelectorNamesSpace :: "AuthzSpaceSelector \<Rightarrow> nat \<Rightarrow> bool" where
  "spaceSelectorNamesSpace sel spaceID \<longleftrightarrow> spaceID \<in> set (Value (Exact sel)) \<or> spaceID \<in> set (Value (AllExcluding sel))"

definition entityRefSelectorNamesSpace :: "AuthzEntityRefSelector \<Rightarrow> nat \<Rightarrow> bool" where
  "entityRefSelectorNamesSpace sel spaceID \<longleftrightarrow>
    entityRefsNameSpace (Value (Exact sel)) spaceID \<or> entityRefsNameSpace (Value (AllExcluding sel)) spaceID"

definition selectorNamesSpace :: "AuthzSelector \<Rightarrow> nat \<Rightarrow> bool" where
  "selectorNamesSpace sel spaceID \<longleftrightarrow>
    spaceSelectorNamesSpace (sel_Spaces sel) spaceID \<or> entityRefSelectorNamesSpace (sel_EntityRefs sel) spaceID"

definition templateSelectorNamesSpace :: "AuthzTemplateSelector \<Rightarrow> nat \<Rightarrow> bool" where
  "templateSelectorNamesSpace sel spaceID \<longleftrightarrow>
    (case Selector (tsel_Spaces sel) of None \<Rightarrow> False | Some p \<Rightarrow> spaceSelectorNamesSpace p spaceID) \<or>
    (case Selector (tsel_EntityRefs sel) of None \<Rightarrow> False | Some p \<Rightarrow> entityRefSelectorNamesSpace p spaceID)"

definition grantNamesSpace :: "AuthzGrantSource \<Rightarrow> nat \<Rightarrow> bool" where
  "grantNamesSpace source spaceID =
    (case src_Rule source of
       Some rule \<Rightarrow> selectorNamesSpace (rule_Selector rule) spaceID
     | None \<Rightarrow> (case src_Template source of None \<Rightarrow> False
        | Some tg \<Rightarrow> list_ex (\<lambda>b.
            (case val_Spaces (bind_Values b) of None \<Rightarrow> False | Some vs \<Rightarrow> spaceID \<in> set vs) \<or>
            (case val_EntityRefs (bind_Values b) of None \<Rightarrow> False | Some rs \<Rightarrow> entityRefsNameSpace rs spaceID)) (tg_Args tg)))"

definition CountSpaceReferences :: "nat \<Rightarrow> tables \<Rightarrow> SpaceReferences" where
  "CountSpaceReferences spaceID ts =
    \<lparr>refs_Grants = length (filter (\<lambda>g. grantNamesSpace (grant_Source g) spaceID) (ListAuthzGrants ts)),
     refs_Templates = length (filter (\<lambda>t. list_ex (\<lambda>r. templateSelectorNamesSpace (trule_Selector r) spaceID) (Rules (tpl_Spec t)))
        (ListAuthzGrantTemplates ts)),
     refs_GlobalRules = length (filter (\<lambda>r. selectorNamesSpace (rule_Selector (gr_Rule r)) spaceID) (ListAuthzGlobalRules ts))\<rparr>"

end
