(* ===== verification/Authz_Policy.thy ===== *)
theory Authz_Policy
  imports Authz_Service
begin

text \<open>
  What the service decides. A rule denotes the set of requests its selector names; a user is
  granted the union of the allows of their grants and of the global rules, and denied the union of
  the denies. \<open>HasAccess\<close> is the deny-overrides policy over those two sets, behind the fence of
  space 0, with the carve-out that a deny never reaches access management. The built-in templates
  are read off as the requests they allow a person and an agent session.
\<close>

section \<open>The reference policy\<close>

type_synonym request_key = "AuthzVerb \<times> nat \<times> AuthzEntityKind \<times> nat"

definition request_key :: "RequestedAccess \<Rightarrow> request_key" where
  "request_key req = (req_Verb req, req_SpaceID req, req_EntityType req, req_EntityID req)"

definition rule_requests :: "AuthzRule \<Rightarrow> request_key set" where
  "rule_requests r = {(v, sp, k, i).
     v \<in> position_set (\<lambda>v. {v}) (sel_Permissions (rule_Selector r)) \<and>
     sp \<in> position_set (\<lambda>v. {v}) (sel_Spaces (rule_Selector r)) \<and>
     k \<in> position_set (\<lambda>v. {v}) (sel_EntityTypes (rule_Selector r)) \<and>
     (k, i) \<in> position_set ref_keys (sel_EntityRefs (rule_Selector r))}"

definition effective_rules :: "Service \<Rightarrow> nat \<Rightarrow> AuthzRule list" where
  "effective_rules s userID =
    concat (map (grant_rules (svc_templates s)) (grantsOf s userID)) @ map gr_Rule (svc_globalRules s)"

text \<open>A delegated session gets the allows marked for delegation and every deny; a person gets
  every allow and the denies that are not for delegated sessions only.\<close>

definition granted :: "Service \<Rightarrow> nat \<Rightarrow> bool \<Rightarrow> request_key set" where
  "granted s userID delegated =
    \<Union> (rule_requests ` {r \<in> set (effective_rules s userID). \<exists>ok. Allow (rule_Effect r) = Some ok \<and> (delegated \<longrightarrow> ok)})"

definition denied :: "Service \<Rightarrow> nat \<Rightarrow> bool \<Rightarrow> request_key set" where
  "denied s userID delegated =
    \<Union> (rule_requests ` {r \<in> set (effective_rules s userID). \<exists>only. Deny (rule_Effect r) = Some only \<and> (only \<longrightarrow> delegated)})"

lemma entity_refs_matches: "entityRefMatches sel k i \<longleftrightarrow> (k, i) \<in> position_set ref_keys sel"
  using entity_refs.matches_set [of sel "(k, i)"] by simp

lemma selectorMatches_requests: "selectorMatches (rule_Selector r) req \<longleftrightarrow> request_key req \<in> rule_requests r"
  by (simp add: selectorMatches_def rule_requests_def request_key_def verbs.matches_set spaces.matches_set
      entity_types.matches_set entity_refs_matches)

lemma ruleMatches_requests:
  "ruleMatches r req deny \<longleftrightarrow> request_key req \<in> rule_requests r \<and>
    (if deny then \<exists>only. Deny (rule_Effect r) = Some only \<and> (only \<longrightarrow> req_Delegated req)
     else \<exists>ok. Allow (rule_Effect r) = Some ok \<and> (req_Delegated req \<longrightarrow> ok))"
  by (auto simp: ruleMatches_def effectMatches_def selectorMatches_requests split: option.splits)

lemma matches_effective:
  "(list_ex (\<lambda>g. grantMatchesLocked (svc_templates s) g req deny) (grantsOf s userID) \<or>
    list_ex (\<lambda>r. ruleMatches (gr_Rule r) req deny) (svc_globalRules s)) \<longleftrightarrow>
   (\<exists>r \<in> set (effective_rules s userID). ruleMatches r req deny)"
  by (auto simp: list_ex_iff grantMatchesLocked_rules effective_rules_def)

lemma granted_iff: "request_key req \<in> granted s userID (req_Delegated req) \<longleftrightarrow> (\<exists>r \<in> set (effective_rules s userID). ruleMatches r req False)"
  by (auto simp: granted_def ruleMatches_requests)

lemma denied_iff: "request_key req \<in> denied s userID (req_Delegated req) \<longleftrightarrow> (\<exists>r \<in> set (effective_rules s userID). ruleMatches r req True)"
  by (auto simp: denied_def ruleMatches_requests)

section \<open>Properties\<close>

text \<open>
  C5. \<open>HasAccess\<close> is the deny-overrides policy: a well-formed request outside the fence of space 0
  is allowed exactly when some allow of the user's grants (with template arguments resolved) or of
  the global rules names it and no deny does, except that denies are ignored for the access entity.
\<close>

theorem HasAccess_policy:
  "HasAccess s userID req \<longleftrightarrow>
    req_Verb req \<noteq> VERB_UNSPECIFIED \<and> req_EntityType req \<noteq> KIND_UNSPECIFIED \<and> SystemSpaceAllows req \<and>
    request_key req \<in> granted s userID (req_Delegated req) \<and>
    \<not> (req_EntityType req \<noteq> KIND_ACCESS \<and> request_key req \<in> denied s userID (req_Delegated req))"
  unfolding granted_iff denied_iff matches_effective [symmetric] HasAccess_def by auto

text \<open>
  C19. Whoever can do anything in a space sees that space: every allowed request makes its space
  visible to the same user in the same mode, delegated or not.
\<close>

theorem HasAccess_space_visible:
  assumes "HasAccess s userID req"
  shows "SpaceVisible s userID (req_SpaceID req) (req_Delegated req)"
proof -
  from assms have "(\<exists>g \<in> set (grantsOf s userID). \<exists>r \<in> set (grant_rules (svc_templates s) g). ruleMatches r req False) \<or>
      (\<exists>r \<in> set (svc_globalRules s). ruleMatches (gr_Rule r) req False)"
    unfolding HasAccess_def by (auto simp: list_ex_iff grantMatchesLocked_rules split: if_splits)
  then show ?thesis
    by (auto simp: SpaceVisible_def list_ex_iff grantTouchesSpaceLocked_rules dest!: allow_match_touches_space)
qed

section \<open>The built-in templates\<close>

definition cluster_admin_grant :: "nat \<Rightarrow> nat \<Rightarrow> AuthzGrant" where
  "cluster_admin_grant i userID = \<lparr>grant_ID = i, grant_UserID = userID, grant_Source =
     \<lparr>src_Rule = None, src_Template = Some \<lparr>tg_TemplateID = ClusterAdminTemplateID, tg_Args = []\<rparr>\<rparr>\<rparr>"

definition space_admin_args :: "nat list \<Rightarrow> AuthzArgumentBinding list" where
  "space_admin_args ids = [\<lparr>bind_ArgumentID = spaceAdminSpacesArgID, bind_Values =
     \<lparr>val_Permissions = None, val_Spaces = Some ids, val_EntityTypes = None, val_EntityRefs = None\<rparr>\<rparr>]"

definition space_admin_grant :: "nat \<Rightarrow> nat \<Rightarrow> nat list \<Rightarrow> AuthzGrant" where
  "space_admin_grant i userID ids = \<lparr>grant_ID = i, grant_UserID = userID, grant_Source =
     \<lparr>src_Rule = None, src_Template = Some \<lparr>tg_TemplateID = SpaceAdminTemplateID, tg_Args = space_admin_args ids\<rparr>\<rparr>\<rparr>"

text \<open>What an agent session may do under an admin grant: everything but host access and logs,
  and of secrets only to see and create them.\<close>

definition agent_may :: "RequestedAccess \<Rightarrow> bool" where
  "agent_may req \<longleftrightarrow>
    (if req_EntityType req = KIND_SECRET then req_Verb req \<in> {VERB_VIEW, VERB_CREATE}
     else req_Verb req \<notin> {VERB_USE_HOST_MOUNTS, VERB_USE_HOST_NETWORK, VERB_VIEW_LOGS})"

lemmas builtin_defs = builtinTemplates_def templateRules_def delegableRules_def agentPerms_def withoutHostAccess_def
  literal_def exact_def all_excluding_def templateSpacesArgument_def allow_def ClusterAdminTemplateID_def
  SpaceAdminTemplateID_def spaceAdminSpacesArgID_def

text \<open>The positions the built-ins use.\<close>

lemma exact_matches [simp]:
  "verbMatches (exact vs) v \<longleftrightarrow> v \<in> set vs" "spaceMatches (exact ids) i \<longleftrightarrow> i \<in> set ids"
  "entityTypeMatches (exact ks) k \<longleftrightarrow> k \<in> set ks"
  by (simp_all add: exact_def verbMatches_def spaceMatches_def entityTypeMatches_def)

lemma all_excluding_matches [simp]:
  "verbMatches (all_excluding vs) v \<longleftrightarrow> v \<notin> set vs" "spaceMatches (all_excluding ids) i \<longleftrightarrow> i \<notin> set ids"
  "entityTypeMatches (all_excluding ks) k \<longleftrightarrow> k \<notin> set ks" "entityRefMatches (all_excluding []) k i"
  by (simp_all add: all_excluding_def verbMatches_def spaceMatches_def entityTypeMatches_def entityRefMatches_def)

lemma literal_matches [simp]:
  "templateVerbMatches (literal p) bs v \<longleftrightarrow> verbMatches p v" "templateSpaceMatches (literal q) bs i \<longleftrightarrow> spaceMatches q i"
  "templateEntityTypeMatches (literal t) bs k \<longleftrightarrow> entityTypeMatches t k"
  "templateEntityRefMatches (literal u) bs k i \<longleftrightarrow> entityRefMatches u k i"
  by (simp_all add: literal_def templateVerbMatches_def templateSpaceMatches_def templateEntityTypeMatches_def templateEntityRefMatches_def)

lemma templateRules_match:
  "list_ex (\<lambda>rule. templateRuleMatches rule bs req False) (templateRules perms sp sp') \<longleftrightarrow>
    (if req_Delegated req then templateSpaceMatches sp' bs (req_SpaceID req) \<and> agent_may req
     else verbMatches perms (req_Verb req) \<and> templateSpaceMatches sp bs (req_SpaceID req) \<or>
          templateSpaceMatches sp' bs (req_SpaceID req) \<and> agent_may req)"
  by (auto simp: templateRules_def delegableRules_def templateRuleMatches_def templateSelectorMatches_def
      effectMatches_def allow_def agentPerms_def agent_may_def)

text \<open>
  C20. What the built-in templates grant. A cluster administrator may do everything; an agent session
  under that grant reaches every space but 0, without host access, without logs, and of secrets only
  view and create. A space administrator has the listed spaces without host access, and an agent
  session under it the same spaces with the agent's limits.
\<close>

theorem builtin_admin_grants:
  assumes "map_of ts ClusterAdminTemplateID = Some (builtinTemplates ! 0)"
    and "map_of ts SpaceAdminTemplateID = Some (builtinTemplates ! 1)"
  shows "(grantMatchesLocked ts (cluster_admin_grant i userID) req False \<longleftrightarrow>
      (if req_Delegated req then req_SpaceID req \<noteq> 0 \<and> agent_may req else True)) \<and>
    (grantMatchesLocked ts (space_admin_grant i userID ids) req False \<longleftrightarrow>
      req_SpaceID req \<in> set ids \<and>
      (if req_Delegated req then agent_may req else req_Verb req \<notin> {VERB_USE_HOST_MOUNTS, VERB_USE_HOST_NETWORK}))"
proof -
  have sp: "templateSpaceMatches (templateSpacesArgument spaceAdminSpacesArgID) (space_admin_args ids) j \<longleftrightarrow> j \<in> set ids" for j
    by (simp add: templateSpaceMatches_def templateSpacesArgument_def space_admin_args_def)
  show ?thesis
    using assms by (auto simp: grantMatchesLocked_def cluster_admin_grant_def space_admin_grant_def builtinTemplates_def
      templateRules_match sp withoutHostAccess_def agent_may_def)
qed

section \<open>A concrete service\<close>

definition sample_templates :: "(nat, AuthzGrantTemplate) table" where
  "sample_templates = map (\<lambda>t. (tpl_ID t, t)) builtinTemplates"

definition sample_service :: Service where
  "sample_service = \<lparr>svc_db = empty_db, svc_templates = sample_templates,
     svc_grantsByUser = [(7, [cluster_admin_grant 1 7])], svc_globalRules = []\<rparr>"

definition sample_request :: "bool \<Rightarrow> RequestedAccess" where
  "sample_request delegated = \<lparr>req_Verb = VERB_UPDATE, req_SpaceID = 3, req_EntityType = KIND_DEPLOYMENT, req_EntityID = 9, req_Delegated = delegated\<rparr>"

lemma sample_templates_get:
  "map_of sample_templates ClusterAdminTemplateID = Some (builtinTemplates ! 0)"
  "map_of sample_templates SpaceAdminTemplateID = Some (builtinTemplates ! 1)"
  by (simp_all add: sample_templates_def builtinTemplates_def ClusterAdminTemplateID_def SpaceAdminTemplateID_def)

lemma sample_access: "HasAccess sample_service 7 (sample_request True)"
  by code_simp

theorem HasAccess_space_visible_witness:
  "HasAccess sample_service 7 (sample_request True) \<and> SpaceVisible sample_service 7 3 True"
  using sample_access HasAccess_space_visible [OF sample_access] by (simp add: sample_request_def)

theorem builtin_admin_grants_witness:
  "grantMatchesLocked sample_templates (cluster_admin_grant 1 7) (sample_request True) False \<and>
   \<not> grantMatchesLocked sample_templates (space_admin_grant 2 8 [4]) (sample_request False) False"
  using builtin_admin_grants [OF sample_templates_get, of 1 7 "sample_request True" "[4]"]
    builtin_admin_grants [OF sample_templates_get, of 2 8 "sample_request False" "[4]"]
  by (simp add: sample_request_def agent_may_def)

end
