(* ===== verification/Authz_Service_Inv.thy ===== *)
theory Authz_Service_Inv
  imports Authz_Policy
begin

text \<open>
  The invariant of the access-control service: its caches are what the tables hold, every template,
  grant and global rule in them passes the validation of its kind, template names are unique and
  the built-in templates are the shipped ones. Every operation keeps it, so a restart loads exactly
  the state the running service has. The step relation \<open>reachable_service\<close> interleaves the
  operations with restarts and with commits of other components.
\<close>

section \<open>The grants of a user\<close>

definition by_user :: "AuthzGrant list \<Rightarrow> (nat, AuthzGrant list) table" where
  "by_user gs = fold append_grant gs []"

lemma by_user_get:
  "tbl_wf (by_user gs) \<and> tbl_get (by_user gs) u =
    (let l = filter (\<lambda>g. grant_UserID g = u) gs in if l = [] then None else Some l)"
proof (induction gs arbitrary: u rule: rev_induct)
  case (snoc g gs)
  have "by_user (gs @ [g]) = append_grant g (by_user gs)" by (simp add: by_user_def)
  with snoc show ?case by (auto simp: append_grant_def tbl_get_put table_simps Let_def)
qed (simp add: by_user_def)

lemma by_user_snoc: "by_user (gs @ [g]) = append_grant g (by_user gs)"
  by (simp add: by_user_def)

lemma by_user_eq:
  assumes "tbl_wf m" "\<And>u. tbl_get m u = (let l = filter (\<lambda>g. grant_UserID g = u) gs in if l = [] then None else Some l)"
  shows "m = by_user gs"
  by (rule tbl_ext) (use assms by_user_get in auto)

lemma by_user_sorted:
  assumes "sorted (map grant_ID gs)"
  shows "map (\<lambda>(u, l). (u, sortByID grant_ID l)) (by_user gs) = by_user gs"
proof (rule map_idI)
  fix e assume e: "e \<in> set (by_user gs)"
  obtain u l where ul: "e = (u, l)" by (cases e)
  have "tbl_get (by_user gs) u = Some l" using e ul by_user_get [of gs u] tbl_get_in [of "by_user gs" u l] by simp
  then have "l = filter (\<lambda>g. grant_UserID g = u) gs" using by_user_get [of gs u] by (auto simp: Let_def split: if_splits)
  with assms ul show "(case e of (u, l) \<Rightarrow> (u, sortByID grant_ID l)) = e"
    by (simp add: sortByID_def sort_key_id_if_sorted sorted_filter)
qed

lemma set_all_grants: "svc_grantsByUser s = by_user gs \<Longrightarrow> set (all_grants s) = set gs"
proof -
  assume eq: "svc_grantsByUser s = by_user gs"
  have "g \<in> set (all_grants s) \<longleftrightarrow> (\<exists>u l. tbl_get (by_user gs) u = Some l \<and> g \<in> set l)" for g
  proof -
    have "tbl_wf (by_user gs)" using by_user_get by blast
    then show ?thesis unfolding all_grants_def eq tbl_get_in [OF \<open>tbl_wf (by_user gs)\<close>] by force
  qed
  moreover have "(\<exists>u l. tbl_get (by_user gs) u = Some l \<and> g \<in> set l) \<longleftrightarrow> g \<in> set gs" for g
    using by_user_get [of gs "grant_UserID g"] by_user_get [of gs] by (auto simp: Let_def filter_empty_conv split: if_splits)
  ultimately show ?thesis by blast
qed

lemma grantsOf_by_user: "svc_grantsByUser s = by_user gs \<Longrightarrow> grantsOf s u = filter (\<lambda>g. grant_UserID g = u) gs"
  using by_user_get [of gs u] by (simp add: grantsOf_def Let_def split: if_splits)

section \<open>The invariant\<close>

definition coherent :: "Service \<Rightarrow> bool" where
  "coherent s \<longleftrightarrow> db_inv (svc_db s) \<and> (\<exists>G R. access (svc_db s) = (svc_templates s, G, R) \<and>
     svc_grantsByUser s = by_user (map snd G) \<and> svc_globalRules s = map snd R)"

definition grant_ok :: "(nat, AuthzGrantTemplate) table \<Rightarrow> AuthzGrant \<Rightarrow> bool" where
  "grant_ok T g \<longleftrightarrow> grant_UserID g \<noteq> 0 \<and>
    (case src_Rule (grant_Source g) of
       Some rule \<Rightarrow> src_Template (grant_Source g) = None \<and> validateRule (Some rule) = None
     | None \<Rightarrow> (case src_Template (grant_Source g) of None \<Rightarrow> False
        | Some tg \<Rightarrow> (case tbl_get T (tg_TemplateID tg) of None \<Rightarrow> False | Some t \<Rightarrow> validateArgs t (tg_Args tg) = None)))"

definition templates_ok :: "(nat, AuthzGrantTemplate) table \<Rightarrow> bool" where
  "templates_ok T \<longleftrightarrow>
    (\<forall>(i, t) \<in> set T. i \<noteq> 0 \<and> validateTemplate (tpl_Name t) (Some (tpl_Spec t)) = None) \<and>
    (\<forall>(i, t) \<in> set T. \<forall>(j, t') \<in> set T. tpl_Name t = tpl_Name t' \<longrightarrow> i = j) \<and>
    (\<forall>b \<in> set builtinTemplates. tbl_get T (tpl_ID b) = Some b) \<and>
    (\<forall>(i, t) \<in> set T. tpl_Builtin t \<longrightarrow> t \<in> set builtinTemplates)"

definition svc_inv :: "Service \<Rightarrow> bool" where
  "svc_inv s \<longleftrightarrow> coherent s \<and> templates_ok (svc_templates s) \<and>
    (\<forall>g \<in> set (all_grants s). grant_ok (svc_templates s) g) \<and>
    (\<forall>r \<in> set (svc_globalRules s). validateGlobalRule (gr_Name r) (Some (gr_Rule r)) = None) \<and>
    AuthzGlobalRuleNameEverLogged DefaultUserVisibilityRuleName (svc_db s)"

lemma coherentE:
  assumes "coherent s"
  obtains G R where "db_inv (svc_db s)" "access (svc_db s) = (svc_templates s, G, R)"
    "svc_grantsByUser s = by_user (map snd G)" "svc_globalRules s = map snd R"
    "tbl_wf (svc_templates s)" "tbl_wf G" "tbl_wf R" "map grant_ID (map snd G) = map fst G" "map gr_ID (map snd R) = map fst R"
proof -
  from assms obtain G R where gr: "db_inv (svc_db s)" "access (svc_db s) = (svc_templates s, G, R)"
    "svc_grantsByUser s = by_user (map snd G)" "svc_globalRules s = map snd R" by (auto simp: coherent_def)
  moreover have "tbl_wf (svc_templates s)" "tbl_wf G" "tbl_wf R" using access_wf [OF gr(1)] gr(2) by (auto simp: access_def)
  moreover have "map grant_ID (map snd G) = map fst G" "map gr_ID (map snd R) = map fst R"
    using scheduled.row_ids [OF gr(2)] by auto
  ultimately show ?thesis using that by blast
qed

section \<open>Preservation\<close>

lemma coherentI:
  assumes "db_inv d'" "access d' = (T, G, R)" "svc_grantsByUser s = by_user (map snd G)" "svc_globalRules s = map snd R"
    "svc_templates s = T" "svc_db s = d'"
  shows "coherent s"
  using assms by (auto simp: coherent_def)

lemma ever_logged_mono: "set (db_log d) \<subseteq> set (db_log d') \<Longrightarrow> AuthzGlobalRuleNameEverLogged n d \<Longrightarrow> AuthzGlobalRuleNameEverLogged n d'"
  by (auto simp: AuthzGlobalRuleNameEverLogged_def list_ex_iff)

lemma committed_logged: "committed d m d' \<Longrightarrow> AuthzGlobalRuleNameEverLogged n d \<Longrightarrow> AuthzGlobalRuleNameEverLogged n d'"
  by (rule ever_logged_mono) (auto simp: committed_def)

lemma on_store_Inr: "on_store r k = Inr x \<longleftrightarrow> (\<exists>a. r = Inr a \<and> k a = Inr x)"
  by (auto simp: on_store_def split: sum.splits)

lemma grant_ok_ID [simp]: "grant_ok T (g\<lparr>grant_ID := i\<rparr>) = grant_ok T g"
proof -
  have "grant_Source (g\<lparr>grant_ID := i\<rparr>) = grant_Source g" "grant_UserID (g\<lparr>grant_ID := i\<rparr>) = grant_UserID g" by simp_all
  then show ?thesis unfolding grant_ok_def by metis
qed

text \<open>Replacing a template by one its users still fit.\<close>

lemma grant_ok_put:
  assumes "tbl_wf T" "grant_ok T g"
    and "\<And>tg. src_Rule (grant_Source g) = None \<Longrightarrow> src_Template (grant_Source g) = Some tg \<Longrightarrow> tg_TemplateID tg = i \<Longrightarrow> validateArgs t (tg_Args tg) = None"
  shows "grant_ok (tbl_put i t T) g"
  using assms by (auto simp: grant_ok_def tbl_get_put split: option.splits)

lemma grant_ok_template:
  "grant_ok T g \<Longrightarrow> src_Rule (grant_Source g) = None \<Longrightarrow> src_Template (grant_Source g) = Some tg \<Longrightarrow>
   \<exists>t. tbl_get T (tg_TemplateID tg) = Some t \<and> validateArgs t (tg_Args tg) = None"
  by (auto simp: grant_ok_def split: option.splits)

lemma grant_ok_del:
  assumes "tbl_wf T" "grant_ok T g" "\<And>tg. src_Template (grant_Source g) = Some tg \<Longrightarrow> tg_TemplateID tg \<noteq> i"
  shows "grant_ok (tbl_del i T) g"
  using assms by (auto simp: grant_ok_def tbl_get_del split: option.splits)

lemma templates_ok_put:
  assumes "tbl_wf T" "templates_ok T" "validateTemplate (tpl_Name t) (Some (tpl_Spec t)) = None"
    and "\<And>j t'. (j, t') \<in> set T \<Longrightarrow> j \<noteq> i \<Longrightarrow> tpl_Name t' \<noteq> tpl_Name t"
    and "\<not> tpl_Builtin t" "i \<notin> tpl_ID ` set builtinTemplates" "i \<noteq> 0"
  shows "templates_ok (tbl_put i t T)"
proof -
  have wf: "tbl_wf (tbl_put i t T)" using assms(1) by (simp add: table_simps)
  have mem: "(j, u) \<in> set (tbl_put i t T) \<longleftrightarrow> (if j = i then u = t else (j, u) \<in> set T)" for j u
    unfolding tbl_get_in [OF wf, symmetric] tbl_get_put [OF assms(1)] by (auto simp: tbl_get_in [OF assms(1)])
  have "tbl_get (tbl_put i t T) (tpl_ID b) = Some b" if "b \<in> set builtinTemplates" for b
    using that assms(2,6) by (auto simp: tbl_get_put [OF assms(1)] templates_ok_def)
  moreover have "j \<noteq> 0 \<and> validateTemplate (tpl_Name u) (Some (tpl_Spec u)) = None" if "(j, u) \<in> set (tbl_put i t T)" for j u
    using that assms(2,3,7) unfolding mem templates_ok_def by (auto split: if_splits)
  moreover have "j = k" if "(j, u) \<in> set (tbl_put i t T)" "(k, v) \<in> set (tbl_put i t T)" "tpl_Name u = tpl_Name v" for j u k v
    using that assms(2,4) unfolding mem templates_ok_def by (auto split: if_splits)
  moreover have "u \<in> set builtinTemplates" if "(j, u) \<in> set (tbl_put i t T)" "tpl_Builtin u" for j u
    using that assms(2,5) unfolding mem templates_ok_def by (auto split: if_splits)
  ultimately show ?thesis unfolding templates_ok_def by blast
qed

lemma templates_ok_del:
  assumes "tbl_wf T" "templates_ok T" "i \<notin> tpl_ID ` set builtinTemplates"
  shows "templates_ok (tbl_del i T)"
proof -
  have "set (tbl_del i T) \<subseteq> set T" by (auto simp: tbl_del_def)
  moreover have "tbl_get (tbl_del i T) (tpl_ID b) = Some b" if "b \<in> set builtinTemplates" for b
    using that assms(2,3) by (auto simp: tbl_get_del templates_ok_def)
  ultimately show ?thesis using assms(2) unfolding templates_ok_def by blast
qed

lemma builtin_ids: "templates_ok T \<Longrightarrow> i \<in> tpl_ID ` set builtinTemplates \<Longrightarrow> \<exists>b. tbl_get T i = Some b \<and> tpl_Builtin b"
  unfolding templates_ok_def by (auto simp: builtinTemplates_def)

lemma validateTemplate_Some: "validateTemplate name spec = None \<Longrightarrow> \<exists>t. spec = Some t"
  by (cases spec) (auto simp: validateTemplate_def)

lemma validateGlobalRule_Some: "validateGlobalRule name rule = None \<Longrightarrow> \<exists>r. rule = Some r"
  by (cases rule) (auto simp: validateGlobalRule_def)

lemma name_not_taken:
  assumes "\<not> templateNameTakenLocked s name i" "access d = (svc_templates s, G, R)" "(j, t) \<in> set (svc_templates s)" "j \<noteq> i"
  shows "tpl_Name t \<noteq> name"
  using assms scheduled.row_ids(1) [OF assms(2,3)] by (auto simp: templateNameTakenLocked_def list_ex_iff)

lemma fresh_template:
  assumes "db_inv d" "access d = (T, G, R)" "templates_ok T"
  shows "counter CORE_AUTHZ_GRANT_TEMPLATE d \<notin> tpl_ID ` set builtinTemplates"
    "tbl_get T (counter CORE_AUTHZ_GRANT_TEMPLATE d) = None" "counter CORE_AUTHZ_GRANT_TEMPLATE d \<noteq> 0"
proof -
  have lt: "x < counter CORE_AUTHZ_GRANT_TEMPLATE d" if "x \<in> fst ` set T" for x
    using fresh_ids(1) [OF assms(1)] assms(2) that by (auto simp: access_def)
  then show *: "tbl_get T (counter CORE_AUTHZ_GRANT_TEMPLATE d) = None" by (force simp: map_of_eq_None_iff)
  then show "counter CORE_AUTHZ_GRANT_TEMPLATE d \<notin> tpl_ID ` set builtinTemplates"
    using builtin_ids [OF assms(3), of "counter CORE_AUTHZ_GRANT_TEMPLATE d"] by force
  have "tbl_get T ClusterAdminTemplateID \<noteq> None" using assms(3) by (simp add: templates_ok_def builtinTemplates_def)
  then have "ClusterAdminTemplateID \<in> fst ` set T" by (simp add: map_of_eq_None_iff)
  from lt [OF this] show "counter CORE_AUTHZ_GRANT_TEMPLATE d \<noteq> 0" by simp
qed

text \<open>The invariant with the two tables behind the caches named.\<close>

definition svc_view :: "Service \<Rightarrow> (nat, AuthzGrant) table \<Rightarrow> (nat, AuthzGlobalRule) table \<Rightarrow> bool" where
  "svc_view s G R \<longleftrightarrow> db_inv (svc_db s) \<and> access (svc_db s) = (svc_templates s, G, R) \<and>
    svc_grantsByUser s = by_user (map snd G) \<and> svc_globalRules s = map snd R \<and>
    templates_ok (svc_templates s) \<and> (\<forall>g \<in> snd ` set G. grant_ok (svc_templates s) g) \<and>
    (\<forall>r \<in> snd ` set R. validateGlobalRule (gr_Name r) (Some (gr_Rule r)) = None) \<and>
    AuthzGlobalRuleNameEverLogged DefaultUserVisibilityRuleName (svc_db s)"

lemma svc_inv_view: "svc_inv s \<longleftrightarrow> (\<exists>G R. svc_view s G R)"
proof -
  have "svc_view s G R \<longleftrightarrow> db_inv (svc_db s) \<and> access (svc_db s) = (svc_templates s, G, R) \<and>
      svc_grantsByUser s = by_user (map snd G) \<and> svc_globalRules s = map snd R \<and> templates_ok (svc_templates s) \<and>
      (\<forall>g \<in> set (all_grants s). grant_ok (svc_templates s) g) \<and>
      (\<forall>r \<in> set (svc_globalRules s). validateGlobalRule (gr_Name r) (Some (gr_Rule r)) = None) \<and>
      AuthzGlobalRuleNameEverLogged DefaultUserVisibilityRuleName (svc_db s)" for G R
    using set_all_grants [of s "map snd G"] unfolding svc_view_def by (metis (no_types, lifting) list.set_map)
  then show ?thesis unfolding svc_inv_def coherent_def by blast
qed

lemma svc_viewD:
  assumes "svc_view s G R"
  shows "db_inv (svc_db s)" "access (svc_db s) = (svc_templates s, G, R)" "svc_grantsByUser s = by_user (map snd G)"
    "svc_globalRules s = map snd R" "templates_ok (svc_templates s)" "\<forall>g \<in> snd ` set G. grant_ok (svc_templates s) g"
    "\<forall>r \<in> snd ` set R. validateGlobalRule (gr_Name r) (Some (gr_Rule r)) = None"
    "AuthzGlobalRuleNameEverLogged DefaultUserVisibilityRuleName (svc_db s)"
    "tbl_wf (svc_templates s)" "tbl_wf G" "tbl_wf R" "map grant_ID (map snd G) = map fst G" "map gr_ID (map snd R) = map fst R"
    "set (all_grants s) = snd ` set G"
proof -
  show c: "db_inv (svc_db s)" "access (svc_db s) = (svc_templates s, G, R)" "svc_grantsByUser s = by_user (map snd G)"
    "svc_globalRules s = map snd R" "templates_ok (svc_templates s)" "\<forall>g \<in> snd ` set G. grant_ok (svc_templates s) g"
    "\<forall>r \<in> snd ` set R. validateGlobalRule (gr_Name r) (Some (gr_Rule r)) = None"
    "AuthzGlobalRuleNameEverLogged DefaultUserVisibilityRuleName (svc_db s)" using assms by (simp_all add: svc_view_def)
  show "tbl_wf (svc_templates s)" "tbl_wf G" "tbl_wf R" using access_wf [OF c(1)] c(2) by (auto simp: access_def)
  show "map grant_ID (map snd G) = map fst G" "map gr_ID (map snd R) = map fst R" using scheduled.row_ids [OF c(2)] by auto
  show "set (all_grants s) = snd ` set G" using set_all_grants [OF c(3)] by simp
qed

text \<open>A commit moves the view to the tables it leaves when the new entries are valid.\<close>

lemma svc_view_commit:
  assumes "svc_view s G R" "committed (svc_db s) m d'" "access d' = (T', G', R')" "svc_db s' = d'"
    and "svc_templates s' = T'" "svc_grantsByUser s' = by_user (map snd G')" "svc_globalRules s' = map snd R'"
    and "templates_ok T'" "\<forall>g \<in> snd ` set G'. grant_ok T' g"
    and "\<forall>r \<in> snd ` set R'. validateGlobalRule (gr_Name r) (Some (gr_Rule r)) = None"
  shows "svc_view s' G' R'"
  using assms committed_logged [OF assms(2) svc_viewD(8) [OF assms(1)]] by (simp add: svc_view_def committed_def)

context quiet_triggers
begin

lemma CreateGrantTemplate_view:
  assumes st: "svc_view s G R" and "CreateGrantTemplate triggers now name spec author s = Inr (r, s')"
  shows "svc_view s' G R"
proof -
  from assms(2) have v: "validateTemplate name spec = None" "\<not> templateNameTakenLocked s name 0"
    by (auto simp: CreateGrantTemplate_def split: option.splits if_splits)
  note c = svc_viewD [OF st]
  let ?T = "svc_templates s" and ?i = "counter CORE_AUTHZ_GRANT_TEMPLATE (svc_db s)"
  let ?t = "templateEntity ?i name False (the spec)"
  note f = fresh_template [OF c(1,2,5)]
  have put: "tbl_put ?i ?t ?T = ?T @ [(?i, ?t)]"
    by (rule tbl_put_fresh) (use fresh_ids(1) [OF c(1)] c(2) in \<open>simp add: access_def\<close>)
  from insertGrantTemplate_spec [OF c(1,2), of name "the spec" author now] assms(2) v obtain d' m where
    s': "s' = s\<lparr>svc_db := d', svc_templates := tbl_put ?i ?t ?T\<rparr>" "committed (svc_db s) m d'" "access d' = (?T @ [(?i, ?t)], G, R)"
    by (auto simp: CreateGrantTemplate_def on_store_def Let_def)
  have ok: "templates_ok (tbl_put ?i ?t ?T)"
  proof (rule templates_ok_put [OF c(9,5)])
    show "validateTemplate (tpl_Name ?t) (Some (tpl_Spec ?t)) = None" using v validateTemplate_Some [OF v(1)] by (auto simp: templateEntity_def)
    show "tpl_Name t' \<noteq> tpl_Name ?t" if "(j, t') \<in> set ?T" for j t'
      using name_not_taken [OF v(2) c(2) that] that c(5) by (auto simp: templateEntity_def templates_ok_def)
  qed (use f in \<open>auto simp: templateEntity_def\<close>)
  have g: "\<forall>g \<in> snd ` set G. grant_ok (tbl_put ?i ?t ?T) g"
    by (intro ballI grant_ok_put [OF c(9)]) (use c(6) f(2) grant_ok_template in fastforce)+
  show ?thesis by (rule svc_view_commit [OF st s'(2,3)]) (use s' c put ok g in auto)
qed

lemma UpdateGrantTemplate_view:
  assumes st: "svc_view s G R" and "UpdateGrantTemplate triggers now i name spec author s = Inr (r, s')"
  shows "svc_view s' G R"
proof -
  note c = svc_viewD [OF st]
  let ?T = "svc_templates s"
  from assms(2) obtain old where v: "validateTemplate name spec = None" "\<not> templateNameTakenLocked s name i"
    "tbl_get ?T i = Some old" "\<not> tpl_Builtin old"
    and args: "\<forall>g \<in> set (all_grants s). \<forall>tg. src_Template (grant_Source g) = Some tg \<and> tg_TemplateID tg = i \<longrightarrow>
        validateArgs (old\<lparr>tpl_Name := name, tpl_Spec := the spec\<rparr>) (tg_Args tg) = None"
    by (auto simp: UpdateGrantTemplate_def Let_def find_err_None split: option.splits if_splits)
  let ?t = "old\<lparr>tpl_Name := name, tpl_Spec := the spec\<rparr>"
  have old: "(i, old) \<in> set ?T" using v(3) by (simp add: tbl_get_in [OF c(9)])
  have eq: "templateEntity i name (tpl_Builtin old) (the spec) = ?t"
    using scheduled.row_ids(1) [OF c(2) old] by (simp add: templateEntity_def)
  from updateGrantTemplate_spec [OF c(1,2) v(3), of name "the spec" author now] assms(2) v obtain d' m where
    s': "s' = s\<lparr>svc_db := d', svc_templates := tbl_put i ?t ?T\<rparr>" "committed (svc_db s) m d'" "access d' = (tbl_put i ?t ?T, G, R)"
    unfolding eq by (auto simp: UpdateGrantTemplate_def on_store_def Let_def split: option.splits)
  have ok: "templates_ok (tbl_put i ?t ?T)"
  proof (rule templates_ok_put [OF c(9,5)])
    show "validateTemplate (tpl_Name ?t) (Some (tpl_Spec ?t)) = None" using v validateTemplate_Some [OF v(1)] by auto
    show "tpl_Name t' \<noteq> tpl_Name ?t" if "(j, t') \<in> set ?T" "j \<noteq> i" for j t'
      using name_not_taken [OF v(2) c(2) that] by simp
    show "i \<notin> tpl_ID ` set builtinTemplates" using builtin_ids [OF c(5), of i] v(3,4) by force
    show "i \<noteq> 0" using old c(5) by (auto simp: templates_ok_def)
  qed (use v in auto)
  have g: "\<forall>g \<in> snd ` set G. grant_ok (tbl_put i ?t ?T) g"
    by (intro ballI grant_ok_put [OF c(9)]) (use c(6,14) args in auto)
  show ?thesis by (rule svc_view_commit [OF st s'(2,3)]) (use s' c ok g in auto)
qed

lemma DeleteGrantTemplate_view:
  assumes st: "svc_view s G R" and "DeleteGrantTemplate triggers now i author s = Inr s'"
  shows "svc_view s' G R"
proof -
  note c = svc_viewD [OF st]
  let ?T = "svc_templates s"
  from assms(2) obtain old where v: "tbl_get ?T i = Some old" "\<not> tpl_Builtin old"
    and "\<not> list_ex (\<lambda>g. case src_Template (grant_Source g) of None \<Rightarrow> False | Some tg \<Rightarrow> tg_TemplateID tg = i) (all_grants s)"
    by (auto simp: DeleteGrantTemplate_def split: option.splits if_splits)
  then have unused: "tg_TemplateID tg \<noteq> i" if "g \<in> set (all_grants s)" "src_Template (grant_Source g) = Some tg" for g tg
    using that by (force simp: list_ex_iff)
  from delete_specs(1) [OF c(1,2) v(1), of author now] assms(2) obtain d' m where
    s': "s' = s\<lparr>svc_db := d', svc_templates := tbl_del i ?T\<rparr>" "committed (svc_db s) m d'" "access d' = (tbl_del i ?T, G, R)"
    by (auto simp: DeleteGrantTemplate_def on_store_def split: option.splits if_splits)
  have "i \<notin> tpl_ID ` set builtinTemplates" using builtin_ids [OF c(5), of i] v by force
  note ok = templates_ok_del [OF c(9,5) this]
  have g: "\<forall>g \<in> snd ` set G. grant_ok (tbl_del i ?T) g"
    by (intro ballI grant_ok_del [OF c(9)]) (use c(6,14) unused in auto)
  show ?thesis by (rule svc_view_commit [OF st s'(2,3)]) (use s' c ok g in auto)
qed

lemma CreateGrant_accepts:
  assumes "CreateGrant triggers now g author s = Inr (r, s')"
  obtains g' where "g = Some g'" "grant_ok (svc_templates s) g'"
    "CreateGrant triggers now g author s =
      on_store (insertGrant triggers (grant_UserID g') (grant_Source g') author now (svc_db s)) (\<lambda>(i, _, d').
        Inr (g'\<lparr>grant_ID := i\<rparr>, s\<lparr>svc_db := d', svc_grantsByUser := append_grant (g'\<lparr>grant_ID := i\<rparr>) (svc_grantsByUser s)\<rparr>))"
proof -
  from assms obtain g' where g: "g = Some g'" "grant_UserID g' \<noteq> 0"
    "selected (src_Rule (grant_Source g')) + selected (src_Template (grant_Source g')) = 1"
    by (auto simp: CreateGrant_def split: option.splits if_splits)
  let ?v = "case src_Rule (grant_Source g') of
      Some rule \<Rightarrow> wrap_err (Wrapped CGrantRule) (validateRule (Some rule))
    | None \<Rightarrow> (case src_Template (grant_Source g') of None \<Rightarrow> None
        | Some tg \<Rightarrow> (case tbl_get (svc_templates s) (tg_TemplateID tg) of
              None \<Rightarrow> Some (Wrapped (CGrantTemplate (tg_TemplateID tg)) ErrNotFound)
            | Some t \<Rightarrow> validateArgs t (tg_Args tg)))"
  have eq: "CreateGrant triggers now g author s = (case ?v of Some e \<Rightarrow> Inl (AuthzErr e)
      | None \<Rightarrow> on_store (insertGrant triggers (grant_UserID g') (grant_Source g') author now (svc_db s)) (\<lambda>(i, _, d').
          Inr (g'\<lparr>grant_ID := i\<rparr>, s\<lparr>svc_db := d', svc_grantsByUser := append_grant (g'\<lparr>grant_ID := i\<rparr>) (svc_grantsByUser s)\<rparr>)))"
    using g(2,3) unfolding CreateGrant_def Let_def g(1) by simp
  with assms have v: "?v = None" by (cases ?v) auto
  have "grant_ok (svc_templates s) g'"
  proof (cases "src_Rule (grant_Source g')")
    case None
    with g(3) obtain tg where "src_Template (grant_Source g') = Some tg" by (auto simp: selected_def split: option.splits)
    with None g v show ?thesis by (auto simp: grant_ok_def split: option.splits)
  next
    case (Some rule)
    with g v show ?thesis by (auto simp: grant_ok_def selected_def split: option.splits)
  qed
  with that g(1) eq v show ?thesis by simp
qed

lemma CreateGrant_view:
  assumes st: "svc_view s G R" and "CreateGrant triggers now g author s = Inr (r, s')"
  shows "\<exists>i. svc_view s' (G @ [(i, r)]) R \<and> (\<exists>g'. g = Some g' \<and> r = g'\<lparr>grant_ID := i\<rparr>)"
proof -
  note c = svc_viewD [OF st]
  from assms(2) obtain g' where g: "g = Some g'" "grant_ok (svc_templates s) g'"
    and eq: "CreateGrant triggers now g author s =
      on_store (insertGrant triggers (grant_UserID g') (grant_Source g') author now (svc_db s)) (\<lambda>(i, _, d').
        Inr (g'\<lparr>grant_ID := i\<rparr>, s\<lparr>svc_db := d', svc_grantsByUser := append_grant (g'\<lparr>grant_ID := i\<rparr>) (svc_grantsByUser s)\<rparr>))"
    by (rule CreateGrant_accepts)
  let ?i = "counter CORE_AUTHZ_GRANT (svc_db s)"
  have rec: "\<lparr>grant_ID = ?i, grant_UserID = grant_UserID g', grant_Source = grant_Source g'\<rparr> = g'\<lparr>grant_ID := ?i\<rparr>" by simp
  from insertGrant_spec [OF c(1,2), of "grant_UserID g'" "grant_Source g'" author now, unfolded rec] obtain u d' m where
    d': "insertGrant triggers (grant_UserID g') (grant_Source g') author now (svc_db s) = Inr (?i, Some u, d')"
      "committed (svc_db s) m d'" "access d' = (svc_templates s, G @ [(?i, g'\<lparr>grant_ID := ?i\<rparr>)], R)" by blast
  from assms(2) d'(1) have s': "r = g'\<lparr>grant_ID := ?i\<rparr>" "s' = s\<lparr>svc_db := d', svc_grantsByUser := append_grant r (svc_grantsByUser s)\<rparr>"
    unfolding eq by (auto simp: on_store_def)
  have "grant_ok (svc_templates s) r" using g(2) s'(1) by simp
  with c(6) have ok: "\<forall>g \<in> snd ` set (G @ [(?i, r)]). grant_ok (svc_templates s) g" by auto
  have cache: "svc_grantsByUser s' = by_user (map snd (G @ [(?i, r)]))" using c(3) s'(2) by (simp add: by_user_snoc)
  have "svc_view s' (G @ [(?i, r)]) R"
    by (rule svc_view_commit [OF st d'(2) d'(3) [folded s'(1)] _ _ cache _ c(5) ok c(7)]) (use s'(2) c(4) in simp_all)
  with g(1) s'(1) show ?thesis by blast
qed

lemma deleted_grants:
  assumes "tbl_wf G" "map grant_ID (map snd G) = map fst G"
  shows "map snd (tbl_del i G) = filter (\<lambda>g. grant_ID g \<noteq> i) (map snd G)"
  using assms(2) unfolding tbl_del_def by (induction G) auto

lemma remove_at_filter:
  assumes "distinct (map f xs)" "find_index (\<lambda>x. f x = k) xs = Some n"
  shows "remove_at n xs = filter (\<lambda>x. f x \<noteq> k) xs"
  using assms
proof (induction xs arbitrary: n)
  case (Cons x xs)
  show ?case
  proof (cases "f x = k")
    case True
    with Cons.prems have "n = 0" "k \<notin> f ` set xs" by auto
    then have "filter (\<lambda>x. f x \<noteq> k) xs = xs" by (auto simp: filter_id_conv)
    with True \<open>n = 0\<close> show ?thesis by (simp add: remove_at_def)
  next
    case False
    with Cons.prems obtain m where m: "n = Suc m" "find_index (\<lambda>x. f x = k) xs = Some m" by auto
    from Cons.IH [OF _ m(2)] Cons.prems False m(1) show ?thesis by (simp add: remove_at_def)
  qed
qed simp

lemma DeleteGrant_view:
  assumes st: "svc_view s G R" and "DeleteGrant triggers now userID i author s = Inr s'"
  shows "svc_view s' (tbl_del i G) R"
proof -
  note c = svc_viewD [OF st]
  let ?gs = "map snd G"
  have own: "grantsOf s userID = filter (\<lambda>g. grant_UserID g = userID) ?gs" by (rule grantsOf_by_user [OF c(3)])
  from assms(2) obtain n where n: "find_index (\<lambda>g. grant_ID g = i) (grantsOf s userID) = Some n"
    by (auto simp: DeleteGrant_def Let_def split: option.splits if_splits)
  note fi = find_index_Some [OF n]
  let ?g = "grantsOf s userID ! n"
  have "?g \<in> set (grantsOf s userID)" using fi by simp
  then have g: "?g \<in> set ?gs" "grant_UserID ?g = userID" "grant_ID ?g = i" using own fi by auto
  then have "(i, ?g) \<in> set G" using scheduled.row_ids(2) [OF c(2)] by auto
  then have get: "tbl_get G i = Some ?g" using tbl_get_in [OF c(10)] by simp
  have dist: "distinct (map grant_ID ?gs)" unfolding c(12) using c(10) by (simp add: tbl_wf_def)
  then have rem: "remove_at n (grantsOf s userID) = filter (\<lambda>g. grant_ID g \<noteq> i) (grantsOf s userID)"
    by (intro remove_at_filter [OF _ n]) (simp add: own distinct_map_filter)
  let ?rest = "filter (\<lambda>g. grant_ID g \<noteq> i) (grantsOf s userID)"
  let ?by = "if ?rest = [] then tbl_del userID (svc_grantsByUser s) else tbl_put userID ?rest (svc_grantsByUser s)"
  from delete_specs(2) [OF c(1,2) get, of author now] assms(2) n obtain d' m where
    s': "s' = s\<lparr>svc_db := d', svc_grantsByUser := ?by\<rparr>" "committed (svc_db s) m d'" "access d' = (svc_templates s, tbl_del i G, R)"
    by (auto simp: DeleteGrant_def on_store_def Let_def rem split: option.splits if_splits)
  have wf: "tbl_wf (svc_grantsByUser s)" using by_user_get c(3) by metis
  have other: "filter (\<lambda>g. grant_UserID g = u \<and> grant_ID g \<noteq> i) ?gs = filter (\<lambda>g. grant_UserID g = u) ?gs" if "u \<noteq> userID" for u
  proof (rule filter_cong [OF refl])
    fix h assume h: "h \<in> set ?gs"
    have "inj_on grant_ID (set ?gs)" using dist unfolding distinct_map [of grant_ID] by blast
    from inj_onD [OF this _ h g(1)] g(2,3) that show "(grant_UserID h = u \<and> grant_ID h \<noteq> i) = (grant_UserID h = u)" by auto
  qed
  have "?by = by_user (filter (\<lambda>g. grant_ID g \<noteq> i) ?gs)"
  proof (rule by_user_eq)
    show "tbl_wf ?by" using wf by (simp add: table_simps)
    show "tbl_get ?by u = (let l = filter (\<lambda>g. grant_UserID g = u) (filter (\<lambda>g. grant_ID g \<noteq> i) ?gs) in if l = [] then None else Some l)" for u
      unfolding c(3) own using by_user_get [of ?gs u] other [of u]
      by (auto simp: tbl_get_put [OF wf [unfolded c(3)]] tbl_get_del Let_def conj_commute)
  qed
  then have cache: "svc_grantsByUser s' = by_user (map snd (tbl_del i G))"
    using s'(1) deleted_grants [OF c(10,12), of i] by simp
  have "\<forall>g \<in> snd ` set (tbl_del i G). grant_ok (svc_templates s) g" using c(6) by (auto simp: tbl_del_def)
  then show ?thesis by (intro svc_view_commit [OF st s'(2,3)]) (use s' c cache in auto)
qed

lemma CreateGlobalRule_view:
  assumes st: "svc_view s G R" and "CreateGlobalRule triggers now name rule author s = Inr (r, s')"
  shows "\<exists>i. svc_view s' G (R @ [(i, r)])"
proof -
  note c = svc_viewD [OF st]
  from assms(2) have v: "validateGlobalRule name rule = None" by (auto simp: CreateGlobalRule_def split: option.splits)
  let ?i = "counter CORE_AUTHZ_GLOBAL_RULE (svc_db s)"
  let ?r = "\<lparr>gr_ID = ?i, gr_Name = name, gr_Rule = the rule\<rparr>"
  from insertGlobalRule_spec [OF c(1,2), of name "the rule" author now] obtain u d' m where
    d': "insertGlobalRule triggers name (the rule) author now (svc_db s) = Inr (?i, Some u, d')"
      "committed (svc_db s) m d'" "access d' = (svc_templates s, G, R @ [(?i, ?r)])" by blast
  from assms(2) d'(1) v have s': "r = ?r" "s' = s\<lparr>svc_db := d', svc_globalRules := svc_globalRules s @ [r]\<rparr>"
    by (auto simp: CreateGlobalRule_def on_store_def Let_def)
  have "validateGlobalRule (gr_Name r) (Some (gr_Rule r)) = None" using v validateGlobalRule_Some [OF v] s'(1) by auto
  with c(7) have ok: "\<forall>r \<in> snd ` set (R @ [(?i, r)]). validateGlobalRule (gr_Name r) (Some (gr_Rule r)) = None" by auto
  have "svc_view s' G (R @ [(?i, r)])"
    by (rule svc_view_commit [OF st d'(2) d'(3) [folded s'(1)] _ _ _ _ c(5,6) ok]) (use s'(2) c(3,4) in simp_all)
  then show ?thesis by blast
qed

lemma DeleteGlobalRule_view:
  assumes st: "svc_view s G R" and "DeleteGlobalRule triggers now i author s = Inr s'"
  shows "svc_view s' G (tbl_del i R)"
proof -
  note c = svc_viewD [OF st]
  from assms(2) obtain n where n: "find_index (\<lambda>r. gr_ID r = i) (svc_globalRules s) = Some n"
    by (auto simp: DeleteGlobalRule_def split: option.splits)
  note fi = find_index_Some [OF n]
  have "svc_globalRules s ! n \<in> snd ` set R" "gr_ID (svc_globalRules s ! n) = i"
    using fi nth_mem [of n "svc_globalRules s"] c(4) by auto
  then have "(i, svc_globalRules s ! n) \<in> set R" using scheduled.row_ids(3) [OF c(2)] by force
  then have get: "tbl_get R i = Some (svc_globalRules s ! n)" using tbl_get_in [OF c(11)] by simp
  have "remove_at n (svc_globalRules s) = filter (\<lambda>r. gr_ID r \<noteq> i) (svc_globalRules s)"
    by (rule remove_at_filter [OF _ n]) (unfold c(4) c(13), use c(11) in \<open>simp add: tbl_wf_def\<close>)
  moreover have "map snd (tbl_del i R) = filter (\<lambda>r. gr_ID r \<noteq> i) (map snd R)"
    using c(13) unfolding tbl_del_def by (induction R) auto
  ultimately have rem: "remove_at n (svc_globalRules s) = map snd (tbl_del i R)" using c(4) by simp
  from delete_specs(3) [OF c(1,2) get, of author now] obtain u d' m where
    d': "deleteGlobalRule triggers i author now (svc_db s) = Inr ((), Some u, d')" "committed (svc_db s) m d'"
      "access d' = (svc_templates s, G, tbl_del i R)" by blast
  from assms(2) n d'(1) have s': "s' = s\<lparr>svc_db := d', svc_globalRules := map snd (tbl_del i R)\<rparr>"
    by (simp add: DeleteGlobalRule_def on_store_def rem)
  have ok: "\<forall>r \<in> snd ` set (tbl_del i R). validateGlobalRule (gr_Name r) (Some (gr_Rule r)) = None" using c(7) by (auto simp: tbl_del_def)
  show ?thesis by (rule svc_view_commit [OF st d'(2,3) _ _ _ _ c(5,6) ok]) (use s' c(3) in simp_all)
qed

end

end
