(* ===== verification/Scheduler_Track.thy ===== *)
theory Scheduler_Track
  imports Scheduler_Refine
begin

text \<open>
  The instance slice a scheduling pass works on mirrors the placement rows of its deployment:
  \<open>tracks\<close> holds when the pass starts and every operation of the pass keeps it, so the pass never
  fails and what it does can be followed on the slice alone.
\<close>

section \<open>Non-final placements of a deployment\<close>

definition placed :: "nat \<Rightarrow> tables \<Rightarrow> (nat \<times> ScheduledInstance row) list" where
  "placed dep ts = filter (\<lambda>(i, r). row_deployment r = dep \<and> \<not> row_final r) (scheduled_instances ts)"

lemma ListNonFinal_placed: "ListNonFinalScheduledInstancesForDeployment dep ts = map scheduled_instance_event (placed dep ts)"
  by (simp add: ListNonFinalScheduledInstancesForDeployment_def placed_def)

lemma placed_wf: "tbl_wf (scheduled_instances ts) \<Longrightarrow> tbl_wf (placed dep ts)"
  by (simp add: placed_def table_simps)

lemma placed_get: "tbl_wf (scheduled_instances ts) \<Longrightarrow> tbl_get (placed dep ts) i =
   (case tbl_get (scheduled_instances ts) i of None \<Rightarrow> None
    | Some r \<Rightarrow> if row_deployment r = dep \<and> \<not> row_final r then Some r else None)"
  unfolding placed_def by (subst tbl_get_filter) (auto simp: tbl_wf_def)

lemma placed_retain:
  assumes "tbl_wf (scheduled_instances ts)"
  shows "placed dep' (retainDeployment dep ts) = placed dep' ts"
proof -
  have "\<not> pruned dep ts e" if "case e of (i, r) \<Rightarrow> row_deployment r = dep' \<and> \<not> row_final r" for e
    using that by (cases e) (simp add: pruned_iff)
  then show ?thesis using assms
    by (auto simp: placed_def retained_instances tbl_wf_def intro!: filter_cong)
qed

text \<open>What a change to the placements of one deployment leaves alone.\<close>

definition frame :: "tables \<Rightarrow> tables \<Rightarrow> bool" where
  "frame ts ts' \<longleftrightarrow> deployments ts' = deployments ts \<and> nodes ts' = nodes ts \<and>
    (\<forall>dep'. GetLatestDeployment dep' ts' = GetLatestDeployment dep' ts) \<and>
    (\<forall>k. tbl_get (deployment_versions ts') k \<noteq> None \<longrightarrow> tbl_get (deployment_versions ts) k \<noteq> None)"

lemma frame_refl [simp]: "frame ts ts"
  by (simp add: frame_def)

lemma frame_trans: "frame a b \<Longrightarrow> frame b c \<Longrightarrow> frame a c"
  by (simp add: frame_def)

definition keeps :: "nat \<Rightarrow> tables \<Rightarrow> tables \<Rightarrow> bool" where
  "keeps dep ts ts' \<longleftrightarrow> frame ts ts' \<and>
    (\<forall>dep'. dep' \<noteq> dep \<longrightarrow> placed dep' ts' = placed dep' ts \<and> readSchedulingState dep' ts' = readSchedulingState dep' ts)"

lemma keeps_refl [simp]: "keeps dep ts ts"
  by (simp add: keeps_def)

lemma keeps_trans: "keeps dep a b \<Longrightarrow> keeps dep b c \<Longrightarrow> keeps dep a c"
  unfolding keeps_def by (metis frame_trans)

lemma read_instances_cong:
  assumes "\<And>e. e \<in> set es \<Longrightarrow>
      GetDeploymentVersion (dref_DeploymentID (si_Deployment (sie_Value e))) (dref_Version (si_Deployment (sie_Value e))) ts' =
      GetDeploymentVersion (dref_DeploymentID (si_Deployment (sie_Value e))) (dref_Version (si_Deployment (sie_Value e))) ts"
    and "\<And>e. e \<in> set es \<Longrightarrow> GetLatestScheduledInstanceStatus (sie_ScheduledInstanceID e) ts' =
      GetLatestScheduledInstanceStatus (sie_ScheduledInstanceID e) ts"
  shows "read_instances ts' es = read_instances ts es"
  using assms
proof (induction es)
  case (Cons e es)
  then have "read_instances ts' es = read_instances ts es" by simp
  with Cons.prems [of e] show ?case by (simp split: option.splits)
qed simp

lemma retain_latest:
  assumes "tbl_wf (deployment_versions ts)"
  shows "GetLatestDeployment dep' (retainDeployment dep ts) = GetLatestDeployment dep' ts"
  by (simp add: GetLatestDeployment_def GetDeploymentVersion_def retain_version_get [OF assms] current_version_def
      split: option.splits)

lemma retain_nodes: "nodes (retainDeployment dep ts) = nodes ts"
  by (simp add: retainDeployment_def fold_delete_instances Let_def)

lemma retain_status_get:
  assumes "tables_wf ts" "tbl_get (scheduled_instances ts) i = Some r" "\<not> (row_deployment r = dep \<and> row_final r)"
  shows "tbl_get (scheduled_instance_status (retainDeployment dep ts)) i = tbl_get (scheduled_instance_status ts) i"
proof -
  have i: "\<And>s. (i, s) \<in> set (scheduled_instances ts) \<Longrightarrow> s = r"
    using assms(1,2) by (simp add: tables_wf_def tbl_get_in [symmetric])
  have "i \<notin> fst ` {e \<in> set (scheduled_instances ts). pruned dep ts e}"
    using assms(3) by (auto simp: pruned_iff dest!: i)
  with assms(1) show ?thesis
    unfolding retained_statuses by (subst tbl_get_filter) (auto simp: tables_wf_def tbl_wf_def split: option.splits)
qed

lemma retain_read:
  assumes wf: "tables_wf ts" and ne: "dep' \<noteq> dep"
  shows "readSchedulingState dep' (retainDeployment dep ts) = readSchedulingState dep' ts"
proof -
  let ?ts' = "retainDeployment dep ts"
  note w = tables_wf_sel [OF wf]
  have "read_instances ?ts' (map scheduled_instance_event (placed dep' ts)) =
      read_instances ts (map scheduled_instance_event (placed dep' ts))"
  proof (rule read_instances_cong)
    fix e assume "e \<in> set (map scheduled_instance_event (placed dep' ts))"
    then obtain i r where e: "e = scheduled_instance_event (i, r)" and ir: "(i, r) \<in> set (scheduled_instances ts)"
      "row_deployment r = dep'" by (auto simp: placed_def)
    show "GetDeploymentVersion (dref_DeploymentID (si_Deployment (sie_Value e))) (dref_Version (si_Deployment (sie_Value e))) ?ts' =
      GetDeploymentVersion (dref_DeploymentID (si_Deployment (sie_Value e))) (dref_Version (si_Deployment (sie_Value e))) ts"
      using ir ne by (simp add: e scheduled_instance_event_def GetDeploymentVersion_def retain_version_get [OF w(2)])
    show "GetLatestScheduledInstanceStatus (sie_ScheduledInstanceID e) ?ts' =
      GetLatestScheduledInstanceStatus (sie_ScheduledInstanceID e) ts"
      using retain_status_get [OF wf, of i r dep] ir ne w(3)
      by (simp add: e scheduled_instance_event_def GetLatestScheduledInstanceStatus_def tbl_get_in)
  qed
  then show ?thesis
    by (simp add: readSchedulingState_def ListNonFinal_placed placed_retain [OF w(3)] retain_latest [OF w(2)])
qed

section \<open>Writing one placement\<close>

text \<open>The tables after a placement of \<open>dep\<close> with id \<open>i\<close> is written, before and after retention.\<close>

definition write_instance :: "rowEnvelope \<Rightarrow> ScheduledInstance \<Rightarrow> tables \<Rightarrow> tables" where
  "write_instance env v ts = scheduled_instances_update (upsert env (si_ID v) v (env_EventTime env)) ts"

definition wire_env :: "CoreWriteUpdate \<Rightarrow> rowEnvelope" where
  "wire_env u = \<lparr>env_Seq = upd_Seq u, env_EventTime = upd_Time u, env_Author = upd_Actor u, env_Logged = None\<rparr>"

lemma reduce_instance:
  assumes "Type m = CORE_SCHEDULED_INSTANCE" "Kind m \<noteq> VERB_DELETE" "Entity m = Some (EScheduledInstance v)" "EntityID m = si_ID v"
  shows "\<exists>m'. reduce env m d = Inr (m', bumpEntityID CORE_SCHEDULED_INSTANCE (si_ID v) (d\<lparr>db_tables := write_instance env v (db_tables d)\<rparr>))"
proof -
  have "\<exists>meta'. reduce_entity CORE_SCHEDULED_INSTANCE env (newMeta env) (si_ID v) (EScheduledInstance v) (db_tables d) =
      Some (Inr (meta', write_instance env v (db_tables d)))"
    by (auto simp: reduce_entity_instance put_row_def write_instance_def)
  with assms show ?thesis by (auto simp: reduce_def wrap_reduced_def Let_def)
qed

lemma Apply_instance:
  assumes full: "tx_applied x = length (upd_Mutations (tx_update x))"
    and verb: "verb = VERB_CREATE \<or> verb = VERB_UPDATE"
    and ids: "sie_ScheduledInstanceID e = si_ID (sie_Value e)"
    and old: "\<And>r. tbl_get (scheduled_instances (db_tables (tx_db x))) (si_ID (sie_Value e)) = Some r \<Longrightarrow>
       row_deployment r = dref_DeploymentID (si_Deployment (sie_Value e))"
  obtains x' env where "Apply [ScheduledInstanceMutation verb e] x = Inr x'"
    "tx_applied x' = length (upd_Mutations (tx_update x'))"
    "db_tables (tx_db x') = retainDeployment (dref_DeploymentID (si_Deployment (sie_Value e)))
       (write_instance env (sie_Value e) (db_tables (tx_db x)))"
    "env_Seq env = upd_Seq (tx_update x)"
proof -
  let ?v = "sie_Value e" let ?m = "Wire (ScheduledInstanceMutation verb e)"
  let ?u = "AppendMutations (tx_update x) [ScheduledInstanceMutation verb e]"
  let ?n = "length (upd_Mutations (tx_update x))" let ?dep = "dref_DeploymentID (si_Deployment ?v)"
  have ms: "upd_Mutations ?u = upd_Mutations (tx_update x) @ [?m]" by (simp del: AppendMutations.simps)
  have v: "?v\<lparr>si_ID := si_ID ?v\<rparr> = ?v" by simp
  have m: "Type ?m = CORE_SCHEDULED_INSTANCE" "Kind ?m \<noteq> VERB_DELETE" "Entity ?m = Some (EScheduledInstance ?v)" "EntityID ?m = si_ID ?v"
    using verb ids v
    by (auto simp: Wire_def ScheduledInstanceMutation_def entity_mutation_def CreateMutationOf_def UpdateMutationOf_def)
  from reduce_instance [OF m, of "wire_env ?u" "tx_db x"] obtain m' where
    r: "reduce (wire_env ?u) ?m (tx_db x) = Inr (m', bumpEntityID CORE_SCHEDULED_INSTANCE (si_ID ?v)
      ((tx_db x)\<lparr>db_tables := write_instance (wire_env ?u) ?v (db_tables (tx_db x))\<rparr>))" by blast
  have aff: "affectedDeployment ?m (db_tables (tx_db x)) [] = [?dep]"
    using m old by (auto simp: affectedDeployment_def Let_def split: option.splits)
  have no: "orphan_statuses [?m] = []" using m by (simp add: orphan_statuses_def)
  have one: "replicate (Suc 0) None = [None :: (nat \<times> nat) option]" by simp
  let ?d = "(bumpEntityID CORE_SCHEDULED_INSTANCE (si_ID ?v)
      ((tx_db x)\<lparr>db_tables := write_instance (wire_env ?u) ?v (db_tables (tx_db x))\<rparr>))"
  have red: "reduceUpdate ?n ?u (replicate (Suc ?n) None) (tx_db x) = Inr (?u\<lparr>upd_Mutations := upd_Mutations (tx_update x) @ [m']\<rparr>,
     ?d\<lparr>db_tables := retainDeployment ?dep (db_tables ?d)\<rparr>)"
    using r aff no by (simp add: reduceUpdate_def Let_def ms wire_env_def one del: AppendMutations.simps replicate_Suc)
  let ?x' = "\<lparr>tx_db = ?d\<lparr>db_tables := retainDeployment ?dep (db_tables ?d)\<rparr>,
     tx_update = ?u\<lparr>upd_Mutations := upd_Mutations (tx_update x) @ [m']\<rparr>, tx_applied = Suc ?n\<rparr>"
  have "Apply [ScheduledInstanceMutation verb e] x = Inr ?x'"
    using red full by (simp add: Apply_def tx_reduce_def ReduceUpdate_def ms max_def del: AppendMutations.simps replicate_Suc)
  then show ?thesis
    by (rule that [of ?x' "wire_env ?u"]) (simp_all add: bumpEntityID_def wire_env_def del: AppendMutations.simps)
qed

text \<open>Only the rows of the placement's own deployment change.\<close>

lemma write_instance_wf: "tables_wf ts \<Longrightarrow> tables_wf (write_instance env v ts)"
  unfolding write_instance_def by (rule tables_wf_update) (simp_all add: table_simps)

lemma write_instance_get:
  "tables_wf ts \<Longrightarrow> tbl_get (scheduled_instances (write_instance env v ts)) i =
    (if i = si_ID v then Some (make_row env v (upsert_created env (si_ID v) (scheduled_instances ts) (env_EventTime env)))
     else tbl_get (scheduled_instances ts) i)"
  by (simp add: write_instance_def upsert_get tables_wf_def)

lemma write_instance_sel [simp]:
  "deployments (write_instance env v ts) = deployments ts" "deployment_versions (write_instance env v ts) = deployment_versions ts"
  "nodes (write_instance env v ts) = nodes ts" "scheduled_instance_status (write_instance env v ts) = scheduled_instance_status ts"
  "GetLatestDeployment dep (write_instance env v ts) = GetLatestDeployment dep ts"
  by (simp_all add: write_instance_def GetLatestDeployment_def GetDeploymentVersion_def split: option.splits)

definition own :: "nat \<Rightarrow> ScheduledInstance \<Rightarrow> tables \<Rightarrow> bool" where
  "own dep v ts \<longleftrightarrow> dref_DeploymentID (si_Deployment v) = dep \<and>
    (\<forall>r. tbl_get (scheduled_instances ts) (si_ID v) = Some r \<longrightarrow> row_deployment r = dep)"

lemma write_instance_keeps:
  assumes wf: "tables_wf ts" and "own dep v ts"
  shows "keeps dep ts (retainDeployment dep (write_instance env v ts))"
proof -
  let ?w = "write_instance env v ts"
  note wf' = write_instance_wf [OF wf, of env v] note w' = tables_wf_sel [OF wf']
  have p: "placed dep' ?w = placed dep' ts" if "dep' \<noteq> dep" for dep'
    by (rule tbl_ext) (use that assms in \<open>auto simp: placed_wf w' tables_wf_sel [OF wf] placed_get write_instance_get
        own_def fun_eq_iff split: option.splits\<close>)
  have "readSchedulingState dep' ?w = readSchedulingState dep' ts" if "dep' \<noteq> dep" for dep'
    using p [OF that] read_instances_cong [of _ ?w ts]
    by (simp add: readSchedulingState_def ListNonFinal_placed GetDeploymentVersion_def GetLatestScheduledInstanceStatus_def)
  with p show ?thesis
    by (auto simp: keeps_def frame_def retain_nodes retain_version_get [OF w'(2)] retain_latest [OF w'(2)] placed_retain [OF w'(3)] retain_read [OF wf'])
qed

lemma write_instance_placed:
  assumes wf: "tables_wf ts" and "own dep v ts"
  shows "tbl_get (placed dep (retainDeployment dep (write_instance env v ts))) i =
    (if i = si_ID v then
       (if si_State v = TARGET_FINALIZED then None
        else Some (make_row env v (upsert_created env (si_ID v) (scheduled_instances ts) (env_EventTime env))))
     else tbl_get (placed dep ts) i)"
  using assms by (simp add: placed_retain tables_wf_sel [OF write_instance_wf [OF wf]] placed_get write_instance_get
      tables_wf_sel [OF wf] own_def)

lemma write_instance_pins:
  assumes wf: "tables_wf ts" and "pins_ok ts" and "own dep v ts"
    and "tbl_get (deployment_versions ts) (dep, dref_Version (si_Deployment v)) \<noteq> None"
  shows "pins_ok (retainDeployment dep (write_instance env v ts))"
proof -
  let ?w = "write_instance env v ts"
  note w' = tables_wf_sel [OF write_instance_wf [OF wf, of env v]]
  have "tbl_get (deployment_versions ts) (row_deployment r, dref_Version (si_Deployment (row_value r))) \<noteq> None"
    if "(i, r) \<in> set (scheduled_instances ?w)" for i r
  proof -
    have "tbl_get (scheduled_instances ?w) i = Some r" using w'(3) that by (simp add: tbl_get_in)
    then have "i = si_ID v \<and> row_value r = v \<or> (i, r) \<in> set (scheduled_instances ts)"
      using tables_wf_sel(3) [OF wf] by (auto simp: write_instance_get [OF wf] tbl_get_in split: if_splits)
    with assms(2-4) show ?thesis by (auto simp: pins_ok_def own_def)
  qed
  then have "pins_ok ?w" by (auto simp: pins_ok_def)
  then show ?thesis using w' by (intro retain_pins_ok) (simp_all add: tbl_wf_def)
qed

section \<open>The slice mirrors the rows\<close>

abbreviation view :: "transaction \<Rightarrow> ScheduledInstance list" where
  "view t \<equiv> map inst_value (st_instances t)"

abbreviation non_final :: "ScheduledInstance \<Rightarrow> bool" where
  "non_final v \<equiv> si_State v \<noteq> TARGET_FINALIZED"

definition keyed :: "ScheduledInstance list \<Rightarrow> (nat, ScheduledInstance) table" where
  "keyed vs = map (\<lambda>v. (si_ID v, v)) (filter non_final vs)"

definition row_instance :: "nat \<times> ScheduledInstance row \<Rightarrow> ScheduledInstance" where
  "row_instance = (\<lambda>(i, r). (row_value r)\<lparr>si_ID := i\<rparr>)"

abbreviation st_tables :: "transaction \<Rightarrow> tables" where
  "st_tables t \<equiv> db_tables (tx_db (st_txn t))"

text \<open>A transaction between two reductions: nothing is pending.\<close>

definition settled :: "txn \<Rightarrow> bool" where
  "settled x \<longleftrightarrow> tx_inv x \<and> tx_applied x = length (upd_Mutations (tx_update x)) \<and> pins_ok (db_tables (tx_db x))"

definition tracks :: "nat \<Rightarrow> ScheduledInstance list \<Rightarrow> transaction \<Rightarrow> bool" where
  "tracks dep cr t \<longleftrightarrow> settled (st_txn t) \<and> upd_Seq (tx_update (st_txn t)) = st_seq t \<and>
    (\<forall>e \<in> set (st_instances t). sie_ScheduledInstanceID (sc_Event e) = inst_id e) \<and>
    (\<forall>v \<in> set (view t @ cr). dref_DeploymentID (si_Deployment v) = dep) \<and>
    (\<forall>i \<in> set (map si_ID (view t @ cr)). i < counter CORE_SCHEDULED_INSTANCE (tx_db (st_txn t))) \<and>
    sorted_wrt (<) (map si_ID (view t @ cr)) \<and>
    (\<forall>i. map_option (\<lambda>r. row_instance (i, r)) (tbl_get (placed dep (st_tables t)) i) = tbl_get (keyed (view t @ cr)) i)"

lemma sorted_ids_distinct: "sorted_wrt (<) (map si_ID vs) \<Longrightarrow> distinct (map si_ID vs)"
  using strict_sorted_iff by blast

lemma keyed_get:
  assumes "distinct (map si_ID vs)"
  shows "tbl_get (keyed vs) i = Some v \<longleftrightarrow> v \<in> set vs \<and> non_final v \<and> si_ID v = i"
proof -
  have "distinct (map fst (keyed vs))" using assms by (simp add: keyed_def comp_def distinct_map_filter)
  then show ?thesis by (auto simp: keyed_def)
qed

lemma keyed_wf:
  assumes "sorted_wrt (<) (map si_ID vs)"
  shows "tbl_wf (keyed vs)"
proof -
  have "sorted_wrt (<) (map si_ID (filter non_final vs))"
    using assms by (simp add: sorted_wrt_map sorted_wrt_filter)
  then show ?thesis by (simp add: tbl_wf_def keyed_def comp_def strict_sorted_iff)
qed

lemma tbl_get_map_value: "tbl_get (map (\<lambda>e. (fst e, f e)) p) i = map_option (\<lambda>r. f (i, r)) (tbl_get p i)"
  by (induction p) auto

lemma option_eqI: "(\<And>v. a = Some v \<longleftrightarrow> b = Some v) \<Longrightarrow> a = b"
  by (cases a; cases b) auto

lemma keyed_update:
  assumes "distinct (map si_ID vs)" "k < length vs" "si_ID w = si_ID (vs ! k)"
  shows "tbl_get (keyed (vs[k := w])) i =
    (if i = si_ID w then (if non_final w then Some w else None) else tbl_get (keyed vs) i)"
proof (rule option_eqI)
  fix v
  have d: "distinct (map si_ID (vs[k := w]))"
    using assms by (metis list_update_id map_update nth_map)
  have "distinct vs" using assms(1) by (simp add: distinct_map)
  then have s: "set (vs[k := w]) = insert w (set vs - {vs ! k})"
    by (rule set_update_distinct [OF _ assms(2)])
  have "si_ID u \<noteq> si_ID w" if "u \<in> set vs" "u \<noteq> vs ! k" for u
    using assms that by (metis distinct_map inj_on_def nth_mem)
  with assms(2,3) show "tbl_get (keyed (vs[k := w])) i = Some v \<longleftrightarrow>
      (if i = si_ID w then (if non_final w then Some w else None) else tbl_get (keyed vs) i) = Some v"
    by (auto simp: keyed_get [OF d] keyed_get [OF assms(1)] s)
qed

lemma tracks_list:
  assumes "tracks dep cr t"
  shows "map row_instance (placed dep (st_tables t)) = filter non_final (view t @ cr)"
proof -
  let ?p = "placed dep (st_tables t)" let ?vs = "view t @ cr"
  have wfp: "tbl_wf ?p" using assms by (auto simp: tracks_def settled_def tx_inv_def db_inv_def tables_wf_def intro: placed_wf)
  let ?q = "map (\<lambda>e. (fst e, row_instance e)) ?p"
  have wfq: "tbl_wf ?q" using wfp by (simp add: tbl_wf_def comp_def)
  have "tbl_get ?q i = map_option (\<lambda>r. row_instance (i, r)) (tbl_get ?p i)" for i
    by (rule tbl_get_map_value)
  then have "?q = keyed ?vs"
    using assms wfq by (intro tbl_ext) (auto simp: tracks_def intro: keyed_wf)
  then have "map snd ?q = map snd (keyed ?vs)" by simp
  then show ?thesis by (simp add: keyed_def comp_def)
qed

lemma tracks_get:
  assumes "tracks dep cr t" "v \<in> set (view t @ cr)" "non_final v"
  obtains r where "tbl_get (placed dep (st_tables t)) (si_ID v) = Some r" "row_instance (si_ID v, r) = v"
proof -
  from assms have d: "distinct (map si_ID (view t @ cr))" unfolding tracks_def by (metis sorted_ids_distinct)
  have "tbl_get (keyed (view t @ cr)) (si_ID v) = Some v"
    using assms(2,3) by (simp only: keyed_get [OF d] simp_thms)
  moreover have "map_option (\<lambda>r. row_instance (si_ID v, r)) (tbl_get (placed dep (st_tables t)) (si_ID v)) =
      tbl_get (keyed (view t @ cr)) (si_ID v)" using assms(1) by (simp add: tracks_def)
  ultimately show ?thesis using that by auto
qed

lemma settled_wf: "settled x \<Longrightarrow> tables_wf (db_tables (tx_db x))"
  by (simp add: settled_def tx_inv_def db_inv_def)

text \<open>
  Publishing a placement of the deployment: the rows follow, nothing else moves. The facts about
  the id are what an update of a tracked instance and a fresh id both give.
\<close>

definition follows :: "nat \<Rightarrow> txn \<Rightarrow> ScheduledInstance \<Rightarrow> txn \<Rightarrow> bool" where
  "follows dep x v x' \<longleftrightarrow> settled x' \<and> upd_Seq (tx_update x') = upd_Seq (tx_update x) \<and>
    keeps dep (db_tables (tx_db x)) (db_tables (tx_db x')) \<and> counters_le (tx_db x) (tx_db x') \<and>
    (\<forall>i. map_option (\<lambda>r. row_instance (i, r)) (tbl_get (placed dep (db_tables (tx_db x'))) i) =
      (if i = si_ID v then (if non_final v then Some v else None)
       else map_option (\<lambda>r. row_instance (i, r)) (tbl_get (placed dep (db_tables (tx_db x))) i)))"

lemma publish_follows:
  assumes set: "settled (st_txn t)" and verb: "verb = VERB_CREATE \<or> verb = VERB_UPDATE"
    and ids: "sie_ScheduledInstanceID e = si_ID (sie_Value e)"
    and own: "own dep (sie_Value e) (st_tables t)"
    and pin: "tbl_get (deployment_versions (st_tables t)) (dep, dref_Version (si_Deployment (sie_Value e))) \<noteq> None"
  shows "\<exists>x. publish verb e t = Inr (t\<lparr>st_txn := x, st_changed := True\<rparr>) \<and> follows dep (st_txn t) (sie_Value e) x"
proof -
  let ?v = "sie_Value e"
  note wf = settled_wf [OF set]
  have full: "tx_applied (st_txn t) = length (upd_Mutations (tx_update (st_txn t)))" using set by (simp add: settled_def)
  have dep: "dref_DeploymentID (si_Deployment ?v) = dep" using own by (simp add: own_def)
  have old: "\<And>r. tbl_get (scheduled_instances (st_tables t)) (si_ID ?v) = Some r \<Longrightarrow>
      row_deployment r = dref_DeploymentID (si_Deployment ?v)" using own by (simp add: own_def)
  obtain x env where x: "Apply [ScheduledInstanceMutation verb e] (st_txn t) = Inr x"
    and xf: "tx_applied x = length (upd_Mutations (tx_update x))"
    and xt: "db_tables (tx_db x) = retainDeployment (dref_DeploymentID (si_Deployment ?v)) (write_instance env ?v (st_tables t))"
    using Apply_instance [OF full verb ids old] by metis
  have ref: "refines (st_txn t) x" using Apply_refines [OF x] .
  have inv: "tx_inv x" "counters_le (tx_db (st_txn t)) (tx_db x)"
    using tx_steps_inv ref set by (auto simp: refines_def settled_def)
  have "pins_ok (db_tables (tx_db x))"
    using write_instance_pins [OF wf _ own pin] set by (simp add: settled_def xt dep)
  with inv have "settled x" using xf by (simp add: settled_def)
  moreover have "row_instance (si_ID ?v, make_row env ?v c) = ?v" for c by (simp add: row_instance_def)
  ultimately have "follows dep (st_txn t) ?v x"
    using ref inv write_instance_keeps [OF wf own, of env] write_instance_placed [OF wf own, of env]
    by (simp add: refines_def xt dep follows_def)
  moreover have "publish verb e t = Inr (t\<lparr>st_txn := x, st_changed := True\<rparr>)" using x by (simp add: publish_def)
  ultimately show ?thesis by blast
qed

lemma tracks_own:
  assumes tr: "tracks dep cr t" and v: "v \<in> set (view t @ cr)" "non_final v"
    and w: "si_ID w = si_ID v" "si_Deployment w = si_Deployment v"
  shows "own dep w (st_tables t)"
    "tbl_get (deployment_versions (st_tables t)) (dep, dref_Version (si_Deployment w)) \<noteq> None"
proof -
  from tr have wf: "tables_wf (st_tables t)" and pins: "pins_ok (st_tables t)" and d: "dref_DeploymentID (si_Deployment v) = dep"
    using v by (auto simp: tracks_def settled_def tx_inv_def db_inv_def)
  from tracks_get [OF tr v] obtain r where r: "tbl_get (placed dep (st_tables t)) (si_ID v) = Some r"
    "row_instance (si_ID v, r) = v" .
  then have g: "tbl_get (scheduled_instances (st_tables t)) (si_ID v) = Some r" "row_deployment r = dep"
    by (auto simp: placed_get tables_wf_sel [OF wf] split: option.splits if_splits)
  then show "own dep w (st_tables t)" using w d by (simp add: own_def)
  have "si_Deployment (row_instance (si_ID v, r)) = si_Deployment (row_value r)" by (simp add: row_instance_def)
  with r(2) have "si_Deployment (row_value r) = si_Deployment v" by simp
  with g pins w show "tbl_get (deployment_versions (st_tables t)) (dep, dref_Version (si_Deployment w)) \<noteq> None"
    using tables_wf_sel(3) [OF wf] by (fastforce simp: pins_ok_def tbl_get_in)
qed

section \<open>The operations of a pass\<close>

definition moved :: "nat \<Rightarrow> transaction \<Rightarrow> transaction \<Rightarrow> bool" where
  "moved dep t t' \<longleftrightarrow> st_seq t' = st_seq t \<and> st_now t' = st_now t \<and> st_scheduler t' = st_scheduler t \<and>
    st_evicted t' = st_evicted t \<and> length (st_instances t') = length (st_instances t) \<and>
    map sc_Status (st_instances t') = map sc_Status (st_instances t) \<and>
    keeps dep (st_tables t) (st_tables t') \<and> (st_changed t \<longrightarrow> st_changed t') \<and> (\<not> st_changed t' \<longrightarrow> t' = t)"

lemma moved_refl [simp]: "moved dep t t"
  by (simp add: moved_def)

lemma moved_trans: "moved dep a b \<Longrightarrow> moved dep b c \<Longrightarrow> moved dep a c"
  unfolding moved_def by (metis keeps_trans)

definition with_state :: "nat \<Rightarrow> ScheduledInstanceTarget \<Rightarrow> ScheduledInstance list \<Rightarrow> ScheduledInstance list" where
  "with_state k g vs = vs[k := (vs ! k)\<lparr>si_State := g\<rparr>]"

lemma with_state_nth:
  "i < length vs \<Longrightarrow> with_state k g vs ! i = (if k = i then (vs ! i)\<lparr>si_State := g\<rparr> else vs ! i)"
  by (auto simp: with_state_def)

lemma with_state_length [simp]: "length (with_state k g vs) = length vs"
  by (simp add: with_state_def)

lemma with_state_ids [simp]:
  "map si_ID (with_state k g vs) = map si_ID vs"
  by (rule nth_equalityI) (auto simp: with_state_nth)

lemma with_state_append: "k < length vs \<Longrightarrow> with_state k g (vs @ ws) = with_state k g vs @ ws"
  by (simp add: with_state_def nth_append list_update_append)

lemma set_target_tracks:
  assumes tr: "tracks dep cr t" and k: "k < length (st_instances t)" and nf: "inst_state (inst_at t k) \<noteq> TARGET_FINALIZED"
  obtains t' where "set_target k g t = Inr t'" "tracks dep cr t'" "view t' = with_state k g (view t)" "moved dep t t'"
proof (cases "inst_state (inst_at t k) = g")
  case True
  then have "set_target k g t = Inr t" by (simp add: set_target_def)
  moreover have "view t = with_state k g (view t)"
    using True k by (metis (no_types, lifting) ScheduledInstance.surjective ScheduledInstance.update_convs(4)
        list_update_id nth_map with_state_def)
  ultimately show ?thesis using that tr moved_refl by metis
next
  case False
  let ?e = "ScheduledInstanceTransition (st_seq t) (sc_Event (inst_at t k)) g (st_now t)"
  let ?v = "view t ! k"
  let ?t = "t\<lparr>st_instances := (st_instances t)[k := (inst_at t k)\<lparr>sc_Event := ?e\<rparr>]\<rparr>"
  have v: "?v = inst_value (inst_at t k)" "?v \<in> set (view t @ cr)" "non_final ?v"
    using k nf by (simp, metis UnCI length_map nth_mem set_append, simp)
  have ev: "sie_Value ?e = ?v\<lparr>si_State := g\<rparr>" "sie_ScheduledInstanceID ?e = si_ID (sie_Value ?e)"
    using tr k by (auto simp: ScheduledInstanceTransition_def v(1) tracks_def)
  have set: "settled (st_txn ?t)" using tr by (simp add: tracks_def)
  have own: "own dep (sie_Value ?e) (st_tables ?t)"
    "tbl_get (deployment_versions (st_tables ?t)) (dep, dref_Version (si_Deployment (sie_Value ?e))) \<noteq> None"
    using tracks_own [OF tr v(2,3), of "sie_Value ?e"] by (simp_all add: ev(1))
  from publish_follows [OF set _ ev(2) own, of VERB_UPDATE] obtain x where
    x: "publish VERB_UPDATE ?e ?t = Inr (?t\<lparr>st_txn := x, st_changed := True\<rparr>)"
    and "follows dep (st_txn ?t) (sie_Value ?e) x" by auto
  then have fx: "settled x" "upd_Seq (tx_update x) = upd_Seq (tx_update (st_txn t))"
    "keeps dep (st_tables t) (db_tables (tx_db x))" "counters_le (tx_db (st_txn t)) (tx_db x)"
    and rows: "map_option (\<lambda>r. row_instance (i, r)) (tbl_get (placed dep (db_tables (tx_db x))) i) =
      (if i = si_ID (sie_Value ?e) then (if non_final (sie_Value ?e) then Some (sie_Value ?e) else None)
       else map_option (\<lambda>r. row_instance (i, r)) (tbl_get (placed dep (st_tables t)) i))" for i
    by (simp_all add: follows_def)
  let ?t' = "?t\<lparr>st_txn := x, st_changed := True\<rparr>"
  have vw: "view ?t' = with_state k g (view t)" using ev(1) by (simp add: with_state_def map_update)
  have d: "distinct (map si_ID (view t @ cr))" using tr unfolding tracks_def by (metis sorted_ids_distinct)
  have kv: "k < length (view t @ cr)" using k by simp
  have vk: "(view t @ cr) ! k = ?v" using k by (simp add: nth_append)
  have key: "tbl_get (keyed (with_state k g (view t @ cr))) i =
     (if i = si_ID (sie_Value ?e) then (if non_final (sie_Value ?e) then Some (sie_Value ?e) else None)
      else tbl_get (keyed (view t @ cr)) i)" for i
    unfolding with_state_def vk ev(1) by (subst keyed_update [OF d kv]) (simp_all add: vk)
  have sv: "set (with_state k g (view t) @ cr) \<subseteq> insert (sie_Value ?e) (set (view t @ cr))"
    by (auto simp: with_state_def ev(1) dest!: set_update_subset_insert [THEN subsetD])
  have "tracks dep cr ?t'"
    unfolding tracks_def vw
  proof (intro conjI)
    show "settled (st_txn ?t')" "upd_Seq (tx_update (st_txn ?t')) = st_seq ?t'" using fx tr by (simp_all add: tracks_def)
    show "\<forall>e \<in> set (st_instances ?t'). sie_ScheduledInstanceID (sc_Event e) = inst_id e"
      using tr ev(2) by (auto simp: tracks_def dest!: set_update_subset_insert [THEN subsetD])
    show "\<forall>v \<in> set (with_state k g (view t) @ cr). dref_DeploymentID (si_Deployment v) = dep"
      using sv tr own(1) by (auto simp: tracks_def own_def)
    have "map si_ID (with_state k g (view t) @ cr) = map si_ID (view t @ cr)" by simp
    moreover have "counter CORE_SCHEDULED_INSTANCE (tx_db (st_txn t)) \<le> counter CORE_SCHEDULED_INSTANCE (tx_db x)"
      using fx(4) by (simp add: counters_le_def)
    ultimately show "\<forall>i \<in> set (map si_ID (with_state k g (view t) @ cr)). i < counter CORE_SCHEDULED_INSTANCE (tx_db (st_txn ?t'))"
      using tr unfolding tracks_def by (simp only:) (auto intro: order_less_le_trans)
    show "sorted_wrt (<) (map si_ID (with_state k g (view t) @ cr))" using tr by (simp add: tracks_def)
    show "\<forall>i. map_option (\<lambda>r. row_instance (i, r)) (tbl_get (placed dep (st_tables ?t')) i) =
        tbl_get (keyed (with_state k g (view t) @ cr)) i"
      using tr k rows key by (simp add: tracks_def with_state_append [symmetric])
  qed
  moreover have "set_target k g t = Inr ?t'" using False x by (simp add: set_target_def Let_def)
  moreover have "moved dep t ?t'"
    using fx(3) k by (auto simp: moved_def map_update)  (metis list_update_id nth_map)
  ultimately show ?thesis using that vw by blast
qed

lemma scheduled_instance_event_sel [simp]:
  "sie_Value (scheduled_instance_event e) = row_instance e" "sie_ScheduledInstanceID (scheduled_instance_event e) = fst e"
  "si_ID (row_instance e) = fst e" "si_State (row_instance e) = si_State (row_value (snd e))"
  "si_Deployment (row_instance e) = si_Deployment (row_value (snd e))"
  "si_InstanceOrdinal (row_instance e) = si_InstanceOrdinal (row_value (snd e))"
  by (cases e; simp add: scheduled_instance_event_def row_instance_def)+

lemma read_instances_ok:
  assumes "\<forall>e \<in> set evs. GetDeploymentVersion (dref_DeploymentID (si_Deployment (sie_Value e))) (dref_Version (si_Deployment (sie_Value e))) ts \<noteq> None"
  shows "\<exists>es. read_instances ts evs = Inr es \<and> map sc_Event es = evs"
  using assms
proof (induction evs)
  case (Cons e evs)
  then obtain es where "read_instances ts evs = Inr es" "map sc_Event es = evs" by auto
  with Cons.prems show ?case by (auto split: option.splits)
qed simp

lemma read_tracks:
  assumes set: "settled x"
  obtains es where "readSchedulingState dep (db_tables (tx_db x)) = Inr (GetLatestDeployment dep (db_tables (tx_db x)), es)"
    "tracks dep [] (begin_pass s now ev es x)" "map inst_value es = map row_instance (placed dep (db_tables (tx_db x)))"
proof -
  let ?ts = "db_tables (tx_db x)" let ?p = "placed dep ?ts"
  have wf: "tables_wf ?ts" and pins: "pins_ok ?ts" and inv: "db_inv (tx_db x)"
    using set by (auto simp: settled_def tx_inv_def db_inv_def)
  have wfp: "tbl_wf ?p" using wf by (simp add: placed_wf tables_wf_sel)
  have p: "row_deployment (snd e) = dep \<and> \<not> row_final (snd e) \<and> e \<in> set (scheduled_instances ?ts)" if "e \<in> set ?p" for e
    using that by (auto simp: placed_def)
  have "\<forall>e \<in> set (map scheduled_instance_event ?p). GetDeploymentVersion (dref_DeploymentID (si_Deployment (sie_Value e)))
      (dref_Version (si_Deployment (sie_Value e))) ?ts \<noteq> None"
    using pins by (auto simp: pins_ok_def GetDeploymentVersion_def dest!: p)
  from read_instances_ok [OF this] obtain es where es: "read_instances ?ts (map scheduled_instance_event ?p) = Inr es"
    "map sc_Event es = map scheduled_instance_event ?p" by blast
  have vals: "map inst_value es = map row_instance ?p"
    using arg_cong [OF es(2), of "map sie_Value"] by (simp add: comp_def)
  have ids: "map (\<lambda>e. sie_ScheduledInstanceID (sc_Event e)) es = map inst_id es"
    using arg_cong [OF es(2), of "map sie_ScheduledInstanceID"] arg_cong [OF vals, of "map si_ID"] by (simp add: comp_def)
  have key: "keyed (map row_instance ?p) = map (\<lambda>e. (fst e, row_instance e)) ?p"
    using p by (auto simp: keyed_def filter_map comp_def intro!: filter_id_conv [THEN iffD2])
  have srt: "map si_ID (map row_instance ?p) = map fst ?p" by simp
  have cnt: "\<forall>i \<in> set (map fst ?p). i < counter CORE_SCHEDULED_INSTANCE (tx_db x)"
  proof
    fix i assume "i \<in> set (map fst ?p)"
    then have "i \<in> entity_keys CORE_SCHEDULED_INSTANCE ?ts" using p by (auto simp: entity_keys_def)
    with inv show "i < counter CORE_SCHEDULED_INSTANCE (tx_db x)" by (simp add: db_inv_def)
  qed
  let ?t = "begin_pass s now ev es x"
  have vw: "view ?t @ [] = map row_instance ?p" using vals by (simp add: begin_pass_def)
  have "tracks dep [] ?t"
    unfolding tracks_def vw srt
  proof (intro conjI)
    show "settled (st_txn ?t)" "upd_Seq (tx_update (st_txn ?t)) = st_seq ?t" using set by (simp_all add: begin_pass_def)
    show "\<forall>e \<in> set (st_instances ?t). sie_ScheduledInstanceID (sc_Event e) = inst_id e"
      using ids by (simp add: begin_pass_def)
    show "\<forall>v \<in> set (map row_instance ?p). dref_DeploymentID (si_Deployment v) = dep" using p by auto
    show "\<forall>i \<in> set (map fst ?p). i < counter CORE_SCHEDULED_INSTANCE (tx_db (st_txn ?t))" using cnt by (simp add: begin_pass_def)
    show "sorted_wrt (<) (map fst ?p)" using wfp by (simp add: tbl_wf_def strict_sorted_iff)
    show "\<forall>i. map_option (\<lambda>r. row_instance (i, r)) (tbl_get (placed dep (st_tables ?t)) i) = tbl_get (keyed (map row_instance ?p)) i"
      unfolding key tbl_get_map_value by (simp add: begin_pass_def)
  qed
  then show ?thesis using that es vals by (simp add: readSchedulingState_def ListNonFinal_placed)
qed

text \<open>A placement created for the current version gets an id above every other.\<close>

lemma latest_version_row:
  "GetLatestDeployment dep ts = Some c \<Longrightarrow>
   dep_ID (drec_Deployment c) = dep \<and> tbl_get (deployment_versions ts) (dep, meta_Version (drec_Meta c)) \<noteq> None"
  by (auto simp: GetLatestDeployment_def GetDeploymentVersion_def deployment_record_def split: option.splits)

lemma create_tracks:
  assumes tr: "tracks dep [] t" and c: "GetLatestDeployment dep (st_tables t) = Some c"
    and n: "newInstance (st_seq t) c ord target (st_now t) (tx_db (st_txn t)) = (e, d)"
    and nf: "target \<noteq> TARGET_FINALIZED"
  obtains t' where "publish VERB_CREATE e (t\<lparr>st_txn := (st_txn t)\<lparr>tx_db := d\<rparr>\<rparr>) = Inr t'" "tracks dep [sie_Value e] t'"
    "st_instances t' = st_instances t" "moved dep t t'" "st_changed t'"
    "si_State (sie_Value e) = target" "si_InstanceOrdinal (sie_Value e) = ord"
    "dref_Version (si_Deployment (sie_Value e)) = meta_Version (drec_Meta c)"
    "si_NodeID (sie_Value e) = PlacementNodeID (drec_Deployment c)"
proof -
  let ?x = "st_txn t" let ?v = "sie_Value e" let ?t = "t\<lparr>st_txn := ?x\<lparr>tx_db := d\<rparr>\<rparr>"
  have set: "settled ?x" and inv: "db_inv (tx_db ?x)" using tr by (auto simp: tracks_def settled_def tx_inv_def)
  then have wf: "tbl_wf (db_entity_ids (tx_db ?x))" by (simp add: db_inv_def)
  obtain i where i: "NextEntityID CORE_SCHEDULED_INSTANCE (tx_db ?x) = (i, d)"
    using n by (auto simp: newInstance_def NextScheduledInstanceID_def split: prod.splits)
  note id = NextEntityID_spec [OF i wf]
  have v: "si_ID ?v = i" "si_State ?v = target" "si_InstanceOrdinal ?v = ord"
    "si_Deployment ?v = \<lparr>dref_DeploymentID = dep, dref_Version = meta_Version (drec_Meta c)\<rparr>"
    "sie_ScheduledInstanceID e = si_ID ?v" "si_NodeID ?v = PlacementNodeID (drec_Deployment c)"
    using n i latest_version_row [OF c]
    by (auto simp: newInstance_def NextScheduledInstanceID_def NewScheduledInstanceEvent_def)
  have steps: "tx_inv (?x\<lparr>tx_db := d\<rparr>)"
    using tx_steps_inv [OF tx_steps.alloc [OF tx_steps.start i]] set by (simp add: settled_def)
  then have set': "settled (st_txn ?t)" using set id by (simp add: settled_def)
  have fresh: "tbl_get (scheduled_instances (st_tables t)) i = None"
    using inv id(1) by (force simp: db_inv_def entity_keys_def map_of_eq_None_iff)
  have own: "own dep ?v (st_tables ?t)" using v fresh id by (simp add: own_def)
  have pin: "tbl_get (deployment_versions (st_tables ?t)) (dep, dref_Version (si_Deployment ?v)) \<noteq> None"
    using latest_version_row [OF c] v id by simp
  from publish_follows [OF set' _ v(5) own pin, of VERB_CREATE] obtain x where
    x: "publish VERB_CREATE e ?t = Inr (?t\<lparr>st_txn := x, st_changed := True\<rparr>)"
    and f: "follows dep (st_txn ?t) ?v x" by auto
  let ?t' = "?t\<lparr>st_txn := x, st_changed := True\<rparr>"
  have ids: "\<forall>j \<in> set (map si_ID (view t)). j < i" using tr id(1) by (simp add: tracks_def)
  have le: "i + 1 \<le> counter CORE_SCHEDULED_INSTANCE (tx_db x)"
    using f id(1) id(2) [of CORE_SCHEDULED_INSTANCE] by (simp add: follows_def counters_le_def) (metis id(1))
  have new: "\<forall>j. tbl_get (keyed (view t @ [?v])) j = (if j = si_ID ?v then Some ?v else tbl_get (keyed (view t)) j)"
    using v(2) nf ids v(1) by (auto simp: keyed_def map_of_append map_add_def split: option.splits dest!: map_of_SomeD)
      (metis less_irrefl)+
  have "tracks dep [?v] ?t'"
    unfolding tracks_def
  proof (intro conjI)
    show "settled (st_txn ?t')" "upd_Seq (tx_update (st_txn ?t')) = st_seq ?t'"
      using f tr by (simp_all add: follows_def tracks_def)
    show "\<forall>e \<in> set (st_instances ?t'). sie_ScheduledInstanceID (sc_Event e) = inst_id e" using tr by (simp add: tracks_def)
    show "\<forall>w \<in> set (view ?t' @ [?v]). dref_DeploymentID (si_Deployment w) = dep" using tr v by (simp add: tracks_def)
    show "\<forall>j \<in> set (map si_ID (view ?t' @ [?v])). j < counter CORE_SCHEDULED_INSTANCE (tx_db (st_txn ?t'))"
      using ids le v(1) by fastforce
    show "sorted_wrt (<) (map si_ID (view ?t' @ [?v]))" using tr ids v(1) by (simp add: tracks_def sorted_wrt_append)
    show "\<forall>j. map_option (\<lambda>r. row_instance (j, r)) (tbl_get (placed dep (st_tables ?t')) j) = tbl_get (keyed (view ?t' @ [?v])) j"
      using f tr new v(2) nf id(4) by (simp add: follows_def tracks_def)
  qed
  moreover have "moved dep t ?t'" using f id(4) by (simp add: moved_def follows_def)
  ultimately show ?thesis using that [OF x] v by simp
qed

end
