(* ===== verification/Scheduler_Pass.thy ===== *)
theory Scheduler_Pass
  imports Scheduler_Track
begin

text \<open>
  One scheduling pass on the slice: a potential that every change lowers, the ordering and the
  single-serving invariant that it keeps, and what holds when it changed nothing.
\<close>

section \<open>The potential\<close>

definition weight :: "ScheduledInstanceTarget \<Rightarrow> nat" where
  "weight g = (if g = TARGET_RUN_SERVING \<or> g = TARGET_RUN_STANDBY then 3 else if g = TARGET_RUN_DRAINING then 2
     else if g = TARGET_TERMINATE then 1 else 0)"

definition exact_v :: "DeploymentRecord \<Rightarrow> ScheduledInstance \<Rightarrow> bool" where
  "exact_v c v \<longleftrightarrow> si_InstanceOrdinal v = defaultInstanceOrdinal \<and>
     dref_Version (si_Deployment v) = meta_Version (drec_Meta c) \<and> WantsRunning (si_State v)"

definition last_sat :: "('a \<Rightarrow> bool) \<Rightarrow> 'a list \<Rightarrow> 'a option" where
  "last_sat P xs = (if filter P xs = [] then None else Some (last (filter P xs)))"

lemma last_sat_simps:
  "last_sat P [] = None"
  "last_sat P (xs @ y # ys) =
     (case last_sat P ys of Some w \<Rightarrow> Some w | None \<Rightarrow> if P y then Some y else last_sat P xs)"
  by (auto simp: last_sat_def)

lemma last_sat_None: "last_sat P xs = None \<longleftrightarrow> (\<forall>x \<in> set xs. \<not> P x)"
  by (auto simp: last_sat_def filter_empty_conv)

definition bonus :: "DeploymentRecord \<Rightarrow> ScheduledInstance list \<Rightarrow> nat" where
  "bonus c vs = (case last_sat (exact_v c) vs of None \<Rightarrow> 5
     | Some v \<Rightarrow> if si_State v = TARGET_RUN_SERVING then 0 else if si_State v = TARGET_RUN_STANDBY then 1 else 5)"

definition potential :: "DeploymentRecord option \<Rightarrow> ScheduledInstance list \<Rightarrow> nat" where
  "potential cfg vs = sum_list (map (\<lambda>v. weight (si_State v)) vs) +
     (case cfg of None \<Rightarrow> 0 | Some c \<Rightarrow> if wanted cfg then bonus c vs else 0)"

lemma weight_le: "weight g \<le> 3"
  by (simp add: weight_def)

lemma potential_bound: "potential cfg vs \<le> 3 * length vs + 5"
proof -
  have "sum_list (map (\<lambda>v. weight (si_State v)) vs) \<le> 3 * length vs"
    by (induction vs) (auto intro: order_trans [OF add_mono [OF weight_le]])
  moreover have "bonus c vs \<le> 5" for c by (simp add: bonus_def split: option.splits)
  ultimately show ?thesis by (auto simp: potential_def add_mono split: option.splits)
qed

text \<open>Final placements weigh nothing and are never exact: re-reading the rows keeps the potential.\<close>

lemma potential_non_final: "potential cfg (filter non_final vs) = potential cfg vs"
proof -
  have "sum_list (map (\<lambda>v. weight (si_State v)) (filter non_final vs)) = sum_list (map (\<lambda>v. weight (si_State v)) vs)"
    by (induction vs) (auto simp: weight_def)
  moreover have "last_sat (exact_v c) (filter non_final vs) = last_sat (exact_v c) vs" for c
  proof -
    have "filter (exact_v c) (filter non_final vs) = filter (exact_v c) vs"
      by (auto simp: exact_v_def WantsRunning_def intro: filter_cong)
    then show ?thesis by (simp add: last_sat_def)
  qed
  ultimately show ?thesis by (simp add: potential_def bonus_def split: option.splits)
qed

definition lowers :: "DeploymentRecord option \<Rightarrow> nat \<Rightarrow> ScheduledInstanceTarget \<Rightarrow> ScheduledInstance list \<Rightarrow> bool" where
  "lowers cfg k g vs \<longleftrightarrow> weight g < weight (si_State (vs ! k)) \<and> (WantsRunning g \<longrightarrow> WantsRunning (si_State (vs ! k))) \<and>
    (\<forall>c. cfg = Some c \<and> wanted cfg \<and> exact_v c (vs ! k) \<and> si_State (vs ! k) \<noteq> TARGET_RUN_DRAINING \<longrightarrow>
       (\<exists>w \<in> set (drop (Suc k) vs). exact_v c w))"

lemma with_state_split:
  assumes "k < length vs"
  shows "vs = take k vs @ vs ! k # drop (Suc k) vs"
    "with_state k g vs = take k vs @ (vs ! k)\<lparr>si_State := g\<rparr> # drop (Suc k) vs"
  using assms by (simp_all add: id_take_nth_drop with_state_def upd_conv_take_nth_drop)

lemma bonus_split:
  assumes "exact_v c v \<and> si_State v \<noteq> TARGET_RUN_DRAINING \<longrightarrow> last_sat (exact_v c) B \<noteq> None"
    and "exact_v c w \<longrightarrow> exact_v c v"
  shows "bonus c (A @ w # B) \<le> bonus c (A @ v # B)"
  using assms by (auto simp: bonus_def last_sat_simps split: option.splits)

lemma potential_lower:
  assumes k: "k < length vs" and low: "lowers cfg k g vs"
  shows "potential cfg (with_state k g vs) < potential cfg vs"
proof -
  let ?A = "take k vs" let ?B = "drop (Suc k) vs" let ?v = "vs ! k" let ?w = "?v\<lparr>si_State := g\<rparr>"
  have s: "sum_list (map (\<lambda>v. weight (si_State v)) (with_state k g vs)) < sum_list (map (\<lambda>v. weight (si_State v)) vs)"
    using low unfolding with_state_split(2) [OF k] by (subst (3) with_state_split(1) [OF k]) (simp add: lowers_def)
  have b: "bonus c (with_state k g vs) \<le> bonus c vs" if "cfg = Some c" "wanted cfg" for c
  proof -
    have "exact_v c ?v \<and> si_State ?v \<noteq> TARGET_RUN_DRAINING \<longrightarrow> last_sat (exact_v c) ?B \<noteq> None"
      using low that by (auto simp: lowers_def last_sat_None)
    moreover have "exact_v c ?w \<longrightarrow> exact_v c ?v" using low by (auto simp: exact_v_def lowers_def)
    ultimately have "bonus c (?A @ ?w # ?B) \<le> bonus c (?A @ ?v # ?B)" by (rule bonus_split)
    then show ?thesis using with_state_split [OF k] by metis
  qed
  show ?thesis using s b by (auto simp: potential_def add_less_le_mono split: option.splits)
qed

lemma potential_promote:
  assumes k: "k < length vs" and "exact_v c (vs ! k)" "si_State (vs ! k) = TARGET_RUN_STANDBY"
    and "wanted (Some c)" and "\<forall>w \<in> set (drop (Suc k) vs). \<not> exact_v c w"
  shows "potential (Some c) (with_state k TARGET_RUN_SERVING vs) < potential (Some c) vs"
proof -
  let ?A = "take k vs" let ?B = "drop (Suc k) vs" let ?v = "vs ! k" let ?w = "?v\<lparr>si_State := TARGET_RUN_SERVING\<rparr>"
  have n: "last_sat (exact_v c) ?B = None" using assms(5) by (simp add: last_sat_None)
  have w: "exact_v c ?w" using assms(2) by (simp add: exact_v_def WantsRunning_def)
  have "potential (Some c) (?A @ ?w # ?B) < potential (Some c) (?A @ ?v # ?B)"
    using assms(2-4) n w by (simp add: potential_def bonus_def last_sat_simps weight_def)
  then show ?thesis using with_state_split [OF k] by metis
qed

lemma potential_create:
  assumes "\<forall>v \<in> set vs. \<not> exact_v c v" "exact_v c w" "wanted (Some c)"
    "si_State w = TARGET_RUN_SERVING \<or> si_State w = TARGET_RUN_STANDBY"
  shows "potential (Some c) (vs @ [w]) < potential (Some c) vs"
proof -
  have "last_sat (exact_v c) vs = None" using assms(1) by (simp add: last_sat_None)
  then show ?thesis using assms(2-4) by (auto simp: potential_def bonus_def last_sat_simps weight_def)
qed

section \<open>Order and the single serving placement\<close>

abbreviation at_default :: "ScheduledInstance \<Rightarrow> bool" where
  "at_default v \<equiv> si_InstanceOrdinal v = defaultInstanceOrdinal"

abbreviation version_of :: "ScheduledInstance \<Rightarrow> nat" where
  "version_of v \<equiv> dref_Version (si_Deployment v)"

text \<open>
  Placements of the default ordinal are made in version order, none is ahead of the deployment,
  and at most one of them serves.
\<close>

definition ordered :: "DeploymentRecord option \<Rightarrow> ScheduledInstance list \<Rightarrow> bool" where
  "ordered cfg vs \<longleftrightarrow>
    (\<forall>a \<in> set vs. \<forall>b \<in> set vs. at_default a \<and> at_default b \<and> si_ID a < si_ID b \<longrightarrow> version_of a \<le> version_of b) \<and>
    (\<forall>c. cfg = Some c \<longrightarrow> (\<forall>a \<in> set vs. at_default a \<longrightarrow> version_of a \<le> meta_Version (drec_Meta c)))"

definition one_serving :: "ScheduledInstance list \<Rightarrow> bool" where
  "one_serving vs \<longleftrightarrow> (\<forall>a \<in> set vs. \<forall>b \<in> set vs. at_default a \<and> at_default b \<and>
     si_State a = TARGET_RUN_SERVING \<and> si_State b = TARGET_RUN_SERVING \<longrightarrow> si_ID a = si_ID b)"

definition placement_ok :: "DeploymentRecord option \<Rightarrow> ScheduledInstance list \<Rightarrow> bool" where
  "placement_ok cfg vs \<longleftrightarrow> ordered cfg vs \<and> one_serving vs"

lemma with_state_mem:
  assumes "a \<in> set (with_state k g vs)" "k < length vs"
  obtains b where "b \<in> set vs" "si_ID a = si_ID b" "si_InstanceOrdinal a = si_InstanceOrdinal b"
    "si_Deployment a = si_Deployment b" "si_State a = si_State b \<or> si_State a = g \<and> b = vs ! k"
  using assms that unfolding with_state_def
  by (metis (no_types, lifting) ScheduledInstance.select_convs ScheduledInstance.surjective
      ScheduledInstance.update_convs(4) insert_iff nth_mem set_update_subset_insert subsetD)

lemma ordered_with_state:
  assumes "ordered cfg vs" "k < length vs"
  shows "ordered cfg (with_state k g vs)"
  unfolding ordered_def
proof (intro conjI ballI allI impI)
  fix a b assume ab: "a \<in> set (with_state k g vs)" "b \<in> set (with_state k g vs)"
    "at_default a \<and> at_default b \<and> si_ID a < si_ID b"
  obtain a' where a': "a' \<in> set vs" "si_ID a = si_ID a'" "si_InstanceOrdinal a = si_InstanceOrdinal a'"
    "si_Deployment a = si_Deployment a'" using with_state_mem [OF ab(1) assms(2)] .
  obtain b' where b': "b' \<in> set vs" "si_ID b = si_ID b'" "si_InstanceOrdinal b = si_InstanceOrdinal b'"
    "si_Deployment b = si_Deployment b'" using with_state_mem [OF ab(2) assms(2)] .
  show "version_of a \<le> version_of b" using assms(1) a' b' ab(3) by (simp add: ordered_def)
next
  fix c a assume c: "cfg = Some c" "a \<in> set (with_state k g vs)" "at_default a"
  obtain a' where "a' \<in> set vs" "si_InstanceOrdinal a = si_InstanceOrdinal a'"
    "si_Deployment a = si_Deployment a'" using with_state_mem [OF c(2) assms(2)] .
  then show "version_of a \<le> meta_Version (drec_Meta c)" using assms(1) c by (simp add: ordered_def)
qed

lemma one_serving_with_state:
  assumes "one_serving vs" "k < length vs" "g \<noteq> TARGET_RUN_SERVING"
  shows "one_serving (with_state k g vs)"
  unfolding one_serving_def
proof (intro ballI impI)
  fix a b assume ab: "a \<in> set (with_state k g vs)" "b \<in> set (with_state k g vs)"
    "at_default a \<and> at_default b \<and> si_State a = TARGET_RUN_SERVING \<and> si_State b = TARGET_RUN_SERVING"
  obtain a' where a': "a' \<in> set vs" "si_ID a = si_ID a'" "si_InstanceOrdinal a = si_InstanceOrdinal a'"
    "si_State a = si_State a' \<or> si_State a = g" using with_state_mem [OF ab(1) assms(2)] by metis
  obtain b' where b': "b' \<in> set vs" "si_ID b = si_ID b'" "si_InstanceOrdinal b = si_InstanceOrdinal b'"
    "si_State b = si_State b' \<or> si_State b = g" using with_state_mem [OF ab(2) assms(2)] by metis
  have "si_State a' = TARGET_RUN_SERVING" "si_State b' = TARGET_RUN_SERVING" "at_default a'" "at_default b'"
    using a'(3,4) b'(3,4) ab(3) assms(3) by metis+
  then have "si_ID a' = si_ID b'" using assms(1) a'(1) b'(1) unfolding one_serving_def by blast
  then show "si_ID a = si_ID b" using a'(2) b'(2) by simp
qed

text \<open>
  Promoting the last instance of the current version: what is older no longer serves, and what is
  newer cannot be at the default ordinal, because it would be of the current version too.
\<close>

lemma one_serving_promote:
  assumes "ordered (Some c) vs" "k < length vs" "sorted_wrt (<) (map si_ID vs)"
    and x: "exact_v c (vs ! k)" and last: "\<forall>w \<in> set (drop (Suc k) vs). \<not> exact_v c w"
    and old: "\<forall>w \<in> set vs. si_ID w < si_ID (vs ! k) \<and> at_default w \<longrightarrow> si_State w \<noteq> TARGET_RUN_SERVING"
  shows "one_serving (with_state k TARGET_RUN_SERVING vs)"
proof -
  let ?x = "vs ! k"
  have newer: "si_State w \<noteq> TARGET_RUN_SERVING" if w: "w \<in> set vs" "si_ID ?x < si_ID w" "at_default w" for w
  proof
    assume serving: "si_State w = TARGET_RUN_SERVING"
    obtain j where j: "j < length vs" "w = vs ! j" using w(1) by (auto simp: in_set_conv_nth)
    have "k < j"
    proof (rule ccontr)
      assume "\<not> k < j"
      then have "map si_ID vs ! j \<le> map si_ID vs ! k"
        using assms(2,3) j(1) by (metis length_map linorder_not_less order.strict_iff_order sorted_wrt_nth_less nat_neq_iff)
      then show False using w(2) j assms(2) by simp
    qed
    then have "drop (Suc k) vs ! (j - Suc k) = w" "j - Suc k < length (drop (Suc k) vs)" using j by auto
    then have "w \<in> set (drop (Suc k) vs)" by (metis nth_mem)
    moreover have "version_of w = meta_Version (drec_Meta c)"
      using assms(1) x w nth_mem [OF assms(2)] unfolding ordered_def exact_v_def by (metis order_antisym)
    ultimately show False using last w(3) serving by (auto simp: exact_v_def WantsRunning_def)
  qed
  have only: "si_ID a = si_ID ?x"
    if a: "a \<in> set (with_state k TARGET_RUN_SERVING vs)" "at_default a" "si_State a = TARGET_RUN_SERVING" for a
  proof -
    obtain b where b: "b \<in> set vs" "si_ID a = si_ID b" "si_InstanceOrdinal a = si_InstanceOrdinal b"
      "si_State a = si_State b \<or> b = ?x" using with_state_mem [OF a(1) assms(2)] by metis
    with newer [of b] old a show ?thesis by (metis linorder_neqE_nat)
  qed
  then show ?thesis by (auto simp: one_serving_def)
qed

section \<open>Progress\<close>

text \<open>An operation of a pass either leaves the transaction as it is or lowers the potential.\<close>

definition progress ::
  "nat \<Rightarrow> DeploymentRecord option \<Rightarrow> ScheduledInstance list \<Rightarrow> transaction \<Rightarrow> ScheduledInstance list \<Rightarrow> transaction \<Rightarrow> bool" where
  "progress dep cfg cr t cr' t' \<longleftrightarrow> tracks dep cr' t' \<and> moved dep t t' \<and>
    (t' = t \<and> cr' = cr \<or> potential cfg (view t' @ cr') < potential cfg (view t @ cr)) \<and>
    (placement_ok cfg (view t @ cr) \<longrightarrow> placement_ok cfg (view t' @ cr'))"

lemma progress_refl: "tracks dep cr t \<Longrightarrow> progress dep cfg cr t cr t"
  by (simp add: progress_def)

lemma progress_trans: "progress dep cfg cr t cr1 t1 \<Longrightarrow> progress dep cfg cr1 t1 cr2 t2 \<Longrightarrow> progress dep cfg cr t cr2 t2"
  unfolding progress_def by (meson moved_trans order_less_trans)

lemma progress_sel:
  assumes "progress dep cfg cr t cr' t'"
  shows "tracks dep cr' t'" "length (st_instances t') = length (st_instances t)"
    "map sc_Status (st_instances t') = map sc_Status (st_instances t)" "\<not> st_changed t' \<Longrightarrow> t' = t"
  using assms by (simp_all add: progress_def moved_def)

lemma view_nth: "k < length (st_instances t) \<Longrightarrow> (view t @ cr) ! k = inst_value (inst_at t k)"
  by (simp add: nth_append)

lemma set_progress:
  assumes tr: "tracks dep cr t" and k: "k < length (st_instances t)"
    and low: "lowers cfg k g (view t @ cr)" and g: "g \<noteq> TARGET_RUN_SERVING"
  shows "\<exists>t'. set_target k g t = Inr t' \<and> progress dep cfg cr t cr t' \<and> view t' = with_state k g (view t) \<and> st_changed t'"
proof -
  have "inst_state (inst_at t k) \<noteq> TARGET_FINALIZED"
    using low by (auto simp: lowers_def view_nth [OF k] weight_def)
  from set_target_tracks [OF tr k this, of g] obtain t' where t': "set_target k g t = Inr t'" "tracks dep cr t'"
    "view t' = with_state k g (view t)" "moved dep t t'" .
  have v: "view t' @ cr = with_state k g (view t @ cr)" using t'(3) k by (simp add: with_state_append)
  have kl: "k < length (view t @ cr)" using k by simp
  have pot: "potential cfg (view t' @ cr) < potential cfg (view t @ cr)"
    unfolding v by (rule potential_lower [OF kl low])
  have "placement_ok cfg (view t @ cr) \<longrightarrow> placement_ok cfg (view t' @ cr)"
    unfolding v placement_ok_def using ordered_with_state [OF _ kl] one_serving_with_state [OF _ kl g] by blast
  moreover have "st_changed t'" using t'(4) pot by (auto simp: moved_def)
  ultimately show ?thesis using t' pot by (auto simp: progress_def)
qed

definition stopped :: "schedulingInstance \<Rightarrow> bool" where
  "stopped e \<longleftrightarrow> inst_state e = TARGET_TERMINATE \<and> terminalRunnerStatus (sis_Runner (sc_Status e))"

lemma finalize_progress:
  assumes tr: "tracks dep cr t" and k: "k < length (st_instances t)"
  shows "\<exists>t'. finalizeStopped k t = Inr t' \<and> progress dep cfg cr t cr t' \<and> (\<not> st_changed t' \<longrightarrow> \<not> stopped (inst_at t k))"
proof (cases "stopped (inst_at t k)")
  case True
  then have "lowers cfg k TARGET_FINALIZED (view t @ cr)"
    by (auto simp: lowers_def view_nth [OF k] stopped_def weight_def exact_v_def WantsRunning_def)
  from set_progress [OF tr k this] True show ?thesis by (auto simp: finalizeStopped_def stopped_def)
next
  case False
  then have "finalizeStopped k t = Inr t" by (auto simp: finalizeStopped_def stopped_def)
  with False progress_refl [OF tr] show ?thesis by auto
qed

lemma set_finalize_progress:
  assumes tr: "tracks dep cr t" and k: "k < length (st_instances t)"
    and low: "lowers cfg k g (view t @ cr)" and g: "g \<noteq> TARGET_RUN_SERVING"
  shows "\<exists>t'. bindE (set_target k g t) (finalizeStopped k) = Inr t' \<and> progress dep cfg cr t cr t' \<and> st_changed t'"
proof -
  from set_progress [OF tr k low g] obtain u where u: "set_target k g t = Inr u" "progress dep cfg cr t cr u" "st_changed u" by blast
  note U = progress_sel [OF u(2)]
  have "k < length (st_instances u)" using U k by simp
  from finalize_progress [OF U(1) this] obtain t' where t': "finalizeStopped k u = Inr t'" "progress dep cfg cr u cr t'" by blast
  have "st_changed t'" using t'(2) u(3) by (simp add: progress_def moved_def)
  with u t' progress_trans [OF u(2) t'(2)] show ?thesis by simp
qed

definition retirable :: "DeploymentRecord option \<Rightarrow> schedulingInstance \<Rightarrow> bool" where
  "retirable cfg e \<longleftrightarrow> retire cfg (inst_value e) \<and> WantsRunning (inst_state e)"

lemma retire_progress:
  assumes tr: "tracks dep cr t" and k: "k < length (st_instances t)"
  shows "\<exists>t'. retire_entry cfg k t = Inr t' \<and> progress dep cfg cr t cr t' \<and>
    (\<not> st_changed t' \<longrightarrow> \<not> retirable cfg (inst_at t k) \<and> \<not> stopped (inst_at t k))"
proof (cases "retirable cfg (inst_at t k)")
  case True
  then have "lowers cfg k TARGET_TERMINATE (view t @ cr)"
    by (auto simp: lowers_def view_nth [OF k] retirable_def weight_def exact_v_def WantsRunning_def retire_def split: option.splits)
  from set_finalize_progress [OF tr k this] True show ?thesis by (auto simp: retire_entry_def Let_def retirable_def)
next
  case False
  with finalize_progress [OF tr k] show ?thesis by (auto simp: retire_entry_def Let_def retirable_def)
qed

definition drained :: "transaction \<Rightarrow> schedulingInstance \<Rightarrow> bool" where
  "drained t e \<longleftrightarrow> inst_state e = TARGET_RUN_DRAINING \<and> sie_Seq (sc_Event e) < st_seq t \<and> drain_over t (sc_Event e)"

lemma drain_progress:
  assumes tr: "tracks dep cr t" and k: "k < length (st_instances t)"
  shows "\<exists>t'. drain_entry k t = Inr t' \<and> progress dep cfg cr t cr t' \<and> (\<not> st_changed t' \<longrightarrow> \<not> drained t (inst_at t k))"
proof (cases "drained t (inst_at t k)")
  case True
  then have "lowers cfg k TARGET_TERMINATE (view t @ cr)"
    by (auto simp: lowers_def view_nth [OF k] drained_def weight_def exact_v_def WantsRunning_def)
  from set_finalize_progress [OF tr k this] True show ?thesis by (auto simp: drain_entry_def Let_def drained_def)
next
  case False
  then have "drain_entry k t = Inr t" by (auto simp: drain_entry_def Let_def drained_def)
  with False progress_refl [OF tr] show ?thesis by auto
qed

text \<open>A loop over the slice: every entry makes progress, and an unchanged loop means its condition failed everywhere.\<close>

lemma loop_progress:
  assumes tr: "tracks dep cr t"
    and entry: "\<And>k u. tracks dep cr u \<Longrightarrow> k < length (st_instances u) \<Longrightarrow>
      \<exists>v. f k u = Inr v \<and> progress dep cfg cr u cr v \<and> (\<not> st_changed v \<longrightarrow> C u (inst_at u k))"
  shows "\<exists>t'. foldE f [0 ..< length (st_instances t)] t = Inr t' \<and> progress dep cfg cr t cr t' \<and>
    (\<not> st_changed t' \<longrightarrow> (\<forall>e \<in> set (st_instances t). C t e))"
proof -
  let ?Q = "\<lambda>i u. progress dep cfg cr t cr u \<and> (\<not> st_changed u \<longrightarrow> (\<forall>j < i. C t (inst_at t j)))"
  have "\<exists>t'. foldE f [0 ..< length (st_instances t)] t = Inr t' \<and> ?Q (length (st_instances t)) t'"
  proof (rule foldE_range)
    fix i u assume i: "i < length (st_instances t)" and q: "?Q i u"
    note U = progress_sel [OF q [THEN conjunct1]]
    from entry [OF U(1)] i U(2) obtain v where v: "f i u = Inr v" "progress dep cfg cr u cr v"
      "\<not> st_changed v \<longrightarrow> C u (inst_at u i)" by auto
    have "C t (inst_at t j)" if "\<not> st_changed v" "j < Suc i" for j
    proof -
      have "v = u" "u = t" using progress_sel(4) [OF v(2)] U(4) that(1) by auto
      with v(3) q that show ?thesis by (auto simp: less_Suc_eq)
    qed
    with v progress_trans [OF q [THEN conjunct1] v(2)] show "\<exists>v. f i u = Inr v \<and> ?Q (Suc i) v" by blast
  qed (use progress_refl [OF tr] in auto)
  then show ?thesis by (metis in_set_conv_nth)
qed

section \<open>Promotion\<close>

abbreviation active :: "ScheduledInstance \<Rightarrow> bool" where
  "active v \<equiv> si_State v = TARGET_RUN_SERVING \<or> si_State v = TARGET_RUN_STANDBY"

text \<open>The index of the last instance of the wanted version.\<close>

definition exact_at :: "DeploymentRecord \<Rightarrow> nat \<Rightarrow> ScheduledInstance list \<Rightarrow> bool" where
  "exact_at c x vs \<longleftrightarrow> x < length vs \<and> exact_v c (vs ! x) \<and> (\<forall>w \<in> set (drop (Suc x) vs). \<not> exact_v c w)"

lemma is_exact_v: "is_exact c e \<longleftrightarrow> exact_v c (inst_value e)"
  by (auto simp: is_exact_def exact_v_def)

lemma sorted_le_last: "sorted xs \<Longrightarrow> (x :: nat) \<in> set xs \<Longrightarrow> x \<le> last xs"
  by (induction xs) auto

lemma exact_index_Some:
  assumes "exact_index c es = Some x"
  shows "exact_at c x (map inst_value es)"
proof -
  let ?is = "filter (\<lambda>i. is_exact c (es ! i)) [0 ..< length es]"
  from assms have ne: "?is \<noteq> []" and x: "x = last ?is" by (auto simp: exact_index_def split: list.splits)
  then have mem: "x \<in> set ?is" by (metis last_in_set)
  have "\<not> is_exact c (es ! j)" if "x < j" "j < length es" for j
  proof
    assume "is_exact c (es ! j)"
    then have "j \<in> set ?is" using that by simp
    moreover have "sorted ?is" by (simp add: sorted_wrt_filter)
    ultimately have "j \<le> last ?is" using sorted_le_last by blast
    with that x show False by simp
  qed
  then have "\<forall>w \<in> set (drop (Suc x) es). \<not> is_exact c w"
    by (auto simp: in_set_conv_nth)
  with mem show ?thesis by (auto simp: exact_at_def drop_map is_exact_v)
qed

lemma exact_index_None: "exact_index c es = None \<longleftrightarrow> (\<forall>v \<in> set (map inst_value es). \<not> exact_v c v)"
proof -
  have "exact_index c es = None \<longleftrightarrow> filter (\<lambda>i. is_exact c (es ! i)) [0 ..< length es] = []"
    by (simp add: exact_index_def split: list.splits)
  also have "\<dots> \<longleftrightarrow> (\<forall>i < length es. \<not> exact_v c (inst_value (es ! i)))"
    by (simp add: filter_empty_conv is_exact_v Ball_def)
  also have "\<dots> \<longleftrightarrow> (\<forall>e \<in> set es. \<not> exact_v c (inst_value e))" by (simp add: all_set_conv_all_nth)
  finally show ?thesis by simp
qed

lemma id_order:
  assumes "sorted_wrt (<) (map si_ID vs)" "i < length vs" "j < length vs" "si_ID (vs ! i) < si_ID (vs ! j)"
  shows "i < j"
proof (rule ccontr)
  assume "\<not> i < j"
  then consider "i = j" | "j < i" by linarith
  then show False
  proof cases
    case 2
    then have "map si_ID vs ! j < map si_ID vs ! i" using assms(1,2) by (intro sorted_wrt_nth_less) auto
    with assms show False by simp
  qed (use assms in simp)
qed

definition superseded :: "nat \<Rightarrow> ScheduledInstance list \<Rightarrow> ScheduledInstance \<Rightarrow> bool" where
  "superseded x vs v \<longleftrightarrow> si_ID v < si_ID (vs ! x) \<and> si_InstanceOrdinal v = si_InstanceOrdinal (vs ! x) \<and> active v"

lemma demote_progress:
  assumes tr: "tracks dep [] t" and k: "k < length (st_instances t)" and x: "exact_at c x (view t)"
  shows "\<exists>t'. demote x k t = Inr t' \<and> progress dep (Some c) [] t [] t' \<and> drop x (view t') = drop x (view t) \<and>
    view t' = (if superseded x (view t) (view t ! k) then with_state k TARGET_RUN_DRAINING (view t) else view t) \<and>
    (\<not> st_changed t' \<longrightarrow> \<not> superseded x (view t) (view t ! k))"
proof (cases "superseded x (view t) (view t ! k)")
  case True
  have xl: "x < length (view t)" using x by (simp add: exact_at_def)
  have srt: "sorted_wrt (<) (map si_ID (view t))" using tr by (simp add: tracks_def)
  have kx: "k < x" by (rule id_order [OF srt _ xl]) (use True k in \<open>auto simp: superseded_def\<close>)
  then have "drop (Suc k) (view t) ! (x - Suc k) = view t ! x" "x - Suc k < length (drop (Suc k) (view t))" using xl by auto
  then have "view t ! x \<in> set (drop (Suc k) (view t))" by (metis nth_mem)
  then have "lowers (Some c) k TARGET_RUN_DRAINING (view t @ [])"
    using True x by (auto simp: lowers_def superseded_def weight_def WantsRunning_def exact_at_def)
  from set_progress [OF tr k this] obtain t' where t': "set_target k TARGET_RUN_DRAINING t = Inr t'"
    "progress dep (Some c) [] t [] t'" "view t' = with_state k TARGET_RUN_DRAINING (view t)" "st_changed t'" by auto
  moreover have "demote x k t = set_target k TARGET_RUN_DRAINING t"
    using True k xl by (auto simp: demote_def Let_def superseded_def WantsRunning_def)
  moreover have "drop x (with_state k TARGET_RUN_DRAINING (view t)) = drop x (view t)"
    using kx by (simp add: with_state_def)
  ultimately show ?thesis using True by auto
next
  case False
  moreover have "demote x k t = Inr t"
    using False k x by (auto simp: demote_def Let_def superseded_def WantsRunning_def exact_at_def)
  ultimately show ?thesis using progress_refl [OF tr] by auto
qed

lemma exact_at_drop:
  assumes "exact_at c x vs" "drop x vs' = drop x vs" "length vs' = length vs"
  shows "exact_at c x vs'" "vs' ! x = vs ! x"
proof -
  have xl: "x < length vs" using assms(1) by (simp add: exact_at_def)
  then show "vs' ! x = vs ! x" using assms(2,3) by (metis Cons_nth_drop_Suc list.inject)
  moreover have "drop (Suc x) vs' = drop (Suc x) vs" using assms(2) by (metis drop_Suc tl_drop)
  ultimately show "exact_at c x vs'" using assms(1,3) by (simp add: exact_at_def)
qed

lemma superseded_with_state:
  assumes "length vs = n" "vs' ! x = vs ! x" "j < n"
    "vs' = (if superseded x vs (vs ! k) then with_state k TARGET_RUN_DRAINING vs else vs)"
  shows "superseded x vs' (vs' ! j) \<longrightarrow> superseded x vs (vs ! j) \<and> j \<noteq> k"
  using assms by (auto simp: superseded_def with_state_nth split: if_splits)

lemma demote_all_progress:
  assumes tr: "tracks dep [] t" and x: "exact_at c x (view t)"
  shows "\<exists>t'. foldE (demote x) [0 ..< length (st_instances t)] t = Inr t' \<and> progress dep (Some c) [] t [] t' \<and>
    drop x (view t') = drop x (view t) \<and> (\<forall>v \<in> set (view t'). \<not> superseded x (view t') v) \<and>
    (\<not> st_changed t' \<longrightarrow> (\<forall>v \<in> set (view t). \<not> superseded x (view t) v))"
proof -
  let ?n = "length (st_instances t)"
  let ?Q = "\<lambda>i u. progress dep (Some c) [] t [] u \<and> drop x (view u) = drop x (view t) \<and>
     (\<forall>j < i. \<not> superseded x (view u) (view u ! j))"
  have "\<exists>t'. foldE (demote x) [0 ..< ?n] t = Inr t' \<and> ?Q ?n t'"
  proof (rule foldE_range)
    fix i u assume i: "i < ?n" and q: "?Q i u"
    then have pr: "progress dep (Some c) [] t [] u" and d: "drop x (view u) = drop x (view t)" by auto
    note U = progress_sel [OF pr]
    have len: "length (view u) = length (view t)" using U by simp
    have ex: "exact_at c x (view u)" using exact_at_drop(1) [OF x d len] .
    from demote_progress [OF U(1) _ ex, of i] i U(2) obtain v where v: "demote x i u = Inr v" "progress dep (Some c) [] u [] v"
      "drop x (view v) = drop x (view u)"
      "view v = (if superseded x (view u) (view u ! i) then with_state i TARGET_RUN_DRAINING (view u) else view u)"
      by auto
    have vx: "view v ! x = view u ! x"
      by (rule exact_at_drop(2) [OF ex v(3)]) (use progress_sel(2) [OF v(2)] in simp)
    have "\<not> superseded x (view v) (view v ! j)" if "j < Suc i" for j
    proof -
      have j: "j < length (view u)" using that i len by simp
      have "superseded x (view v) (view v ! j) \<longrightarrow> superseded x (view u) (view u ! j) \<and> j \<noteq> i"
        if "j \<noteq> i \<or> superseded x (view u) (view u ! i)"
        by (rule superseded_with_state [OF refl vx j v(4)])
      moreover have "\<not> superseded x (view v) (view v ! j)" if "j = i" "\<not> superseded x (view u) (view u ! i)"
        using that v(4) by simp
      ultimately show ?thesis using q that by (auto simp: less_Suc_eq)
    qed
    with v d progress_trans [OF pr v(2)] show "\<exists>v. demote x i u = Inr v \<and> ?Q (Suc i) v" by auto
  qed (use progress_refl [OF tr] in auto)
  then obtain t' where t': "foldE (demote x) [0 ..< ?n] t = Inr t'" "?Q ?n t'" by blast
  then have all: "\<forall>v \<in> set (view t'). \<not> superseded x (view t') v"
    using progress_sel(2) [of dep "Some c" "[]" t "[]" t'] by (metis in_set_conv_nth length_map)
  have "\<not> st_changed t' \<longrightarrow> t' = t" using t'(2) progress_sel(4) by blast
  with all t' show ?thesis by auto
qed

lemma promote_progress:
  assumes tr: "tracks dep [] t" and x: "exact_at c x (view t)" and w: "wanted (Some c)" and a: "active (view t ! x)"
  shows "\<exists>t'. promote x t = Inr t' \<and> progress dep (Some c) [] t [] t' \<and>
    (\<not> st_changed t' \<longrightarrow> si_State (view t ! x) = TARGET_RUN_SERVING \<and> (\<forall>v \<in> set (view t). \<not> superseded x (view t) v))"
proof -
  from demote_all_progress [OF tr x] obtain u where u: "foldE (demote x) [0 ..< length (st_instances t)] t = Inr u"
    "progress dep (Some c) [] t [] u" "drop x (view u) = drop x (view t)" "\<forall>v \<in> set (view u). \<not> superseded x (view u) v"
    and un: "\<not> st_changed u \<longrightarrow> (\<forall>v \<in> set (view t). \<not> superseded x (view t) v)" by blast
  note U = progress_sel [OF u(2)]
  have len: "length (view u) = length (view t)" using U by simp
  note ex = exact_at_drop [OF x u(3) len]
  have xl: "x < length (st_instances u)" using ex by (simp add: exact_at_def)
  have nf: "inst_state (inst_at u x) \<noteq> TARGET_FINALIZED" using ex(2) a xl by auto
  from set_target_tracks [OF U(1) xl nf, of TARGET_RUN_SERVING] obtain t' where t': "set_target x TARGET_RUN_SERVING u = Inr t'"
    "tracks dep [] t'" "view t' = with_state x TARGET_RUN_SERVING (view u)" "moved dep u t'" .
  have ok: "placement_ok (Some c) (view t')" if "placement_ok (Some c) (view u)"
  proof -
    have o: "ordered (Some c) (view u)" using that by (simp add: placement_ok_def)
    have xv: "x < length (view u)" using xl by simp
    have "one_serving (with_state x TARGET_RUN_SERVING (view u))"
      using ex(1) u(4) U(1)
      by (intro one_serving_promote [OF o xv]) (auto simp: tracks_def exact_at_def superseded_def exact_v_def)
    with ordered_with_state [OF o xv] show ?thesis by (simp add: placement_ok_def t'(3))
  qed
  have "progress dep (Some c) [] u [] t'"
  proof (cases "si_State (view u ! x) = TARGET_RUN_SERVING")
    case True
    then have "set_target x TARGET_RUN_SERVING u = Inr u" using xl by (simp add: set_target_def)
    with t'(1) progress_refl [OF U(1)] show ?thesis by simp
  next
    case False
    then have "potential (Some c) (view t') < potential (Some c) (view u)"
      unfolding t'(3) using ex a w by (intro potential_promote) (auto simp: exact_at_def)
    with t' ok show ?thesis by (simp add: progress_def)
  qed
  from progress_trans [OF u(2) this] have p: "progress dep (Some c) [] t [] t'" .
  have "si_State (view t ! x) = TARGET_RUN_SERVING \<and> (\<forall>v \<in> set (view t). \<not> superseded x (view t) v)" if "\<not> st_changed t'"
  proof -
    have eq: "t' = u" "u = t" using that t'(4) U(4) by (auto simp: moved_def)
    then have "view t ! x = with_state x TARGET_RUN_SERVING (view t) ! x" using t'(3) by simp
    then have "si_State (view t ! x) = TARGET_RUN_SERVING"
      using x by (simp add: with_state_nth exact_at_def) (metis ScheduledInstance.select_convs(4) ScheduledInstance.surjective ScheduledInstance.update_convs(4))
    with un that eq show ?thesis by simp
  qed
  with u(1) t'(1) p show ?thesis by (simp add: promote_def)
qed

section \<open>The whole pass\<close>

definition placing :: "DeploymentRecord \<Rightarrow> transaction \<Rightarrow> bool" where
  "placing c t \<longleftrightarrow> wanted (Some c) \<and> PlacementNodeID (drec_Deployment c) > 0 \<and>
     PlacementNodeID (drec_Deployment c) \<notin> set (st_evicted t)"

text \<open>
  What placing leaves behind when it has nothing to do: an instance of the wanted version exists
  unless a stopping one still blocks it, and a ready one serves alone.
\<close>

definition place_stable :: "DeploymentRecord \<Rightarrow> schedulingInstance list \<Rightarrow> bool" where
  "place_stable c es \<longleftrightarrow>
    (case exact_index c es of
       None \<Rightarrow> list_ex (is_blocking c) es
     | Some x \<Rightarrow>
        (ready (es ! x) \<and> active (inst_value (es ! x)) \<or>
           inst_state (es ! x) = TARGET_RUN_STANDBY \<and> failover (es ! x) es) \<longrightarrow>
          inst_state (es ! x) = TARGET_RUN_SERVING \<and>
          (\<forall>e \<in> set es. \<not> superseded x (map inst_value es) (inst_value e)))"

lemma place_progress:
  assumes tr: "tracks dep [] t" and c: "GetLatestDeployment dep (st_tables t) = Some c" and w: "wanted (Some c)"
  shows "\<exists>t' cr. place c t = Inr t' \<and> progress dep (Some c) [] t cr t' \<and> (\<not> st_changed t' \<longrightarrow> place_stable c (st_instances t))"
proof (cases "exact_index c (st_instances t)")
  case None
  show ?thesis
  proof (cases "list_ex (is_blocking c) (st_instances t)")
    case True
    with None progress_refl [OF tr] show ?thesis by (auto simp: place_def Let_def place_stable_def)
  next
    case False
    let ?g = "if list_ex is_serving (st_instances t) then TARGET_RUN_STANDBY else TARGET_RUN_SERVING"
    obtain e d where n: "newInstance (st_seq t) c defaultInstanceOrdinal ?g (st_now t) (tx_db (st_txn t)) = (e, d)" by fastforce
    have g: "?g \<noteq> TARGET_FINALIZED" by simp
    from create_tracks [OF tr c n g] obtain t' where t': "publish VERB_CREATE e (t\<lparr>st_txn := (st_txn t)\<lparr>tx_db := d\<rparr>\<rparr>) = Inr t'"
      "tracks dep [sie_Value e] t'" "st_instances t' = st_instances t" "moved dep t t'" "st_changed t'"
      and v: "si_State (sie_Value e) = ?g" "at_default (sie_Value e)" "version_of (sie_Value e) = meta_Version (drec_Meta c)" .
    have ne: "\<forall>v \<in> set (view t). \<not> exact_v c v" using None exact_index_None by blast
    have pot: "potential (Some c) (view t @ [sie_Value e]) < potential (Some c) (view t)"
      using ne w v by (intro potential_create) (auto simp: exact_v_def WantsRunning_def)
    have ids: "\<forall>v \<in> set (view t). si_ID v < si_ID (sie_Value e)"
      using t'(2,3) by (auto simp: tracks_def sorted_wrt_append)
    have no: "si_State u \<noteq> TARGET_RUN_SERVING"
      if "u \<in> set (view t)" "at_default u" "si_State (sie_Value e) = TARGET_RUN_SERVING" for u
      using that v(1) by (auto simp: list_ex_iff is_serving_def split: if_splits)
    have "placement_ok (Some c) (view t) \<longrightarrow> placement_ok (Some c) (view t @ [sie_Value e])"
    proof
      assume ok: "placement_ok (Some c) (view t)"
      have "ordered (Some c) (view t @ [sie_Value e])"
        using ok ids v(3) unfolding placement_ok_def ordered_def by (auto simp del: set_map)
      moreover have "one_serving (view t @ [sie_Value e])"
        unfolding one_serving_def
      proof (intro ballI impI)
        fix a b assume ab: "a \<in> set (view t @ [sie_Value e])" "b \<in> set (view t @ [sie_Value e])"
          "at_default a \<and> at_default b \<and> si_State a = TARGET_RUN_SERVING \<and> si_State b = TARGET_RUN_SERVING"
        then consider "a \<in> set (view t)" "b \<in> set (view t)" | "a = sie_Value e" "b = sie_Value e"
          using no [of a] no [of b] by fastforce
        then show "si_ID a = si_ID b"
          by cases (use ok ab(3) in \<open>unfold placement_ok_def one_serving_def, blast+\<close>)
      qed
      ultimately show "placement_ok (Some c) (view t @ [sie_Value e])" by (simp add: placement_ok_def)
    qed
    with t' pot have "progress dep (Some c) [] t [sie_Value e] t'" by (simp add: progress_def)
    moreover have "place c t = Inr t'" using None False n t'(1) by (simp add: place_def Let_def)
    ultimately show ?thesis using t'(5) by blast
  qed
next
  case (Some x)
  let ?es = "st_instances t"
  note x = exact_index_Some [OF Some]
  have xl: "x < length ?es" using x by (simp add: exact_at_def)
  then have vx: "view t ! x = inst_value (?es ! x)" by simp
  show ?thesis
  proof (cases "ready (?es ! x) \<and> active (inst_value (?es ! x)) \<or>
      inst_state (?es ! x) = TARGET_RUN_STANDBY \<and> failover (?es ! x) ?es")
    case True
    then have "active (view t ! x)" unfolding vx by blast
    from promote_progress [OF tr x w this] obtain t' where t': "promote x t = Inr t'" "progress dep (Some c) [] t [] t'"
      "\<not> st_changed t' \<longrightarrow> si_State (view t ! x) = TARGET_RUN_SERVING \<and> (\<forall>v \<in> set (view t). \<not> superseded x (view t) v)" by blast
    have "place c t = promote x t" using True Some by (auto simp: place_def Let_def)
    with t' Some vx show ?thesis by (auto simp: place_stable_def)
  next
    case False
    then have "place c t = Inr t" using Some by (auto simp: place_def Let_def)
    moreover have "place_stable c ?es" using Some False by (simp add: place_stable_def)
    ultimately show ?thesis using progress_refl [OF tr] by blast
  qed
qed

text \<open>The conditions under which a pass has nothing left to do.\<close>

definition stable :: "DeploymentRecord option \<Rightarrow> transaction \<Rightarrow> bool" where
  "stable cfg t \<longleftrightarrow>
    (\<forall>e \<in> set (st_instances t). \<not> retirable cfg e \<and> \<not> stopped e \<and> \<not> drained t e) \<and>
    (\<forall>c. cfg = Some c \<and> placing c t \<longrightarrow> place_stable c (st_instances t))"

lemma step_progress:
  assumes tr: "tracks dep [] t" and cfg: "GetLatestDeployment dep (st_tables t) = cfg"
  shows "\<exists>t' cr. step cfg t = Inr t' \<and> progress dep cfg [] t cr t' \<and> (\<not> st_changed t' \<longrightarrow> stable cfg t)"
proof -
  let ?range = "[0 ..< length (st_instances t)]"
  from loop_progress [where C = "\<lambda>u e. \<not> retirable cfg e \<and> \<not> stopped e", OF tr retire_progress] obtain t1 where
    t1: "foldE (retire_entry cfg) ?range t = Inr t1" "progress dep cfg [] t [] t1"
    "\<not> st_changed t1 \<longrightarrow> (\<forall>e \<in> set (st_instances t). \<not> retirable cfg e \<and> \<not> stopped e)" by blast
  note T1 = progress_sel [OF t1(2)]
  have ev: "st_evicted t1 = st_evicted t" and latest: "GetLatestDeployment dep (st_tables t1) = cfg"
    using t1(2) cfg by (auto simp: progress_def moved_def keeps_def frame_def)
  let ?place = "case cfg of None \<Rightarrow> Inr t1
     | Some c \<Rightarrow> if wanted cfg \<and> PlacementNodeID (drec_Deployment c) > 0 \<and>
                   PlacementNodeID (drec_Deployment c) \<notin> set (st_evicted t1) then place c t1 else Inr t1"
  have "\<exists>t2 cr. ?place = Inr t2 \<and> progress dep cfg [] t1 cr t2 \<and>
      (\<not> st_changed t2 \<longrightarrow> (\<forall>c. cfg = Some c \<and> placing c t \<longrightarrow> place_stable c (st_instances t1)))"
  proof (cases "\<exists>c. cfg = Some c \<and> placing c t")
    case True
    then obtain c where c: "cfg = Some c" "placing c t" by blast
    then have "?place = place c t1" by (auto simp: placing_def ev)
    with place_progress [OF T1(1), of c] c latest show ?thesis by (auto simp: placing_def)
  next
    case False
    then have "?place = Inr t1" by (auto simp: placing_def ev split: option.splits)
    with False progress_refl [OF T1(1)] show ?thesis by blast
  qed
  then obtain t2 cr where t2: "?place = Inr t2" "progress dep cfg [] t1 cr t2"
    "\<not> st_changed t2 \<longrightarrow> (\<forall>c. cfg = Some c \<and> placing c t \<longrightarrow> place_stable c (st_instances t1))" by blast
  note T2 = progress_sel [OF t2(2)]
  from loop_progress [where C = "\<lambda>u e. \<not> drained u e" and cfg = cfg, OF T2(1) drain_progress] obtain t' where
    t': "foldE drain_entry [0 ..< length (st_instances t2)] t2 = Inr t'" "progress dep cfg cr t2 cr t'"
    "\<not> st_changed t' \<longrightarrow> (\<forall>e \<in> set (st_instances t2). \<not> drained t2 e)" by blast
  have "step cfg t = Inr t'"
    unfolding step_def Let_def t1(1) bindE.simps t2(1) using t'(1) T1(2) T2(2) by simp
  moreover have "progress dep cfg [] t cr t'" by (rule progress_trans [OF progress_trans [OF t1(2) t2(2)] t'(2)])
  moreover have "stable cfg t" if "\<not> st_changed t'"
  proof -
    have "t' = t2" "t2 = t1" "t1 = t" using that progress_sel(4) [OF t'(2)] T2(4) T1(4) by auto
    then show ?thesis using that t1(3) t2(3) t'(3) by (simp add: stable_def)
  qed
  ultimately show ?thesis by blast
qed

end
