(* ===== verification/Scheduler_Inv.thy ===== *)
theory Scheduler_Inv
  imports Scheduler_Pass
begin

text \<open>
  Reconciliation as a whole: it always returns, within the pass limit of the code, every deployment
  it visited is stable, the others are untouched, and the placement invariant of the store is kept.
\<close>

section \<open>Stabilisation\<close>

text \<open>The placement invariant of the tables, read through the rows of every deployment.\<close>

definition placements_ok :: "tables \<Rightarrow> bool" where
  "placements_ok ts \<longleftrightarrow> (\<forall>dep. placement_ok (GetLatestDeployment dep ts) (map row_instance (placed dep ts)))"

lemma placement_ok_subset: "placement_ok cfg vs \<Longrightarrow> set ws \<subseteq> set vs \<Longrightarrow> placement_ok cfg ws"
  unfolding placement_ok_def ordered_def one_serving_def by blast

definition reconciled ::
  "Scheduler \<Rightarrow> clock \<Rightarrow> nat list \<Rightarrow> nat \<Rightarrow> txn \<Rightarrow> bool" where
  "reconciled s now ev dep x \<longleftrightarrow>
    (\<exists>es. readSchedulingState dep (db_tables (tx_db x)) = Inr (GetLatestDeployment dep (db_tables (tx_db x)), es) \<and>
      stable (GetLatestDeployment dep (db_tables (tx_db x))) (begin_pass s now ev es x))"

definition settles :: "nat \<Rightarrow> txn \<Rightarrow> txn \<Rightarrow> bool" where
  "settles dep x x' \<longleftrightarrow> settled x' \<and> upd_Seq (tx_update x') = upd_Seq (tx_update x) \<and>
    keeps dep (db_tables (tx_db x)) (db_tables (tx_db x')) \<and>
    (placements_ok (db_tables (tx_db x)) \<longrightarrow> placements_ok (db_tables (tx_db x')))"

lemma settles_trans: "settles dep a b \<Longrightarrow> settles dep b c \<Longrightarrow> settles dep a c"
  unfolding settles_def by (metis keeps_trans)

lemma placements_ok_keeps:
  assumes "placements_ok ts" "keeps dep ts ts'"
    and "placement_ok (GetLatestDeployment dep ts) (map row_instance (placed dep ts'))"
  shows "placements_ok ts'"
proof -
  have "placement_ok (GetLatestDeployment d ts') (map row_instance (placed d ts'))" for d
    using assms by (cases "d = dep") (auto simp: placements_ok_def keeps_def frame_def)
  then show ?thesis by (simp add: placements_ok_def)
qed

lemma pass_settles:
  assumes tr: "tracks dep [] (begin_pass s now ev es x)" and set: "settled x"
    and vals: "map inst_value es = map row_instance (placed dep (db_tables (tx_db x)))"
    and p: "progress dep cfg [] (begin_pass s now ev es x) cr t'" and cfg: "GetLatestDeployment dep (db_tables (tx_db x)) = cfg"
  shows "settles dep x (st_txn t')"
    "map row_instance (placed dep (st_tables t')) = filter non_final (view t' @ cr)"
proof -
  let ?t = "begin_pass s now ev es x"
  have tr': "tracks dep cr t'" and k: "keeps dep (db_tables (tx_db x)) (st_tables t')" and seq: "st_seq t' = st_seq ?t"
    and ok: "placement_ok cfg (map inst_value es) \<longrightarrow> placement_ok cfg (view t' @ cr)"
    using p by (auto simp: progress_def moved_def begin_pass_def)
  show l: "map row_instance (placed dep (st_tables t')) = filter non_final (view t' @ cr)" by (rule tracks_list [OF tr'])
  have "placements_ok (st_tables t')" if a: "placements_ok (db_tables (tx_db x))"
  proof (rule placements_ok_keeps [OF a k])
    have "placement_ok cfg (map inst_value es)" using a cfg vals by (auto simp: placements_ok_def)
    with ok show "placement_ok (GetLatestDeployment dep (db_tables (tx_db x))) (map row_instance (placed dep (st_tables t')))"
      unfolding l cfg by (auto elim: placement_ok_subset)
  qed
  then show "settles dep x (st_txn t')" using tr' k seq by (simp add: settles_def tracks_def begin_pass_def)
qed

lemma stabilize_total:
  assumes "settled x" and "readSchedulingState dep (db_tables (tx_db x)) = Inr (cfg, es)"
    and "potential cfg (map inst_value es) \<le> left"
  shows "\<exists>x'. stabilize s now ev dep left (cfg, es) x = Inr x' \<and> settles dep x x' \<and> reconciled s now ev dep x'"
  using assms
proof (induction left arbitrary: x es)
  case (0 x es)
  obtain es' where r: "readSchedulingState dep (db_tables (tx_db x)) = Inr (GetLatestDeployment dep (db_tables (tx_db x)), es')"
    "tracks dep [] (begin_pass s now ev es' x)" "map inst_value es' = map row_instance (placed dep (db_tables (tx_db x)))"
    using read_tracks [OF "0.prems"(1)] .
  with "0.prems"(2) have eq: "es' = es" "GetLatestDeployment dep (db_tables (tx_db x)) = cfg" by auto
  note r = r [unfolded eq]
  have "GetLatestDeployment dep (st_tables (begin_pass s now ev es x)) = cfg" using eq by (simp add: begin_pass_def)
  from step_progress [OF r(2) this] obtain t' cr where t': "step cfg (begin_pass s now ev es x) = Inr t'"
    "progress dep cfg [] (begin_pass s now ev es x) cr t'" "\<not> st_changed t' \<longrightarrow> stable cfg (begin_pass s now ev es x)" by blast
  have "t' = begin_pass s now ev es x" using t'(2) "0.prems"(3) by (auto simp: progress_def begin_pass_def)
  with t' r eq "0.prems"(1) show ?case
    by (auto simp: stabilize.simps begin_pass_def settles_def reconciled_def)
next
  case (Suc l x es)
  obtain es' where r: "readSchedulingState dep (db_tables (tx_db x)) = Inr (GetLatestDeployment dep (db_tables (tx_db x)), es')"
    "tracks dep [] (begin_pass s now ev es' x)" "map inst_value es' = map row_instance (placed dep (db_tables (tx_db x)))"
    using read_tracks [OF Suc.prems(1)] .
  with Suc.prems(2) have eq: "es' = es" "GetLatestDeployment dep (db_tables (tx_db x)) = cfg" by auto
  note r = r [unfolded eq]
  have c: "GetLatestDeployment dep (st_tables (begin_pass s now ev es x)) = cfg" using eq by (simp add: begin_pass_def)
  from step_progress [OF r(2) this] obtain t' cr where t': "step cfg (begin_pass s now ev es x) = Inr t'"
    "progress dep cfg [] (begin_pass s now ev es x) cr t'" "\<not> st_changed t' \<longrightarrow> stable cfg (begin_pass s now ev es x)" by blast
  note P = pass_settles [OF r(2) Suc.prems(1) r(3) t'(2) eq(2)]
  show ?case
  proof (cases "st_changed t'")
    case False
    then have "t' = begin_pass s now ev es x" using progress_sel(4) [OF t'(2)] by simp
    with t' r eq False Suc.prems(1) show ?thesis
      by (auto simp: stabilize.simps begin_pass_def settles_def reconciled_def)
  next
    case True
    let ?x1 = "st_txn t'"
    have set1: "settled ?x1" using P(1) by (simp add: settles_def)
    have cfg1: "GetLatestDeployment dep (st_tables t') = cfg" using P(1) eq(2) by (simp add: settles_def keeps_def frame_def)
    obtain es1 where r1: "readSchedulingState dep (st_tables t') = Inr (GetLatestDeployment dep (st_tables t'), es1)"
      "map inst_value es1 = map row_instance (placed dep (st_tables t'))"
      using read_tracks [OF set1] by metis
    have "t' \<noteq> begin_pass s now ev es x" using True by (auto simp: begin_pass_def)
    then have "potential cfg (view t' @ cr) < potential cfg (map inst_value es)"
      using t'(2) by (simp add: progress_def begin_pass_def)
    then have "potential cfg (map inst_value es1) \<le> l"
      using Suc.prems(3) unfolding r1(2) P(2) potential_non_final by simp
    from Suc.IH [OF set1 _ this] r1 cfg1 obtain x' where
      x': "stabilize s now ev dep l (cfg, es1) ?x1 = Inr x'" "settles dep ?x1 x'" "reconciled s now ev dep x'" by auto
    then have "stabilize s now ev dep (Suc l) (cfg, es) x = Inr x'"
      using t'(1) True r1 cfg1 by (simp add: stabilize.simps [of s now ev dep "Suc l"])
    with x' settles_trans [OF P(1) x'(2)] show ?thesis by blast
  qed
qed

lemma reconcile_deployment_total:
  assumes "settled x"
  shows "\<exists>x'. reconcile_deployment s now ev dep x = Inr x' \<and> settles dep x x' \<and> reconciled s now ev dep x'"
proof -
  let ?cfg = "GetLatestDeployment dep (db_tables (tx_db x))"
  obtain es where r: "readSchedulingState dep (db_tables (tx_db x)) = Inr (?cfg, es)"
    using read_tracks [OF assms] by metis
  have "potential ?cfg (map inst_value es) \<le> pass_limit es"
    using potential_bound [of ?cfg "map inst_value es"] by (simp add: pass_limit_def)
  from stabilize_total [OF assms r this] show ?thesis using r by (auto simp: reconcile_deployment_def)
qed

section \<open>Reconciliation\<close>

lemma reconciled_keeps:
  assumes "reconciled s now ev dep x" "settles dep' x x'" "dep \<noteq> dep'"
  shows "reconciled s now ev dep x'"
proof -
  have "stable cfg (begin_pass s now ev es x') \<longleftrightarrow> stable cfg (begin_pass s now ev es x)" for cfg es
    using assms(2) by (simp add: stable_def begin_pass_def settles_def drained_def drain_over_def placing_def)
  with assms show ?thesis unfolding reconciled_def settles_def keeps_def frame_def by metis
qed

definition untouched :: "nat list \<Rightarrow> txn \<Rightarrow> txn \<Rightarrow> bool" where
  "untouched ids x x' \<longleftrightarrow> (\<forall>dep. dep \<notin> set ids \<longrightarrow>
     placed dep (db_tables (tx_db x')) = placed dep (db_tables (tx_db x)) \<and>
     readSchedulingState dep (db_tables (tx_db x')) = readSchedulingState dep (db_tables (tx_db x)))"

lemma reconcile_all_total:
  assumes "settled x" "distinct ids"
  shows "\<exists>x'. foldE (reconcile_deployment s now ev) ids x = Inr x' \<and> settled x' \<and>
    upd_Seq (tx_update x') = upd_Seq (tx_update x) \<and> frame (db_tables (tx_db x)) (db_tables (tx_db x')) \<and>
    (placements_ok (db_tables (tx_db x)) \<longrightarrow> placements_ok (db_tables (tx_db x'))) \<and>
    (\<forall>dep. dep \<in> set ids \<or> reconciled s now ev dep x \<longrightarrow> reconciled s now ev dep x') \<and> untouched ids x x'"
  using assms
proof (induction ids arbitrary: x)
  case (Cons dep ids)
  from reconcile_deployment_total [OF Cons.prems(1), of s now ev dep] obtain x1 where
    x1: "reconcile_deployment s now ev dep x = Inr x1" "settles dep x x1" "reconciled s now ev dep x1" by blast
  have set1: "settled x1" and d: "distinct ids" using x1(2) Cons.prems(2) by (auto simp: settles_def)
  from Cons.IH [OF set1 d] obtain x' where x': "foldE (reconcile_deployment s now ev) ids x1 = Inr x'" "settled x'"
    "upd_Seq (tx_update x') = upd_Seq (tx_update x1)" "frame (db_tables (tx_db x1)) (db_tables (tx_db x'))"
    "placements_ok (db_tables (tx_db x1)) \<longrightarrow> placements_ok (db_tables (tx_db x'))"
    "\<forall>dep. dep \<in> set ids \<or> reconciled s now ev dep x1 \<longrightarrow> reconciled s now ev dep x'" "untouched ids x1 x'" by blast
  have "reconciled s now ev d' x'" if "d' \<in> set (dep # ids) \<or> reconciled s now ev d' x" for d'
    using that x'(6) x1(3) reconciled_keeps [OF _ x1(2)] by (cases "d' = dep") auto
  moreover have "untouched (dep # ids) x x'"
    using x'(7) x1(2) by (auto simp: untouched_def settles_def keeps_def)
  ultimately show ?case using x1 x' by (auto simp: settles_def keeps_def intro: frame_trans)
qed (auto simp: untouched_def)

lemma affected_distinct: "distinct (affected_deployments scope x)"
  by (simp add: affected_deployments_def Let_def)

lemma reconcile_spec:
  assumes "settled x"
  shows "\<exists>x'. reconcile s now scope x = Inr x' \<and> settled x' \<and> upd_Seq (tx_update x') = upd_Seq (tx_update x) \<and>
    (placements_ok (db_tables (tx_db x)) \<longrightarrow> placements_ok (db_tables (tx_db x'))) \<and>
    (\<forall>dep \<in> set (affected_deployments scope x).
       reconciled s (reconcile_now now x) (evictedNodeIDs (db_tables (tx_db x'))) dep x') \<and>
    untouched (affected_deployments scope x) x x' \<and> frame (db_tables (tx_db x)) (db_tables (tx_db x'))"
proof (cases "affected_deployments scope x = []")
  case True
  then have "reconcile s now scope x = Inr x" by (simp add: reconcile_def)
  with True assms show ?thesis by (auto simp: untouched_def)
next
  case False
  then have "reconcile s now scope x = foldE (reconcile_deployment s (reconcile_now now x) (evictedNodeIDs (db_tables (tx_db x))))
      (affected_deployments scope x) x" by (simp add: reconcile_def)
  with reconcile_all_total [OF assms affected_distinct, of s "reconcile_now now x" "evictedNodeIDs (db_tables (tx_db x))" scope x]
  show ?thesis by (auto simp: evictedNodeIDs_def frame_def)
qed

section \<open>Properties\<close>

text \<open>
  C1. Reconciliation is total and stabilises: started between two reductions of a consistent
  transaction, it returns without an error (so the \<open>scheduler did not stabilize\<close> branch and a
  missing pinned version are unreachable), and every deployment it was asked to look at is stable:
  another pass over it would change nothing.
\<close>

theorem reconcile_stabilises:
  assumes "settled x"
  shows "\<exists>x'. reconcile s now scope x = Inr x' \<and> settled x' \<and>
    (\<forall>dep \<in> set (affected_deployments scope x).
       reconciled s (reconcile_now now x) (evictedNodeIDs (db_tables (tx_db x'))) dep x')"
  using reconcile_spec [OF assms] by blast

text \<open>
  C2. At most one placement serves: in the version order the scheduler itself creates, a
  reconciliation never leaves two placements of the default ordinal of one deployment in
  \<open>RUN_SERVING\<close>, and it keeps that order.
\<close>

theorem reconcile_one_serving:
  assumes "settled x" "placements_ok (db_tables (tx_db x))" "reconcile s now scope x = Inr x'"
  shows "placements_ok (db_tables (tx_db x')) \<and>
    (\<forall>dep i j r q. (i, r) \<in> set (placed dep (db_tables (tx_db x'))) \<and> (j, q) \<in> set (placed dep (db_tables (tx_db x'))) \<and>
      row_ordinal r = defaultInstanceOrdinal \<and> row_ordinal q = defaultInstanceOrdinal \<and>
      si_State (row_value r) = TARGET_RUN_SERVING \<and> si_State (row_value q) = TARGET_RUN_SERVING \<longrightarrow> i = j)"
proof -
  have ok: "placements_ok (db_tables (tx_db x'))" using reconcile_spec [OF assms(1), of s now scope] assms(2,3) by auto
  have "i = j" if "(i, r) \<in> set (placed dep (db_tables (tx_db x')))" "(j, q) \<in> set (placed dep (db_tables (tx_db x')))"
    "row_ordinal r = defaultInstanceOrdinal" "row_ordinal q = defaultInstanceOrdinal"
    "si_State (row_value r) = TARGET_RUN_SERVING" "si_State (row_value q) = TARGET_RUN_SERVING" for dep i j r q
    using ok that unfolding placements_ok_def placement_ok_def one_serving_def by fastforce
  with ok show ?thesis by blast
qed

lemma read_values:
  assumes "readSchedulingState dep ts = Inr (cfg, es)"
  shows "map inst_value es = map row_instance (placed dep ts)"
proof -
  have "map sc_Event es = evs" if "read_instances ts evs = Inr es" for evs es
    using that by (induction evs arbitrary: es) (auto simp: bindE_Inr split: option.splits)
  then have "map sc_Event es = map scheduled_instance_event (placed dep ts)"
    using assms by (auto simp: readSchedulingState_def ListNonFinal_placed bindE_Inr)
  from arg_cong [OF this, of "map sie_Value"] show ?thesis by (simp add: comp_def)
qed

lemma read_status:
  assumes "readSchedulingState dep ts = Inr (cfg, es)" "e \<in> set es"
  shows "sc_Status e = (case GetLatestScheduledInstanceStatus (inst_id e) ts of None \<Rightarrow> zero_status | Some st \<Rightarrow> st)"
proof -
  have "sc_Status e = (case GetLatestScheduledInstanceStatus (inst_id e) ts of None \<Rightarrow> zero_status | Some st \<Rightarrow> st)"
    if "read_instances ts (map scheduled_instance_event p) = Inr es" "e \<in> set es" for p es
    using that
  proof (induction p arbitrary: es)
    case (Cons a p)
    then obtain pinned out where "read_instances ts (map scheduled_instance_event p) = Inr out"
      and "es = \<lparr>sc_Event = scheduled_instance_event a, sc_Config = pinned,
         sc_Status = (case GetLatestScheduledInstanceStatus (fst a) ts of None \<Rightarrow> zero_status | Some st \<Rightarrow> st)\<rparr> # out"
      by (auto simp: bindE_Inr split: option.splits)
    with Cons show ?case by (cases "e \<in> set out") auto
  qed simp
  with assms show ?thesis by (auto simp: readSchedulingState_def ListNonFinal_placed bindE_Inr)
qed

lemma placed_value:
  assumes "readSchedulingState dep ts = Inr (cfg, es)" "(i, r) \<in> set (placed dep ts)"
  obtains e where "e \<in> set es" "inst_value e = row_instance (i, r)"
  using assms read_values [OF assms(1)] by (metis (no_types, lifting) imageE image_eqI set_map)

text \<open>
  C3. What reconciliation does with a deployment that should not run, because it was deleted or
  stopped: no placement of it keeps a running target, and none stays in \<open>TERMINATE\<close> once its
  runner has reported that it stopped.
\<close>

theorem reconcile_retires:
  assumes "settled x" "reconcile s now scope x = Inr x'" "dep \<in> set (affected_deployments scope x)"
    and "\<not> wanted (GetLatestDeployment dep (db_tables (tx_db x')))"
    and "(i, r) \<in> set (placed dep (db_tables (tx_db x')))"
  shows "\<not> WantsRunning (si_State (row_value r)) \<and>
    (si_State (row_value r) = TARGET_TERMINATE \<longrightarrow>
      (\<forall>st. GetLatestScheduledInstanceStatus i (db_tables (tx_db x')) = Some st \<longrightarrow> \<not> terminalRunnerStatus (sis_Runner st)))"
proof -
  let ?ts = "db_tables (tx_db x')"
  from reconcile_spec [OF assms(1), of s now scope] assms(2,3) obtain es where
    es: "readSchedulingState dep ?ts = Inr (GetLatestDeployment dep ?ts, es)"
    "stable (GetLatestDeployment dep ?ts) (begin_pass s (reconcile_now now x) (evictedNodeIDs ?ts) es x')"
    by (auto simp: reconciled_def)
  from placed_value [OF es(1) assms(5)] obtain e where e: "e \<in> set es" "inst_value e = row_instance (i, r)" .
  with es(2) have "\<not> retirable (GetLatestDeployment dep ?ts) e" "\<not> stopped e"
    by (auto simp: stable_def begin_pass_def)
  with assms(4) e read_status [OF es(1) e(1)] show ?thesis
    by (auto simp: retirable_def retire_def stopped_def)
qed

text \<open>
  C4. What reconciliation does with a deployment that should run on a node that is not evicted:
  a placement of its current version with a running target exists, or the upgrade strategy is
  recreate and a placement of an older version has still to stop.
\<close>

theorem reconcile_places:
  assumes "settled x" "reconcile s now scope x = Inr x'" "dep \<in> set (affected_deployments scope x)"
    and "GetLatestDeployment dep (db_tables (tx_db x')) = Some c" "wanted (Some c)"
    and "PlacementNodeID (drec_Deployment c) > 0"
    and "PlacementNodeID (drec_Deployment c) \<notin> set (evictedNodeIDs (db_tables (tx_db x')))"
  shows "(\<exists>(i, r) \<in> set (placed dep (db_tables (tx_db x'))). row_ordinal r = defaultInstanceOrdinal \<and>
       dref_Version (si_Deployment (row_value r)) = meta_Version (drec_Meta c) \<and> WantsRunning (si_State (row_value r))) \<or>
    EffectiveUpgradeStrategy c = UPGRADE_RECREATE \<and>
    (\<exists>(i, r) \<in> set (placed dep (db_tables (tx_db x'))). row_ordinal r = defaultInstanceOrdinal \<and>
       si_State (row_value r) = TARGET_TERMINATE)"
proof -
  let ?ts = "db_tables (tx_db x')"
  let ?p = "placed dep ?ts"
  from reconcile_spec [OF assms(1), of s now scope] assms(2,3) obtain es where
    es: "readSchedulingState dep ?ts = Inr (GetLatestDeployment dep ?ts, es)"
    "stable (GetLatestDeployment dep ?ts) (begin_pass s (reconcile_now now x) (evictedNodeIDs ?ts) es x')"
    by (auto simp: reconciled_def)
  have vals: "set (map inst_value es) = set (map row_instance ?p)" using read_values [OF es(1)] by simp
  have row: "\<exists>(i, r) \<in> set ?p. Q (row_instance (i, r))" if "\<exists>v \<in> set (map inst_value es). Q v" for Q
    using that unfolding vals by auto
  have ps: "place_stable c es" using es(2) assms(4-7) by (simp add: stable_def placing_def begin_pass_def)
  show ?thesis
  proof (cases "exact_index c es")
    case None
    with ps have "\<exists>v \<in> set (map inst_value es). at_default v \<and> si_State v = TARGET_TERMINATE"
      and "EffectiveUpgradeStrategy c = UPGRADE_RECREATE"
      by (auto simp: place_stable_def list_ex_iff is_blocking_def)
    with row [of "\<lambda>v. at_default v \<and> si_State v = TARGET_TERMINATE"] show ?thesis by auto
  next
    case (Some k)
    then have "\<exists>v \<in> set (map inst_value es). exact_v c v" using exact_index_None [of c es] by auto
    with row [of "exact_v c"] show ?thesis by (auto simp: exact_v_def)
  qed
qed

section \<open>A concrete cluster\<close>

text \<open>
  One deployment on one node, with or without a serving placement: the input the properties above
  are applied to.
\<close>

definition sample_deployment :: "bool \<Rightarrow> Deployment" where
  "sample_deployment running =
    \<lparr>dep_ID = 0, dep_Name = ''web'', dep_SpaceID = 1,
     dep_Spec = \<lparr>ds_Container = None, ds_Networking = \<lparr>nc_Mode = 0, nc_PortForwarding = [], nc_Ingress = []\<rparr>\<rparr>,
     dep_Scheduling = \<lparr>sch_Running = running, sch_DedicatedNodes = Some [5], sch_RestartGeneration = 0\<rparr>\<rparr>"

definition sample_row :: "'a \<Rightarrow> 'a row" where
  "sample_row v = \<lparr>row_value = v, row_seq = 1, row_event_time = 10, row_author = 0, row_created_time = 10\<rparr>"

definition sample_instance :: ScheduledInstance where
  "sample_instance = \<lparr>si_ID = 1, si_NodeID = 5, si_InstanceOrdinal = 0, si_State = TARGET_RUN_SERVING, si_SpaceID = 1,
     si_Deployment = \<lparr>dref_DeploymentID = 7, dref_Version = 1\<rparr>\<rparr>"

definition sample_db :: "bool \<Rightarrow> ScheduledInstance list \<Rightarrow> db" where
  "sample_db running is =
    \<lparr>db_tables = empty_tables\<lparr>
       deployments := [(7, sample_row \<lparr>dr_SpaceID = 1, dr_Name = ''web'', dr_Version = 1, dr_SpecVersion = 1\<rparr>)],
       deployment_versions := [((7, 1), sample_row \<lparr>dvr_SpecVersion = 1, dvr_Value = sample_deployment running\<rparr>)],
       scheduled_instances := map (\<lambda>v. (si_ID v, sample_row v)) is\<rparr>,
     db_entity_ids = [(CORE_DEPLOYMENT, 8), (CORE_SCHEDULED_INSTANCE, 2)],
     db_global_seq = 1, db_log = []\<rparr>"

definition sample_scheduler :: Scheduler where
  "sample_scheduler = \<lparr>sched_barrier = None, sched_bootSeq = 0, sched_bootTime = 0\<rparr>"

lemmas sample_defs = sample_deployment_def sample_row_def sample_instance_def sample_db_def sample_scheduler_def
  empty_tables_def seq_txn_def wrote_def empty_update_def

lemma sample_settled: "is = [] \<or> is = [sample_instance] \<Longrightarrow> settled (seq_txn (sample_db running is) 2)"
  by (auto simp: settled_def tx_inv_def db_inv_def tables_wf_def pins_ok_def sample_defs entity_keys_def counter_def tbl_wf_def)

definition sample_run :: "bool \<Rightarrow> ScheduledInstance list \<Rightarrow> store_error + txn" where
  "sample_run running is = reconcile sample_scheduler 0 (Some (\<lambda>_. [7])) (seq_txn (sample_db running is) 2)"

definition sample_targets :: "store_error + txn \<Rightarrow> (nat \<times> ScheduledInstanceTarget) list" where
  "sample_targets r = (case r of Inl e \<Rightarrow> [] | Inr x \<Rightarrow>
     map (\<lambda>(i, r). (i, si_State (row_value r))) (placed 7 (db_tables (tx_db x))))"

lemma sample_stop_targets: "sample_targets (sample_run False [sample_instance]) = [(1, TARGET_TERMINATE)]"
  by code_simp

lemma sample_start_targets: "sample_targets (sample_run True []) = [(2, TARGET_RUN_SERVING)]"
  by code_simp

lemma sample_affected: "affected_deployments (Some (\<lambda>_. [7])) (seq_txn (sample_db running is) 2) = [7]"
  by (simp add: affected_deployments_def seq_txn_def wrote_def empty_update_def)

lemma sample_placed:
  assumes "is = [] \<or> is = [sample_instance]" "sample_targets (sample_run running is) = [(i, g)]"
  obtains x r where "sample_run running is = Inr x" "placed 7 (db_tables (tx_db x)) = [(i, r)]" "si_State (row_value r) = g"
  using assms by (cases "sample_run running is") (auto simp: sample_targets_def)

lemma sample_placements_ok: "placements_ok (db_tables (tx_db (seq_txn (sample_db running []) 2)))"
  by (auto simp: placements_ok_def placement_ok_def ordered_def one_serving_def placed_def sample_defs)

theorem reconcile_stabilises_witness:
  "\<exists>x'. sample_run True [] = Inr x' \<and> settled x' \<and>
    reconciled sample_scheduler (reconcile_now 0 (seq_txn (sample_db True []) 2)) (evictedNodeIDs (db_tables (tx_db x'))) 7 x'"
  using reconcile_stabilises [OF sample_settled [of "[]" True], of sample_scheduler 0 "Some (\<lambda>_. [7])"]
  by (simp add: sample_run_def sample_affected)

theorem reconcile_one_serving_witness:
  "\<exists>x'. sample_run True [] = Inr x' \<and> placements_ok (db_tables (tx_db x'))"
proof -
  obtain x where x: "sample_run True [] = Inr x" using sample_placed [OF _ sample_start_targets] by blast
  with reconcile_one_serving [OF sample_settled [of "[]" True] sample_placements_ok, of sample_scheduler 0 "Some (\<lambda>_. [7])" x]
  show ?thesis by (simp add: sample_run_def)
qed

lemma sample_stopped: "case sample_run False [sample_instance] of Inl e \<Rightarrow> False | Inr x \<Rightarrow>
    \<not> wanted (GetLatestDeployment 7 (db_tables (tx_db x)))"
  by code_simp

lemma sample_started: "case sample_run True [] of Inl e \<Rightarrow> False | Inr x \<Rightarrow>
    (case GetLatestDeployment 7 (db_tables (tx_db x)) of None \<Rightarrow> False | Some c \<Rightarrow>
       wanted (Some c) \<and> PlacementNodeID (drec_Deployment c) = 5 \<and> evictedNodeIDs (db_tables (tx_db x)) = [])"
  by code_simp

theorem reconcile_retires_witness:
  "\<exists>x' r. sample_run False [sample_instance] = Inr x' \<and> placed 7 (db_tables (tx_db x')) = [(1, r)] \<and>
     si_State (row_value r) = TARGET_TERMINATE \<and> \<not> WantsRunning (si_State (row_value r))"
proof -
  obtain x r where x: "sample_run False [sample_instance] = Inr x" "placed 7 (db_tables (tx_db x)) = [(1, r)]"
    "si_State (row_value r) = TARGET_TERMINATE" using sample_placed [OF _ sample_stop_targets] by blast
  have "\<not> WantsRunning (si_State (row_value r))"
    using reconcile_retires [OF sample_settled [of "[sample_instance]" False], of sample_scheduler 0 "Some (\<lambda>_. [7])" x 7 1 r]
      x sample_stopped by (simp add: sample_affected sample_run_def)
  with x show ?thesis by blast
qed

theorem reconcile_places_witness:
  "\<exists>x'. sample_run True [] = Inr x' \<and> (\<exists>(i, r) \<in> set (placed 7 (db_tables (tx_db x'))). WantsRunning (si_State (row_value r)))"
proof -
  obtain x r where x: "sample_run True [] = Inr x" "placed 7 (db_tables (tx_db x)) = [(2, r)]"
    "si_State (row_value r) = TARGET_RUN_SERVING" using sample_placed [OF _ sample_start_targets] by blast
  with sample_started obtain c where c: "GetLatestDeployment 7 (db_tables (tx_db x)) = Some c" "wanted (Some c)"
    "PlacementNodeID (drec_Deployment c) = 5" "evictedNodeIDs (db_tables (tx_db x)) = []" by (auto split: option.splits)
  have "7 \<in> set (affected_deployments (Some (\<lambda>_. [7])) (seq_txn (sample_db True []) 2))" by (simp add: sample_affected)
  from reconcile_places [OF sample_settled _ this c(1,2), of sample_scheduler 0] c x
  show ?thesis by (auto simp: sample_run_def)
qed

end
