(* ===== verification/Authz_Service_Reach.thy ===== *)
theory Authz_Service_Reach
  imports Authz_Service_Inv Scheduler_Inv
begin

text \<open>
  The service over time: what \<open>Open\<close> loads, the states a primary reaches by opening the service and
  interleaving its operations with restarts and with the commits of other components, and what
  holds in all of them.
\<close>

section \<open>Loading the caches\<close>

lemma sorted_keys_put:
  assumes "tbl_wf T" "\<And>i t. (i, t) \<in> set T \<Longrightarrow> f t = i"
  shows "fold (\<lambda>t m. tbl_put (f t) t m) (map snd T) [] = T"
  using assms
proof (induction T rule: rev_induct)
  case (snoc e T)
  obtain i t where e: "e = (i, t)" by (cases e)
  from snoc.prems(1) e have wf: "tbl_wf T" "\<forall>x \<in> fst ` set T. x < i" by (force simp: tbl_wf_def sorted_wrt_append order.strict_iff_order)+
  have ids: "f t = i" "\<And>j u. (j, u) \<in> set T \<Longrightarrow> f u = j" using snoc.prems(2) e by auto
  then show ?case using snoc.IH [OF wf(1) ids(2)] tbl_put_fresh [OF wf(2), of t] by (simp add: e)
qed simp

lemma list_access:
  assumes "access d = (T, G, R)"
  shows "ListAuthzGrantTemplates (db_tables d) = map snd T" "ListAuthzGrants (db_tables d) = map snd G"
    "ListAuthzGlobalRules (db_tables d) = map snd R"
  using assms by (auto simp: access_def access_table_defs ListAuthzGrantTemplates_def ListAuthzGrants_def ListAuthzGlobalRules_def comp_def)

lemma builtin_entity: "b \<in> set builtinTemplates \<Longrightarrow> templateEntity (tpl_ID b) (tpl_Name b) True (tpl_Spec b) = b"
  by (auto simp: builtinTemplates_def templateEntity_def)

lemmas validation_defs = validateTemplate_def validateTemplateName_def bad_name_def maxNameLen_def is_lower_def is_digit_def
  validVerb_def validEntityKind_def validArgumentKind_def validSpaceID_def validateVerbs_def validateSpaces_def
  validateEntityKinds_def validateEntityRefs_def oneOfTwo_def validatePermissionSelector_def validateSpaceSelector_def
  validateEntityTypeSelector_def validateEntityRefSelector_def validateSelector_def selected_def validateEffect_def isDeny_def
  deniesAccess_def validateRule_def validateGlobalRule_def position_uses_def templateSelectorUses_def literal_denies_access_def

definition with_builtins :: "(nat, AuthzGrantTemplate) table \<Rightarrow> (nat, AuthzGrantTemplate) table" where
  "with_builtins T = fold (\<lambda>b. tbl_put (tpl_ID b) b) builtinTemplates T"

lemma builtin_valid:
  "templates_ok (with_builtins [])"
  "validateGlobalRule DefaultUserVisibilityRuleName (Some defaultUserVisibilityRule) = None"
proof -
  have T: "with_builtins [] = [(1, builtinTemplates ! 0), (2, builtinTemplates ! 1)]" by code_simp
  have v: "validateTemplate (tpl_Name (builtinTemplates ! 0)) (Some (tpl_Spec (builtinTemplates ! 0))) = None"
    "validateTemplate (tpl_Name (builtinTemplates ! 1)) (Some (tpl_Spec (builtinTemplates ! 1))) = None"
    by (simp_all add: builtin_defs validation_defs)
  have n: "tpl_Name (builtinTemplates ! 0) \<noteq> tpl_Name (builtinTemplates ! 1)"
    "tpl_ID (builtinTemplates ! 0) = 1" "tpl_ID (builtinTemplates ! 1) = 2"
    by (simp_all add: builtinTemplates_def ClusterAdminTemplateID_def SpaceAdminTemplateID_def)
  have b: "set builtinTemplates = {builtinTemplates ! 0, builtinTemplates ! 1}" by (simp add: builtinTemplates_def)
  show "templates_ok (with_builtins [])" using v n unfolding templates_ok_def T b by simp
  show "validateGlobalRule DefaultUserVisibilityRuleName (Some defaultUserVisibilityRule) = None"
    by (simp add: builtin_defs validation_defs DefaultUserVisibilityRuleName_def defaultUserVisibilityRule_def)
qed

text \<open>A table that keeps every entry of another.\<close>

definition extends :: "('k, 'v) table \<Rightarrow> ('k, 'v) table \<Rightarrow> bool" where
  "extends t t' \<longleftrightarrow> (\<forall>k v. tbl_get t k = Some v \<longrightarrow> tbl_get t' k = Some v)"

lemma grant_rules_extends: "grant_ok T g \<Longrightarrow> extends T T' \<Longrightarrow> grant_rules T' g = grant_rules T g"
  by (auto simp: grant_ok_def extends_def grant_rules_def split: option.splits)

context quiet_triggers
begin

lemma upsert_builtins:
  assumes "db_inv d" "access d = (T, G, R)" "set bs \<subseteq> set builtinTemplates"
  shows "\<exists>d'. foldE (\<lambda>b d. on_store (upsertBuiltinGrantTemplate triggers now b d) (\<lambda>(_, _, d'). Inr d')) bs d = Inr d' \<and>
    db_inv d' \<and> access d' = (fold (\<lambda>b. tbl_put (tpl_ID b) b) bs T, G, R) \<and> set (db_log d) \<subseteq> set (db_log d') \<and>
    ((\<forall>b \<in> set bs. tbl_get T (tpl_ID b) = Some b) \<longrightarrow> d' = d)"
  using assms
proof (induction bs arbitrary: d T)
  case (Cons b bs)
  then have b: "b \<in> set builtinTemplates" by simp
  from upsertBuiltin_spec [OF Cons.prems(1,2) builtin_entity [OF b, symmetric], of now] obtain u d1 where
    d1: "upsertBuiltinGrantTemplate triggers now b d = Inr ((), u, d1)" "db_inv d1" "access d1 = (tbl_put (tpl_ID b) b T, G, R)"
      "tbl_get T (tpl_ID b) = Some b \<longrightarrow> d1 = d" "set (db_log d) \<subseteq> set (db_log d1)" by blast
  from Cons.IH [OF d1(2,3)] Cons.prems(3) obtain d2 where
    d2: "foldE (\<lambda>b d. on_store (upsertBuiltinGrantTemplate triggers now b d) (\<lambda>(_, _, d'). Inr d')) bs d1 = Inr d2"
      "db_inv d2" "access d2 = (fold (\<lambda>b. tbl_put (tpl_ID b) b) bs (tbl_put (tpl_ID b) b T), G, R)" "set (db_log d1) \<subseteq> set (db_log d2)"
      "(\<forall>c \<in> set bs. tbl_get (tbl_put (tpl_ID b) b T) (tpl_ID c) = Some c) \<longrightarrow> d2 = d1" by auto
  have "d2 = d" if "\<forall>c \<in> set (b # bs). tbl_get T (tpl_ID c) = Some c"
  proof -
    have "T = tbl_put (tpl_ID b) b T"
      using d1(3,4) that Cons.prems(2) by simp
    then show ?thesis using that d1(4) d2(5) by simp
  qed
  then show ?case using d1 d2 by (auto simp: on_store_def)
qed (simp)

lemma Open_loads:
  assumes "db_inv d" "access d = (T, G, R)"
  shows "\<exists>s R'. Open triggers now d = Inr s \<and> db_inv (svc_db s) \<and> access (svc_db s) = (with_builtins T, G, R') \<and>
    svc_templates s = with_builtins T \<and> svc_grantsByUser s = by_user (map snd G) \<and> svc_globalRules s = map snd R' \<and>
    AuthzGlobalRuleNameEverLogged DefaultUserVisibilityRuleName (svc_db s) \<and>
    (R' = R \<or> (\<exists>i. R' = R @ [(i, \<lparr>gr_ID = i, gr_Name = DefaultUserVisibilityRuleName, gr_Rule = defaultUserVisibilityRule\<rparr>)])) \<and>
    ((\<forall>b \<in> set builtinTemplates. tbl_get T (tpl_ID b) = Some b) \<and> AuthzGlobalRuleNameEverLogged DefaultUserVisibilityRuleName d \<longrightarrow>
      svc_db s = d)"
proof -
  from upsert_builtins [OF assms, of builtinTemplates now] obtain d1 where
    d1: "foldE (\<lambda>b d. on_store (upsertBuiltinGrantTemplate triggers now b d) (\<lambda>(_, _, d'). Inr d')) builtinTemplates d = Inr d1"
      "db_inv d1" "access d1 = (with_builtins T, G, R)" "set (db_log d) \<subseteq> set (db_log d1)"
      "(\<forall>b \<in> set builtinTemplates. tbl_get T (tpl_ID b) = Some b) \<longrightarrow> d1 = d" by (auto simp: with_builtins_def)
  from seedGlobalRule_spec [OF d1(2,3), of DefaultUserVisibilityRuleName defaultUserVisibilityRule now] obtain u d2 where
    d2: "seedGlobalRule triggers DefaultUserVisibilityRuleName defaultUserVisibilityRule now d1 = Inr ((), u, d2)" "db_inv d2"
      "AuthzGlobalRuleNameEverLogged DefaultUserVisibilityRuleName d2"
      and d2': "if AuthzGlobalRuleNameEverLogged DefaultUserVisibilityRuleName d1 then d2 = d1
        else access d2 = (with_builtins T, G, R @ [(counter CORE_AUTHZ_GLOBAL_RULE d1,
          \<lparr>gr_ID = counter CORE_AUTHZ_GLOBAL_RULE d1, gr_Name = DefaultUserVisibilityRuleName, gr_Rule = defaultUserVisibilityRule\<rparr>)])" by blast
  obtain R' where R': "access d2 = (with_builtins T, G, R')"
      "R' = R \<or> (\<exists>i. R' = R @ [(i, \<lparr>gr_ID = i, gr_Name = DefaultUserVisibilityRuleName, gr_Rule = defaultUserVisibilityRule\<rparr>)])"
    using d2' d1(3) by (auto split: if_splits)
  have wf: "tbl_wf (with_builtins T)" "tbl_wf G" "tbl_wf R'" using access_wf [OF d2(2)] R'(1) by (auto simp: access_def)
  note ids = row_ids [OF R'(1)]
  have tpls: "fold (\<lambda>t m. tbl_put (tpl_ID t) t m) (map snd (with_builtins T)) [] = with_builtins T"
    by (rule sorted_keys_put [OF wf(1)]) (rule ids(1))
  have keys: "map grant_ID (map snd G) = map fst G" "map gr_ID (map snd R') = map fst R'" using ids by auto
  have "sorted (map grant_ID (map snd G))" "sorted (map gr_ID (map snd R'))"
    unfolding keys using wf by (simp_all add: tbl_wf_def)
  then have users: "map (\<lambda>(u, gs). (u, sortByID grant_ID gs)) (fold append_grant (map snd G) []) = by_user (map snd G)"
    and rules: "sortByID gr_ID (map snd R') = map snd R'"
    using by_user_sorted [of "map snd G"] by (simp_all add: by_user_def sortByID_def sort_key_id_if_sorted)
  have "Open triggers now d = Inr \<lparr>svc_db = d2, svc_templates = with_builtins T, svc_grantsByUser = by_user (map snd G),
      svc_globalRules = map snd R'\<rparr>"
    unfolding Open_def d1(1) by (simp add: list_access [OF d1(3)] list_access [OF R'(1)] tpls users rules d2(1) on_store_def)
  then show ?thesis using d2 R' d1(5) d2' by (auto split: if_splits)
qed

lemma Open_fresh:
  assumes "db_inv d" "access d = ([], [], [])"
  shows "\<exists>s R. Open triggers now d = Inr s \<and> svc_view s [] R"
  using Open_loads [OF assms, of now] builtin_valid by (auto simp: svc_view_def)

lemma with_builtins_same:
  assumes "db_inv d" "access d = (T, G, R)" "\<forall>b \<in> set builtinTemplates. tbl_get T (tpl_ID b) = Some b"
  shows "with_builtins T = T"
  using upsert_builtins [OF assms(1,2) subset_refl] assms(2,3) by (auto simp: with_builtins_def)

lemma Open_again:
  assumes st: "svc_view s G R"
  shows "Open triggers now (svc_db s) = Inr s"
proof -
  note c = svc_viewD [OF st]
  have b: "\<forall>b \<in> set builtinTemplates. tbl_get (svc_templates s) (tpl_ID b) = Some b" using c(5) by (simp add: templates_ok_def)
  from Open_loads [OF c(1,2), of now] b c(8) obtain s' R' where
    s': "Open triggers now (svc_db s) = Inr s'" "access (svc_db s') = (with_builtins (svc_templates s), G, R')"
      "svc_templates s' = with_builtins (svc_templates s)" "svc_grantsByUser s' = by_user (map snd G)" "svc_globalRules s' = map snd R'"
      "svc_db s' = svc_db s" by blast
  have "R' = R" using s'(2,6) c(2) by simp
  then have "s' = s" using s' c(3,4) with_builtins_same [OF c(1,2) b] by (cases s, cases s') simp
  with s'(1) show ?thesis by simp
qed

lemma CreateGrantTemplate_frame:
  assumes st: "svc_view s G R" and "CreateGrantTemplate triggers now name spec author s = Inr (r, s')"
  shows "extends (svc_templates s) (svc_templates s')"
proof -
  note c = svc_viewD [OF st]
  from insertGrantTemplate_spec [OF c(1,2), of name "the spec" author now] obtain u d' m where
    "insertGrantTemplate triggers name (the spec) author now (svc_db s) = Inr (counter CORE_AUTHZ_GRANT_TEMPLATE (svc_db s), Some u, d')"
    by blast
  with assms(2) fresh_template(2) [OF c(1,2,5)] show ?thesis
    by (auto simp: CreateGrantTemplate_def on_store_def Let_def extends_def tbl_get_put [OF c(9)] split: option.splits if_splits)
qed

end

section \<open>Reachable services\<close>

inductive reachable_service :: "Service \<Rightarrow> bool" where
  opened: "db_inv d \<Longrightarrow> access d = ([], [], []) \<Longrightarrow> Open [scheduler_trigger sch t] now d = Inr s \<Longrightarrow> reachable_service s"
| create_template: "reachable_service s \<Longrightarrow>
    CreateGrantTemplate [scheduler_trigger sch t] now name spec author s = Inr (tpl, s') \<Longrightarrow> reachable_service s'"
| update_template: "reachable_service s \<Longrightarrow>
    UpdateGrantTemplate [scheduler_trigger sch t] now i name spec author s = Inr (tpl, s') \<Longrightarrow> reachable_service s'"
| delete_template: "reachable_service s \<Longrightarrow> DeleteGrantTemplate [scheduler_trigger sch t] now i author s = Inr s' \<Longrightarrow> reachable_service s'"
| create_grant: "reachable_service s \<Longrightarrow> CreateGrant [scheduler_trigger sch t] now g author s = Inr (g', s') \<Longrightarrow> reachable_service s'"
| delete_grant: "reachable_service s \<Longrightarrow> DeleteGrant [scheduler_trigger sch t] now u i author s = Inr s' \<Longrightarrow> reachable_service s'"
| create_rule: "reachable_service s \<Longrightarrow> CreateGlobalRule [scheduler_trigger sch t] now name rule author s = Inr (r, s') \<Longrightarrow> reachable_service s'"
| delete_rule: "reachable_service s \<Longrightarrow> DeleteGlobalRule [scheduler_trigger sch t] now i author s = Inr s' \<Longrightarrow> reachable_service s'"
| restarted: "reachable_service s \<Longrightarrow> Open [scheduler_trigger sch t] now (svc_db s) = Inr s' \<Longrightarrow> reachable_service s'"
| elsewhere: "reachable_service s \<Longrightarrow> db_inv d \<Longrightarrow> access d = access (svc_db s) \<Longrightarrow> set (db_log (svc_db s)) \<subseteq> set (db_log d) \<Longrightarrow>
    reachable_service (s\<lparr>svc_db := d\<rparr>)"

lemma reachable_view: "reachable_service s \<Longrightarrow> \<exists>G R. svc_view s G R"
proof (induction rule: reachable_service.induct)
  case (opened d sch t now s)
  from scheduled.Open_fresh [OF opened(1,2), of sch t now] opened(3) show ?case by auto
next
  case (elsewhere s d)
  then obtain G R where "svc_view s G R" by blast
  with elsewhere ever_logged_mono have "svc_view (s\<lparr>svc_db := d\<rparr>) G R" by (simp add: svc_view_def)
  then show ?case by blast
next
  case (restarted s sch t now s')
  then show ?case using scheduled.Open_again [of s _ _ sch t now] by auto
qed (blast dest: scheduled.CreateGrantTemplate_view scheduled.UpdateGrantTemplate_view scheduled.DeleteGrantTemplate_view
    scheduled.CreateGrant_view scheduled.DeleteGrant_view scheduled.CreateGlobalRule_view scheduled.DeleteGlobalRule_view)+

section \<open>A concrete history\<close>

definition ops_triggers :: "trigger list" where
  "ops_triggers = [scheduler_trigger sample_scheduler 0]"

definition service_of :: "svc_error + 'a \<times> Service \<Rightarrow> Service" where
  "service_of r = (case r of Inr (_, s) \<Rightarrow> s | Inl _ \<Rightarrow> sample_service)"

definition ops_rule :: "AuthzVerb list \<Rightarrow> AuthzTemplateRule" where
  "ops_rule vs = \<lparr>trule_Effect = allow False, trule_Selector = \<lparr>tsel_Permissions = literal (exact vs),
     tsel_Spaces = literal (all_excluding []), tsel_EntityTypes = literal (all_excluding []), tsel_EntityRefs = literal (all_excluding [])\<rparr>\<rparr>"

definition ops_spec :: "AuthzVerb list \<Rightarrow> AuthzGrantTemplateSpec option" where
  "ops_spec vs = Some \<lparr>Arguments = [], Rules = [ops_rule vs]\<rparr>"

definition ops_grant :: "AuthzGrant option" where
  "ops_grant = Some \<lparr>grant_ID = 0, grant_UserID = 7, grant_Source = \<lparr>src_Rule = None, src_Template = Some \<lparr>tg_TemplateID = 3, tg_Args = []\<rparr>\<rparr>\<rparr>"

definition ops0 :: Service where "ops0 = (case Open ops_triggers 1000 empty_db of Inr s \<Rightarrow> s | Inl _ \<Rightarrow> sample_service)"
definition ops1 :: Service where "ops1 = service_of (CreateGrantTemplate ops_triggers 1001 ''ops'' (ops_spec [VERB_VIEW, VERB_CREATE]) 7 ops0)"
definition ops2 :: Service where "ops2 = service_of (CreateGrant ops_triggers 1002 ops_grant 7 ops1)"
definition ops3 :: Service where "ops3 = service_of (UpdateGrantTemplate ops_triggers 1003 3 ''ops'' (ops_spec [VERB_VIEW]) 7 ops2)"

lemmas ops_defs = ops0_def ops1_def ops2_def ops3_def

lemma ops_runs:
  "Open ops_triggers 1000 empty_db = Inr ops0"
  "\<exists>r. CreateGrantTemplate ops_triggers 1001 ''ops'' (ops_spec [VERB_VIEW, VERB_CREATE]) 7 ops0 = Inr (r, ops1)"
  "\<exists>r. CreateGrant ops_triggers 1002 ops_grant 7 ops1 = Inr (r, ops2)"
  "\<exists>r. UpdateGrantTemplate ops_triggers 1003 3 ''ops'' (ops_spec [VERB_VIEW]) 7 ops2 = Inr (r, ops3)"
proof -
  have ok: "\<not> isl (Open ops_triggers 1000 empty_db)"
    "\<not> isl (CreateGrantTemplate ops_triggers 1001 ''ops'' (ops_spec [VERB_VIEW, VERB_CREATE]) 7 ops0)"
    "\<not> isl (CreateGrant ops_triggers 1002 ops_grant 7 ops1)"
    "\<not> isl (UpdateGrantTemplate ops_triggers 1003 3 ''ops'' (ops_spec [VERB_VIEW]) 7 ops2)" by code_simp+
  show "Open ops_triggers 1000 empty_db = Inr ops0" using ok(1) by (cases "Open ops_triggers 1000 empty_db") (auto simp: ops0_def)
  have run: "\<not> isl r \<Longrightarrow> \<exists>x. r = Inr (x, service_of r)" for r :: "svc_error + 'z \<times> Service"
    by (cases r) (auto simp: service_of_def)
  show "\<exists>r. CreateGrantTemplate ops_triggers 1001 ''ops'' (ops_spec [VERB_VIEW, VERB_CREATE]) 7 ops0 = Inr (r, ops1)"
    unfolding ops1_def by (rule run [OF ok(2)])
  show "\<exists>r. CreateGrant ops_triggers 1002 ops_grant 7 ops1 = Inr (r, ops2)" unfolding ops2_def by (rule run [OF ok(3)])
  show "\<exists>r. UpdateGrantTemplate ops_triggers 1003 3 ''ops'' (ops_spec [VERB_VIEW]) 7 ops2 = Inr (r, ops3)"
    unfolding ops3_def by (rule run [OF ok(4)])
qed

lemma empty_db_ok: "db_inv empty_db" "access empty_db = ([], [], [])"
  by (auto simp: empty_db_def empty_tables_def db_inv_def tables_wf_def pins_ok_def access_def access_table_defs entity_keys_def counter_def tbl_wf_def)

lemma ops_reachable: "reachable_service ops0" "reachable_service ops1" "reachable_service ops2" "reachable_service ops3"
proof -
  note runs = ops_runs [unfolded ops_triggers_def]
  show r0: "reachable_service ops0" by (rule reachable_service.opened [OF empty_db_ok runs(1)])
  from runs(2) show r1: "reachable_service ops1" by (auto intro: reachable_service.create_template [OF r0])
  from runs(3) show r2: "reachable_service ops2" by (auto intro: reachable_service.create_grant [OF r1])
  from runs(4) show "reachable_service ops3" by (auto intro: reachable_service.update_template [OF r2])
qed

section \<open>Properties\<close>

text \<open>
  C6. The caches of the service are what the store holds, in every reachable state: the template
  cache is the template table, the grants of each user are the rows of the grant table with that
  user in id order, the global rules are the rule table in id order; template names are unique,
  every template and global rule is valid, every grant has arguments that fit its template, and the
  built-in templates are the shipped ones.
\<close>

theorem reachable_service_inv:
  assumes "reachable_service s"
  shows "svc_inv s"
  using reachable_view [OF assms] by (simp add: svc_inv_view)

theorem reachable_service_inv_witness: "svc_inv ops2 \<and> length (all_grants ops2) = 1"
proof
  show "length (all_grants ops2) = 1" by code_simp
qed (rule reachable_service_inv [OF ops_reachable(3)])

text \<open>
  C7. A restart is invisible: opening the service on the store of a running one commits nothing and
  loads exactly the caches the running one has, whatever clock and trigger it is opened with, so
  every decision is the same before and after.
\<close>

theorem restart_transparent:
  assumes "reachable_service s"
  shows "Open [scheduler_trigger sch t] now (svc_db s) = Inr s"
  using reachable_view [OF assms] scheduled.Open_again by blast

theorem restart_transparent_witness: "Open [scheduler_trigger sample_scheduler 5] 9000 (svc_db ops3) = Inr ops3"
  by (rule restart_transparent [OF ops_reachable(4)])

text \<open>
  C8. Every rule a decision can rest on is well formed: whatever grants, templates and argument
  bindings were created, updated and deleted, each rule a user effectively has (a grant's own rule,
  a template rule with its arguments filled in, a global rule) passes the validation of a rule: one
  effect, every selector with exactly one side, values in range, and no deny naming the access entity.
\<close>

theorem effective_rules_valid:
  assumes "reachable_service s"
  shows "\<forall>r \<in> set (effective_rules s userID). validateRule (Some r) = None"
proof
  fix r assume r: "r \<in> set (effective_rules s userID)"
  from reachable_view [OF assms] obtain G R where st: "svc_view s G R" by blast
  note c = svc_viewD [OF st]
  from r consider g where "g \<in> set (grantsOf s userID)" "r \<in> set (grant_rules (svc_templates s) g)"
    | q where "q \<in> set (svc_globalRules s)" "r = gr_Rule q" by (auto simp: effective_rules_def)
  then show "validateRule (Some r) = None"
  proof cases
    case 1
    then have ok: "grant_ok (svc_templates s) g" using c(6) grantsOf_by_user [OF c(3)] by auto
    have "validateTemplate (tpl_Name t) (Some (tpl_Spec t)) = None" if "tbl_get (svc_templates s) i = Some t" for i t
      using that c(5) tbl_get_in [OF c(9)] by (auto simp: templates_ok_def)
    with ok 1(2) resolved_rule_valid show ?thesis by (fastforce simp: grant_ok_def grant_rules_def split: option.splits)
  next
    case 2
    then show ?thesis using c(4,7) by (auto simp: validateGlobalRule_def split: if_splits)
  qed
qed

theorem effective_rules_valid_witness:
  "length (effective_rules ops2 7) = 2 \<and> list_all (\<lambda>r. validateRule (Some r) = None) (effective_rules ops2 7)"
proof
  show "length (effective_rules ops2 7) = 2" by code_simp
qed (use effective_rules_valid [OF ops_reachable(3)] in \<open>simp add: list_all_iff\<close>)


section \<open>Who is affected by a change\<close>

lemma effective_rules_grants:
  assumes "svc_grantsByUser s' = by_user gs'" "svc_globalRules s' = svc_globalRules s"
  shows "effective_rules s' u = concat (map (grant_rules (svc_templates s')) (filter (\<lambda>g. grant_UserID g = u) gs')) @ map gr_Rule (svc_globalRules s)"
  using assms by (simp add: effective_rules_def grantsOf_by_user)

lemma HasAccess_effective: "set (effective_rules s u) = set (effective_rules s' v) \<Longrightarrow> HasAccess s u req = HasAccess s' v req"
  unfolding HasAccess_policy granted_iff denied_iff by simp

text \<open>The template operations that leave the grants alone leave every user's rules alone.\<close>

lemma effective_rules_extends:
  assumes "svc_view s G R" "svc_view s' G R" "extends (svc_templates s) (svc_templates s') \<or> extends (svc_templates s') (svc_templates s)"
  shows "effective_rules s' u = effective_rules s u"
proof -
  note c = svc_viewD [OF assms(1)] and c' = svc_viewD [OF assms(2)]
  have "grant_rules (svc_templates s') g = grant_rules (svc_templates s) g" if "g \<in> snd ` set G" for g
    using assms(3) grant_rules_extends c(6) c'(6) that by metis
  then have "map (grant_rules (svc_templates s')) (filter (\<lambda>g. grant_UserID g = u) (map snd G)) =
      map (grant_rules (svc_templates s)) (filter (\<lambda>g. grant_UserID g = u) (map snd G))" by (intro map_cong) auto
  then show ?thesis unfolding effective_rules_def grantsOf_by_user [OF c(3)] grantsOf_by_user [OF c'(3)] c(4) c'(4) by (simp only:)
qed

lemma DeleteGrantTemplate_extends:
  "DeleteGrantTemplate triggers now i author s = Inr s' \<Longrightarrow> extends (svc_templates s') (svc_templates s)"
  by (auto simp: DeleteGrantTemplate_def on_store_def extends_def tbl_get_del split: option.splits if_splits sum.splits)

text \<open>
  Defining and removing templates decides nothing: in every reachable state a successful
  \<open>CreateGrantTemplate\<close> or \<open>DeleteGrantTemplate\<close> leaves every decision for every user as it was.
\<close>

theorem template_changes_decide_nothing:
  assumes "reachable_service s"
    and "CreateGrantTemplate [scheduler_trigger sch t] now name spec author s = Inr (tpl, s') \<or>
         DeleteGrantTemplate [scheduler_trigger sch t] now i author s = Inr s'"
  shows "HasAccess s' userID req = HasAccess s userID req"
proof -
  from reachable_view [OF assms(1)] obtain G R where st: "svc_view s G R" by blast
  have "svc_view s' G R \<and> (extends (svc_templates s) (svc_templates s') \<or> extends (svc_templates s') (svc_templates s))"
    using assms(2)
  proof
    assume run: "CreateGrantTemplate [scheduler_trigger sch t] now name spec author s = Inr (tpl, s')"
    show ?thesis using scheduled.CreateGrantTemplate_view [OF st run] scheduled.CreateGrantTemplate_frame [OF st run] by simp
  next
    assume run: "DeleteGrantTemplate [scheduler_trigger sch t] now i author s = Inr s'"
    show ?thesis using scheduled.DeleteGrantTemplate_view [OF st run] DeleteGrantTemplate_extends [OF run] by simp
  qed
  then show ?thesis using effective_rules_extends [OF st] HasAccess_effective by metis
qed

theorem template_changes_decide_nothing_witness: "HasAccess ops1 7 adminAccess = HasAccess ops0 7 adminAccess"
  using ops_runs(2) template_changes_decide_nothing [OF ops_reachable(1), of sample_scheduler 0]
  unfolding ops_triggers_def by metis

text \<open>
  A grant concerns its user and adds exactly its rules: after \<open>CreateGrant\<close> the rules of the
  grant's user are those before and those of the grant, and everyone else's are unchanged; after
  \<open>DeleteGrant\<close> everyone but the named user has the rules they had.
\<close>

theorem grant_changes_are_local:
  assumes "reachable_service s"
  shows "(CreateGrant [scheduler_trigger sch t] now g author s = Inr (r, s') \<longrightarrow>
      set (effective_rules s' u) = set (effective_rules s u) \<union> (if u = grant_UserID r then set (grant_rules (svc_templates s) r) else {})) \<and>
    (DeleteGrant [scheduler_trigger sch t] now v i author s = Inr s' \<and> u \<noteq> v \<longrightarrow> effective_rules s' u = effective_rules s u)"
proof (intro conjI impI)
  from reachable_view [OF assms(1)] obtain G R where st: "svc_view s G R" by blast
  note c = svc_viewD [OF st]
  have same: "svc_templates s' = svc_templates s \<and> svc_globalRules s' = svc_globalRules s"
    if "CreateGrant [scheduler_trigger sch t] now g author s = Inr (r, s') \<or> DeleteGrant [scheduler_trigger sch t] now v i author s = Inr s'"
    using that by (auto simp: CreateGrant_def DeleteGrant_def on_store_def Let_def split: option.splits if_splits sum.splits)
  show "set (effective_rules s' u) = set (effective_rules s u) \<union> (if u = grant_UserID r then set (grant_rules (svc_templates s) r) else {})"
    if run: "CreateGrant [scheduler_trigger sch t] now g author s = Inr (r, s')"
  proof -
    from scheduled.CreateGrant_view [OF st run] obtain j where st': "svc_view s' (G @ [(j, r)]) R" by blast
    show ?thesis using same run by (auto simp: effective_rules_grants [OF c(3) refl] effective_rules_grants [OF svc_viewD(3) [OF st'], of s'])
  qed
  show "effective_rules s' u = effective_rules s u"
    if run: "DeleteGrant [scheduler_trigger sch t] now v i author s = Inr s' \<and> u \<noteq> v"
  proof -
    have "grantsOf s' u = grantsOf s u"
    proof -
      have "tbl_wf (svc_grantsByUser s)" using by_user_get c(3) by metis
      then show ?thesis using run
        by (auto simp: DeleteGrant_def on_store_def Let_def grantsOf_def tbl_get_put tbl_get_del split: option.splits if_splits sum.splits)
    qed
    then show ?thesis using same run by (simp add: effective_rules_def)
  qed
qed

theorem grant_changes_are_local_witness:
  "\<exists>r. set (effective_rules ops2 7) = set (effective_rules ops1 7) \<union> (if 7 = grant_UserID r then set (grant_rules (svc_templates ops1) r) else {})"
  using ops_runs(3) grant_changes_are_local [OF ops_reachable(2), of sample_scheduler 0 1002 ops_grant 7 _ ops2 7]
  unfolding ops_triggers_def by blast

section \<open>Access management is not lost\<close>

definition admin_grant_exists :: "Service \<Rightarrow> bool" where
  "admin_grant_exists s \<longleftrightarrow> (\<exists>u. \<exists>g \<in> set (grantsOf s u). grantMatchesLocked (svc_templates s) g adminAccess False)"

lemma HasAccess_admin: "HasAccess s u adminAccess \<longleftrightarrow> (\<exists>r \<in> set (effective_rules s u). ruleMatches r adminAccess False)"
proof -
  have "req_EntityType adminAccess = KIND_ACCESS" "req_Verb adminAccess \<noteq> VERB_UNSPECIFIED" "req_EntityType adminAccess \<noteq> KIND_UNSPECIFIED"
    "SystemSpaceAllows adminAccess" by code_simp+
  then show ?thesis unfolding HasAccess_policy granted_iff by simp
qed

lemma admin_grant_exists_view:
  "svc_view s G R \<Longrightarrow> admin_grant_exists s \<longleftrightarrow> (\<exists>g \<in> snd ` set G. \<exists>r \<in> set (grant_rules (svc_templates s) g). ruleMatches r adminAccess False)"
  by (auto simp: admin_grant_exists_def grantsOf_by_user [OF svc_viewD(3)] grantMatchesLocked_rules)

lemma DeleteGrant_keeps_admin:
  assumes st: "svc_view s G R" and ex: "admin_grant_exists s" and run: "DeleteGrant [scheduler_trigger sch t] now v i author s = Inr s'"
  shows "admin_grant_exists s'"
proof -
  note c = svc_viewD [OF st]
  note st' = scheduled.DeleteGrant_view [OF st run]
  have T: "svc_templates s' = svc_templates s"
    using run by (auto simp: DeleteGrant_def on_store_def Let_def split: option.splits if_splits sum.splits)
  from run obtain n where n: "find_index (\<lambda>g. grant_ID g = i) (grantsOf s v) = Some n"
    and guard: "grantMatchesLocked (svc_templates s) (grantsOf s v ! n) adminAccess False \<longrightarrow> otherAdminGrantExistsLocked s i"
    by (auto simp: DeleteGrant_def Let_def split: option.splits if_splits)
  let ?g = "grantsOf s v ! n"
  have "?g \<in> snd ` set G" "grant_ID ?g = i"
    using find_index_Some [OF n] nth_mem [of n "grantsOf s v"] grantsOf_by_user [OF c(3)] by auto
  moreover have "inj_on grant_ID (snd ` set G)"
    using c(10) unfolding tbl_wf_def c(12) [symmetric] distinct_map [of grant_ID] by simp
  ultimately have uniq: "h = ?g" if "h \<in> snd ` set G" "grant_ID h = i" for h using that by (auto dest: inj_onD)
  have "\<exists>g \<in> snd ` set G. grant_ID g \<noteq> i \<and> grantMatchesLocked (svc_templates s) g adminAccess False"
    using ex guard uniq unfolding admin_grant_exists_view [OF st] grantMatchesLocked_rules otherAdminGrantExistsLocked_def list_ex_iff c(14)
    by metis
  moreover have "g \<in> snd ` set (tbl_del i G)" if "g \<in> snd ` set G" "grant_ID g \<noteq> i" for g
    using that scheduled.row_ids(2) [OF c(2)] by (force simp: tbl_del_def)
  ultimately show ?thesis unfolding admin_grant_exists_view [OF st'] T grantMatchesLocked_rules by blast
qed

text \<open>
  C9. The guarded operations never lock everyone out: in every reachable state, if some grant
  carries access management, then after a successful \<open>CreateGrantTemplate\<close>,
  \<open>DeleteGrantTemplate\<close>, \<open>CreateGrant\<close> or \<open>DeleteGrant\<close> some grant still does, and its
  user passes the check that access management needs, whatever denies the grants and global rules hold.
\<close>

theorem access_management_survives:
  assumes "reachable_service s" and "admin_grant_exists s"
    and "CreateGrantTemplate [scheduler_trigger sch t] now name spec author s = Inr (tpl, s') \<or>
         DeleteGrantTemplate [scheduler_trigger sch t] now i author s = Inr s' \<or>
         CreateGrant [scheduler_trigger sch t] now g author s = Inr (r, s') \<or>
         DeleteGrant [scheduler_trigger sch t] now v i author s = Inr s'"
  shows "admin_grant_exists s' \<and> (\<exists>u. HasAccess s' u adminAccess)"
proof
  from reachable_view [OF assms(1)] obtain G R where st: "svc_view s G R" by blast
  have frame: "admin_grant_exists s'" if st': "svc_view s' G R"
    and ext: "extends (svc_templates s) (svc_templates s') \<or> extends (svc_templates s') (svc_templates s)"
  proof -
    have "grant_rules (svc_templates s') g = grant_rules (svc_templates s) g" if "g \<in> snd ` set G" for g
      using ext grant_rules_extends svc_viewD(6) [OF st] svc_viewD(6) [OF st'] that by metis
    then show ?thesis using assms(2) unfolding admin_grant_exists_view [OF st] admin_grant_exists_view [OF st'] by metis
  qed
  consider "CreateGrantTemplate [scheduler_trigger sch t] now name spec author s = Inr (tpl, s')"
    | "DeleteGrantTemplate [scheduler_trigger sch t] now i author s = Inr s'"
    | "CreateGrant [scheduler_trigger sch t] now g author s = Inr (r, s')"
    | "DeleteGrant [scheduler_trigger sch t] now v i author s = Inr s'" using assms(3) by blast
  then show *: "admin_grant_exists s'"
  proof cases
    case 1
    show ?thesis using frame [OF scheduled.CreateGrantTemplate_view [OF st 1]] scheduled.CreateGrantTemplate_frame [OF st 1] by simp
  next
    case 2
    show ?thesis using frame [OF scheduled.DeleteGrantTemplate_view [OF st 2]] DeleteGrantTemplate_extends [OF 2] by simp
  next
    case 3
    from scheduled.CreateGrant_view [OF st 3] obtain j where "svc_view s' (G @ [(j, r)]) R" by blast
    moreover have "svc_templates s' = svc_templates s"
      using 3 by (auto simp: CreateGrant_def on_store_def Let_def split: option.splits if_splits sum.splits)
    ultimately show ?thesis using assms(2) by (auto simp: admin_grant_exists_view [OF st] admin_grant_exists_view)
  next
    case 4
    then show ?thesis by (rule DeleteGrant_keeps_admin [OF st assms(2)])
  qed
  then show "\<exists>u. HasAccess s' u adminAccess"
    by (auto simp: admin_grant_exists_def HasAccess_admin effective_rules_def grantMatchesLocked_rules)
qed

definition second_admin :: Service where
  "second_admin = service_of (CreateGrant ops_triggers 1003 ops_grant 7 ops2)"

theorem access_management_survives_witness: "admin_grant_exists second_admin \<and> (\<exists>u. HasAccess second_admin u adminAccess)"
proof -
  have "\<not> isl (CreateGrant ops_triggers 1003 ops_grant 7 ops2)" by code_simp
  then have "\<exists>r. CreateGrant ops_triggers 1003 ops_grant 7 ops2 = Inr (r, second_admin)"
    by (cases "CreateGrant ops_triggers 1003 ops_grant 7 ops2") (auto simp: second_admin_def service_of_def)
  moreover have "list_ex (\<lambda>g. grantMatchesLocked (svc_templates ops2) g adminAccess False) (grantsOf ops2 7)" by code_simp
  then have "admin_grant_exists ops2" unfolding admin_grant_exists_def list_ex_iff by blast
  ultimately show ?thesis using access_management_survives [OF ops_reachable(3)] unfolding ops_triggers_def by blast
qed

text \<open>
  C21. \<open>UpdateGrantTemplate\<close> has no such guard: on a reachable service where user 7 manages access
  through a template of their own and nobody else does, updating that template to view only
  succeeds, and afterwards no user at all can create an access entity, although deleting user 7's
  grant in the same state is refused with \<open>ErrLastAdmin\<close>.
\<close>

theorem UpdateGrantTemplate_locks_out:
  "reachable_service ops2 \<and> HasAccess ops2 7 adminAccess \<and>
   DeleteGrant ops_triggers 1003 7 1 7 ops2 = Inl (AuthzErr ErrLastAdmin) \<and>
   (\<exists>t. UpdateGrantTemplate ops_triggers 1003 3 ''ops'' (ops_spec [VERB_VIEW]) 7 ops2 = Inr (t, ops3)) \<and>
   \<not> (\<exists>u. HasAccess ops3 u adminAccess)"
proof (intro conjI)
  show "HasAccess ops2 7 adminAccess" by code_simp
  have "(case DeleteGrant ops_triggers 1003 7 1 7 ops2 of Inl (AuthzErr ErrLastAdmin) \<Rightarrow> True | _ \<Rightarrow> False)" by code_simp
  then show "DeleteGrant ops_triggers 1003 7 1 7 ops2 = Inl (AuthzErr ErrLastAdmin)"
    by (auto split: sum.splits svc_error.splits authz_error.splits)
  from reachable_view [OF ops_reachable(4)] obtain G R where st: "svc_view ops3 G R" by blast
  have "list_all (\<lambda>g. \<not> grantMatchesLocked (svc_templates ops3) g adminAccess False) (all_grants ops3)" by code_simp
  moreover have "list_all (\<lambda>r. \<not> ruleMatches (gr_Rule r) adminAccess False) (svc_globalRules ops3)" by code_simp
  moreover have "set (grantsOf ops3 u) \<subseteq> set (all_grants ops3)" for u
    using grantsOf_by_user [OF svc_viewD(3) [OF st]] svc_viewD(14) [OF st] by auto
  ultimately show "\<not> (\<exists>u. HasAccess ops3 u adminAccess)"
    unfolding HasAccess_admin effective_rules_def list_all_iff grantMatchesLocked_rules by fastforce
qed (rule ops_reachable(3), rule ops_runs(4))

end
