(* ===== verification/Net_Addr.thy ===== *)
theory Net_Addr
  imports Prelude "HOL-Library.Word"
begin

text \<open>
  The virtual network's addressing (\<open>backend/lib/network/addr.go\<close>): logical IPv6 addresses are
  a pure function of space, deployment, ordinal, placement and run, packed below the cluster's /48.
  Go's \<open>int32\<close> is a 32 bit word read with \<open>sint\<close>, \<open>uint64\<close> a 64 bit word, the sixteen bytes
  of an address one 128 bit word in network order, the six bytes of the cluster prefix one 48 bit
  word. The part of \<open>net/netip\<close> the code uses comes first.
\<close>

unbundle bit_operations_syntax

section \<open>Addresses and prefixes of \<open>net/netip\<close>\<close>

datatype Addr = NoAddr | Addr4 "32 word" | Addr6 "128 word" string

definition Is6 :: "Addr \<Rightarrow> bool" where
  "Is6 a = (case a of Addr6 _ _ \<Rightarrow> True | _ \<Rightarrow> False)"

definition Is4 :: "Addr \<Rightarrow> bool" where
  "Is4 a = (case a of Addr4 _ \<Rightarrow> True | _ \<Rightarrow> False)"

definition Zone :: "Addr \<Rightarrow> string" where
  "Zone a = (case a of Addr6 _ z \<Rightarrow> z | _ \<Rightarrow> [])"

definition withoutZone :: "Addr \<Rightarrow> Addr" where
  "withoutZone a = (case a of Addr6 w _ \<Rightarrow> Addr6 w [] | _ \<Rightarrow> a)"

definition BitLen :: "Addr \<Rightarrow> nat" where
  "BitLen a = (case a of NoAddr \<Rightarrow> 0 | Addr4 _ \<Rightarrow> 32 | Addr6 _ _ \<Rightarrow> 128)"

text \<open>An IPv4 address has the mapped form; the zero \<open>Addr\<close> has no bytes and \<open>As16\<close> gives zeros for it.\<close>

definition As16 :: "Addr \<Rightarrow> 128 word" where
  "As16 a = (case a of NoAddr \<Rightarrow> 0 | Addr4 w \<Rightarrow> push_bit 32 0xffff OR ucast w | Addr6 w _ \<Rightarrow> w)"

text \<open>A prefix has no length (\<open>None\<close>) when it is the zero value or its bits were out of range.\<close>

record NetPrefix =
  np_Addr :: Addr
  np_Bits :: "nat option"

definition PrefixFrom :: "Addr \<Rightarrow> nat \<Rightarrow> NetPrefix" where
  "PrefixFrom a bits = \<lparr>np_Addr = withoutZone a, np_Bits = (if a \<noteq> NoAddr \<and> bits \<le> BitLen a then Some bits else None)\<rparr>"

definition mask_addr :: "nat \<Rightarrow> Addr \<Rightarrow> Addr" where
  "mask_addr n a = (case a of NoAddr \<Rightarrow> NoAddr
     | Addr4 w \<Rightarrow> Addr4 (push_bit (32 - n) (drop_bit (32 - n) w))
     | Addr6 w z \<Rightarrow> Addr6 (push_bit (128 - n) (drop_bit (128 - n) w)) z)"

definition Masked :: "NetPrefix \<Rightarrow> NetPrefix" where
  "Masked p = (case np_Bits p of None \<Rightarrow> \<lparr>np_Addr = NoAddr, np_Bits = None\<rparr>
     | Some n \<Rightarrow> PrefixFrom (mask_addr n (np_Addr p)) n)"

definition NetContains :: "NetPrefix \<Rightarrow> Addr \<Rightarrow> bool" where
  "NetContains p a = (case np_Bits p of None \<Rightarrow> False
     | Some n \<Rightarrow> (case (np_Addr p, a) of
         (Addr4 v, Addr4 w) \<Rightarrow> drop_bit (32 - n) v = drop_bit (32 - n) w
       | (Addr6 v _, Addr6 w z) \<Rightarrow> z = [] \<and> drop_bit (128 - n) v = drop_bit (128 - n) w
       | _ \<Rightarrow> False))"

section \<open>The layout\<close>

definition SpaceBits :: nat where "SpaceBits = 16"
definition DeploymentBits :: nat where "DeploymentBits = 24"
definition OrdinalBits :: nat where "OrdinalBits = 12"
definition PlacementBits :: nat where "PlacementBits = 20"
definition RunBits :: nat where "RunBits = 8"
definition PrefixLen :: nat where "PrefixLen = 6"

definition MaxSpaceID :: "32 word" where "MaxSpaceID = push_bit SpaceBits 1 - 1"
definition MaxDeploymentID :: "32 word" where "MaxDeploymentID = push_bit DeploymentBits 1 - 1"
definition MaxOrdinal :: "32 word" where "MaxOrdinal = push_bit OrdinalBits 1 - 1"
definition MaxPlacementSlot :: "32 word" where "MaxPlacementSlot = push_bit PlacementBits 1 - 1"
definition MaxRunSlot :: "32 word" where "MaxRunSlot = push_bit RunBits 1 - 1"

definition SpacePrefixBits :: nat where "SpacePrefixBits = PrefixLen * 8 + SpaceBits"
definition DeploymentPrefixBits :: nat where "DeploymentPrefixBits = SpacePrefixBits + DeploymentBits"
definition InstancePrefixBits :: nat where "InstancePrefixBits = DeploymentPrefixBits + OrdinalBits"
definition PlacementPrefixBits :: nat where "PlacementPrefixBits = InstancePrefixBits + PlacementBits"

definition deploymentShift :: nat where "deploymentShift = OrdinalBits + PlacementBits + RunBits"
definition ordinalShift :: nat where "ordinalShift = PlacementBits + RunBits"
definition placementShift :: nat where "placementShift = RunBits"

record LogicalAddr =
  la_SpaceID :: "32 word"
  la_DeploymentID :: "32 word"
  la_Ordinal :: "32 word"
  la_PlacementSlot :: "32 word"
  la_RunSlot :: "32 word"

definition IsInbound :: "LogicalAddr \<Rightarrow> bool" where
  "IsInbound a \<longleftrightarrow> la_PlacementSlot a = 0 \<and> la_RunSlot a = 0"

definition IsOutbound :: "LogicalAddr \<Rightarrow> bool" where
  "IsOutbound a \<longleftrightarrow> la_PlacementSlot a \<noteq> 0 \<and> la_RunSlot a \<noteq> 0"

datatype addr_field = SpaceField | DeploymentField | OrdinalField | PlacementField | RunField

datatype addr_error =
    BadPrefixLength nat
  | BadPrefixByte "8 word"
  | OutsideClusterPrefix
  | ZeroDeploymentID
  | InvalidSlots "32 word" "32 word"
  | BitsBelowLength
  | ZeroPlacementSlot
  | NotRoutableLength
  | OutOfRange addr_field "32 word"
  | NotPositive addr_field "32 word"

section \<open>The cluster prefix\<close>

type_synonym Prefix = "48 word"

definition ParsePrefix :: "8 word list \<Rightarrow> addr_error + Prefix" where
  "ParsePrefix b =
    (if length b \<noteq> PrefixLen then Inl (BadPrefixLength (length b))
     else if b ! 0 \<noteq> 0xfd then Inl (BadPrefixByte (b ! 0))
     else Inr (word_rcat b))"

definition Prefix_IsZero :: "Prefix \<Rightarrow> bool" where
  "Prefix_IsZero p \<longleftrightarrow> p = 0"

definition Bytes :: "Prefix \<Rightarrow> 8 word list" where
  "Bytes p = map (\<lambda>i. ucast (drop_bit (8 * (5 - i)) p)) [0 ..< PrefixLen]"

definition CIDR :: "Prefix \<Rightarrow> NetPrefix" where
  "CIDR p = PrefixFrom (Addr6 (word_cat p (0 :: 80 word)) []) (PrefixLen * 8)"

section \<open>Decoding\<close>

definition ParseAddr :: "Prefix \<Rightarrow> Addr \<Rightarrow> addr_error + LogicalAddr" where
  "ParseAddr p a =
    (if \<not> Is6 a \<or> Zone a \<noteq> [] \<or> \<not> NetContains (CIDR p) a then Inl OutsideClusterPrefix
     else let raw = As16 a;
              lower = (ucast raw :: 64 word);
              decoded = \<lparr>la_SpaceID = ucast (ucast (drop_bit 64 raw) :: 16 word),
                la_DeploymentID = ucast (drop_bit deploymentShift lower AND ucast MaxDeploymentID),
                la_Ordinal = ucast (drop_bit ordinalShift lower AND ucast MaxOrdinal),
                la_PlacementSlot = ucast (drop_bit placementShift lower AND ucast MaxPlacementSlot),
                la_RunSlot = ucast (lower AND ucast MaxRunSlot)\<rparr>
          in if la_DeploymentID decoded = 0 then Inl ZeroDeploymentID
             else if \<not> IsInbound decoded \<and> \<not> IsOutbound decoded
             then Inl (InvalidSlots (la_PlacementSlot decoded) (la_RunSlot decoded))
             else Inr decoded)"

definition ValidateRoutedAddr :: "Prefix \<Rightarrow> Addr \<Rightarrow> addr_error + unit" where
  "ValidateRoutedAddr p a = (case ParseAddr p a of Inl e \<Rightarrow> Inl e | Inr _ \<Rightarrow> Inr ())"

definition ValidateRoutedPrefix :: "Prefix \<Rightarrow> NetPrefix \<Rightarrow> addr_error + unit" where
  "ValidateRoutedPrefix p pre =
    (if pre \<noteq> Masked pre then Inl BitsBelowLength
     else let a = np_Addr pre in
       if \<not> Is6 a \<or> Zone a \<noteq> [] \<or> \<not> NetContains (CIDR p) a then Inl OutsideClusterPrefix
       else let lower = (ucast (As16 a) :: 64 word) in
         if (ucast (drop_bit deploymentShift lower AND ucast MaxDeploymentID) :: 32 word) = 0 then Inl ZeroDeploymentID
         else if np_Bits pre = Some InstancePrefixBits then Inr ()
         else if np_Bits pre = Some PlacementPrefixBits then
           (if (ucast (drop_bit placementShift lower AND ucast MaxPlacementSlot) :: 32 word) = 0 then Inl ZeroPlacementSlot else Inr ())
         else Inl NotRoutableLength)"

section \<open>Encoding\<close>

definition in_range :: "32 word \<Rightarrow> 32 word \<Rightarrow> bool" where
  "in_range m v \<longleftrightarrow> \<not> (sint v < 0 \<or> sint v > sint m)"

definition addr :: "Prefix \<Rightarrow> 32 word \<Rightarrow> 32 word \<Rightarrow> 32 word \<Rightarrow> 32 word \<Rightarrow> 32 word \<Rightarrow> addr_error + Addr" where
  "addr p spaceID deploymentID ordinal placementSlot runSlot =
    (if \<not> in_range MaxSpaceID spaceID then Inl (OutOfRange SpaceField spaceID)
     else if \<not> in_range MaxDeploymentID deploymentID then Inl (OutOfRange DeploymentField deploymentID)
     else if \<not> in_range MaxOrdinal ordinal then Inl (OutOfRange OrdinalField ordinal)
     else if \<not> in_range MaxPlacementSlot placementSlot then Inl (OutOfRange PlacementField placementSlot)
     else if \<not> in_range MaxRunSlot runSlot then Inl (OutOfRange RunField runSlot)
     else let lower = push_bit deploymentShift (ucast deploymentID) OR push_bit ordinalShift (ucast ordinal) OR
                      push_bit placementShift (ucast placementSlot) OR (ucast runSlot :: 64 word)
          in Inr (Addr6 (word_cat (word_cat p (ucast spaceID :: 16 word) :: 64 word) lower) []))"

definition InboundAddr :: "Prefix \<Rightarrow> 32 word \<Rightarrow> 32 word \<Rightarrow> 32 word \<Rightarrow> addr_error + Addr" where
  "InboundAddr p spaceID deploymentID ordinal =
    (if deploymentID = 0 then Inl (NotPositive DeploymentField deploymentID) else addr p spaceID deploymentID ordinal 0 0)"

text \<open>\<open>(v - 1) % max + 1\<close> on \<open>int32\<close>; Go's remainder truncates, which for the positive values here is \<open>mod\<close>.\<close>

definition fold_slot :: "32 word \<Rightarrow> 32 word \<Rightarrow> 32 word" where
  "fold_slot m v = word_of_int (sint (v - 1) mod sint m) + 1"

definition placementSlot :: "32 word \<Rightarrow> 32 word \<Rightarrow> addr_error + 32 word" where
  "placementSlot deploymentID scheduledInstanceID =
    (if deploymentID = 0 then Inl (NotPositive DeploymentField deploymentID)
     else if sint scheduledInstanceID < 1 then Inl (NotPositive PlacementField scheduledInstanceID)
     else Inr (fold_slot MaxPlacementSlot scheduledInstanceID))"

definition OutboundAddr :: "Prefix \<Rightarrow> 32 word \<Rightarrow> 32 word \<Rightarrow> 32 word \<Rightarrow> 32 word \<Rightarrow> 32 word \<Rightarrow> addr_error + Addr" where
  "OutboundAddr p spaceID deploymentID ordinal scheduledInstanceID runNumber =
    (if sint runNumber < 1 then Inl (NotPositive RunField runNumber)
     else bindE (placementSlot deploymentID scheduledInstanceID) (\<lambda>slot.
       addr p spaceID deploymentID ordinal slot (fold_slot MaxRunSlot runNumber)))"

definition InstanceCIDR :: "Prefix \<Rightarrow> 32 word \<Rightarrow> 32 word \<Rightarrow> 32 word \<Rightarrow> addr_error + NetPrefix" where
  "InstanceCIDR p spaceID deploymentID ordinal =
    (if deploymentID = 0 then Inl (NotPositive DeploymentField deploymentID)
     else bindE (addr p spaceID deploymentID ordinal 0 0) (\<lambda>a. Inr (PrefixFrom a InstancePrefixBits)))"

definition PlacementCIDR :: "Prefix \<Rightarrow> 32 word \<Rightarrow> 32 word \<Rightarrow> 32 word \<Rightarrow> 32 word \<Rightarrow> addr_error + NetPrefix" where
  "PlacementCIDR p spaceID deploymentID ordinal scheduledInstanceID =
    bindE (placementSlot deploymentID scheduledInstanceID) (\<lambda>slot.
    bindE (addr p spaceID deploymentID ordinal slot 0) (\<lambda>a. Inr (PrefixFrom a PlacementPrefixBits)))"

definition SpaceCIDR :: "Prefix \<Rightarrow> 32 word \<Rightarrow> addr_error + NetPrefix" where
  "SpaceCIDR p spaceID = bindE (addr p spaceID 0 0 0 0) (\<lambda>a. Inr (PrefixFrom a SpacePrefixBits))"

definition DeploymentCIDR :: "Prefix \<Rightarrow> 32 word \<Rightarrow> 32 word \<Rightarrow> addr_error + NetPrefix" where
  "DeploymentCIDR p spaceID deploymentID =
    bindE (addr p spaceID deploymentID 0 0 0) (\<lambda>a. Inr (PrefixFrom a DeploymentPrefixBits))"

lemmas layout_defs = SpaceBits_def DeploymentBits_def OrdinalBits_def PlacementBits_def RunBits_def PrefixLen_def
  MaxSpaceID_def MaxDeploymentID_def MaxOrdinal_def MaxPlacementSlot_def MaxRunSlot_def SpacePrefixBits_def
  DeploymentPrefixBits_def InstancePrefixBits_def PlacementPrefixBits_def deploymentShift_def ordinalShift_def placementShift_def

lemma layout [simp]:
  "deploymentShift = 40" "ordinalShift = 28" "placementShift = 8" "MaxSpaceID = 65535" "MaxDeploymentID = 16777215"
  "MaxOrdinal = 4095" "MaxPlacementSlot = 1048575" "MaxRunSlot = 255" "SpacePrefixBits = 64" "DeploymentPrefixBits = 88"
  "InstancePrefixBits = 100" "PlacementPrefixBits = 120" "PrefixLen = 6"
  by (simp_all add: layout_defs)


section \<open>Fields and bits\<close>

lemma in_range_bits:
  assumes "in_range m v" "sint m < 2 ^ k" "bit v n"
  shows "n < k"
proof -
  have "0 \<le> sint v" "sint v < 2 ^ k" using assms(1,2) by (auto simp: in_range_def)
  then have "take_bit k (sint v) = sint v" by (simp add: take_bit_int_eq_self)
  moreover have "bit (sint v) n" using assms(3) bit_imp_le_length [OF assms(3)] by (simp add: bit_sint_iff)
  ultimately show ?thesis by (metis bit_take_bit_iff)
qed

text \<open>The packed form of a logical address, and what each field needs to fit.\<close>

definition fits :: "LogicalAddr \<Rightarrow> bool" where
  "fits l \<longleftrightarrow> in_range MaxSpaceID (la_SpaceID l) \<and> in_range MaxDeploymentID (la_DeploymentID l) \<and> in_range MaxOrdinal (la_Ordinal l) \<and>
    in_range MaxPlacementSlot (la_PlacementSlot l) \<and> in_range MaxRunSlot (la_RunSlot l)"

definition pack :: "Prefix \<Rightarrow> LogicalAddr \<Rightarrow> 128 word" where
  "pack p l = word_cat (word_cat p (ucast (la_SpaceID l) :: 16 word) :: 64 word)
     (push_bit 40 (ucast (la_DeploymentID l)) OR push_bit 28 (ucast (la_Ordinal l)) OR push_bit 8 (ucast (la_PlacementSlot l)) OR
      (ucast (la_RunSlot l) :: 64 word))"

lemma fits_bits:
  assumes "fits l"
  shows "bit (la_SpaceID l) n \<Longrightarrow> n < 16" "bit (la_DeploymentID l) n \<Longrightarrow> n < 24" "bit (la_Ordinal l) n \<Longrightarrow> n < 12"
    "bit (la_PlacementSlot l) n \<Longrightarrow> n < 20" "bit (la_RunSlot l) n \<Longrightarrow> n < 8"
  using assms in_range_bits [of MaxSpaceID "la_SpaceID l" 16 n] in_range_bits [of MaxDeploymentID "la_DeploymentID l" 24 n]
    in_range_bits [of MaxOrdinal "la_Ordinal l" 12 n] in_range_bits [of MaxPlacementSlot "la_PlacementSlot l" 20 n]
    in_range_bits [of MaxRunSlot "la_RunSlot l" 8 n]
  by (simp_all add: fits_def)

lemma addr_pack:
  "addr p s d ord pl r = Inr a \<longleftrightarrow> (let l = \<lparr>la_SpaceID = s, la_DeploymentID = d, la_Ordinal = ord, la_PlacementSlot = pl, la_RunSlot = r\<rparr>
     in fits l \<and> a = Addr6 (pack p l) [])"
  by (auto simp: addr_def fits_def pack_def Let_def)

text \<open>Every bit of a packed address belongs to one field.\<close>

lemma bit_pack:
  assumes "fits l"
  shows "bit (pack p l) n \<longleftrightarrow>
    (if n < 8 then bit (la_RunSlot l) n
     else if n < 28 then bit (la_PlacementSlot l) (n - 8)
     else if n < 40 then bit (la_Ordinal l) (n - 28)
     else if n < 64 then bit (la_DeploymentID l) (n - 40)
     else if n < 80 then bit (la_SpaceID l) (n - 64)
     else bit p (n - 80))"
proof -
  note b = fits_bits [OF assms]
  have lt: "bit p (n - 80) \<Longrightarrow> n < 128" using bit_imp_le_length [of p "n - 80"] by simp
  have run: "bit (la_RunSlot l) n \<Longrightarrow> n < 8" and pl: "bit (la_PlacementSlot l) (n - 8) \<Longrightarrow> n < 28"
    and ord: "bit (la_Ordinal l) (n - 28) \<Longrightarrow> n < 40" and dep: "bit (la_DeploymentID l) (n - 40) \<Longrightarrow> n < 64"
    using b(5) [of n] b(4) [of "n - 8"] b(3) [of "n - 28"] b(2) [of "n - 40"] by linarith+
  show ?thesis
    unfolding pack_def using lt run pl ord dep
    by (auto simp: bit_simps)
qed

lemma pack_fields:
  assumes "fits l"
  shows "ucast (ucast (drop_bit 64 (pack p l)) :: 16 word) = la_SpaceID l"
    "ucast (drop_bit 40 (ucast (pack p l) :: 64 word) AND 16777215) = la_DeploymentID l"
    "ucast (drop_bit 28 (ucast (pack p l) :: 64 word) AND 4095) = la_Ordinal l"
    "ucast (drop_bit 8 (ucast (pack p l) :: 64 word) AND 1048575) = la_PlacementSlot l"
    "ucast ((ucast (pack p l) :: 64 word) AND 255) = la_RunSlot l"
proof -
  note b = fits_bits [OF assms]
  have m: "(16777215 :: 64 word) = mask 24" "(4095 :: 64 word) = mask 12" "(1048575 :: 64 word) = mask 20" "(255 :: 64 word) = mask 8"
    by (simp_all add: mask_eq_exp_minus_1)
  show "ucast (ucast (drop_bit 64 (pack p l)) :: 16 word) = la_SpaceID l"
    by (rule bit_word_eqI) (auto simp: bit_simps bit_pack [OF assms] dest: b)
  show "ucast (drop_bit 40 (ucast (pack p l) :: 64 word) AND 16777215) = la_DeploymentID l"
    unfolding m by (rule bit_word_eqI) (auto simp: bit_simps bit_pack [OF assms] dest: b)
  show "ucast (drop_bit 28 (ucast (pack p l) :: 64 word) AND 4095) = la_Ordinal l"
    unfolding m by (rule bit_word_eqI) (auto simp: bit_simps bit_pack [OF assms] dest: b)
  show "ucast (drop_bit 8 (ucast (pack p l) :: 64 word) AND 1048575) = la_PlacementSlot l"
    unfolding m by (rule bit_word_eqI) (auto simp: bit_simps bit_pack [OF assms] dest: b)
  show "ucast ((ucast (pack p l) :: 64 word) AND 255) = la_RunSlot l"
    unfolding m by (rule bit_word_eqI) (auto simp: bit_simps bit_pack [OF assms] dest: b)
qed

lemma pack_prefix: "fits l \<Longrightarrow> drop_bit 80 (pack p l) = ucast p"
  by (rule bit_word_eqI) (auto simp: bit_simps bit_pack dest: bit_imp_le_length)

lemma CIDR_contains [simp]: "NetContains (CIDR p) (Addr6 w z) \<longleftrightarrow> z = [] \<and> drop_bit 80 w = ucast p"
proof -
  have "drop_bit 80 (word_cat p (0 :: 80 word) :: 128 word) = ucast p"
    by (rule bit_word_eqI) (auto simp: bit_simps dest: bit_imp_le_length)
  then show ?thesis by (auto simp: NetContains_def CIDR_def PrefixFrom_def withoutZone_def BitLen_def)
qed

text \<open>The logical address a 128 bit word carries.\<close>

definition unpack :: "128 word \<Rightarrow> LogicalAddr" where
  "unpack w = \<lparr>la_SpaceID = ucast (ucast (drop_bit 64 w) :: 16 word),
     la_DeploymentID = ucast (drop_bit 40 (ucast w :: 64 word) AND 16777215),
     la_Ordinal = ucast (drop_bit 28 (ucast w :: 64 word) AND 4095),
     la_PlacementSlot = ucast (drop_bit 8 (ucast w :: 64 word) AND 1048575),
     la_RunSlot = ucast ((ucast w :: 64 word) AND 255)\<rparr>"

lemma unpack_pack [simp]: "fits l \<Longrightarrow> unpack (pack p l) = l"
  by (cases l) (simp add: unpack_def pack_fields)

lemma in_range_bounded:
  assumes "\<And>n. bit v n \<Longrightarrow> n < k" "k < 32" "sint m = 2 ^ k - 1"
  shows "in_range m v"
proof -
  have "take_bit k (sint v) = sint v"
  proof (rule bit_eqI)
    fix n show "bit (take_bit k (sint v)) n = bit (sint v) n"
      using assms(1) [of n] assms(1) [of 31] assms(2) by (auto simp: bit_sint_iff bit_take_bit_iff)
  qed
  then have "0 \<le> sint v \<and> sint v < 2 ^ k" by (metis take_bit_nonnegative take_bit_int_less_exp)
  with assms(3) show ?thesis by (simp add: in_range_def)
qed

lemma unpack_fits: "fits (unpack w)"
proof -
  have m: "(16777215 :: 64 word) = mask 24" "(4095 :: 64 word) = mask 12" "(1048575 :: 64 word) = mask 20" "(255 :: 64 word) = mask 8"
    by (simp_all add: mask_eq_exp_minus_1)
  have "in_range MaxSpaceID (la_SpaceID (unpack w))"
    by (rule in_range_bounded [where k = 16]) (auto simp: unpack_def bit_simps)
  moreover have "in_range MaxDeploymentID (la_DeploymentID (unpack w))"
    unfolding unpack_def m by (rule in_range_bounded [where k = 24]) (auto simp: bit_simps)
  moreover have "in_range MaxOrdinal (la_Ordinal (unpack w))"
    unfolding unpack_def m by (rule in_range_bounded [where k = 12]) (auto simp: bit_simps)
  moreover have "in_range MaxPlacementSlot (la_PlacementSlot (unpack w))"
    unfolding unpack_def m by (rule in_range_bounded [where k = 20]) (auto simp: bit_simps)
  moreover have "in_range MaxRunSlot (la_RunSlot (unpack w))"
    unfolding unpack_def m by (rule in_range_bounded [where k = 8]) (auto simp: bit_simps)
  ultimately show ?thesis by (simp add: fits_def)
qed

lemma pack_unpack:
  assumes "drop_bit 80 w = ucast p"
  shows "pack p (unpack w) = w"
proof (rule bit_word_eqI)
  fix n assume "n < LENGTH(128)"
  have m: "(16777215 :: 64 word) = mask 24" "(4095 :: 64 word) = mask 12" "(1048575 :: 64 word) = mask 20" "(255 :: 64 word) = mask 8"
    by (simp_all add: mask_eq_exp_minus_1)
  have "bit w n \<longleftrightarrow> bit p (n - 80)" if "80 \<le> n"
    using arg_cong [OF assms, of "\<lambda>x. bit x (n - 80)"] that by (auto simp: bit_simps dest: bit_imp_le_length)
  then show "bit (pack p (unpack w)) n = bit w n"
    unfolding bit_pack [OF unpack_fits] unfolding unpack_def m using \<open>n < LENGTH(128)\<close> by (auto simp: bit_simps)
qed

lemma ParseAddr_iff:
  "ParseAddr p a = Inr l \<longleftrightarrow> fits l \<and> a = Addr6 (pack p l) [] \<and> la_DeploymentID l \<noteq> 0 \<and> (IsInbound l \<or> IsOutbound l)"
proof -
  have "ParseAddr p a = Inr l \<longleftrightarrow> (\<exists>w. a = Addr6 w [] \<and> drop_bit 80 w = ucast p \<and> l = unpack w \<and> la_DeploymentID l \<noteq> 0 \<and> (IsInbound l \<or> IsOutbound l))"
    by (cases a) (auto simp: ParseAddr_def Is6_def Zone_def As16_def unpack_def Let_def)
  also have "\<dots> \<longleftrightarrow> fits l \<and> a = Addr6 (pack p l) [] \<and> la_DeploymentID l \<noteq> 0 \<and> (IsInbound l \<or> IsOutbound l)"
    using unpack_fits pack_unpack pack_prefix unpack_pack by metis
  finally show ?thesis .
qed

section \<open>Slots\<close>

lemma sint_word_of_int: "- (2 ^ 31) \<le> x \<Longrightarrow> x < 2 ^ 31 \<Longrightarrow> sint (word_of_int x :: 32 word) = x"
  by (simp add: sint_sbintrunc' signed_take_bit_int_eq_self)

lemma sint_range: "- (2 ^ 31) \<le> sint (v :: 32 word)" "sint v < 2 ^ 31"
  using sint_range_size [of v] by (simp_all add: word_size)

lemma fold_slot_sint:
  assumes "1 \<le> sint v" "1 \<le> sint m"
  shows "sint (fold_slot m v) = (sint v - 1) mod sint m + 1"
proof -
  have v: "v - 1 = word_of_int (sint v - 1)" by simp
  have 1: "sint (v - 1) = sint v - 1" unfolding v by (rule sint_word_of_int) (use assms(1) sint_range [of v] in auto)
  have r: "0 \<le> (sint v - 1) mod sint m" "(sint v - 1) mod sint m < sint m" using assms(2) by simp_all
  have "fold_slot m v = word_of_int ((sint v - 1) mod sint m + 1)" by (simp add: fold_slot_def 1)
  moreover have "sint (word_of_int ((sint v - 1) mod sint m + 1) :: 32 word) = (sint v - 1) mod sint m + 1"
    by (rule sint_word_of_int) (use r sint_range [of m] in auto)
  ultimately show ?thesis by simp
qed

lemma fold_slot_range:
  assumes "1 \<le> sint v" "1 \<le> sint m"
  shows "in_range m (fold_slot m v)" "fold_slot m v \<noteq> 0"
proof -
  note s = fold_slot_sint [OF assms]
  have r: "0 \<le> (sint v - 1) mod sint m" "(sint v - 1) mod sint m < sint m" using assms(2) by simp_all
  show "in_range m (fold_slot m v)" using r by (simp add: in_range_def s)
  show "fold_slot m v \<noteq> 0"
  proof
    assume "fold_slot m v = 0"
    then have "sint (fold_slot m v) = 0" by simp
    with s r show False by simp
  qed
qed

lemma fold_slot_eq:
  assumes "1 \<le> sint v" "1 \<le> sint w" "1 \<le> sint m"
  shows "fold_slot m v = fold_slot m w \<longleftrightarrow> sint v mod sint m = sint w mod sint m"
proof -
  have "fold_slot m v = fold_slot m w \<longleftrightarrow> sint (fold_slot m v) = sint (fold_slot m w)" by (auto intro: signed_word_eqI)
  also have "\<dots> \<longleftrightarrow> (sint v - 1) mod sint m = (sint w - 1) mod sint m" by (simp add: fold_slot_sint assms)
  also have "\<dots> \<longleftrightarrow> sint v mod sint m = sint w mod sint m" by (metis diff_add_cancel mod_add_cong mod_diff_cong)
  finally show ?thesis .
qed

lemma fold_slot_id: "1 \<le> sint v \<Longrightarrow> in_range m v \<Longrightarrow> fold_slot m v = v"
proof -
  assume v: "1 \<le> sint v" "in_range m v"
  then have m: "1 \<le> sint m" "sint v - 1 < sint m" by (auto simp: in_range_def)
  have "sint (fold_slot m v) = sint v" using v(1) m by (simp add: fold_slot_sint)
  then show ?thesis by (simp add: signed_word_eqI)
qed

section \<open>Prefixes\<close>

text \<open>The addresses under a prefix share the bits above it.\<close>

lemma contains_pack:
  assumes "n \<le> 128"
  shows "NetContains (PrefixFrom (Addr6 v []) n) (Addr6 w []) \<longleftrightarrow> (\<forall>k. 128 - n \<le> k \<longrightarrow> bit v k = bit w k)"
proof -
  have "drop_bit (128 - n) v = drop_bit (128 - n) w \<longleftrightarrow> (\<forall>k. 128 - n \<le> k \<longrightarrow> bit v k = bit w k)"
  proof
    assume eq: "drop_bit (128 - n) v = drop_bit (128 - n) w"
    show "\<forall>k. 128 - n \<le> k \<longrightarrow> bit v k = bit w k"
    proof (intro allI impI)
      fix k assume "128 - n \<le> k"
      then show "bit v k = bit w k" using arg_cong [OF eq, of "\<lambda>x. bit x (k - (128 - n))"] by (simp add: bit_drop_bit_eq)
    qed
  next
    assume "\<forall>k. 128 - n \<le> k \<longrightarrow> bit v k = bit w k"
    then show "drop_bit (128 - n) v = drop_bit (128 - n) w" by (intro bit_word_eqI) (simp add: bit_drop_bit_eq)
  qed
  with assms show ?thesis by (simp add: NetContains_def PrefixFrom_def withoutZone_def BitLen_def)
qed

lemma word_eq_shift: "(v :: 32 word) = w \<longleftrightarrow> (\<forall>k \<ge> m. bit v (k - m) = bit w (k - m))"
  by (metis add_diff_cancel_right' bit_eqI le_add2)

definition same_until :: "nat \<Rightarrow> LogicalAddr \<Rightarrow> LogicalAddr \<Rightarrow> bool" where
  "same_until n l l' \<longleftrightarrow> la_SpaceID l = la_SpaceID l' \<and> (n \<ge> 88 \<longrightarrow> la_DeploymentID l = la_DeploymentID l') \<and>
    (n \<ge> 100 \<longrightarrow> la_Ordinal l = la_Ordinal l') \<and> (n \<ge> 120 \<longrightarrow> la_PlacementSlot l = la_PlacementSlot l')"

lemma field_eq:
  assumes "\<And>n. bit v n \<Longrightarrow> n < j - i" "\<And>n. bit w n \<Longrightarrow> n < j - i"
  shows "(v :: 32 word) = w \<longleftrightarrow> (\<forall>k. i \<le> k \<and> k < j \<longrightarrow> bit v (k - i) = bit w (k - i))"
proof
  assume all: "\<forall>k. i \<le> k \<and> k < j \<longrightarrow> bit v (k - i) = bit w (k - i)"
  show "v = w"
  proof (rule bit_word_eqI)
    fix n show "bit v n = bit w n" using all [rule_format, of "n + i"] assms [of n] by (cases "n < j - i") auto
  qed
qed auto

lemma pack_agree:
  assumes "fits l" "fits l'" and len: "n \<in> {64, 88, 100, 120}"
  shows "(\<forall>k. 128 - n \<le> k \<longrightarrow> bit (pack p l) k = bit (pack p l') k) \<longleftrightarrow> same_until n l l'"
proof -
  note b = fits_bits [OF assms(1)] fits_bits [OF assms(2)]
  note f = field_eq [of "la_SpaceID l" 80 64 "la_SpaceID l'"] field_eq [of "la_DeploymentID l" 64 40 "la_DeploymentID l'"]
    field_eq [of "la_Ordinal l" 40 28 "la_Ordinal l'"] field_eq [of "la_PlacementSlot l" 28 8 "la_PlacementSlot l'"]
  have sp: "la_SpaceID l = la_SpaceID l' \<longleftrightarrow> (\<forall>k. 64 \<le> k \<and> k < 80 \<longrightarrow> bit (pack p l) k = bit (pack p l') k)"
    using f(1) b by (auto simp: bit_pack [OF assms(1)] bit_pack [OF assms(2)])
  have dp: "la_DeploymentID l = la_DeploymentID l' \<longleftrightarrow> (\<forall>k. 40 \<le> k \<and> k < 64 \<longrightarrow> bit (pack p l) k = bit (pack p l') k)"
    using f(2) b by (auto simp: bit_pack [OF assms(1)] bit_pack [OF assms(2)])
  have od: "la_Ordinal l = la_Ordinal l' \<longleftrightarrow> (\<forall>k. 28 \<le> k \<and> k < 40 \<longrightarrow> bit (pack p l) k = bit (pack p l') k)"
    using f(3) b by (auto simp: bit_pack [OF assms(1)] bit_pack [OF assms(2)])
  have pl: "la_PlacementSlot l = la_PlacementSlot l' \<longleftrightarrow> (\<forall>k. 8 \<le> k \<and> k < 28 \<longrightarrow> bit (pack p l) k = bit (pack p l') k)"
    using f(4) b by (auto simp: bit_pack [OF assms(1)] bit_pack [OF assms(2)])
  have top: "bit (pack p l) k = bit (pack p l') k" if "80 \<le> k" for k using that by (simp add: bit_pack [OF assms(1)] bit_pack [OF assms(2)])
  let ?A = "\<lambda>i j. \<forall>k. i \<le> k \<and> k < j \<longrightarrow> bit (pack p l) k = bit (pack p l') k"
  have split: "(\<forall>k. i \<le> k \<longrightarrow> bit (pack p l) k = bit (pack p l') k) \<longleftrightarrow> ?A i j \<and> (\<forall>k. j \<le> k \<longrightarrow> bit (pack p l) k = bit (pack p l') k)"
    if ij: "i \<le> j" for i j :: nat
  proof
    assume r: "?A i j \<and> (\<forall>k. j \<le> k \<longrightarrow> bit (pack p l) k = bit (pack p l') k)"
    show "\<forall>k. i \<le> k \<longrightarrow> bit (pack p l) k = bit (pack p l') k"
    proof (intro allI impI)
      fix k assume "i \<le> k"
      with r show "bit (pack p l) k = bit (pack p l') k" by (cases "k < j") auto
    qed
  qed (use ij in auto)
  have a64: "(\<forall>k. 64 \<le> k \<longrightarrow> bit (pack p l) k = bit (pack p l') k) \<longleftrightarrow> ?A 64 80" using split [of 64 80] top by auto
  have a40: "(\<forall>k. 40 \<le> k \<longrightarrow> bit (pack p l) k = bit (pack p l') k) \<longleftrightarrow> ?A 40 64 \<and> ?A 64 80" using split [of 40 64] a64 by simp
  have a28: "(\<forall>k. 28 \<le> k \<longrightarrow> bit (pack p l) k = bit (pack p l') k) \<longleftrightarrow> ?A 28 40 \<and> ?A 40 64 \<and> ?A 64 80" using split [of 28 40] a40 by simp
  have a8: "(\<forall>k. 8 \<le> k \<longrightarrow> bit (pack p l) k = bit (pack p l') k) \<longleftrightarrow> ?A 8 28 \<and> ?A 28 40 \<and> ?A 40 64 \<and> ?A 64 80" using split [of 8 28] a28 by simp
  consider "n = 64" | "n = 88" | "n = 100" | "n = 120" using len by auto
  then show ?thesis
    by cases (use a64 a40 a28 a8 in \<open>simp_all add: same_until_def sp dp od pl conj_ac\<close>)
qed

lemma prefix_contains:
  assumes "fits l" "fits l'" "n \<in> {64, 88, 100, 120}"
  shows "NetContains (PrefixFrom (Addr6 (pack p l) []) n) (Addr6 (pack p l') []) \<longleftrightarrow> same_until n l l'"
  using pack_agree [OF assms] contains_pack [of n "pack p l" "pack p l'"] assms(3) by auto

section \<open>Properties\<close>

text \<open>
  C26. Parsing is the exact inverse of address construction: \<open>ParseAddr\<close> accepts precisely the
  addresses \<open>addr\<close> builds under the same cluster prefix from a nonzero deployment and placement and
  run slots that are both zero or both not, and returns the very fields they were built from.
\<close>

theorem ParseAddr_inverts_addr:
  "ParseAddr p a = Inr l \<longleftrightarrow>
    addr p (la_SpaceID l) (la_DeploymentID l) (la_Ordinal l) (la_PlacementSlot l) (la_RunSlot l) = Inr a \<and>
    la_DeploymentID l \<noteq> 0 \<and> (IsInbound l \<or> IsOutbound l)"
  unfolding ParseAddr_iff addr_pack Let_def by (cases l) auto

lemma OutboundAddr_iff:
  "OutboundAddr p s d i inst r = Inr a \<longleftrightarrow> 1 \<le> sint r \<and> d \<noteq> 0 \<and> 1 \<le> sint inst \<and>
    addr p s d i (fold_slot MaxPlacementSlot inst) (fold_slot MaxRunSlot r) = Inr a"
  by (auto simp: OutboundAddr_def placementSlot_def)

text \<open>
  C27. Run addresses collide only when the folded counters wrap: two run-scoped addresses of a cluster
  are equal exactly when space, deployment and ordinal agree, the scheduled instance ids agree modulo
  2^20 - 1 and the run numbers modulo 255. Both slots are nonzero, so none equals a stable address.
\<close>

theorem OutboundAddr_collisions:
  assumes "OutboundAddr p s d i inst r = Inr a" and "OutboundAddr p s' d' i' inst' r' = Inr a'"
  shows "(a = a' \<longleftrightarrow> s = s' \<and> d = d' \<and> i = i' \<and> sint inst mod 1048575 = sint inst' mod 1048575 \<and> sint r mod 255 = sint r' mod 255) \<and>
    InboundAddr p s'' d'' i'' \<noteq> Inr a"
proof
  let ?l = "\<lambda>s d i inst r. \<lparr>la_SpaceID = s, la_DeploymentID = d, la_Ordinal = i,
     la_PlacementSlot = fold_slot MaxPlacementSlot inst, la_RunSlot = fold_slot MaxRunSlot r\<rparr>"
  from assms have f: "fits (?l s d i inst r)" "a = Addr6 (pack p (?l s d i inst r)) []"
    "fits (?l s' d' i' inst' r')" "a' = Addr6 (pack p (?l s' d' i' inst' r')) []"
    and pos: "1 \<le> sint r" "1 \<le> sint inst" "1 \<le> sint r'" "1 \<le> sint inst'"
    by (auto simp: OutboundAddr_iff addr_pack Let_def)
  have "a = a' \<longleftrightarrow> ?l s d i inst r = ?l s' d' i' inst' r'" using f unpack_pack by (metis Addr.inject(2))
  also have "\<dots> \<longleftrightarrow> s = s' \<and> d = d' \<and> i = i' \<and> sint inst mod 1048575 = sint inst' mod 1048575 \<and> sint r mod 255 = sint r' mod 255"
    using fold_slot_eq [of inst inst' MaxPlacementSlot] fold_slot_eq [of r r' MaxRunSlot] pos by auto
  finally show "a = a' \<longleftrightarrow> s = s' \<and> d = d' \<and> i = i' \<and> sint inst mod 1048575 = sint inst' mod 1048575 \<and> sint r mod 255 = sint r' mod 255" .
  show "InboundAddr p s'' d'' i'' \<noteq> Inr a"
  proof
    assume "InboundAddr p s'' d'' i'' = Inr a"
    then have "fits \<lparr>la_SpaceID = s'', la_DeploymentID = d'', la_Ordinal = i'', la_PlacementSlot = 0, la_RunSlot = 0\<rparr>"
      "a = Addr6 (pack p \<lparr>la_SpaceID = s'', la_DeploymentID = d'', la_Ordinal = i'', la_PlacementSlot = 0, la_RunSlot = 0\<rparr>) []"
      by (auto simp: InboundAddr_def addr_pack Let_def split: if_splits)
    then have "?l s d i inst r = \<lparr>la_SpaceID = s'', la_DeploymentID = d'', la_Ordinal = i'', la_PlacementSlot = 0, la_RunSlot = 0\<rparr>"
      using f(1,2) unpack_pack by (metis Addr.inject(2))
    then show False using fold_slot_range(2) [of r MaxRunSlot] pos by simp
  qed
qed

theorem OutboundAddr_collisions_witness:
  "OutboundAddr 0xfd0000000001 3 7 0 5 1 = OutboundAddr 0xfd0000000001 3 7 0 1048580 256 \<and>
   OutboundAddr 0xfd0000000001 3 7 0 5 1 \<noteq> OutboundAddr 0xfd0000000001 3 7 0 5 2"
proof -
  let ?p = "0xfd0000000001 :: Prefix"
  have "\<exists>a. OutboundAddr ?p 3 7 0 5 1 = Inr a" "\<exists>a. OutboundAddr ?p 3 7 0 1048580 256 = Inr a" "\<exists>a. OutboundAddr ?p 3 7 0 5 2 = Inr a"
    by (simp_all add: OutboundAddr_def placementSlot_def addr_def in_range_def fold_slot_def Let_def)
  then obtain a b c where abc: "OutboundAddr ?p 3 7 0 5 1 = Inr a" "OutboundAddr ?p 3 7 0 1048580 256 = Inr b" "OutboundAddr ?p 3 7 0 5 2 = Inr c"
    by blast
  show ?thesis using OutboundAddr_collisions [OF abc(1,2)] OutboundAddr_collisions [OF abc(1,3)] abc by simp
qed

text \<open>
  C28. The prefixes select exactly their level: among the parseable addresses of the cluster, a space
  prefix contains those of the space, a deployment prefix those of the deployment, an instance prefix
  the stable address and every placement of the instance, a placement prefix every run of the
  scheduled instance and nothing else.
\<close>

theorem CIDRs_select_their_level:
  assumes "ParseAddr p a = Inr l"
  shows "(SpaceCIDR p s = Inr pre \<longrightarrow> (NetContains pre a \<longleftrightarrow> la_SpaceID l = s)) \<and>
    (DeploymentCIDR p s d = Inr pre \<longrightarrow> (NetContains pre a \<longleftrightarrow> la_SpaceID l = s \<and> la_DeploymentID l = d)) \<and>
    (InstanceCIDR p s d i = Inr pre \<longrightarrow> (NetContains pre a \<longleftrightarrow> la_SpaceID l = s \<and> la_DeploymentID l = d \<and> la_Ordinal l = i)) \<and>
    (PlacementCIDR p s d i inst = Inr pre \<longrightarrow>
      (NetContains pre a \<longleftrightarrow> la_SpaceID l = s \<and> la_DeploymentID l = d \<and> la_Ordinal l = i \<and> Inr (la_PlacementSlot l) = placementSlot d inst))"
proof -
  let ?m = "\<lambda>d i pl. \<lparr>la_SpaceID = s, la_DeploymentID = d, la_Ordinal = i, la_PlacementSlot = pl, la_RunSlot = 0\<rparr>"
  from assms have l: "fits l" "a = Addr6 (pack p l) []" by (simp_all add: ParseAddr_iff)
  have c: "NetContains (PrefixFrom (Addr6 (pack p m) []) n) a \<longleftrightarrow> same_until n m l" if "fits m" "n \<in> {64, 88, 100, 120}" for m n
    using prefix_contains [OF that(1) l(1) that(2)] l(2) by simp
  have "SpaceCIDR p s = Inr pre \<Longrightarrow> NetContains pre a \<longleftrightarrow> la_SpaceID l = s"
    by (auto simp: SpaceCIDR_def bindE_Inr addr_pack Let_def c same_until_def)
  moreover have "DeploymentCIDR p s d = Inr pre \<Longrightarrow> NetContains pre a \<longleftrightarrow> la_SpaceID l = s \<and> la_DeploymentID l = d"
    by (auto simp: DeploymentCIDR_def bindE_Inr addr_pack Let_def c same_until_def)
  moreover have "InstanceCIDR p s d i = Inr pre \<Longrightarrow> NetContains pre a \<longleftrightarrow> la_SpaceID l = s \<and> la_DeploymentID l = d \<and> la_Ordinal l = i"
    by (auto simp: InstanceCIDR_def bindE_Inr addr_pack Let_def c same_until_def split: if_splits)
  moreover have "NetContains pre a \<longleftrightarrow> la_SpaceID l = s \<and> la_DeploymentID l = d \<and> la_Ordinal l = i \<and> Inr (la_PlacementSlot l) = placementSlot d inst"
    if "PlacementCIDR p s d i inst = Inr pre"
    using that by (auto simp: PlacementCIDR_def bindE_Inr addr_pack Let_def c same_until_def)
  ultimately show ?thesis by blast
qed

definition sample_outbound :: Addr where
  "sample_outbound = Addr6 (pack 0xfd0000000001 \<lparr>la_SpaceID = 3, la_DeploymentID = 7, la_Ordinal = 0, la_PlacementSlot = 5, la_RunSlot = 1\<rparr>) []"

theorem CIDRs_select_their_level_witness:
  "\<exists>pre. InstanceCIDR 0xfd0000000001 3 7 0 = Inr pre \<and> NetContains pre sample_outbound"
proof -
  let ?l = "\<lparr>la_SpaceID = 3, la_DeploymentID = 7, la_Ordinal = 0, la_PlacementSlot = 5, la_RunSlot = 1\<rparr> :: LogicalAddr"
  have "ParseAddr 0xfd0000000001 sample_outbound = Inr ?l"
    unfolding ParseAddr_iff by (simp add: sample_outbound_def fits_def in_range_def IsOutbound_def)
  moreover have "\<exists>pre. InstanceCIDR 0xfd0000000001 3 7 0 = Inr pre"
    by (simp add: InstanceCIDR_def addr_def in_range_def Let_def)
  ultimately show ?thesis using CIDRs_select_their_level [of "0xfd0000000001" sample_outbound ?l 3 _ 7 0] by auto
qed

section \<open>Routable prefixes\<close>

lemma Masked_pack:
  assumes "fits l" "n \<le> 128"
  shows "PrefixFrom (Addr6 (pack p l) []) n = Masked (PrefixFrom (Addr6 (pack p l) []) n) \<longleftrightarrow> (\<forall>k < 128 - n. \<not> bit (pack p l) k)"
proof -
  have "push_bit (128 - n) (drop_bit (128 - n) w) = w \<longleftrightarrow> (\<forall>k < 128 - n. \<not> bit w k)" for w :: "128 word"
  proof
    assume eq: "push_bit (128 - n) (drop_bit (128 - n) w) = w"
    have "\<not> bit w k" if "k < 128 - n" for k
      using arg_cong [OF eq, of "\<lambda>x. bit x k"] that by (simp only: bit_push_bit_iff) simp
    then show "\<forall>k < 128 - n. \<not> bit w k" by blast
  next
    assume low: "\<forall>k < 128 - n. \<not> bit w k"
    show "push_bit (128 - n) (drop_bit (128 - n) w) = w"
    proof (rule bit_word_eqI)
      fix k assume "k < LENGTH(128)"
      then show "bit (push_bit (128 - n) (drop_bit (128 - n) w)) k = bit w k"
        using low by (cases "k < 128 - n") (auto simp: bit_simps)
    qed
  qed
  with assms(2) show ?thesis by (auto simp: Masked_def PrefixFrom_def withoutZone_def BitLen_def mask_addr_def eq_commute)
qed

lemma low_bits_zero:
  assumes "fits l"
  shows "(\<forall>k < 8. \<not> bit (pack p l) k) \<longleftrightarrow> la_RunSlot l = 0"
    "(\<forall>k < 28. \<not> bit (pack p l) k) \<longleftrightarrow> la_RunSlot l = 0 \<and> la_PlacementSlot l = 0"
proof -
  note b = fits_bits [OF assms]
  have z: "(v :: 32 word) = 0 \<longleftrightarrow> (\<forall>k < n. \<not> bit v k)" if "\<And>k. bit v k \<Longrightarrow> k < n" for v n
  proof
    assume "\<forall>k < n. \<not> bit v k"
    then show "v = 0" by (intro bit_word_eqI) (use that in auto)
  qed simp
  have r: "la_RunSlot l = 0 \<longleftrightarrow> (\<forall>k < 8. \<not> bit (la_RunSlot l) k)" and q: "la_PlacementSlot l = 0 \<longleftrightarrow> (\<forall>k < 20. \<not> bit (la_PlacementSlot l) k)"
    by (rule z, erule b)+
  show 8: "(\<forall>k < 8. \<not> bit (pack p l) k) \<longleftrightarrow> la_RunSlot l = 0" unfolding r by (simp add: bit_pack [OF assms])
  have "(\<forall>k < 20. \<not> bit (la_PlacementSlot l) k) \<longleftrightarrow> (\<forall>k. 8 \<le> k \<and> k < 28 \<longrightarrow> \<not> bit (pack p l) k)"
  proof
    assume "\<forall>k. 8 \<le> k \<and> k < 28 \<longrightarrow> \<not> bit (pack p l) k"
    then have "\<not> bit (pack p l) (k + 8)" if "k < 20" for k using that by simp
    then have "\<not> bit (la_PlacementSlot l) k" if "k < 20" for k using that by (fastforce simp: bit_pack [OF assms])
    then show "\<forall>k < 20. \<not> bit (la_PlacementSlot l) k" by blast
  qed (auto simp: bit_pack [OF assms])
  moreover have "(\<forall>k < 28. \<not> bit (pack p l) k) \<longleftrightarrow> (\<forall>k < 8. \<not> bit (pack p l) k) \<and> (\<forall>k. 8 \<le> k \<and> k < 28 \<longrightarrow> \<not> bit (pack p l) k)"
    (is "?L \<longleftrightarrow> ?R")
  proof
    assume r: ?R
    show ?L
    proof (intro allI impI)
      fix k :: nat assume "k < 28"
      with r show "\<not> bit (pack p l) k" by (cases "k < 8") auto
    qed
  qed simp
  ultimately show "(\<forall>k < 28. \<not> bit (pack p l) k) \<longleftrightarrow> la_RunSlot l = 0 \<and> la_PlacementSlot l = 0"
    unfolding 8 [symmetric] q by simp
qed

lemma routed_prefix_shape:
  "ValidateRoutedPrefix p pre = Inr () \<longleftrightarrow>
    (\<exists>l n. fits l \<and> la_DeploymentID l \<noteq> 0 \<and> pre = PrefixFrom (Addr6 (pack p l) []) n \<and>
      (n = 100 \<and> la_RunSlot l = 0 \<and> la_PlacementSlot l = 0 \<or> n = 120 \<and> la_RunSlot l = 0 \<and> la_PlacementSlot l \<noteq> 0))"
    (is "_ \<longleftrightarrow> (\<exists>l n. ?ok l n)")
proof
  assume ok: "ValidateRoutedPrefix p pre = Inr ()"
  then obtain w n where w: "np_Addr pre = Addr6 w []" "drop_bit 80 w = ucast p" "np_Bits pre = Some n" "n = 100 \<or> n = 120"
    and m: "pre = Masked pre" and dep: "la_DeploymentID (unpack w) \<noteq> 0" and pl: "n = 120 \<longrightarrow> la_PlacementSlot (unpack w) \<noteq> 0"
    by (cases "np_Addr pre") (auto simp: ValidateRoutedPrefix_def Let_def Is6_def Zone_def As16_def unpack_def split: if_splits)
  let ?l = "unpack w"
  note f = unpack_fits [of w] and pu = pack_unpack [OF w(2)]
  have pre: "pre = PrefixFrom (Addr6 (pack p ?l) []) n"
    using w pu by (cases pre) (auto simp: PrefixFrom_def withoutZone_def BitLen_def)
  have "\<forall>k < 128 - n. \<not> bit (pack p ?l) k"
    using m Masked_pack [OF f, of n p] w(4) unfolding pre by auto
  then have "?ok ?l n" using low_bits_zero [OF f, of p] w(4) dep pl f pre by auto
  then show "\<exists>l n. ?ok l n" by blast
next
  assume "\<exists>l n. ?ok l n"
  then obtain l n where ok: "?ok l n" by blast
  then have f: "fits l" and n: "n \<le> 128" by auto
  have "\<forall>k < 128 - n. \<not> bit (pack p l) k" using low_bits_zero [OF f, of p] ok by auto
  then have "pre = Masked pre" using Masked_pack [OF f n, of p] ok by simp
  moreover have "np_Addr pre = Addr6 (pack p l) []" "np_Bits pre = Some n" using ok n by (auto simp: PrefixFrom_def withoutZone_def BitLen_def)
  ultimately show "ValidateRoutedPrefix p pre = Inr ()"
    using ok pack_prefix [OF f, of p] pack_fields [OF f, of p]
    by (auto simp: ValidateRoutedPrefix_def Let_def Is6_def Zone_def As16_def)
qed

text \<open>
  C29. Only whole instances and whole placements route: \<open>ValidateRoutedPrefix\<close> accepts exactly the
  prefixes that \<open>InstanceCIDR\<close> and \<open>PlacementCIDR\<close> return for some arguments under the same
  cluster prefix.
\<close>

theorem ValidateRoutedPrefix_exact:
  "ValidateRoutedPrefix p pre = Inr () \<longleftrightarrow>
    (\<exists>s d i. InstanceCIDR p s d i = Inr pre) \<or> (\<exists>s d i inst. PlacementCIDR p s d i inst = Inr pre)"
proof
  assume "ValidateRoutedPrefix p pre = Inr ()"
  then obtain l n where l: "fits l" "la_DeploymentID l \<noteq> 0" "pre = PrefixFrom (Addr6 (pack p l) []) n"
    "n = 100 \<and> la_RunSlot l = 0 \<and> la_PlacementSlot l = 0 \<or> n = 120 \<and> la_RunSlot l = 0 \<and> la_PlacementSlot l \<noteq> 0"
    unfolding routed_prefix_shape by blast
  from l(4) show "(\<exists>s d i. InstanceCIDR p s d i = Inr pre) \<or> (\<exists>s d i inst. PlacementCIDR p s d i inst = Inr pre)"
  proof
    assume n: "n = 100 \<and> la_RunSlot l = 0 \<and> la_PlacementSlot l = 0"
    then have "addr p (la_SpaceID l) (la_DeploymentID l) (la_Ordinal l) 0 0 = Inr (Addr6 (pack p l) [])"
      using l(1) by (cases l) (simp add: addr_pack)
    then have "InstanceCIDR p (la_SpaceID l) (la_DeploymentID l) (la_Ordinal l) = Inr pre" using l n by (simp add: InstanceCIDR_def)
    then show ?thesis by blast
  next
    assume n: "n = 120 \<and> la_RunSlot l = 0 \<and> la_PlacementSlot l \<noteq> 0"
    have r: "in_range MaxPlacementSlot (la_PlacementSlot l)" using l(1) by (simp add: fits_def)
    moreover have "sint (la_PlacementSlot l) \<noteq> 0" using n by (metis signed_eq_0_iff)
    ultimately have "1 \<le> sint (la_PlacementSlot l)" by (auto simp: in_range_def)
    with fold_slot_id [OF this r] have "placementSlot (la_DeploymentID l) (la_PlacementSlot l) = Inr (la_PlacementSlot l)"
      using l(2) by (simp add: placementSlot_def)
    moreover have "addr p (la_SpaceID l) (la_DeploymentID l) (la_Ordinal l) (la_PlacementSlot l) 0 = Inr (Addr6 (pack p l) [])"
      using l(1) n by (cases l) (simp add: addr_pack)
    ultimately have "PlacementCIDR p (la_SpaceID l) (la_DeploymentID l) (la_Ordinal l) (la_PlacementSlot l) = Inr pre"
      using l n by (simp add: PlacementCIDR_def)
    then show ?thesis by blast
  qed
next
  assume "(\<exists>s d i. InstanceCIDR p s d i = Inr pre) \<or> (\<exists>s d i inst. PlacementCIDR p s d i inst = Inr pre)"
  then show "ValidateRoutedPrefix p pre = Inr ()"
  proof
    assume "\<exists>s d i. InstanceCIDR p s d i = Inr pre"
    then show ?thesis unfolding routed_prefix_shape
      by (fastforce simp: InstanceCIDR_def bindE_Inr addr_pack Let_def split: if_splits)
  next
    assume "\<exists>s d i inst. PlacementCIDR p s d i inst = Inr pre"
    then obtain s d i inst a where "d \<noteq> 0" "1 \<le> sint inst" "addr p s d i (fold_slot MaxPlacementSlot inst) 0 = Inr a" "pre = PrefixFrom a 120"
      by (force simp: PlacementCIDR_def placementSlot_def bindE_Inr not_less split: if_splits)
    then show ?thesis unfolding routed_prefix_shape
      using fold_slot_range(2) [of inst MaxPlacementSlot] by (fastforce simp: addr_pack Let_def)
  qed
qed

end
