(* ===== verification/Net_Filter.thy ===== *)
theory Net_Filter
  imports Net_Addr "HOL-Library.Product_Lexorder" "HOL-Library.List_Lexorder" "HOL-Library.Char_ord" "HOL-Library.AList"
begin

text \<open>
  The packet filter of the virtual network: \<open>backend/lib/network/filter.go\<close> renders the attached
  containers and the policy rules of the cluster map into sets, a dispatch map and chains;
  \<open>topology_map.go\<close> converts the policy rules from the wire. A Go map is the association list in
  the order it is ranged over, which the code sorts.
\<close>

section \<open>Text of a prefix\<close>

text \<open>The text form of \<open>net/netip\<close>, the key by which override rules are ordered.\<close>

definition digit :: "int \<Rightarrow> char" where
  "digit i = ''0123456789abcdef'' ! nat i"

definition strip_zeros :: "int list \<Rightarrow> string" where
  "strip_zeros ds = map digit (let r = dropWhile (\<lambda>d. d = 0) ds in if r = [] then [0] else r)"

definition hex_text :: "int \<Rightarrow> string" where
  "hex_text w = strip_zeros [w div 4096, w div 256 mod 16, w div 16 mod 16, w mod 16]"

definition dec_text :: "int \<Rightarrow> string" where
  "dec_text w = strip_zeros [w div 10000, w div 1000 mod 10, w div 100 mod 10, w div 10 mod 10, w mod 10]"

fun joined :: "string \<Rightarrow> string list \<Rightarrow> string" where
  "joined sep [] = []"
| "joined sep [x] = x"
| "joined sep (x # xs) = x @ sep @ joined sep xs"

definition v6_fields :: "128 word \<Rightarrow> int list" where
  "v6_fields w = map (\<lambda>i. uint (ucast (drop_bit (112 - 16 * i) w) :: 16 word)) [0 ..< 8]"

definition zero_run :: "int list \<Rightarrow> nat \<times> nat" where
  "zero_run fs = fold (\<lambda>i (s, n). let l = length (takeWhile (\<lambda>f. f = 0) (drop i fs)) in if l \<ge> 2 \<and> l > n then (i, l) else (s, n)) [0 ..< 8] (0, 0)"

definition v4_text :: "32 word \<Rightarrow> string" where
  "v4_text w = joined ''.'' (map (\<lambda>i. dec_text (uint (ucast (drop_bit (24 - 8 * i) w) :: 8 word))) [0 ..< 4])"

definition v6_text :: "128 word \<Rightarrow> string" where
  "v6_text w =
    (if drop_bit 32 w = 0xffff then ''::ffff:'' @ v4_text (ucast w)
     else let fs = v6_fields w; (s, n) = zero_run fs in
       if n = 0 then joined '':'' (map hex_text fs)
       else joined '':'' (map hex_text (take s fs)) @ ''::'' @ joined '':'' (map hex_text (drop (s + n) fs)))"

definition addr_text :: "Addr \<Rightarrow> string" where
  "addr_text a = (case a of NoAddr \<Rightarrow> ''invalid IP'' | Addr4 w \<Rightarrow> v4_text w
     | Addr6 w z \<Rightarrow> v6_text w @ (if z = [] then [] else ''%'' @ z))"

definition prefix_text :: "NetPrefix \<Rightarrow> string" where
  "prefix_text p = (case np_Bits p of None \<Rightarrow> ''invalid Prefix'' | Some n \<Rightarrow> addr_text (np_Addr p) @ ''/'' @ dec_text (int n))"

section \<open>Filter rules\<close>

definition SystemSpaceID :: "32 word" where "SystemSpaceID = 0"
definition GlobalSpaceID :: "32 word" where "GlobalSpaceID = 1"
definition DNSPort :: "16 word" where "DNSPort = 53"
definition BuildDeploymentID :: "32 word" where "BuildDeploymentID = MaxDeploymentID"

definition IPPROTO_TCP :: "8 word" where "IPPROTO_TCP = 6"
definition IPPROTO_UDP :: "8 word" where "IPPROTO_UDP = 17"
definition IPPROTO_ICMPV6 :: "8 word" where "IPPROTO_ICMPV6 = 58"

definition NftSetManaged :: string where "NftSetManaged = ''managed''"
definition NftSetSrcOK :: string where "NftSetSrcOK = ''src_ok''"
definition NftSetBlockedOut :: string where "NftSetBlockedOut = ''blocked_out''"
definition NftSetBuild :: string where "NftSetBuild = ''build''"
definition NftMapDstDispatch :: string where "NftMapDstDispatch = ''dst_dispatch''"
definition NftChainBuildEgress :: string where "NftChainBuildEgress = ''build_egress''"

definition no_prefix :: NetPrefix where "no_prefix = \<lparr>np_Addr = NoAddr, np_Bits = None\<rparr>"

definition V4CIDR :: NetPrefix where
  "V4CIDR = PrefixFrom (Addr4 0x0ac90000) 16"

definition buildDenied6 :: "NetPrefix list" where
  "buildDenied6 = [PrefixFrom (Addr6 (push_bit 112 0xfe80) []) 10]"

definition buildDenied4 :: "NetPrefix list" where
  "buildDenied4 = [PrefixFrom (Addr4 0xa9fe0000) 16, PrefixFrom (Addr4 0x7f000000) 8]"

record PolicyPeer =
  peer_SpaceID :: "32 word"
  peer_DeploymentID :: "32 word"

record PortMatch =
  pm_Protocol :: "8 word"
  pm_Port :: "16 word"
  pm_PortEnd :: "16 word"

record PolicyRule =
  pr_Source :: PolicyPeer
  pr_Destination :: PolicyPeer
  pr_Ports :: "PortMatch list"

datatype FilterVerdict = VerdictNone | VerdictAccept | VerdictDrop | VerdictReturn | VerdictJump

record FilterRule =
  CtEstablished :: bool
  IifName :: string
  OifName :: string
  IifSet :: string
  OifSet :: string
  SrcPairSet :: string
  SrcPairInvert :: bool
  DaddrVmap :: string
  Saddr :: NetPrefix
  Daddr :: NetPrefix
  Protocol :: "8 word"
  Port :: "16 word"
  PortEnd :: "16 word"
  Counter :: bool
  Verdict :: FilterVerdict
  JumpTarget :: string

text \<open>The zero value of the struct: a field that is not set matches everything.\<close>

definition any_rule :: FilterRule where
  "any_rule = \<lparr>CtEstablished = False, IifName = [], OifName = [], IifSet = [], OifSet = [], SrcPairSet = [], SrcPairInvert = False, DaddrVmap = [],
     Saddr = no_prefix, Daddr = no_prefix, Protocol = 0, Port = 0, PortEnd = 0, Counter = False, Verdict = VerdictNone, JumpTarget = []\<rparr>"

record FilterChain =
  chain_Name :: string
  chain_Rules :: "FilterRule list"

record VethAddr =
  va_Veth :: string
  va_Addr :: Addr

record DispatchElem =
  de_Addr :: Addr
  de_Chain :: string

record FilterState =
  Managed6 :: "string list"
  SrcOK6 :: "VethAddr list"
  BlockedOut :: "string list"
  Build6 :: "string list"
  Dispatch :: "DispatchElem list"
  DstChains :: "FilterChain list"
  BuildEgress6 :: FilterChain
  Managed4 :: "string list"
  SrcOK4 :: "VethAddr list"
  Build4 :: "string list"
  BuildEgress4 :: FilterChain

record ContainerNet =
  cn_ContainerID :: string
  cn_DeploymentID :: "32 word"
  cn_HostVeth :: string
  cn_InboundAddr :: Addr
  cn_OutboundAddr :: Addr
  cn_V4 :: Addr
  cn_HostV4 :: Addr

definition StaticFilterRules6 :: "FilterRule list" where
  "StaticFilterRules6 =
    [any_rule\<lparr>CtEstablished := True, Verdict := VerdictAccept\<rparr>,
     any_rule\<lparr>OifSet := NftSetBlockedOut, Counter := True, Verdict := VerdictDrop\<rparr>,
     any_rule\<lparr>IifSet := NftSetManaged, SrcPairSet := NftSetSrcOK, SrcPairInvert := True, Counter := True, Verdict := VerdictDrop\<rparr>,
     any_rule\<lparr>IifSet := NftSetBuild, Verdict := VerdictJump, JumpTarget := NftChainBuildEgress\<rparr>,
     any_rule\<lparr>DaddrVmap := NftMapDstDispatch\<rparr>]"

definition StaticFilterRules4 :: "FilterRule list" where
  "StaticFilterRules4 =
    [any_rule\<lparr>CtEstablished := True, Verdict := VerdictAccept\<rparr>,
     any_rule\<lparr>IifSet := NftSetManaged, Daddr := V4CIDR, Counter := True, Verdict := VerdictDrop\<rparr>,
     any_rule\<lparr>IifSet := NftSetManaged, SrcPairSet := NftSetSrcOK, SrcPairInvert := True, Counter := True, Verdict := VerdictDrop\<rparr>,
     any_rule\<lparr>IifSet := NftSetBuild, Verdict := VerdictJump, JumpTarget := NftChainBuildEgress\<rparr>]"

definition StaticInputRules6 :: "FilterRule list" where
  "StaticInputRules6 =
    [any_rule\<lparr>IifSet := NftSetBuild, Protocol := IPPROTO_ICMPV6, Verdict := VerdictAccept\<rparr>,
     any_rule\<lparr>IifSet := NftSetBuild, Counter := True, Verdict := VerdictDrop\<rparr>]"

definition StaticInputRules4 :: "FilterRule list" where
  "StaticInputRules4 = [any_rule\<lparr>IifSet := NftSetBuild, Counter := True, Verdict := VerdictDrop\<rparr>]"

text \<open>\<open>Addr.Compare\<close>: by length, then value, then zone. The sort is by a key, so equal elements keep their order.\<close>

definition addr_key :: "Addr \<Rightarrow> int \<times> int \<times> string" where
  "addr_key a = (int (BitLen a), (case a of NoAddr \<Rightarrow> 0 | Addr4 w \<Rightarrow> uint w | Addr6 w _ \<Rightarrow> uint w), Zone a)"

definition buildEgressRules :: "Prefix \<Rightarrow> bool \<Rightarrow> 32 word \<Rightarrow> Addr list \<Rightarrow> bool \<Rightarrow> FilterRule list" where
  "buildEgressRules p hasPrefix netproxyDeploymentID peerUnderlays is6 =
    (if is6 then
       (if hasPrefix \<and> netproxyDeploymentID \<noteq> 0 then
          (case InboundAddr p SystemSpaceID netproxyDeploymentID 0 of Inl _ \<Rightarrow> []
           | Inr dns \<Rightarrow>
              [any_rule\<lparr>Daddr := PrefixFrom dns 128, Protocol := IPPROTO_UDP, Port := DNSPort, Verdict := VerdictAccept\<rparr>,
               any_rule\<lparr>Daddr := PrefixFrom dns 128, Protocol := IPPROTO_TCP, Port := DNSPort, Verdict := VerdictAccept\<rparr>])
        else []) @
       (if hasPrefix then [any_rule\<lparr>Daddr := CIDR p, Counter := True, Verdict := VerdictDrop\<rparr>] else []) @
       map (\<lambda>denied. any_rule\<lparr>Daddr := denied, Counter := True, Verdict := VerdictDrop\<rparr>) buildDenied6
     else map (\<lambda>denied. any_rule\<lparr>Daddr := denied, Counter := True, Verdict := VerdictDrop\<rparr>) buildDenied4) @
    map (\<lambda>peer. any_rule\<lparr>Daddr := PrefixFrom peer (BitLen peer), Counter := True, Verdict := VerdictDrop\<rparr>)
      (filter (\<lambda>peer. peer \<noteq> NoAddr \<and> Is6 peer = is6) (remdups_adj (sort_key addr_key peerUnderlays)))"

definition isBuildAttachment :: "ContainerNet \<Rightarrow> bool" where
  "isBuildAttachment cn \<longleftrightarrow> cn_DeploymentID cn = BuildDeploymentID"

definition sint_text :: "32 word \<Rightarrow> string" where
  "sint_text v = (let i = sint v; n = \<bar>i\<bar> in (if i < 0 then ''-'' else []) @
     strip_zeros (map (\<lambda>k. n div 10 ^ k mod 10) [9, 8, 7, 6, 5, 4, 3, 2, 1, 0]))"

definition dstChainName :: "32 word \<Rightarrow> string" where
  "dstChainName deploymentID = ''wl_dst_'' @ sint_text deploymentID"

section \<open>Override rules\<close>

definition override_source :: "Prefix \<Rightarrow> PolicyRule \<Rightarrow> addr_error + NetPrefix" where
  "override_source p rule =
    (if peer_DeploymentID (pr_Source rule) = 0 then SpaceCIDR p (peer_SpaceID (pr_Source rule))
     else DeploymentCIDR p (peer_SpaceID (pr_Source rule)) (peer_DeploymentID (pr_Source rule)))"

definition override_rules :: "Prefix \<Rightarrow> 32 word \<Rightarrow> 32 word \<Rightarrow> PolicyRule \<Rightarrow> FilterRule list" where
  "override_rules p deploymentID spaceID rule =
    (if peer_SpaceID (pr_Destination rule) \<noteq> spaceID then []
     else if peer_DeploymentID (pr_Destination rule) \<noteq> 0 \<and> peer_DeploymentID (pr_Destination rule) \<noteq> deploymentID then []
     else (case override_source p rule of Inl _ \<Rightarrow> []
       | Inr source \<Rightarrow>
          if pr_Ports rule = [] then [any_rule\<lparr>Saddr := source, Verdict := VerdictAccept\<rparr>]
          else map (\<lambda>port. any_rule\<lparr>Saddr := source, Protocol := pm_Protocol port, Port := pm_Port port,
                      PortEnd := pm_PortEnd port, Verdict := VerdictAccept\<rparr>) (pr_Ports rule)))"

definition overrideFilterRules :: "Prefix \<Rightarrow> 32 word \<Rightarrow> 32 word \<Rightarrow> PolicyRule list \<Rightarrow> FilterRule list" where
  "overrideFilterRules p deploymentID spaceID rules =
    remdups_adj (sort_key (\<lambda>r. (prefix_text (Saddr r), uint (Protocol r), uint (Port r), uint (PortEnd r)))
      (concat (map (override_rules p deploymentID spaceID) rules)))"

section \<open>The filter state\<close>

definition attached :: "ContainerNet option list \<Rightarrow> ContainerNet list" where
  "attached nets = sort_key cn_HostVeth (filter (\<lambda>cn. cn_HostVeth cn \<noteq> []) (concat (map (\<lambda>n. case n of None \<Rightarrow> [] | Some cn \<Rightarrow> [cn]) nets)))"

text \<open>One attachment of the IPv6 loop: the sets, the dispatch map and the space of each deployment.\<close>

type_synonym filter_maps = "FilterState \<times> (Addr \<times> string) list \<times> (32 word \<times> 32 word) list"

definition add_attachment :: "Prefix \<Rightarrow> ContainerNet \<Rightarrow> filter_maps \<Rightarrow> filter_maps" where
  "add_attachment p cn = (\<lambda>(state, dispatch, spaceByDeployment).
    let state1 = state\<lparr>Managed6 := Managed6 state @ [cn_HostVeth cn]\<rparr> in
    (case ParseAddr p (cn_InboundAddr cn) of
       Inl _ \<Rightarrow> (state1\<lparr>BlockedOut := BlockedOut state1 @ [cn_HostVeth cn]\<rparr>, dispatch, spaceByDeployment)
     | Inr decoded \<Rightarrow>
        let state2 = state1\<lparr>SrcOK6 := SrcOK6 state1 @ [\<lparr>va_Veth = cn_HostVeth cn, va_Addr = cn_InboundAddr cn\<rparr>,
               \<lparr>va_Veth = cn_HostVeth cn, va_Addr = cn_OutboundAddr cn\<rparr>]\<rparr>
        in if isBuildAttachment cn then
             (state2\<lparr>BlockedOut := BlockedOut state2 @ [cn_HostVeth cn], Build6 := Build6 state2 @ [cn_HostVeth cn]\<rparr>, dispatch, spaceByDeployment)
           else let chain = dstChainName (cn_DeploymentID cn) in
             (state2, AList.update (cn_OutboundAddr cn) chain (AList.update (cn_InboundAddr cn) chain dispatch),
              AList.update (cn_DeploymentID cn) (la_SpaceID decoded) spaceByDeployment)))"

definition dst_chain :: "Prefix \<Rightarrow> 32 word \<Rightarrow> PolicyRule list \<Rightarrow> 32 word \<times> 32 word \<Rightarrow> FilterChain" where
  "dst_chain p netproxyDeploymentID rules = (\<lambda>(deploymentID, spaceID).
    \<lparr>chain_Name = dstChainName deploymentID, chain_Rules =
      (if deploymentID = netproxyDeploymentID then
         [any_rule\<lparr>Protocol := IPPROTO_UDP, Port := DNSPort, Verdict := VerdictAccept\<rparr>,
          any_rule\<lparr>Protocol := IPPROTO_TCP, Port := DNSPort, Verdict := VerdictAccept\<rparr>] else []) @
      (if spaceID = GlobalSpaceID then [any_rule\<lparr>Saddr := CIDR p, Verdict := VerdictAccept\<rparr>]
       else (case SpaceCIDR p spaceID of Inl _ \<Rightarrow> [] | Inr sameSpace \<Rightarrow> [any_rule\<lparr>Saddr := sameSpace, Verdict := VerdictAccept\<rparr>]) @
         (if spaceID \<noteq> SystemSpaceID then
            (case SpaceCIDR p SystemSpaceID of Inl _ \<Rightarrow> [] | Inr system \<Rightarrow> [any_rule\<lparr>Saddr := system, Verdict := VerdictAccept\<rparr>]) else []) @
         overrideFilterRules p deploymentID spaceID rules @
         [any_rule\<lparr>Saddr := CIDR p, Counter := True, Verdict := VerdictDrop\<rparr>])\<rparr>)"

definition RenderFilterState ::
  "Prefix \<Rightarrow> bool \<Rightarrow> 32 word \<Rightarrow> ContainerNet option list \<Rightarrow> PolicyRule list \<Rightarrow> Addr list \<Rightarrow> FilterState" where
  "RenderFilterState p hasPrefix netproxyDeploymentID nets rules peerUnderlays =
    (let attachments = attached nets;
         state = \<lparr>Managed6 = [], SrcOK6 = [], BlockedOut = [], Build6 = [], Dispatch = [], DstChains = [],
           BuildEgress6 = \<lparr>chain_Name = NftChainBuildEgress, chain_Rules = buildEgressRules p hasPrefix netproxyDeploymentID peerUnderlays True\<rparr>,
           Managed4 = map cn_HostVeth attachments,
           SrcOK4 = map (\<lambda>cn. \<lparr>va_Veth = cn_HostVeth cn, va_Addr = cn_V4 cn\<rparr>) (filter (\<lambda>cn. Is4 (cn_V4 cn)) attachments),
           Build4 = map cn_HostVeth (filter isBuildAttachment attachments),
           BuildEgress4 = \<lparr>chain_Name = NftChainBuildEgress, chain_Rules = buildEgressRules p hasPrefix netproxyDeploymentID peerUnderlays False\<rparr>\<rparr>
     in if \<not> hasPrefix then state
        else let (state', dispatch, spaceByDeployment) = fold (add_attachment p) attachments (state, [], [])
          in state'\<lparr>Dispatch := map (\<lambda>(a, c). \<lparr>de_Addr = a, de_Chain = c\<rparr>) (sort_key (\<lambda>(a, _). addr_key a) dispatch),
               DstChains := map (dst_chain p netproxyDeploymentID rules) (sort_key (\<lambda>(d, _). sint d) spaceByDeployment)\<rparr>)"

section \<open>Policy rules on the wire\<close>

record NetPolicyPeer =
  npp_SpaceID :: nat
  npp_DeploymentID :: nat

record NetPortMatch =
  npm_Protocol :: int
  npm_Start :: nat
  npm_End :: nat

record NetPolicyRule =
  npr_Source :: NetPolicyPeer
  npr_Destination :: NetPolicyPeer
  npr_Ports :: "NetPortMatch list"

definition NET_PROTOCOL_TCP :: int where "NET_PROTOCOL_TCP = 1"
definition NET_PROTOCOL_UDP :: int where "NET_PROTOCOL_UDP = 2"

datatype wire_error = PeerOutOfRange addr_field nat | BadProtocol int | BadPort nat | BadPortRange nat nat

definition policyPeerFromWire :: "NetPolicyPeer \<Rightarrow> wire_error + PolicyPeer" where
  "policyPeerFromWire peer =
    (if npp_SpaceID peer > unat MaxSpaceID then Inl (PeerOutOfRange SpaceField (npp_SpaceID peer))
     else if npp_DeploymentID peer > unat MaxDeploymentID then Inl (PeerOutOfRange DeploymentField (npp_DeploymentID peer))
     else Inr \<lparr>peer_SpaceID = of_nat (npp_SpaceID peer), peer_DeploymentID = of_nat (npp_DeploymentID peer)\<rparr>)"

definition portMatchFromWire :: "NetPortMatch \<Rightarrow> wire_error + PortMatch" where
  "portMatchFromWire port =
    bindE (if npm_Protocol port = NET_PROTOCOL_TCP then Inr IPPROTO_TCP
           else if npm_Protocol port = NET_PROTOCOL_UDP then Inr IPPROTO_UDP
           else Inl (BadProtocol (npm_Protocol port))) (\<lambda>protocol.
      let start = npm_Start port; end' = npm_End port in
      if start < 1 \<or> start > 65535 then Inl (BadPort start)
      else if end' \<noteq> 0 \<and> (end' < start \<or> end' > 65535) then Inl (BadPortRange start end')
      else Inr \<lparr>pm_Protocol = protocol, pm_Port = of_nat start, pm_PortEnd = (if end' > start then of_nat end' else 0)\<rparr>)"

fun mapE :: "('a \<Rightarrow> 'e + 'b) \<Rightarrow> 'a list \<Rightarrow> 'e + 'b list" where
  "mapE f [] = Inr []"
| "mapE f (x # xs) = bindE (f x) (\<lambda>y. bindE (mapE f xs) (\<lambda>ys. Inr (y # ys)))"

definition policyRuleFromWire :: "NetPolicyRule \<Rightarrow> wire_error + PolicyRule" where
  "policyRuleFromWire rule =
    bindE (policyPeerFromWire (npr_Source rule)) (\<lambda>source.
    bindE (policyPeerFromWire (npr_Destination rule)) (\<lambda>destination.
    bindE (mapE portMatchFromWire (npr_Ports rule)) (\<lambda>ports.
      Inr \<lparr>pr_Source = source, pr_Destination = destination, pr_Ports = ports\<rparr>)))"

definition PolicyRulesFromNetMap :: "NetPolicyRule list \<Rightarrow> PolicyRule list" where
  "PolicyRulesFromNetMap rules = concat (map (\<lambda>r. case policyRuleFromWire r of Inl _ \<Rightarrow> [] | Inr c \<Rightarrow> [c]) rules)"

end
