(* ===== verification/Net_Filter_Policy.thy ===== *)
theory Net_Filter_Policy
  imports Net_Filter
begin

text \<open>
  What the rendered filter does to a packet. A rule tests what \<open>filterExprs\<close> of \<open>nft_linux.go\<close>
  emits for it; a chain is run top down to the first verdict, a jump continues after the rule when
  the chain it enters gives none, and the forward chain's policy is accept. Against that reading the
  rendered state implements the reference policy: who may open a connection to a workload.
\<close>

section \<open>Reading a filter\<close>

record Packet =
  pkt_Established :: bool
  pkt_Iif :: string
  pkt_Oif :: string
  pkt_Src :: Addr
  pkt_Dst :: Addr
  pkt_Proto :: "8 word"
  pkt_Port :: "16 word"

record filter_sets =
  fs_Veths :: "string \<Rightarrow> string list"
  fs_Pairs :: "string \<Rightarrow> VethAddr list"

definition port_matches :: "FilterRule \<Rightarrow> Packet \<Rightarrow> bool" where
  "port_matches r k \<longleftrightarrow> (Protocol r \<noteq> 0 \<longrightarrow> pkt_Proto k = Protocol r \<and>
    (Port r \<noteq> 0 \<longrightarrow> (if PortEnd r \<noteq> 0 then Port r \<le> pkt_Port k \<and> pkt_Port k \<le> PortEnd r else pkt_Port k = Port r)))"

definition rule_matches :: "filter_sets \<Rightarrow> FilterRule \<Rightarrow> Packet \<Rightarrow> bool" where
  "rule_matches fs r k \<longleftrightarrow>
    (CtEstablished r \<longrightarrow> pkt_Established k) \<and>
    (IifName r \<noteq> [] \<longrightarrow> pkt_Iif k = IifName r) \<and>
    (IifSet r \<noteq> [] \<longrightarrow> pkt_Iif k \<in> set (fs_Veths fs (IifSet r))) \<and>
    (OifName r \<noteq> [] \<longrightarrow> pkt_Oif k = OifName r) \<and>
    (OifSet r \<noteq> [] \<longrightarrow> pkt_Oif k \<in> set (fs_Veths fs (OifSet r))) \<and>
    (SrcPairSet r \<noteq> [] \<longrightarrow> (\<lparr>va_Veth = pkt_Iif k, va_Addr = pkt_Src k\<rparr> \<in> set (fs_Pairs fs (SrcPairSet r))) \<noteq> SrcPairInvert r) \<and>
    (np_Bits (Saddr r) \<noteq> None \<longrightarrow> NetContains (Saddr r) (pkt_Src k)) \<and>
    (np_Bits (Daddr r) \<noteq> None \<longrightarrow> NetContains (Daddr r) (pkt_Dst k)) \<and>
    port_matches r k"

text \<open>The verdict of a rule that matched: accept or drop, or none and the next rule is tried.
  \<open>enter\<close> runs the chain of a jump.\<close>

fun run_chain :: "(string \<Rightarrow> bool option) \<Rightarrow> (Addr \<Rightarrow> string option) \<Rightarrow> filter_sets \<Rightarrow> Packet \<Rightarrow> FilterRule list \<Rightarrow> bool option" where
  "run_chain enter vmap fs k [] = None"
| "run_chain enter vmap fs k (r # rs) =
    (if \<not> rule_matches fs r k then run_chain enter vmap fs k rs
     else if DaddrVmap r \<noteq> [] then
       (case vmap (pkt_Dst k) of None \<Rightarrow> run_chain enter vmap fs k rs
        | Some c \<Rightarrow> (case enter c of Some v \<Rightarrow> Some v | None \<Rightarrow> run_chain enter vmap fs k rs))
     else (case Verdict r of
         VerdictAccept \<Rightarrow> Some True
       | VerdictDrop \<Rightarrow> Some False
       | VerdictReturn \<Rightarrow> None
       | VerdictJump \<Rightarrow> (case enter (JumpTarget r) of Some v \<Rightarrow> Some v | None \<Rightarrow> run_chain enter vmap fs k rs)
       | VerdictNone \<Rightarrow> run_chain enter vmap fs k rs))"

definition sets6 :: "FilterState \<Rightarrow> filter_sets" where
  "sets6 st = \<lparr>fs_Veths = (\<lambda>n. if n = NftSetManaged then Managed6 st else if n = NftSetBlockedOut then BlockedOut st
       else if n = NftSetBuild then Build6 st else []),
     fs_Pairs = (\<lambda>n. if n = NftSetSrcOK then SrcOK6 st else [])\<rparr>"

definition enter6 :: "FilterState \<Rightarrow> Packet \<Rightarrow> string \<Rightarrow> bool option" where
  "enter6 st k name =
    (if name = NftChainBuildEgress then run_chain (\<lambda>_. None) (\<lambda>_. None) (sets6 st) k (chain_Rules (BuildEgress6 st))
     else (case find (\<lambda>c. chain_Name c = name) (DstChains st) of None \<Rightarrow> None
       | Some c \<Rightarrow> run_chain (\<lambda>_. None) (\<lambda>_. None) (sets6 st) k (chain_Rules c)))"

definition dispatch6 :: "FilterState \<Rightarrow> Addr \<Rightarrow> string option" where
  "dispatch6 st a = map_option de_Chain (find (\<lambda>e. de_Addr e = a) (Dispatch st))"

definition forwards6 :: "FilterState \<Rightarrow> Packet \<Rightarrow> bool" where
  "forwards6 st k = (case run_chain (enter6 st k) (dispatch6 st) (sets6 st) k StaticFilterRules6 of None \<Rightarrow> True | Some v \<Rightarrow> v)"

text \<open>The IPv4 table has no destination dispatch: its only further chain is the one for builds.\<close>

definition sets4 :: "FilterState \<Rightarrow> filter_sets" where
  "sets4 st = \<lparr>fs_Veths = (\<lambda>n. if n = NftSetManaged then Managed4 st else if n = NftSetBuild then Build4 st else []),
     fs_Pairs = (\<lambda>n. if n = NftSetSrcOK then SrcOK4 st else [])\<rparr>"

definition enter4 :: "FilterState \<Rightarrow> Packet \<Rightarrow> string \<Rightarrow> bool option" where
  "enter4 st k name =
    (if name = NftChainBuildEgress then run_chain (\<lambda>_. None) (\<lambda>_. None) (sets4 st) k (chain_Rules (BuildEgress4 st)) else None)"

definition forwards4 :: "FilterState \<Rightarrow> Packet \<Rightarrow> bool" where
  "forwards4 st k = (case run_chain (enter4 st k) (\<lambda>_. None) (sets4 st) k StaticFilterRules4 of None \<Rightarrow> True | Some v \<Rightarrow> v)"

section \<open>The reference policy\<close>

definition peer_matches :: "PolicyPeer \<Rightarrow> LogicalAddr \<Rightarrow> bool" where
  "peer_matches s l \<longleftrightarrow> la_SpaceID l = peer_SpaceID s \<and> (peer_DeploymentID s \<noteq> 0 \<longrightarrow> la_DeploymentID l = peer_DeploymentID s)"

definition port_allowed :: "PortMatch list \<Rightarrow> Packet \<Rightarrow> bool" where
  "port_allowed ports k \<longleftrightarrow> ports = [] \<or> (\<exists>m \<in> set ports. pm_Protocol m \<noteq> 0 \<longrightarrow> pkt_Proto k = pm_Protocol m \<and>
    (pm_Port m \<noteq> 0 \<longrightarrow> (if pm_PortEnd m \<noteq> 0 then pm_Port m \<le> pkt_Port k \<and> pkt_Port k \<le> pm_PortEnd m else pkt_Port k = pm_Port m)))"

definition may_reach :: "32 word \<Rightarrow> PolicyRule list \<Rightarrow> 32 word \<Rightarrow> 32 word \<Rightarrow> LogicalAddr \<Rightarrow> Packet \<Rightarrow> bool" where
  "may_reach netproxy rules dep sp l k \<longleftrightarrow>
    dep = netproxy \<and> pkt_Proto k \<in> {IPPROTO_UDP, IPPROTO_TCP} \<and> pkt_Port k = DNSPort \<or>
    sp = GlobalSpaceID \<or> la_SpaceID l = sp \<or> la_SpaceID l = SystemSpaceID \<or>
    (\<exists>rule \<in> set rules. peer_SpaceID (pr_Destination rule) = sp \<and> peer_DeploymentID (pr_Destination rule) \<in> {0, dep} \<and>
       peer_matches (pr_Source rule) l \<and> port_allowed (pr_Ports rule) k)"

section \<open>Chains of accepting rules\<close>

lemma run_chain_append:
  "run_chain enter vmap fs k (rs @ rs') =
    (if \<exists>r \<in> set rs. Verdict r = VerdictReturn then run_chain enter vmap fs k (rs @ rs')
     else case run_chain enter vmap fs k rs of None \<Rightarrow> run_chain enter vmap fs k rs' | Some v \<Rightarrow> Some v)"
  by (induction rs) (auto split: option.splits FilterVerdict.splits)

definition accepts_only :: "FilterRule list \<Rightarrow> bool" where
  "accepts_only rs \<longleftrightarrow> list_all (\<lambda>r. Verdict r = VerdictAccept \<and> DaddrVmap r = []) rs"

lemma run_accepts:
  "accepts_only rs \<Longrightarrow> run_chain enter vmap fs k rs = (if \<exists>r \<in> set rs. rule_matches fs r k then Some True else None)"
  by (induction rs) (auto simp: accepts_only_def)

lemma run_accepts_then:
  "accepts_only rs \<Longrightarrow> run_chain enter vmap fs k (rs @ rs') =
    (if \<exists>r \<in> set rs. rule_matches fs r k then Some True else run_chain enter vmap fs k rs')"
  by (induction rs) (auto simp: accepts_only_def)

lemma any_rule_vmap [simp]: "DaddrVmap any_rule = []"
  by (simp add: any_rule_def)

lemma any_rule_matches [simp]:
  "rule_matches fs (any_rule\<lparr>Saddr := s, Verdict := v\<rparr>) k \<longleftrightarrow> (np_Bits s \<noteq> None \<longrightarrow> NetContains s (pkt_Src k))"
  by (simp add: rule_matches_def any_rule_def no_prefix_def port_matches_def)

lemma any_rule_port_matches:
  "rule_matches fs (any_rule\<lparr>Saddr := s, Protocol := q, Port := n, PortEnd := e, Verdict := v\<rparr>) k \<longleftrightarrow>
    (np_Bits s \<noteq> None \<longrightarrow> NetContains s (pkt_Src k)) \<and>
    (q \<noteq> 0 \<longrightarrow> pkt_Proto k = q \<and> (n \<noteq> 0 \<longrightarrow> (if e \<noteq> 0 then n \<le> pkt_Port k \<and> pkt_Port k \<le> e else pkt_Port k = n)))"
  by (simp add: rule_matches_def any_rule_def no_prefix_def port_matches_def)

lemma dns_rule_matches:
  "rule_matches fs (any_rule\<lparr>Protocol := q, Port := DNSPort, Verdict := v\<rparr>) k \<longleftrightarrow> (q \<noteq> 0 \<longrightarrow> pkt_Proto k = q \<and> pkt_Port k = DNSPort)"
  by (simp add: rule_matches_def any_rule_def no_prefix_def port_matches_def DNSPort_def)

section \<open>Sources\<close>

lemma SpaceCIDR_source:
  assumes "ParseAddr p a = Inr l"
  shows "case SpaceCIDR p s of Inl _ \<Rightarrow> la_SpaceID l \<noteq> s | Inr pre \<Rightarrow> np_Bits pre \<noteq> None \<and> (NetContains pre a \<longleftrightarrow> la_SpaceID l = s)"
proof -
  let ?m = "\<lparr>la_SpaceID = s, la_DeploymentID = 0, la_Ordinal = 0, la_PlacementSlot = 0, la_RunSlot = 0\<rparr>"
  from assms have l: "fits l" "a = Addr6 (pack p l) []" by (simp_all add: ParseAddr_iff)
  show ?thesis
  proof (cases "fits ?m")
    case True
    then have "SpaceCIDR p s = Inr (PrefixFrom (Addr6 (pack p ?m) []) 64)" using addr_pack [of p s 0 0 0 0] by (simp add: SpaceCIDR_def bindE_Inr)
    then show ?thesis using prefix_contains [OF True l(1), of 64 p] l(2) by (auto simp: same_until_def PrefixFrom_def BitLen_def)
  next
    case False
    then have "\<not> in_range MaxSpaceID s" by (auto simp: fits_def in_range_def)
    with l(1) show ?thesis by (auto simp: SpaceCIDR_def addr_def fits_def)
  qed
qed

lemma DeploymentCIDR_source:
  assumes "ParseAddr p a = Inr l"
  shows "case DeploymentCIDR p s d of Inl _ \<Rightarrow> \<not> (la_SpaceID l = s \<and> la_DeploymentID l = d)
    | Inr pre \<Rightarrow> np_Bits pre \<noteq> None \<and> (NetContains pre a \<longleftrightarrow> la_SpaceID l = s \<and> la_DeploymentID l = d)"
proof -
  let ?m = "\<lparr>la_SpaceID = s, la_DeploymentID = d, la_Ordinal = 0, la_PlacementSlot = 0, la_RunSlot = 0\<rparr>"
  from assms have l: "fits l" "a = Addr6 (pack p l) []" by (simp_all add: ParseAddr_iff)
  show ?thesis
  proof (cases "fits ?m")
    case True
    then have "DeploymentCIDR p s d = Inr (PrefixFrom (Addr6 (pack p ?m) []) 88)" using addr_pack [of p s d 0 0 0] by (simp add: DeploymentCIDR_def bindE_Inr)
    then show ?thesis using prefix_contains [OF True l(1), of 88 p] l(2) by (auto simp: same_until_def PrefixFrom_def BitLen_def)
  next
    case False
    then have "\<not> in_range MaxSpaceID s \<or> \<not> in_range MaxDeploymentID d" by (auto simp: fits_def in_range_def)
    with l(1) show ?thesis by (auto simp: DeploymentCIDR_def addr_def fits_def)
  qed
qed

lemma override_source_matches:
  assumes "ParseAddr p a = Inr l"
  shows "case override_source p rule of Inl _ \<Rightarrow> \<not> peer_matches (pr_Source rule) l
    | Inr pre \<Rightarrow> np_Bits pre \<noteq> None \<and> (NetContains pre a \<longleftrightarrow> peer_matches (pr_Source rule) l)"
  using SpaceCIDR_source [OF assms, of "peer_SpaceID (pr_Source rule)"]
    DeploymentCIDR_source [OF assms, of "peer_SpaceID (pr_Source rule)" "peer_DeploymentID (pr_Source rule)"]
  by (auto simp: override_source_def peer_matches_def split: sum.splits)

lemma override_matches:
  assumes "ParseAddr p (pkt_Src k) = Inr l"
  shows "(\<exists>r \<in> set (override_rules p dep sp rule). rule_matches fs r k) \<longleftrightarrow>
    peer_SpaceID (pr_Destination rule) = sp \<and> peer_DeploymentID (pr_Destination rule) \<in> {0, dep} \<and>
    peer_matches (pr_Source rule) l \<and> port_allowed (pr_Ports rule) k"
proof (cases "override_source p rule")
  case (Inl e)
  then show ?thesis using override_source_matches [OF assms, of rule] by (simp add: override_rules_def)
next
  case (Inr pre)
  then have pre: "np_Bits pre \<noteq> None" "NetContains pre (pkt_Src k) \<longleftrightarrow> peer_matches (pr_Source rule) l"
    using override_source_matches [OF assms, of rule] by simp_all
  show ?thesis
  proof (cases "pr_Ports rule")
    case Nil
    then show ?thesis using pre Inr by (simp add: override_rules_def port_allowed_def)
  next
    case (Cons m ms)
    have "(\<exists>r \<in> set (override_rules p dep sp rule). rule_matches fs r k) \<longleftrightarrow>
      peer_SpaceID (pr_Destination rule) = sp \<and> peer_DeploymentID (pr_Destination rule) \<in> {0, dep} \<and>
      (\<exists>m \<in> set (pr_Ports rule). rule_matches fs (any_rule\<lparr>Saddr := pre, Protocol := pm_Protocol m, Port := pm_Port m,
                      PortEnd := pm_PortEnd m, Verdict := VerdictAccept\<rparr>) k)"
      using Inr Cons by (simp add: override_rules_def)
    then show ?thesis using pre Cons unfolding any_rule_port_matches port_allowed_def by auto
  qed
qed

lemma overrides_match:
  assumes "ParseAddr p (pkt_Src k) = Inr l"
  shows "(\<exists>r \<in> set (overrideFilterRules p dep sp rules). rule_matches fs r k) \<longleftrightarrow>
    (\<exists>rule \<in> set rules. peer_SpaceID (pr_Destination rule) = sp \<and> peer_DeploymentID (pr_Destination rule) \<in> {0, dep} \<and>
       peer_matches (pr_Source rule) l \<and> port_allowed (pr_Ports rule) k)"
  unfolding override_matches [OF assms, of dep sp, symmetric, where fs = fs] by (auto simp: overrideFilterRules_def)

lemma overrides_accept: "accepts_only (overrideFilterRules p dep sp rules)"
proof -
  have "list_all (\<lambda>r. Verdict r = VerdictAccept \<and> DaddrVmap r = []) (override_rules p dep sp rule)" for rule
    by (cases "override_source p rule") (simp_all add: override_rules_def list_all_iff)
  then show ?thesis unfolding accepts_only_def overrideFilterRules_def list_all_iff by auto
qed

section \<open>A destination chain\<close>

lemma dst_chain_verdict:
  assumes src: "ParseAddr p (pkt_Src k) = Inr l"
  shows "run_chain enter vmap fs k (chain_Rules (dst_chain p netproxy rules (dep, sp))) = Some (may_reach netproxy rules dep sp l k)"
proof -
  let ?dns = "if dep = netproxy then
         [any_rule\<lparr>Protocol := IPPROTO_UDP, Port := DNSPort, Verdict := VerdictAccept\<rparr>,
          any_rule\<lparr>Protocol := IPPROTO_TCP, Port := DNSPort, Verdict := VerdictAccept\<rparr>] else []"
  let ?same = "case SpaceCIDR p sp of Inl _ \<Rightarrow> [] | Inr pre \<Rightarrow> [any_rule\<lparr>Saddr := pre, Verdict := VerdictAccept\<rparr>]"
  let ?sys = "if sp \<noteq> SystemSpaceID then
      (case SpaceCIDR p SystemSpaceID of Inl _ \<Rightarrow> [] | Inr pre \<Rightarrow> [any_rule\<lparr>Saddr := pre, Verdict := VerdictAccept\<rparr>]) else []"
  have within: "NetContains (CIDR p) (pkt_Src k)" using src by (auto simp: ParseAddr_iff pack_prefix)
  then have cl: "rule_matches fs (any_rule\<lparr>Saddr := CIDR p, Verdict := VerdictAccept\<rparr>) k"
    "rule_matches fs (any_rule\<lparr>Saddr := CIDR p, Counter := True, Verdict := VerdictDrop\<rparr>) k"
    by (simp_all add: rule_matches_def any_rule_def no_prefix_def port_matches_def)
  have acc: "accepts_only ?dns" "accepts_only ?same" "accepts_only ?sys"
    by (cases "SpaceCIDR p sp"; cases "SpaceCIDR p SystemSpaceID"; simp add: accepts_only_def)+
  have dns: "(\<exists>r \<in> set ?dns. rule_matches fs r k) \<longleftrightarrow> dep = netproxy \<and> pkt_Proto k \<in> {IPPROTO_UDP, IPPROTO_TCP} \<and> pkt_Port k = DNSPort"
    by (auto simp: dns_rule_matches IPPROTO_UDP_def IPPROTO_TCP_def)
  have same: "(\<exists>r \<in> set ?same. rule_matches fs r k) \<longleftrightarrow> la_SpaceID l = sp"
    using SpaceCIDR_source [OF src, of sp] by (cases "SpaceCIDR p sp") simp_all
  have sys: "(\<exists>r \<in> set ?sys. rule_matches fs r k) \<longleftrightarrow> sp \<noteq> SystemSpaceID \<and> la_SpaceID l = SystemSpaceID"
    using SpaceCIDR_source [OF src, of SystemSpaceID] by (cases "SpaceCIDR p SystemSpaceID"; cases "sp = SystemSpaceID") simp_all
  note ov = overrides_match [OF src, of dep sp rules fs]
  have "chain_Rules (dst_chain p netproxy rules (dep, sp)) = ?dns @
      (if sp = GlobalSpaceID then [any_rule\<lparr>Saddr := CIDR p, Verdict := VerdictAccept\<rparr>]
       else ?same @ ?sys @ overrideFilterRules p dep sp rules @ [any_rule\<lparr>Saddr := CIDR p, Counter := True, Verdict := VerdictDrop\<rparr>])"
    by (simp add: dst_chain_def)
  then show ?thesis
    by (cases "sp = GlobalSpaceID")
      (simp_all only: if_True if_False run_accepts_then [OF acc(1)] run_accepts_then [OF acc(2)] run_accepts_then [OF acc(3)]
        run_accepts_then [OF overrides_accept] dns same sys ov run_chain.simps cl, auto simp: may_reach_def within)
qed

section \<open>Chain names\<close>

definition digit_value :: "char \<Rightarrow> int" where
  "digit_value c = of_char c - 48"

lemma digit_value: "0 \<le> d \<Longrightarrow> d < 10 \<Longrightarrow> digit_value (digit d) = d \<and> digit d \<noteq> CHR ''-''"
proof -
  assume d: "0 \<le> d" "d < 10"
  then have "d = 0 \<or> d = 1 \<or> d = 2 \<or> d = 3 \<or> d = 4 \<or> d = 5 \<or> d = 6 \<or> d = 7 \<or> d = 8 \<or> d = 9" by arith
  then show ?thesis by (auto simp: digit_value_def digit_def)
qed

definition dec_value :: "int list \<Rightarrow> int" where
  "dec_value ds = foldl (\<lambda>a d. a * 10 + d) 0 ds"

lemma strip_zeros_value:
  assumes "\<forall>d \<in> set ds. 0 \<le> d \<and> d < 10"
  shows "dec_value (map digit_value (strip_zeros ds)) = dec_value ds \<and> strip_zeros ds \<noteq> [] \<and> hd (strip_zeros ds) \<noteq> CHR ''-''"
proof -
  let ?r = "dropWhile (\<lambda>d. d = 0) ds"
  have "foldl (\<lambda>a d. a * 10 + d) 0 ?r = foldl (\<lambda>a d. a * 10 + d) 0 ds" by (induction ds) auto
  moreover have "map (digit_value \<circ> digit) ?r = ?r"
    by (rule map_idI) (use assms digit_value in \<open>auto dest: set_dropWhileD\<close>)
  moreover have "?r \<noteq> [] \<Longrightarrow> hd ?r \<in> set ds" by (metis hd_in_set set_dropWhileD)
  ultimately show ?thesis using assms digit_value [of 0] digit_value [of "hd ?r"]
    by (cases "?r = []") (simp_all add: strip_zeros_def Let_def dec_value_def hd_map del: dropWhile_eq_Nil_conv)
qed

definition ten_digits :: "int \<Rightarrow> int list" where
  "ten_digits n = map (\<lambda>k. n div 10 ^ k mod 10) [9, 8, 7, 6, 5, 4, 3, 2, 1, 0]"

lemma digits_fold: "foldl (\<lambda>a d. a * 10 + d) (n div 10 ^ m) (map (\<lambda>k. n div 10 ^ k mod 10) (rev [0 ..< m])) = (n :: int)"
proof (induction m)
  case (Suc m)
  have "n div 10 ^ Suc m * 10 + n div 10 ^ m mod 10 = n div 10 ^ m"
    unfolding power_Suc2 zdiv_zmult2_eq [of 10 n "10 ^ m", simplified] by (rule div_mult_mod_eq)
  with Suc show ?case by simp
qed simp

lemma ten_digits_value:
  assumes "0 \<le> n" "n < 10 ^ 10"
  shows "dec_value (ten_digits n) = n"
proof -
  have "ten_digits n = map (\<lambda>k. n div 10 ^ k mod 10) (rev [0 ..< 10])" by (simp add: ten_digits_def upt_rec)
  moreover have "n div 10 ^ 10 = 0" using assms by simp
  ultimately show ?thesis using digits_fold [of n 10] by (simp only: dec_value_def)
qed

lemma sint_text_inj:
  assumes "sint_text v = sint_text w"
  shows "v = w"
proof -
  have b: "\<bar>sint x\<bar> < 10 ^ 10" for x :: "32 word" using sint_range [of x] by auto
  have d: "\<forall>d \<in> set (ten_digits n). 0 \<le> d \<and> d < 10" for n by (auto simp: ten_digits_def)
  have t: "sint_text x = (if sint x < 0 then ''-'' else []) @ strip_zeros (ten_digits \<bar>sint x\<bar>)" for x
    by (simp add: sint_text_def ten_digits_def Let_def)
  have val: "dec_value (map digit_value (strip_zeros (ten_digits \<bar>sint x\<bar>))) = \<bar>sint x\<bar>" for x :: "32 word"
    using strip_zeros_value [OF d] ten_digits_value [of "\<bar>sint x\<bar>"] b [of x] by simp
  have sign: "sint x < 0 \<longleftrightarrow> hd (sint_text x) = CHR ''-''" for x using strip_zeros_value [OF d, of "\<bar>sint x\<bar>"] t [of x] by auto
  have same: "sint v < 0 \<longleftrightarrow> sint w < 0" using sign assms by metis
  then have "strip_zeros (ten_digits \<bar>sint v\<bar>) = strip_zeros (ten_digits \<bar>sint w\<bar>)" using assms t by (auto split: if_splits)
  then have "\<bar>sint v\<bar> = \<bar>sint w\<bar>" using val by metis
  then have "sint v = sint w" using same by arith
  then show ?thesis by (rule signed_word_eqI)
qed

lemma dstChainName_inj [simp]: "dstChainName d = dstChainName d' \<longleftrightarrow> d = d'"
  by (auto simp: dstChainName_def dest: sint_text_inj)

lemma dstChainName_build: "dstChainName d \<noteq> NftChainBuildEgress"
  by (simp add: dstChainName_def NftChainBuildEgress_def)

end
