(* ===== verification/Net_Isolation.thy ===== *)
theory Net_Isolation
  imports Net_Filter_Policy
begin

text \<open>
  The rendered filter state, set by set, and what it does to connections: a workload is reached by
  exactly who the reference policy names, a container cannot send from an address that is not its
  own, and a build container reaches nothing of the cluster but the DNS of netproxy.
\<close>

section \<open>The identity of an attachment\<close>

datatype identity_error = BadOutbound addr_error | OutboundIsInbound | BadInbound addr_error | InboundIsOutbound | IdentityMismatch

text \<open>The manager attaches a container only after this check (\<open>manager.go\<close>).\<close>

definition validateContainerAddressIdentity :: "Prefix \<Rightarrow> 32 word \<Rightarrow> Addr \<Rightarrow> Addr \<Rightarrow> identity_error + unit" where
  "validateContainerAddressIdentity prefix deploymentID inboundAddr outboundAddr =
    (case ParseAddr prefix outboundAddr of Inl e \<Rightarrow> Inl (BadOutbound e)
     | Inr outbound \<Rightarrow>
       if \<not> IsOutbound outbound then Inl OutboundIsInbound
       else (case ParseAddr prefix inboundAddr of Inl e \<Rightarrow> Inl (BadInbound e)
         | Inr inbound \<Rightarrow>
           if \<not> IsInbound inbound then Inl InboundIsOutbound
           else if la_SpaceID outbound \<noteq> la_SpaceID inbound \<or> la_DeploymentID outbound \<noteq> la_DeploymentID inbound \<or>
              la_Ordinal outbound \<noteq> la_Ordinal inbound \<or> la_DeploymentID inbound \<noteq> deploymentID then Inl IdentityMismatch
           else Inr ()))"

definition workload :: "Prefix \<Rightarrow> ContainerNet \<Rightarrow> bool" where
  "workload p cn \<longleftrightarrow> isl (ParseAddr p (cn_InboundAddr cn)) = False \<and> \<not> isBuildAttachment cn"

definition space_of :: "Prefix \<Rightarrow> ContainerNet \<Rightarrow> 32 word" where
  "space_of p cn = (case ParseAddr p (cn_InboundAddr cn) of Inr l \<Rightarrow> la_SpaceID l | Inl _ \<Rightarrow> 0)"

definition own_addrs :: "ContainerNet \<Rightarrow> Addr set" where
  "own_addrs cn = {cn_InboundAddr cn, cn_OutboundAddr cn}"

definition identified :: "Prefix \<Rightarrow> ContainerNet \<Rightarrow> bool" where
  "identified p cn \<longleftrightarrow> validateContainerAddressIdentity p (cn_DeploymentID cn) (cn_InboundAddr cn) (cn_OutboundAddr cn) = Inr ()"

lemma identified_addrs:
  assumes "identified p cn" "a \<in> own_addrs cn"
  obtains l where "ParseAddr p a = Inr l" "la_DeploymentID l = cn_DeploymentID cn" "la_SpaceID l = space_of p cn"
  using assms
  by (auto simp: identified_def validateContainerAddressIdentity_def own_addrs_def space_of_def split: sum.splits if_splits)

lemma own_addrs_iff [simp]: "cn_InboundAddr cn \<in> own_addrs cn" "cn_OutboundAddr cn \<in> own_addrs cn"
  by (simp_all add: own_addrs_def)

lemma identified_workload:
  assumes "identified p cn"
  shows "workload p cn \<longleftrightarrow> \<not> isBuildAttachment cn"
proof -
  obtain l where "ParseAddr p (cn_InboundAddr cn) = Inr l" using identified_addrs [OF assms own_addrs_iff(1)] .
  then show ?thesis by (simp add: workload_def)
qed

section \<open>The sets of the state\<close>

definition src_pairs :: "Prefix \<Rightarrow> ContainerNet \<Rightarrow> VethAddr list" where
  "src_pairs p cn = (case ParseAddr p (cn_InboundAddr cn) of Inl _ \<Rightarrow> []
     | Inr _ \<Rightarrow> [\<lparr>va_Veth = cn_HostVeth cn, va_Addr = cn_InboundAddr cn\<rparr>, \<lparr>va_Veth = cn_HostVeth cn, va_Addr = cn_OutboundAddr cn\<rparr>])"

definition put_dispatch :: "ContainerNet \<Rightarrow> (Addr \<times> string) list \<Rightarrow> (Addr \<times> string) list" where
  "put_dispatch cn d = AList.update (cn_OutboundAddr cn) (dstChainName (cn_DeploymentID cn))
     (AList.update (cn_InboundAddr cn) (dstChainName (cn_DeploymentID cn)) d)"

definition put_space :: "Prefix \<Rightarrow> ContainerNet \<Rightarrow> (32 word \<times> 32 word) list \<Rightarrow> (32 word \<times> 32 word) list" where
  "put_space p cn s = AList.update (cn_DeploymentID cn) (space_of p cn) s"

definition build_attached :: "Prefix \<Rightarrow> ContainerNet \<Rightarrow> bool" where
  "build_attached p cn \<longleftrightarrow> \<not> isl (ParseAddr p (cn_InboundAddr cn)) \<and> isBuildAttachment cn"

lemma add_attachment_cases:
  "add_attachment p cn (st, d, s) =
    (if workload p cn then (st\<lparr>Managed6 := Managed6 st @ [cn_HostVeth cn], SrcOK6 := SrcOK6 st @ src_pairs p cn\<rparr>, put_dispatch cn d, put_space p cn s)
     else if build_attached p cn then
       (st\<lparr>Managed6 := Managed6 st @ [cn_HostVeth cn], SrcOK6 := SrcOK6 st @ src_pairs p cn,
          BlockedOut := BlockedOut st @ [cn_HostVeth cn], Build6 := Build6 st @ [cn_HostVeth cn]\<rparr>, d, s)
     else (st\<lparr>Managed6 := Managed6 st @ [cn_HostVeth cn], BlockedOut := BlockedOut st @ [cn_HostVeth cn]\<rparr>, d, s))"
  by (cases "ParseAddr p (cn_InboundAddr cn)")
    (simp_all add: add_attachment_def Let_def workload_def build_attached_def src_pairs_def put_dispatch_def put_space_def space_of_def)

lemma src_pairs_none: "\<not> workload p cn \<Longrightarrow> \<not> build_attached p cn \<Longrightarrow> src_pairs p cn = []"
  by (cases "ParseAddr p (cn_InboundAddr cn)") (simp_all add: workload_def build_attached_def src_pairs_def)

lemma not_both: "workload p cn \<Longrightarrow> \<not> build_attached p cn"
  by (simp add: workload_def build_attached_def)

lemma add_attachment_proj [simp]:
  "Managed6 (fst (add_attachment p cn x)) = Managed6 (fst x) @ [cn_HostVeth cn]"
  "SrcOK6 (fst (add_attachment p cn x)) = SrcOK6 (fst x) @ src_pairs p cn"
  "BlockedOut (fst (add_attachment p cn x)) = BlockedOut (fst x) @ (if workload p cn then [] else [cn_HostVeth cn])"
  "Build6 (fst (add_attachment p cn x)) = Build6 (fst x) @ (if build_attached p cn then [cn_HostVeth cn] else [])"
  "BuildEgress6 (fst (add_attachment p cn x)) = BuildEgress6 (fst x)"
  "Managed4 (fst (add_attachment p cn x)) = Managed4 (fst x)" "SrcOK4 (fst (add_attachment p cn x)) = SrcOK4 (fst x)"
  "Build4 (fst (add_attachment p cn x)) = Build4 (fst x)" "BuildEgress4 (fst (add_attachment p cn x)) = BuildEgress4 (fst x)"
  "fst (snd (add_attachment p cn x)) = (if workload p cn then put_dispatch cn (fst (snd x)) else fst (snd x))"
  "snd (snd (add_attachment p cn x)) = (if workload p cn then put_space p cn (snd (snd x)) else snd (snd x))"
  by (cases x; simp add: add_attachment_cases src_pairs_none not_both)+

lemma attachments_proj:
  "Managed6 (fst (fold (add_attachment p) cns x)) = Managed6 (fst x) @ map cn_HostVeth cns"
  "SrcOK6 (fst (fold (add_attachment p) cns x)) = SrcOK6 (fst x) @ concat (map (src_pairs p) cns)"
  "BlockedOut (fst (fold (add_attachment p) cns x)) = BlockedOut (fst x) @ map cn_HostVeth (filter (\<lambda>cn. \<not> workload p cn) cns)"
  "Build6 (fst (fold (add_attachment p) cns x)) = Build6 (fst x) @ map cn_HostVeth (filter (build_attached p) cns)"
  "BuildEgress6 (fst (fold (add_attachment p) cns x)) = BuildEgress6 (fst x)"
  "Managed4 (fst (fold (add_attachment p) cns x)) = Managed4 (fst x)" "SrcOK4 (fst (fold (add_attachment p) cns x)) = SrcOK4 (fst x)"
  "Build4 (fst (fold (add_attachment p) cns x)) = Build4 (fst x)" "BuildEgress4 (fst (fold (add_attachment p) cns x)) = BuildEgress4 (fst x)"
  "fst (snd (fold (add_attachment p) cns x)) = fold put_dispatch (filter (workload p) cns) (fst (snd x))"
  "snd (snd (fold (add_attachment p) cns x)) = fold (put_space p) (filter (workload p) cns) (snd (snd x))"
  by (induction cns arbitrary: x; simp)+

section \<open>The maps of the state\<close>

lemma find_map_of: "map_option snd (find (\<lambda>e. fst e = a) xs) = map_of xs a"
  by (induction xs) auto

lemma map_of_sort_key: "distinct (map fst xs) \<Longrightarrow> map_of (sort_key f xs) = map_of xs"
  by (subst map_of_inject_set) (simp_all add: distinct_map)

lemma put_dispatch_keys: "distinct (map fst d) \<Longrightarrow> distinct (map fst (fold put_dispatch ws d))"
  by (induction ws arbitrary: d) (simp_all add: put_dispatch_def distinct_update)

lemma put_space_keys: "distinct (map fst s) \<Longrightarrow> distinct (map fst (fold (put_space p) ws s))"
  by (induction ws arbitrary: s) (simp_all add: put_space_def distinct_update)

lemma put_dispatch_lookup:
  "map_of (fold put_dispatch ws []) a =
    (case find (\<lambda>cn. a \<in> own_addrs cn) (rev ws) of None \<Rightarrow> None | Some cn \<Rightarrow> Some (dstChainName (cn_DeploymentID cn)))"
  by (induction ws rule: rev_induct) (auto simp: put_dispatch_def update_conv' own_addrs_def)

lemma put_space_lookup:
  "map_of (fold (put_space p) ws []) dep = map_option (space_of p) (find (\<lambda>cn. cn_DeploymentID cn = dep) (rev ws))"
  by (induction ws rule: rev_induct) (auto simp: put_space_def update_conv')

lemma chain_Name_dst_chain [simp]: "chain_Name (dst_chain p np rules (dep, sp)) = dstChainName dep"
  by (simp add: dst_chain_def)

lemma find_dst_chain:
  "find (\<lambda>c. chain_Name c = dstChainName dep) (map (dst_chain p np rules) xs) = map_option (\<lambda>sp. dst_chain p np rules (dep, sp)) (map_of xs dep)"
proof (induction xs)
  case (Cons x xs)
  then show ?case by (cases x) (simp add: eq_commute)
qed simp

lemma find_dispatch:
  "map_option de_Chain (find (\<lambda>e. de_Addr e = a) (map (\<lambda>(a, c). \<lparr>de_Addr = a, de_Chain = c\<rparr>) xs)) = map_of xs a"
  by (induction xs) (auto simp: eq_commute)

section \<open>The rendered state\<close>

lemma rendered_sets:
  fixes p np nets rules peers
  defines "st \<equiv> RenderFilterState p True np nets rules peers"
  shows "Managed6 st = map cn_HostVeth (attached nets)"
    "SrcOK6 st = concat (map (src_pairs p) (attached nets))"
    "BlockedOut st = map cn_HostVeth (filter (\<lambda>cn. \<not> workload p cn) (attached nets))"
    "Build6 st = map cn_HostVeth (filter (build_attached p) (attached nets))"
    "chain_Rules (BuildEgress6 st) = buildEgressRules p True np peers True"
  by (simp_all add: st_def RenderFilterState_def Let_def split_beta attachments_proj)

lemma rendered_sets4:
  fixes p hasPrefix np nets rules peers
  defines "st \<equiv> RenderFilterState p hasPrefix np nets rules peers"
  shows "Managed4 st = map cn_HostVeth (attached nets)"
    "SrcOK4 st = map (\<lambda>cn. \<lparr>va_Veth = cn_HostVeth cn, va_Addr = cn_V4 cn\<rparr>) (filter (\<lambda>cn. Is4 (cn_V4 cn)) (attached nets))"
    "Build4 st = map cn_HostVeth (filter isBuildAttachment (attached nets))"
    "chain_Rules (BuildEgress4 st) = buildEgressRules p hasPrefix np peers False"
  by (simp_all add: st_def RenderFilterState_def Let_def split_beta attachments_proj)

lemma rendered_dispatch:
  "dispatch6 (RenderFilterState p True np nets rules peers) a = map_of (fold put_dispatch (filter (workload p) (attached nets)) []) a"
  by (simp add: dispatch6_def RenderFilterState_def Let_def split_beta attachments_proj find_dispatch map_of_sort_key put_dispatch_keys)

lemma rendered_chain:
  "enter6 (RenderFilterState p True np nets rules peers) k (dstChainName dep) =
    (case map_of (fold (put_space p) (filter (workload p) (attached nets)) []) dep of None \<Rightarrow> None
     | Some sp \<Rightarrow> run_chain (\<lambda>_. None) (\<lambda>_. None) (sets6 (RenderFilterState p True np nets rules peers)) k
         (chain_Rules (dst_chain p np rules (dep, sp))))"
proof -
  have "DstChains (RenderFilterState p True np nets rules peers) =
    map (dst_chain p np rules) (sort_key (\<lambda>(d, _). sint d) (fold (put_space p) (filter (workload p) (attached nets)) []))"
    by (simp add: RenderFilterState_def Let_def split_beta attachments_proj)
  then show ?thesis
    by (simp add: enter6_def dstChainName_build find_dst_chain map_of_sort_key put_space_keys split: option.splits)
qed

lemma static_rule_matches:
  "rule_matches fs (any_rule\<lparr>CtEstablished := True, Verdict := v\<rparr>) k \<longleftrightarrow> pkt_Established k"
  "rule_matches fs (any_rule\<lparr>OifSet := s, Counter := c, Verdict := v\<rparr>) k \<longleftrightarrow> (s \<noteq> [] \<longrightarrow> pkt_Oif k \<in> set (fs_Veths fs s))"
  "rule_matches fs (any_rule\<lparr>IifSet := s, SrcPairSet := q, SrcPairInvert := True, Counter := c, Verdict := v\<rparr>) k \<longleftrightarrow>
    (s \<noteq> [] \<longrightarrow> pkt_Iif k \<in> set (fs_Veths fs s)) \<and> (q \<noteq> [] \<longrightarrow> \<lparr>va_Veth = pkt_Iif k, va_Addr = pkt_Src k\<rparr> \<notin> set (fs_Pairs fs q))"
  "rule_matches fs (any_rule\<lparr>IifSet := s, Verdict := v, JumpTarget := t\<rparr>) k \<longleftrightarrow> (s \<noteq> [] \<longrightarrow> pkt_Iif k \<in> set (fs_Veths fs s))"
  "rule_matches fs (any_rule\<lparr>DaddrVmap := m\<rparr>) k"
  "rule_matches fs (any_rule\<lparr>IifSet := s, Daddr := d, Counter := c, Verdict := v\<rparr>) k \<longleftrightarrow>
    (s \<noteq> [] \<longrightarrow> pkt_Iif k \<in> set (fs_Veths fs s)) \<and> (np_Bits d \<noteq> None \<longrightarrow> NetContains d (pkt_Dst k))"
  by (simp_all add: rule_matches_def any_rule_def no_prefix_def port_matches_def)

lemma any_rule_Verdict [simp]: "Verdict any_rule = VerdictNone" "JumpTarget any_rule = []"
  by (simp_all add: any_rule_def)

lemma sets6_proj [simp]:
  "fs_Veths (sets6 st) NftSetManaged = Managed6 st" "fs_Veths (sets6 st) NftSetBlockedOut = BlockedOut st"
  "fs_Veths (sets6 st) NftSetBuild = Build6 st" "fs_Pairs (sets6 st) NftSetSrcOK = SrcOK6 st"
  "NftSetManaged \<noteq> []" "NftSetBlockedOut \<noteq> []" "NftSetBuild \<noteq> []" "NftSetSrcOK \<noteq> []" "NftMapDstDispatch \<noteq> []"
  by (simp_all add: sets6_def NftSetManaged_def NftSetBlockedOut_def NftSetBuild_def NftSetSrcOK_def NftMapDstDispatch_def)

lemma sets4_proj [simp]:
  "fs_Veths (sets4 st) NftSetManaged = Managed4 st" "fs_Veths (sets4 st) NftSetBuild = Build4 st" "fs_Pairs (sets4 st) NftSetSrcOK = SrcOK4 st"
  by (simp_all add: sets4_def NftSetManaged_def NftSetBuild_def NftSetSrcOK_def)

definition to_destination :: "FilterState \<Rightarrow> Packet \<Rightarrow> bool" where
  "to_destination st k = (case dispatch6 st (pkt_Dst k) of None \<Rightarrow> True | Some c \<Rightarrow> (case enter6 st k c of None \<Rightarrow> True | Some v \<Rightarrow> v))"

lemma forwards6_steps:
  "forwards6 st k \<longleftrightarrow> pkt_Established k \<or>
    pkt_Oif k \<notin> set (BlockedOut st) \<and>
    (pkt_Iif k \<in> set (Managed6 st) \<longrightarrow> \<lparr>va_Veth = pkt_Iif k, va_Addr = pkt_Src k\<rparr> \<in> set (SrcOK6 st)) \<and>
    (if pkt_Iif k \<in> set (Build6 st) then (case enter6 st k NftChainBuildEgress of Some v \<Rightarrow> v | None \<Rightarrow> to_destination st k)
     else to_destination st k)"
  by (simp add: forwards6_def StaticFilterRules6_def static_rule_matches to_destination_def split: option.splits)

lemma forwards4_steps:
  "forwards4 st k \<longleftrightarrow> pkt_Established k \<or>
    (pkt_Iif k \<in> set (Managed4 st) \<longrightarrow> \<not> NetContains V4CIDR (pkt_Dst k) \<and> \<lparr>va_Veth = pkt_Iif k, va_Addr = pkt_Src k\<rparr> \<in> set (SrcOK4 st)) \<and>
    (pkt_Iif k \<in> set (Build4 st) \<longrightarrow> (case enter4 st k NftChainBuildEgress of Some v \<Rightarrow> v | None \<Rightarrow> True))"
proof -
  have "np_Bits V4CIDR \<noteq> None" by (simp add: V4CIDR_def PrefixFrom_def BitLen_def)
  then show ?thesis by (auto simp: forwards4_def StaticFilterRules4_def static_rule_matches split: option.splits)
qed

section \<open>What the filter does\<close>

text \<open>The attachments a manager holds: every one passed the identity check, and host veth names are
  unique.\<close>

definition nets_ok :: "Prefix \<Rightarrow> ContainerNet option list \<Rightarrow> bool" where
  "nets_ok p nets \<longleftrightarrow> distinct (map cn_HostVeth (attached nets)) \<and> list_all (identified p) (attached nets)"

lemma nets_okD:
  assumes "nets_ok p nets"
  shows "\<And>cn. cn \<in> set (attached nets) \<Longrightarrow> identified p cn"
    "inj_on cn_HostVeth (set (attached nets))"
  using assms unfolding nets_ok_def list_all_iff distinct_map by blast+

text \<open>The space whose policy the chain of a deployment implements: a node has one chain for all placements of a
  deployment, made for the space of the last of them in the order of the veth names.\<close>

definition chain_space :: "Prefix \<Rightarrow> ContainerNet option list \<Rightarrow> 32 word \<Rightarrow> 32 word" where
  "chain_space p nets dep = space_of p (last (filter (\<lambda>c. cn_DeploymentID c = dep) (attached nets)))"

lemma find_rev_last: "x \<in> set xs \<Longrightarrow> P x \<Longrightarrow> find P (rev xs) = Some (last (filter P xs))"
  by (induction xs rule: rev_induct) auto

lemma find_rev_in:
  assumes "x \<in> set xs" "P x"
  obtains y where "find P (rev xs) = Some y" "y \<in> set xs" "P y"
proof (cases "find P (rev xs)")
  case None
  then show thesis using assms by (auto simp: find_None_iff)
next
  case (Some y)
  then show thesis using that by (auto simp: find_Some_iff) (metis nth_mem set_rev length_rev)
qed

lemma to_workload:
  assumes ok: "nets_ok p nets" and cn: "cn \<in> set (attached nets)" "\<not> isBuildAttachment cn" "pkt_Dst k \<in> own_addrs cn"
    and src: "ParseAddr p (pkt_Src k) = Inr l"
  shows "to_destination (RenderFilterState p True np nets rules peers) k \<longleftrightarrow>
    may_reach np rules (cn_DeploymentID cn) (chain_space p nets (cn_DeploymentID cn)) l k"
proof -
  let ?ws = "filter (workload p) (attached nets)"
  note D = nets_okD [OF ok]
  have w: "cn \<in> set ?ws" using cn identified_workload [OF D(1) [OF cn(1)]] by simp
  then obtain c where c: "find (\<lambda>cn. pkt_Dst k \<in> own_addrs cn) (rev ?ws) = Some c" "c \<in> set ?ws" "pkt_Dst k \<in> own_addrs c"
    using find_rev_in [of cn ?ws "\<lambda>cn. pkt_Dst k \<in> own_addrs cn"] cn(3) by blast
  have dep: "cn_DeploymentID c = cn_DeploymentID cn"
  proof -
    have cs: "c \<in> set (attached nets)" using c(2) by simp
    obtain l1 where "ParseAddr p (pkt_Dst k) = Inr l1" "la_DeploymentID l1 = cn_DeploymentID c" using identified_addrs [OF D(1) [OF cs] c(3)] .
    moreover obtain l2 where "ParseAddr p (pkt_Dst k) = Inr l2" "la_DeploymentID l2 = cn_DeploymentID cn"
      using identified_addrs [OF D(1) [OF cn(1)] cn(3)] .
    ultimately show ?thesis by simp
  qed
  have "find (\<lambda>c. cn_DeploymentID c = cn_DeploymentID cn) (rev ?ws) = Some (last (filter (\<lambda>c. cn_DeploymentID c = cn_DeploymentID cn) ?ws))"
    by (rule find_rev_last [OF w]) simp
  moreover have "filter (\<lambda>c. cn_DeploymentID c = cn_DeploymentID cn) ?ws = filter (\<lambda>c. cn_DeploymentID c = cn_DeploymentID cn) (attached nets)"
    using cn(2) identified_workload [OF D(1)] unfolding filter_filter by (intro filter_cong) (auto simp: isBuildAttachment_def)
  ultimately show ?thesis
    by (simp add: to_destination_def rendered_dispatch put_dispatch_lookup c dep rendered_chain put_space_lookup chain_space_def dst_chain_verdict [OF src])
qed

lemma src_pair_iff:
  assumes "nets_ok p nets" "cn \<in> set (attached nets)"
  shows "\<lparr>va_Veth = cn_HostVeth cn, va_Addr = a\<rparr> \<in> set (concat (map (src_pairs p) (attached nets))) \<longleftrightarrow> a \<in> own_addrs cn"
proof -
  note D = nets_okD [OF assms(1)]
  have "src_pairs p c = [\<lparr>va_Veth = cn_HostVeth c, va_Addr = cn_InboundAddr c\<rparr>, \<lparr>va_Veth = cn_HostVeth c, va_Addr = cn_OutboundAddr c\<rparr>]"
    if c: "c \<in> set (attached nets)" for c
  proof -
    obtain l where "ParseAddr p (cn_InboundAddr c) = Inr l" using identified_addrs [OF D(1) [OF c] own_addrs_iff(1)] .
    then show ?thesis by (simp add: src_pairs_def)
  qed
  then have "\<lparr>va_Veth = cn_HostVeth cn, va_Addr = a\<rparr> \<in> set (src_pairs p c) \<longleftrightarrow> cn_HostVeth cn = cn_HostVeth c \<and> a \<in> own_addrs c"
    if "c \<in> set (attached nets)" for c using that by (auto simp: own_addrs_def)
  moreover have "cn_HostVeth cn = cn_HostVeth c \<longleftrightarrow> c = cn" if "c \<in> set (attached nets)" for c
    using inj_on_eq_iff [OF D(2) assms(2) that] by auto
  ultimately show ?thesis using assms(2) by (simp add: Bex_def)
qed

lemma build_veth:
  assumes "nets_ok p nets" "cn \<in> set (attached nets)"
  shows "cn_HostVeth cn \<in> cn_HostVeth ` {c \<in> set (attached nets). build_attached p c} \<longleftrightarrow> isBuildAttachment cn"
    "cn_HostVeth cn \<in> cn_HostVeth ` {c \<in> set (attached nets). \<not> workload p c} \<longleftrightarrow> isBuildAttachment cn"
proof -
  note D = nets_okD [OF assms(1)]
  have p: "workload p c \<longleftrightarrow> \<not> isBuildAttachment c" "build_attached p c \<longleftrightarrow> isBuildAttachment c" if c: "c \<in> set (attached nets)" for c
  proof -
    obtain l where "ParseAddr p (cn_InboundAddr c) = Inr l" using identified_addrs [OF D(1) [OF c] own_addrs_iff(1)] .
    then show "workload p c \<longleftrightarrow> \<not> isBuildAttachment c" "build_attached p c \<longleftrightarrow> isBuildAttachment c"
      by (simp_all add: workload_def build_attached_def)
  qed
  show "cn_HostVeth cn \<in> cn_HostVeth ` {c \<in> set (attached nets). build_attached p c} \<longleftrightarrow> isBuildAttachment cn"
    "cn_HostVeth cn \<in> cn_HostVeth ` {c \<in> set (attached nets). \<not> workload p c} \<longleftrightarrow> isBuildAttachment cn"
    using p [OF assms(2)] assms(2) by (subst inj_on_image_mem_iff [OF D(2) assms(2)]; auto)+
qed

text \<open>The source of a packet is genuine when it comes from outside the attached containers, or from
  a workload that sends from an address of its own.\<close>

definition genuine :: "ContainerNet option list \<Rightarrow> Packet \<Rightarrow> bool" where
  "genuine nets k \<longleftrightarrow> pkt_Iif k \<notin> set (map cn_HostVeth (attached nets)) \<or>
    list_ex (\<lambda>c. pkt_Iif k = cn_HostVeth c \<and> \<not> isBuildAttachment c \<and> (pkt_Src k = cn_InboundAddr c \<or> pkt_Src k = cn_OutboundAddr c)) (attached nets)"

lemma genuineE:
  assumes "genuine nets k"
  obtains "pkt_Iif k \<notin> cn_HostVeth ` set (attached nets)"
  | c where "c \<in> set (attached nets)" "pkt_Iif k = cn_HostVeth c" "\<not> isBuildAttachment c" "pkt_Src k \<in> own_addrs c"
  using assms unfolding genuine_def list_ex_iff own_addrs_def set_map by blast

lemma chain_space_single:
  assumes "cn \<in> set (attached nets)" "\<And>c. c \<in> set (attached nets) \<Longrightarrow> cn_DeploymentID c = cn_DeploymentID cn \<Longrightarrow> space_of p c = space_of p cn"
  shows "chain_space p nets (cn_DeploymentID cn) = space_of p cn"
proof -
  let ?cs = "filter (\<lambda>c. cn_DeploymentID c = cn_DeploymentID cn) (attached nets)"
  have "?cs \<noteq> []" using assms(1) by (auto simp: filter_empty_conv)
  then have "last ?cs \<in> set ?cs" by (rule last_in_set)
  then show ?thesis using assms(2) by (auto simp: chain_space_def)
qed

text \<open>
  C22. What the packet filter enforces. A new connection with a genuine source to an own address of an
  attached workload, delivered on that workload's veth, is forwarded precisely when the connection policy
  allows it -- DNS to netproxy, a destination in the global space, the same space, the system space, or an
  override rule that names source, destination and port -- where the destination counts as being in the
  space of the last attached placement of its deployment, in the order of the veth names. This is the
  space of the workload itself as long as all placements of the deployment on the node are in one space. While
  a deployment moves to another space on its node they are not, and the filter applies the policy of the
  wrong space to one of the placements.
\<close>

theorem filter_enforces_policy:
  assumes "nets_ok p nets" "cn \<in> set (attached nets)" "\<not> isBuildAttachment cn"
    and "pkt_Dst k \<in> own_addrs cn" "pkt_Oif k = cn_HostVeth cn" "\<not> pkt_Established k"
    and "ParseAddr p (pkt_Src k) = Inr l" "genuine nets k"
  shows "(forwards6 (RenderFilterState p True np nets rules peers) k \<longleftrightarrow>
      may_reach np rules (cn_DeploymentID cn) (chain_space p nets (cn_DeploymentID cn)) l k) \<and>
    ((\<forall>c \<in> set (attached nets). cn_DeploymentID c = cn_DeploymentID cn \<longrightarrow> space_of p c = space_of p cn) \<longrightarrow>
      chain_space p nets (cn_DeploymentID cn) = space_of p cn)"
proof -
  have "pkt_Oif k \<notin> cn_HostVeth ` {c \<in> set (attached nets). \<not> workload p c}"
    using assms(3,5) build_veth(2) [OF assms(1,2)] by simp
  moreover have "(pkt_Iif k \<in> cn_HostVeth ` set (attached nets) \<longrightarrow>
      \<lparr>va_Veth = pkt_Iif k, va_Addr = pkt_Src k\<rparr> \<in> set (concat (map (src_pairs p) (attached nets)))) \<and>
    pkt_Iif k \<notin> cn_HostVeth ` {c \<in> set (attached nets). build_attached p c}"
    using assms(8)
  proof (cases rule: genuineE)
    case 1
    then show ?thesis by blast
  next
    case (2 c)
    then show ?thesis using src_pair_iff [OF assms(1) 2(1)] build_veth(1) [OF assms(1) 2(1)] by simp
  qed
  ultimately show ?thesis
    using assms(6) to_workload [OF assms(1-4,7)] chain_space_single [OF assms(2), of p] by (simp add: forwards6_steps rendered_sets)
qed


section \<open>Build containers\<close>

lemma run_drops:
  assumes "list_all (\<lambda>r. Verdict r = VerdictDrop \<and> DaddrVmap r = []) rs"
  shows "run_chain enter vmap fs k rs = (if \<exists>r \<in> set rs. rule_matches fs r k then Some False else None)"
  using assms by (induction rs) auto

lemma daddr_rule_matches:
  "rule_matches fs (any_rule\<lparr>Daddr := d, Counter := c, Verdict := v\<rparr>) k \<longleftrightarrow> (np_Bits d \<noteq> None \<longrightarrow> NetContains d (pkt_Dst k))"
  "rule_matches fs (any_rule\<lparr>Daddr := d, Protocol := q, Port := n, Verdict := v\<rparr>) k \<longleftrightarrow>
    (np_Bits d \<noteq> None \<longrightarrow> NetContains d (pkt_Dst k)) \<and> (q \<noteq> 0 \<longrightarrow> pkt_Proto k = q \<and> (n \<noteq> 0 \<longrightarrow> pkt_Port k = n))"
  by (simp_all add: rule_matches_def any_rule_def no_prefix_def port_matches_def)

text \<open>The destinations a build container must not reach.\<close>

definition build_denied :: "Prefix \<Rightarrow> Addr list \<Rightarrow> Addr \<Rightarrow> bool" where
  "build_denied p peers a \<longleftrightarrow> NetContains (CIDR p) a \<or> (\<exists>d \<in> set buildDenied6. NetContains d a) \<or> (a \<in> set peers \<and> Is6 a \<and> Zone a = [])"

definition build_denied4 :: "Addr list \<Rightarrow> Addr \<Rightarrow> bool" where
  "build_denied4 peers a \<longleftrightarrow> NetContains V4CIDR a \<or> (\<exists>d \<in> set buildDenied4. NetContains d a) \<or> (a \<in> set peers \<and> Is4 a)"

definition build_dns :: "Prefix \<Rightarrow> 32 word \<Rightarrow> Packet \<Rightarrow> bool" where
  "build_dns p np k \<longleftrightarrow> np \<noteq> 0 \<and> InboundAddr p SystemSpaceID np 0 = Inr (pkt_Dst k) \<and> pkt_Proto k \<in> {IPPROTO_UDP, IPPROTO_TCP} \<and> pkt_Port k = DNSPort"

lemma single_address: "NetContains (PrefixFrom (Addr6 w z) 128) a \<longleftrightarrow> a = Addr6 w []"
  by (cases a) (auto simp: NetContains_def PrefixFrom_def withoutZone_def BitLen_def)

lemma InboundAddr_Addr6: "InboundAddr p s d i = Inr a \<Longrightarrow> \<exists>w. a = Addr6 w []"
  by (auto simp: InboundAddr_def addr_pack Let_def split: if_splits)

lemma build_egress_verdict:
  "run_chain enter vmap fs k (buildEgressRules p True np peers True) =
    (if build_dns p np k then Some True else if build_denied p peers (pkt_Dst k) then Some False
     else run_chain enter vmap fs k (buildEgressRules p True np peers True))"
proof -
  let ?dns = "if np \<noteq> 0 then (case InboundAddr p SystemSpaceID np 0 of Inl _ \<Rightarrow> [] | Inr dns \<Rightarrow>
      [any_rule\<lparr>Daddr := PrefixFrom dns 128, Protocol := IPPROTO_UDP, Port := DNSPort, Verdict := VerdictAccept\<rparr>,
       any_rule\<lparr>Daddr := PrefixFrom dns 128, Protocol := IPPROTO_TCP, Port := DNSPort, Verdict := VerdictAccept\<rparr>]) else []"
  let ?drop = "\<lambda>d. any_rule\<lparr>Daddr := d, Counter := True, Verdict := VerdictDrop\<rparr>"
  let ?ps = "filter (\<lambda>peer. peer \<noteq> NoAddr \<and> Is6 peer) (remdups_adj (sort_key addr_key peers))"
  let ?drops = "?drop (CIDR p) # map ?drop buildDenied6 @ map (\<lambda>peer. ?drop (PrefixFrom peer (BitLen peer))) ?ps"
  have rules: "buildEgressRules p True np peers True = ?dns @ ?drops" by (simp add: buildEgressRules_def)
  have acc: "accepts_only ?dns" by (cases "InboundAddr p SystemSpaceID np 0") (simp_all add: accepts_only_def)
  have dns: "(\<exists>r \<in> set ?dns. rule_matches fs r k) \<longleftrightarrow> build_dns p np k"
  proof (cases "InboundAddr p SystemSpaceID np 0")
    case (Inl e)
    then show ?thesis unfolding list_ex_iff [symmetric] by (simp add: build_dns_def)
  next
    case (Inr a)
    then obtain w where "a = Addr6 w []" using InboundAddr_Addr6 by blast
    moreover have "np_Bits (PrefixFrom (Addr6 w []) 128) \<noteq> None" by (simp add: PrefixFrom_def BitLen_def)
    ultimately show ?thesis using Inr
      unfolding list_ex_iff [symmetric]
      by (cases "np = 0") (auto simp add: daddr_rule_matches build_dns_def single_address IPPROTO_UDP_def IPPROTO_TCP_def DNSPort_def)
  qed
  have den: "\<exists>r \<in> set ?drops. rule_matches fs r k" if d: "build_denied p peers (pkt_Dst k)"
    using d unfolding build_denied_def
  proof (elim disjE)
    assume "NetContains (CIDR p) (pkt_Dst k)"
    then have "rule_matches fs (?drop (CIDR p)) k" by (simp add: daddr_rule_matches)
    then show ?thesis by (rule bexI) (rule list.set_intros(1))
  next
    assume "\<exists>d \<in> set buildDenied6. NetContains d (pkt_Dst k)"
    then obtain d where d: "d \<in> set buildDenied6" "NetContains d (pkt_Dst k)" by blast
    then have "?drop d \<in> set ?drops" by simp
    moreover have "rule_matches fs (?drop d) k" using d(2) by (simp add: daddr_rule_matches)
    ultimately show ?thesis by blast
  next
    assume a: "pkt_Dst k \<in> set peers \<and> Is6 (pkt_Dst k) \<and> Zone (pkt_Dst k) = []"
    then obtain w where w: "pkt_Dst k = Addr6 w []" by (cases "pkt_Dst k") (simp_all add: Is6_def Zone_def)
    with a have "Addr6 w [] \<in> set ?ps" by (simp add: Is6_def)
    then have "?drop (PrefixFrom (Addr6 w []) (BitLen (Addr6 w []))) \<in> set ?drops" by simp
    moreover have "rule_matches fs (?drop (PrefixFrom (Addr6 w []) (BitLen (Addr6 w [])))) k"
      using w single_address [of w "[]"] by (simp add: daddr_rule_matches BitLen_def)
    ultimately show ?thesis by blast
  qed
  have drops: "list_all (\<lambda>r. Verdict r = VerdictDrop \<and> DaddrVmap r = []) ?drops" by (simp add: list.pred_map comp_def list.pred_True)
  show ?thesis using den
    unfolding rules run_accepts_then [OF acc] run_drops [OF drops] dns by auto
qed

lemma single_address4: "NetContains (PrefixFrom (Addr4 w) 32) a \<longleftrightarrow> a = Addr4 w"
  by (cases a) (auto simp: NetContains_def PrefixFrom_def withoutZone_def BitLen_def)

lemma build_egress4_drops:
  assumes "(\<exists>d \<in> set buildDenied4. NetContains d (pkt_Dst k)) \<or> pkt_Dst k \<in> set peers \<and> Is4 (pkt_Dst k)"
  shows "run_chain enter vmap fs k (buildEgressRules p hasPrefix np peers False) = Some False"
proof -
  let ?drop = "\<lambda>d. any_rule\<lparr>Daddr := d, Counter := True, Verdict := VerdictDrop\<rparr>"
  let ?ps = "filter (\<lambda>peer. peer \<noteq> NoAddr \<and> \<not> Is6 peer) (remdups_adj (sort_key addr_key peers))"
  let ?drops = "map ?drop buildDenied4 @ map (\<lambda>peer. ?drop (PrefixFrom peer (BitLen peer))) ?ps"
  have rules: "buildEgressRules p hasPrefix np peers False = ?drops" by (simp add: buildEgressRules_def)
  have "\<exists>r \<in> set ?drops. rule_matches fs r k"
    using assms
  proof
    assume "\<exists>d \<in> set buildDenied4. NetContains d (pkt_Dst k)"
    then obtain d where d: "d \<in> set buildDenied4" "NetContains d (pkt_Dst k)" by blast
    then have "?drop d \<in> set ?drops" by simp
    moreover have "rule_matches fs (?drop d) k" using d(2) by (simp add: daddr_rule_matches)
    ultimately show ?thesis by blast
  next
    assume a: "pkt_Dst k \<in> set peers \<and> Is4 (pkt_Dst k)"
    then obtain w where w: "pkt_Dst k = Addr4 w" by (cases "pkt_Dst k") (simp_all add: Is4_def)
    with a have "Addr4 w \<in> set ?ps" by (simp add: Is6_def)
    then have "?drop (PrefixFrom (Addr4 w) (BitLen (Addr4 w))) \<in> set ?drops" by simp
    moreover have "rule_matches fs (?drop (PrefixFrom (Addr4 w) (BitLen (Addr4 w)))) k"
      using w single_address4 [of w] by (simp add: daddr_rule_matches BitLen_def)
    ultimately show ?thesis by blast
  qed
  moreover have "list_all (\<lambda>r. Verdict r = VerdictDrop \<and> DaddrVmap r = []) ?drops" by (simp add: list.pred_map comp_def list.pred_True)
  ultimately show ?thesis unfolding rules by (simp only: run_drops if_True)
qed

lemma src_pair4:
  assumes "nets_ok p nets" "cn \<in> set (attached nets)" "\<lparr>va_Veth = cn_HostVeth cn, va_Addr = a\<rparr> \<in> set (SrcOK4 (RenderFilterState p hasPrefix np nets rules peers))"
  shows "a = cn_V4 cn"
  using assms(3) inj_on_eq_iff [OF nets_okD(2) [OF assms(1)] assms(2)] by (auto simp: rendered_sets4)

text \<open>
  C24. A build container is confined, on both tables. A new IPv6 packet of it that the filter forwards comes
  from its own address, and if it goes to the cluster's prefix, to a link-local address or to the underlay
  address of another node, then it is a DNS query to netproxy; the jump into the egress chain cannot
  be bypassed by the workload dispatch that follows it. A new IPv4 packet that is forwarded comes from its own
  IPv4 address and goes neither to an address of another container, nor to a link-local or loopback address, nor to the
  underlay address of another node. Packets of established connections are forwarded before any of these rules.
\<close>

theorem build_egress_confined:
  assumes "nets_ok p nets" "cn \<in> set (attached nets)" "isBuildAttachment cn" "pkt_Iif k = cn_HostVeth cn" "\<not> pkt_Established k"
  shows "(forwards6 (RenderFilterState p True np nets rules peers) k \<longrightarrow>
      pkt_Src k \<in> own_addrs cn \<and> (build_denied p peers (pkt_Dst k) \<longrightarrow> build_dns p np k)) \<and>
    (forwards4 (RenderFilterState p hasPrefix np nets rules peers) k \<longrightarrow> pkt_Src k = cn_V4 cn \<and> \<not> build_denied4 peers (pkt_Dst k))"
proof (intro conjI impI)
  let ?st = "RenderFilterState p True np nets rules peers"
  have b: "pkt_Iif k \<in> set (Build6 ?st)" using assms(3,4) build_veth(1) [OF assms(1,2)] by (simp add: rendered_sets)
  have m: "pkt_Iif k \<in> set (Managed6 ?st)" using assms(2,4) by (simp add: rendered_sets)
  assume f: "forwards6 ?st k"
  show "pkt_Src k \<in> own_addrs cn"
    using assms(4,5) f m src_pair_iff [OF assms(1,2), of "pkt_Src k"] unfolding forwards6_steps rendered_sets(2) by simp
  show "build_dns p np k" if d: "build_denied p peers (pkt_Dst k)"
  proof (rule ccontr)
    assume "\<not> build_dns p np k"
    then have "enter6 ?st k NftChainBuildEgress = Some False"
      using build_egress_verdict [of "\<lambda>_. None" "\<lambda>_. None" "sets6 ?st" k p np peers] d by (simp add: enter6_def rendered_sets)
    with assms(5) f b show False unfolding forwards6_steps by simp
  qed
next
  let ?st = "RenderFilterState p hasPrefix np nets rules peers"
  assume f: "forwards4 ?st k"
  have m: "pkt_Iif k \<in> set (Managed4 ?st)" "pkt_Iif k \<in> set (Build4 ?st)" using assms(2-4) by (simp_all add: rendered_sets4)
  then have s: "\<not> NetContains V4CIDR (pkt_Dst k)" "\<lparr>va_Veth = pkt_Iif k, va_Addr = pkt_Src k\<rparr> \<in> set (SrcOK4 ?st)"
    and e: "enter4 ?st k NftChainBuildEgress \<noteq> Some False" using f assms(5) unfolding forwards4_steps by auto
  show "pkt_Src k = cn_V4 cn" using src_pair4 [OF assms(1,2)] s(2) assms(4) by simp
  show "\<not> build_denied4 peers (pkt_Dst k)"
    using s(1) e build_egress4_drops [of k peers "\<lambda>_. None" "\<lambda>_. None" "sets4 ?st" p hasPrefix np]
    unfolding build_denied4_def enter4_def rendered_sets4 by auto
qed

section \<open>A node with three attachments\<close>

definition sample_prefix :: Prefix where "sample_prefix = 0xfd0000000001"

definition sample_cn :: "32 word \<Rightarrow> 32 word \<Rightarrow> string \<Rightarrow> ContainerNet" where
  "sample_cn sp dep veth = \<lparr>cn_ContainerID = veth, cn_DeploymentID = dep, cn_HostVeth = veth,
     cn_InboundAddr = Addr6 (pack sample_prefix \<lparr>la_SpaceID = sp, la_DeploymentID = dep, la_Ordinal = 0, la_PlacementSlot = 0, la_RunSlot = 0\<rparr>) [],
     cn_OutboundAddr = Addr6 (pack sample_prefix \<lparr>la_SpaceID = sp, la_DeploymentID = dep, la_Ordinal = 0, la_PlacementSlot = 5, la_RunSlot = 1\<rparr>) [],
     cn_V4 = NoAddr, cn_HostV4 = NoAddr\<rparr>"

definition sample_nets :: "ContainerNet option list" where
  "sample_nets = [Some (sample_cn 0 MaxDeploymentID ''odb''), None, Some (sample_cn 3 7 ''od7''), Some (sample_cn 4 9 ''od9'')]"

lemma sample_cn_proj [simp]:
  "cn_DeploymentID (sample_cn sp dep veth) = dep" "cn_HostVeth (sample_cn sp dep veth) = veth"
  by (simp_all add: sample_cn_def)

lemma sample_attached:
  "attached sample_nets = [sample_cn 3 7 ''od7'', sample_cn 4 9 ''od9'', sample_cn 0 MaxDeploymentID ''odb'']"
  by (simp add: attached_def sample_nets_def less_char_def)

lemma sample_parses:
  assumes "in_range MaxSpaceID sp" "in_range MaxDeploymentID dep" "dep \<noteq> 0"
  shows "ParseAddr sample_prefix (cn_InboundAddr (sample_cn sp dep veth)) =
      Inr \<lparr>la_SpaceID = sp, la_DeploymentID = dep, la_Ordinal = 0, la_PlacementSlot = 0, la_RunSlot = 0\<rparr>"
    "ParseAddr sample_prefix (cn_OutboundAddr (sample_cn sp dep veth)) =
      Inr \<lparr>la_SpaceID = sp, la_DeploymentID = dep, la_Ordinal = 0, la_PlacementSlot = 5, la_RunSlot = 1\<rparr>"
  using assms unfolding ParseAddr_iff by (simp_all add: sample_cn_def fits_def in_range_def IsOutbound_def IsInbound_def)

lemma sample_identified:
  assumes "in_range MaxSpaceID sp" "in_range MaxDeploymentID dep" "dep \<noteq> 0"
  shows "identified sample_prefix (sample_cn sp dep veth)" "space_of sample_prefix (sample_cn sp dep veth) = sp"
  using sample_parses [OF assms]
  by (simp_all add: identified_def validateContainerAddressIdentity_def space_of_def IsOutbound_def IsInbound_def)

lemma sample_ids: "in_range MaxSpaceID 0" "in_range MaxSpaceID 3" "in_range MaxSpaceID 4" "in_range MaxDeploymentID 7"
  "in_range MaxDeploymentID 9" "in_range MaxDeploymentID MaxDeploymentID" "MaxDeploymentID \<noteq> 0" "MaxDeploymentID \<noteq> 7" "MaxDeploymentID \<noteq> 9"
  by (simp_all add: in_range_def)

lemma sample_nets_ok: "nets_ok sample_prefix sample_nets"
  using sample_ids by (simp add: nets_ok_def sample_attached sample_identified)

definition sample_rule :: PolicyRule where
  "sample_rule = \<lparr>pr_Source = \<lparr>peer_SpaceID = 3, peer_DeploymentID = 7\<rparr>, pr_Destination = \<lparr>peer_SpaceID = 4, peer_DeploymentID = 0\<rparr>,
     pr_Ports = [\<lparr>pm_Protocol = IPPROTO_TCP, pm_Port = 80, pm_PortEnd = 90\<rparr>]\<rparr>"

definition sample_packet :: "ContainerNet \<Rightarrow> ContainerNet \<Rightarrow> 16 word \<Rightarrow> Packet" where
  "sample_packet src dst port = \<lparr>pkt_Established = False, pkt_Iif = cn_HostVeth src, pkt_Oif = cn_HostVeth dst,
     pkt_Src = cn_OutboundAddr src, pkt_Dst = cn_InboundAddr dst, pkt_Proto = IPPROTO_TCP, pkt_Port = port\<rparr>"

text \<open>Deployment 7 moves from space 3 to space 4: both placements are attached.\<close>

definition moving_nets :: "ContainerNet option list" where
  "moving_nets = [Some (sample_cn 3 7 ''od7''), Some (sample_cn 4 7 ''od8''), Some (sample_cn 3 9 ''od9'')]"

lemma moving_attached: "attached moving_nets = [sample_cn 3 7 ''od7'', sample_cn 4 7 ''od8'', sample_cn 3 9 ''od9'']"
  by (simp add: attached_def moving_nets_def less_char_def)

lemma moving_nets_ok: "nets_ok sample_prefix moving_nets" "chain_space sample_prefix moving_nets 7 = 4"
  using sample_ids by (simp_all add: nets_ok_def chain_space_def moving_attached sample_identified)

text \<open>Between two spaces only the ports of the override rule are open, and only in its direction. During the move the
  placement that is still in space 3 is not reached from its own space.\<close>

theorem filter_enforces_policy_witness:
  "forwards6 (RenderFilterState sample_prefix True 2 sample_nets [sample_rule] []) (sample_packet (sample_cn 3 7 ''od7'') (sample_cn 4 9 ''od9'') 85) \<and>
   \<not> forwards6 (RenderFilterState sample_prefix True 2 sample_nets [sample_rule] []) (sample_packet (sample_cn 3 7 ''od7'') (sample_cn 4 9 ''od9'') 91) \<and>
   \<not> forwards6 (RenderFilterState sample_prefix True 2 sample_nets [sample_rule] []) (sample_packet (sample_cn 4 9 ''od9'') (sample_cn 3 7 ''od7'') 85) \<and>
   \<not> forwards6 (RenderFilterState sample_prefix True 2 moving_nets [] []) (sample_packet (sample_cn 3 9 ''od9'') (sample_cn 3 7 ''od7'') 80)"
proof -
  let ?a = "sample_cn 3 7 ''od7''" and ?b = "sample_cn 4 9 ''od9''"
  let ?l = "\<lambda>sp dep. \<lparr>la_SpaceID = sp, la_DeploymentID = dep, la_Ordinal = 0, la_PlacementSlot = 5, la_RunSlot = 1\<rparr> :: LogicalAddr"
  have g: "genuine sample_nets (sample_packet ?a d n)" "genuine sample_nets (sample_packet ?b d n)" for d n
    using sample_ids by (simp_all add: genuine_def sample_attached sample_packet_def isBuildAttachment_def BuildDeploymentID_def)
  have pa: "ParseAddr sample_prefix (pkt_Src (sample_packet ?a d n)) = Inr (?l 3 7)"
    "ParseAddr sample_prefix (pkt_Src (sample_packet ?b d n)) = Inr (?l 4 9)" for d n
    using sample_parses(2) sample_ids by (simp_all add: sample_packet_def)
  note reach = filter_enforces_policy [OF sample_nets_ok, where np = 2 and rules = "[sample_rule]" and peers = "[]"]
  have sp: "chain_space sample_prefix sample_nets 9 = 4" "chain_space sample_prefix sample_nets 7 = 3"
    using sample_ids by (simp_all add: chain_space_def sample_attached sample_identified)
  have "forwards6 (RenderFilterState sample_prefix True 2 sample_nets [sample_rule] []) (sample_packet ?a ?b n) \<longleftrightarrow> 80 \<le> n \<and> n \<le> 90" for n
    using reach [OF _ _ _ _ _ pa(1) g(1), where cn = ?b] sample_ids
    by (simp add: sp sample_attached sample_packet_def own_addrs_def isBuildAttachment_def BuildDeploymentID_def sample_identified
        may_reach_def sample_rule_def peer_matches_def port_allowed_def GlobalSpaceID_def SystemSpaceID_def IPPROTO_TCP_def)
  moreover have "\<not> forwards6 (RenderFilterState sample_prefix True 2 sample_nets [sample_rule] []) (sample_packet ?b ?a n)" for n
    using reach [OF _ _ _ _ _ pa(2) g(2), where cn = ?a] sample_ids
    by (simp add: sp sample_attached sample_packet_def own_addrs_def isBuildAttachment_def BuildDeploymentID_def sample_identified
        may_reach_def sample_rule_def GlobalSpaceID_def SystemSpaceID_def)
  moreover have "\<not> forwards6 (RenderFilterState sample_prefix True 2 moving_nets [] []) (sample_packet (sample_cn 3 9 ''od9'') ?a 80)"
  proof -
    let ?k = "sample_packet (sample_cn 3 9 ''od9'') ?a 80"
    have "genuine moving_nets ?k" using sample_ids by (simp add: genuine_def moving_attached sample_packet_def isBuildAttachment_def BuildDeploymentID_def)
    moreover have "ParseAddr sample_prefix (pkt_Src ?k) = Inr (?l 3 9)" using sample_parses(2) sample_ids by (simp add: sample_packet_def)
    ultimately have "forwards6 (RenderFilterState sample_prefix True 2 moving_nets [] []) ?k \<longleftrightarrow> may_reach 2 [] 7 4 (?l 3 9) ?k"
      using filter_enforces_policy [OF moving_nets_ok(1), of ?a ?k "?l 3 9" 2 "[]" "[]"] moving_nets_ok(2) sample_ids
      by (simp add: moving_attached sample_packet_def own_addrs_def isBuildAttachment_def BuildDeploymentID_def)
    then show ?thesis by (simp add: may_reach_def GlobalSpaceID_def SystemSpaceID_def)
  qed
  ultimately show ?thesis by simp
qed


theorem build_egress_confined_witness:
  "\<not> forwards6 (RenderFilterState sample_prefix True 2 sample_nets [] []) (sample_packet (sample_cn 0 MaxDeploymentID ''odb'') (sample_cn 3 7 ''od7'') 80) \<and>
   \<not> forwards4 (RenderFilterState sample_prefix True 2 sample_nets [] [])
     ((sample_packet (sample_cn 0 MaxDeploymentID ''odb'') (sample_cn 3 7 ''od7'') 80)\<lparr>pkt_Dst := Addr4 0xa9fea9fe\<rparr>)"
proof -
  let ?cn = "sample_cn 0 MaxDeploymentID ''odb''" let ?k = "sample_packet ?cn (sample_cn 3 7 ''od7'') 80"
  note c = build_egress_confined [OF sample_nets_ok, of ?cn, where np = 2 and rules = "[]" and peers = "[]" and hasPrefix = True]
  have k: "?cn \<in> set (attached sample_nets)" "isBuildAttachment ?cn" "pkt_Iif ?k = cn_HostVeth ?cn" "\<not> pkt_Established ?k"
    by (simp_all add: sample_attached sample_packet_def isBuildAttachment_def BuildDeploymentID_def)
  have "NetContains (CIDR sample_prefix) (pkt_Dst ?k)"
    using sample_ids by (simp add: sample_packet_def sample_cn_def fits_def pack_prefix in_range_def)
  then have "build_denied sample_prefix [] (pkt_Dst ?k)" "\<not> build_dns sample_prefix 2 ?k"
    by (simp_all add: build_denied_def build_dns_def sample_packet_def DNSPort_def)
  then have "\<not> forwards6 (RenderFilterState sample_prefix True 2 sample_nets [] []) ?k" using c [OF k] by blast
  moreover have "NetContains (PrefixFrom (Addr4 0xa9fe0000) 16) (Addr4 0xa9fea9fe)" by code_simp
  then have "build_denied4 [] (Addr4 0xa9fea9fe)" by (simp add: build_denied4_def buildDenied4_def)
  then have "\<not> forwards4 (RenderFilterState sample_prefix True 2 sample_nets [] []) (?k\<lparr>pkt_Dst := Addr4 0xa9fea9fe\<rparr>)"
    using c [of "?k\<lparr>pkt_Dst := Addr4 0xa9fea9fe\<rparr>"] k by simp
  ultimately show ?thesis by blast
qed

section \<open>References of the rendered state\<close>

lemma put_dispatch_chains:
  "snd ` set (fold put_dispatch ws []) \<subseteq> dstChainName ` cn_DeploymentID ` set ws"
proof -
  have "c \<in> dstChainName ` cn_DeploymentID ` set ws" if "(a, c) \<in> set (fold put_dispatch ws [])" for a c
  proof -
    have "map_of (fold put_dispatch ws []) a = Some c"
      using that put_dispatch_keys [of "[]" ws] by (simp add: map_of_eq_Some_iff)
    then show ?thesis unfolding put_dispatch_lookup by (auto split: option.splits simp: find_Some_iff) (metis imageI length_rev nth_mem set_rev)
  qed
  then show ?thesis by force
qed

lemma put_space_deployments:
  "fst ` set (fold (put_space p) ws []) = cn_DeploymentID ` set ws"
  by (induction ws rule: rev_induct) (auto simp: put_space_def dom_update)

text \<open>
  C25. The rendered state is well formed for the kernel, for any attachments and policy: the keys of
  the dispatch map are distinct, the destination chains have distinct names, none of them the name
  of the build chain, every element of the dispatch map jumps to a rendered chain, and every veth in the blocked set
  and in the build sets and source pairs of both families is managed, which is exactly the veths of the attachments.
\<close>

theorem rendered_state_well_formed:
  fixes p hasPrefix np nets rules peers
  defines "st \<equiv> RenderFilterState p hasPrefix np nets rules peers"
  shows "distinct (map de_Addr (Dispatch st)) \<and> distinct (map chain_Name (DstChains st)) \<and>
    NftChainBuildEgress \<notin> chain_Name ` set (DstChains st) \<and>
    de_Chain ` set (Dispatch st) \<subseteq> chain_Name ` set (DstChains st) \<and>
    set (BlockedOut st) \<union> set (Build6 st) \<union> va_Veth ` set (SrcOK6 st) \<subseteq> set (Managed6 st) \<and>
    set (Build4 st) \<union> va_Veth ` set (SrcOK4 st) \<subseteq> set (Managed4 st) \<and>
    Managed4 st = map cn_HostVeth (attached nets) \<and> Managed6 st = (if hasPrefix then Managed4 st else [])"
proof (cases hasPrefix)
  case True
  have 5: "set (Build4 st) \<union> va_Veth ` set (SrcOK4 st) \<subseteq> set (Managed4 st)" "Managed4 st = map cn_HostVeth (attached nets)" "Managed6 st = Managed4 st"
    using True by (auto simp: st_def rendered_sets4 rendered_sets)
  let ?ws = "filter (workload p) (attached nets)"
  let ?d = "fold put_dispatch ?ws []" and ?s = "fold (put_space p) ?ws []"
  have D: "Dispatch st = map (\<lambda>(a, c). \<lparr>de_Addr = a, de_Chain = c\<rparr>) (sort_key (\<lambda>(a, _). addr_key a) ?d)"
    and S: "DstChains st = map (dst_chain p np rules) (sort_key (\<lambda>(d, _). sint d) ?s)"
    using True by (simp_all add: st_def RenderFilterState_def Let_def split_beta attachments_proj)
  have inj: "inj dstChainName" by (rule injI) simp
  have keys: "distinct (map fst (sort_key (\<lambda>(a, _). addr_key a) ?d))" "distinct (map fst (sort_key (\<lambda>(d, _). sint d) ?s))"
    using put_dispatch_keys [of "[]" ?ws] put_space_keys [of "[]" p ?ws] by (simp_all add: distinct_map)
  have "map de_Addr (Dispatch st) = map fst (sort_key (\<lambda>(a, _). addr_key a) ?d)"
    unfolding D by (simp add: split_beta comp_def)
  with keys(1) have 1: "distinct (map de_Addr (Dispatch st))" by simp
  have names: "map chain_Name (DstChains st) = map dstChainName (map fst (sort_key (\<lambda>(d, _). sint d) ?s))"
    unfolding S by (simp add: split_beta comp_def dst_chain_def)
  with keys(2) have 2: "distinct (map chain_Name (DstChains st))" by (simp only: distinct_map [of dstChainName] inj_on_subset [OF inj subset_UNIV])
  have chains: "chain_Name ` set (DstChains st) = dstChainName ` cn_DeploymentID ` set ?ws"
    using arg_cong [OF names, of set] unfolding put_space_deployments [of p ?ws, symmetric] by (simp add: image_image)
  then have 3: "NftChainBuildEgress \<notin> chain_Name ` set (DstChains st)" using dstChainName_build by (simp add: image_iff eq_commute)
  have "de_Chain ` set (Dispatch st) = snd ` set ?d" unfolding D by (simp add: image_image split_beta)
  then have 4: "de_Chain ` set (Dispatch st) \<subseteq> chain_Name ` set (DstChains st)" using put_dispatch_chains [of ?ws] chains by simp
  have pair: "va_Veth ` set (src_pairs p cn) \<subseteq> {cn_HostVeth cn}" for cn by (cases "ParseAddr p (cn_InboundAddr cn)") (simp_all add: src_pairs_def)
  have pairs: "va_Veth ` set (concat (map (src_pairs p) xs)) \<subseteq> cn_HostVeth ` set xs" for xs
    by (induction xs) (use pair in \<open>simp_all add: image_Un, blast\<close>)
  have "set (BlockedOut st) \<union> set (Build6 st) \<union> va_Veth ` set (SrcOK6 st) \<subseteq> set (Managed6 st)"
    unfolding st_def eqTrueI [OF True] rendered_sets set_map by (intro Un_least image_mono filter_is_subset pairs)
  with 1 2 3 4 5 True show ?thesis by simp
qed (auto simp: st_def RenderFilterState_def Let_def)

end
