(* ===== verification/Ingress_Plan.thy ===== *)
theory Ingress_Plan
  imports Api Net_Filter
begin

text \<open>
  Ingress planning: \<open>backend/lib/ingressplan/ingressplan.go\<close> decides which listen claims of the
  deployments collide and expands the accepted ones into what each node publishes. The wire
  addresses of \<open>apigen/address_ext.go\<close> come first. A Go map of sets is the list of its pairs, and a
  diagnostic carries the message the code formats.
\<close>

section \<open>Wire addresses\<close>

definition IpAddress_Addr :: "IpAddress \<Rightarrow> Addr" where
  "IpAddress_Addr a = (case a of
     None \<Rightarrow> NoAddr
   | Some (Ipv4 octets) \<Rightarrow> if length octets = 4 then Addr4 (word_rcat octets) else NoAddr
   | Some (Ipv6 octets) \<Rightarrow> if length octets = 16 then Addr6 (word_rcat octets) [] else NoAddr)"

text \<open>\<open>Addr.Prefix\<close> of \<open>net/netip\<close>: the masked prefix, or an error when the length does not fit.\<close>

definition addr_prefix :: "Addr \<Rightarrow> nat \<Rightarrow> NetPrefix" where
  "addr_prefix a n = (if n \<le> BitLen a then Masked (PrefixFrom a n) else no_prefix)"

definition IpPrefix_Prefix :: "IpPrefix \<Rightarrow> NetPrefix" where
  "IpPrefix_Prefix p = (case p of
     None \<Rightarrow> no_prefix
   | Some v \<Rightarrow> (case IpAddress_Addr (Some (pfx_Address v)) of
       NoAddr \<Rightarrow> no_prefix
     | a \<Rightarrow> addr_prefix a (pfx_Length v)))"

section \<open>Inputs and results\<close>

definition INGRESS_KIND_TLS_PASSTHROUGH :: int where "INGRESS_KIND_TLS_PASSTHROUGH = 1"
definition INGRESS_KIND_HTTPS :: int where "INGRESS_KIND_HTTPS = 2"
definition NETWORKING_MODE_VIRTUAL :: int where "NETWORKING_MODE_VIRTUAL = 1"
definition NETWORKING_MODE_HOST :: int where "NETWORKING_MODE_HOST = 2"
definition PORT_FORWARD_PROTOCOL_TCP :: int where "PORT_FORWARD_PROTOCOL_TCP = 1"

definition DefaultHTTPSPort :: nat where "DefaultHTTPSPort = 443"
definition HTTPSRedirectPort :: nat where "HTTPSRedirectPort = 80"

record Route =
  ro_Kind :: int
  ro_Hostname :: string
  ro_HostPort :: nat
  ro_PathPrefix :: string
  ro_CertSource :: string
  ro_Listen :: "IngressListen list"

record PlanDeployment =
  pd_ID :: nat
  pd_NodeID :: nat
  pd_Name :: string
  pd_HostMode :: bool
  pd_Routes :: "Route list"
  pd_TCPPorts :: "nat list"

record PlanNode =
  pn_ID :: nat
  pn_HostAddresses :: "Addr list"

record Reservation =
  rv_NodeID :: nat
  rv_Address :: Addr
  rv_Port :: nat
  rv_Name :: string

record PlanInputs =
  pi_Deployments :: "PlanDeployment list"
  pi_Nodes :: "PlanNode list"
  pi_Reservations :: "Reservation list"
  pi_Candidate :: nat
  pi_Reachable :: "(nat \<Rightarrow> nat list) option"

record PlanPublish =
  pub_Address :: Addr
  pub_Port :: nat

record Diagnostic =
  dg_DeploymentID :: nat
  dg_Message :: string

record PlanResult =
  res_Publish :: "nat \<Rightarrow> PlanPublish list"
  res_PublishedDeployments :: "nat \<Rightarrow> nat list"
  res_Errors :: "Diagnostic list"
  res_Warnings :: "Diagnostic list"
  res_Excluded :: "Diagnostic list"

type_synonym addrSet = NetPrefix

record claim =
  cl_Deployment :: PlanDeployment
  cl_Route :: Route
  cl_NodeID :: nat
  cl_Set :: addrSet
  cl_Port :: nat

section \<open>Address sets\<close>

text \<open>The zero prefix is every address.\<close>

definition setOf :: "NetPrefix \<Rightarrow> addrSet" where
  "setOf p = Masked p"

definition whole :: "addrSet \<Rightarrow> bool" where
  "whole s \<longleftrightarrow> np_Bits s = None"

definition literal_set :: "addrSet \<Rightarrow> bool" where
  "literal_set s \<longleftrightarrow> np_Bits s \<noteq> None \<and> np_Bits s = Some (BitLen (np_Addr s))"

definition intersects :: "addrSet \<Rightarrow> addrSet \<Rightarrow> bool" where
  "intersects s o' \<longleftrightarrow> whole s \<or> whole o' \<or> NetContains s (np_Addr o') \<or> NetContains o' (np_Addr s)"

definition set_text :: "addrSet \<Rightarrow> string" where
  "set_text s =
    (if whole s then ''every address''
     else if np_Bits s = Some 0 \<and> Is4 (np_Addr s) then ''every IPv4 address''
     else if np_Bits s = Some 0 then ''every IPv6 address''
     else if literal_set s then ''address '' @ addr_text (np_Addr s)
     else ''addresses in '' @ prefix_text s)"

definition expand_set :: "addrSet \<Rightarrow> Addr list \<Rightarrow> Addr list" where
  "expand_set s inventory =
    (if inventory = [] then
       (if whole s \<or> np_Bits s = Some 0 then [NoAddr] else if literal_set s then [np_Addr s] else [])
     else filter (\<lambda>a. whole s \<or> NetContains s a) inventory)"

definition reservationSet :: "Reservation \<Rightarrow> addrSet" where
  "reservationSet r = (if rv_Address r = NoAddr then no_prefix else PrefixFrom (rv_Address r) (BitLen (rv_Address r)))"

section \<open>Claims\<close>

definition RoutePorts :: "Route \<Rightarrow> nat list" where
  "RoutePorts route =
    (if ro_Kind route = INGRESS_KIND_HTTPS then [DefaultHTTPSPort, HTTPSRedirectPort]
     else if ro_HostPort route = 0 then [DefaultHTTPSPort] else [ro_HostPort route])"

definition routePrefix :: "Route \<Rightarrow> string" where
  "routePrefix route = (if ro_Kind route = INGRESS_KIND_HTTPS then ro_PathPrefix route else [])"

definition selectorSets :: "IpPrefix list \<Rightarrow> addrSet list" where
  "selectorSets addresses = (if addresses = [] then [no_prefix] else map (\<lambda>entry. setOf (IpPrefix_Prefix entry)) addresses)"

text \<open>The nodes of one selector: the scheduled node by default, the reachable nodes for any node or a
  named one; unknown nodes are skipped.\<close>

definition selector_nodes :: "PlanDeployment \<Rightarrow> nat list \<Rightarrow> (nat \<Rightarrow> nat list) option \<Rightarrow> IngressListen \<Rightarrow> nat list" where
  "selector_nodes dep known reachable selector =
    (let scheduled = [pd_NodeID dep];
         reach = (case reachable of None \<Rightarrow> scheduled | Some f \<Rightarrow> f (pd_NodeID dep))
     in filter (\<lambda>n. n \<in> set known)
       (case il_Node selector of
          Some (Some AnyNode) \<Rightarrow> reach
        | Some (Some (SpecificNode named)) \<Rightarrow> filter (\<lambda>n. n = named) reach
        | _ \<Rightarrow> scheduled))"

text \<open>The loop of \<open>expand\<close> over one selector: a node and a set seen before claim nothing again.\<close>

fun expand_keys :: "(nat \<times> addrSet) list \<Rightarrow> (nat \<times> addrSet) list \<Rightarrow> (nat \<times> addrSet) list" where
  "expand_keys seen [] = []"
| "expand_keys seen (k # ks) = (if k \<in> set seen then expand_keys seen ks else k # expand_keys (k # seen) ks)"

definition expand :: "PlanDeployment \<Rightarrow> Route \<Rightarrow> nat list \<Rightarrow> (nat \<Rightarrow> nat list) option \<Rightarrow> claim list" where
  "expand dep route known reachable =
    (let selectors = (if ro_Listen route = [] then [\<lparr>il_Node = None, il_Addresses = []\<rparr>] else ro_Listen route);
         keys = concat (map (\<lambda>selector. concat (map (\<lambda>nodeID. map (\<lambda>s. (nodeID, s)) (selectorSets (il_Addresses selector)))
                  (selector_nodes dep known reachable selector))) selectors)
     in concat (map (\<lambda>(nodeID, s). map (\<lambda>port. \<lparr>cl_Deployment = dep, cl_Route = route, cl_NodeID = nodeID, cl_Set = s, cl_Port = port\<rparr>) (RoutePorts route))
          (expand_keys [] keys)))"

definition matchReservation :: "Reservation list \<Rightarrow> claim \<Rightarrow> Reservation option" where
  "matchReservation reservations c =
    find (\<lambda>r. rv_NodeID r = cl_NodeID c \<and> rv_Port r = cl_Port c \<and> intersects (reservationSet r) (cl_Set c)) reservations"

function nat_text :: "nat \<Rightarrow> string" where
  "nat_text n = (if n < 10 then [digit (int n)] else nat_text (n div 10) @ [digit (int (n mod 10))])"
  by auto
termination by (relation "measure id") auto

declare nat_text.simps [simp del]

text \<open>The first collision of a claim with the accepted claims of its node and port, by the three
  loops of \<open>resolveClaim\<close>; \<open>None\<close> accepts.\<close>

definition same_route_taken :: "claim \<Rightarrow> claim \<Rightarrow> bool" where
  "same_route_taken c other \<longleftrightarrow> pd_ID (cl_Deployment other) \<noteq> pd_ID (cl_Deployment c) \<and> ro_Kind (cl_Route other) = ro_Kind (cl_Route c) \<and>
     routePrefix (cl_Route other) = routePrefix (cl_Route c)"

definition mixed_kinds :: "claim \<Rightarrow> claim \<Rightarrow> bool" where
  "mixed_kinds c other \<longleftrightarrow> pd_ID (cl_Deployment other) \<noteq> pd_ID (cl_Deployment c) \<and> ro_Kind (cl_Route other) \<noteq> ro_Kind (cl_Route c)"

definition cert_differs :: "claim \<Rightarrow> claim \<Rightarrow> bool" where
  "cert_differs c other \<longleftrightarrow> ro_Kind (cl_Route c) = INGRESS_KIND_HTTPS \<and> ro_Kind (cl_Route other) = ro_Kind (cl_Route c) \<and>
     ro_CertSource (cl_Route other) \<noteq> ro_CertSource (cl_Route c)"

definition resolveClaim :: "claim list \<Rightarrow> claim \<Rightarrow> string option" where
  "resolveClaim accepted c =
    (let overlapping = filter (\<lambda>other. ro_Hostname (cl_Route other) = ro_Hostname (cl_Route c) \<and> intersects (cl_Set other) (cl_Set c)) accepted
     in if list_ex (same_route_taken c) overlapping then
          (if ro_Kind (cl_Route c) = INGRESS_KIND_HTTPS then
             Some (''HTTPS route '' @ ro_Hostname (cl_Route c) @ ro_PathPrefix (cl_Route c) @ '' is already claimed by another deployment on this node'')
           else Some (ro_Hostname (cl_Route c) @ '' on host port '' @ nat_text (cl_Port c) @ '' is already claimed by another deployment on this node''))
        else if list_ex (mixed_kinds c) overlapping then
          Some (ro_Hostname (cl_Route c) @ '' cannot use both HTTPS and TLS_PASSTHROUGH on host port '' @ nat_text (cl_Port c) @ '' on this node'')
        else if list_ex (cert_differs c) overlapping then
          Some (''certSource for '' @ ro_Hostname (cl_Route c) @ '' must match across all HTTPS routes on this node'')
        else None)"

section \<open>Evaluation\<close>

text \<open>\<open>es_Accepted\<close> keeps the accepted claims in order, \<open>accepted[key]\<close> being those of a node and
  port; \<open>es_Publish\<close> and \<open>es_Published\<close> are the pairs of the two maps of sets.\<close>

record eval_state =
  es_Errors :: "Diagnostic list"
  es_Warnings :: "Diagnostic list"
  es_Excluded :: "Diagnostic list"
  es_Accepted :: "claim list"
  es_Publish :: "(nat \<times> PlanPublish) list"
  es_Published :: "(nat \<times> nat) list"
  es_Warned :: "(nat \<times> nat) list"

definition sorted_deployments :: "PlanInputs \<Rightarrow> PlanDeployment list" where
  "sorted_deployments inp = sort_key pd_ID (pi_Deployments inp)"

definition hostModeByNode :: "PlanDeployment list \<Rightarrow> nat \<Rightarrow> string list" where
  "hostModeByNode deployments nodeID = map pd_Name (filter (\<lambda>dep. pd_HostMode dep \<and> pd_NodeID dep = nodeID) deployments)"

definition tcpPorts :: "PlanDeployment list \<Rightarrow> (nat \<times> nat) list" where
  "tcpPorts deployments = concat (map (\<lambda>dep. if pd_HostMode dep then [] else map (\<lambda>port. (pd_NodeID dep, port)) (pd_TCPPorts dep)) deployments)"

text \<open>The addresses of a node: the last entry of the input wins, as in the map the code builds.\<close>

definition inventory :: "PlanNode list \<Rightarrow> nat \<Rightarrow> Addr list" where
  "inventory nodes nodeID = (case find (\<lambda>n. pn_ID n = nodeID) (rev nodes) of None \<Rightarrow> [] | Some n \<Rightarrow> pn_HostAddresses n)"

definition warn_host_mode :: "PlanDeployment list \<Rightarrow> claim \<Rightarrow> Addr list \<Rightarrow> eval_state \<Rightarrow> eval_state" where
  "warn_host_mode deployments c addresses st =
    (let names = hostModeByNode deployments (cl_NodeID c); dep = pd_ID (cl_Deployment c); key = (dep, cl_NodeID c)
     in if \<not> literal_set (cl_Set c) \<and> addresses \<noteq> [] \<and> names \<noteq> [] \<and> key \<notin> set (es_Warned st) then
          st\<lparr>es_Warned := key # es_Warned st,
             es_Warnings := es_Warnings st @ [\<lparr>dg_DeploymentID = dep, dg_Message = ''ingress is published on every address of node '' @ nat_text (cl_NodeID c) @
               '', where host-mode deployment(s) '' @ joined '', '' names @ '' may bind the same ports''\<rparr>]\<rparr>
        else st)"

definition eval_claim :: "PlanInputs \<Rightarrow> claim \<Rightarrow> eval_state \<Rightarrow> eval_state" where
  "eval_claim inp c st =
    (let deployments = sorted_deployments inp; dep = pd_ID (cl_Deployment c);
         place = '' on node '' @ nat_text (cl_NodeID c) @ '' port '' @ nat_text (cl_Port c) @ '' ('' @ set_text (cl_Set c) @ '')''
     in case matchReservation (pi_Reservations inp) c of
       Some reserved \<Rightarrow>
         if pi_Candidate inp \<noteq> 0 \<and> dep = pi_Candidate inp then
           st\<lparr>es_Errors := es_Errors st @ [\<lparr>dg_DeploymentID = dep, dg_Message =
             ''networking.ingress: '' @ ro_Hostname (cl_Route c) @ place @ '' is reserved by the '' @ rv_Name reserved\<rparr>]\<rparr>
         else st\<lparr>es_Excluded := es_Excluded st @ [\<lparr>dg_DeploymentID = dep, dg_Message =
             ro_Hostname (cl_Route c) @ '' is not published'' @ place @ '': reserved by the '' @ rv_Name reserved\<rparr>]\<rparr>
     | None \<Rightarrow>
         if (cl_NodeID c, cl_Port c) \<in> set (tcpPorts deployments) then
           st\<lparr>es_Errors := es_Errors st @ [\<lparr>dg_DeploymentID = pi_Candidate inp, dg_Message =
             ''networking: TCP host port '' @ nat_text (cl_Port c) @ '' conflicts with ingress on this node''\<rparr>]\<rparr>
         else (case resolveClaim (filter (\<lambda>o'. cl_NodeID o' = cl_NodeID c \<and> cl_Port o' = cl_Port c) (es_Accepted st)) c of
             Some message \<Rightarrow> st\<lparr>es_Errors := es_Errors st @ [\<lparr>dg_DeploymentID = pi_Candidate inp, dg_Message = ''networking.ingress: '' @ message\<rparr>]\<rparr>
           | None \<Rightarrow>
               let addresses = expand_set (cl_Set c) (inventory (pi_Nodes inp) (cl_NodeID c));
                   st1 = st\<lparr>es_Accepted := es_Accepted st @ [c],
                     es_Publish := fold (\<lambda>a. List.insert (cl_NodeID c, \<lparr>pub_Address = a, pub_Port = cl_Port c\<rparr>)) addresses (es_Publish st),
                     es_Published := fold (\<lambda>_. List.insert (cl_NodeID c, dep)) addresses (es_Published st)\<rparr>
               in warn_host_mode deployments c addresses st1))"

definition plan_claims :: "PlanInputs \<Rightarrow> claim list" where
  "plan_claims inp = concat (map (\<lambda>dep. if pd_HostMode dep then [] else
      concat (map (\<lambda>route. expand dep route (map pn_ID (pi_Nodes inp)) (pi_Reachable inp)) (pd_Routes dep))) (sorted_deployments inp))"

definition run_plan :: "PlanInputs \<Rightarrow> eval_state" where
  "run_plan inp = fold (eval_claim inp) (plan_claims inp)
     \<lparr>es_Errors = [], es_Warnings = [], es_Excluded = [], es_Accepted = [], es_Publish = [], es_Published = [], es_Warned = []\<rparr>"

text \<open>\<open>dedupe\<close> keeps the first of equal diagnostics.\<close>

fun dedupe :: "Diagnostic list \<Rightarrow> Diagnostic list \<Rightarrow> Diagnostic list" where
  "dedupe seen [] = []"
| "dedupe seen (d # ds) = (if d \<in> set seen then dedupe seen ds else d # dedupe (d # seen) ds)"

definition Evaluate :: "PlanInputs \<Rightarrow> PlanResult" where
  "Evaluate inp =
    (let st = run_plan inp in
     \<lparr>res_Publish = (\<lambda>nodeID. sort_key (\<lambda>e. (pub_Port e, addr_key (pub_Address e))) (map snd (filter (\<lambda>(n, _). n = nodeID) (es_Publish st)))),
      res_PublishedDeployments = (\<lambda>nodeID. sort (map snd (filter (\<lambda>(n, _). n = nodeID) (es_Published st)))),
      res_Errors = dedupe [] (es_Errors st), res_Warnings = dedupe [] (es_Warnings st), res_Excluded = dedupe [] (es_Excluded st)\<rparr>)"

definition FirstError :: "PlanResult \<Rightarrow> string option" where
  "FirstError r = (case res_Errors r of [] \<Rightarrow> None | d # _ \<Rightarrow> Some (dg_Message d))"

definition Diagnostics :: "PlanResult \<Rightarrow> Diagnostic list" where
  "Diagnostics r = sort_key (\<lambda>d. (dg_DeploymentID d, dg_Message d)) (res_Excluded r @ res_Warnings r)"

section \<open>The deployments of a plan\<close>

definition CertSourceClaim :: "CertSource option option \<Rightarrow> string" where
  "CertSourceClaim source = (case source of
     Some (Some (SecretCertSource r)) \<Rightarrow> ''secret:'' @ nat_text (vref_ID r) @ ''@'' @ nat_text (vref_Version r)
   | _ \<Rightarrow> ''acme'')"

definition route_of_ingress :: "Ingress \<Rightarrow> Route list" where
  "route_of_ingress route = (case in_Config route of
     Some (TlsPassthrough t) \<Rightarrow> [\<lparr>ro_Kind = INGRESS_KIND_TLS_PASSTHROUGH, ro_Hostname = in_Hostname route, ro_HostPort = Value (tp_HostPort t),
         ro_PathPrefix = [], ro_CertSource = [], ro_Listen = in_Listen route\<rparr>]
   | Some (Https h) \<Rightarrow> [\<lparr>ro_Kind = INGRESS_KIND_HTTPS, ro_Hostname = in_Hostname route, ro_HostPort = 0,
         ro_PathPrefix = hc_PathPrefix h, ro_CertSource = CertSourceClaim (hc_CertSource h), ro_Listen = in_Listen route\<rparr>]
   | None \<Rightarrow> [])"

definition DeploymentFromSpec :: "nat \<Rightarrow> nat \<Rightarrow> string \<Rightarrow> DeploymentSpec \<Rightarrow> PlanDeployment" where
  "DeploymentFromSpec ID nodeID name spec =
    (let net = ds_Networking spec; virtual = (nc_Mode net = NETWORKING_MODE_VIRTUAL) in
     \<lparr>pd_ID = ID, pd_NodeID = nodeID, pd_Name = name,
      pd_HostMode = (\<not> virtual \<and> nc_Mode net = NETWORKING_MODE_HOST),
      pd_Routes = (if virtual then concat (map route_of_ingress (nc_Ingress net)) else []),
      pd_TCPPorts = (if virtual then map pf_HostPort (filter (\<lambda>pf. pf_Protocol pf = PORT_FORWARD_PROTOCOL_TCP) (nc_PortForwarding net)) else [])\<rparr>)"

definition HostAddresses :: "IpAddress list \<Rightarrow> Addr list" where
  "HostAddresses values = map IpAddress_Addr values"

end
