(* ===== verification/Net_Text.thy ===== *)
theory Net_Text
  imports Ingress_Plan
begin

text \<open>
  The textual side of the network: \<open>netip.ParseAddr\<close> of the standard library, the names of
  \<open>backend/lib/network/names.go\<close>, the IPv4 pairs of \<open>v4.go\<close> and the listener reservations of
  \<open>ingressplan.go\<close>. Strings are bytes in UTF-8; letter case is that of ASCII, and the names are checked to be
  ASCII after it is changed.
\<close>

section \<open>Strings\<close>

text \<open>\<open>strings.TrimSpace\<close> removes the white space of \<open>unicode.IsSpace\<close>, here as the bytes of each rune. A rune is
  recognised by its bytes from either end, since no byte of another rune continues or begins it.\<close>

definition space_runes :: "string list" where
  "space_runes = [[CHR 0x09], [CHR 0x0A], [CHR 0x0B], [CHR 0x0C], [CHR 0x0D], '' '', [CHR 0xC2, CHR 0x85], [CHR 0xC2, CHR 0xA0],
     [CHR 0xE1, CHR 0x9A, CHR 0x80]] @ map (\<lambda>c. [CHR 0xE2, CHR 0x80, c]) [CHR 0x80, CHR 0x81, CHR 0x82, CHR 0x83, CHR 0x84, CHR 0x85,
     CHR 0x86, CHR 0x87, CHR 0x88, CHR 0x89, CHR 0x8A, CHR 0xA8, CHR 0xA9, CHR 0xAF] @ [[CHR 0xE2, CHR 0x81, CHR 0x9F], [CHR 0xE3, CHR 0x80, CHR 0x80]]"

definition leading_rune :: "string list \<Rightarrow> string \<Rightarrow> string option" where
  "leading_rune runes s = find (\<lambda>r. r \<noteq> [] \<and> take (length r) s = r) runes"

function trim_left :: "string list \<Rightarrow> string \<Rightarrow> string" where
  "trim_left runes s = (case leading_rune runes s of None \<Rightarrow> s | Some r \<Rightarrow> trim_left runes (drop (length r) s))"
  by auto
termination
proof (relation "measure (length \<circ> snd)")
  fix runes s r assume "leading_rune runes s = Some r"
  then have "r \<noteq> []" "take (length r) s = r" by (auto simp: leading_rune_def find_Some_iff)
  then have "0 < length r" "s \<noteq> []" by auto
  then show "((runes, drop (length r) s), runes, s) \<in> measure (length \<circ> snd)" by simp
qed simp

declare trim_left.simps [simp del]

definition TrimSpace :: "string \<Rightarrow> string" where
  "TrimSpace s = rev (trim_left (map rev space_runes) (rev (trim_left space_runes s)))"

definition trim_right :: "(char \<Rightarrow> bool) \<Rightarrow> string \<Rightarrow> string" where
  "trim_right P s = rev (dropWhile P (rev s))"

definition lower_char :: "char \<Rightarrow> char" where
  "lower_char c = (if CHR ''A'' \<le> c \<and> c \<le> CHR ''Z'' then char_of (of_char c + 32 :: nat) else c)"

definition ToLower :: "string \<Rightarrow> string" where
  "ToLower s = map lower_char s"

definition HasSuffix :: "string \<Rightarrow> string \<Rightarrow> bool" where
  "HasSuffix s suffix \<longleftrightarrow> length suffix \<le> length s \<and> drop (length s - length suffix) s = suffix"

definition TrimSuffix :: "string \<Rightarrow> string \<Rightarrow> string" where
  "TrimSuffix s suffix = (if HasSuffix s suffix then take (length s - length suffix) s else s)"

definition digit_char :: "char \<Rightarrow> bool" where
  "digit_char c \<longleftrightarrow> CHR ''0'' \<le> c \<and> c \<le> CHR ''9''"

definition char_value :: "char \<Rightarrow> nat" where
  "char_value c = of_char c - 48"

definition hex_value :: "char \<Rightarrow> nat option" where
  "hex_value c =
    (if digit_char c then Some (char_value c)
     else if CHR ''a'' \<le> c \<and> c \<le> CHR ''f'' then Some (of_char c - 87)
     else if CHR ''A'' \<le> c \<and> c \<le> CHR ''F'' then Some (of_char c - 55)
     else None)"

definition hex_char :: "nat \<Rightarrow> char" where
  "hex_char n = (if n < 10 then char_of (48 + n) else char_of (87 + n))"

text \<open>The verb \<open>%q\<close> of a Go format: the text in double quotes, with Go's escapes.\<close>

definition quoted_char :: "char \<Rightarrow> string" where
  "quoted_char c =
    (if c = CHR 0x22 then [CHR 0x5C, CHR 0x22] else if c = CHR 0x5C then [CHR 0x5C, CHR 0x5C]
     else if c = CHR 0x07 then [CHR 0x5C, CHR ''a''] else if c = CHR 0x08 then [CHR 0x5C, CHR ''b'']
     else if c = CHR 0x0C then [CHR 0x5C, CHR ''f''] else if c = CHR 0x0A then [CHR 0x5C, CHR ''n'']
     else if c = CHR 0x0D then [CHR 0x5C, CHR ''r''] else if c = CHR 0x09 then [CHR 0x5C, CHR ''t'']
     else if c = CHR 0x0B then [CHR 0x5C, CHR ''v'']
     else if c < CHR '' '' \<or> c = CHR 0x7F then [CHR 0x5C, CHR ''x'', hex_char (of_char c div 16), hex_char (of_char c mod 16)]
     else [c])"

definition quoted :: "string \<Rightarrow> string" where
  "quoted s = CHR 0x22 # concat (map quoted_char s) @ [CHR 0x22]"

section \<open>Addresses\<close>

text \<open>The fields of a dotted address: four decimal numbers up to 255 without leading zeros.\<close>

fun split_on :: "char \<Rightarrow> string \<Rightarrow> string list" where
  "split_on sep [] = [[]]"
| "split_on sep (c # cs) =
    (if c = sep then [] # split_on sep cs
     else (case split_on sep cs of [] \<Rightarrow> [[c]] | w # ws \<Rightarrow> (c # w) # ws))"

definition dec_field :: "string \<Rightarrow> nat option" where
  "dec_field s =
    (if s = [] \<or> length s > 3 \<or> \<not> list_all digit_char s \<or> (length s > 1 \<and> hd s = CHR ''0'') then None
     else let v = foldl (\<lambda>a c. a * 10 + char_value c) 0 s in if v > 255 then None else Some v)"

definition parseIPv4Fields :: "string \<Rightarrow> nat list option" where
  "parseIPv4Fields s =
    (let fields = map dec_field (split_on (CHR ''.'') s)
     in if length fields = 4 \<and> list_all (\<lambda>f. f \<noteq> None) fields then Some (map the fields) else None)"

definition bytes_word :: "nat list \<Rightarrow> 'a :: len word" where
  "bytes_word bs = word_rcat (map (of_nat :: nat \<Rightarrow> 8 word) bs)"

definition parseIPv4 :: "string \<Rightarrow> Addr option" where
  "parseIPv4 s = map_option (\<lambda>fs. Addr4 (bytes_word fs)) (parseIPv4Fields s)"

text \<open>One hexadecimal group: its value, and what follows it.\<close>

definition hex_group :: "string \<Rightarrow> (nat \<times> string) option" where
  "hex_group s =
    (let ds = takeWhile (\<lambda>c. hex_value c \<noteq> None) s
     in if ds = [] \<or> length ds > 4 then None
        else Some (foldl (\<lambda>a c. a * 16 + the (hex_value c)) 0 ds, dropWhile (\<lambda>c. hex_value c \<noteq> None) s))"

text \<open>The loop over the groups: the bytes so far, where the ellipsis was, and the fuel of eight
  groups; the result is the bytes, the ellipsis and the unread rest.\<close>

fun ipv6_groups :: "nat \<Rightarrow> nat list \<Rightarrow> nat option \<Rightarrow> string \<Rightarrow> (nat list \<times> nat option \<times> string) option" where
  "ipv6_groups 0 bs ell s = Some (bs, ell, s)"
| "ipv6_groups (Suc n) bs ell s =
    (case hex_group s of None \<Rightarrow> None
     | Some (v, rest) \<Rightarrow>
       if rest \<noteq> [] \<and> hd rest = CHR ''.'' then
         (if ell = None \<and> length bs \<noteq> 12 \<or> length bs + 4 > 16 then None
          else (case parseIPv4Fields s of None \<Rightarrow> None | Some fs \<Rightarrow> Some (bs @ fs, ell, [])))
       else let bs' = bs @ [v div 256, v mod 256] in
         (case rest of
            [] \<Rightarrow> Some (bs', ell, [])
          | c # rest2 \<Rightarrow>
              if c \<noteq> CHR '':'' \<or> rest2 = [] then None
              else if hd rest2 = CHR '':'' then
                (if ell \<noteq> None then None
                 else if tl rest2 = [] then Some (bs', Some (length bs'), [])
                 else ipv6_groups n bs' (Some (length bs')) (tl rest2))
              else ipv6_groups n bs' ell rest2))"

definition ipv6_bytes :: "string \<Rightarrow> nat list option" where
  "ipv6_bytes s =
    (let (ell, s') = (if take 2 s = ''::'' then (Some 0, drop 2 s) else (None, s)) in
     if ell = Some 0 \<and> s' = [] then Some (replicate 16 0)
     else (case ipv6_groups 8 [] ell s' of None \<Rightarrow> None
       | Some (bs, e, rest) \<Rightarrow>
         if rest \<noteq> [] then None
         else if length bs < 16 then
           (case e of None \<Rightarrow> None
            | Some k \<Rightarrow> Some (take k bs @ replicate (16 - length bs) 0 @ drop k bs))
         else if e \<noteq> None then None else Some bs))"

definition parseIPv6 :: "string \<Rightarrow> Addr option" where
  "parseIPv6 text =
    (let s = takeWhile (\<lambda>c. c \<noteq> CHR ''%'') text; after = drop (length s) text; zone = drop 1 after in
     if after \<noteq> [] \<and> zone = [] then None
     else map_option (\<lambda>bs. Addr6 (bytes_word bs) zone) (ipv6_bytes s))"

definition netip_ParseAddr :: "string \<Rightarrow> Addr option" where
  "netip_ParseAddr s =
    (case find (\<lambda>c. c = CHR ''.'' \<or> c = CHR '':'' \<or> c = CHR ''%'') s of
       None \<Rightarrow> None
     | Some c \<Rightarrow> if c = CHR ''.'' then parseIPv4 s else if c = CHR '':'' then parseIPv6 s else None)"

section \<open>Names\<close>

text \<open>\<open>dns_label\<close> is the loop of \<open>DNSLabel\<close>: what was written, and whether it ends in a dash.\<close>

fun dns_label :: "string \<Rightarrow> bool \<Rightarrow> string \<Rightarrow> string" where
  "dns_label out dash [] = out"
| "dns_label out dash (c # cs) =
    (if (CHR ''a'' \<le> c \<and> c \<le> CHR ''z'') \<or> digit_char c then dns_label (out @ [c]) False cs
     else if c = CHR ''-'' \<and> \<not> dash \<and> out \<noteq> [] then dns_label (out @ [c]) True cs
     else dns_label out dash cs)"

definition DNSLabel :: "string \<Rightarrow> string" where
  "DNSLabel text =
    (let s = map (\<lambda>c. if c = CHR ''_'' then CHR ''-'' else c) (ToLower (TrimSpace text));
         out = trim_right (\<lambda>c. c = CHR ''-'') (dropWhile (\<lambda>c. c = CHR ''-'') (dns_label [] False s))
     in if out = [] then ''deployment'' else out)"

definition SpaceDNSName :: "32 word \<Rightarrow> string" where
  "SpaceDNSName spaceID = ''space-'' @ sint_text spaceID"

definition DeploymentDNSName :: "string \<Rightarrow> 32 word \<Rightarrow> string" where
  "DeploymentDNSName name spaceID = DNSLabel name @ ''.'' @ SpaceDNSName spaceID @ ''.internal''"

definition ValidateIssuedName :: "string \<Rightarrow> 32 word \<Rightarrow> 32 word \<Rightarrow> Prefix \<Rightarrow> bool \<Rightarrow> string option" where
  "ValidateIssuedName name spaceID deploymentID prefix hasPrefix =
    (let lower = TrimSuffix (ToLower (TrimSpace name)) ''.'' in
     case netip_ParseAddr lower of
       Some a \<Rightarrow>
         if \<not> hasPrefix \<or> \<not> NetContains (CIDR prefix) a then None
         else (case ParseAddr prefix a of
             Inl _ \<Rightarrow> Some (quoted name @ '' is a cluster address that does not belong to this deployment'')
           | Inr l \<Rightarrow> if la_SpaceID l \<noteq> spaceID \<or> la_DeploymentID l \<noteq> deploymentID then Some (quoted name @ '' is a cluster address that does not belong to this deployment'') else None)
     | None \<Rightarrow>
         if lower \<noteq> ''internal'' \<and> \<not> HasSuffix lower ''.internal'' then None
         else if \<not> HasSuffix lower (''.'' @ SpaceDNSName spaceID @ ''.internal'') then Some (quoted name @ '' is outside this deployment'' @ [CHR 0x27] @ ''s space zone '' @ SpaceDNSName spaceID @ ''.internal'')
         else None)"

text \<open>The slot is a Go \<open>int\<close> between 0 and 1; \<open>strconv.Itoa\<close> of it is its decimal text.\<close>

definition hostVethName :: "32 word \<Rightarrow> nat \<Rightarrow> string" where
  "hostVethName deploymentID slot = ''od'' @ sint_text deploymentID @ ''s'' @ nat_text slot"

definition allDigits :: "string \<Rightarrow> bool" where
  "allDigits s \<longleftrightarrow> s \<noteq> [] \<and> list_all digit_char s"

definition IsHostVethName :: "string \<Rightarrow> bool" where
  "IsHostVethName name \<longleftrightarrow> take 2 name = ''od'' \<and>
    (let rest = drop 2 name; dep = takeWhile (\<lambda>c. c \<noteq> CHR ''s'') rest; after = drop (length dep) rest
     in after \<noteq> [] \<and> allDigits dep \<and> allDigits (tl after))"

section \<open>Machine-local IPv4\<close>

definition v4SlotsPerDeployment :: int where "v4SlotsPerDeployment = 2"

definition V4Pair :: "32 word \<Rightarrow> int \<Rightarrow> (Addr \<times> Addr) option" where
  "V4Pair deploymentID slot =
    (if slot < 0 \<or> slot \<ge> v4SlotsPerDeployment then None
     else let base = 0x0ac90000 :: 32 word;
              offset = (and deploymentID 0x1FFF) * 4 * word_of_int v4SlotsPerDeployment + word_of_int slot * 4
          in Some (Addr4 (base + offset + 1), Addr4 (base + offset + 2)))"

section \<open>Reserved listeners\<close>

fun port_digits :: "nat \<Rightarrow> string \<Rightarrow> nat option" where
  "port_digits port [] = Some port"
| "port_digits port (c # cs) =
    (if \<not> digit_char c then None
     else let port' = port * 10 + char_value c in if port' > 65535 then None else port_digits port' cs)"

definition splitListen :: "string \<Rightarrow> (string \<times> nat) option" where
  "splitListen text =
    (let value = TrimSpace text; after = takeWhile (\<lambda>c. c \<noteq> CHR '':'') (rev value) in
     if length after = length value then None
     else let host = take (length value - length after - 1) value;
              brackets = (\<lambda>c. c = CHR ''['' \<or> c = CHR '']'')
          in map_option (\<lambda>port. (trim_right brackets (dropWhile brackets host), port)) (port_digits 0 (rev after)))"

definition unspecified :: "Addr \<Rightarrow> bool" where
  "unspecified a \<longleftrightarrow> a = Addr4 0 \<or> a = Addr6 0 []"

definition listenReservation :: "nat \<Rightarrow> string \<Rightarrow> string \<Rightarrow> Reservation option" where
  "listenReservation nodeID listen name =
    (case splitListen listen of None \<Rightarrow> None
     | Some (host, port) \<Rightarrow>
       if port = 0 then None
       else if host = [] then Some \<lparr>rv_NodeID = nodeID, rv_Address = NoAddr, rv_Port = port, rv_Name = name\<rparr>
       else (case netip_ParseAddr host of None \<Rightarrow> None
         | Some a \<Rightarrow> Some \<lparr>rv_NodeID = nodeID, rv_Address = (if unspecified a then NoAddr else a), rv_Port = port, rv_Name = name\<rparr>))"

definition WebUIReservations :: "nat \<Rightarrow> bool \<Rightarrow> string \<Rightarrow> bool \<Rightarrow> string \<Rightarrow> Reservation list" where
  "WebUIReservations primaryNodeID httpsEnabled httpsListen httpEnabled httpListen =
    (if httpsEnabled then (case listenReservation primaryNodeID httpsListen ''primary Web UI (https_web.listen)'' of None \<Rightarrow> [] | Some r \<Rightarrow> [r]) else []) @
    (if httpEnabled then (case listenReservation primaryNodeID httpListen ''primary Web UI (http_web.listen)'' of None \<Rightarrow> [] | Some r \<Rightarrow> [r]) else [])"

end
