(* ===== verification/Deploy_Validate.thy ===== *)
theory Deploy_Validate
  imports Scheduler Net_Text
begin

text \<open>
  The checks a deployment write makes inside the store's lock, in
  \<open>backend/app/primary/domain/deployments\<close>: \<open>validate_layers.go\<close>, \<open>ingress_plan.go\<close>, \<open>refs.go\<close>,
  \<open>validate_refs.go\<close> and the parts of \<open>validate.go\<close> they call, with the live state they read
  (\<open>domain/nodes/livestate.go\<close>), the identities of the system deployments
  (\<open>lib/engine/internaldeploy\<close>) and the reference collectors of
  \<open>lib/engine/prepare/runtimeinputs\<close>. Where the code ranges over a map the order decides only which
  of several errors is reported; the model ranges in key order.
\<close>

section \<open>System deployments\<close>

definition internal_SpaceID :: nat where "internal_SpaceID = 0"
definition SelfName :: string where "SelfName = ''opendeploy''"
definition NetproxyName :: string where "NetproxyName = ''opendeploy-net''"
definition DefaultSpaceID :: nat where "DefaultSpaceID = 1"

definition IsSelfIdentity :: "nat \<Rightarrow> string \<Rightarrow> bool" where
  "IsSelfIdentity spaceID name \<longleftrightarrow> spaceID = internal_SpaceID \<and> name = SelfName"

definition IsNetproxyIdentity :: "nat \<Rightarrow> string \<Rightarrow> bool" where
  "IsNetproxyIdentity spaceID name \<longleftrightarrow> spaceID = internal_SpaceID \<and> name = NetproxyName"

definition IsInternalIdentity :: "nat \<Rightarrow> string \<Rightarrow> bool" where
  "IsInternalIdentity spaceID name \<longleftrightarrow> IsSelfIdentity spaceID name \<or> IsNetproxyIdentity spaceID name"

definition IsSelfConfig :: "DeploymentRecord \<Rightarrow> bool" where
  "IsSelfConfig cfg \<longleftrightarrow> IsSelfIdentity (dep_SpaceID (drec_Deployment cfg)) (dep_Name (drec_Deployment cfg))"

definition IsInternalConfig :: "DeploymentRecord \<Rightarrow> bool" where
  "IsInternalConfig cfg \<longleftrightarrow> IsInternalIdentity (dep_SpaceID (drec_Deployment cfg)) (dep_Name (drec_Deployment cfg))"

definition DeploymentKeyMatches :: "Deployment \<Rightarrow> nat \<Rightarrow> nat \<Rightarrow> string \<Rightarrow> bool" where
  "DeploymentKeyMatches def nodeID spaceID name \<longleftrightarrow> PlacementNodeID def = nodeID \<and> dep_SpaceID def = spaceID \<and> dep_Name def = name"

section \<open>Live state\<close>

definition MemberNodeStatuses :: "NodeLifecycleStatus list" where
  "MemberNodeStatuses = [4, 5, 6, 7]"

definition NODE_MEMBER_DRAINING :: NodeLifecycleStatus where "NODE_MEMBER_DRAINING = 6"

record LiveState =
  live_Scheduled :: "(ScheduledInstance \<times> ScheduledInstanceStatus) list"
  live_Deployments :: "DeploymentRecord list"
  live_Nodes :: "(nat \<times> NodeRow) list"

text \<open>The instance and its status: an inner join with the pinned version, a left join with the status.\<close>

definition ListLiveScheduledInstanceStates :: "tables \<Rightarrow> (ScheduledInstance \<times> ScheduledInstanceStatus) list" where
  "ListLiveScheduledInstanceStates ts =
    List.map_filter (\<lambda>(i, r). let inst = (row_value r)\<lparr>si_ID := i\<rparr> in
      if si_State inst = TARGET_FINALIZED \<or> GetDeploymentVersion (dref_DeploymentID (si_Deployment inst)) (dref_Version (si_Deployment inst)) ts = None then None
      else Some (inst, (case tbl_get (scheduled_instance_status ts) i of None \<Rightarrow> zero_status | Some s \<Rightarrow> toStatus i (row_value s))))
    (scheduled_instances ts)"

definition ReadLiveState :: "tables \<Rightarrow> LiveState" where
  "ReadLiveState ts =
    \<lparr>live_Scheduled = ListLiveScheduledInstanceStates ts, live_Deployments = ListActiveDeployments ts,
     live_Nodes = map (\<lambda>(i, r). (i, row_value r)) (filter (\<lambda>(i, r). nrow_Status (row_value r) \<in> set MemberNodeStatuses) (nodes ts))\<rparr>"

definition live_deployment :: "LiveState \<Rightarrow> nat \<Rightarrow> DeploymentRecord option" where
  "live_deployment lv i = find (\<lambda>d. dep_ID (drec_Deployment d) = i) (live_Deployments lv)"

definition live_node :: "LiveState \<Rightarrow> nat \<Rightarrow> NodeRow option" where
  "live_node lv i = map_of (live_Nodes lv) i"

section \<open>Errors\<close>

datatype deploy_error =
    NotFoundErr
  | DuplicateErr
  | AddressReferencedErr
  | NodeSpaceNotAllowedErr
  | NodeDrainingErr
  | MoveReferencesOutsideSpaceErr
  | ReferenceInUseErr
  | SecretRefOutsideSpaceErr
  | ConfigRefOutsideSpaceErr
  | AssetRefOutsideSpaceErr
  | NixVerificationUnavailable
  | NixVerificationFailed
  | InvalidConfigErr string
  | EncodingErr string

text \<open>The internal code an error is recognised by; an invalid configuration and a value that
  does not encode have their message as code. The
  longer texts some errors show a user are not part of the model.\<close>

fun InternalErr :: "deploy_error \<Rightarrow> string" where
  "InternalErr NotFoundErr = ''deployment_not_found''"
| "InternalErr DuplicateErr = ''duplicate_deployment''"
| "InternalErr AddressReferencedErr = ''deployment_address_referenced''"
| "InternalErr NodeSpaceNotAllowedErr = ''node_space_not_allowed''"
| "InternalErr NodeDrainingErr = ''node_draining''"
| "InternalErr MoveReferencesOutsideSpaceErr = ''move_references_outside_space''"
| "InternalErr ReferenceInUseErr = ''reference_in_use''"
| "InternalErr SecretRefOutsideSpaceErr = ''secret_reference_outside_space''"
| "InternalErr ConfigRefOutsideSpaceErr = ''config_reference_outside_space''"
| "InternalErr AssetRefOutsideSpaceErr = ''asset_reference_outside_space''"
| "InternalErr NixVerificationUnavailable = ''nix_source_verification_unavailable''"
| "InternalErr NixVerificationFailed = ''nix_source_verification_failed''"
| "InternalErr (InvalidConfigErr message) = message"
| "InternalErr (EncodingErr message) = message"

definition SystemSpaceErr :: deploy_error where
  "SystemSpaceErr = InvalidConfigErr ''spaceId must be between 1 and 65535''"

section \<open>Ingress claims\<close>

definition plan_nodes :: "LiveState \<Rightarrow> PlanNode list" where
  "plan_nodes lv = map (\<lambda>(i, n). \<lparr>pn_ID = i, pn_HostAddresses = HostAddresses (nrow_HostAddresses n)\<rparr>) (live_Nodes lv)"

definition plan_deployment :: "DeploymentRecord \<Rightarrow> PlanDeployment" where
  "plan_deployment cfg = DeploymentFromSpec (dep_ID (drec_Deployment cfg)) (PlacementNodeID (drec_Deployment cfg))
     (dep_Name (drec_Deployment cfg)) (dep_Spec (drec_Deployment cfg))"

definition ingressPlanInputs :: "LiveState \<Rightarrow> Reservation list \<Rightarrow> nat \<Rightarrow> nat \<Rightarrow> DeploymentSpec option \<Rightarrow> PlanInputs" where
  "ingressPlanInputs lv reservations nodeID deploymentID candidate =
    \<lparr>pi_Deployments =
       map plan_deployment (filter (\<lambda>cfg. \<not> (dep_ID (drec_Deployment cfg) = deploymentID \<or> IsInternalConfig cfg)) (live_Deployments lv)) @
       (case candidate of None \<Rightarrow> []
        | Some spec \<Rightarrow>
           [DeploymentFromSpec deploymentID nodeID (case live_deployment lv deploymentID of None \<Rightarrow> [] | Some e \<Rightarrow> dep_Name (drec_Deployment e)) spec]),
     pi_Nodes = plan_nodes lv, pi_Reservations = reservations, pi_Candidate = deploymentID, pi_Reachable = None\<rparr>"

definition listen_error :: "LiveState \<Rightarrow> nat \<Rightarrow> IngressListen \<Rightarrow> deploy_error option" where
  "listen_error lv nodeID entry =
    (case il_Node entry of
       Some (Some (SpecificNode specific)) \<Rightarrow>
         if specific = 0 then None
         else (case live_node lv specific of
             None \<Rightarrow> Some (InvalidConfigErr (''networking.ingress.listen.node: unknown node id '' @ nat_text specific))
           | Some node \<Rightarrow> if specific \<noteq> nodeID then Some (InvalidConfigErr (''networking.ingress.listen.node: ingress is served by the deployment'' @ [CHR 0x27] @ ''s own node only; node '' @
                 quoted (nrow_Name node) @ '' cannot publish a route for a deployment on another node''))
               else None)
     | _ \<Rightarrow> None)"

text \<open>The id a deployment without one is evaluated under: above every stored id.\<close>

definition eval_id :: "LiveState \<Rightarrow> nat \<Rightarrow> nat" where
  "eval_id lv deploymentID =
    (if deploymentID \<noteq> 0 then deploymentID
     else let e = fold (\<lambda>d m. if dep_ID (drec_Deployment d) \<ge> m then dep_ID (drec_Deployment d) + 1 else m) (live_Deployments lv) 0
          in if e = 0 then 1 else e)"

definition ValidateNodeNetworkingClaims :: "LiveState \<Rightarrow> Reservation list \<Rightarrow> nat \<Rightarrow> nat \<Rightarrow> DeploymentSpec \<Rightarrow> deploy_error option" where
  "ValidateNodeNetworkingClaims lv reservations nodeID deploymentID candidate =
    (if nc_Mode (ds_Networking candidate) \<noteq> NETWORKING_MODE_VIRTUAL then None
     else then_err (find_err (\<lambda>route. find_err (listen_error lv nodeID) (in_Listen route)) (nc_Ingress (ds_Networking candidate)))
       (let evalID = eval_id lv deploymentID;
            result = Evaluate (ingressPlanInputs lv reservations nodeID evalID (Some candidate))
        in find_err (\<lambda>diag. if dg_DeploymentID diag = evalID then Some (InvalidConfigErr (dg_Message diag)) else None) (res_Errors result)))"

text \<open>A setting is a literal or names a config. \<open>HttpWebSettings\<close> are the two fields of the HTTP and of
  the HTTPS listener that matter here.\<close>

datatype 'a setting_value = LiteralSetting 'a | ConfigRefSetting ValueRef

record HttpWebSettings =
  hw_Enabled :: "bool setting_value option"
  hw_Listen :: "string setting_value option"

definition literalString :: "string setting_value option \<Rightarrow> string" where
  "literalString v = (case v of Some (LiteralSetting l) \<Rightarrow> l | _ \<Rightarrow> [])"

definition literalBool :: "bool setting_value option \<Rightarrow> bool" where
  "literalBool v = (case v of Some (LiteralSetting l) \<Rightarrow> l | _ \<Rightarrow> False)"

definition ReservationsFromSettings ::
  "nat \<Rightarrow> HttpWebSettings \<Rightarrow> HttpWebSettings \<Rightarrow> (string setting_value option \<Rightarrow> string) \<Rightarrow> (bool setting_value option \<Rightarrow> bool) \<Rightarrow> Reservation list" where
  "ReservationsFromSettings primaryNodeID https http str boolean =
    WebUIReservations primaryNodeID (boolean (hw_Enabled https)) (str (hw_Listen https)) (boolean (hw_Enabled http)) (str (hw_Listen http))"

text \<open>A settings change is refused while its listeners would exclude a stored claim.\<close>

definition ValidateIngressAgainstSettings :: "LiveState \<Rightarrow> nat \<Rightarrow> HttpWebSettings \<Rightarrow> HttpWebSettings \<Rightarrow> string option" where
  "ValidateIngressAgainstSettings lv primaryNodeID https http =
    (let reservations = ReservationsFromSettings primaryNodeID https http literalString literalBool
     in case res_Excluded (Evaluate (ingressPlanInputs lv reservations 0 0 None)) of
       [] \<Rightarrow> None
     | diag # _ \<Rightarrow>
        let name = (case live_deployment lv (dg_DeploymentID diag) of
              None \<Rightarrow> ''deployment '' @ nat_text (dg_DeploymentID diag)
            | Some cfg \<Rightarrow> ''deployment '' @ quoted (dep_Name (drec_Deployment cfg)))
        in Some (name @ '': '' @ dg_Message diag))"

section \<open>References\<close>

definition env_vars :: "DeploymentSpec \<Rightarrow> (string \<times> EnvVar option) list" where
  "env_vars spec = (case ds_Container spec of None \<Rightarrow> [] | Some c \<Rightarrow> rt_EnvVars (cs_Runtime c))"

definition ref_valid :: "ValueRef \<Rightarrow> bool" where
  "ref_valid r \<longleftrightarrow> vref_ID r > 0 \<and> vref_Version r > 0"

definition ref_key :: "ValueRef \<Rightarrow> nat \<times> nat" where
  "ref_key r = (vref_ID r, vref_Version r)"

definition sortedRefs :: "ValueRef list \<Rightarrow> ValueRef list" where
  "sortedRefs seen = sort_key ref_key (remdups seen)"

definition SecretRefs :: "DeploymentSpec \<Rightarrow> ValueRef list" where
  "SecretRefs spec = sortedRefs (filter ref_valid
    (List.map_filter (\<lambda>(_, v). case v of Some (SecretEnv r) \<Rightarrow> Some r | _ \<Rightarrow> None) (env_vars spec) @
     List.map_filter (\<lambda>route. case in_Config route of
        Some (Https h) \<Rightarrow> (case hc_CertSource h of Some (Some (SecretCertSource r)) \<Rightarrow> Some r | _ \<Rightarrow> None)
      | _ \<Rightarrow> None) (nc_Ingress (ds_Networking spec))))"

definition ConfigRefs :: "DeploymentSpec \<Rightarrow> ValueRef list" where
  "ConfigRefs spec = sortedRefs (filter ref_valid
    (List.map_filter (\<lambda>(_, v). case v of Some (ConfigEnv r) \<Rightarrow> Some r | _ \<Rightarrow> None) (env_vars spec)))"

definition RequiredAssetRefs :: "DeploymentSpec \<Rightarrow> ValueRef list" where
  "RequiredAssetRefs spec = sort_key ref_key
    ((case ds_Container spec of None \<Rightarrow> [] | Some c \<Rightarrow> map am_Asset (rt_AssetMounts (cs_Runtime c))) @
     filter ref_valid (List.map_filter (\<lambda>(_, v). case v of Some (AssetEnv _ r) \<Rightarrow> Some r | _ \<Rightarrow> None) (env_vars spec)))"

definition AddressRefIDs :: "DeploymentRecord \<Rightarrow> nat list" where
  "AddressRefIDs cfg = List.map_filter (\<lambda>(_, v). case v of Some (AddressEnv dep _) \<Rightarrow> Some dep | _ \<Rightarrow> None) (env_vars (dep_Spec (drec_Deployment cfg)))"

definition CrossDeploymentMountSourceIDs :: "DeploymentRecord \<Rightarrow> nat list" where
  "CrossDeploymentMountSourceIDs cfg = (case ds_Container (dep_Spec (drec_Deployment cfg)) of None \<Rightarrow> []
     | Some c \<Rightarrow> map cdm_DeploymentID (rt_CrossDeploymentMounts (cs_Runtime c)))"

definition Referencing :: "LiveState \<Rightarrow> nat list \<Rightarrow> (DeploymentRecord \<Rightarrow> nat list) \<Rightarrow> DeploymentRecord list" where
  "Referencing lv ids refs = filter (\<lambda>cfg. list_ex (\<lambda>i. i \<in> set ids) (refs cfg)) (live_Deployments lv)"

definition ReferencesOutsideSpace :: "LiveState \<Rightarrow> nat list \<Rightarrow> (DeploymentRecord \<Rightarrow> nat list) \<Rightarrow> nat \<Rightarrow> bool" where
  "ReferencesOutsideSpace lv ids refs spaceID \<longleftrightarrow> list_ex (\<lambda>cfg. dep_SpaceID (drec_Deployment cfg) \<noteq> spaceID) (Referencing lv ids refs)"

definition UsesAddressID :: "LiveState \<Rightarrow> nat list \<Rightarrow> bool" where
  "UsesAddressID lv ids \<longleftrightarrow> Referencing lv ids AddressRefIDs \<noteq> []"

definition validateAddressEnvRefs :: "LiveState \<Rightarrow> nat \<Rightarrow> nat \<Rightarrow> DeploymentSpec \<Rightarrow> deploy_error option" where
  "validateAddressEnvRefs lv deploymentID spaceID spec =
    find_err (\<lambda>(key, v). let scope = ''container1Spec.runtime.envVars.'' @ key in case v of
       Some (AddressEnv targetID space) \<Rightarrow>
         if targetID = deploymentID \<and> deploymentID \<noteq> 0 then Some (InvalidConfigErr (scope @ '': deployment cannot reference its own address''))
         else (case live_deployment lv targetID of
             None \<Rightarrow> Some (InvalidConfigErr (scope @ '': unknown address deployment id '' @ nat_text targetID))
           | Some target \<Rightarrow>
               if nc_Mode (ds_Networking (dep_Spec (drec_Deployment target))) \<noteq> NETWORKING_MODE_VIRTUAL then
                 Some (InvalidConfigErr (scope @ '': address deployment must use virtual networking''))
               else if dep_SpaceID (drec_Deployment target) \<noteq> space then Some (InvalidConfigErr (scope @ '': address space does not match deployment''))
               else if dep_SpaceID (drec_Deployment target) \<noteq> spaceID \<and> dep_SpaceID (drec_Deployment target) \<noteq> DefaultSpaceID then
                 Some (InvalidConfigErr (scope @ '': address deployment '' @ quoted (dep_Name (drec_Deployment target)) @ '' lives in space '' @
                   nat_text (dep_SpaceID (drec_Deployment target)) @ '' and cannot be referenced from a deployment in space '' @ nat_text spaceID))
               else None)
     | _ \<Rightarrow> None) (env_vars spec)"

definition validateCrossDeploymentMountSources :: "LiveState \<Rightarrow> DeploymentSpec \<Rightarrow> nat \<Rightarrow> nat \<Rightarrow> nat \<Rightarrow> deploy_error option" where
  "validateCrossDeploymentMountSources lv spec nodeID currentID spaceID =
    (case ds_Container spec of None \<Rightarrow> None
     | Some container \<Rightarrow> find_err (\<lambda>mount.
         let src = cdm_DeploymentID mount; scope = ''container1Spec.runtime.crossDeploymentMounts: '';
             text = scope @ ''source deployment '' @ nat_text src in
         if src = currentID \<and> currentID \<noteq> 0 then Some (InvalidConfigErr (scope @ ''a deployment cannot mount its own default volume''))
         else (case live_deployment lv src of
             None \<Rightarrow> Some (InvalidConfigErr (text @ '' does not exist''))
           | Some source \<Rightarrow>
               if PlacementNodeID (drec_Deployment source) \<noteq> nodeID then Some (InvalidConfigErr (text @ '' is on a different node''))
               else if dep_SpaceID (drec_Deployment source) \<noteq> spaceID \<and> dep_SpaceID (drec_Deployment source) \<noteq> DefaultSpaceID then
                 Some (InvalidConfigErr (scope @ ''source deployment '' @ quoted (dep_Name (drec_Deployment source)) @ '' lives in space '' @
                   nat_text (dep_SpaceID (drec_Deployment source)) @ '' and cannot be mounted from a deployment in space '' @ nat_text spaceID))
               else (case ds_Container (dep_Spec (drec_Deployment source)) of
                   None \<Rightarrow> Some (InvalidConfigErr (text @ '' has no default volume''))
                 | Some c \<Rightarrow> if dv_Disabled (rt_DefaultVolume (cs_Runtime c)) then Some (InvalidConfigErr (text @ '' has no default volume'')) else None)))
       (rt_CrossDeploymentMounts (cs_Runtime container)))"

text \<open>\<open>int32\<close> of an id keeps its low 32 bits. The prefix is the one of the process-wide network manager.\<close>

definition validateIssuedTLSNames :: "Prefix \<Rightarrow> bool \<Rightarrow> DeploymentSpec \<Rightarrow> nat \<Rightarrow> nat \<Rightarrow> deploy_error option" where
  "validateIssuedTLSNames prefix hasPrefix spec deploymentID spaceID =
    (case ds_Container spec of None \<Rightarrow> None
     | Some container \<Rightarrow> (case rt_IssuedTlsMount (cs_Runtime container) of None \<Rightarrow> None
       | Some mount \<Rightarrow> find_err (\<lambda>(i, name).
           map_option (\<lambda>message. InvalidConfigErr (''container1Spec.runtime.issuedTlsMount: extraNames['' @ nat_text i @ ''] '' @ message))
             (ValidateIssuedName name (of_nat spaceID) (of_nat deploymentID) prefix hasPrefix)) (List.enumerate 0 (tls_ExtraNames mount))))"

text \<open>A referenced value must exist and live in the deployment's space or in the global one. The store
  of asset contents is not derived from the log; \<open>stored\<close> says which keys it has.\<close>

definition space_allows :: "nat \<Rightarrow> nat \<Rightarrow> bool" where
  "space_allows valueSpace spaceID \<longleftrightarrow> \<not> (valueSpace = internal_SpaceID \<or> valueSpace \<noteq> spaceID \<and> valueSpace \<noteq> DefaultSpaceID)"

definition ref_text :: "ValueRef \<Rightarrow> string" where
  "ref_text r = nat_text (vref_ID r) @ ''@'' @ nat_text (vref_Version r)"

definition value_ref_error :: "(string \<Rightarrow> string) \<Rightarrow> deploy_error \<Rightarrow> (nat \<times> nat, 'a) table \<Rightarrow> (nat, ValueIdentityRow row) table \<Rightarrow> nat \<Rightarrow> ValueRef \<Rightarrow> deploy_error option" where
  "value_ref_error missing outside versions identities spaceID ref =
    (case (tbl_get versions (ref_key ref), tbl_get identities (vref_ID ref)) of
       (Some _, Some r) \<Rightarrow> if space_allows (vi_SpaceID (row_value r)) spaceID then None else Some outside
     | _ \<Rightarrow> Some (InvalidConfigErr (missing (ref_text ref))))"

definition validateRefSpaces :: "(string \<Rightarrow> bool) \<Rightarrow> tables \<Rightarrow> DeploymentSpec \<Rightarrow> nat \<Rightarrow> deploy_error option" where
  "validateRefSpaces stored ts spec spaceID =
    then_err (find_err (value_ref_error (\<lambda>ref. ''unknown secret '' @ ref) SecretRefOutsideSpaceErr (secret_versions ts) (secrets ts) spaceID) (SecretRefs spec))
    (then_err (find_err (value_ref_error (\<lambda>ref. ''unknown config '' @ ref) ConfigRefOutsideSpaceErr (config_versions ts) (configs ts) spaceID) (ConfigRefs spec))
      (find_err (value_ref_error (\<lambda>ref. ''asset '' @ ref @ '' not found'') AssetRefOutsideSpaceErr
         (filter (\<lambda>(_, r). stored (av_StorageKey (row_value r))) (asset_versions ts)) (assets ts) spaceID) (RequiredAssetRefs spec)))"

end
