(* ===== verification/Source_Text.thy ===== *)
theory Source_Text
  imports Net_Text
begin

text \<open>
  Paths and references in texts: \<open>Clean\<close> and \<open>Base\<close> of Go's \<open>path\<close> package (and of \<open>path/filepath\<close>
  on the platforms the program runs on), the flake paths and commit hashes of
  \<open>backend/lib/repo/git/gitmanager.go\<close>, and the image references of
  \<open>backend/lib/engine/imageref/imageref.go\<close>.
\<close>

section \<open>Paths\<close>

definition HasPrefix :: "string \<Rightarrow> string \<Rightarrow> bool" where
  "HasPrefix s p \<longleftrightarrow> take (length p) s = p"

definition IsAbs :: "string \<Rightarrow> bool" where
  "IsAbs p \<longleftrightarrow> HasPrefix p ''/''"

text \<open>One element of a path; the elements kept so far are in reverse order.\<close>

definition clean_step :: "bool \<Rightarrow> string \<Rightarrow> string list \<Rightarrow> string list" where
  "clean_step rooted seg stack =
    (if seg = [] \<or> seg = ''.'' then stack
     else if seg = ''..'' then
       (case stack of
          [] \<Rightarrow> if rooted then [] else [''..'']
        | s # rest \<Rightarrow> if s = ''..'' then ''..'' # stack else rest)
     else seg # stack)"

definition Clean :: "string \<Rightarrow> string" where
  "Clean p =
    (let rooted = IsAbs p; text = joined ''/'' (rev (fold (clean_step rooted) (split_on (CHR ''/'') p) []))
     in if rooted then ''/'' @ text else if text = [] then ''.'' else text)"

definition Base :: "string \<Rightarrow> string" where
  "Base p =
    (if p = [] then ''.''
     else let q = trim_right (\<lambda>c. c = CHR ''/'') p
          in if q = [] then ''/'' else last (split_on (CHR ''/'') q))"

section \<open>Git sources\<close>

definition cleanGitTreePath :: "string \<Rightarrow> string + string" where
  "cleanGitTreePath repoPath =
    (let clean = Clean (TrimSpace repoPath) in
     if clean = ''.'' \<or> IsAbs clean \<or> HasPrefix clean ''../'' \<or> clean = ''..'' then Inl ''path must be relative to the repository''
     else if list_ex (\<lambda>c. c = CHR 0x00 \<or> c = CHR 0x0A \<or> c = CHR 0x0D) clean then Inl ''path contains invalid characters''
     else Inr clean)"

definition CleanFlakePath :: "string \<Rightarrow> string + string" where
  "CleanFlakePath flakePath =
    bindE (cleanGitTreePath flakePath) (\<lambda>clean.
      if Base clean \<noteq> ''flake.nix'' then Inl ''flake path basename must be flake.nix'' else Inr clean)"

definition ValidateFullCommitHash :: "string \<Rightarrow> string option" where
  "ValidateFullCommitHash commit =
    (if length commit = 40 \<and> list_all (\<lambda>c. hex_value c \<noteq> None) commit then None
     else Some ''commit must be a full 40-character hexadecimal hash'')"

section \<open>Image references\<close>

definition dockerHubRegistry :: string where "dockerHubRegistry = ''registry-1.docker.io''"

record Repository =
  repo_Registry :: string
  repo_Name :: string
  repo_Version :: string

definition stripImageScheme :: "string \<Rightarrow> string \<times> bool" where
  "stripImageScheme img =
    (case find (HasPrefix (ToLower img)) [''docker://'', ''https://'', ''http://''] of
       Some p \<Rightarrow> (drop (length p) img, True)
     | None \<Rightarrow> (img, False))"

text \<open>The text before and after the digest or the tag: the first \<open>@\<close>, or else the last colon when no
  slash follows it.\<close>

definition split_reference :: "string \<Rightarrow> string \<times> string" where
  "split_reference img =
    (if CHR ''@'' \<in> set img then
       let before = takeWhile (\<lambda>c. c \<noteq> CHR ''@'') img in (before, drop (length before + 1) img)
     else let after = rev (takeWhile (\<lambda>c. c \<noteq> CHR '':'' \<and> c \<noteq> CHR ''/'') (rev img));
              rest = take (length img - length after) img
          in if rest \<noteq> [] \<and> last rest = CHR '':'' then (butlast rest, after) else (img, []))"

definition imageTagOrDigest :: "string \<Rightarrow> string" where
  "imageTagOrDigest img = snd (split_reference img)"

definition stripImageTagOrDigest :: "string \<Rightarrow> string" where
  "stripImageTagOrDigest img = fst (split_reference img)"

definition looksLikeRegistry :: "string \<Rightarrow> bool" where
  "looksLikeRegistry first \<longleftrightarrow> CHR ''.'' \<in> set first \<or> CHR '':'' \<in> set first \<or> first = ''localhost''"

definition isDockerHubRegistry :: "string \<Rightarrow> bool" where
  "isDockerHubRegistry registry \<longleftrightarrow> ToLower registry \<in> {dockerHubRegistry, ''docker.io'', ''index.docker.io''}"

definition canonicalRegistry :: "string \<Rightarrow> string" where
  "canonicalRegistry registry = (if isDockerHubRegistry registry then dockerHubRegistry else registry)"

definition shouldStripRegistryAPIPrefix :: "bool \<Rightarrow> string \<Rightarrow> bool" where
  "shouldStripRegistryAPIPrefix hadScheme rawRegistry \<longleftrightarrow> hadScheme \<or> ToLower rawRegistry = ToLower dockerHubRegistry"

definition Parse :: "string \<Rightarrow> string + Repository" where
  "Parse raw =
    (if TrimSpace raw = [] then Inl ''image is required''
     else let (unschemed, hadScheme) = stripImageScheme (TrimSpace raw);
              trimmed = TrimSuffix unschemed ''/'';
              version = imageTagOrDigest trimmed;
              parts = split_on (CHR ''/'') (stripImageTagOrDigest trimmed)
          in if parts = [] \<or> hd parts = [] then Inl ''invalid image''
             else let named = looksLikeRegistry (hd parts);
                      rawRegistry = (if named then hd parts else []);
                      registry = (if named then canonicalRegistry (hd parts) else dockerHubRegistry);
                      nameParts = (if named then tl parts else parts);
                      nameParts = (if nameParts \<noteq> [] \<and> hd nameParts = ''v2'' \<and> shouldStripRegistryAPIPrefix hadScheme rawRegistry then tl nameParts else nameParts)
                  in if nameParts = [] \<or> hd nameParts = [] then Inl ''invalid image repository''
                     else let nameParts = (if registry = dockerHubRegistry \<and> length nameParts = 1 then ''library'' # nameParts else nameParts)
                          in Inr \<lparr>repo_Registry = registry, repo_Name = joined ''/'' nameParts, repo_Version = version\<rparr>)"

definition Repository_URL :: "Repository \<Rightarrow> string" where
  "Repository_URL r = ''https://'' @ repo_Registry r @ ''/v2/'' @ repo_Name r"

definition Repository_Ref :: "Repository \<Rightarrow> string" where
  "Repository_Ref r = (if repo_Registry r = dockerHubRegistry then ''docker.io'' else repo_Registry r) @ ''/'' @ repo_Name r"

definition RepositoryURL :: "string \<Rightarrow> string + string" where
  "RepositoryURL raw = bindE (Parse raw) (\<lambda>repo. Inr (Repository_URL repo))"

definition RepositoryRef :: "string \<Rightarrow> string + string" where
  "RepositoryRef raw = bindE (Parse raw) (\<lambda>repo. Inr (Repository_Ref repo))"

definition image_Ref :: "string \<Rightarrow> string \<Rightarrow> string + string" where
  "image_Ref raw version =
    bindE (RepositoryRef raw) (\<lambda>repo.
      if HasPrefix version ''sha256:'' then Inr (repo @ ''@'' @ version) else Inr (repo @ '':'' @ version))"

end
