(* ===== verification/Spec_Schema.thy ===== *)
theory Spec_Schema
  imports Net_Text
begin

text \<open>
  The generated schema checks of a deployment spec, \<open>backend/apigen/validate.gen.go\<close>: the code checks
  them before it encodes a spec, so that a copy made by encoding and decoding satisfies them. A check
  returns the path of the first offending field and the reason. An alternative that is not selected is
  \<open>None\<close>; a value with two alternatives cannot be built here, as the wire cannot carry one.
\<close>

type_synonym ValidationError = "string list \<times> string"

definition newValidationError :: "string list \<Rightarrow> string \<Rightarrow> ValidationError option" where
  "newValidationError path reason = Some (path, reason)"

definition wrapValidationError :: "ValidationError option \<Rightarrow> string \<Rightarrow> ValidationError option" where
  "wrapValidationError err segment = map_option (\<lambda>(path, reason). (segment # path, reason)) err"

definition joinValidationPath :: "string list \<Rightarrow> string" where
  "joinValidationPath parts = (case parts of [] \<Rightarrow> []
     | p # ps \<Rightarrow> p @ concat (map (\<lambda>q. if q \<noteq> [] \<and> hd q \<noteq> CHR ''['' then CHR ''.'' # q else q) ps))"

definition ValidationError_Error :: "ValidationError \<Rightarrow> string" where
  "ValidationError_Error e = joinValidationPath (fst e) @ '': '' @ snd e"

section \<open>Shared checks\<close>

definition check_each :: "string \<Rightarrow> ('a \<Rightarrow> ValidationError option) \<Rightarrow> 'a list \<Rightarrow> ValidationError option" where
  "check_each field f items = find_err (\<lambda>(i, item). wrapValidationError (f item) (field @ ''['' @ nat_text i @ '']'')) (List.enumerate 0 items)"

definition none_selected :: "ValidationError option" where
  "none_selected = wrapValidationError (newValidationError [] ''exactly one alternative must be selected'') ''value''"

definition at_least_1 :: "string \<Rightarrow> nat \<Rightarrow> ValidationError option" where
  "at_least_1 field n = (if n \<ge> 1 then None else newValidationError [field] ''must be at least 1'')"

definition at_least_1_if_set :: "string \<Rightarrow> nat maybe \<Rightarrow> ValidationError option" where
  "at_least_1_if_set field m = (if Present m then at_least_1 field (Value m) else None)"

definition port_range :: "string \<Rightarrow> nat \<Rightarrow> ValidationError option" where
  "port_range field n = then_err (at_least_1 field n) (if n \<le> 65535 then None else newValidationError [field] ''must be at most 65535'')"

text \<open>An enum with the defined values up to \<open>greatest\<close>, of which 0 is disallowed.\<close>

definition enum_field :: "string \<Rightarrow> int \<Rightarrow> int \<Rightarrow> ValidationError option" where
  "enum_field field greatest v =
    (if \<not> (0 \<le> v \<and> v \<le> greatest) then newValidationError [field] ''must be a defined enum value''
     else if v = 0 then newValidationError [field] ''must not be one of the disallowed values'' else None)"

section \<open>Addresses and references\<close>

definition octets_field :: "nat \<Rightarrow> bytes \<Rightarrow> ValidationError option" where
  "octets_field n bs =
    (if length bs < n then newValidationError [''octets''] (''must be at least '' @ nat_text n @ '' bytes'')
     else if length bs > n then newValidationError [''octets''] (''must be at most '' @ nat_text n @ '' bytes'') else None)"

definition IPv4Prefix_validate :: "bytes \<Rightarrow> nat \<Rightarrow> ValidationError option" where
  "IPv4Prefix_validate bs len = then_err (wrapValidationError (octets_field 4 bs) ''address'')
     (if len \<le> 32 then None else newValidationError [''prefix_length''] ''must be at most 32'')"

definition IPv6Prefix_validate :: "bytes \<Rightarrow> nat \<Rightarrow> ValidationError option" where
  "IPv6Prefix_validate bs len = then_err (wrapValidationError (octets_field 16 bs) ''address'')
     (if len \<le> 128 then None else newValidationError [''prefix_length''] ''must be at most 128'')"

definition IpPrefix_validate :: "IpPrefix \<Rightarrow> ValidationError option" where
  "IpPrefix_validate p = (case p of
     None \<Rightarrow> none_selected
   | Some v \<Rightarrow> (case pfx_Address v of
       Ipv4 bs \<Rightarrow> wrapValidationError (IPv4Prefix_validate bs (pfx_Length v)) ''ipv4''
     | Ipv6 bs \<Rightarrow> wrapValidationError (IPv6Prefix_validate bs (pfx_Length v)) ''ipv6''))"

text \<open>\<open>SecretRef\<close>, \<open>ConfigRef\<close> and \<open>AssetRef\<close> have the same check.\<close>

definition ValueRef_validate :: "ValueRef \<Rightarrow> ValidationError option" where
  "ValueRef_validate r = at_least_1 ''version'' (vref_Version r)"

section \<open>The container\<close>

definition EnvVar_validate :: "EnvVar option \<Rightarrow> ValidationError option" where
  "EnvVar_validate v = (case v of
     None \<Rightarrow> none_selected
   | Some (LiteralEnv _) \<Rightarrow> None
   | Some (SecretEnv r) \<Rightarrow> wrapValidationError (wrapValidationError (ValueRef_validate r) ''secret'') ''secret''
   | Some (ConfigEnv r) \<Rightarrow> wrapValidationError (wrapValidationError (ValueRef_validate r) ''config'') ''config''
   | Some (AssetEnv _ r) \<Rightarrow> wrapValidationError (wrapValidationError (ValueRef_validate r) ''asset'') ''asset''
   | Some (AddressEnv _ _) \<Rightarrow> None)"

definition CrossDeploymentMount_validate :: "CrossDeploymentMount \<Rightarrow> ValidationError option" where
  "CrossDeploymentMount_validate m = enum_field ''permission'' 3 (cdm_Permission m)"

definition HostMount_validate :: "HostMount \<Rightarrow> ValidationError option" where
  "HostMount_validate m = enum_field ''permission'' 3 (hm_Permission m)"

definition AssetMount_validate :: "AssetMount \<Rightarrow> ValidationError option" where
  "AssetMount_validate m = then_err (wrapValidationError (ValueRef_validate (am_Asset m)) ''asset'') (enum_field ''permission'' 3 (am_Permission m))"

definition ContainerRuntime_validate :: "ContainerRuntime \<Rightarrow> ValidationError option" where
  "ContainerRuntime_validate rt =
    then_err (find_err (\<lambda>(k, v). wrapValidationError (EnvVar_validate v) (''env_vars['' @ k @ '']'')) (rt_EnvVars rt))
    (then_err (check_each ''cross_deployment_mounts'' CrossDeploymentMount_validate (rt_CrossDeploymentMounts rt))
    (then_err (check_each ''mounts'' HostMount_validate (rt_Mounts rt))
    (then_err (check_each ''asset_mounts'' AssetMount_validate (rt_AssetMounts rt))
    (then_err (at_least_1_if_set ''dev_shm_size_kb'' (rt_DevShmSizeKb rt))
      (at_least_1_if_set ''file_descriptor_limit'' (rt_FileDescriptorLimit rt))))))"

definition ContainerReadinessSignal_validate :: "nat maybe \<Rightarrow> ValidationError option" where
  "ContainerReadinessSignal_validate timeout = at_least_1_if_set ''timeout_seconds'' timeout"

definition ContainerSource_validate :: "ContainerSource option \<Rightarrow> ValidationError option" where
  "ContainerSource_validate source = (case source of None \<Rightarrow> none_selected | Some _ \<Rightarrow> None)"

definition ContainerSpec_validate :: "ContainerSpec \<Rightarrow> ValidationError option" where
  "ContainerSpec_validate c =
    then_err (wrapValidationError (ContainerSource_validate (cs_Source c)) ''source'')
    (then_err (wrapValidationError (ContainerRuntime_validate (cs_Runtime c)) ''runtime'')
    (then_err (enum_field ''upgrade_strategy'' 2 (cs_UpgradeStrategy c))
      (case cs_ReadinessSignal c of None \<Rightarrow> None
       | Some timeout \<Rightarrow> wrapValidationError (ContainerReadinessSignal_validate timeout) ''readiness_signal'')))"

section \<open>Networking\<close>

definition IpFilter_validate :: "IpFilter \<Rightarrow> ValidationError option" where
  "IpFilter_validate f = then_err (enum_field ''mode'' 2 (ipf_Mode f)) (wrapValidationError (IpPrefix_validate (ipf_Prefix f)) ''prefix'')"

definition PortForward_validate :: "PortForward \<Rightarrow> ValidationError option" where
  "PortForward_validate pf =
    then_err (enum_field ''protocol'' 2 (pf_Protocol pf))
    (then_err (port_range ''host_port'' (pf_HostPort pf))
    (then_err (port_range ''container_port'' (pf_ContainerPort pf))
      (check_each ''ip_filter'' IpFilter_validate (pf_IpFilter pf))))"

definition IngressListen_validate :: "IngressListen \<Rightarrow> ValidationError option" where
  "IngressListen_validate l =
    then_err (case il_Node l of Some None \<Rightarrow> wrapValidationError none_selected ''node'' | _ \<Rightarrow> None)
      (check_each ''addresses'' IpPrefix_validate (il_Addresses l))"

definition TlsPassthroughConfig_validate :: "TlsPassthroughConfig \<Rightarrow> ValidationError option" where
  "TlsPassthroughConfig_validate c =
    then_err (if Present (tp_HostPort c) then port_range ''host_port'' (Value (tp_HostPort c)) else None)
      (port_range ''container_port'' (tp_ContainerPort c))"

definition CertSource_validate :: "CertSource option \<Rightarrow> ValidationError option" where
  "CertSource_validate s = (case s of
     None \<Rightarrow> none_selected
   | Some (AcmeCertSource challenge) \<Rightarrow> wrapValidationError (enum_field ''challenge'' 1 challenge) ''acme''
   | Some (SecretCertSource r) \<Rightarrow> wrapValidationError (wrapValidationError (ValueRef_validate r) ''secret'') ''secret'')"

definition HttpsConfig_validate :: "HttpsConfig \<Rightarrow> ValidationError option" where
  "HttpsConfig_validate c =
    then_err (port_range ''container_port'' (hc_ContainerPort c))
    (then_err (enum_field ''backend_protocol'' 2 (hc_BackendProtocol c))
    (then_err (at_least_1_if_set ''max_request_body_bytes'' (hc_MaxRequestBodyBytes c))
    (then_err (at_least_1_if_set ''flush_interval_ms'' (hc_FlushIntervalMs c))
      (case hc_CertSource c of None \<Rightarrow> None | Some source \<Rightarrow> wrapValidationError (CertSource_validate source) ''cert_source''))))"

definition IngressConfig_validate :: "IngressConfig option \<Rightarrow> ValidationError option" where
  "IngressConfig_validate c = (case c of
     None \<Rightarrow> none_selected
   | Some (TlsPassthrough cfg) \<Rightarrow> wrapValidationError (TlsPassthroughConfig_validate cfg) ''tls_passthrough''
   | Some (Https cfg) \<Rightarrow> wrapValidationError (HttpsConfig_validate cfg) ''https'')"

definition Ingress_validate :: "Ingress \<Rightarrow> ValidationError option" where
  "Ingress_validate i =
    then_err (check_each ''listen'' IngressListen_validate (in_Listen i)) (wrapValidationError (IngressConfig_validate (in_Config i)) ''config'')"

definition NetworkingConfig_validate :: "NetworkingConfig \<Rightarrow> ValidationError option" where
  "NetworkingConfig_validate c =
    then_err (enum_field ''mode'' 2 (nc_Mode c))
    (then_err (check_each ''port_forwarding'' PortForward_validate (nc_PortForwarding c))
      (check_each ''ingress'' Ingress_validate (nc_Ingress c)))"

section \<open>The spec\<close>

definition Workload_validate :: "ContainerSpec option \<Rightarrow> ValidationError option" where
  "Workload_validate w = (case w of None \<Rightarrow> none_selected | Some c \<Rightarrow> wrapValidationError (ContainerSpec_validate c) ''container'')"

definition DeploymentSpec_validate :: "DeploymentSpec \<Rightarrow> ValidationError option" where
  "DeploymentSpec_validate spec =
    then_err (wrapValidationError (Workload_validate (ds_Container spec)) ''workload'')
      (wrapValidationError (NetworkingConfig_validate (ds_Networking spec)) ''networking'')"

end
