(* ===== verification/Deploy_Spec.thy ===== *)
theory Deploy_Spec
  imports Deploy_Validate Source_Text Spec_Schema
begin

text \<open>
  The validation of a deployment spec before it is stored, \<open>ValidateSpecWithResolvers\<close> of
  \<open>backend/app/primary/domain/deployments/validate.go\<close> with everything it calls. The code checks and
  canonicalises a decoded copy in place; here each validator returns the canonical value or the error.
  A loop over a Go map runs in key order, which decides only which of several errors is reported. The
  environment is the table of its entries in key order.
\<close>

section \<open>Resolvers\<close>

text \<open>
  The interfaces \<open>AssetResolver\<close>, \<open>ConfigResolver\<close> and \<open>SecretResolver\<close>; a nil interface is \<open>None\<close>.
  \<open>sr_RevealByRef\<close> is the optional second interface \<open>certSecretRevealer\<close> of a secret store, and the
  inner \<open>None\<close> a read that fails. \<open>certificate_check\<close> is what \<open>crypto/tls\<close> and \<open>crypto/x509\<close> say of a
  PEM text; that code is an argument.
\<close>

type_synonym AssetResolver = "ValueRef \<Rightarrow> string option"
type_synonym ConfigResolver = "ValueRef \<Rightarrow> bool"

record SecretResolver =
  sr_MetaByRef :: "ValueRef \<Rightarrow> bool"
  sr_RevealByRef :: "(ValueRef \<Rightarrow> bytes option) option"

record certificate =
  cert_covers :: "string \<Rightarrow> bool"
  cert_NotAfter :: clock
  cert_NotAfter_text :: string

datatype certificate_check = BadKeyPair string | BadCertificate string | Leaf certificate

section \<open>Wire prefixes\<close>

definition Is4In6 :: "Addr \<Rightarrow> bool" where
  "Is4In6 a = (case a of Addr6 w z \<Rightarrow> drop_bit 32 w = 0xFFFF | _ \<Rightarrow> False)"

definition Unmap :: "Addr \<Rightarrow> Addr" where
  "Unmap a = (case a of Addr6 w z \<Rightarrow> if Is4In6 a then Addr4 (ucast w) else a | _ \<Rightarrow> a)"

definition octets :: "nat \<Rightarrow> 'a :: len word \<Rightarrow> bytes" where
  "octets n w = map (\<lambda>i. ucast (drop_bit (8 * i) w)) (rev [0 ..< n])"

definition PrefixOf :: "NetPrefix \<Rightarrow> IpPrefix" where
  "PrefixOf p =
    (let pfx = Masked p; len = (case np_Bits pfx of None \<Rightarrow> 2 ^ 32 - 1 | Some n \<Rightarrow> n) in
     case Unmap (np_Addr pfx) of
       Addr4 w \<Rightarrow> Some \<lparr>pfx_Address = Ipv4 (octets 4 w), pfx_Length = len\<rparr>
     | Addr6 w z \<Rightarrow> Some \<lparr>pfx_Address = Ipv6 (octets 16 w), pfx_Length = len\<rparr>
     | NoAddr \<Rightarrow> Some \<lparr>pfx_Address = Ipv6 (octets 16 (0 :: 128 word)), pfx_Length = len\<rparr>)"

definition IpPrefix_Masked :: "IpPrefix \<Rightarrow> bool" where
  "IpPrefix_Masked p = (case p of None \<Rightarrow> False
     | Some v \<Rightarrow> let pfx = IpPrefix_Prefix p;
                     bytes = (case pfx_Address v of Ipv4 bs \<Rightarrow> bs | Ipv6 bs \<Rightarrow> bs);
                     a = (if length bytes = 4 then Addr4 (word_rcat bytes) else if length bytes = 16 then Addr6 (word_rcat bytes) [] else NoAddr)
                 in a \<noteq> NoAddr \<and> np_Bits pfx \<noteq> None \<and> np_Addr pfx = a)"

definition FilterEntryString :: "NetPrefix \<Rightarrow> string" where
  "FilterEntryString prefix = (if literal_set prefix then addr_text (np_Addr prefix) else prefix_text prefix)"

section \<open>Networking\<close>

definition PORT_FORWARD_PROTOCOL_UDP :: int where "PORT_FORWARD_PROTOCOL_UDP = 2"
definition IP_FILTER_MODE_ALLOW :: int where "IP_FILTER_MODE_ALLOW = 1"
definition IP_FILTER_MODE_DENY :: int where "IP_FILTER_MODE_DENY = 2"

definition int_text :: "int \<Rightarrow> string" where
  "int_text n = (if n < 0 then CHR ''-'' # nat_text (nat (- n)) else nat_text (nat n))"

definition port_ok :: "nat \<Rightarrow> bool" where
  "port_ok p \<longleftrightarrow> \<not> (p < 1 \<or> p > 65535)"

fun validatePortForwardIpFilter :: "NetPrefix list \<Rightarrow> IpFilter list \<Rightarrow> deploy_error + IpFilter list" where
  "validatePortForwardIpFilter seen [] = Inr []"
| "validatePortForwardIpFilter seen (f # fs) =
    (let prefix = IpPrefix_Prefix (ipf_Prefix f) in
     if ipf_Mode f = IP_FILTER_MODE_DENY then Inl (InvalidConfigErr ''networking.portForwarding.ipFilter.deny is not supported yet'')
     else if ipf_Mode f \<noteq> IP_FILTER_MODE_ALLOW then Inl (InvalidConfigErr (''networking.portForwarding.ipFilter.mode: unsupported value '' @ int_text (ipf_Mode f)))
     else if np_Bits prefix = None then Inl (InvalidConfigErr ''networking.portForwarding.ipFilter.allow: entry is not a valid IP address or CIDR prefix'')
     else if Is4In6 (np_Addr prefix) then Inl (InvalidConfigErr (''networking.portForwarding.ipFilter.allow: '' @ quoted (FilterEntryString prefix) @ '' must use the plain IPv4 form''))
     else if \<not> IpPrefix_Masked (ipf_Prefix f) then Inl (InvalidConfigErr (''networking.portForwarding.ipFilter.allow: '' @ quoted (prefix_text prefix) @ '' has host bits set''))
     else if prefix \<in> set seen then Inl (InvalidConfigErr (''networking.portForwarding.ipFilter.allow: duplicate entry '' @ quoted (FilterEntryString prefix)))
     else bindE (validatePortForwardIpFilter (prefix # seen) fs) (\<lambda>fs'. Inr (f\<lparr>ipf_Prefix := PrefixOf prefix\<rparr> # fs')))"

definition portForwardProtocolName :: "int \<Rightarrow> string" where
  "portForwardProtocolName protocol =
    (if protocol = PORT_FORWARD_PROTOCOL_TCP then ''TCP'' else if protocol = PORT_FORWARD_PROTOCOL_UDP then ''UDP''
     else ''protocol '' @ int_text protocol)"

fun validatePortForwarding :: "(int \<times> nat) list \<Rightarrow> PortForward list \<Rightarrow> deploy_error + PortForward list" where
  "validatePortForwarding seen [] = Inr []"
| "validatePortForwarding seen (pf # pfs) =
    (let key = (pf_Protocol pf, pf_HostPort pf) in
     if \<not> (pf_Protocol pf = PORT_FORWARD_PROTOCOL_TCP \<or> pf_Protocol pf = PORT_FORWARD_PROTOCOL_UDP) then
       Inl (InvalidConfigErr (''networking.portForwarding.protocol: unsupported value '' @ int_text (pf_Protocol pf)))
     else if \<not> port_ok (pf_HostPort pf) then Inl (InvalidConfigErr ''networking.portForwarding.hostPort must be between 1 and 65535'')
     else if \<not> port_ok (pf_ContainerPort pf) then Inl (InvalidConfigErr ''networking.portForwarding.containerPort must be between 1 and 65535'')
     else bindE (validatePortForwardIpFilter [] (pf_IpFilter pf)) (\<lambda>filters.
       if key \<in> set seen then
         Inl (InvalidConfigErr (''networking.portForwarding: duplicate '' @ portForwardProtocolName (pf_Protocol pf) @ '' host port '' @ nat_text (pf_HostPort pf)))
       else bindE (validatePortForwarding (key # seen) pfs) (\<lambda>pfs'. Inr (pf\<lparr>pf_IpFilter := filters\<rparr> # pfs'))))"

definition defaultIngressHostPort :: nat where "defaultIngressHostPort = 443"
definition netproxyDNSPort :: nat where "netproxyDNSPort = 53"
definition httpsRedirectHostPort :: nat where "httpsRedirectHostPort = 80"

definition hostname_char :: "char \<Rightarrow> bool" where
  "hostname_char c \<longleftrightarrow> \<not> ((c < CHR ''a'' \<or> c > CHR ''z'') \<and> (c < CHR ''0'' \<or> c > CHR ''9'') \<and> c \<noteq> CHR ''-'')"

definition label_ok :: "string \<Rightarrow> bool" where
  "label_ok label \<longleftrightarrow> \<not> (label = [] \<or> length label > 63 \<or> hd label = CHR ''-'' \<or> last label = CHR ''-'') \<and> list_all hostname_char label"

definition ingressHostname :: "string \<Rightarrow> string option" where
  "ingressHostname value =
    (let hostname = TrimSuffix (ToLower (TrimSpace value)) ''.'' in
     if hostname = [] \<or> length hostname > 253 \<or> \<not> list_all label_ok (split_on (CHR ''.'') hostname) then None
     else Some hostname)"

definition ingressHostPort :: "nat maybe \<Rightarrow> nat" where
  "ingressHostPort port = (if \<not> Present port \<or> Value port = 0 then defaultIngressHostPort else Value port)"

definition normalizeHTTPSPathPrefix :: "string \<Rightarrow> string option" where
  "normalizeHTTPSPathPrefix text =
    (let prefix = TrimSpace text in
     if prefix = [] \<or> prefix = ''/'' then Some ''/''
     else if \<not> HasPrefix prefix ''/'' \<or> list_ex (\<lambda>c. c \<in> {CHR ''?'', CHR ''#'', CHR 0x5C, CHR '' '', CHR 0x09}) prefix then None
     else let trimmed = TrimSuffix prefix ''/'' in
       if Clean trimmed \<noteq> trimmed \<or> list_ex (\<lambda>c. c \<le> CHR '' '' \<or> c = CHR 0x7F) trimmed then None
       else Some trimmed)"

definition HTTP_BACKEND_PROTOCOL_H2C :: int where "HTTP_BACKEND_PROTOCOL_H2C = 1"
definition HTTP_BACKEND_PROTOCOL_HTTP1 :: int where "HTTP_BACKEND_PROTOCOL_HTTP1 = 2"
definition ACME_CHALLENGE_HTTP_01 :: int where "ACME_CHALLENGE_HTTP_01 = 1"

definition validateCertSecret ::
  "(bytes \<Rightarrow> certificate_check) \<Rightarrow> clock \<Rightarrow> (ValueRef \<Rightarrow> bytes option) \<Rightarrow> ValueRef \<Rightarrow> string \<Rightarrow> deploy_error option" where
  "validateCertSecret x509 now revealer ref hostname =
    (let scope = ''networking.ingress.httpsConfig.certSource.secret: '' in
     case revealer ref of
       None \<Rightarrow> Some (InvalidConfigErr (scope @ ''reading secret '' @ ref_text ref @ '' failed''))
     | Some value \<Rightarrow> (case x509 value of
         BadKeyPair e \<Rightarrow> Some (InvalidConfigErr (scope @ ''secret '' @ ref_text ref @ '' must hold a combined PEM certificate and private key: '' @ e))
       | BadCertificate e \<Rightarrow> Some (InvalidConfigErr (scope @ ''parsing certificate in secret '' @ ref_text ref @ '' failed: '' @ e))
       | Leaf leaf \<Rightarrow>
           if \<not> cert_covers leaf hostname then Some (InvalidConfigErr (scope @ ''certificate in secret '' @ ref_text ref @ '' does not cover '' @ hostname))
           else if now > cert_NotAfter leaf then Some (InvalidConfigErr (scope @ ''certificate in secret '' @ ref_text ref @ '' expired on '' @ cert_NotAfter_text leaf))
           else None))"

definition cert_source_error ::
  "(bytes \<Rightarrow> certificate_check) \<Rightarrow> clock \<Rightarrow> SecretResolver option \<Rightarrow> string \<Rightarrow> CertSource option option \<Rightarrow> deploy_error option" where
  "cert_source_error x509 now secretStore hostname certSource =
    (case certSource of
       None \<Rightarrow> None
     | Some None \<Rightarrow> Some (InvalidConfigErr ''networking.ingress.httpsConfig.certSource: exactly one of acme or secret must be set'')
     | Some (Some (AcmeCertSource challenge)) \<Rightarrow>
         if challenge = 0 \<or> challenge = ACME_CHALLENGE_HTTP_01 then None
         else Some (InvalidConfigErr (''networking.ingress.httpsConfig.certSource.acme.challenge: unsupported value '' @ int_text challenge))
     | Some (Some (SecretCertSource ref)) \<Rightarrow>
         if \<not> ref_valid ref then Some (InvalidConfigErr ''networking.ingress.httpsConfig.certSource.secret.secret: id and version must be positive'')
         else (case secretStore of
             None \<Rightarrow> Some (InvalidConfigErr ''networking.ingress.httpsConfig.certSource.secret: secrets cannot be resolved here'')
           | Some store \<Rightarrow>
               if \<not> sr_MetaByRef store ref then Some (InvalidConfigErr (''networking.ingress.httpsConfig.certSource.secret: unknown secret '' @ ref_text ref))
               else (case sr_RevealByRef store of None \<Rightarrow> None | Some revealer \<Rightarrow> validateCertSecret x509 now revealer ref hostname)))"

definition validateHTTPSConfig ::
  "(bytes \<Rightarrow> certificate_check) \<Rightarrow> clock \<Rightarrow> SecretResolver option \<Rightarrow> string \<Rightarrow> HttpsConfig \<Rightarrow> deploy_error + HttpsConfig" where
  "validateHTTPSConfig x509 now secretStore hostname cfg =
    (if \<not> port_ok (hc_ContainerPort cfg) then Inl (InvalidConfigErr ''networking.ingress.httpsConfig.containerPort must be between 1 and 65535'')
     else (case normalizeHTTPSPathPrefix (hc_PathPrefix cfg) of
         None \<Rightarrow> Inl (InvalidConfigErr ''networking.ingress.httpsConfig.pathPrefix must be a clean absolute path'')
       | Some prefix \<Rightarrow>
           if \<not> (hc_BackendProtocol cfg = 0 \<or> hc_BackendProtocol cfg = HTTP_BACKEND_PROTOCOL_H2C \<or> hc_BackendProtocol cfg = HTTP_BACKEND_PROTOCOL_HTTP1) then
             Inl (InvalidConfigErr (''networking.ingress.httpsConfig.backendProtocol: unsupported value '' @ int_text (hc_BackendProtocol cfg)))
           else if Present (hc_MaxRequestBodyBytes cfg) \<and> Value (hc_MaxRequestBodyBytes cfg) = 0 then
             Inl (InvalidConfigErr ''networking.ingress.httpsConfig.maxRequestBodyBytes must be at least 1 when set'')
           else (case cert_source_error x509 now secretStore hostname (hc_CertSource cfg) of
               Some e \<Rightarrow> Inl e
             | None \<Rightarrow> Inr (cfg\<lparr>hc_PathPrefix := prefix\<rparr>))))"

fun listen_addresses :: "NetPrefix list \<Rightarrow> IpPrefix list \<Rightarrow> deploy_error + IpPrefix list" where
  "listen_addresses seen [] = Inr []"
| "listen_addresses seen (a # as) =
    (let prefix = IpPrefix_Prefix a; canonical = Masked prefix in
     if np_Bits prefix = None then Inl (InvalidConfigErr ''networking.ingress.listen.address: entry is not an IP address or CIDR prefix'')
     else if Is4In6 (np_Addr prefix) then Inl (InvalidConfigErr (''networking.ingress.listen.address: '' @ quoted (prefix_text prefix) @ '' must be a plain IPv4 or IPv6 prefix''))
     else if canonical \<in> set seen then Inl (InvalidConfigErr (''networking.ingress.listen.address: duplicate entry '' @ quoted (FilterEntryString canonical)))
     else bindE (listen_addresses (canonical # seen) as) (\<lambda>as'. Inr (PrefixOf canonical # as')))"

definition validate_listen :: "IngressListen \<Rightarrow> deploy_error + IngressListen" where
  "validate_listen entry =
    (if il_Node entry = Some None then Inl (InvalidConfigErr ''networking.ingress.listen.node: any or specific is required'')
     else if il_Node entry = Some (Some (SpecificNode 0)) then Inl (InvalidConfigErr ''networking.ingress.listen.node.nodeId must be positive'')
     else bindE (listen_addresses [] (il_Addresses entry)) (\<lambda>as. Inr (entry\<lparr>il_Addresses := as\<rparr>)))"

definition ValidateIngressListen :: "IngressListen list \<Rightarrow> deploy_error + IngressListen list" where
  "ValidateIngressListen entries = mapE validate_listen entries"

text \<open>The loop of \<open>validateIngress\<close> over the routes: the TLS passthrough keys and the HTTPS keys seen so
  far, and at its end the host names that use both on the default port.\<close>

fun validate_routes ::
  "(bytes \<Rightarrow> certificate_check) \<Rightarrow> clock \<Rightarrow> SecretResolver option \<Rightarrow> (nat \<times> string) list \<Rightarrow> (string \<times> string) list \<Rightarrow> Ingress list \<Rightarrow> deploy_error + Ingress list" where
  "validate_routes x509 now secretStore seen seenHTTPS [] =
    (case find (\<lambda>(hostname, _). (defaultIngressHostPort, hostname) \<in> set seen) seenHTTPS of
       Some (hostname, _) \<Rightarrow> Inl (InvalidConfigErr (''networking.ingress: '' @ hostname @ '' cannot use both HTTPS and TLS_PASSTHROUGH on host port '' @ nat_text defaultIngressHostPort))
     | None \<Rightarrow> Inr [])"
| "validate_routes x509 now secretStore seen seenHTTPS (route # routes) =
    (case ingressHostname (in_Hostname route) of
       None \<Rightarrow> Inl (InvalidConfigErr ''networking.ingress.hostname must be a valid DNS hostname'')
     | Some hostname \<Rightarrow> bindE (ValidateIngressListen (in_Listen route)) (\<lambda>listen.
         let route' = route\<lparr>in_Hostname := hostname, in_Listen := listen\<rparr> in
         case in_Config route of
           Some (TlsPassthrough cfg) \<Rightarrow>
             if Present (tp_HostPort cfg) \<and> \<not> port_ok (Value (tp_HostPort cfg)) then
               Inl (InvalidConfigErr ''networking.ingress.tlsPassthroughConfig.hostPort must be between 1 and 65535 when set'')
             else if \<not> port_ok (tp_ContainerPort cfg) then Inl (InvalidConfigErr ''networking.ingress.tlsPassthroughConfig.containerPort must be between 1 and 65535'')
             else let hostPort = ingressHostPort (tp_HostPort cfg) in
               if hostPort = netproxyDNSPort then Inl (InvalidConfigErr (''networking.ingress.tlsPassthroughConfig.hostPort '' @ nat_text hostPort @ '' is reserved for opendeploy-net DNS''))
               else if hostPort = httpsRedirectHostPort then
                 Inl (InvalidConfigErr (''networking.ingress.tlsPassthroughConfig.hostPort '' @ nat_text hostPort @ '' is reserved for HTTPS ingress redirects''))
               else if (hostPort, hostname) \<in> set seen then
                 Inl (InvalidConfigErr (''networking.ingress: duplicate TLS_PASSTHROUGH route for '' @ hostname @ '' on host port '' @ nat_text hostPort))
               else bindE (validate_routes x509 now secretStore ((hostPort, hostname) # seen) seenHTTPS routes) (\<lambda>rs. Inr (route' # rs))
         | Some (Https cfg) \<Rightarrow> bindE (validateHTTPSConfig x509 now secretStore hostname cfg) (\<lambda>cfg'.
             let key = (hostname, hc_PathPrefix cfg') in
             if key \<in> set seenHTTPS then Inl (InvalidConfigErr (''networking.ingress: duplicate HTTPS route for '' @ hostname @ hc_PathPrefix cfg'))
             else bindE (validate_routes x509 now secretStore seen (key # seenHTTPS) routes) (\<lambda>rs. Inr (route'\<lparr>in_Config := Some (Https cfg')\<rparr> # rs)))
         | None \<Rightarrow> Inl (InvalidConfigErr ''networking.ingress.config: exactly one of tlsPassthrough or https must be set'')))"

definition validateIngress :: "(bytes \<Rightarrow> certificate_check) \<Rightarrow> clock \<Rightarrow> SecretResolver option \<Rightarrow> Ingress list \<Rightarrow> deploy_error + Ingress list" where
  "validateIngress x509 now secretStore ingress = validate_routes x509 now secretStore [] [] ingress"

definition validateNetworkingConfig ::
  "(bytes \<Rightarrow> certificate_check) \<Rightarrow> clock \<Rightarrow> SecretResolver option \<Rightarrow> NetworkingConfig \<Rightarrow> deploy_error + NetworkingConfig" where
  "validateNetworkingConfig x509 now secretStore cfg =
    (if nc_Mode cfg = NETWORKING_MODE_VIRTUAL then
       bindE (validatePortForwarding [] (nc_PortForwarding cfg)) (\<lambda>pfs.
       bindE (validateIngress x509 now secretStore (nc_Ingress cfg)) (\<lambda>ingress.
         Inr (cfg\<lparr>nc_PortForwarding := pfs, nc_Ingress := ingress\<rparr>)))
     else if nc_Mode cfg = NETWORKING_MODE_HOST then
       if nc_PortForwarding cfg \<noteq> [] then Inl (InvalidConfigErr ''networking.portForwarding requires virtual mode'')
       else if nc_Ingress cfg \<noteq> [] then Inl (InvalidConfigErr ''networking.ingress requires virtual mode'')
       else Inr cfg
     else Inl (InvalidConfigErr (''networking.mode: unsupported value '' @ int_text (nc_Mode cfg))))"

section \<open>Sources\<close>

definition NetproxyImage :: string where "NetproxyImage = ''opendeploy-net''"

definition validateContainerSource :: "ContainerSource option \<Rightarrow> deploy_error + ContainerSource option" where
  "validateContainerSource source =
    (case source of
       None \<Rightarrow> Inl (InvalidConfigErr ''container1Spec.source: exactly one of nixDockerBuild or remoteImage must be set'')
     | Some (NixImageBuild repo flake target) \<Rightarrow>
         if repo = [] then Inl (InvalidConfigErr ''container1Spec.source.nixDockerBuild: repo is required'')
         else if flake = [] then Inl (InvalidConfigErr ''container1Spec.source.nixDockerBuild: flake is required'')
         else (case CleanFlakePath flake of
             Inl e \<Rightarrow> Inl (InvalidConfigErr (''container1Spec.source.nixDockerBuild.flake: '' @ e))
           | Inr flakePath \<Rightarrow>
               if target \<noteq> [] \<and> (target \<noteq> TrimSpace target \<or> \<not> HasPrefix target ''.#'') then
                 Inl (InvalidConfigErr ''container1Spec.source.nixDockerBuild.target: must be a local flake selector starting with .#'')
               else Inr (Some (NixImageBuild repo flakePath target)))
     | Some (RemoteImage img) \<Rightarrow>
         if img = [] then Inl (InvalidConfigErr ''container1Spec.source.remoteImage: image is required'')
         else if img = NetproxyImage then Inl (InvalidConfigErr ''container1Spec.source.remoteImage: opendeploy-net image is internal-only'')
         else Inr source)"

section \<open>The container\<close>

definition validateContainerCommand :: "string list \<Rightarrow> string list" where
  "validateContainerCommand args = filter (\<lambda>arg. arg \<noteq> []) (map TrimSpace args)"

text \<open>The messages of the environment start with the scope the code passes.\<close>

definition env_scope :: string where "env_scope = ''container1Spec.runtime.envVars''"

definition env_value_error :: "string \<Rightarrow> EnvVar option \<Rightarrow> deploy_error option" where
  "env_value_error scope v =
    (case v of
       None \<Rightarrow> Some (InvalidConfigErr (scope @ '': exactly one of literal, secret, config, asset, or address is required''))
     | Some (LiteralEnv _) \<Rightarrow> None
     | Some (SecretEnv r) \<Rightarrow> if ref_valid r then None else Some (InvalidConfigErr (scope @ '': secret id and version must be positive''))
     | Some (ConfigEnv r) \<Rightarrow> if ref_valid r then None else Some (InvalidConfigErr (scope @ '': config id and version must be positive''))
     | Some (AssetEnv _ r) \<Rightarrow> if ref_valid r then None else Some (InvalidConfigErr (scope @ '': asset id and version must be positive''))
     | Some (AddressEnv dep space) \<Rightarrow>
         if dep = 0 then Some (InvalidConfigErr (scope @ '': addressDeploymentId must be positive''))
         else if dep > unat MaxDeploymentID then Some (InvalidConfigErr (scope @ '': addressDeploymentId must not exceed '' @ nat_text (unat MaxDeploymentID)))
         else if space > unat MaxSpaceID then Some (InvalidConfigErr (scope @ '': addressSpaceId must be between 0 and '' @ nat_text (unat MaxSpaceID)))
         else None)"

fun trim_env :: "string list \<Rightarrow> (string \<times> EnvVar option) list \<Rightarrow> deploy_error + (string \<times> EnvVar option) list" where
  "trim_env seen [] = Inr []"
| "trim_env seen ((rawKey, value) # rest) =
    (let key = TrimSpace rawKey in
     if key = [] then Inl (InvalidConfigErr (env_scope @ '': key is required''))
     else if key \<in> set seen then Inl (InvalidConfigErr (env_scope @ '': duplicate key '' @ quoted key))
     else (case env_value_error (env_scope @ ''.'' @ key) value of
         Some e \<Rightarrow> Inl e
       | None \<Rightarrow> bindE (trim_env (key # seen) rest) (\<lambda>rest'. Inr ((key, value) # rest'))))"

definition validateEnvVars :: "(string \<times> EnvVar option) list \<Rightarrow> deploy_error + (string \<times> EnvVar option) list" where
  "validateEnvVars env = bindE (trim_env [] env) (\<lambda>out. Inr (sort_key fst out))"

definition CONTAINER_UPGRADE_STRATEGY_UNSPECIFIED :: int where "CONTAINER_UPGRADE_STRATEGY_UNSPECIFIED = 0"
definition CONTAINER_UPGRADE_STRATEGY_RECREATE :: int where "CONTAINER_UPGRADE_STRATEGY_RECREATE = 1"
definition CONTAINER_UPGRADE_STRATEGY_ROLLOVER :: int where "CONTAINER_UPGRADE_STRATEGY_ROLLOVER = 2"

definition validateContainerUpgrade :: "ContainerSpec \<Rightarrow> deploy_error + ContainerSpec" where
  "validateContainerUpgrade cfg =
    (if cs_UpgradeStrategy cfg = CONTAINER_UPGRADE_STRATEGY_UNSPECIFIED then Inr (cfg\<lparr>cs_UpgradeStrategy := CONTAINER_UPGRADE_STRATEGY_RECREATE\<rparr>)
     else if cs_UpgradeStrategy cfg = CONTAINER_UPGRADE_STRATEGY_RECREATE then Inr (cfg\<lparr>cs_ReadinessSignal := None\<rparr>)
     else if cs_UpgradeStrategy cfg = CONTAINER_UPGRADE_STRATEGY_ROLLOVER then
       if list_ex (\<lambda>(k, _). k = ''OPENDEPLOY_READINESS_SOCK_PATH'') (rt_EnvVars (cs_Runtime cfg)) then
         Inl (InvalidConfigErr (env_scope @ '': OPENDEPLOY_READINESS_SOCK_PATH is reserved for rollover readiness''))
       else let signal = (case cs_ReadinessSignal cfg of None \<Rightarrow> absent 0 | Some timeout \<Rightarrow> timeout) in
         if Present signal \<and> Value signal = 0 then
           Inl (InvalidConfigErr ''container1Spec.readinessSignal.timeoutSeconds must be at least 1 when set'')
         else Inr (cfg\<lparr>cs_ReadinessSignal := Some signal\<rparr>)
     else Inl (InvalidConfigErr (''container1Spec.upgradeStrategy: unsupported value '' @ int_text (cs_UpgradeStrategy cfg))))"

definition validateContainerDevShmSizeKb :: "nat maybe \<Rightarrow> deploy_error option" where
  "validateContainerDevShmSizeKb m = (if Present m \<and> Value m = 0 then Some (InvalidConfigErr ''container1Spec.runtime.devShmSizeKb must be at least 1 when set'') else None)"

definition validateContainerFileDescriptorLimit :: "nat maybe \<Rightarrow> deploy_error option" where
  "validateContainerFileDescriptorLimit m =
    (if Present m \<and> Value m = 0 then Some (InvalidConfigErr ''container1Spec.runtime.fileDescriptorLimit must be at least 1 when set'') else None)"

definition cleanContainerPath :: "string \<Rightarrow> string + string" where
  "cleanContainerPath text =
    (let path = TrimSpace text in
     if \<not> IsAbs path \<or> Clean path \<noteq> path \<or> path = ''/'' then Inl ''must be a clean absolute path other than root'' else Inr path)"

text \<open>A message of \<open>cleanContainerPath\<close> is reported under the field it is about.\<close>

definition at_field :: "string \<Rightarrow> string + 'a \<Rightarrow> deploy_error + 'a" where
  "at_field scope r = (case r of Inl e \<Rightarrow> Inl (InvalidConfigErr (scope @ e)) | Inr a \<Rightarrow> Inr a)"

definition validateDefaultVolume :: "DefaultVolumeMount \<Rightarrow> deploy_error + DefaultVolumeMount" where
  "validateDefaultVolume mount =
    (if dv_ContainerPath mount = [] then Inr mount
     else bindE (at_field ''container1Spec.runtime.defaultVolume.containerPath: '' (cleanContainerPath (dv_ContainerPath mount))) (\<lambda>path.
       Inr (mount\<lparr>dv_ContainerPath := path\<rparr>)))"

definition FILE_PERMISSION_READ_WRITE :: int where "FILE_PERMISSION_READ_WRITE = 1"
definition FILE_PERMISSION_READ_ONLY :: int where "FILE_PERMISSION_READ_ONLY = 2"
definition FILE_PERMISSION_READ_EXECUTE :: int where "FILE_PERMISSION_READ_EXECUTE = 3"

definition validMountPermission :: "int \<Rightarrow> bool" where
  "validMountPermission permission \<longleftrightarrow> permission = FILE_PERMISSION_READ_WRITE \<or> permission = FILE_PERMISSION_READ_ONLY"

definition deniedContainerHostMountRoots :: "string list" where
  "deniedContainerHostMountRoots =
    [''/boot'', ''/dev'', ''/etc'', ''/proc'', ''/root'', ''/run'', ''/sys'', ''/var/run'', ''/var/lib/containerd'', ''/var/lib/docker'',
     ''/var/lib/opendeploy'', ''/var/lib/opendeploy-assets'', ''/var/lib/opendeploy-build-logs'', ''/var/lib/opendeploy-containerd'',
     ''/var/lib/opendeploy-log-archive'', ''/var/lib/opendeploy-metrics'', ''/var/lib/opendeploy-releases'', ''/var/lib/opendeploy-run-logs'',
     ''/var/lib/opendeploy-volumes'']"

definition pathEqualOrUnder :: "string \<Rightarrow> string \<Rightarrow> bool" where
  "pathEqualOrUnder path root \<longleftrightarrow> path = Clean root \<or> HasPrefix path (Clean root @ ''/'')"

definition containerHostMountDenied :: "string \<Rightarrow> bool" where
  "containerHostMountDenied text \<longleftrightarrow>
    (let host = Clean text in
     host = ''/'' \<or> list_ex (\<lambda>root. pathEqualOrUnder host root \<or> pathEqualOrUnder root host) deniedContainerHostMountRoots)"

definition validate_host_mount :: "HostMount \<Rightarrow> deploy_error + HostMount" where
  "validate_host_mount m =
    (let host = TrimSpace (hm_HostPath m); container = TrimSpace (hm_ContainerPath m) in
     if host = [] \<or> container = [] then Inl (InvalidConfigErr ''container1Spec.runtime.mounts: hostPath and containerPath are both required'')
     else if \<not> IsAbs host then Inl (InvalidConfigErr ''container1Spec.runtime.mounts: hostPath must be absolute'')
     else if Clean host \<noteq> host \<or> host = ''/'' then Inl (InvalidConfigErr ''container1Spec.runtime.mounts: hostPath must be a clean absolute path'')
     else bindE (at_field ''container1Spec.runtime.mounts.containerPath: '' (cleanContainerPath container)) (\<lambda>cleaned.
       if containerHostMountDenied host then Inl (InvalidConfigErr (''container1Spec.runtime.mounts: host path '' @ quoted host @ '' is not allowed''))
       else if \<not> validMountPermission (hm_Permission m) then Inl (InvalidConfigErr ''container1Spec.runtime.mounts: permission is required'')
       else Inr (m\<lparr>hm_HostPath := host, hm_ContainerPath := cleaned\<rparr>)))"

definition validateCustomHostMounts :: "HostMount list \<Rightarrow> deploy_error + HostMount list" where
  "validateCustomHostMounts mounts = mapE validate_host_mount mounts"

definition validate_cross_mount :: "CrossDeploymentMount \<Rightarrow> deploy_error + CrossDeploymentMount" where
  "validate_cross_mount m =
    (if cdm_DeploymentID m = 0 then Inl (InvalidConfigErr ''container1Spec.runtime.crossDeploymentMounts: deploymentId is required'')
     else bindE (at_field ''container1Spec.runtime.crossDeploymentMounts.containerPath: '' (cleanContainerPath (cdm_ContainerPath m))) (\<lambda>path.
       if \<not> validMountPermission (cdm_Permission m) then Inl (InvalidConfigErr ''container1Spec.runtime.crossDeploymentMounts: permission is required'')
       else Inr (m\<lparr>cdm_ContainerPath := path\<rparr>)))"

definition validateCrossDeploymentMounts :: "CrossDeploymentMount list \<Rightarrow> deploy_error + CrossDeploymentMount list" where
  "validateCrossDeploymentMounts mounts = mapE validate_cross_mount mounts"

definition resolve_asset_mount :: "AssetResolver \<Rightarrow> AssetMount \<Rightarrow> deploy_error + AssetMount" where
  "resolve_asset_mount assetStore m =
    (let path = TrimSpace (am_ContainerPath m); scope = ''container1Spec.runtime.assetMounts: '' in
     if \<not> ref_valid (am_Asset m) \<or> path = [] then Inl (InvalidConfigErr (scope @ ''asset and path are both required''))
     else if \<not> IsAbs path then Inl (InvalidConfigErr (scope @ ''path must be absolute''))
     else if Clean path \<noteq> path \<or> Clean path = ''/'' \<or> HasSuffix path ''/'' then Inl (InvalidConfigErr (scope @ ''path must be an absolute file path''))
     else if assetStore (am_Asset m) = None then Inl (InvalidConfigErr (scope @ ''asset '' @ ref_text (am_Asset m) @ '' not found''))
     else if am_Permission m \<noteq> FILE_PERMISSION_READ_ONLY \<and> am_Permission m \<noteq> FILE_PERMISSION_READ_EXECUTE then
       Inl (InvalidConfigErr (scope @ ''permission must be READ_ONLY or READ_EXECUTE''))
     else Inr (m\<lparr>am_ContainerPath := Clean path\<rparr>))"

definition resolveAssetMounts :: "AssetResolver option \<Rightarrow> AssetMount list \<Rightarrow> deploy_error + AssetMount list" where
  "resolveAssetMounts assetStore ms =
    (if ms = [] then Inr []
     else (case assetStore of
         None \<Rightarrow> Inl (InvalidConfigErr ''container1Spec.runtime.assetMounts: assets cannot be resolved here'')
       | Some f \<Rightarrow> mapE (resolve_asset_mount f) ms))"

definition resolve_env_asset :: "AssetResolver option \<Rightarrow> string \<times> EnvVar option \<Rightarrow> deploy_error + string \<times> EnvVar option" where
  "resolve_env_asset assetStore kv =
    (case snd kv of
       Some (AssetEnv _ ref) \<Rightarrow>
         (case assetStore of
            None \<Rightarrow> Inl (InvalidConfigErr (env_scope @ ''.'' @ fst kv @ '': assets cannot be resolved here''))
          | Some f \<Rightarrow> (case f ref of
              None \<Rightarrow> Inl (InvalidConfigErr (env_scope @ ''.'' @ fst kv @ '': asset '' @ ref_text ref @ '' not found''))
            | Some assetKey \<Rightarrow> Inr (fst kv, Some (AssetEnv assetKey ref))))
     | _ \<Rightarrow> Inr kv)"

definition resolveEnvAssetRefs :: "AssetResolver option \<Rightarrow> (string \<times> EnvVar option) list \<Rightarrow> deploy_error + (string \<times> EnvVar option) list" where
  "resolveEnvAssetRefs assetStore env = mapE (resolve_env_asset assetStore) env"

fun trim_names :: "nat \<Rightarrow> string list \<Rightarrow> deploy_error + string list" where
  "trim_names i [] = Inr []"
| "trim_names i (n # ns) =
    (let name = TrimSpace n in
     if name = [] \<or> length name > 253 \<or> list_ex (\<lambda>c. c \<in> {CHR '' '', CHR 0x09, CHR 0x0A, CHR '','', CHR ''*''}) name then
       Inl (InvalidConfigErr (''container1Spec.runtime.issuedTlsMount: extraNames['' @ nat_text i @ ''] is not a valid host name or IP address''))
     else bindE (trim_names (i + 1) ns) (\<lambda>ns'. Inr (name # ns')))"

definition validateIssuedTLSMount :: "IssuedTLSMount \<Rightarrow> deploy_error + IssuedTLSMount" where
  "validateIssuedTLSMount mount =
    (let path = TrimSpace (tls_ContainerPath mount); scope = ''container1Spec.runtime.issuedTlsMount: '' in
     if path = [] then Inl (InvalidConfigErr (scope @ ''containerPath is required''))
     else if \<not> IsAbs path then Inl (InvalidConfigErr (scope @ ''containerPath must be absolute''))
     else if Clean path \<noteq> path \<or> Clean path = ''/'' \<or> HasSuffix path ''/'' then Inl (InvalidConfigErr (scope @ ''containerPath must be an absolute directory path''))
     else if tls_CaOnly mount \<and> tls_ExtraNames mount \<noteq> [] then Inl (InvalidConfigErr (scope @ ''extraNames are not allowed with caOnly''))
     else if length (tls_ExtraNames mount) > 16 then Inl (InvalidConfigErr (scope @ ''at most 16 extra names are allowed''))
     else bindE (trim_names 0 (tls_ExtraNames mount)) (\<lambda>names. Inr (mount\<lparr>tls_ContainerPath := Clean path, tls_ExtraNames := names\<rparr>)))"

definition validate_issued :: "IssuedTLSMount option \<Rightarrow> deploy_error + IssuedTLSMount option" where
  "validate_issued m = (case m of None \<Rightarrow> Inr None | Some mount \<Rightarrow> bindE (validateIssuedTLSMount mount) (\<lambda>mount'. Inr (Some mount')))"

definition fails :: "deploy_error option \<Rightarrow> deploy_error + unit" where
  "fails e = (case e of None \<Rightarrow> Inr () | Some x \<Rightarrow> Inl x)"

definition validateContainerSpec :: "AssetResolver option \<Rightarrow> ContainerSpec \<Rightarrow> deploy_error + ContainerSpec" where
  "validateContainerSpec assetStore container =
    (let rt = (cs_Runtime container)\<lparr>rt_OverrideCommand := validateContainerCommand (rt_OverrideCommand (cs_Runtime container))\<rparr> in
     bindE (validateEnvVars (rt_EnvVars rt)) (\<lambda>env.
     bindE (validateContainerUpgrade (container\<lparr>cs_Runtime := rt\<lparr>rt_EnvVars := env\<rparr>\<rparr>)) (\<lambda>c.
     bindE (fails (validateContainerDevShmSizeKb (rt_DevShmSizeKb rt))) (\<lambda>_.
     bindE (fails (validateContainerFileDescriptorLimit (rt_FileDescriptorLimit rt))) (\<lambda>_.
     bindE (validateDefaultVolume (rt_DefaultVolume rt)) (\<lambda>volume.
     bindE (resolveEnvAssetRefs assetStore env) (\<lambda>env'.
     bindE (validateCustomHostMounts (rt_Mounts rt)) (\<lambda>mounts.
     bindE (validateCrossDeploymentMounts (rt_CrossDeploymentMounts rt)) (\<lambda>cross.
     bindE (resolveAssetMounts assetStore (rt_AssetMounts rt)) (\<lambda>assetMounts.
     bindE (validate_issued (rt_IssuedTlsMount rt)) (\<lambda>issued.
       Inr (c\<lparr>cs_Runtime := rt\<lparr>rt_EnvVars := env', rt_DefaultVolume := volume, rt_Mounts := mounts, rt_CrossDeploymentMounts := cross,
              rt_AssetMounts := assetMounts, rt_IssuedTlsMount := issued\<rparr>\<rparr>))))))))))))"

section \<open>The spec\<close>

definition env_ref_error :: "SecretResolver option \<Rightarrow> ConfigResolver option \<Rightarrow> EnvVar option \<Rightarrow> deploy_error option" where
  "env_ref_error secretStore configStore v =
    (case v of
       Some (SecretEnv ref) \<Rightarrow> (case secretStore of
           None \<Rightarrow> Some (InvalidConfigErr (env_scope @ '': secrets cannot be resolved here''))
         | Some store \<Rightarrow> if sr_MetaByRef store ref then None else Some (InvalidConfigErr (env_scope @ '': unknown secret '' @ ref_text ref)))
     | Some (ConfigEnv ref) \<Rightarrow> (case configStore of
           None \<Rightarrow> Some (InvalidConfigErr (env_scope @ '': configs cannot be resolved here''))
         | Some f \<Rightarrow> if f ref then None else Some (InvalidConfigErr (env_scope @ '': unknown config '' @ ref_text ref)))
     | _ \<Rightarrow> None)"

definition validateRuntimeEnvRefs :: "SecretResolver option \<Rightarrow> ConfigResolver option \<Rightarrow> DeploymentSpec \<Rightarrow> deploy_error option" where
  "validateRuntimeEnvRefs secretStore configStore spec = find_err (\<lambda>(_, v). env_ref_error secretStore configStore v) (env_vars spec)"

text \<open>A copy is made by encoding and decoding: the schema checks run first, and what passes them is its own
  copy.\<close>

definition cloneDeploymentSpec :: "DeploymentSpec \<Rightarrow> string + DeploymentSpec" where
  "cloneDeploymentSpec spec = (case DeploymentSpec_validate spec of Some e \<Rightarrow> Inl (ValidationError_Error e) | None \<Rightarrow> Inr spec)"

definition ValidateSpecWithResolvers ::
  "(bytes \<Rightarrow> certificate_check) \<Rightarrow> clock \<Rightarrow> AssetResolver option \<Rightarrow> SecretResolver option \<Rightarrow> ConfigResolver option \<Rightarrow> DeploymentSpec \<Rightarrow> deploy_error + DeploymentSpec" where
  "ValidateSpecWithResolvers x509 now assetStore secretStore configStore spec =
    bindE (at_field ''spec is invalid: '' (cloneDeploymentSpec spec)) (\<lambda>copy.
     case ds_Container copy of
       None \<Rightarrow> Inl (InvalidConfigErr ''container1Spec is required'')
     | Some container \<Rightarrow>
        bindE (validateContainerSource (cs_Source container)) (\<lambda>source.
        bindE (validateContainerSpec assetStore (container\<lparr>cs_Source := source\<rparr>)) (\<lambda>c.
        bindE (validateNetworkingConfig x509 now secretStore (ds_Networking copy)) (\<lambda>net.
          let out = copy\<lparr>ds_Container := Some c, ds_Networking := net\<rparr> in
          bindE (fails (validateRuntimeEnvRefs secretStore configStore out)) (\<lambda>_. Inr out)))))"

end
