(* ===== verification/Text_Lemmas.thy ===== *)
theory Text_Lemmas
  imports Source_Text "HOL-Library.Sublist"
begin

text \<open>
  What the text functions do: splitting and joining, blanks and letter case, and the elements of a clean
  path.
\<close>

section \<open>Splitting and joining\<close>

lemma split_on_nonempty [simp]: "split_on c s \<noteq> []"
  by (induction s) (auto split: list.splits)

lemma split_on_no_sep: "w \<in> set (split_on c s) \<Longrightarrow> c \<notin> set w"
proof (induction s arbitrary: w)
  case (Cons x s)
  then show ?case by (cases "split_on c s") (auto split: if_splits)
qed simp

lemma joined_Cons: "xs \<noteq> [] \<Longrightarrow> joined sep (x # xs) = x @ sep @ joined sep xs"
  by (cases xs) auto

lemma joined_append: "xs \<noteq> [] \<Longrightarrow> ys \<noteq> [] \<Longrightarrow> joined sep (xs @ ys) = joined sep xs @ sep @ joined sep ys"
proof (induction xs)
  case (Cons x xs)
  then show ?case by (cases "xs = []") (simp_all add: joined_Cons)
qed simp

lemma joined_split: "joined [c] (split_on c s) = s"
proof (induction s)
  case (Cons x s)
  obtain w ws where w: "split_on c s = w # ws" by (cases "split_on c s") auto
  with Cons show ?case by (cases "ws = []") (auto simp: joined_Cons)
qed simp

lemma split_on_plain: "c \<notin> set w \<Longrightarrow> split_on c w = [w]"
  by (induction w) auto

lemma split_on_app: "c \<notin> set w \<Longrightarrow> split_on c (w @ c # s) = w # split_on c s"
  by (induction w) auto

lemma split_joined: "xs \<noteq> [] \<Longrightarrow> (\<And>x. x \<in> set xs \<Longrightarrow> c \<notin> set x) \<Longrightarrow> split_on c (joined [c] xs) = xs"
proof (induction xs)
  case (Cons x xs)
  then show ?case by (cases "xs = []") (simp_all add: joined_Cons split_on_plain split_on_app)
qed simp

lemma set_joined: "set (joined sep xs) \<subseteq> set sep \<union> (\<Union>x \<in> set xs. set x)"
  by (induction sep xs rule: joined.induct) auto

lemma last_joined: "xs \<noteq> [] \<Longrightarrow> last xs \<noteq> [] \<Longrightarrow> last (joined sep xs) = last (last xs) \<and> joined sep xs \<noteq> []"
  by (induction sep xs rule: joined.induct) auto

section \<open>Blanks and case\<close>

lemma leading_None: "leading_rune runes s = None \<longleftrightarrow> (\<forall>r \<in> set runes. r \<noteq> [] \<longrightarrow> \<not> prefix r s)"
  by (auto simp: leading_rune_def find_None_iff prefix_def) (metis append_take_drop_id)+

lemma trim_left_stops: "leading_rune runes (trim_left runes s) = None"
  by (induction runes s rule: trim_left.induct) (subst trim_left.simps, auto split: option.splits)

lemma trim_left_id: "leading_rune runes s = None \<Longrightarrow> trim_left runes s = s"
  by (subst trim_left.simps) simp

lemma trim_left_suffix: "suffix (trim_left runes s) s"
proof (induction runes s rule: trim_left.induct)
  case (1 runes s)
  then show ?case
    by (subst trim_left.simps) (auto split: option.splits intro: suffix_order.trans suffix_drop)
qed

definition trimmed :: "string \<Rightarrow> bool" where
  "trimmed s \<longleftrightarrow> leading_rune space_runes s = None \<and> leading_rune (map rev space_runes) (rev s) = None"

lemma TrimSpace_part: "\<exists>a b. s = a @ TrimSpace s @ b"
proof -
  obtain a where a: "s = a @ trim_left space_runes s" using trim_left_suffix [of space_runes s] by (auto simp: suffix_def)
  obtain b where "rev (trim_left space_runes s) = b @ trim_left (map rev space_runes) (rev (trim_left space_runes s))"
    using trim_left_suffix [of "map rev space_runes"] by (auto simp: suffix_def)
  then have "trim_left space_runes s = TrimSpace s @ rev b" unfolding TrimSpace_def by (metis rev_append rev_rev_ident)
  with a show ?thesis by metis
qed

lemma TrimSpace_trimmed: "trimmed (TrimSpace s)"
proof -
  let ?t = "trim_left space_runes s"
  obtain b where "rev ?t = b @ trim_left (map rev space_runes) (rev ?t)"
    using trim_left_suffix [of "map rev space_runes"] by (auto simp: suffix_def)
  then have "?t = TrimSpace s @ rev b" unfolding TrimSpace_def by (metis rev_append rev_rev_ident)
  then have "prefix (TrimSpace s) ?t" by (metis prefixI)
  moreover have "leading_rune space_runes ?t = None" by (rule trim_left_stops)
  ultimately have "leading_rune space_runes (TrimSpace s) = None" unfolding leading_None by (meson prefix_order.trans)
  moreover have "leading_rune (map rev space_runes) (rev (TrimSpace s)) = None" by (simp add: TrimSpace_def trim_left_stops)
  ultimately show ?thesis by (simp add: trimmed_def)
qed

lemma TrimSpace_id: "TrimSpace s = s \<longleftrightarrow> trimmed s"
proof
  assume "TrimSpace s = s"
  then show "trimmed s" using TrimSpace_trimmed [of s] by simp
qed (simp add: trimmed_def TrimSpace_def trim_left_id)

lemma TrimSpace_idem [simp]: "TrimSpace (TrimSpace s) = TrimSpace s"
  unfolding TrimSpace_id by (rule TrimSpace_trimmed)

lemma TrimSpace_plain: 
  assumes "list_all (\<lambda>c. CHR '' '' < c \<and> c \<le> CHR 0x7F) s"
  shows "TrimSpace s = s"
proof -
  have ends: "list_all (\<lambda>r. r \<noteq> [] \<and> \<not> (CHR '' '' < hd r \<and> hd r \<le> CHR 0x7F) \<and> \<not> (CHR '' '' < last r \<and> last r \<le> CHR 0x7F)) space_runes"
    by code_simp
  have "\<not> prefix r s" if "r \<noteq> []" "\<not> (CHR '' '' < hd r \<and> hd r \<le> CHR 0x7F)" for r
    using assms that by (cases r) (auto simp: prefix_def)
  moreover have "\<not> prefix (rev r) (rev s)" if "r \<noteq> []" "\<not> (CHR '' '' < last r \<and> last r \<le> CHR 0x7F)" for r
    using assms that by (cases r rule: rev_cases) (auto simp: prefix_def rev_eq_append_conv)
  ultimately have "trimmed s" using ends unfolding trimmed_def leading_None list_all_iff set_map by blast
  then show ?thesis by (simp add: TrimSpace_id)
qed

lemma TrimSpace_length: "length (TrimSpace s) \<le> length s" "length (TrimSpace s) = length s \<Longrightarrow> TrimSpace s = s"
proof -
  obtain a b where p: "s = a @ TrimSpace s @ b" using TrimSpace_part by blast
  then have l: "length s = length a + length (TrimSpace s) + length b" by (metis length_append add.assoc)
  then show "length (TrimSpace s) \<le> length s" by simp
  assume "length (TrimSpace s) = length s"
  with l have "a = []" "b = []" by simp_all
  with p show "TrimSpace s = s" by simp
qed

lemma TrimSuffix_id: "s = [] \<or> last s \<noteq> c \<Longrightarrow> TrimSuffix s [c] = s"
  by (cases s rule: rev_cases) (auto simp: TrimSuffix_def HasSuffix_def)

lemma TrimSuffix_take: "\<exists>n. TrimSuffix s x = take n s"
  by (metis TrimSuffix_def order_refl take_all)

section \<open>Clean paths\<close>

definition path_elems :: "string \<Rightarrow> string list" where
  "path_elems p = filter (\<lambda>e. e \<noteq> []) (split_on (CHR ''/'') p)"

definition elem_ok :: "string \<Rightarrow> bool" where
  "elem_ok e \<longleftrightarrow> e \<noteq> [] \<and> e \<noteq> ''.'' \<and> CHR ''/'' \<notin> set e"

text \<open>The kept elements, top first: plain names above the leading parent elements of a relative path.\<close>

fun clean_stack :: "bool \<Rightarrow> string list \<Rightarrow> bool" where
  "clean_stack rooted [] = True"
| "clean_stack rooted (e # es) = (elem_ok e \<and> clean_stack rooted es \<and> (e = ''..'' \<longrightarrow> \<not> rooted \<and> (es = [] \<or> hd es = ''..'')))"

lemma clean_step_stack: "CHR ''/'' \<notin> set seg \<Longrightarrow> clean_stack rooted st \<Longrightarrow> clean_stack rooted (clean_step rooted seg st)"
  by (cases st) (auto simp: clean_step_def elem_ok_def)

lemma clean_fold_stack:
  "(\<And>seg. seg \<in> set segs \<Longrightarrow> CHR ''/'' \<notin> set seg) \<Longrightarrow> clean_stack rooted st \<Longrightarrow> clean_stack rooted (fold (clean_step rooted) segs st)"
  by (induction segs arbitrary: st) (auto simp: clean_step_stack)

lemma clean_stack_elems: "clean_stack rooted st \<Longrightarrow> list_all elem_ok st \<and> (rooted \<longrightarrow> ''..'' \<notin> set st)"
  by (induction st) auto

lemma clean_stack_parents: "clean_stack rooted st \<Longrightarrow> ''..'' \<in> set st \<Longrightarrow> last st = ''..''"
  by (induction st) (auto split: if_splits dest: hd_in_set)

lemma fold_clean_names:
  "list_all (\<lambda>e. elem_ok e \<and> e \<noteq> ''..'') es \<Longrightarrow> fold (clean_step rooted) es st = rev es @ st"
  by (induction es arbitrary: st) (auto simp: clean_step_def elem_ok_def)

lemma joined_elems_Nil: "list_all elem_ok es \<Longrightarrow> joined sep es = [] \<longleftrightarrow> es = []"
proof (cases es)
  case (Cons e r)
  assume "list_all elem_ok es"
  then show ?thesis using Cons by (cases "r = []") (simp_all add: joined_Cons elem_ok_def)
qed simp

lemma Clean_elems:
  obtains es where "Clean p = (if IsAbs p then ''/'' @ joined ''/'' es else if es = [] then ''.'' else joined ''/'' es)"
    "list_all elem_ok es" "IsAbs p \<Longrightarrow> ''..'' \<notin> set es" "''..'' \<in> set es \<Longrightarrow> hd es = ''..''"
proof -
  let ?st = "fold (clean_step (IsAbs p)) (split_on (CHR ''/'') p) []"
  have st: "clean_stack (IsAbs p) ?st" by (rule clean_fold_stack) (auto dest: split_on_no_sep)
  have e: "list_all elem_ok (rev ?st)" "IsAbs p \<Longrightarrow> ''..'' \<notin> set (rev ?st)" "''..'' \<in> set (rev ?st) \<Longrightarrow> hd (rev ?st) = ''..''"
    using clean_stack_elems [OF st] clean_stack_parents [OF st] unfolding list_all_iff set_rev hd_rev by blast+
  note joined_elems_Nil [OF e(1), of "''/''"]
  then have "Clean p = (if IsAbs p then ''/'' @ joined ''/'' (rev ?st) else if rev ?st = [] then ''.'' else joined ''/'' (rev ?st))"
    by (cases "IsAbs p") (simp_all add: Clean_def Let_def)
  then show ?thesis using that e by blast
qed

lemma split_elems: "list_all elem_ok es \<Longrightarrow> es \<noteq> [] \<Longrightarrow> split_on (CHR ''/'') (joined ''/'' es) = es"
  by (rule split_joined) (auto simp: list_all_iff elem_ok_def)

lemma abs_path_elems:
  assumes "IsAbs p" "Clean p = p"
  shows "p = ''/'' @ joined ''/'' (path_elems p)" "list_all elem_ok (path_elems p)" "''..'' \<notin> set (path_elems p)"
proof -
  from Clean_elems [of p] assms obtain es where es: "p = ''/'' @ joined ''/'' es" "list_all elem_ok es" "''..'' \<notin> set es"
    by metis
  have "filter (\<lambda>e. e \<noteq> []) es = es" using es(2) by (auto simp: list_all_iff elem_ok_def intro!: filter_True)
  then have "path_elems p = es"
    using es(1,2) split_elems [OF es(2)] by (cases "es = []") (auto simp: path_elems_def)
  with es show "p = ''/'' @ joined ''/'' (path_elems p)" "list_all elem_ok (path_elems p)" "''..'' \<notin> set (path_elems p)" by auto
qed

lemma abs_path_last: "IsAbs p \<Longrightarrow> Clean p = p \<Longrightarrow> p \<noteq> ''/'' \<Longrightarrow> last p \<noteq> CHR ''/''"
proof -
  assume a: "IsAbs p" "Clean p = p" "p \<noteq> ''/''"
  note e = abs_path_elems [OF a(1,2)]
  have "path_elems p \<noteq> []" using e(1) a(3) by auto
  then have "last (path_elems p) \<in> set (path_elems p)" by simp
  then have "elem_ok (last (path_elems p))" using e(2) by (simp add: list_all_iff)
  then have "last (joined ''/'' (path_elems p)) = last (last (path_elems p)) \<and> joined ''/'' (path_elems p) \<noteq> []"
    "last (last (path_elems p)) \<noteq> CHR ''/''" using last_joined [OF \<open>path_elems p \<noteq> []\<close>, of "''/''"] by (auto simp: elem_ok_def dest: last_in_set)
  then show ?thesis by (subst e(1)) simp
qed

text \<open>Cleaning a relative path does not make it longer.\<close>

definition text_size :: "string list \<Rightarrow> nat" where
  "text_size es = sum_list (map (\<lambda>e. length e + 1) es)"

lemma joined_size: "es \<noteq> [] \<Longrightarrow> length (joined [c] es) + 1 = text_size es"
  by (induction "[c]" es rule: joined.induct) (auto simp: text_size_def)

lemma clean_step_size: "text_size (clean_step rooted seg st) \<le> text_size st + text_size [seg]"
  by (auto simp: clean_step_def text_size_def split: list.splits)

lemma clean_fold_size: "text_size (fold (clean_step rooted) segs st) \<le> text_size st + text_size segs"
proof (induction segs arbitrary: st)
  case (Cons seg segs)
  have "text_size (fold (clean_step rooted) segs (clean_step rooted seg st)) \<le> text_size st + text_size [seg] + text_size segs"
    using Cons [of "clean_step rooted seg st"] clean_step_size [of rooted seg st] by linarith
  then show ?case by (simp add: text_size_def)
qed simp

lemma Clean_length:
  assumes "\<not> IsAbs p" "Clean p \<noteq> ''.''"
  shows "length (Clean p) \<le> length p"
proof -
  let ?st = "fold (clean_step False) (split_on (CHR ''/'') p) []"
  have c: "Clean p = joined ''/'' (rev ?st)" using assms by (auto simp: Clean_def Let_def split: if_splits)
  show ?thesis
  proof (cases "?st = []")
    case False
    have "text_size (rev ?st) = text_size ?st" by (simp add: text_size_def rev_map [symmetric])
    then have "length (Clean p) + 1 = text_size ?st" using joined_size [of "rev ?st" "CHR ''/''"] False c by simp
    also have "\<dots> \<le> text_size (split_on (CHR ''/'') p)" using clean_fold_size [of False "split_on (CHR ''/'') p" "[]"] by (simp add: text_size_def)
    also have "\<dots> = length p + 1" using joined_size [of "split_on (CHR ''/'') p" "CHR ''/''"] by (simp add: joined_split)
    finally show ?thesis by simp
  qed (simp add: c)
qed

text \<open>A clean relative path that stays below its root is a fixed point.\<close>

lemma Clean_relative:
  assumes "list_all elem_ok es" "es \<noteq> []" "''..'' \<notin> set es"
  shows "\<not> IsAbs (joined ''/'' es) \<and> Clean (joined ''/'' es) = joined ''/'' es"
proof -
  obtain e r where c: "es = e # r" "e \<noteq> []" "CHR ''/'' \<notin> set e" using assms by (cases es) (auto simp: elem_ok_def)
  have "hd (joined ''/'' es) = hd e" "joined ''/'' es \<noteq> []" using c by (cases "r = []"; simp add: joined_Cons)+
  moreover have "hd e \<noteq> CHR ''/''" using c(2,3) by (metis hd_in_set)
  ultimately have na: "\<not> IsAbs (joined ''/'' es)" by (cases "joined ''/'' es") (auto simp: IsAbs_def HasPrefix_def)
  have "list_all (\<lambda>e. elem_ok e \<and> e \<noteq> ''..'') es" using assms by (auto simp: list_all_iff)
  from fold_clean_names [OF this, of False "[]"] na show ?thesis
    using \<open>joined ''/'' es \<noteq> []\<close> by (simp add: Clean_def Let_def split_elems [OF assms(1,2)])
qed

lemma cleanGitTreePath_fixed:
  assumes "cleanGitTreePath text = Inr clean" "TrimSpace clean = clean"
  shows "cleanGitTreePath clean = Inr clean"
proof -
  from assms(1) have c: "clean = Clean (TrimSpace text)" "clean \<noteq> ''.''" "\<not> IsAbs clean" "\<not> HasPrefix clean ''../''" "clean \<noteq> ''..''"
    "\<not> list_ex (\<lambda>c. c = CHR 0x00 \<or> c = CHR 0x0A \<or> c = CHR 0x0D) clean"
    by (auto simp: cleanGitTreePath_def Let_def split: if_splits)
  obtain es where es: "clean = (if IsAbs (TrimSpace text) then ''/'' @ joined ''/'' es else if es = [] then ''.'' else joined ''/'' es)"
    "list_all elem_ok es" "''..'' \<in> set es \<Longrightarrow> hd es = ''..''"
    using Clean_elems [of "TrimSpace text"] c(1) by metis
  have "\<not> IsAbs (TrimSpace text)" using c(3) es(1) by (auto simp: IsAbs_def HasPrefix_def)
  then have j: "clean = joined ''/'' es" "es \<noteq> []" using es(1) c(2) by (auto split: if_splits)
  have "hd es \<noteq> ''..''"
  proof
    assume "hd es = ''..''"
    then obtain r where r: "es = ''..'' # r" using j(2) by (metis list.collapse)
    show False using c(4,5) j(1) unfolding r by (cases "r = []") (auto simp: HasPrefix_def joined_Cons)
  qed
  then have "''..'' \<notin> set es" using es(3) by blast
  from Clean_relative [OF es(2) j(2) this] j(1) have "Clean clean = clean" by simp
  then show ?thesis using c(2-6) assms(2) by (simp add: cleanGitTreePath_def Let_def)
qed

lemma cleanGitTreePath_trimmed:
  assumes "cleanGitTreePath clean = Inr clean"
  shows "TrimSpace clean = clean"
proof -
  from assms have c: "clean = Clean (TrimSpace clean)" "clean \<noteq> ''.''" "\<not> IsAbs clean" by (auto simp: cleanGitTreePath_def Let_def split: if_splits)
  have "IsAbs (Clean p)" if "IsAbs p" for p using that by (simp add: Clean_def Let_def) (simp add: IsAbs_def HasPrefix_def)
  then have "\<not> IsAbs (TrimSpace clean)" using c(1,3) by metis
  then have "length clean \<le> length (TrimSpace clean)" using Clean_length [of "TrimSpace clean"] c(1,2) by metis
  then show ?thesis using TrimSpace_length [of clean] by simp
qed

text \<open>Cleaning again changes nothing exactly where no blank is left at an end.\<close>

lemma CleanFlakePath_fixed: "CleanFlakePath text = Inr clean \<Longrightarrow> CleanFlakePath clean = Inr clean \<longleftrightarrow> TrimSpace clean = clean"
  using cleanGitTreePath_fixed cleanGitTreePath_trimmed by (auto simp: CleanFlakePath_def bindE_Inr split: if_splits)

end
