(* ===== verification/Deploy_Spec_Props.thy ===== *)
theory Deploy_Spec_Props
  imports Deploy_Spec Text_Lemmas
begin

text \<open>
  What the validation of a spec guarantees: an accepted host mount exposes none of the protected trees,
  and the canonical form it stores is a fixed point, so that saving a stored spec again changes nothing.
\<close>

section \<open>Wire prefixes\<close>

lemma take_uint: "take_bit LENGTH('a) (uint (w :: 'a :: len word)) = uint w"
  by (simp add: take_bit_int_eq_self_iff)

lemma octets_horner: "horner_sum uint (2 ^ 8) (map (\<lambda>i. ucast (drop_bit (8 * i) w) :: 8 word) [0 ..< n]) = take_bit (8 * n) (uint (w :: 'a :: len word))"
proof (induction n)
  case (Suc n)
  have "take_bit (8 * n + 8) x = take_bit (8 * n) x + 2 ^ (8 * n) * take_bit 8 (drop_bit (8 * n) x)" for x :: int
    by (simp add: take_bit_eq_mod drop_bit_eq_div power_add zmod_zmult2_eq)
  moreover have "uint (ucast (drop_bit (8 * n) w) :: 8 word) = take_bit 8 (drop_bit (8 * n) (uint w))"
    by (simp add: unsigned_ucast_eq unsigned_drop_bit_eq take_uint)
  ultimately show ?case using Suc by (simp add: horner_sum_append power_mult add.commute)
qed simp

lemma word_rcat_octets: "8 * n = LENGTH('a) \<Longrightarrow> word_rcat (octets n w) = (w :: 'a :: len word)"
proof -
  assume n: "8 * n = LENGTH('a)"
  have "rev (octets n w) = map (\<lambda>i. ucast (drop_bit (8 * i) w)) [0 ..< n]" by (simp add: octets_def rev_map)
  then have "(word_rcat (octets n w) :: 'a word) = word_of_int (take_bit (8 * n) (uint w))"
    using octets_horner [of w n] by (simp add: word_rcat_def)
  then show ?thesis by (simp only: n take_uint word_of_int_uint)
qed

lemma octets_length [simp]: "length (octets n w) = n"
  by (simp add: octets_def)

lemma mask_idem: "push_bit k (drop_bit k (push_bit k (drop_bit k w))) = push_bit k (drop_bit k (w :: 'a :: len word))"
  by (rule bit_eqI) (auto simp: bit_simps)

text \<open>A valid prefix is masked, and its length fits its family.\<close>

definition masked_prefix :: "NetPrefix \<Rightarrow> bool" where
  "masked_prefix p \<longleftrightarrow> (\<exists>n w. n \<le> 32 \<and> p = \<lparr>np_Addr = Addr4 w, np_Bits = Some n\<rparr> \<and> push_bit (32 - n) (drop_bit (32 - n) w) = w) \<or>
    (\<exists>n w. n \<le> 128 \<and> p = \<lparr>np_Addr = Addr6 w [], np_Bits = Some n\<rparr> \<and> push_bit (128 - n) (drop_bit (128 - n) w) = w)"

lemmas prefix_defs = Masked_def PrefixFrom_def mask_addr_def withoutZone_def BitLen_def

lemma wire_prefix_masked:
  assumes "np_Bits (IpPrefix_Prefix x) \<noteq> None"
  shows "masked_prefix (IpPrefix_Prefix x)"
proof (cases x)
  case (Some v)
  then obtain a where a: "IpAddress_Addr (Some (pfx_Address v)) = a" "a \<noteq> NoAddr" "pfx_Length v \<le> BitLen a"
    "IpPrefix_Prefix x = Masked (PrefixFrom a (pfx_Length v))"
    using assms by (auto simp: IpPrefix_Prefix_def addr_prefix_def no_prefix_def split: Addr.splits if_splits)
  then show ?thesis
    by (cases a) (auto simp: masked_prefix_def prefix_defs mask_idem IpAddress_Addr_def split: IpAddressValue.splits if_splits)
qed (use assms in \<open>simp add: IpPrefix_Prefix_def no_prefix_def\<close>)

lemma masked_prefix_fixed:
  assumes "masked_prefix p" "\<not> Is4In6 (np_Addr p)"
  shows "Masked p = p" "IpPrefix_Prefix (PrefixOf p) = p" "IpPrefix_Masked (PrefixOf p)" "IpPrefix_validate (PrefixOf p) = None"
    "np_Bits p \<noteq> None"
  using assms
  by (auto simp: masked_prefix_def prefix_defs PrefixOf_def Unmap_def Let_def IpPrefix_Prefix_def IpPrefix_Masked_def IpAddress_Addr_def
      addr_prefix_def word_rcat_octets IpPrefix_validate_def IPv4Prefix_validate_def IPv6Prefix_validate_def octets_field_def wrapValidationError_def)

section \<open>Networking\<close>

lemma ip_filters_fixed:
  "validatePortForwardIpFilter seen fs = Inr fs' \<Longrightarrow> validatePortForwardIpFilter seen fs' = Inr fs' \<and> list_all (\<lambda>f. IpFilter_validate f = None) fs'"
proof (induction fs arbitrary: seen fs')
  case (Cons f fs)
  let ?p = "IpPrefix_Prefix (ipf_Prefix f)"
  from Cons.prems obtain rest where c: "ipf_Mode f = IP_FILTER_MODE_ALLOW" "np_Bits ?p \<noteq> None" "\<not> Is4In6 (np_Addr ?p)" "?p \<notin> set seen"
    "validatePortForwardIpFilter (?p # seen) fs = Inr rest" "fs' = f\<lparr>ipf_Prefix := PrefixOf ?p\<rparr> # rest"
    by (auto simp: Let_def bindE_Inr split: if_splits)
  note m = masked_prefix_fixed [OF wire_prefix_masked [OF c(2)] c(3)]
  from Cons.IH [OF c(5)] Cons.prems c show ?case
    using m by (auto simp: Let_def IP_FILTER_MODE_ALLOW_def IP_FILTER_MODE_DENY_def IpFilter_validate_def enum_field_def wrapValidationError_def split: if_splits)
qed auto

lemma check_each_None: "check_each field f xs = None \<longleftrightarrow> list_all (\<lambda>x. f x = None) xs"
proof -
  have "check_each field f xs = None \<longleftrightarrow> (\<forall>x \<in> snd ` set (List.enumerate 0 xs). f x = None)"
    unfolding check_each_def find_err_None by (auto simp: wrapValidationError_def)
  also have "snd ` set (List.enumerate 0 xs) = set xs" by (metis list.set_map map_snd_enumerate)
  finally show ?thesis by (simp add: list_all_iff)
qed

lemma port_ok_range: "port_ok n \<Longrightarrow> port_range field n = None"
  by (auto simp: port_ok_def port_range_def at_least_1_def)

lemma port_forwarding_fixed:
  "validatePortForwarding seen ps = Inr ps' \<Longrightarrow> validatePortForwarding seen ps' = Inr ps' \<and> list_all (\<lambda>p. PortForward_validate p = None) ps'"
proof (induction ps arbitrary: seen ps')
  case (Cons pf pfs)
  from Cons.prems obtain filters rest where c: "pf_Protocol pf = PORT_FORWARD_PROTOCOL_TCP \<or> pf_Protocol pf = PORT_FORWARD_PROTOCOL_UDP"
    "port_ok (pf_HostPort pf)" "port_ok (pf_ContainerPort pf)" "validatePortForwardIpFilter [] (pf_IpFilter pf) = Inr filters"
    "(pf_Protocol pf, pf_HostPort pf) \<notin> set seen"
    "validatePortForwarding ((pf_Protocol pf, pf_HostPort pf) # seen) pfs = Inr rest" "ps' = pf\<lparr>pf_IpFilter := filters\<rparr> # rest"
    by (auto simp: Let_def bindE_Inr split: if_splits)
  note f = ip_filters_fixed [OF c(4)]
  have "PortForward_validate (pf\<lparr>pf_IpFilter := filters\<rparr>) = None"
    using c(1-3) f by (auto simp: PortForward_validate_def enum_field_def port_ok_range check_each_None PORT_FORWARD_PROTOCOL_TCP_def PORT_FORWARD_PROTOCOL_UDP_def)
  moreover note Cons.IH [OF c(6)]
  ultimately show ?case using c f by (auto simp: Let_def)
qed auto

lemma listen_addresses_fixed:
  "listen_addresses seen as = Inr as' \<Longrightarrow> listen_addresses seen as' = Inr as' \<and> list_all (\<lambda>a. IpPrefix_validate a = None) as'"
proof (induction as arbitrary: seen as')
  case (Cons a as)
  let ?p = "IpPrefix_Prefix a"
  from Cons.prems obtain rest where c: "np_Bits ?p \<noteq> None" "\<not> Is4In6 (np_Addr ?p)" "Masked ?p \<notin> set seen"
    "listen_addresses (Masked ?p # seen) as = Inr rest" "as' = PrefixOf (Masked ?p) # rest"
    by (auto simp: Let_def bindE_Inr split: if_splits)
  note m = masked_prefix_fixed [OF wire_prefix_masked [OF c(1)] c(2)]
  from Cons.IH [OF c(4)] show ?case using c m by (auto simp: Let_def)
qed auto

lemma mapE_fixed:
  assumes "\<And>x y. f x = Inr y \<Longrightarrow> f y = Inr y \<and> P y"
  shows "mapE f xs = Inr ys \<Longrightarrow> mapE f ys = Inr ys \<and> list_all P ys \<and> length ys = length xs"
proof (induction xs arbitrary: ys)
  case (Cons x xs)
  then obtain y zs where "f x = Inr y" "mapE f xs = Inr zs" "ys = y # zs" by (auto simp: bindE_Inr)
  with Cons.IH assms show ?case by auto
qed simp

lemma validate_listen_fixed: "validate_listen l = Inr l' \<Longrightarrow> validate_listen l' = Inr l' \<and> IngressListen_validate l' = None"
  using listen_addresses_fixed by (fastforce simp: validate_listen_def bindE_Inr IngressListen_validate_def check_each_None split: if_splits option.splits)

lemma label_chars: "list_all label_ok (split_on (CHR ''.'') h) \<Longrightarrow> list_all (\<lambda>c. hostname_char c \<or> c = CHR ''.'') h \<and> (h \<noteq> [] \<longrightarrow> last h \<noteq> CHR ''.'')"
proof
  assume a: "list_all label_ok (split_on (CHR ''.'') h)"
  have j: "joined ''.'' (split_on (CHR ''.'') h) = h" by (rule joined_split)
  from set_joined [of "''.''" "split_on (CHR ''.'') h"] a show "list_all (\<lambda>c. hostname_char c \<or> c = CHR ''.'') h"
    unfolding j by (fastforce simp: list_all_iff label_ok_def)
  have "last (split_on (CHR ''.'') h) \<in> set (split_on (CHR ''.'') h)" by simp
  then have "label_ok (last (split_on (CHR ''.'') h))" "CHR ''.'' \<notin> set (last (split_on (CHR ''.'') h))"
    using a split_on_no_sep by (metis list_all_iff, metis)
  with last_joined [of "split_on (CHR ''.'') h" "''.''"] show "h \<noteq> [] \<longrightarrow> last h \<noteq> CHR ''.''"
    unfolding j by (metis label_ok_def last_in_set split_on_nonempty)
qed

lemma hostname_char_plain: "hostname_char c \<or> c = CHR ''.'' \<Longrightarrow> CHR '' '' < c \<and> c \<le> CHR 0x7F \<and> lower_char c = c"
  by (auto simp: hostname_char_def lower_char_def less_char_def less_eq_char_def)

lemma ingressHostname_fixed: "ingressHostname v = Some h \<Longrightarrow> ingressHostname h = Some h"
proof -
  assume a: "ingressHostname v = Some h"
  then have h: "h \<noteq> []" "\<not> length h > 253" "list_all label_ok (split_on (CHR ''.'') h)"
    by (auto simp: ingressHostname_def Let_def split: if_splits)
  note l = label_chars [OF h(3)]
  have p: "CHR '' '' < c \<and> c \<le> CHR 0x7F \<and> lower_char c = c" if "c \<in> set h" for c
    by (rule hostname_char_plain) (use l that in \<open>simp add: list_all_iff\<close>)
  have "TrimSpace h = h" by (rule TrimSpace_plain) (simp add: list_all_iff p)
  moreover have "ToLower h = h" by (simp add: ToLower_def map_idI p)
  ultimately show ?thesis using h l by (simp add: ingressHostname_def Let_def TrimSuffix_id)
qed

lemma path_prefix_fixed: "normalizeHTTPSPathPrefix v = Some p \<Longrightarrow> TrimSpace p = p \<Longrightarrow> normalizeHTTPSPathPrefix p = Some p"
proof -
  assume a: "normalizeHTTPSPathPrefix v = Some p" and t: "TrimSpace p = p"
  show ?thesis
  proof (cases "p = ''/''")
    case False
    let ?q = "TrimSpace v"
    from a False have c: "?q \<noteq> []" "?q \<noteq> ''/''" "HasPrefix ?q ''/''" "p = TrimSuffix ?q ''/''"
      "\<not> list_ex (\<lambda>c. c \<in> {CHR ''?'', CHR ''#'', CHR 0x5C, CHR '' '', CHR 0x09}) ?q" "Clean p = p" "\<not> list_ex (\<lambda>c. c \<le> CHR '' '' \<or> c = CHR 0x7F) p"
      by (auto simp: normalizeHTTPSPathPrefix_def Let_def split: if_splits)
    obtain n where n: "p = take n ?q" using c(4) TrimSuffix_take by blast
    have "p \<noteq> []"
    proof
      assume "p = []"
      then have "?q = ''/''" using c(1,2,4) by (auto simp: TrimSuffix_def HasSuffix_def split: if_splits)
      with c(2) show False ..
    qed
    then have abs: "IsAbs p" using c(1,3) n by (cases ?q) (auto simp: IsAbs_def HasPrefix_def take_Cons' split: if_splits)
    have last: "last p \<noteq> CHR ''/''" by (rule abs_path_last [OF abs c(6) False])
    have "\<not> list_ex (\<lambda>c. c \<in> {CHR ''?'', CHR ''#'', CHR 0x5C, CHR '' '', CHR 0x09}) p"
      using c(5) in_set_takeD unfolding n list_ex_iff by fast
    then show ?thesis
      using abs last t \<open>p \<noteq> []\<close> c(6,7) False by (simp add: normalizeHTTPSPathPrefix_def Let_def IsAbs_def TrimSuffix_id)
  qed (use t in \<open>simp add: normalizeHTTPSPathPrefix_def\<close>)
qed

lemma path_prefix_trimmed:
  assumes "normalizeHTTPSPathPrefix p = Some p"
  shows "TrimSpace p = p"
proof (cases "p = ''/''")
  case True
  then show ?thesis using TrimSpace_plain [of p] by (simp add: less_char_def less_eq_char_def)
next
  case False
  then have "p = TrimSuffix (TrimSpace p) ''/''" using assms by (auto simp: normalizeHTTPSPathPrefix_def Let_def split: if_splits)
  moreover have "length (TrimSuffix t x) \<le> length t" for t x by (simp add: TrimSuffix_def)
  ultimately have "length p \<le> length (TrimSpace p)" by metis
  then show ?thesis using TrimSpace_length [of p] by simp
qed

lemma wrap_None [simp]: "wrapValidationError e seg = None \<longleftrightarrow> e = None"
  by (simp add: wrapValidationError_def)

lemma none_selected_Some [simp]: "none_selected \<noteq> None"
  by (simp add: none_selected_def newValidationError_def)

lemma https_fixed:
  assumes "validateHTTPSConfig x509 now st h cfg = Inr cfg'"
  shows "TrimSpace (hc_PathPrefix cfg') = hc_PathPrefix cfg' \<Longrightarrow> validateHTTPSConfig x509 now st h cfg' = Inr cfg'"
    "HttpsConfig_validate cfg' = HttpsConfig_validate cfg"
proof -
  from assms obtain p where p: "normalizeHTTPSPathPrefix (hc_PathPrefix cfg) = Some p" "cfg' = cfg\<lparr>hc_PathPrefix := p\<rparr>"
    by (auto simp: validateHTTPSConfig_def split: if_splits option.splits)
  show "validateHTTPSConfig x509 now st h cfg' = Inr cfg'" if "TrimSpace (hc_PathPrefix cfg') = hc_PathPrefix cfg'"
  proof -
    have n: "normalizeHTTPSPathPrefix p = Some p" by (rule path_prefix_fixed [OF p(1)]) (use that p(2) in simp)
    have "validateHTTPSConfig x509 now st h cfg' = validateHTTPSConfig x509 now st h cfg"
      by (cases "cert_source_error x509 now st h (hc_CertSource cfg)") (simp_all add: validateHTTPSConfig_def p n)
    with assms show ?thesis by simp
  qed
  show "HttpsConfig_validate cfg' = HttpsConfig_validate cfg" by (simp add: HttpsConfig_validate_def p(2))
qed

text \<open>A route whose path prefix has no blank at an end.\<close>

definition route_trimmed :: "Ingress \<Rightarrow> bool" where
  "route_trimmed r = (case in_Config r of Some (Https cfg) \<Rightarrow> TrimSpace (hc_PathPrefix cfg) = hc_PathPrefix cfg | _ \<Rightarrow> True)"

lemma routes_trimmed: "validate_routes x509 now st seen seenH rs = Inr rs \<Longrightarrow> list_all route_trimmed rs"
proof (induction rs arbitrary: seen seenH)
  case (Cons r rs)
  from Cons.prems obtain h listen where h: "ingressHostname (in_Hostname r) = Some h" "ValidateIngressListen (in_Listen r) = Inr listen"
    by (auto simp: bindE_Inr split: option.splits)
  show ?case
  proof (cases "in_Config r")
    case (Some config)
    show ?thesis
    proof (cases config)
      case (TlsPassthrough cfg)
      with Cons.prems h Some obtain seen' where "validate_routes x509 now st seen' seenH rs = Inr rs"
        by (auto simp: bindE_Inr Let_def split: if_splits)
      with Cons.IH Some TlsPassthrough show ?thesis by (auto simp: route_trimmed_def)
    next
      case (Https cfg)
      with Cons.prems h Some obtain cfg' rest seen' where c: "validateHTTPSConfig x509 now st h cfg = Inr cfg'"
        "validate_routes x509 now st seen seen' rs = Inr rest" "r\<lparr>in_Hostname := h, in_Listen := listen, in_Config := Some (Https cfg')\<rparr> # rest = r # rs"
        by (auto simp: bindE_Inr Let_def split: if_splits)
      from c(3) have "rest = rs" "Some (Https cfg') = in_Config r" by (auto dest: arg_cong [of _ _ in_Config])
      then have "cfg' = cfg" using Some Https by simp
      then have "normalizeHTTPSPathPrefix (hc_PathPrefix cfg) = Some (hc_PathPrefix cfg)" using c(1)
        by (auto simp: validateHTTPSConfig_def split: if_splits option.splits dest: arg_cong [of _ _ hc_PathPrefix])
      with path_prefix_trimmed Cons.IH c(2) \<open>rest = rs\<close> Some Https show ?thesis by (auto simp: route_trimmed_def)
    qed
  qed (use Cons.prems h in \<open>auto simp: Let_def\<close>)
qed simp

lemma routes_fixed:
  "validate_routes x509 now st seen seenH rs = Inr rs' \<Longrightarrow> list_all (\<lambda>r. Ingress_validate r = None) rs \<Longrightarrow> list_all route_trimmed rs' \<Longrightarrow>
   validate_routes x509 now st seen seenH rs' = Inr rs' \<and> list_all (\<lambda>r. Ingress_validate r = None) rs'"
proof (induction rs arbitrary: seen seenH rs')
  case (Cons r rs)
  from Cons.prems(1) obtain h listen where h: "ingressHostname (in_Hostname r) = Some h" "ValidateIngressListen (in_Listen r) = Inr listen"
    by (auto simp: bindE_Inr split: option.splits)
  have l: "ValidateIngressListen listen = Inr listen" "list_all (\<lambda>l. IngressListen_validate l = None) listen"
    using mapE_fixed [OF validate_listen_fixed] h(2) by (auto simp: ValidateIngressListen_def)
  have sch: "IngressConfig_validate (in_Config r) = None" "list_all (\<lambda>r. Ingress_validate r = None) rs"
    using Cons.prems(2) by (auto simp: Ingress_validate_def)
  note h' = ingressHostname_fixed [OF h(1)]
  let ?r = "r\<lparr>in_Hostname := h, in_Listen := listen\<rparr>"
  show ?case
  proof (cases "in_Config r")
    case (Some config)
    show ?thesis
    proof (cases config)
      case (TlsPassthrough cfg)
      let ?key = "(ingressHostPort (tp_HostPort cfg), h)"
      from Cons.prems(1) h Some TlsPassthrough obtain rest where rest: "validate_routes x509 now st (?key # seen) seenH rs = Inr rest" "rs' = ?r # rest"
        by (auto simp: bindE_Inr Let_def split: if_splits)
      have "list_all route_trimmed rest" using Cons.prems(3) rest(2) by simp
      from Cons.IH [OF rest(1) sch(2) this] Cons.prems(1) h h' l sch(1) Some TlsPassthrough rest show ?thesis
        by (auto simp: Let_def Ingress_validate_def check_each_None split: if_splits)
    next
      case (Https cfg)
      from Cons.prems(1) h Some Https obtain cfg' rest where c: "validateHTTPSConfig x509 now st h cfg = Inr cfg'" "(h, hc_PathPrefix cfg') \<notin> set seenH"
        and rest: "validate_routes x509 now st seen ((h, hc_PathPrefix cfg') # seenH) rs = Inr rest" "rs' = ?r\<lparr>in_Config := Some (Https cfg')\<rparr> # rest"
        by (auto simp: bindE_Inr Let_def split: if_splits)
      have t: "list_all route_trimmed rest" "route_trimmed (?r\<lparr>in_Config := Some (Https cfg')\<rparr>)" using Cons.prems(3) rest(2) by simp_all
      have p: "TrimSpace (hc_PathPrefix cfg') = hc_PathPrefix cfg'" using t(2) by (simp add: route_trimmed_def)
      from Cons.IH [OF rest(1) sch(2) t(1)] https_fixed(1) [OF c(1) p] https_fixed(2) [OF c(1)] h' l sch(1) Some Https rest(2) c(2) show ?thesis
        by (auto simp: Let_def Ingress_validate_def IngressConfig_validate_def check_each_None)
    qed
  qed (use Cons.prems(1) h in \<open>auto simp: Let_def\<close>)
qed (auto split: option.splits)

lemma networking_fixed:
  assumes "validateNetworkingConfig x509 now st n = Inr n'" "NetworkingConfig_validate n = None" "list_all route_trimmed (nc_Ingress n')"
  shows "validateNetworkingConfig x509 now st n' = Inr n' \<and> NetworkingConfig_validate n' = None"
proof -
  have sch: "enum_field ''mode'' 2 (nc_Mode n) = None" "list_all (\<lambda>r. Ingress_validate r = None) (nc_Ingress n)"
    using assms(2) by (auto simp: NetworkingConfig_validate_def check_each_None)
  show ?thesis
  proof (cases "nc_Mode n = NETWORKING_MODE_VIRTUAL")
    case True
    with assms(1) obtain pfs ingress where p: "validatePortForwarding [] (nc_PortForwarding n) = Inr pfs"
      "validate_routes x509 now st [] [] (nc_Ingress n) = Inr ingress" "n' = n\<lparr>nc_PortForwarding := pfs, nc_Ingress := ingress\<rparr>"
      by (auto simp: validateNetworkingConfig_def validateIngress_def bindE_Inr)
    have "list_all route_trimmed ingress" using assms(3) p(3) by simp
    from port_forwarding_fixed [OF p(1)] routes_fixed [OF p(2) sch(2) this] True p(3) sch(1) show ?thesis
      by (simp add: validateNetworkingConfig_def validateIngress_def NetworkingConfig_validate_def check_each_None)
  qed (use assms in \<open>auto simp: validateNetworkingConfig_def split: if_splits\<close>)
qed

lemma networking_trimmed:
  assumes "validateNetworkingConfig x509 now st n = Inr n"
  shows "list_all route_trimmed (nc_Ingress n)"
proof (cases "nc_Mode n = NETWORKING_MODE_VIRTUAL")
  case True
  with assms obtain pfs ingress where "validate_routes x509 now st [] [] (nc_Ingress n) = Inr ingress" "n\<lparr>nc_PortForwarding := pfs, nc_Ingress := ingress\<rparr> = n"
    by (auto simp: validateNetworkingConfig_def validateIngress_def bindE_Inr)
  then have "validate_routes x509 now st [] [] (nc_Ingress n) = Inr (nc_Ingress n)" by (metis NetworkingConfig.select_convs(3) NetworkingConfig.surjective NetworkingConfig.update_convs(2,3))
  then show ?thesis by (rule routes_trimmed)
qed (use assms in \<open>auto simp: validateNetworkingConfig_def split: if_splits\<close>)

section \<open>The container\<close>

definition env_ok :: "(string \<times> EnvVar option) list \<Rightarrow> bool" where
  "env_ok env \<longleftrightarrow> distinct (map fst env) \<and> list_all (\<lambda>(k, v). TrimSpace k = k \<and> k \<noteq> [] \<and> env_value_error (env_scope @ ''.'' @ k) v = None) env"

lemma trim_env_ok: "trim_env seen env = Inr out \<Longrightarrow> env_ok out \<and> set (map fst out) \<inter> set seen = {}"
proof (induction seen env arbitrary: out rule: trim_env.induct)
  case (2 seen k v rest)
  from "2.prems" obtain rest' where r: "TrimSpace k \<noteq> []" "TrimSpace k \<notin> set seen" "env_value_error (env_scope @ ''.'' @ TrimSpace k) v = None"
    "trim_env (TrimSpace k # seen) rest = Inr rest'" "out = (TrimSpace k, v) # rest'"
    by (auto simp: Let_def bindE_Inr split: if_splits option.splits)
  from "2.IH" [OF refl r(1,2,3,4)] r show ?case by (auto simp: env_ok_def)
qed (simp add: env_ok_def)

lemma env_ok_trim: "env_ok env \<Longrightarrow> set (map fst env) \<inter> set seen = {} \<Longrightarrow> trim_env seen env = Inr env"
proof (induction env arbitrary: seen)
  case (Cons kv env)
  obtain k v where kv: "kv = (k, v)" by (cases kv)
  from Cons.prems have "env_ok env" "set (map fst env) \<inter> set (k # seen) = {}" by (auto simp: env_ok_def kv)
  from Cons.IH [OF this] Cons.prems show ?case by (auto simp: env_ok_def kv Let_def)
qed simp

lemma env_ok_sort: "env_ok env \<Longrightarrow> env_ok (sort_key fst env)"
  unfolding env_ok_def by (simp add: list_all_iff distinct_map)

lemma validateEnvVars_ok: "validateEnvVars env = Inr out \<Longrightarrow> env_ok out \<and> sorted (map fst out)"
  using trim_env_ok env_ok_sort by (fastforce simp: validateEnvVars_def bindE_Inr)

lemma validateEnvVars_fixed: "env_ok env \<Longrightarrow> sorted (map fst env) \<Longrightarrow> validateEnvVars env = Inr env"
  by (simp add: validateEnvVars_def env_ok_trim sort_key_id_if_sorted)

lemma resolve_env_fixed:
  assumes "resolve_env_asset st kv = Inr kv'"
  shows "resolve_env_asset st kv' = Inr kv'" "fst kv' = fst kv" "env_value_error scope (snd kv') = env_value_error scope (snd kv)"
    "EnvVar_validate (snd kv') = EnvVar_validate (snd kv)"
  using assms by (auto simp: resolve_env_asset_def env_value_error_def EnvVar_validate_def split: option.splits EnvVar.splits)

lemma mapE_each: "mapE f xs = Inr ys \<Longrightarrow> list_all2 (\<lambda>x y. f x = Inr y) xs ys"
  by (induction xs arbitrary: ys) (auto simp: bindE_Inr)

lemma mapE_mem: "mapE f xs = Inr ys \<Longrightarrow> y \<in> set ys \<Longrightarrow> \<exists>x. f x = Inr y"
  by (induction xs arbitrary: ys) (auto simp: bindE_Inr)

lemma resolveEnv_fixed:
  assumes "resolveEnvAssetRefs st env = Inr env'" "env_ok env" "sorted (map fst env)"
  shows "resolveEnvAssetRefs st env' = Inr env'" "env_ok env'" "map fst env' = map fst env"
    "list_all (\<lambda>kv. EnvVar_validate (snd kv) = None) env' = list_all (\<lambda>kv. EnvVar_validate (snd kv) = None) env"
proof -
  have each: "list_all2 (\<lambda>x y. resolve_env_asset st x = Inr y) env env'" using mapE_each assms(1) unfolding resolveEnvAssetRefs_def by blast
  show "resolveEnvAssetRefs st env' = Inr env'"
    using mapE_fixed [of "resolve_env_asset st" "\<lambda>_. True"] resolve_env_fixed(1) assms(1) unfolding resolveEnvAssetRefs_def by blast
  show keys: "map fst env' = map fst env" using each resolve_env_fixed(2) by (induction rule: list_all2_induct) auto
  have "list_all (\<lambda>(k, v). TrimSpace k = k \<and> k \<noteq> [] \<and> env_value_error (env_scope @ ''.'' @ k) v = None) env \<longrightarrow>
      list_all (\<lambda>(k, v). TrimSpace k = k \<and> k \<noteq> [] \<and> env_value_error (env_scope @ ''.'' @ k) v = None) env'"
    using each
  proof (induction rule: list_all2_induct)
    case (Cons x xs y ys)
    with resolve_env_fixed(2,3) [OF Cons.hyps(1)] show ?case by (auto split: prod.splits)
  qed simp
  then show "env_ok env'" using assms(2) keys by (simp add: env_ok_def)
  show "list_all (\<lambda>kv. EnvVar_validate (snd kv) = None) env' = list_all (\<lambda>kv. EnvVar_validate (snd kv) = None) env"
    using each
  proof (induction rule: list_all2_induct)
    case (Cons x xs y ys)
    with resolve_env_fixed(4) [OF Cons.hyps(1)] show ?case by simp
  qed simp
qed

lemma clean_container_fixed: "cleanContainerPath t = Inr p \<Longrightarrow> cleanContainerPath p = Inr p \<and> p \<noteq> []"
  by (auto simp: cleanContainerPath_def Let_def IsAbs_def HasPrefix_def split: if_splits)

lemma at_field_Inr [simp]: "at_field scope r = Inr a \<longleftrightarrow> r = Inr a"
  by (cases r) (auto simp: at_field_def)

lemma default_volume_fixed: "validateDefaultVolume m = Inr m' \<Longrightarrow> validateDefaultVolume m' = Inr m'"
  using clean_container_fixed by (fastforce simp: validateDefaultVolume_def bindE_Inr split: if_splits)

lemma host_mount_Inr:
  "validate_host_mount m = Inr m' \<longleftrightarrow>
    (let host = TrimSpace (hm_HostPath m) in host \<noteq> [] \<and> TrimSpace (hm_ContainerPath m) \<noteq> [] \<and> IsAbs host \<and> Clean host = host \<and> host \<noteq> ''/'' \<and>
      \<not> containerHostMountDenied host \<and> validMountPermission (hm_Permission m) \<and>
      (\<exists>p. cleanContainerPath (TrimSpace (hm_ContainerPath m)) = Inr p \<and> m' = m\<lparr>hm_HostPath := host, hm_ContainerPath := p\<rparr>))"
  by (auto simp: validate_host_mount_def Let_def bindE_Inr)

lemma host_mount_fixed: "validate_host_mount m = Inr m' \<Longrightarrow> validate_host_mount m' = Inr m' \<and> HostMount_validate m' = None"
proof -
  assume "validate_host_mount m = Inr m'"
  then obtain p where p: "cleanContainerPath (TrimSpace (hm_ContainerPath m)) = Inr p" "m' = m\<lparr>hm_HostPath := TrimSpace (hm_HostPath m), hm_ContainerPath := p\<rparr>"
    and c: "TrimSpace (hm_HostPath m) \<noteq> []" "IsAbs (TrimSpace (hm_HostPath m))" "Clean (TrimSpace (hm_HostPath m)) = TrimSpace (hm_HostPath m)"
      "TrimSpace (hm_HostPath m) \<noteq> ''/''" "\<not> containerHostMountDenied (TrimSpace (hm_HostPath m))" "validMountPermission (hm_Permission m)"
    unfolding host_mount_Inr Let_def by blast
  have "TrimSpace p = p" using p(1) by (auto simp: cleanContainerPath_def Let_def split: if_splits)
  moreover have "HostMount_validate m' = None"
    using c(6) p(2) by (auto simp: HostMount_validate_def enum_field_def validMountPermission_def FILE_PERMISSION_READ_WRITE_def FILE_PERMISSION_READ_ONLY_def)
  ultimately show ?thesis using clean_container_fixed [OF p(1)] c unfolding host_mount_Inr Let_def p(2) by simp
qed

lemma cross_mount_fixed: "validate_cross_mount m = Inr m' \<Longrightarrow> validate_cross_mount m' = Inr m' \<and> CrossDeploymentMount_validate m' = None"
  using clean_container_fixed
  by (fastforce simp: validate_cross_mount_def bindE_Inr CrossDeploymentMount_validate_def enum_field_def validMountPermission_def
      FILE_PERMISSION_READ_WRITE_def FILE_PERMISSION_READ_ONLY_def split: if_splits)

lemma asset_mount_Inr:
  "resolve_asset_mount f m = Inr m' \<longleftrightarrow>
    (let path = TrimSpace (am_ContainerPath m) in ref_valid (am_Asset m) \<and> path \<noteq> [] \<and> IsAbs path \<and> Clean path = path \<and> path \<noteq> ''/'' \<and>
      \<not> HasSuffix path ''/'' \<and> f (am_Asset m) \<noteq> None \<and>
      (am_Permission m = FILE_PERMISSION_READ_ONLY \<or> am_Permission m = FILE_PERMISSION_READ_EXECUTE) \<and> m' = m\<lparr>am_ContainerPath := path\<rparr>)"
proof -
  define path where "path = TrimSpace (am_ContainerPath m)"
  show ?thesis unfolding resolve_asset_mount_def Let_def path_def [symmetric] by (cases "Clean path = path") auto
qed

lemma asset_mount_fixed: "resolve_asset_mount f m = Inr m' \<Longrightarrow> resolve_asset_mount f m' = Inr m' \<and> AssetMount_validate m' = None"
proof -
  assume a: "resolve_asset_mount f m = Inr m'"
  then have m': "m' = m\<lparr>am_ContainerPath := TrimSpace (am_ContainerPath m)\<rparr>"
    and c: "ref_valid (am_Asset m)" "am_Permission m = FILE_PERMISSION_READ_ONLY \<or> am_Permission m = FILE_PERMISSION_READ_EXECUTE"
    unfolding asset_mount_Inr Let_def by blast+
  have "AssetMount_validate m' = None"
    using c by (auto simp: m' AssetMount_validate_def ValueRef_validate_def at_least_1_def ref_valid_def enum_field_def
        FILE_PERMISSION_READ_EXECUTE_def FILE_PERMISSION_READ_ONLY_def)
  moreover have "resolve_asset_mount f m' = Inr m'" using a unfolding asset_mount_Inr Let_def by (simp add: m')
  ultimately show ?thesis by simp
qed

lemma asset_mounts_fixed: "resolveAssetMounts st ms = Inr ms' \<Longrightarrow> resolveAssetMounts st ms' = Inr ms' \<and> list_all (\<lambda>m. AssetMount_validate m = None) ms'"
proof (cases "ms = []")
  case False
  assume "resolveAssetMounts st ms = Inr ms'"
  with False obtain f where f: "st = Some f" "mapE (resolve_asset_mount f) ms = Inr ms'" by (auto simp: resolveAssetMounts_def split: option.splits)
  from mapE_fixed [of "resolve_asset_mount f" "\<lambda>m. AssetMount_validate m = None", OF asset_mount_fixed f(2)] f(1) False show ?thesis
    by (auto simp: resolveAssetMounts_def)
qed (simp add: resolveAssetMounts_def)

lemma trim_names_fixed: "trim_names i ns = Inr ns' \<Longrightarrow> trim_names i ns' = Inr ns' \<and> length ns' = length ns"
proof (induction i ns arbitrary: ns' rule: trim_names.induct)
  case (2 i n ns)
  from "2.prems" obtain rest where r: "\<not> (TrimSpace n = [] \<or> length (TrimSpace n) > 253 \<or> list_ex (\<lambda>c. c \<in> {CHR '' '', CHR 0x09, CHR 0x0A, CHR '','', CHR ''*''}) (TrimSpace n))"
    "trim_names (i + 1) ns = Inr rest" "ns' = TrimSpace n # rest"
    unfolding trim_names.simps Let_def by (auto simp: bindE_Inr split: if_splits)
  from "2.IH" [OF refl r(1,2)] r show ?case by (simp add: Let_def)
qed simp

lemma issued_fixed: "validate_issued m = Inr m' \<Longrightarrow> validate_issued m' = Inr m'"
proof (cases m)
  case (Some mount)
  assume "validate_issued m = Inr m'"
  with Some obtain mount' where v: "validateIssuedTLSMount mount = Inr mount'" "m' = Some mount'" by (auto simp: validate_issued_def bindE_Inr)
  then obtain names where n: "trim_names 0 (tls_ExtraNames mount) = Inr names"
    "mount' = mount\<lparr>tls_ContainerPath := TrimSpace (tls_ContainerPath mount), tls_ExtraNames := names\<rparr>"
    by (auto simp: validateIssuedTLSMount_def Let_def bindE_Inr split: if_splits)
  from trim_names_fixed [OF n(1)] have "names = [] \<longleftrightarrow> tls_ExtraNames mount = []" by (metis length_0_conv)
  with v trim_names_fixed [OF n(1)] n show ?thesis
    by (auto simp: validate_issued_def validateIssuedTLSMount_def Let_def bindE_Inr split: if_splits)
qed (simp add: validate_issued_def)

lemma command_fixed: "validateContainerCommand (validateContainerCommand args) = validateContainerCommand args"
  by (induction args) (auto simp: validateContainerCommand_def)

lemma reserved_key: "list_ex (\<lambda>(k, _). k = x) env \<longleftrightarrow> x \<in> set (map fst env)"
  by (force simp: list_ex_iff)

lemma upgrade_fixed:
  assumes "validateContainerUpgrade c = Inr c'" "enum_field ''upgrade_strategy'' 2 (cs_UpgradeStrategy c) = None"
    "map fst (rt_EnvVars rt) = map fst (rt_EnvVars (cs_Runtime c))"
  shows "validateContainerUpgrade (c'\<lparr>cs_Runtime := rt\<rparr>) = Inr (c'\<lparr>cs_Runtime := rt\<rparr>)"
    "cs_UpgradeStrategy c' = cs_UpgradeStrategy c" "cs_Source c' = cs_Source c" "cs_Version c' = cs_Version c" "cs_Runtime c' = cs_Runtime c"
    "\<And>t. cs_ReadinessSignal c' = Some t \<Longrightarrow> ContainerReadinessSignal_validate t = None"
proof -
  have s: "cs_UpgradeStrategy c \<noteq> CONTAINER_UPGRADE_STRATEGY_UNSPECIFIED"
    using assms(2) by (auto simp: enum_field_def CONTAINER_UPGRADE_STRATEGY_UNSPECIFIED_def newValidationError_def split: if_splits)
  consider (recreate) "cs_UpgradeStrategy c = CONTAINER_UPGRADE_STRATEGY_RECREATE" "c' = c\<lparr>cs_ReadinessSignal := None\<rparr>"
    | (rollover) signal where "cs_UpgradeStrategy c = CONTAINER_UPGRADE_STRATEGY_ROLLOVER" "''OPENDEPLOY_READINESS_SOCK_PATH'' \<notin> set (map fst (rt_EnvVars (cs_Runtime c)))"
      "\<not> (Present signal \<and> Value signal = 0)" "c' = c\<lparr>cs_ReadinessSignal := Some signal\<rparr>"
    using assms(1) s by (auto simp: validateContainerUpgrade_def reserved_key Let_def split: if_splits)
  then have all: "validateContainerUpgrade (c'\<lparr>cs_Runtime := rt\<rparr>) = Inr (c'\<lparr>cs_Runtime := rt\<rparr>) \<and>
    cs_UpgradeStrategy c' = cs_UpgradeStrategy c \<and> cs_Source c' = cs_Source c \<and> cs_Version c' = cs_Version c \<and> cs_Runtime c' = cs_Runtime c \<and>
    (\<forall>t. cs_ReadinessSignal c' = Some t \<longrightarrow> ContainerReadinessSignal_validate t = None)"
  proof cases
    case recreate
    then show ?thesis by (simp add: validateContainerUpgrade_def CONTAINER_UPGRADE_STRATEGY_RECREATE_def CONTAINER_UPGRADE_STRATEGY_UNSPECIFIED_def)
  next
    case rollover
    then show ?thesis using assms(3)
      by (auto simp: validateContainerUpgrade_def reserved_key Let_def CONTAINER_UPGRADE_STRATEGY_RECREATE_def CONTAINER_UPGRADE_STRATEGY_UNSPECIFIED_def
          CONTAINER_UPGRADE_STRATEGY_ROLLOVER_def ContainerReadinessSignal_validate_def at_least_1_if_set_def at_least_1_def)
  qed
  then show "validateContainerUpgrade (c'\<lparr>cs_Runtime := rt\<rparr>) = Inr (c'\<lparr>cs_Runtime := rt\<rparr>)"
    "cs_UpgradeStrategy c' = cs_UpgradeStrategy c" "cs_Source c' = cs_Source c" "cs_Version c' = cs_Version c" "cs_Runtime c' = cs_Runtime c"
    "\<And>t. cs_ReadinessSignal c' = Some t \<Longrightarrow> ContainerReadinessSignal_validate t = None" by blast+
qed

lemma env_values: "find_err (\<lambda>(k, v). wrapValidationError (EnvVar_validate v) (f k)) env = None \<longleftrightarrow> list_all (\<lambda>kv. EnvVar_validate (snd kv) = None) env"
  unfolding find_err_None by (auto simp: list_all_iff)

lemma env_value_schema: "env_value_error scope v = None \<Longrightarrow> EnvVar_validate v = None"
  by (auto simp: env_value_error_def EnvVar_validate_def ValueRef_validate_def at_least_1_def ref_valid_def split: option.splits EnvVar.splits if_splits)

lemma fails_Inr [simp]: "fails e = Inr u \<longleftrightarrow> e = None"
  by (cases e) (auto simp: fails_def)

lemma container_fixed:
  assumes "validateContainerSpec st c = Inr c'" "ContainerSpec_validate c = None"
  shows "validateContainerSpec st c' = Inr c' \<and> ContainerSpec_validate c' = None \<and> cs_Source c' = cs_Source c"
proof -
  define rt where "rt = (cs_Runtime c)\<lparr>rt_OverrideCommand := validateContainerCommand (rt_OverrideCommand (cs_Runtime c))\<rparr>"
  from assms(1) obtain env c1 volume env' mounts cross ams issued where e: "validateEnvVars (rt_EnvVars rt) = Inr env"
    and u: "validateContainerUpgrade (c\<lparr>cs_Runtime := rt\<lparr>rt_EnvVars := env\<rparr>\<rparr>) = Inr c1"
    and k: "validateContainerDevShmSizeKb (rt_DevShmSizeKb rt) = None" "validateContainerFileDescriptorLimit (rt_FileDescriptorLimit rt) = None"
    and v: "validateDefaultVolume (rt_DefaultVolume rt) = Inr volume" and a: "resolveEnvAssetRefs st env = Inr env'"
    and m: "validateCustomHostMounts (rt_Mounts rt) = Inr mounts" and x: "validateCrossDeploymentMounts (rt_CrossDeploymentMounts rt) = Inr cross"
    and am: "resolveAssetMounts st (rt_AssetMounts rt) = Inr ams" and i: "validate_issued (rt_IssuedTlsMount rt) = Inr issued"
    and c': "c' = c1\<lparr>cs_Runtime := rt\<lparr>rt_EnvVars := env', rt_DefaultVolume := volume, rt_Mounts := mounts, rt_CrossDeploymentMounts := cross,
        rt_AssetMounts := ams, rt_IssuedTlsMount := issued\<rparr>\<rparr>"
    unfolding validateContainerSpec_def Let_def bindE_Inr fails_Inr rt_def [symmetric] by (elim exE conjE) (rule that, (assumption | simp)+)
  let ?rt = "cs_Runtime c'"
  note ok = validateEnvVars_ok [OF e]
  note r = resolveEnv_fixed [OF a conjunct1 [OF ok] conjunct2 [OF ok]]
  have strategy: "enum_field ''upgrade_strategy'' 2 (cs_UpgradeStrategy c) = None" and src: "ContainerSource_validate (cs_Source c) = None"
    and lim: "at_least_1_if_set ''dev_shm_size_kb'' (rt_DevShmSizeKb rt) = None" "at_least_1_if_set ''file_descriptor_limit'' (rt_FileDescriptorLimit rt) = None"
    using assms(2) by (auto simp: ContainerSpec_validate_def ContainerRuntime_validate_def rt_def)
  have keys: "map fst (rt_EnvVars ?rt) = map fst (rt_EnvVars (cs_Runtime (c\<lparr>cs_Runtime := rt\<lparr>rt_EnvVars := env\<rparr>\<rparr>)))" using r(3) by (simp add: c')
  note U = upgrade_fixed [OF u _ keys, simplified, OF strategy]
  have cmd: "?rt\<lparr>rt_OverrideCommand := validateContainerCommand (rt_OverrideCommand ?rt)\<rparr> = ?rt" by (simp add: c' rt_def command_fixed)
  have self: "c'\<lparr>cs_Runtime := ?rt\<rparr> = c'" by simp
  have run: "rt_EnvVars ?rt = env'" "rt_DefaultVolume ?rt = volume" "rt_Mounts ?rt = mounts" "rt_CrossDeploymentMounts ?rt = cross"
    "rt_AssetMounts ?rt = ams" "rt_IssuedTlsMount ?rt = issued" "rt_DevShmSizeKb ?rt = rt_DevShmSizeKb rt" "rt_FileDescriptorLimit ?rt = rt_FileDescriptorLimit rt"
    by (simp_all add: c')
  have fix_mounts: "validateCustomHostMounts mounts = Inr mounts \<and> list_all (\<lambda>m. HostMount_validate m = None) mounts"
    using mapE_fixed [of validate_host_mount "\<lambda>m. HostMount_validate m = None", OF host_mount_fixed] m by (simp add: validateCustomHostMounts_def)
  have fix_cross: "validateCrossDeploymentMounts cross = Inr cross \<and> list_all (\<lambda>m. CrossDeploymentMount_validate m = None) cross"
    using mapE_fixed [of validate_cross_mount "\<lambda>m. CrossDeploymentMount_validate m = None", OF cross_mount_fixed] x by (simp add: validateCrossDeploymentMounts_def)
  note fix_assets = asset_mounts_fixed [OF am]
  have env_same: "validateEnvVars env' = Inr env'" using validateEnvVars_fixed [OF r(2)] r(3) ok by simp
  have rt_env: "?rt\<lparr>rt_EnvVars := env'\<rparr> = ?rt" by (simp add: c')
  have up: "validateContainerUpgrade c' = Inr c'" using U(1) [of] self by (simp add: c')
  have whole: "c'\<lparr>cs_Runtime := ?rt\<lparr>rt_EnvVars := env', rt_DefaultVolume := volume, rt_Mounts := mounts, rt_CrossDeploymentMounts := cross,
        rt_AssetMounts := ams, rt_IssuedTlsMount := issued\<rparr>\<rparr> = c'" by (simp add: c')
  have fixed: "validateContainerSpec st c' = Inr c'"
    unfolding validateContainerSpec_def Let_def cmd run env_same bindE.simps rt_env self up
    by (simp add: k fails_def default_volume_fixed [OF v] r(1) fix_mounts fix_cross fix_assets issued_fixed [OF i] whole)
  have "list_all (\<lambda>kv. EnvVar_validate (snd kv) = None) env'"
    using r(2) env_value_schema by (fastforce simp: env_ok_def list_all_iff)
  then have "ContainerRuntime_validate ?rt = None"
    using lim fix_mounts fix_cross fix_assets unfolding ContainerRuntime_validate_def run env_values by (simp add: check_each_None env_values)
  moreover have sel: "cs_UpgradeStrategy c' = cs_UpgradeStrategy c" "cs_Source c' = cs_Source c" "cs_ReadinessSignal c' = cs_ReadinessSignal c1"
    using U(2,3) by (simp_all add: c')
  ultimately have "ContainerSpec_validate c' = None"
    using strategy src U(6) by (auto simp: ContainerSpec_validate_def split: option.splits)
  with fixed sel show ?thesis by simp
qed

section \<open>The spec\<close>

lemma source_schema: "validateContainerSource src = Inr src' \<Longrightarrow> ContainerSource_validate src' = None"
  by (cases src) (auto simp: validateContainerSource_def ContainerSource_validate_def split: ContainerSource.splits if_splits sum.splits)

definition source_trimmed :: "ContainerSource option \<Rightarrow> bool" where
  "source_trimmed src = (case src of Some (NixImageBuild repo flake target) \<Rightarrow> TrimSpace flake = flake | _ \<Rightarrow> True)"

lemma source_fixed:
  assumes "validateContainerSource src = Inr src'"
  shows "validateContainerSource src' = Inr src' \<longleftrightarrow> source_trimmed src'"
proof (cases src)
  case (Some s)
  show ?thesis
  proof (cases s)
    case (NixImageBuild repo flake target)
    with Some assms obtain clean where c: "CleanFlakePath flake = Inr clean" "src' = Some (NixImageBuild repo clean target)" "repo \<noteq> []"
      "\<not> (target \<noteq> [] \<and> (target \<noteq> TrimSpace target \<or> \<not> HasPrefix target ''.#''))"
      by (auto simp: validateContainerSource_def split: if_splits sum.splits)
    note f = CleanFlakePath_fixed [OF c(1)]
    have "clean \<noteq> []"
      using c(1) by (auto simp: CleanFlakePath_def bindE_Inr Base_def split: if_splits)
    then show ?thesis using c f by (auto simp: validateContainerSource_def source_trimmed_def split: sum.splits)
  qed (use Some assms in \<open>auto simp: validateContainerSource_def source_trimmed_def split: if_splits\<close>)
qed (use assms in \<open>simp add: validateContainerSource_def\<close>)

lemma accepted_spec:
  assumes "ValidateSpecWithResolvers x509 now as ss cs spec = Inr out"
  obtains c src c' net where "ds_Container spec = Some c" "DeploymentSpec_validate spec = None" "validateContainerSource (cs_Source c) = Inr src"
    "validateContainerSpec as (c\<lparr>cs_Source := src\<rparr>) = Inr c'" "validateNetworkingConfig x509 now ss (ds_Networking spec) = Inr net"
    "validateRuntimeEnvRefs ss cs out = None" "out = spec\<lparr>ds_Container := Some c', ds_Networking := net\<rparr>"
  using assms unfolding ValidateSpecWithResolvers_def
  by (auto simp: bindE_Inr cloneDeploymentSpec_def Let_def split: option.splits intro: that)

text \<open>The texts that validation trims before it cleans them: the flake path and the path prefixes.\<close>

definition spec_trimmed :: "DeploymentSpec \<Rightarrow> bool" where
  "spec_trimmed spec \<longleftrightarrow> source_trimmed (Option.bind (ds_Container spec) cs_Source) \<and> list_all route_trimmed (nc_Ingress (ds_Networking spec))"

lemma canonical_spec:
  assumes "ValidateSpecWithResolvers x509 now as ss cs spec = Inr out" "spec_trimmed out"
  shows "ValidateSpecWithResolvers x509 now as ss cs out = Inr out"
proof -
  from accepted_spec [OF assms(1)] obtain c src c' net where s: "ds_Container spec = Some c" "DeploymentSpec_validate spec = None"
    "validateContainerSource (cs_Source c) = Inr src" "validateContainerSpec as (c\<lparr>cs_Source := src\<rparr>) = Inr c'"
    "validateNetworkingConfig x509 now ss (ds_Networking spec) = Inr net" "validateRuntimeEnvRefs ss cs out = None"
    "out = spec\<lparr>ds_Container := Some c', ds_Networking := net\<rparr>" .
  have sch: "ContainerSpec_validate c = None" "NetworkingConfig_validate (ds_Networking spec) = None"
    using s(1,2) by (auto simp: DeploymentSpec_validate_def Workload_validate_def)
  have "ContainerSource_validate src = None" by (rule source_schema [OF s(3)])
  then have "ContainerSpec_validate (c\<lparr>cs_Source := src\<rparr>) = None" using sch(1) by (simp add: ContainerSpec_validate_def)
  note C = container_fixed [OF s(4) this]
  have t: "source_trimmed (cs_Source c')" "list_all route_trimmed (nc_Ingress net)" using assms(2) by (simp_all add: spec_trimmed_def s(7))
  note N = networking_fixed [OF s(5) sch(2) t(2)]
  have src: "validateContainerSource (cs_Source c') = Inr (cs_Source c')"
    using source_fixed [OF s(3)] t(1) C by simp
  have self: "c'\<lparr>cs_Source := cs_Source c'\<rparr> = c'" by simp
  have schema: "DeploymentSpec_validate out = None" using C N by (simp add: s(7) DeploymentSpec_validate_def Workload_validate_def)
  have parts: "ds_Container out = Some c'" "ds_Networking out = net" "out\<lparr>ds_Container := Some c', ds_Networking := net\<rparr> = out"
    by (simp_all add: s(7))
  have run: "validateContainerSpec as c' = Inr c'" "validateNetworkingConfig x509 now ss net = Inr net" using C N by simp_all
  show ?thesis
    unfolding ValidateSpecWithResolvers_def cloneDeploymentSpec_def
    by (simp add: schema parts src self run s(6) at_field_def fails_def Let_def)
qed

lemma fixed_spec_trimmed:
  assumes "ValidateSpecWithResolvers x509 now as ss cs out = Inr out"
  shows "spec_trimmed out"
proof -
  from accepted_spec [OF assms] obtain c src c' net where s: "ds_Container out = Some c" "DeploymentSpec_validate out = None"
    "validateContainerSource (cs_Source c) = Inr src" "validateContainerSpec as (c\<lparr>cs_Source := src\<rparr>) = Inr c'"
    "validateNetworkingConfig x509 now ss (ds_Networking out) = Inr net" "out = out\<lparr>ds_Container := Some c', ds_Networking := net\<rparr>" .
  have same: "c' = c" "net = ds_Networking out" using arg_cong [OF s(6), of ds_Container] arg_cong [OF s(6), of ds_Networking] s(1) by simp_all
  have "ContainerSpec_validate c = None" using s(1,2) by (auto simp: DeploymentSpec_validate_def Workload_validate_def)
  then have "ContainerSpec_validate (c\<lparr>cs_Source := src\<rparr>) = None" using source_schema [OF s(3)] by (simp add: ContainerSpec_validate_def)
  then have "cs_Source c = src" using container_fixed [OF s(4)] same(1) by simp
  then have "source_trimmed (cs_Source c)" using source_fixed [OF s(3)] s(3) by simp
  then show ?thesis using networking_trimmed s(1,5) same(2) by (simp add: spec_trimmed_def)
qed

text \<open>
  C34. When saving again changes nothing. Validating a spec that validation returned accepts it unchanged, so
  that saving it again makes no new spec version and no roll-out, exactly when neither the flake path nor a
  path prefix of an HTTPS route has a blank at an end. All other texts, prefixes, mounts and listeners are left in
  a form that validation keeps. The two exceptions occur: a path is trimmed before it is cleaned, and a path prefix
  before its last slash is removed.
\<close>

theorem ValidateSpec_canonical:
  assumes "ValidateSpecWithResolvers x509 now as ss cs spec = Inr out"
  shows "ValidateSpecWithResolvers x509 now as ss cs out = Inr out \<longleftrightarrow> spec_trimmed out"
  using canonical_spec [OF assms] fixed_spec_trimmed by blast

section \<open>Host mounts\<close>

lemma under_prefix:
  assumes "p = ''/'' @ joined ''/'' es" "q = ''/'' @ joined ''/'' fs" "fs \<noteq> []" "prefix fs es" "Clean q = q"
  shows "pathEqualOrUnder p q"
proof -
  from assms(4) obtain gs where gs: "es = fs @ gs" by (auto simp: prefix_def)
  show ?thesis
  proof (cases "gs = []")
    case False
    then have "p = (q @ ''/'') @ joined ''/'' gs" using assms(1-3) gs by (simp add: joined_append)
    then show ?thesis by (simp add: pathEqualOrUnder_def assms(5) HasPrefix_def)
  qed (use assms gs in \<open>simp add: pathEqualOrUnder_def\<close>)
qed

lemma denied_roots: "list_all (\<lambda>root. IsAbs root \<and> Clean root = root \<and> root \<noteq> ''/'') deniedContainerHostMountRoots"
  by code_simp

lemma not_denied_apart:
  assumes "IsAbs host" "Clean host = host" "host \<noteq> ''/''" "\<not> containerHostMountDenied host" "root \<in> set deniedContainerHostMountRoots"
  shows "\<not> prefix (path_elems host) (path_elems root)" "\<not> prefix (path_elems root) (path_elems host)"
proof -
  have r: "IsAbs root" "Clean root = root" "root \<noteq> ''/''" using denied_roots assms(5) by (auto simp: list_all_iff)
  note h = abs_path_elems [OF assms(1,2)] note e = abs_path_elems [OF r(1,2)]
  have ne: "path_elems host \<noteq> []" "path_elems root \<noteq> []" using h(1) e(1) assms(3) r(3) by auto
  have "\<not> pathEqualOrUnder host root \<and> \<not> pathEqualOrUnder root host"
    using assms(2,4,5) by (auto simp: containerHostMountDenied_def list_ex_iff Let_def)
  then show "\<not> prefix (path_elems host) (path_elems root)" "\<not> prefix (path_elems root) (path_elems host)"
    using under_prefix [OF e(1) h(1) ne(1) _ assms(2)] under_prefix [OF h(1) e(1) ne(2) _ r(2)] by blast+
qed

text \<open>
  C35. An accepted host mount exposes no protected tree: read element by element, its host path is neither
  below one of the protected directories nor a parent of one, and it has no parent element. The code
  decides this on the text of the path.
\<close>

theorem accepted_host_mounts_confined:
  assumes "ValidateSpecWithResolvers x509 now as ss cs spec = Inr out" "ds_Container out = Some c" "m \<in> set (rt_Mounts (cs_Runtime c))"
    and "root \<in> set deniedContainerHostMountRoots"
  shows "\<not> prefix (path_elems (hm_HostPath m)) (path_elems root) \<and> \<not> prefix (path_elems root) (path_elems (hm_HostPath m)) \<and>
    ''..'' \<notin> set (path_elems (hm_HostPath m)) \<and> hm_HostPath m = ''/'' @ joined ''/'' (path_elems (hm_HostPath m))"
proof -
  from accepted_spec [OF assms(1)] obtain c0 src c' net where "validateContainerSpec as (c0\<lparr>cs_Source := src\<rparr>) = Inr c'"
    "out = spec\<lparr>ds_Container := Some c', ds_Networking := net\<rparr>" by metis
  with assms(2) have v: "validateContainerSpec as (c0\<lparr>cs_Source := src\<rparr>) = Inr c" by simp
  then obtain ms where "validateCustomHostMounts ms = Inr (rt_Mounts (cs_Runtime c))"
    unfolding validateContainerSpec_def Let_def bindE_Inr by (elim exE conjE) (rule that [of "rt_Mounts (cs_Runtime c0)"], auto)
  then obtain m0 where "validate_host_mount m0 = Inr m"
    unfolding validateCustomHostMounts_def using mapE_mem [OF _ assms(3)] by blast
  then have p: "IsAbs (hm_HostPath m)" "Clean (hm_HostPath m) = hm_HostPath m" "hm_HostPath m \<noteq> ''/''" "\<not> containerHostMountDenied (hm_HostPath m)"
    unfolding host_mount_Inr Let_def by auto
  show ?thesis using not_denied_apart [OF p assms(4)] abs_path_elems [OF p(1,2)] by blast
qed

section \<open>A spec to validate\<close>

definition sample_mount :: "string \<Rightarrow> HostMount" where
  "sample_mount host = \<lparr>hm_HostPath = host, hm_ContainerPath = ''/in'', hm_Permission = FILE_PERMISSION_READ_ONLY\<rparr>"

definition sample_container :: "string \<Rightarrow> ContainerSpec" where
  "sample_container host = \<lparr>cs_Source = Some (RemoteImage ''i''),
     cs_Runtime = \<lparr>rt_User = [], rt_EnvVars = [], rt_OverrideCommand = [], rt_OverrideWorkingDir = [],
       rt_DefaultVolume = \<lparr>dv_ContainerPath = [], dv_Disabled = True\<rparr>, rt_CrossDeploymentMounts = [], rt_Mounts = [sample_mount host],
       rt_AssetMounts = [], rt_DevShmSizeKb = absent 0, rt_FileDescriptorLimit = absent 0, rt_IssuedTlsMount = None\<rparr>,
     cs_Version = [], cs_UpgradeStrategy = CONTAINER_UPGRADE_STRATEGY_RECREATE, cs_ReadinessSignal = None\<rparr>"

definition sample_spec :: "string \<Rightarrow> DeploymentSpec" where
  "sample_spec host = \<lparr>ds_Container = Some (sample_container host),
     ds_Networking = \<lparr>nc_Mode = NETWORKING_MODE_VIRTUAL, nc_PortForwarding = [], nc_Ingress = []\<rparr>\<rparr>"

definition sample_check :: "string \<Rightarrow> deploy_error + DeploymentSpec" where
  "sample_check host = ValidateSpecWithResolvers (\<lambda>_. BadKeyPair []) 0 None None None (sample_spec host)"

lemma sample_schema: "DeploymentSpec_validate (sample_spec '' /srv'') = None"
  by (simp add: sample_spec_def sample_container_def sample_mount_def DeploymentSpec_validate_def Workload_validate_def NetworkingConfig_validate_def
      ContainerSpec_validate_def ContainerSource_validate_def ContainerRuntime_validate_def HostMount_validate_def enum_field_def at_least_1_if_set_def
      check_each_def CONTAINER_UPGRADE_STRATEGY_RECREATE_def NETWORKING_MODE_VIRTUAL_def FILE_PERMISSION_READ_ONLY_def absent_def)

lemma sample_mounts: "validateCustomHostMounts [sample_mount '' /srv''] = Inr [sample_mount ''/srv'']"
  by code_simp

lemma sample_upgrade: "validateContainerUpgrade (sample_container '' /srv'') = Inr (sample_container '' /srv'')"
  by (simp add: validateContainerUpgrade_def sample_container_def CONTAINER_UPGRADE_STRATEGY_RECREATE_def CONTAINER_UPGRADE_STRATEGY_UNSPECIFIED_def)

lemma sample_empty: "validateEnvVars [] = Inr []" "resolveEnvAssetRefs None [] = Inr []" "validateCrossDeploymentMounts [] = Inr []"
  "resolveAssetMounts None [] = Inr []" "validate_issued None = Inr None" "validateContainerDevShmSizeKb (absent 0) = None"
  "validateContainerFileDescriptorLimit (absent 0) = None" "validateContainerCommand [] = []"
  "validateDefaultVolume \<lparr>dv_ContainerPath = [], dv_Disabled = True\<rparr> = Inr \<lparr>dv_ContainerPath = [], dv_Disabled = True\<rparr>"
  by code_simp+

lemma sample_accepted: "sample_check '' /srv'' = Inr (sample_spec ''/srv'')"
proof -
  have up: "validateContainerUpgrade (sample_container '' /srv''\<lparr>cs_Runtime := cs_Runtime (sample_container '' /srv'')\<rparr>) = Inr (sample_container '' /srv'')"
    using sample_upgrade by simp
  have c: "validateContainerSpec None (sample_container '' /srv'') = Inr (sample_container ''/srv'')"
    using up unfolding validateContainerSpec_def Let_def
    by (simp add: sample_container_def sample_empty sample_mounts fails_def)
  have src: "validateContainerSource (Some (RemoteImage ''i'')) = Inr (Some (RemoteImage ''i''))" by code_simp
  have self: "sample_container h\<lparr>cs_Source := Some (RemoteImage ''i'')\<rparr> = sample_container h" "cs_Source (sample_container h) = Some (RemoteImage ''i'')" for h
    by (simp_all add: sample_container_def)
  have parts: "ds_Container (sample_spec h) = Some (sample_container h)" "sample_spec h\<lparr>ds_Container := Some (sample_container h')\<rparr> = sample_spec h'" "validateRuntimeEnvRefs None None (sample_spec h) = None"
    "validateNetworkingConfig x now s (ds_Networking (sample_spec h)) = Inr (ds_Networking (sample_spec h))" for h h' x now s
    by (simp_all add: sample_spec_def validateRuntimeEnvRefs_def sample_container_def validateNetworkingConfig_def validateIngress_def env_vars_def Let_def)
  show ?thesis
    unfolding sample_check_def ValidateSpecWithResolvers_def cloneDeploymentSpec_def
    by (simp add: sample_schema at_field_def c src self parts fails_def Let_def)
qed

theorem ValidateSpec_canonical_witness: "sample_check ''/srv'' = Inr (sample_spec ''/srv'')"
  unfolding sample_check_def ValidateSpec_canonical [OF sample_accepted [unfolded sample_check_def]]
  by (simp add: sample_spec_def sample_container_def spec_trimmed_def source_trimmed_def)

theorem accepted_host_mounts_confined_witness: "\<not> prefix (path_elems ''/srv'') (path_elems ''/var/lib/docker'')"
  using accepted_host_mounts_confined [OF sample_accepted [unfolded sample_check_def], of "sample_container ''/srv''" "sample_mount ''/srv''" "''/var/lib/docker''"]
  by (simp add: sample_spec_def sample_container_def sample_mount_def deniedContainerHostMountRoots_def)

text \<open>
  Both exceptions of the canonical form: a flake path that is left with a blank at its start, and a path prefix
  that is left with one, here U+00A0, at its end. Each is accepted, and is another path when the spec is saved again.
\<close>

lemma flake_path_not_canonical:
  "validateContainerSource (Some (NixImageBuild ''r'' ''./ x/flake.nix'' [])) = Inr (Some (NixImageBuild ''r'' '' x/flake.nix'' [])) \<and>
   validateContainerSource (Some (NixImageBuild ''r'' '' x/flake.nix'' [])) = Inr (Some (NixImageBuild ''r'' ''x/flake.nix'' []))"
  by code_simp

lemma path_prefix_not_canonical:
  "normalizeHTTPSPathPrefix [CHR ''/'', CHR ''a'', CHR 0xC2, CHR 0xA0, CHR ''/''] = Some [CHR ''/'', CHR ''a'', CHR 0xC2, CHR 0xA0] \<and>
   normalizeHTTPSPathPrefix [CHR ''/'', CHR ''a'', CHR 0xC2, CHR 0xA0] = Some ''/a''"
  by code_simp

end
