(* ===== verification/Deploy_Service.thy ===== *)
theory Deploy_Service
  imports Deploy_Spec
begin

text \<open>
  The writes of deployments, \<open>backend/app/primary/domain/deployments\<close>: the pre-lock and in-lock layers of
  \<open>validate_layers.go\<close>, \<open>Create\<close>, \<open>Update\<close> and \<open>Delete\<close> of \<open>write.go\<close>, and the system deployments of
  \<open>deployments.go\<close>. The pre-lock layer reads the store before the lock is taken, so its tables \<open>pre\<close> and
  the database of the commit are two arguments: other commits may run in between. A refused write is the
  error of its commit.
\<close>

section \<open>The service\<close>

text \<open>
  What a service is built with: the certificate parser of the standard library, the secret manager behind
  its interfaces, the keys the asset store holds, the verifier of Nix sources (\<open>None\<close> when not configured;
  it returns an error text), the listener reservations of the settings, the connected nodes (\<open>None\<close> for a
  nil cluster), the primary's node id, and the cluster prefix of the process-wide network manager.
\<close>

record deploy_env =
  de_x509 :: "bytes \<Rightarrow> certificate_check"
  de_Secrets :: SecretResolver
  de_stored :: "string \<Rightarrow> bool"
  de_GitVersions :: "(string \<Rightarrow> string \<Rightarrow> string \<Rightarrow> string option) option"
  de_Reservations :: "Reservation list"
  de_Cluster :: "(nat \<Rightarrow> bool) option"
  de_PrimaryNodeID :: nat
  de_prefix :: "Prefix option"

definition refused :: "deploy_error \<Rightarrow> store_error" where
  "refused e = WriterFailed (InternalErr e)"

section \<open>Before the lock\<close>

definition GetAssetVersionRef :: "(string \<Rightarrow> bool) \<Rightarrow> tables \<Rightarrow> ValueRef \<Rightarrow> string option" where
  "GetAssetVersionRef stored ts ref =
    (case (tbl_get (filter (\<lambda>(_, r). stored (av_StorageKey (row_value r))) (asset_versions ts)) (ref_key ref), tbl_get (assets ts) (vref_ID ref)) of
       (Some _, Some r) \<Rightarrow> Some (vi_Key (row_value r))
     | _ \<Rightarrow> None)"

definition ResolveConfig :: "tables \<Rightarrow> ValueRef \<Rightarrow> bool" where
  "ResolveConfig ts ref \<longleftrightarrow> tbl_get (config_versions ts) (ref_key ref) \<noteq> None \<and> tbl_get (configs ts) (vref_ID ref) \<noteq> None"

definition ValidateSpec :: "deploy_env \<Rightarrow> clock \<Rightarrow> tables \<Rightarrow> DeploymentSpec \<Rightarrow> deploy_error + DeploymentSpec" where
  "ValidateSpec env now ts spec =
    ValidateSpecWithResolvers (de_x509 env) now (Some (GetAssetVersionRef (de_stored env) ts)) (Some (de_Secrets env)) (Some (ResolveConfig ts)) spec"

definition nixSource :: "DeploymentSpec \<Rightarrow> (string \<times> string \<times> string) option" where
  "nixSource spec = (case ds_Container spec of
     Some c \<Rightarrow> (case cs_Source c of Some (NixImageBuild repo flake target) \<Rightarrow> Some (repo, flake, target) | _ \<Rightarrow> None)
   | None \<Rightarrow> None)"

definition sameNixBuildConfig :: "(string \<times> string \<times> string) option \<Rightarrow> (string \<times> string \<times> string) option \<Rightarrow> bool" where
  "sameNixBuildConfig a b \<longleftrightarrow> a = b"

definition sameDesiredVersionSource :: "DeploymentSpec \<Rightarrow> DeploymentSpec \<Rightarrow> bool" where
  "sameDesiredVersionSource a b =
    (case (Option.bind (ds_Container a) cs_Source, Option.bind (ds_Container b) cs_Source) of
       (Some (NixImageBuild aRepo aFlake _), Some (NixImageBuild bRepo bFlake _)) \<Rightarrow>
         (case (CleanFlakePath aFlake, CleanFlakePath bFlake) of
            (Inr aClean, Inr bClean) \<Rightarrow> aRepo = bRepo \<and> aClean = bClean
          | _ \<Rightarrow> aRepo = bRepo \<and> aFlake = bFlake)
     | (Some (RemoteImage aImage), Some (RemoteImage bImage)) \<Rightarrow>
         (case (RepositoryRef aImage, RepositoryRef bImage) of
            (Inr aRef, Inr bRef) \<Rightarrow> aRef = bRef
          | _ \<Rightarrow> aImage = bImage)
     | _ \<Rightarrow> False)"

definition validateNixWorkloadVersion :: "Deployment \<Rightarrow> deploy_error option" where
  "validateNixWorkloadVersion def =
    (let version = WorkloadVersion (dep_Spec def) in
     if nixSource (dep_Spec def) = None then None
     else if version = [] then
       (if sch_Running (dep_Scheduling def) then Some (InvalidConfigErr ''container1Spec.version is required for a running Nix deployment'') else None)
     else map_option (\<lambda>e. InvalidConfigErr (''container1Spec.version: '' @ e)) (ValidateFullCommitHash version))"

definition verifyRunningNixSource :: "(string \<Rightarrow> string \<Rightarrow> string \<Rightarrow> string option) option \<Rightarrow> DeploymentSpec \<Rightarrow> deploy_error option" where
  "verifyRunningNixSource gitVersions spec =
    (case nixSource spec of
       None \<Rightarrow> None
     | Some (repo, flake, _) \<Rightarrow> (case gitVersions of
         None \<Rightarrow> Some NixVerificationUnavailable
       | Some verify \<Rightarrow> if verify repo (WorkloadVersion spec) flake = None then None else Some NixVerificationFailed))"

definition validateScheduling :: "Scheduling \<Rightarrow> deploy_error option" where
  "validateScheduling scheduling =
    (case sch_DedicatedNodes scheduling of
       None \<Rightarrow> Some (InvalidConfigErr ''scheduling.dedicatedNodes is required'')
     | Some ns \<Rightarrow>
         if length ns \<noteq> 1 then Some (InvalidConfigErr ''scheduling.dedicatedNodes.nodes must name exactly one node'')
         else if hd ns = 0 then Some (InvalidConfigErr ''scheduling.dedicatedNodes.nodes: node id must be positive'')
         else None)"

definition validateDeployment :: "Deployment \<Rightarrow> deploy_error option" where
  "validateDeployment def =
    (if dep_Name def = [] then Some (InvalidConfigErr ''name is required'')
     else then_err (validateScheduling (dep_Scheduling def))
       (if dep_SpaceID def > unat MaxSpaceID then Some (InvalidConfigErr (''spaceId must be between 0 and '' @ nat_text (unat MaxSpaceID)))
        else validateNixWorkloadVersion def))"

definition preLockValidateDeploymentCreate :: "deploy_env \<Rightarrow> clock \<Rightarrow> tables \<Rightarrow> Deployment \<Rightarrow> deploy_error + Deployment" where
  "preLockValidateDeploymentCreate env now ts updated =
    (if dep_SpaceID updated = internal_SpaceID then Inl SystemSpaceErr
     else bindE (fails (validateDeployment updated)) (\<lambda>_.
       bindE (ValidateSpec env now ts (dep_Spec updated)) (\<lambda>spec.
       bindE (fails (if sch_Running (dep_Scheduling updated) then verifyRunningNixSource (de_GitVersions env) spec else None)) (\<lambda>_.
         Inr (updated\<lparr>dep_Spec := spec\<rparr>)))))"

text \<open>A system deployment's spec changes only in its workload version.\<close>

definition validateInternalSpecUnchanged :: "DeploymentRecord \<Rightarrow> DeploymentRecord \<Rightarrow> deploy_error option" where
  "validateInternalSpecUnchanged existing updated =
    (if \<not> IsInternalConfig existing then None
     else (case cloneDeploymentSpec (dep_Spec (drec_Deployment existing)) of
         Inl e \<Rightarrow> Some (EncodingErr e)
       | Inr copy \<Rightarrow> (case SetWorkloadVersion (WorkloadVersion (dep_Spec (drec_Deployment updated))) copy of
           Inl e \<Rightarrow> Some (InvalidConfigErr (''spec: '' @ e))
         | Inr base \<Rightarrow>
             if \<not> DeploymentSpecsEqual base (dep_Spec (drec_Deployment updated)) then
               Some (InvalidConfigErr ''opendeploy system deployment identity and spec are internal-only'')
             else None)))"

datatype deployment_change =
    VersionOnly string
  | RunningOnly bool
  | SpecChange DeploymentSpec
  | AssignedSpace nat
  | Restart

record DeploymentUpdateRequest =
  dur_DeploymentID :: nat
  dur_ExpectedSeq :: int
  dur_Update :: "deployment_change option"

definition with_spec :: "DeploymentSpec \<Rightarrow> DeploymentRecord \<Rightarrow> DeploymentRecord" where
  "with_spec spec r = r\<lparr>drec_Deployment := (drec_Deployment r)\<lparr>dep_Spec := spec\<rparr>\<rparr>"

definition preLockValidateDeploymentUpdate ::
  "deploy_env \<Rightarrow> clock \<Rightarrow> tables \<Rightarrow> DeploymentRecord \<Rightarrow> DeploymentUpdateRequest \<Rightarrow> DeploymentRecord \<Rightarrow> deploy_error + DeploymentRecord" where
  "preLockValidateDeploymentUpdate env now ts existing req updated =
    bindE (case dur_Update req of
        Some (SpecChange _) \<Rightarrow> bindE (fails (validateInternalSpecUnchanged existing updated)) (\<lambda>_.
          bindE (ValidateSpec env now ts (dep_Spec (drec_Deployment updated))) (\<lambda>spec. Inr (with_spec spec updated)))
      | _ \<Rightarrow> Inr updated) (\<lambda>u1.
    bindE (if \<not> WorkloadRunning u1 \<and> \<not> sameDesiredVersionSource (dep_Spec (drec_Deployment existing)) (dep_Spec (drec_Deployment u1))
        then at_field ''spec: '' (SetWorkloadState [] False u1) else Inr u1) (\<lambda>u2.
    let def = drec_Deployment u2; spec = dep_Spec def; old = dep_Spec (drec_Deployment existing) in
    if PlacementNodeID def \<noteq> PlacementNodeID (drec_Deployment existing) then
      Inl (InvalidConfigErr ''scheduling.dedicatedNodes.nodes: the node cannot be changed after creation'')
    else if WorkloadRunning u2 \<and> WorkloadVersion spec = [] then
      Inl (InvalidConfigErr ''deployment has no version to start; set a target version'')
    else bindE (fails (validateDeployment def)) (\<lambda>_.
      bindE (fails (if WorkloadRunning u2 \<and> nixSource spec \<noteq> None \<and>
          (\<not> WorkloadRunning existing \<or> WorkloadVersion spec \<noteq> WorkloadVersion old \<or> \<not> sameNixBuildConfig (nixSource old) (nixSource spec))
        then verifyRunningNixSource (de_GitVersions env) spec else None)) (\<lambda>_. Inr u2))))"

section \<open>Inside the lock\<close>

definition validateNodeAllowsSpace :: "LiveState \<Rightarrow> nat \<Rightarrow> nat \<Rightarrow> deploy_error option" where
  "validateNodeAllowsSpace lv nodeID spaceID =
    (case live_node lv nodeID of
       None \<Rightarrow> Some (InvalidConfigErr ''node is not registered'')
     | Some node \<Rightarrow> if spaceID \<in> set (nrow_AllowedSpaces node) then None else Some NodeSpaceNotAllowedErr)"

definition validateNodeNotDraining :: "LiveState \<Rightarrow> Deployment \<Rightarrow> DeploymentRecord option \<Rightarrow> deploy_error option" where
  "validateNodeNotDraining lv updated existing =
    (case live_node lv (PlacementNodeID updated) of
       None \<Rightarrow> None
     | Some node \<Rightarrow>
         if nrow_Status node \<noteq> NODE_MEMBER_DRAINING then None
         else (case existing of
             Some e \<Rightarrow> if PlacementNodeID (drec_Deployment e) = PlacementNodeID updated \<and> \<not> sch_Running (dep_Scheduling updated) then None
                       else Some NodeDrainingErr
           | None \<Rightarrow> Some NodeDrainingErr))"

definition validateNoDuplicateIdentity :: "LiveState \<Rightarrow> Deployment \<Rightarrow> deploy_error option" where
  "validateNoDuplicateIdentity lv updated =
    (if list_ex (\<lambda>other. dep_ID (drec_Deployment other) \<noteq> dep_ID updated \<and>
          DeploymentKeyMatches (drec_Deployment other) (PlacementNodeID updated) (dep_SpaceID updated) (dep_Name updated)) (live_Deployments lv)
     then Some DuplicateErr else None)"

text \<open>The checks that close both in-lock layers: what the spec refers to.\<close>

definition validate_references :: "deploy_env \<Rightarrow> tables \<Rightarrow> LiveState \<Rightarrow> Deployment \<Rightarrow> deploy_error option" where
  "validate_references env ts lv def =
    (let spec = dep_Spec def; node = PlacementNodeID def; i = dep_ID def; space = dep_SpaceID def in
     then_err (validateAddressEnvRefs lv i space spec)
     (then_err (validateCrossDeploymentMountSources lv spec node i space)
     (then_err (validateIssuedTLSNames (case de_prefix env of Some p \<Rightarrow> p | None \<Rightarrow> 0) (de_prefix env \<noteq> None) spec i space)
       (validateRefSpaces (de_stored env) ts spec space))))"

definition inLockValidateDeploymentCreate :: "deploy_env \<Rightarrow> tables \<Rightarrow> Deployment \<Rightarrow> deploy_error option" where
  "inLockValidateDeploymentCreate env ts updated =
    (let lv = ReadLiveState ts in
     if IsInternalIdentity (dep_SpaceID updated) (dep_Name updated) then Some (InvalidConfigErr ''opendeploy system deployment identity is internal-only'')
     else then_err (validateNoDuplicateIdentity lv updated)
       (then_err (validateNodeAllowsSpace lv (PlacementNodeID updated) (dep_SpaceID updated))
       (then_err (validateNodeNotDraining lv updated None)
       (then_err (ValidateNodeNetworkingClaims lv (de_Reservations env) (PlacementNodeID updated) (dep_ID updated) (dep_Spec updated))
         (validate_references env ts lv updated)))))"

definition changed_since :: "DeploymentRecord \<Rightarrow> int \<Rightarrow> deploy_error option" where
  "changed_since existing expectedSeq =
    (if expectedSeq \<noteq> 0 \<and> meta_UpdatedSeq (drec_Meta existing) > expectedSeq then
       Some (InvalidConfigErr (''deployment '' @ nat_text (dep_ID (drec_Deployment existing)) @ '' changed since it was loaded''))
     else None)"

text \<open>The two branches of the update layer: a move to another space, and any other change.\<close>

definition validate_move :: "LiveState \<Rightarrow> DeploymentRecord \<Rightarrow> Deployment \<Rightarrow> deploy_error option" where
  "validate_move lv existing updated =
    (let ids = [dep_ID (drec_Deployment existing)]; space = dep_SpaceID updated in
     if IsInternalConfig existing then Some (InvalidConfigErr ''opendeploy system deployment identity and spec are internal-only'')
     else if dep_SpaceID (drec_Deployment existing) = 0 then Some (InvalidConfigErr ''deployments in space 0 cannot be moved'')
     else if space < 1 \<or> space > unat MaxSpaceID then Some SystemSpaceErr
     else then_err (validateNoDuplicateIdentity lv updated)
       (then_err (validateNodeAllowsSpace lv (PlacementNodeID updated) space)
       (if UsesAddressID lv ids then Some AddressReferencedErr
        else if space \<noteq> DefaultSpaceID \<and> ReferencesOutsideSpace lv ids CrossDeploymentMountSourceIDs space then Some MoveReferencesOutsideSpaceErr
        else None)))"

definition validate_change :: "deploy_env \<Rightarrow> LiveState \<Rightarrow> DeploymentRecord \<Rightarrow> DeploymentRecord \<Rightarrow> deploy_error option" where
  "validate_change env lv existing updated =
    (let def = drec_Deployment updated in
     then_err (validateInternalSpecUnchanged existing updated)
       (if IsSelfConfig existing \<and> \<not> WorkloadRunning updated then Some (InvalidConfigErr ''the opendeploy system deployment cannot be stopped'')
        else if nc_Mode (ds_Networking (dep_Spec def)) \<noteq> NETWORKING_MODE_VIRTUAL \<and> UsesAddressID lv [dep_ID (drec_Deployment existing)] then
          Some (InvalidConfigErr ''deployment networking cannot leave virtual mode while address references exist'')
        else ValidateNodeNetworkingClaims lv (de_Reservations env) (PlacementNodeID def) (dep_ID def) (dep_Spec def)))"

definition inLockValidateDeploymentUpdate :: "deploy_env \<Rightarrow> tables \<Rightarrow> DeploymentRecord \<Rightarrow> int \<Rightarrow> deploy_error option" where
  "inLockValidateDeploymentUpdate env ts updated expectedSeq =
    (let lv = ReadLiveState ts; def = drec_Deployment updated in
     case live_deployment lv (dep_ID def) of
       None \<Rightarrow> Some NotFoundErr
     | Some existing \<Rightarrow>
        if Deleted existing then Some NotFoundErr
        else then_err (changed_since existing expectedSeq)
         (then_err (validateNodeNotDraining lv def (Some existing))
         (then_err (if dep_SpaceID (drec_Deployment existing) \<noteq> dep_SpaceID def then validate_move lv existing def else validate_change env lv existing updated)
           (validate_references env ts lv def))))"

definition node_connected :: "(nat \<Rightarrow> bool) \<Rightarrow> DeploymentRecord \<Rightarrow> bool" where
  "node_connected connected cfg = connected (PlacementNodeID (drec_Deployment cfg))"

definition canDeleteStaleDisconnectedSystemDeployment :: "(nat \<Rightarrow> bool) option \<Rightarrow> nat \<Rightarrow> DeploymentRecord \<Rightarrow> bool" where
  "canDeleteStaleDisconnectedSystemDeployment cluster primaryNodeID cfg =
    (let node = PlacementNodeID (drec_Deployment cfg) in
     case cluster of None \<Rightarrow> False | Some connected \<Rightarrow> node \<noteq> 0 \<and> node \<noteq> primaryNodeID \<and> \<not> node_connected connected cfg)"

definition instancePermitsDelete :: "(nat \<Rightarrow> bool) option \<Rightarrow> nat \<Rightarrow> DeploymentRecord \<Rightarrow> ScheduledInstanceStatus \<Rightarrow> bool" where
  "instancePermitsDelete cluster primaryNodeID cfg status =
    (let running = (case sis_Runner status of None \<Rightarrow> RUNNING_STATUS_UNSPECIFIED | Some r \<Rightarrow> rs_Status r);
         node = PlacementNodeID (drec_Deployment cfg) in
     if running = RUNNING_STATUS_STOPPED then True
     else if running \<noteq> RUNNING_STATUS_RUNNING \<and> running \<noteq> RUNNING_STATUS_UNSPECIFIED then False
     else if node = 0 \<or> node = primaryNodeID then False
     else (case cluster of None \<Rightarrow> True | Some connected \<Rightarrow> \<not> node_connected connected cfg))"

definition canDeleteDeployment :: "(nat \<Rightarrow> bool) option \<Rightarrow> nat \<Rightarrow> DeploymentRecord \<Rightarrow> ScheduledInstanceStatus list \<Rightarrow> bool" where
  "canDeleteDeployment cluster primaryNodeID cfg statuses =
    (if statuses = [] then \<not> WorkloadRunning cfg else list_all (instancePermitsDelete cluster primaryNodeID cfg) statuses)"

definition inLockValidateDeploymentDelete :: "deploy_env \<Rightarrow> tables \<Rightarrow> nat \<Rightarrow> int \<Rightarrow> deploy_error option" where
  "inLockValidateDeploymentDelete env ts deploymentID expectedSeq =
    (let lv = ReadLiveState ts in
     case live_deployment lv deploymentID of
       None \<Rightarrow> Some NotFoundErr
     | Some existing \<Rightarrow>
        if Deleted existing then Some NotFoundErr
        else then_err (changed_since existing expectedSeq)
         (let i = dep_ID (drec_Deployment existing);
              statuses = map snd (filter (\<lambda>(inst, _). dref_DeploymentID (si_Deployment inst) = i) (live_Scheduled lv)) in
          then_err (if IsInternalConfig existing then
              (if canDeleteStaleDisconnectedSystemDeployment (de_Cluster env) (de_PrimaryNodeID env) existing then None
               else Some (InvalidConfigErr ''opendeploy system deployment is internal-only''))
            else if canDeleteDeployment (de_Cluster env) (de_PrimaryNodeID env) existing statuses then None
            else Some (InvalidConfigErr ''deployment must be stopped before deletion''))
          (if UsesAddressID lv [i] then Some ReferenceInUseErr else None)))"

section \<open>The writes\<close>

definition NextDeploymentID :: "db \<Rightarrow> nat \<times> db" where
  "NextDeploymentID d = NextEntityID CORE_DEPLOYMENT d"

definition DeploymentCreateRecord :: "int \<Rightarrow> nat \<Rightarrow> int \<Rightarrow> clock \<Rightarrow> Deployment \<Rightarrow> DeploymentRecord" where
  "DeploymentCreateRecord actor deploymentID seq now d =
    \<lparr>drec_Deployment = d\<lparr>dep_ID := deploymentID\<rparr>,
     drec_Meta = \<lparr>meta_CreatedTime = UnixMilli now, meta_UpdatedTime = UnixMilli now, meta_UpdatedSeq = seq, meta_UpdatedActor = actor,
       meta_Version = 1, meta_SpecVersion = 1, meta_ValueVersion = 0, meta_Deleted = False\<rparr>\<rparr>"

text \<open>\<open>None\<close> on the right is \<open>ErrDeploymentUnchanged\<close>.\<close>

definition DeploymentUpdateRecord :: "int \<Rightarrow> nat \<Rightarrow> int \<Rightarrow> clock \<Rightarrow> Deployment \<Rightarrow> tables \<Rightarrow> store_error + DeploymentRecord option" where
  "DeploymentUpdateRecord actor deploymentID seq now d ts =
    (case GetLatestDeployment deploymentID ts of
       None \<Rightarrow> Inl NoRows
     | Some prev \<Rightarrow>
        (case BuildDeploymentUpdateRecord prev d actor (UnixMilli now) of (r, changed) \<Rightarrow>
           if \<not> changed then Inr None else Inr (Some (r\<lparr>drec_Meta := (drec_Meta r)\<lparr>meta_UpdatedSeq := seq\<rparr>\<rparr>))))"

definition DeploymentDeleteRecord :: "int \<Rightarrow> nat \<Rightarrow> int \<Rightarrow> clock \<Rightarrow> tables \<Rightarrow> store_error + DeploymentRecord" where
  "DeploymentDeleteRecord actor deploymentID seq now ts =
    (case GetLatestDeployment deploymentID ts of
       None \<Rightarrow> Inl NoRows
     | Some prev \<Rightarrow> Inr (prev\<lparr>drec_Meta := (drec_Meta prev)\<lparr>meta_UpdatedSeq := seq, meta_UpdatedTime := UnixMilli now, meta_UpdatedActor := actor, meta_Deleted := True\<rparr>\<rparr>))"

definition create_mutate :: "deploy_env \<Rightarrow> int \<Rightarrow> clock \<Rightarrow> Deployment \<Rightarrow> db \<Rightarrow> int \<Rightarrow> store_error + DeploymentRecord \<times> txn" where
  "create_mutate env actor now dep d seq =
    (case inLockValidateDeploymentCreate env (db_tables d) dep of
       Some e \<Rightarrow> Inl (refused e)
     | None \<Rightarrow>
        let (i, d1) = NextDeploymentID d; r = DeploymentCreateRecord actor i seq now dep
        in Inr (r, wrote d1 (NewUpdate [DeploymentMutation r])))"

definition Create ::
  "deploy_env \<Rightarrow> trigger list \<Rightarrow> int \<Rightarrow> clock \<Rightarrow> tables \<Rightarrow> Deployment \<Rightarrow> db \<Rightarrow> store_error + DeploymentRecord \<times> CoreWriteUpdate option \<times> db" where
  "Create env triggers actor now pre dep d =
    (case preLockValidateDeploymentCreate env now pre dep of
       Inl e \<Rightarrow> Inl (refused e)
     | Inr newDep \<Rightarrow> Commit triggers (create_mutate env actor now newDep) d)"

definition setTargetVersion :: "DeploymentRecord \<Rightarrow> string \<Rightarrow> deploy_error + DeploymentRecord" where
  "setTargetVersion updated targetVersion = at_field ''spec: '' (SetWorkloadState targetVersion True updated)"

definition apply_change :: "DeploymentRecord \<Rightarrow> deployment_change option \<Rightarrow> deploy_error + DeploymentRecord" where
  "apply_change existing change =
    (case change of
       Some (VersionOnly targetVersion) \<Rightarrow> setTargetVersion existing targetVersion
     | Some (RunningOnly running) \<Rightarrow> at_field ''spec: '' (SetWorkloadState (WorkloadVersion (dep_Spec (drec_Deployment existing))) running existing)
     | Some (SpecChange spec) \<Rightarrow> Inr (with_spec spec existing)
     | Some (AssignedSpace space) \<Rightarrow> Inr (existing\<lparr>drec_Deployment := (drec_Deployment existing)\<lparr>dep_SpaceID := space\<rparr>\<rparr>)
     | Some Restart \<Rightarrow>
         if IsSelfConfig existing then Inl (InvalidConfigErr ''the opendeploy system deployment cannot be restarted'')
         else if \<not> WorkloadRunning existing then Inl (InvalidConfigErr ''deployment is not running'')
         else let s = dep_Scheduling (drec_Deployment existing)
           in Inr (existing\<lparr>drec_Deployment := (drec_Deployment existing)\<lparr>dep_Scheduling := s\<lparr>sch_RestartGeneration := (sch_RestartGeneration s + 1) mod 2 ^ 32\<rparr>\<rparr>\<rparr>)
     | None \<Rightarrow> Inr existing)"

definition cloneDeployment :: "DeploymentRecord \<Rightarrow> deploy_error + DeploymentRecord" where
  "cloneDeployment cfg = (case cloneDeploymentSpec (dep_Spec (drec_Deployment cfg)) of Inl e \<Rightarrow> Inl (EncodingErr e) | Inr spec \<Rightarrow> Inr (with_spec spec cfg))"

definition update_mutate ::
  "deploy_env \<Rightarrow> int \<Rightarrow> clock \<Rightarrow> DeploymentUpdateRequest \<Rightarrow> DeploymentRecord \<Rightarrow> db \<Rightarrow> int \<Rightarrow> store_error + DeploymentRecord \<times> txn" where
  "update_mutate env actor now req updated d seq =
    (case inLockValidateDeploymentUpdate env (db_tables d) updated (dur_ExpectedSeq req) of
       Some e \<Rightarrow> Inl (refused e)
     | None \<Rightarrow>
        bindE (DeploymentUpdateRecord actor (dur_DeploymentID req) seq now (drec_Deployment updated) (db_tables d)) (\<lambda>result.
          case result of
            None \<Rightarrow> (case GetLatestDeployment (dur_DeploymentID req) (db_tables d) of
                None \<Rightarrow> Inl NoRows | Some r \<Rightarrow> Inr (r, wrote d empty_update))
          | Some r \<Rightarrow> Inr (r, wrote d (NewUpdate [DeploymentMutation r]))))"

definition Update ::
  "deploy_env \<Rightarrow> trigger list \<Rightarrow> int \<Rightarrow> clock \<Rightarrow> tables \<Rightarrow> DeploymentRecord \<Rightarrow> DeploymentUpdateRequest \<Rightarrow> db \<Rightarrow>
   store_error + DeploymentRecord \<times> CoreWriteUpdate option \<times> db" where
  "Update env triggers actor now pre existing req d =
    (case changed_since existing (dur_ExpectedSeq req) of
       Some e \<Rightarrow> Inl (refused e)
     | None \<Rightarrow>
        (case bindE (cloneDeployment existing) (\<lambda>copy. bindE (apply_change copy (dur_Update req)) (preLockValidateDeploymentUpdate env now pre existing req)) of
           Inl e \<Rightarrow> Inl (refused e)
         | Inr updated \<Rightarrow> Commit triggers (update_mutate env actor now req updated) d))"

definition delete_mutate :: "deploy_env \<Rightarrow> int \<Rightarrow> clock \<Rightarrow> nat \<Rightarrow> int \<Rightarrow> db \<Rightarrow> int \<Rightarrow> store_error + unit \<times> txn" where
  "delete_mutate env actor now deploymentID expectedSeq d seq =
    (case inLockValidateDeploymentDelete env (db_tables d) deploymentID expectedSeq of
       Some e \<Rightarrow> Inl (refused e)
     | None \<Rightarrow> bindE (DeploymentDeleteRecord actor deploymentID seq now (db_tables d)) (\<lambda>r.
         Inr ((), wrote d (NewUpdate [DeploymentMutation r]))))"

definition Delete ::
  "deploy_env \<Rightarrow> trigger list \<Rightarrow> int \<Rightarrow> clock \<Rightarrow> nat \<Rightarrow> int \<Rightarrow> db \<Rightarrow> store_error + unit \<times> CoreWriteUpdate option \<times> db" where
  "Delete env triggers actor now deploymentID expectedSeq d = Commit triggers (delete_mutate env actor now deploymentID expectedSeq) d"

section \<open>System deployments\<close>

definition SelfImage :: string where "SelfImage = ''opendeploy''"
definition NetproxyStateDir :: string where "NetproxyStateDir = ''/var/lib/opendeploy/netproxy''"
definition netproxyFileDescriptorLimit :: nat where "netproxyFileDescriptorLimit = 65536"

definition zero_runtime :: ContainerRuntime where
  "zero_runtime = \<lparr>rt_User = [], rt_EnvVars = [], rt_OverrideCommand = [], rt_OverrideWorkingDir = [],
     rt_DefaultVolume = \<lparr>dv_ContainerPath = [], dv_Disabled = False\<rparr>, rt_CrossDeploymentMounts = [], rt_Mounts = [], rt_AssetMounts = [],
     rt_DevShmSizeKb = absent 0, rt_FileDescriptorLimit = absent 0, rt_IssuedTlsMount = None\<rparr>"

definition SelfSpec :: DeploymentSpec where
  "SelfSpec =
    \<lparr>ds_Container = Some \<lparr>cs_Source = Some (RemoteImage SelfImage), cs_Runtime = zero_runtime, cs_Version = [],
       cs_UpgradeStrategy = CONTAINER_UPGRADE_STRATEGY_RECREATE, cs_ReadinessSignal = None\<rparr>,
     ds_Networking = \<lparr>nc_Mode = NETWORKING_MODE_HOST, nc_PortForwarding = [], nc_Ingress = []\<rparr>\<rparr>"

definition IsSelfSpec :: "DeploymentSpec \<Rightarrow> bool" where
  "IsSelfSpec spec =
    (case SetWorkloadVersion (WorkloadVersion spec) SelfSpec of Inl _ \<Rightarrow> False
     | Inr want \<Rightarrow> DeploymentSpec_validate spec = None \<and> want = spec)"

definition NetproxySpec :: DeploymentSpec where
  "NetproxySpec =
    \<lparr>ds_Container = Some \<lparr>cs_Source = Some (RemoteImage NetproxyImage),
       cs_Runtime = zero_runtime\<lparr>rt_OverrideCommand := [''/opendeploy'', ''dataplane''], rt_DefaultVolume := \<lparr>dv_ContainerPath = [], dv_Disabled = True\<rparr>,
         rt_FileDescriptorLimit := some_maybe netproxyFileDescriptorLimit,
         rt_Mounts := [\<lparr>hm_HostPath = NetproxyStateDir, hm_ContainerPath = NetproxyStateDir, hm_Permission = FILE_PERMISSION_READ_ONLY\<rparr>]\<rparr>,
       cs_Version = [], cs_UpgradeStrategy = CONTAINER_UPGRADE_STRATEGY_RECREATE, cs_ReadinessSignal = None\<rparr>,
     ds_Networking = \<lparr>nc_Mode = NETWORKING_MODE_VIRTUAL, nc_PortForwarding = [], nc_Ingress = []\<rparr>\<rparr>"

definition DedicatedScheduling :: "bool \<Rightarrow> nat list \<Rightarrow> Scheduling" where
  "DedicatedScheduling running ns = \<lparr>sch_Running = running, sch_DedicatedNodes = Some ns, sch_RestartGeneration = 0\<rparr>"

text \<open>A panic is the error of the operation. The writes of the primary itself have no author.\<close>

definition create_system :: "nat \<Rightarrow> string \<Rightarrow> DeploymentSpec \<Rightarrow> string \<Rightarrow> clock \<Rightarrow> db \<Rightarrow> int \<Rightarrow> store_error + DeploymentRecord \<times> txn" where
  "create_system nodeID name base version now d seq =
    (case SetWorkloadVersion version base of
       Inl e \<Rightarrow> Inl (WriterFailed e)
     | Inr spec \<Rightarrow>
        let (i, d1) = NextDeploymentID d;
            r = DeploymentCreateRecord 0 i seq now \<lparr>dep_ID = 0, dep_Name = name, dep_SpaceID = internal_SpaceID, dep_Spec = spec, dep_Scheduling = DedicatedScheduling True [nodeID]\<rparr>
        in Inr (r, wrote d1 (NewUpdate [DeploymentMutation r])))"

definition repair_system :: "DeploymentRecord \<Rightarrow> Deployment \<Rightarrow> clock \<Rightarrow> db \<Rightarrow> int \<Rightarrow> store_error + DeploymentRecord \<times> txn" where
  "repair_system cfg def now d seq =
    bindE (DeploymentUpdateRecord 0 (dep_ID (drec_Deployment cfg)) seq now def (db_tables d)) (\<lambda>result.
      case result of
        None \<Rightarrow> Inl (WriterFailed ''deployment unchanged'')
      | Some r \<Rightarrow> Inr (r, wrote d (NewUpdate [DeploymentMutation r])))"

definition ensure_system_mutate :: "nat \<Rightarrow> string \<Rightarrow> clock \<Rightarrow> db \<Rightarrow> int \<Rightarrow> store_error + DeploymentRecord \<times> txn" where
  "ensure_system_mutate nodeID version now d seq =
    (case find (\<lambda>cfg. DeploymentKeyMatches (drec_Deployment cfg) nodeID internal_SpaceID SelfName) (ListActiveDeployments (db_tables d)) of
       None \<Rightarrow> create_system nodeID SelfName SelfSpec version now d seq
     | Some cfg \<Rightarrow>
         let def = drec_Deployment cfg in
         if IsSelfSpec (dep_Spec def) then Inr (cfg, wrote d empty_update)
         else (case SetWorkloadVersion (WorkloadVersion (dep_Spec def)) SelfSpec of
             Inl e \<Rightarrow> Inl (WriterFailed e)
           | Inr spec \<Rightarrow> repair_system cfg (def\<lparr>dep_Spec := spec, dep_Scheduling := (dep_Scheduling def)\<lparr>sch_Running := True\<rparr>\<rparr>) now d seq))"

definition EnsureSystem :: "trigger list \<Rightarrow> nat \<Rightarrow> string \<Rightarrow> clock \<Rightarrow> db \<Rightarrow> store_error + DeploymentRecord \<times> CoreWriteUpdate option \<times> db" where
  "EnsureSystem triggers nodeID opendeployVersion now d =
    (if nodeID = 0 then Inl (WriterFailed ''deployment node ID must be positive'')
     else if TrimSpace opendeployVersion = [] then Inl (WriterFailed ''EnsureSystem requires an explicit OpenDeploy version'')
     else Commit triggers (ensure_system_mutate nodeID (TrimSpace opendeployVersion) now) d)"

definition ensure_netproxy_mutate :: "nat \<Rightarrow> string \<Rightarrow> clock \<Rightarrow> db \<Rightarrow> int \<Rightarrow> store_error + DeploymentRecord \<times> txn" where
  "ensure_netproxy_mutate nodeID version now d seq =
    (case find (\<lambda>cfg. DeploymentKeyMatches (drec_Deployment cfg) nodeID internal_SpaceID NetproxyName) (ListActiveDeployments (db_tables d)) of
       None \<Rightarrow> create_system nodeID NetproxyName NetproxySpec version now d seq
     | Some cfg \<Rightarrow>
         let def = drec_Deployment cfg in
         (case SetWorkloadVersion (WorkloadVersion (dep_Spec def)) NetproxySpec of
            Inl e \<Rightarrow> Inl (WriterFailed e)
          | Inr spec \<Rightarrow>
              if DeploymentSpecsEqual (dep_Spec def) spec then Inr (cfg, wrote d empty_update)
              else repair_system cfg (def\<lparr>dep_Spec := spec\<rparr>) now d seq))"

definition EnsureNetproxy :: "trigger list \<Rightarrow> nat \<Rightarrow> string \<Rightarrow> clock \<Rightarrow> db \<Rightarrow> store_error + DeploymentRecord \<times> CoreWriteUpdate option \<times> db" where
  "EnsureNetproxy triggers nodeID initialVersion now d =
    (if nodeID = 0 then Inl (WriterFailed ''deployment node ID must be positive'')
     else if TrimSpace initialVersion = [] then Inl (WriterFailed ''EnsureNetproxy requires an explicit OpenDeploy version'')
     else Commit triggers (ensure_netproxy_mutate nodeID (TrimSpace initialVersion) now) d)"

end
