(* ===== verification/Store_Props.thy ===== *)
theory Store_Props
  imports Scheduler_Inv "HOL-Library.Multiset"
begin

text \<open>
  What the store promises its readers: retention does not depend on the order the Go map of
  affected deployments is visited in and never takes a version a placement or a live deployment
  reads; the status row is the newest report whatever order reports arrive in, and reads back as the
  canonical report; a commit keeps the store consistent, consumes one seq and only appends to the log.
\<close>

section \<open>Retention\<close>

text \<open>\<open>retainDeployment\<close> on tables whose instance ids are distinct, as every reachable table is.\<close>

definition retain_keyed :: "nat \<Rightarrow> tables \<Rightarrow> tables" where
  "retain_keyed dep ts = (if distinct (map fst (scheduled_instances ts)) then retainDeployment dep ts else ts)"

interpretation retention: comp_fun_idem retain_keyed
proof
  fix a b
  show "retain_keyed b \<circ> retain_keyed a = retain_keyed a \<circ> retain_keyed b"
    using retain_commute [of _ a b] distinct_retained by (cases "a = b") (auto simp: retain_keyed_def fun_eq_iff)
  show "retain_keyed a \<circ> retain_keyed a = retain_keyed a"
    using retain_idem distinct_retained by (auto simp: retain_keyed_def fun_eq_iff)
qed

lemma fold_retain_keyed:
  "distinct (map fst (scheduled_instances ts)) \<Longrightarrow> fold retainDeployment deps ts = fold retain_keyed deps ts"
  by (induction deps arbitrary: ts) (simp_all add: retain_keyed_def distinct_retained)

text \<open>
  C15. The order in which a reduction visits the affected deployments does not matter, nor does
  visiting one twice: \<open>reduceUpdate\<close> ranges over a Go map, whose order is unspecified, and any two
  orders of the same deployments leave the same tables.
\<close>

theorem retention_order_irrelevant:
  assumes "distinct (map fst (scheduled_instances ts))" and "set deps = set deps'"
  shows "fold retainDeployment deps ts = fold retainDeployment deps' ts"
  unfolding fold_retain_keyed [OF assms(1)] using assms(2) by (metis retention.fold_set_fold)

theorem retention_order_irrelevant_witness:
  "fold retainDeployment [7, 3] (db_tables (sample_db False [sample_instance])) =
   fold retainDeployment [3, 7, 3] (db_tables (sample_db False [sample_instance]))"
  by (rule retention_order_irrelevant) (auto simp: sample_defs)

lemma fold_retain_pins:
  "tables_wf ts \<Longrightarrow> pins_ok ts \<and> current_ok ts \<Longrightarrow>
   pins_ok (fold retainDeployment deps ts) \<and> current_ok (fold retainDeployment deps ts)"
proof (induction deps arbitrary: ts)
  case (Cons dep deps)
  have wf: "distinct (map fst (scheduled_instances ts))" "tbl_wf (deployment_versions ts)" "tbl_wf (deployments ts)"
    using Cons.prems(1) by (auto simp: tables_wf_def tbl_wf_def)
  show ?case using Cons.IH [OF retain_wf [OF Cons.prems(1)], of dep] Cons.prems(2)
      retain_pins_ok [OF wf(1,2), of dep] retain_current_ok [OF wf(3,2), of dep] by simp
qed simp

text \<open>
  C16. Retention never strands a reader: if every placement's pinned version and every live
  deployment's current version can be read before it runs, they can be read afterwards, whatever
  deployments it was run for. The scheduler and the publishers read both without a fallback.
\<close>

theorem retention_keeps_read_versions:
  assumes "tables_wf ts" and "pins_ok ts" and "current_ok ts"
  shows "pins_ok (fold retainDeployment deps ts) \<and> current_ok (fold retainDeployment deps ts)"
  using fold_retain_pins [OF assms(1)] assms(2,3) by blast

theorem retention_keeps_read_versions_witness:
  "pins_ok (fold retainDeployment [7] (db_tables (sample_db False [sample_instance]))) \<and>
   current_ok (fold retainDeployment [7] (db_tables (sample_db False [sample_instance])))"
  by (rule retention_keeps_read_versions) (auto simp: sample_defs pins_ok_def current_ok_def tables_wf_def tbl_wf_def empty_tables_def)

section \<open>Statuses\<close>

definition report_clock :: "ScheduledInstanceStatus \<Rightarrow> int" where
  "report_clock st = clockToNanos (sis_UpdatedAt st)"

definition apply_reports :: "nat \<Rightarrow> (rowEnvelope \<times> EntityMeta \<times> ScheduledInstanceStatus) list \<Rightarrow> tables \<Rightarrow> store_error + tables" where
  "apply_reports i = foldE (\<lambda>(env, meta, st) ts. bindE (reduceScheduledInstanceStatus env meta i (Some st) ts) (\<lambda>(_, ts'). Inr ts'))"

definition status_of :: "nat \<Rightarrow> tables \<Rightarrow> scheduledInstanceStatusRow option" where
  "status_of i ts = map_option row_value (tbl_get (scheduled_instance_status ts) i)"

lemma status_columns_clock [simp]: "sr_updatedAt (status_columns st) = report_clock st"
  by (simp add: status_columns_def report_clock_def)

abbreviation rep_clock :: "rowEnvelope \<times> EntityMeta \<times> ScheduledInstanceStatus \<Rightarrow> int" where
  "rep_clock r \<equiv> report_clock (snd (snd r))"

abbreviation reported :: "(rowEnvelope \<times> EntityMeta \<times> ScheduledInstanceStatus) list \<Rightarrow> ScheduledInstanceStatus set" where
  "reported rs \<equiv> (snd \<circ> snd) ` set rs"

lemma reduce_status_total:
  assumes "tbl_wf (scheduled_instance_status ts)"
  shows "\<exists>meta' ts'. reduceScheduledInstanceStatus env meta i (Some st) ts = Inr (meta', ts') \<and>
    tbl_wf (scheduled_instance_status ts') \<and>
    status_of i ts' = (case status_of i ts of
        Some old \<Rightarrow> if report_clock st \<ge> sr_updatedAt old then Some (status_columns st) else Some old
      | None \<Rightarrow> Some (status_columns st))"
proof -
  have "\<exists>x. reduceScheduledInstanceStatus env meta i (Some st) ts = Inr x"
    by (auto simp: reduceScheduledInstanceStatus_def Let_def split: option.splits)
  then obtain meta' ts' where r: "reduceScheduledInstanceStatus env meta i (Some st) ts = Inr (meta', ts')" by auto
  moreover have "tbl_wf (scheduled_instance_status ts')"
    using r assms by (auto simp: reduceScheduledInstanceStatus_def put_row_def Let_def table_simps split: option.splits if_splits)
  ultimately show ?thesis
    using reduceScheduledInstanceStatus_Inr [OF r assms] by (auto simp: status_of_def make_row_def split: option.splits)
qed

text \<open>Among the reports of a row the newest stays: a row that is newer than all the reports to come is final.\<close>

lemma apply_reports_newest:
  assumes "tbl_wf (scheduled_instance_status ts)" "distinct (map rep_clock rs)"
  shows "\<exists>ts'. apply_reports i rs ts = Inr ts' \<and>
    (\<forall>st. st \<in> reported rs \<and> (\<forall>q \<in> set rs. rep_clock q \<le> report_clock st) \<and>
       (\<forall>old. status_of i ts = Some old \<longrightarrow> sr_updatedAt old \<le> report_clock st) \<longrightarrow> status_of i ts' = Some (status_columns st)) \<and>
    (\<forall>old. status_of i ts = Some old \<and> (\<forall>q \<in> set rs. rep_clock q < sr_updatedAt old) \<longrightarrow> status_of i ts' = Some old)"
  using assms
proof (induction rs arbitrary: ts)
  case Nil
  then show ?case by (auto simp: apply_reports_def)
next
  case (Cons r rs)
  obtain env meta st where r: "r = (env, meta, st)" by (cases r)
  from reduce_status_total [OF Cons.prems(1), of env meta i st] obtain meta' ts1 where
    t1: "reduceScheduledInstanceStatus env meta i (Some st) ts = Inr (meta', ts1)" "tbl_wf (scheduled_instance_status ts1)"
      and s1: "status_of i ts1 = (case status_of i ts of
        Some old \<Rightarrow> if report_clock st \<ge> sr_updatedAt old then Some (status_columns st) else Some old
      | None \<Rightarrow> Some (status_columns st))" by blast
  have other: "rep_clock q \<noteq> report_clock st" if "q \<in> set rs" for q using Cons.prems(2) that r by force
  from Cons.IH [OF t1(2)] Cons.prems(2) obtain ts' where
    ts': "apply_reports i rs ts1 = Inr ts'"
      and new: "\<And>st. st \<in> reported rs \<Longrightarrow> (\<forall>q \<in> set rs. rep_clock q \<le> report_clock st) \<Longrightarrow>
         (\<forall>old. status_of i ts1 = Some old \<longrightarrow> sr_updatedAt old \<le> report_clock st) \<Longrightarrow> status_of i ts' = Some (status_columns st)"
      and old: "\<And>old. status_of i ts1 = Some old \<Longrightarrow> (\<forall>q \<in> set rs. rep_clock q < sr_updatedAt old) \<Longrightarrow> status_of i ts' = Some old"
    by auto
  have run: "apply_reports i (r # rs) ts = Inr ts'" using t1(1) ts' by (simp add: apply_reports_def r)
  show ?case
  proof (intro exI [of _ ts'] conjI allI impI run)
    fix w assume w: "w \<in> reported (r # rs) \<and> (\<forall>q \<in> set (r # rs). rep_clock q \<le> report_clock w) \<and>
       (\<forall>old. status_of i ts = Some old \<longrightarrow> sr_updatedAt old \<le> report_clock w)"
    show "status_of i ts' = Some (status_columns w)"
    proof (cases "w = st")
      case True
      with w s1 have "status_of i ts1 = Some (status_columns st)" by (auto split: option.splits)
      moreover have "\<forall>q \<in> set rs. rep_clock q < report_clock st" using w True other by (simp add: less_le)
      ultimately show ?thesis using old True by simp
    next
      case False
      have "\<forall>old. status_of i ts1 = Some old \<longrightarrow> sr_updatedAt old \<le> report_clock w" using w s1 r by (auto split: option.splits if_splits)
      with new [of w] w False r show ?thesis by auto
    qed
  next
    fix o1 assume o1: "status_of i ts = Some o1 \<and> (\<forall>q \<in> set (r # rs). rep_clock q < sr_updatedAt o1)"
    then have "status_of i ts1 = Some o1" using s1 r by simp
    from old [OF this] o1 show "status_of i ts' = Some o1" by simp
  qed
qed

text \<open>The row that reports leave, on top of the one that is there.\<close>

definition newest_row :: "scheduledInstanceStatusRow option \<Rightarrow> ScheduledInstanceStatus \<Rightarrow> scheduledInstanceStatusRow" where
  "newest_row old st = (case old of Some o1 \<Rightarrow> if report_clock st < sr_updatedAt o1 then o1 else status_columns st | None \<Rightarrow> status_columns st)"

lemma apply_reports_row:
  assumes "tbl_wf (scheduled_instance_status ts)" "distinct (map rep_clock rs)" "st \<in> reported rs" "\<forall>q \<in> set rs. rep_clock q \<le> report_clock st"
  shows "\<exists>ts'. apply_reports i rs ts = Inr ts' \<and> status_of i ts' = Some (newest_row (status_of i ts) st)"
proof -
  from apply_reports_newest [OF assms(1,2), of i] obtain ts' where run: "apply_reports i rs ts = Inr ts'"
    and new: "(\<forall>old. status_of i ts = Some old \<longrightarrow> sr_updatedAt old \<le> report_clock st) \<Longrightarrow> status_of i ts' = Some (status_columns st)"
    and old: "\<And>old. status_of i ts = Some old \<Longrightarrow> (\<forall>q \<in> set rs. rep_clock q < sr_updatedAt old) \<Longrightarrow> status_of i ts' = Some old"
    using assms(3,4) by blast
  have "\<forall>q \<in> set rs. rep_clock q < sr_updatedAt old" if "report_clock st < sr_updatedAt old" for old using assms(4) that by fastforce
  then show ?thesis using run new old by (cases "status_of i ts") (auto simp: newest_row_def)
qed

text \<open>
  C17. Status reports are merged newest wins, by their own clock. Reports about one instance with different
  clocks reduce without an error in any order, and in every order they leave the same status row: the newest of them,
  unless the row that was there is newer still. So it does not matter in which order a node's reports and a replay of
  them arrive. (Of two reports with the same clock the later one stays.)
\<close>

theorem status_newest_wins:
  assumes "tbl_wf (scheduled_instance_status ts)" "distinct (map rep_clock rs)" "mset rs' = mset rs"
    and "st \<in> reported rs" "\<forall>q \<in> set rs. rep_clock q \<le> report_clock st"
  shows "\<exists>ts'. apply_reports i rs' ts = Inr ts' \<and> status_of i ts' = Some (newest_row (status_of i ts) st)"
proof (rule apply_reports_row [OF assms(1)])
  show "distinct (map rep_clock rs')"
    using mset_eq_imp_distinct_iff [of "map rep_clock rs" "map rep_clock rs'"] assms(2,3) by simp
  have "set rs' = set rs" using assms(3) by (metis mset_eq_setD)
  then show "st \<in> reported rs'" "\<forall>q \<in> set rs'. rep_clock q \<le> report_clock st" using assms(4,5) by simp_all
qed

definition sample_report :: "clock \<Rightarrow> RunningStatus \<Rightarrow> rowEnvelope \<times> EntityMeta \<times> ScheduledInstanceStatus" where
  "sample_report at rs = (\<lparr>env_Seq = 2, env_EventTime = 20, env_Author = 0, env_Logged = None\<rparr>, rowMeta 0 0 0 0,
     \<lparr>sis_ScheduledInstanceID = 4, sis_UpdatedAt = some_maybe at, sis_Preparer = None, sis_Runner = Some
       \<lparr>rs_SpecVersion = 3, rs_RunningPid = absent 0, rs_RunningArtifact = ''web'', rs_Status = rs, rs_NumberOfRestarts = 0,
        rs_LastRestartAt = absent 0, rs_NetworkDiagnostics = [], rs_ExitCode = absent 0\<rparr>\<rparr>)"

theorem status_newest_wins_witness:
  "\<exists>ts'. apply_reports 4 [sample_report 9 3, sample_report 5 2] empty_tables = Inr ts' \<and>
     status_of 4 ts' = Some (newest_row None (snd (snd (sample_report 9 3))))"
proof -
  have e: "tbl_wf (scheduled_instance_status empty_tables)" "status_of 4 empty_tables = None"
    by (simp_all add: empty_tables_def tbl_wf_def status_of_def)
  have c: "report_clock (snd (snd (sample_report t n))) = t" for t n
    by (simp add: sample_report_def report_clock_def clockToNanos_def some_maybe_def)
  show ?thesis
    using status_newest_wins [OF e(1), of "[sample_report 5 2, sample_report 9 3]" "[sample_report 9 3, sample_report 5 2]" "snd (snd (sample_report 9 3))" 4] c e(2)
    by simp
qed

lemma columns_read_back:
  assumes "toStatus (sis_ScheduledInstanceID st) (status_columns st) = CanonicalScheduledInstanceStatus st"
  shows "status_wf st"
proof -
  let ?r = "toStatus (sis_ScheduledInstanceID st) (status_columns st)"
  have "sis_UpdatedAt ?r = sis_UpdatedAt st" using assms by (simp add: CanonicalScheduledInstanceStatus_def)
  then have c: "nanosToClock (clockToNanos (sis_UpdatedAt st)) = sis_UpdatedAt st" by (simp add: toStatus_def status_columns_def)
  have clock: "maybe_wf 0 (sis_UpdatedAt st) \<and> (Present (sis_UpdatedAt st) \<longrightarrow> Value (sis_UpdatedAt st) \<noteq> 0)"
    by (subst (1 2 3) c [symmetric]) (simp add: nanosToClock_def clockToNanos_def maybe_wf_def absent_def some_maybe_def)
  have "sis_Preparer ?r = sis_Preparer st" using assms by (simp add: CanonicalScheduledInstanceStatus_def)
  then have image: "maybe_wf 0 (ps_Image p) \<and> (Present (ps_Image p) \<longrightarrow> Value (ps_Image p) \<noteq> IMAGE_UNSPECIFIED)" if "sis_Preparer st = Some p" for p
    using that
    by (auto simp: toStatus_def status_columns_def maybe_wf_def absent_def some_maybe_def dest!: arg_cong [of _ p ps_Image] split: if_splits)
      (metis maybe.select_convs)+
  have run: "sis_Runner ?r = sis_Runner (CanonicalScheduledInstanceStatus st)" using assms by simp
  have "maybe_wf 0 (rs_RunningPid r) \<and> maybe_wf 0 (rs_LastRestartAt r) \<and> maybe_wf 0 (rs_ExitCode r)" if r: "sis_Runner st = Some r" for r
  proof -
    from run r have "Some \<lparr>rs_SpecVersion = rs_SpecVersion r, rs_RunningPid = column_maybe 0 (if Present (rs_RunningPid r) then Some (Value (rs_RunningPid r)) else None),
        rs_RunningArtifact = rs_RunningArtifact r, rs_Status = rs_Status r, rs_NumberOfRestarts = rs_NumberOfRestarts r,
        rs_LastRestartAt = column_maybe 0 (map_option (\<lambda>ms. ms * 1000000) (if Present (rs_LastRestartAt r) then Some (timeToMillis (rs_LastRestartAt r)) else None)),
        rs_NetworkDiagnostics = rs_NetworkDiagnostics r, rs_ExitCode = column_maybe 0 (if Present (rs_ExitCode r) then Some (Value (rs_ExitCode r)) else None)\<rparr> =
      Some (if Present (rs_LastRestartAt r) then r\<lparr>rs_LastRestartAt := some_maybe (UnixMilli (Value (rs_LastRestartAt r)) * 1000000)\<rparr> else r)"
      by (simp add: toStatus_def status_columns_def CanonicalScheduledInstanceStatus_def split del: if_split)
    then show ?thesis
      by (auto simp: maybe_wf_def column_maybe_def split: if_splits dest: arg_cong [of _ _ rs_RunningPid] arg_cong [of _ _ rs_LastRestartAt] arg_cong [of _ _ rs_ExitCode])
  qed
  with clock image show ?thesis by (simp add: status_wf_def split: option.splits)
qed

text \<open>
  C18. Which status reports survive their row. Encoding a report into the columns of \<open>scheduled_instance_status\<close> and
  reading the row back gives the canonical report exactly when every absent field is zero, as it is in a decoded message,
  a present clock is not zero, and a present image status is not the unspecified one. The canonical form keeps
  a present but unspecified image status, and the row drops it: there the published report is not the materialised one.
\<close>

theorem status_row_roundtrip:
  "toStatus (sis_ScheduledInstanceID st) (status_columns st) = CanonicalScheduledInstanceStatus st \<longleftrightarrow> status_wf st"
  using toStatus_columns columns_read_back by blast

section \<open>Commits of the scheduler\<close>

lemma settled_start: "db_inv d \<Longrightarrow> pins_ok (db_tables d) \<Longrightarrow> settled (seq_txn d seq)"
  by (simp add: settled_def tx_inv_def seq_txn_def wrote_def empty_update_def)

lemma settled_idle: "settled x \<Longrightarrow> tx_reduce x = Inr x"
  by (simp add: settled_def tx_reduce_def ReduceUpdate_def reduceUpdate_def)

lemma Sweep_total:
  assumes "db_inv d" "pins_ok (db_tables d)"
  shows "\<exists>u d'. Sweep s now [scheduler_trigger s now'] d = Inr ((), u, d') \<and> pins_ok (db_tables d')"
proof -
  let ?seq = "db_global_seq d + 1"
  from reconcile_spec [OF settled_start [OF assms, of ?seq], of s now "Some ListDrainingDeploymentIDs"] obtain x1 where
    x1: "reconcile s now (Some ListDrainingDeploymentIDs) (seq_txn d ?seq) = Inr x1" "settled x1" by blast
  have seq1: "upd_Seq (tx_update x1) = ?seq"
    using reconcile_refines [OF x1(1)] by (simp add: refines_def seq_txn_def wrote_def)
  then have stamp: "x1\<lparr>tx_update := (tx_update x1)\<lparr>upd_Seq := ?seq\<rparr>\<rparr> = x1" by simp
  from reconcile_spec [OF x1(2), of s now' None] obtain x2 where
    x2: "reconcile s now' None x1 = Inr x2" "settled x2" by blast
  have seq2: "upd_Seq (tx_update x2) = ?seq" using reconcile_refines [OF x2(1)] seq1 by (simp add: refines_def)
  have steps: "tx_steps (seq_txn d ?seq) x2"
    using reconcile_refines [OF x1(1)] reconcile_refines [OF x2(1)] tx_steps_trans by (auto simp: refines_def)
  have "tx_inv (seq_txn d ?seq)" using settled_start [OF assms] by (simp add: settled_def)
  from tx_steps_inv [OF steps this] have "db_log (tx_db x2) = db_log d" by (simp add: counters_le_def seq_txn_def wrote_def)
  then have "upd_Seq (tx_update x2) \<notin> we_seq ` set (db_log (tx_db x2))"
    using assms(1) seq2 by (fastforce simp: db_inv_def)
  then obtain d2 where ins: "InsertWriteEvent (tx_update x2) (tx_db x2) = Inr d2" "db_tables d2 = db_tables (tx_db x2)"
    by (auto simp: InsertWriteEvent_Inr)
  have "Sweep s now [scheduler_trigger s now'] d =
      (if IsEmpty (Some (tx_update x2)) then Inr ((), None, tx_db x2)
       else Inr ((), Some (tx_update x2), d2\<lparr>db_global_seq := ?seq\<rparr>))"
    by (simp add: Sweep_def Commit_def Let_def x1(1) stamp settled_idle [OF x1(2)] scheduler_trigger_def x2(1) settled_idle [OF x2(2)] ins(1))
  moreover have "pins_ok (db_tables (tx_db x2))" using x2(2) by (simp add: settled_def)
  ultimately show ?thesis using ins(2) by (auto split: if_splits)
qed

text \<open>
  C13. The drain sweep of the scheduler always commits: on a consistent store whose placements have
  their pinned versions, \<open>Sweep\<close> with the scheduler's own trigger registered returns without an
  error, and leaves a consistent store that it can be run on again; it consumes one seq and appends
  one event when it wrote something and touches neither otherwise, and no id counter goes back.
\<close>

theorem Sweep_commits:
  assumes "db_inv d" and "pins_ok (db_tables d)"
  shows "\<exists>u d'. Sweep s now [scheduler_trigger s now'] d = Inr ((), u, d') \<and> db_inv d' \<and> pins_ok (db_tables d') \<and>
    (\<forall>t. counter t d \<le> counter t d') \<and>
    (case u of None \<Rightarrow> db_log d' = db_log d \<and> db_global_seq d' = db_global_seq d
     | Some u \<Rightarrow> db_global_seq d' = db_global_seq d + 1 \<and> upd_Seq u = db_global_seq d + 1 \<and>
         db_log d' = db_log d @ [\<lparr>we_seq = upd_Seq u, we_time = upd_Time u, we_actor = upd_Actor u,
            we_mutations = map log_mutation (upd_Mutations u)\<rparr>])"
proof -
  from Sweep_total [OF assms] obtain u d' where run: "Sweep s now [scheduler_trigger s now'] d = Inr ((), u, d')" "pins_ok (db_tables d')"
    by blast
  note i = sweep.commit_inv [OF run(1) [unfolded Sweep_def] assms(1)]
  show ?thesis using run i by (intro exI [of _ u] exI [of _ d']) (auto split: option.splits)
qed

theorem Sweep_commits_witness:
  "\<exists>u d'. Sweep sample_scheduler 5 [scheduler_trigger sample_scheduler 6] (sample_db True [sample_instance]) = Inr ((), u, d') \<and>
     db_inv d' \<and> pins_ok (db_tables d')"
  using Sweep_commits [of "sample_db True [sample_instance]" sample_scheduler 5 6] sample_settled [of "[sample_instance]" True]
  by (auto simp: settled_def tx_inv_def seq_txn_def wrote_def)

text \<open>
  C14. What \<open>EnsureRunInstance\<close> returns: a placement of the asked deployment, version, node and ordinal that should
  run. If it was not created, the store had it; if it was, its id is one that no placement has and that
  no logged create or update of a placement ever had. The store stays consistent.
\<close>

theorem EnsureRunInstance_result:
  assumes "db_inv d" and "EnsureRunInstance [scheduler_trigger s now] dep version nodeID ordinal initial at d = Inr ((inst, created), u, d')"
  shows "db_inv d' \<and> (\<forall>t. counter t d \<le> counter t d') \<and> si_NodeID inst = nodeID \<and> si_InstanceOrdinal inst = ordinal \<and>
    si_Deployment inst = \<lparr>dref_DeploymentID = dep, dref_Version = version\<rparr> \<and> WantsRunning (si_State inst) \<and>
    (\<not> created \<longrightarrow> (\<exists>event \<in> set (ListNonFinalScheduledInstancesForDeployment dep (db_tables d)). sie_Value event = inst)) \<and>
    (created \<longrightarrow> si_ID inst \<notin> fst ` set (scheduled_instances (db_tables d)) \<and>
       (\<forall>e \<in> set (db_log d). \<forall>m \<in> set (we_mutations e).
          lm_entity_type m = CORE_SCHEDULED_INSTANCE \<and> lm_op m \<noteq> VERB_DELETE \<longrightarrow> lm_entity_id m \<noteq> si_ID inst))"
proof -
  from assms(2) have wants: "WantsRunning initial"
    and run: "Commit [scheduler_trigger s now] (ensure_mutate dep version nodeID ordinal initial at) d = Inr ((inst, created), u, d')"
    by (auto simp: EnsureRunInstance_def split: if_splits)
  note i = ensure.commit_inv [OF run assms(1)]
  from Commit_Inr [OF run] obtain t where t: "ensure_mutate dep version nodeID ordinal initial at d (db_global_seq d + 1) = Inr ((inst, created), t)"
    by metis
  let ?list = "ListNonFinalScheduledInstancesForDeployment dep (db_tables d)"
  have own: "dref_DeploymentID (si_Deployment (sie_Value e)) = dep" if "e \<in> set ?list" for e
    using that by (auto simp: ListNonFinalScheduledInstancesForDeployment_def)
  have f: "si_NodeID inst = nodeID \<and> si_InstanceOrdinal inst = ordinal \<and> dref_Version (si_Deployment inst) = version \<and>
      WantsRunning (si_State inst) \<and> (created \<longrightarrow> si_ID inst = counter CORE_SCHEDULED_INSTANCE d \<and> dref_DeploymentID (si_Deployment inst) = dep) \<and>
      (\<not> created \<longrightarrow> (\<exists>event \<in> set ?list. sie_Value event = inst))"
    using t wants by (auto simp: ensure_mutate_def Let_def NextScheduledInstanceID_def NextEntityID_def counter_def find_Some_iff
        split: option.splits prod.splits)
  then have "dref_DeploymentID (si_Deployment inst) = dep" using own by (cases created) auto
  with f have inst: "si_NodeID inst = nodeID \<and> si_InstanceOrdinal inst = ordinal \<and> si_Deployment inst = \<lparr>dref_DeploymentID = dep, dref_Version = version\<rparr> \<and>
      WantsRunning (si_State inst) \<and> (created \<longrightarrow> si_ID inst = counter CORE_SCHEDULED_INSTANCE d) \<and> (\<not> created \<longrightarrow> (\<exists>event \<in> set ?list. sie_Value event = inst))"
    by (simp add: DeploymentRef.equality)
  have "x < counter CORE_SCHEDULED_INSTANCE d" if "x \<in> fst ` set (scheduled_instances (db_tables d))" for x
    using assms(1) that by (auto simp: db_inv_def entity_keys_def dest: spec [of _ CORE_SCHEDULED_INSTANCE])
  moreover have "lm_entity_id m < counter CORE_SCHEDULED_INSTANCE d"
    if "e \<in> set (db_log d)" "m \<in> set (we_mutations e)" "lm_entity_type m = CORE_SCHEDULED_INSTANCE" "lm_op m \<noteq> VERB_DELETE" for e m
    using assms(1) that unfolding db_inv_def by metis
  ultimately show ?thesis using inst i(1,2) by fastforce
qed

definition ensured :: "bool \<Rightarrow> store_error + (ScheduledInstance \<times> bool) \<times> CoreWriteUpdate option \<times> db" where
  "ensured there = EnsureRunInstance [scheduler_trigger sample_scheduler 0] 7 1 5 0 TARGET_RUN_SERVING 0
     (sample_db True (if there then [sample_instance] else []))"

theorem EnsureRunInstance_result_witness:
  "\<exists>inst u d'. ensured False = Inr ((inst, True), u, d') \<and> db_inv d' \<and> si_NodeID inst = 5 \<and> dref_DeploymentID (si_Deployment inst) = 7"
proof -
  have "(case ensured False of Inr ((_, c), _, _) \<Rightarrow> c | _ \<Rightarrow> False)" by code_simp
  then obtain inst u d' where run: "ensured False = Inr ((inst, True), u, d')" by (auto split: sum.splits)
  have "db_inv (sample_db True [])" using sample_settled [of "[]" True] by (simp add: settled_def tx_inv_def seq_txn_def wrote_def)
  from EnsureRunInstance_result [OF this, of sample_scheduler 0 7 1 5 0 TARGET_RUN_SERVING 0 inst True u d'] run
  show ?thesis by (auto simp: ensured_def)
qed

end
