(* ===== verification/Ingress_Props.thy ===== *)
theory Ingress_Props
  imports Ingress_Plan
begin

text \<open>
  What ingress planning decides: set intersection is intersection of what the selectors denote, a
  plan has no errors exactly when its claims are pairwise compatible, the decision does not look at
  the address inventory, and the publish set is the expansion of the accepted claims.
\<close>

section \<open>What a selector denotes\<close>

definition in_set :: "addrSet \<Rightarrow> Addr \<Rightarrow> bool" where
  "in_set s a \<longleftrightarrow> a \<noteq> NoAddr \<and> Zone a = [] \<and> (whole s \<or> NetContains s a)"

definition zone_free :: "addrSet \<Rightarrow> bool" where
  "zone_free s \<longleftrightarrow> whole s \<or> np_Addr s \<noteq> NoAddr \<and> Zone (np_Addr s) = []"

lemma PrefixFrom_zone_free: "zone_free (PrefixFrom a n)"
  by (cases a) (auto simp: zone_free_def PrefixFrom_def whole_def withoutZone_def Zone_def)

lemma setOf_zone_free: "zone_free (setOf p)"
  using PrefixFrom_zone_free by (auto simp: setOf_def Masked_def zone_free_def whole_def split: option.splits)

lemma no_prefix_zone_free: "zone_free no_prefix"
  by (simp add: zone_free_def whole_def no_prefix_def)

lemma reservationSet_zone_free: "zone_free (reservationSet r)"
  by (simp add: reservationSet_def PrefixFrom_zone_free no_prefix_zone_free)

lemma own_address: "zone_free s \<Longrightarrow> \<not> whole s \<Longrightarrow> in_set s (np_Addr s)"
  by (cases "np_Addr s") (auto simp: zone_free_def in_set_def whole_def NetContains_def Zone_def)

lemma drop_bit_le: "k \<le> m \<Longrightarrow> drop_bit k (v :: 'a :: len word) = drop_bit k w \<Longrightarrow> drop_bit m v = drop_bit m w"
  by (metis drop_bit_drop_bit le_add_diff_inverse2)

text \<open>Of two prefixes that contain a common address, the shorter contains the longer's address.\<close>

lemma nested:
  assumes "NetContains s a" "NetContains t a" "np_Bits s = Some n" "np_Bits t = Some m" "n \<le> m" "Zone (np_Addr t) = []"
  shows "NetContains s (np_Addr t)"
proof (cases a)
  case (Addr4 w)
  then obtain v u where vu: "np_Addr s = Addr4 v" "np_Addr t = Addr4 u" "drop_bit (32 - n) v = drop_bit (32 - n) w" "drop_bit (32 - m) u = drop_bit (32 - m) w"
    using assms by (auto simp: NetContains_def split: Addr.splits)
  moreover have "drop_bit (32 - n) u = drop_bit (32 - n) w" using drop_bit_le [OF _ vu(4)] assms(5) by simp
  ultimately show ?thesis using assms by (simp add: NetContains_def)
next
  case (Addr6 w z)
  then obtain v u y x where vu: "np_Addr s = Addr6 v y" "np_Addr t = Addr6 u x" "drop_bit (128 - n) v = drop_bit (128 - n) w" "drop_bit (128 - m) u = drop_bit (128 - m) w"
    using assms by (auto simp: NetContains_def split: Addr.splits)
  moreover have "drop_bit (128 - n) u = drop_bit (128 - n) w" using drop_bit_le [OF _ vu(4)] assms(5) by simp
  ultimately show ?thesis using assms by (simp add: NetContains_def Zone_def)
qed (use assms in \<open>simp add: NetContains_def split: Addr.splits\<close>)

lemma intersects_sets:
  assumes "zone_free s" "zone_free t"
  shows "intersects s t \<longleftrightarrow> (\<exists>a. in_set s a \<and> in_set t a)"
proof
  assume "intersects s t"
  then consider "whole s \<and> whole t" | "\<not> whole t" "whole s \<or> NetContains s (np_Addr t)" | "\<not> whole s" "whole t \<or> NetContains t (np_Addr s)"
    unfolding intersects_def by blast
  then show "\<exists>a. in_set s a \<and> in_set t a"
  proof cases
    case 1
    then show ?thesis by (intro exI [of _ "Addr4 0"]) (simp add: in_set_def Zone_def)
  next
    case 2
    then show ?thesis using own_address [OF assms(2)] by (intro exI [of _ "np_Addr t"]) (auto simp: in_set_def)
  next
    case 3
    then show ?thesis using own_address [OF assms(1)] by (intro exI [of _ "np_Addr s"]) (auto simp: in_set_def)
  qed
next
  assume "\<exists>a. in_set s a \<and> in_set t a"
  then obtain a where a: "in_set s a" "in_set t a" by blast
  show "intersects s t"
  proof (cases "whole s \<or> whole t")
    case False
    then obtain n m where nm: "np_Bits s = Some n" "np_Bits t = Some m" by (auto simp: whole_def)
    have c: "NetContains s a" "NetContains t a" using a False by (auto simp: in_set_def)
    from assms False have z: "Zone (np_Addr s) = []" "Zone (np_Addr t) = []" by (auto simp: zone_free_def)
    show ?thesis using nested [OF c nm _ z(2)] nested [OF c(2,1) nm(2,1) _ z(1)] by (cases "n \<le> m") (auto simp: intersects_def)
  qed (auto simp: intersects_def)
qed

text \<open>
  C33. The intersection test on prefixes is exact: two listen selectors, or a listen selector and a
  reservation of the platform, intersect by the code's containment test exactly when there is an
  address that both denote.
\<close>

theorem intersects_exact:
  "(intersects (setOf p) (setOf q) \<longleftrightarrow> (\<exists>a. in_set (setOf p) a \<and> in_set (setOf q) a)) \<and>
   (intersects (reservationSet r) (setOf q) \<longleftrightarrow> (\<exists>a. in_set (reservationSet r) a \<and> in_set (setOf q) a))"
  using intersects_sets setOf_zone_free reservationSet_zone_free by blast

section \<open>Collisions\<close>

definition collides :: "claim \<Rightarrow> claim \<Rightarrow> bool" where
  "collides c d \<longleftrightarrow> cl_NodeID d = cl_NodeID c \<and> cl_Port d = cl_Port c \<and> ro_Hostname (cl_Route d) = ro_Hostname (cl_Route c) \<and>
     intersects (cl_Set d) (cl_Set c) \<and> (same_route_taken c d \<or> mixed_kinds c d \<or> cert_differs c d)"

lemma intersects_sym: "intersects s t \<longleftrightarrow> intersects t s"
  by (auto simp: intersects_def)

lemma collides_sym: "collides c d \<longleftrightarrow> collides d c"
  unfolding collides_def same_route_taken_def mixed_kinds_def cert_differs_def intersects_sym [of "cl_Set c" "cl_Set d"]
  by metis

lemma not_collides_self: "\<not> collides c c"
  by (simp add: collides_def same_route_taken_def mixed_kinds_def cert_differs_def)

lemma resolveClaim_None:
  "resolveClaim (filter (\<lambda>d. cl_NodeID d = cl_NodeID c \<and> cl_Port d = cl_Port c) acc) c = None \<longleftrightarrow> \<not> list_ex (collides c) acc"
  by (auto simp: resolveClaim_def Let_def list_ex_iff collides_def)

definition reserved :: "PlanInputs \<Rightarrow> claim \<Rightarrow> bool" where
  "reserved inp c \<longleftrightarrow> matchReservation (pi_Reservations inp) c \<noteq> None"

definition tcp_taken :: "PlanInputs \<Rightarrow> claim \<Rightarrow> bool" where
  "tcp_taken inp c \<longleftrightarrow> (cl_NodeID c, cl_Port c) \<in> set (tcpPorts (pi_Deployments inp))"

definition from_candidate :: "PlanInputs \<Rightarrow> claim \<Rightarrow> bool" where
  "from_candidate inp c \<longleftrightarrow> pi_Candidate inp \<noteq> 0 \<and> pd_ID (cl_Deployment c) = pi_Candidate inp"

definition accepts :: "PlanInputs \<Rightarrow> claim list \<Rightarrow> claim \<Rightarrow> bool" where
  "accepts inp acc c \<longleftrightarrow> \<not> reserved inp c \<and> \<not> tcp_taken inp c \<and> \<not> list_ex (collides c) acc"

definition rejects :: "PlanInputs \<Rightarrow> claim list \<Rightarrow> claim \<Rightarrow> bool" where
  "rejects inp acc c \<longleftrightarrow> (if reserved inp c then from_candidate inp c else tcp_taken inp c \<or> list_ex (collides c) acc)"

lemma set_tcpPorts [simp]: "set (tcpPorts (sorted_deployments inp)) = set (tcpPorts (pi_Deployments inp))"
  by (simp add: tcpPorts_def sorted_deployments_def)

lemma warn_host_mode_proj [simp]:
  "es_Errors (warn_host_mode deps c as st) = es_Errors st" "es_Excluded (warn_host_mode deps c as st) = es_Excluded st"
  "es_Accepted (warn_host_mode deps c as st) = es_Accepted st" "es_Publish (warn_host_mode deps c as st) = es_Publish st"
  "es_Published (warn_host_mode deps c as st) = es_Published st"
  by (simp_all add: warn_host_mode_def Let_def)

definition error_of :: "PlanInputs \<Rightarrow> claim list \<Rightarrow> claim \<Rightarrow> Diagnostic list" where
  "error_of inp acc c = es_Errors (eval_claim inp c \<lparr>es_Errors = [], es_Warnings = [], es_Excluded = [], es_Accepted = acc, es_Publish = [], es_Published = [], es_Warned = []\<rparr>)"

lemma eval_claim_proj:
  "es_Accepted (eval_claim inp c st) = es_Accepted st @ (if accepts inp (es_Accepted st) c then [c] else [])"
  "es_Publish (eval_claim inp c st) = (if accepts inp (es_Accepted st) c then
     fold (\<lambda>a. List.insert (cl_NodeID c, \<lparr>pub_Address = a, pub_Port = cl_Port c\<rparr>)) (expand_set (cl_Set c) (inventory (pi_Nodes inp) (cl_NodeID c))) (es_Publish st)
     else es_Publish st)"
  "es_Errors (eval_claim inp c st) = es_Errors st @ error_of inp (es_Accepted st) c"
  "error_of inp acc c \<noteq> [] \<longleftrightarrow> rejects inp acc c"
  by ((cases "matchReservation (pi_Reservations inp) c"; cases "(cl_NodeID c, cl_Port c) \<in> set (tcpPorts (pi_Deployments inp))";
      cases "resolveClaim (filter (\<lambda>d. cl_NodeID d = cl_NodeID c \<and> cl_Port d = cl_Port c) (es_Accepted st)) c";
      cases "resolveClaim (filter (\<lambda>d. cl_NodeID d = cl_NodeID c \<and> cl_Port d = cl_Port c) acc) c"),
    use resolveClaim_None [of c "es_Accepted st"] resolveClaim_None [of c acc] in
      \<open>simp_all add: error_of_def eval_claim_def Let_def accepts_def rejects_def reserved_def tcp_taken_def from_candidate_def\<close>)+

section \<open>Plans without errors\<close>

text \<open>The reference: no claim of the candidate is reserved, no other claim is on a forwarded TCP port,
  and no two claims that are not reserved collide. It does not mention an order.\<close>

definition published_claims :: "PlanInputs \<Rightarrow> claim list" where
  "published_claims inp = filter (\<lambda>c. \<not> reserved inp c) (plan_claims inp)"

definition plan_ok :: "PlanInputs \<Rightarrow> bool" where
  "plan_ok inp \<longleftrightarrow> list_all (\<lambda>c. \<not> (reserved inp c \<and> from_candidate inp c)) (plan_claims inp) \<and>
     list_all (\<lambda>c. \<not> tcp_taken inp c) (published_claims inp) \<and>
     list_all (\<lambda>c. list_all (\<lambda>d. \<not> collides c d) (published_claims inp)) (published_claims inp)"

lemma eval_no_errors:
  "es_Errors (fold (eval_claim inp) cs st) = [] \<longleftrightarrow>
    es_Errors st = [] \<and> list_all (\<lambda>c. \<not> (reserved inp c \<and> from_candidate inp c)) cs \<and>
    list_all (\<lambda>c. \<not> tcp_taken inp c) (filter (\<lambda>c. \<not> reserved inp c) cs) \<and>
    list_all (\<lambda>c. \<not> list_ex (collides c) (es_Accepted st)) (filter (\<lambda>c. \<not> reserved inp c) cs) \<and>
    sorted_wrt (\<lambda>d c. \<not> collides c d) (filter (\<lambda>c. \<not> reserved inp c) cs)"
proof (induction cs arbitrary: st)
  case (Cons c cs)
  note p = eval_claim_proj(1,3) [of inp c st]
  have e: "error_of inp (es_Accepted st) c = [] \<longleftrightarrow> \<not> rejects inp (es_Accepted st) c" using eval_claim_proj(4) by blast
  show ?case
  proof (cases "reserved inp c")
    case True
    then have a: "\<not> accepts inp (es_Accepted st) c" by (simp add: accepts_def)
    show ?thesis using Cons.IH [of "eval_claim inp c st"] True a unfolding p by (simp add: e rejects_def)
  next
    case False
    show ?thesis
    proof (cases "tcp_taken inp c \<or> list_ex (collides c) (es_Accepted st)")
      case True
      then show ?thesis using Cons.IH [of "eval_claim inp c st"] False unfolding p by (auto simp: e rejects_def)
    next
      case 2: False
      then have a: "accepts inp (es_Accepted st) c" using False by (simp add: accepts_def)
      have "list_all (\<lambda>d. \<not> list_ex (collides d) (es_Accepted st @ [c])) xs \<longleftrightarrow>
          list_all (\<lambda>d. \<not> list_ex (collides d) (es_Accepted st)) xs \<and> (\<forall>d \<in> set xs. \<not> collides d c)" for xs
        by (auto simp: list_all_iff)
      then show ?thesis using Cons.IH [of "eval_claim inp c st"] False 2 a unfolding p by (simp add: e rejects_def)
    qed
  qed
qed simp

lemma pairwise_collides:
  "sorted_wrt (\<lambda>d c. \<not> collides c d) L \<longleftrightarrow> list_all (\<lambda>c. list_all (\<lambda>d. \<not> collides c d) L) L"
proof (induction L)
  case (Cons c L)
  have "(\<forall>d \<in> set L. \<not> collides d c) \<longleftrightarrow> (\<forall>d \<in> set L. \<not> collides c d)" by (meson collides_sym)
  then show ?case using Cons not_collides_self [of c] unfolding list_all_iff by auto
qed simp

lemma dedupe_Nil [simp]: "dedupe [] ds = [] \<longleftrightarrow> ds = []"
  by (cases ds) auto

lemma run_plan_clean: "es_Errors (run_plan inp) = [] \<longleftrightarrow> plan_ok inp"
  unfolding run_plan_def eval_no_errors by (simp add: plan_ok_def published_claims_def pairwise_collides list.pred_True)

text \<open>
  C30. A plan has no errors exactly when it is consistent: the sequential evaluation, which accepts
  claims one by one in the order of deployment ids and reports the first collision of each, finds an
  error if and only if some claim of the candidate is reserved or, among the claims that no reservation matches,
  some claim is on a forwarded TCP port or two claims collide. A reserved claim of another deployment is set
  aside before these checks and is no error. So the verdict depends on no order.
\<close>

theorem Evaluate_decides:
  "res_Errors (Evaluate inp) = [] \<longleftrightarrow> plan_ok inp"
  by (simp add: Evaluate_def Let_def run_plan_clean)

section \<open>A plan to evaluate\<close>

text \<open>Node 1 has two addresses, the Web UI listens on the second. Deployment 7 serves \<open>a\<close> on every
  address, which the reservation matches; deployment 8 serves \<open>b\<close> on the first address.\<close>

definition sample_route :: "string \<Rightarrow> IpPrefix list \<Rightarrow> Route" where
  "sample_route host addresses = \<lparr>ro_Kind = INGRESS_KIND_HTTPS, ro_Hostname = host, ro_HostPort = 0, ro_PathPrefix = ''/'', ro_CertSource = ''acme'',
     ro_Listen = [\<lparr>il_Node = None, il_Addresses = addresses\<rparr>]\<rparr>"

definition sample_reservation :: Reservation where
  "sample_reservation = \<lparr>rv_NodeID = 1, rv_Address = Addr4 0x0A000002, rv_Port = 443, rv_Name = ''Web UI''\<rparr>"

definition sample_plan :: PlanInputs where
  "sample_plan =
    \<lparr>pi_Deployments =
      [\<lparr>pd_ID = 8, pd_NodeID = 1, pd_Name = ''b'', pd_HostMode = False,
         pd_Routes = [sample_route ''b'' [Some \<lparr>pfx_Address = Ipv4 [10, 0, 0, 1], pfx_Length = 32\<rparr>]], pd_TCPPorts = []\<rparr>,
       \<lparr>pd_ID = 7, pd_NodeID = 1, pd_Name = ''a'', pd_HostMode = False, pd_Routes = [sample_route ''a'' []], pd_TCPPorts = []\<rparr>],
     pi_Nodes = [\<lparr>pn_ID = 1, pn_HostAddresses = [Addr4 0x0A000001, Addr4 0x0A000002]\<rparr>],
     pi_Reservations = [sample_reservation], pi_Candidate = 8, pi_Reachable = None\<rparr>"

lemmas sample_plan_defs = sample_plan_def sample_route_def sample_reservation_def

section \<open>The inventory\<close>

lemma selector_nodes_known: "set known = set known' \<Longrightarrow> selector_nodes dep known r s = selector_nodes dep known' r s"
  by (simp add: selector_nodes_def)

lemma expand_known: "set known = set known' \<Longrightarrow> expand dep route known r = expand dep route known' r"
  by (simp add: expand_def selector_nodes_known [of known known'])

lemma plan_claims_nodes:
  assumes "pn_ID ` set nodes = pn_ID ` set (pi_Nodes inp)"
  shows "plan_claims (inp\<lparr>pi_Nodes := nodes\<rparr>) = plan_claims inp"
proof -
  have "expand dep route (map pn_ID nodes) r = expand dep route (map pn_ID (pi_Nodes inp)) r" for dep route r
    by (rule expand_known) (simp add: assms)
  then show ?thesis by (simp add: plan_claims_def sorted_deployments_def cong: if_cong)
qed

lemma eval_claim_nodes:
  assumes "es_Errors st = es_Errors st'" "es_Excluded st = es_Excluded st'" "es_Accepted st = es_Accepted st'"
  shows "es_Errors (eval_claim (inp\<lparr>pi_Nodes := nodes\<rparr>) c st) = es_Errors (eval_claim inp c st') \<and>
    es_Excluded (eval_claim (inp\<lparr>pi_Nodes := nodes\<rparr>) c st) = es_Excluded (eval_claim inp c st') \<and>
    es_Accepted (eval_claim (inp\<lparr>pi_Nodes := nodes\<rparr>) c st) = es_Accepted (eval_claim inp c st')"
proof -
  have s: "sorted_deployments (inp\<lparr>pi_Nodes := nodes\<rparr>) = sorted_deployments inp" by (simp add: sorted_deployments_def)
  show ?thesis
    by (cases "matchReservation (pi_Reservations inp) c"; cases "(cl_NodeID c, cl_Port c) \<in> set (tcpPorts (pi_Deployments inp))";
        cases "resolveClaim (filter (\<lambda>d. cl_NodeID d = cl_NodeID c \<and> cl_Port d = cl_Port c) (es_Accepted st')) c")
      (simp_all add: eval_claim_def Let_def s assms)
qed

lemma fold_nodes:
  assumes "es_Errors st = es_Errors st'" "es_Excluded st = es_Excluded st'" "es_Accepted st = es_Accepted st'"
  shows "es_Errors (fold (eval_claim (inp\<lparr>pi_Nodes := nodes\<rparr>)) cs st) = es_Errors (fold (eval_claim inp) cs st') \<and>
    es_Excluded (fold (eval_claim (inp\<lparr>pi_Nodes := nodes\<rparr>)) cs st) = es_Excluded (fold (eval_claim inp) cs st') \<and>
    es_Accepted (fold (eval_claim (inp\<lparr>pi_Nodes := nodes\<rparr>)) cs st) = es_Accepted (fold (eval_claim inp) cs st')"
  using assms
proof (induction cs arbitrary: st st')
  case (Cons c cs)
  from eval_claim_nodes [OF Cons.prems, where inp = inp and nodes = nodes and c = c] Cons.IH show ?case by simp
qed simp

text \<open>
  Collisions are decided on the selectors and not on the address inventory: whatever addresses
  the nodes report, the errors and the exclusions of the plan stay the same, as long as the same
  nodes are members.
\<close>

theorem Evaluate_ignores_inventory:
  assumes "pn_ID ` set nodes = pn_ID ` set (pi_Nodes inp)"
  shows "res_Errors (Evaluate (inp\<lparr>pi_Nodes := nodes\<rparr>)) = res_Errors (Evaluate inp) \<and>
    res_Excluded (Evaluate (inp\<lparr>pi_Nodes := nodes\<rparr>)) = res_Excluded (Evaluate inp)"
  using fold_nodes [OF refl refl refl] by (simp add: Evaluate_def Let_def run_plan_def plan_claims_nodes [OF assms])

theorem Evaluate_ignores_inventory_witness:
  "pn_ID ` set [\<lparr>pn_ID = 1, pn_HostAddresses = []\<rparr>] = pn_ID ` set (pi_Nodes sample_plan) \<and>
   res_Excluded (Evaluate (sample_plan\<lparr>pi_Nodes := [\<lparr>pn_ID = 1, pn_HostAddresses = []\<rparr>]\<rparr>)) = res_Excluded (Evaluate sample_plan)"
  using Evaluate_ignores_inventory [of "[\<lparr>pn_ID = 1, pn_HostAddresses = []\<rparr>]" sample_plan] by (simp add: sample_plan_defs)

section \<open>The publish set\<close>

definition entries :: "PlanInputs \<Rightarrow> claim \<Rightarrow> (nat \<times> PlanPublish) set" where
  "entries inp c = (\<lambda>a. (cl_NodeID c, \<lparr>pub_Address = a, pub_Port = cl_Port c\<rparr>)) ` set (expand_set (cl_Set c) (inventory (pi_Nodes inp) (cl_NodeID c)))"

lemma fold_insert_pairs:
  "set (fold (\<lambda>a. List.insert (f a)) as xs) = f ` set as \<union> set xs \<and> (distinct xs \<longrightarrow> distinct (fold (\<lambda>a. List.insert (f a)) as xs))"
  by (induction as arbitrary: xs) auto

lemma publish_accepted:
  assumes "set (es_Publish st) = (\<Union>c \<in> set (es_Accepted st). entries inp c)" "distinct (es_Publish st)"
  shows "set (es_Publish (fold (eval_claim inp) cs st)) = (\<Union>c \<in> set (es_Accepted (fold (eval_claim inp) cs st)). entries inp c) \<and>
    distinct (es_Publish (fold (eval_claim inp) cs st))"
  using assms
proof (induction cs arbitrary: st)
  case (Cons c cs)
  have "set (es_Publish (eval_claim inp c st)) = (\<Union>c \<in> set (es_Accepted (eval_claim inp c st)). entries inp c)"
    "distinct (es_Publish (eval_claim inp c st))"
    using Cons.prems fold_insert_pairs
    unfolding eval_claim_proj(1,2) by (auto simp: entries_def fold_insert_pairs)
  from Cons.IH [OF this] show ?case by simp
qed simp

lemma accepted_clean:
  assumes "es_Errors (fold (eval_claim inp) cs st) = []"
  shows "es_Accepted (fold (eval_claim inp) cs st) = es_Accepted st @ filter (\<lambda>c. \<not> reserved inp c) cs"
  using assms
proof (induction cs arbitrary: st)
  case (Cons c cs)
  from Cons.prems have "es_Errors (eval_claim inp c st) = []" using eval_no_errors [of inp cs "eval_claim inp c st"] by simp
  then have "\<not> rejects inp (es_Accepted st) c" using eval_claim_proj(3,4) by (metis append_is_Nil_conv)
  then have "accepts inp (es_Accepted st) c \<longleftrightarrow> \<not> reserved inp c" by (auto simp: rejects_def accepts_def split: if_splits)
  then show ?case using Cons by (simp add: eval_claim_proj(1))
qed simp

lemma accepted_from_claims:
  "set (es_Accepted (fold (eval_claim inp) cs st)) \<subseteq> set (es_Accepted st) \<union> {c \<in> set cs. \<not> reserved inp c}"
proof (induction cs arbitrary: st)
  case (Cons c cs)
  have "set (es_Accepted (eval_claim inp c st)) \<subseteq> set (es_Accepted st) \<union> {d \<in> {c}. \<not> reserved inp d}"
    by (auto simp: eval_claim_proj(1) accepts_def)
  with Cons.IH [of "eval_claim inp c st"] show ?case by auto
qed simp

lemma accepted_claim: "c \<in> set (es_Accepted (run_plan inp)) \<Longrightarrow> c \<in> set (plan_claims inp) \<and> \<not> reserved inp c"
  using accepted_from_claims unfolding run_plan_def by fastforce

lemma expand_keys_subset: "set (expand_keys seen ks) \<subseteq> set ks"
  by (induction seen ks rule: expand_keys.induct) auto

lemma expand_zone_free: "c \<in> set (expand dep route known r) \<Longrightarrow> zone_free (cl_Set c)"
  using expand_keys_subset by (fastforce simp: expand_def Let_def selectorSets_def setOf_zone_free no_prefix_zone_free split: if_splits)

lemma plan_claims_zone_free: "c \<in> set (plan_claims inp) \<Longrightarrow> zone_free (cl_Set c)"
  using expand_zone_free by (auto simp: plan_claims_def split: if_splits)

lemma res_Publish_set: "e \<in> set (res_Publish (Evaluate inp) n) \<longleftrightarrow> (n, e) \<in> set (es_Publish (run_plan inp))"
  by (force simp: Evaluate_def Let_def)

lemma run_plan_publish:
  "set (es_Publish (run_plan inp)) = (\<Union>c \<in> set (es_Accepted (run_plan inp)). entries inp c)" "distinct (es_Publish (run_plan inp))"
  unfolding run_plan_def using publish_accepted [of "\<lparr>es_Errors = [], es_Warnings = [], es_Excluded = [], es_Accepted = [], es_Publish = [], es_Published = [], es_Warned = []\<rparr>" inp]
  by simp_all

lemma published_entries:
  assumes "res_Errors (Evaluate inp) = []"
  shows "e \<in> set (res_Publish (Evaluate inp) n) \<longleftrightarrow> (\<exists>c. c \<in> set (plan_claims inp) \<and> matchReservation (pi_Reservations inp) c = None \<and> cl_NodeID c = n \<and>
     cl_Port c = pub_Port e \<and> pub_Address e \<in> set (expand_set (cl_Set c) (inventory (pi_Nodes inp) n)))"
proof -
  have "es_Errors (run_plan inp) = []" using assms by (simp add: Evaluate_def Let_def)
  then have acc: "es_Accepted (run_plan inp) = published_claims inp"
    unfolding run_plan_def published_claims_def by (subst accepted_clean) simp_all
  have mem: "(n, e) \<in> entries inp c \<longleftrightarrow> cl_NodeID c = n \<and> cl_Port c = pub_Port e \<and> pub_Address e \<in> set (expand_set (cl_Set c) (inventory (pi_Nodes inp) n))" for c
    by (cases e) (auto simp: entries_def)
  show ?thesis using res_Publish_set run_plan_publish(1) [of inp] mem unfolding acc published_claims_def reserved_def by auto
qed

text \<open>
  C31. When a plan has no errors, a node publishes exactly the expansion of its claims: an address
  and port are published if and only if some claim that no reservation matches is on this node and
  port and its selector expands to the address in the node's inventory; no entry is listed twice.
\<close>

theorem publish_exact:
  assumes "res_Errors (Evaluate inp) = []"
  shows "set (res_Publish (Evaluate inp) n) =
      {e. \<exists>c. c \<in> set (plan_claims inp) \<and> matchReservation (pi_Reservations inp) c = None \<and> cl_NodeID c = n \<and> cl_Port c = pub_Port e \<and>
         pub_Address e \<in> set (expand_set (cl_Set c) (inventory (pi_Nodes inp) n))} \<and>
    distinct (res_Publish (Evaluate inp) n)"
proof
  show "set (res_Publish (Evaluate inp) n) = {e. \<exists>c. c \<in> set (plan_claims inp) \<and> matchReservation (pi_Reservations inp) c = None \<and> cl_NodeID c = n \<and>
      cl_Port c = pub_Port e \<and> pub_Address e \<in> set (expand_set (cl_Set c) (inventory (pi_Nodes inp) n))}"
    using published_entries [OF assms] by blast
  have "inj_on snd (set (filter (\<lambda>(k, _). k = n) (es_Publish (run_plan inp))))" by (auto simp: inj_on_def)
  then show "distinct (res_Publish (Evaluate inp) n)"
    using run_plan_publish(2) [of inp] by (simp add: Evaluate_def Let_def distinct_map)
qed

theorem publish_exact_witness:
  "res_Errors (Evaluate sample_plan) = [] \<and> distinct (res_Publish (Evaluate sample_plan) 1) \<and>
   res_Publish (Evaluate sample_plan) 1 =
     [\<lparr>pub_Address = Addr4 0x0A000001, pub_Port = 80\<rparr>, \<lparr>pub_Address = Addr4 0x0A000002, pub_Port = 80\<rparr>, \<lparr>pub_Address = Addr4 0x0A000001, pub_Port = 443\<rparr>]"
proof -
  have e: "res_Errors (Evaluate sample_plan) = []" by code_simp
  moreover have "res_Publish (Evaluate sample_plan) 1 =
     [\<lparr>pub_Address = Addr4 0x0A000001, pub_Port = 80\<rparr>, \<lparr>pub_Address = Addr4 0x0A000002, pub_Port = 80\<rparr>, \<lparr>pub_Address = Addr4 0x0A000001, pub_Port = 443\<rparr>]" by code_simp
  ultimately show ?thesis using publish_exact [OF e, of 1] by blast
qed

text \<open>
  Where the evaluation is given the reservations and a node's inventory is known, no address that a reservation covers is
  published on the reservation's port, whatever is claimed and even if the plan has errors.
\<close>

lemma reserved_not_published:
  assumes "r \<in> set (pi_Reservations inp)" "inventory (pi_Nodes inp) (rv_NodeID r) \<noteq> []" "in_set (reservationSet r) a"
  shows "\<lparr>pub_Address = a, pub_Port = rv_Port r\<rparr> \<notin> set (res_Publish (Evaluate inp) (rv_NodeID r))"
proof
  assume "\<lparr>pub_Address = a, pub_Port = rv_Port r\<rparr> \<in> set (res_Publish (Evaluate inp) (rv_NodeID r))"
  then obtain c where c: "c \<in> set (es_Accepted (run_plan inp))" "(rv_NodeID r, \<lparr>pub_Address = a, pub_Port = rv_Port r\<rparr>) \<in> entries inp c"
    unfolding res_Publish_set run_plan_publish(1) by blast
  then have n: "cl_NodeID c = rv_NodeID r" "cl_Port c = rv_Port r" "whole (cl_Set c) \<or> NetContains (cl_Set c) a"
    using assms(2) by (auto simp: entries_def expand_set_def)
  note claim = accepted_claim [OF c(1)]
  then have "\<not> intersects (reservationSet r) (cl_Set c)" using assms(1) n by (auto simp: reserved_def matchReservation_def find_None_iff)
  moreover have "in_set (cl_Set c) a" using n(3) assms(3) by (auto simp: in_set_def)
  then have "intersects (reservationSet r) (cl_Set c)"
    using intersects_sets [OF reservationSet_zone_free plan_claims_zone_free] claim assms(3) by blast
  ultimately show False by blast
qed

end
