(* ===== verification/Deploy_Commit.thy ===== *)
theory Deploy_Commit
  imports Deploy_Service Store_Props Ingress_Props
begin

text \<open>
  What one deployment write does to the store: the commit of a deployment mutation, with the scheduler's
  trigger behind it, changes the stored definition of that deployment and of no other. \<open>stored\<close> is the
  abstract state of the deployments service: the definition of every live deployment by its id.
\<close>

definition stored :: "tables \<Rightarrow> nat \<Rightarrow> Deployment option" where
  "stored ts i = map_option drec_Deployment (GetLatestDeployment i ts)"

text \<open>Ids are positive, and no version row is ahead of its deployment or of the id counter, so that a new
  version is new.\<close>

definition versions_ok :: "db \<Rightarrow> bool" where
  "versions_ok d \<longleftrightarrow> (\<forall>i v. tbl_get (deployment_versions (db_tables d)) (i, v) \<noteq> None \<longrightarrow> 0 < i \<and> i < counter CORE_DEPLOYMENT d \<and>
     (\<forall>r. tbl_get (deployments (db_tables d)) i = Some r \<longrightarrow> v \<le> dr_Version (row_value r)))"

definition store_ok :: "db \<Rightarrow> bool" where
  "store_ok d \<longleftrightarrow> db_inv d \<and> pins_ok (db_tables d) \<and> versions_ok d"

section \<open>One mutation\<close>

lemma deployment_reduce:
  assumes "tx_reduce ((wrote d (NewUpdate [DeploymentMutation r]))\<lparr>tx_update := u\<rparr>) = Inr t"
    and "u = (NewUpdate [DeploymentMutation r])\<lparr>upd_Seq := seq\<rparr>"
  obtains (written) env meta ts where "\<not> meta_Deleted (drec_Meta r)" "env_Logged env = None"
      "reduceDeployment env (newMeta env) (dep_ID (drec_Deployment r)) (Some (drec_Deployment r)) (db_tables d) = Inr (meta, ts)"
      "db_tables (tx_db t) = retainDeployment (dep_ID (drec_Deployment r)) ts"
  | (removed) "meta_Deleted (drec_Meta r)"
      "db_tables (tx_db t) = retainDeployment (dep_ID (drec_Deployment r)) (deleteDeploymentRow (dep_ID (drec_Deployment r)) (db_tables d))"
proof (cases "meta_Deleted (drec_Meta r)")
  case True
  with assms removed show ?thesis
    by (auto simp: tx_reduce_def ReduceUpdate_def reduceUpdate_def wrote_def NewUpdate_def DeploymentMutation_def DeploymentMutationOf_def
        entity_mutation_def Wire_def DeleteMutationOf_def empty_update_def Let_def bindE_Inr reduce_def affectedDeployment_def delete_rows_def
        orphan_statuses_def)
next
  case False
  let ?m = "Wire (DeploymentMutation r)"
  have m: "Type ?m = CORE_DEPLOYMENT" "EntityID ?m = dep_ID (drec_Deployment r)" "Kind ?m \<noteq> VERB_DELETE" "Entity ?m = Some (EDeployment (drec_Deployment r))"
    using False by (auto simp: DeploymentMutation_def DeploymentMutationOf_def entity_mutation_def Wire_def CreateMutationOf_def UpdateMutationOf_def)
  have u: "upd_Mutations u = [?m]" by (simp add: assms(2) NewUpdate_def empty_update_def)
  from assms(1) obtain env m' d' where red: "reduce env ?m d = Inr (m', d')" "env_Logged env = None"
    "db_tables (tx_db t) = retainDeployment (dep_ID (drec_Deployment r)) (db_tables d')"
    by (auto simp: tx_reduce_def ReduceUpdate_def reduceUpdate_def u wrote_def Let_def bindE_Inr affectedDeployment_def m orphan_statuses_def)
  from red(1) m obtain meta ts where "reduceDeployment env (newMeta env) (dep_ID (drec_Deployment r)) (Some (drec_Deployment r)) (db_tables d) = Inr (meta, ts)"
    "db_tables d' = ts"
    by (cases rule: reduce_Inr) (auto simp: reduce_entity_deployment bumpEntityID_def split: option.splits)
  with False red show ?thesis using written by metis
qed

lemma deployment_reduces:
  assumes "0 < dep_ID (drec_Deployment r)" "dep_ID (drec_Deployment r) \<le> 16777215" "\<not> meta_Deleted (drec_Meta r)"
  shows "\<exists>t1. tx_reduce ((wrote d (NewUpdate [DeploymentMutation r]))\<lparr>tx_update := (NewUpdate [DeploymentMutation r])\<lparr>upd_Seq := seq\<rparr>\<rparr>) = Inr t1"
proof -
  let ?m = "Wire (DeploymentMutation r)"
  have m: "Type ?m = CORE_DEPLOYMENT" "EntityID ?m = dep_ID (drec_Deployment r)" "Kind ?m \<noteq> VERB_DELETE" "Entity ?m = Some (EDeployment (drec_Deployment r))"
    using assms(3) by (auto simp: DeploymentMutation_def DeploymentMutationOf_def entity_mutation_def Wire_def CreateMutationOf_def UpdateMutationOf_def)
  have reduced: "\<exists>m' d'. reduce env ?m d = Inr (m', d')" for env
  proof -
    obtain meta ts where "reduceDeployment env (newMeta env) (dep_ID (drec_Deployment r)) (Some (drec_Deployment r)) (db_tables d) = Inr (meta, ts)"
      using assms(1,2) by (fastforce simp: reduceDeployment_def Let_def split: prod.splits)
    then have "reduce_entity CORE_DEPLOYMENT env (newMeta env) (dep_ID (drec_Deployment r)) (EDeployment (drec_Deployment r)) (db_tables d) = Some (Inr (meta, ts))"
      by (simp only: reduce_entity_deployment) blast
    then show ?thesis by (simp only: reduce_def Let_def m if_False option.case wrap_reduced_def sum.case bindE.simps prod.case) blast
  qed
  let ?env = "\<lparr>env_Seq = seq, env_EventTime = em_EventTime (mut_Meta (DeploymentMutation r)), env_Author = em_Author (mut_Meta (DeploymentMutation r)), env_Logged = None\<rparr>"
  from reduced [of ?env] obtain m' d' where "reduce ?env ?m d = Inr (m', d')" by blast
  then show ?thesis
    by (simp add: tx_reduce_def ReduceUpdate_def reduceUpdate_def NewUpdate_def wrote_def empty_update_def Let_def)
qed

lemma reduceDeployment_effect:
  assumes "reduceDeployment env m0 i (Some dep) ts = Inr (meta, ts')" "env_Logged env = None" "tables_wf ts"
    and new: "\<And>v. tbl_get (deployment_versions ts) (i, v) \<noteq> None \<Longrightarrow> \<exists>r. tbl_get (deployments ts) i = Some r \<and> v \<le> dr_Version (row_value r)"
    and cur: "tbl_get (deployments ts) i \<noteq> None \<Longrightarrow> GetLatestDeployment i ts \<noteq> None"
  shows "stored ts' = (stored ts)(i := Some (dep\<lparr>dep_ID := i\<rparr>))" "nodes ts' = nodes ts" "scheduled_instances ts' = scheduled_instances ts"
    "\<And>k. tbl_get (deployment_versions ts) k \<noteq> None \<Longrightarrow> tbl_get (deployment_versions ts') k \<noteq> None"
    "\<And>j v. tbl_get (deployment_versions ts') (j, v) \<noteq> None \<Longrightarrow> tbl_get (deployment_versions ts) (j, v) \<noteq> None \<or> j = i \<and> 0 < i"
    "\<And>j v r. tbl_get (deployment_versions ts') (j, v) \<noteq> None \<Longrightarrow> tbl_get (deployments ts') j = Some r \<Longrightarrow>
       (\<And>v r. tbl_get (deployment_versions ts) (j, v) \<noteq> None \<Longrightarrow> tbl_get (deployments ts) j = Some r \<Longrightarrow> v \<le> dr_Version (row_value r)) \<Longrightarrow> v \<le> dr_Version (row_value r)"
proof -
  from assms(1) obtain version sv created where f: "deployment_facts env i dep ts = (version, sv, created)"
    and ts': "ts' = deployments_update (upsert env i \<lparr>dr_SpaceID = dep_SpaceID dep, dr_Name = dep_Name dep, dr_Version = version, dr_SpecVersion = sv\<rparr> created)
      (ts\<lparr>deployment_versions := insert_version env i version \<lparr>dvr_SpecVersion = sv, dvr_Value = dep\<lparr>dep_ID := 0\<rparr>\<rparr> created (deployment_versions ts)\<rparr>)"
    and pos: "0 < i" by (rule reduceDeployment_form) auto
  have version: "version = (case tbl_get (deployments ts) i of None \<Rightarrow> 1 | Some r \<Rightarrow> dr_Version (row_value r) + 1)"
    using f assms(2) cur
    by (auto simp: deployment_facts_def GetLatestDeployment_def GetDeploymentVersion_def deployment_record_def split: option.splits)
  have fresh: "tbl_get (deployment_versions ts) (i, version) = None"
    by (rule ccontr) (use new [of version] in \<open>auto simp: version split: option.splits\<close>)
  note wf = tables_wf_sel [OF assms(3)]
  have get_d: "tbl_get (deployments ts') j = (if j = i then Some (make_row env \<lparr>dr_SpaceID = dep_SpaceID dep, dr_Name = dep_Name dep, dr_Version = version, dr_SpecVersion = sv\<rparr>
      (upsert_created env i (deployments ts) created)) else tbl_get (deployments ts) j)" for j
    by (simp add: ts' upsert_def tbl_get_put wf)
  have get_v: "tbl_get (deployment_versions ts') k = (if k = (i, version) then Some (make_row env \<lparr>dvr_SpecVersion = sv, dvr_Value = dep\<lparr>dep_ID := 0\<rparr>\<rparr> created)
      else tbl_get (deployment_versions ts) k)" for k
    using fresh by (auto simp: ts' insert_version_get wf split: option.splits)
  show "stored ts' = (stored ts)(i := Some (dep\<lparr>dep_ID := i\<rparr>))"
    by (auto simp: stored_def GetLatestDeployment_def GetDeploymentVersion_def get_d get_v make_row_def deployment_record_def fun_eq_iff split: option.splits)
  show "nodes ts' = nodes ts" "scheduled_instances ts' = scheduled_instances ts" by (simp_all add: ts')
  show "tbl_get (deployment_versions ts') k \<noteq> None" if "tbl_get (deployment_versions ts) k \<noteq> None" for k using that by (simp add: get_v)
  show "tbl_get (deployment_versions ts) (j, v) \<noteq> None \<or> j = i \<and> 0 < i" if "tbl_get (deployment_versions ts') (j, v) \<noteq> None" for j v
    using that pos by (auto simp: get_v split: if_splits)
  show "v \<le> dr_Version (row_value r)" if "tbl_get (deployment_versions ts') (j, v) \<noteq> None" "tbl_get (deployments ts') j = Some r"
    and old: "\<And>v r. tbl_get (deployment_versions ts) (j, v) \<noteq> None \<Longrightarrow> tbl_get (deployments ts) j = Some r \<Longrightarrow> v \<le> dr_Version (row_value r)" for j v r
  proof (cases "j = i")
    case True
    then have "dr_Version (row_value r) = version" using that(2) by (auto simp: get_d make_row_def)
    moreover have "v \<le> version" using that(1) new [of v] by (auto simp: get_v True version split: if_splits)
    ultimately show ?thesis by simp
  qed (use that in \<open>auto simp: get_d get_v split: if_splits\<close>)
qed

lemma deleteDeploymentRow_effect:
  assumes "tables_wf ts"
  shows "stored (deleteDeploymentRow i ts) = (stored ts)(i := None)" "tbl_get (deployments (deleteDeploymentRow i ts)) j = (if j = i then None else tbl_get (deployments ts) j)"
  using tables_wf_sel [OF assms]
  by (auto simp: stored_def GetLatestDeployment_def GetDeploymentVersion_def deleteDeploymentRow_def tbl_get_del fun_eq_iff split: option.splits)

section \<open>Writers of deployments\<close>

text \<open>
  The contract of an operation of the deployments service towards \<open>Commit\<close>: it writes nothing, or one
  deployment mutation, of a deployment that is stored or has the next id. What its commit does to the
  store follows.
\<close>

inductive deployment_txn :: "db \<Rightarrow> txn \<Rightarrow> bool" for d where
  idle: "deployment_txn d (wrote d empty_update)"
| new: "NextEntityID CORE_DEPLOYMENT d = (dep_ID (drec_Deployment r), d1) \<Longrightarrow> deployment_txn d (wrote d1 (NewUpdate [DeploymentMutation r]))"
| old: "GetLatestDeployment (dep_ID (drec_Deployment r)) (db_tables d) \<noteq> None \<Longrightarrow> deployment_txn d (wrote d (NewUpdate [DeploymentMutation r]))"

locale deployment_writer =
  fixes mutate :: "db \<Rightarrow> int \<Rightarrow> store_error + 'r \<times> txn"
  assumes writes: "mutate d seq = Inr (x, t) \<Longrightarrow> deployment_txn d t"

sublocale deployment_writer \<subseteq> store_clients "[scheduler_trigger s now]" mutate for s now
proof unfold_locales
  fix d seq r t
  assume "mutate d seq = Inr (r, t)"
  from writes [OF this] show "tx_steps (wrote d empty_update) t"
    by cases (auto intro: tx_steps.start alloc_NewUpdate NewUpdate_wrote)
qed (auto simp: scheduler_trigger_def refines_def dest: reconcile_refines)

lemma write_settles:
  assumes "tx_reduce ((wrote d1 (NewUpdate [DeploymentMutation r]))\<lparr>tx_update := u\<rparr>) = Inr t" "u = (NewUpdate [DeploymentMutation r])\<lparr>upd_Seq := seq\<rparr>"
    and "store_ok d" "tx_inv t" "tx_applied t = length (upd_Mutations (tx_update t))" "counters_le d (tx_db t)"
    and "NextEntityID CORE_DEPLOYMENT d = (dep_ID (drec_Deployment r), d1) \<or> d1 = d \<and> GetLatestDeployment (dep_ID (drec_Deployment r)) (db_tables d) \<noteq> None"
  shows "settled t \<and> versions_ok (tx_db t) \<and> nodes (db_tables (tx_db t)) = nodes (db_tables d) \<and>
    stored (db_tables (tx_db t)) = (stored (db_tables d))(dep_ID (drec_Deployment r) := (if meta_Deleted (drec_Meta r) then None else Some (drec_Deployment r)))"
proof -
  let ?i = "dep_ID (drec_Deployment r)" let ?ts = "db_tables d"
  have same: "db_tables d1 = ?ts"
    using assms(3,7) NextEntityID_spec(4) by (auto simp: store_ok_def db_inv_def)
  have ok: "db_inv d" "pins_ok ?ts" "versions_ok d" "tables_wf ?ts" using assms(3) by (auto simp: store_ok_def db_inv_def)
  have count: "counter CORE_DEPLOYMENT d \<le> counter CORE_DEPLOYMENT (tx_db t)" using assms(6) by (simp add: counters_le_def)
  have key: "\<And>i x. tbl_get (deployments (db_tables e)) i = Some x \<Longrightarrow> i < counter CORE_DEPLOYMENT e" if "db_inv e" for e
    using that tables_wf_sel(1) by (force simp: db_inv_def entity_keys_def tbl_wf_def dest: spec [of _ CORE_DEPLOYMENT])
  have old: "\<And>j v row. tbl_get (deployment_versions ?ts) (j, v) \<noteq> None \<Longrightarrow> tbl_get (deployments ?ts) j = Some row \<Longrightarrow> v \<le> dr_Version (row_value row)"
    "\<And>j v. tbl_get (deployment_versions ?ts) (j, v) \<noteq> None \<Longrightarrow> 0 < j \<and> j < counter CORE_DEPLOYMENT d"
    using ok(3) unfolding versions_ok_def by blast+
  have alloc: "?i = counter CORE_DEPLOYMENT d \<or> GetLatestDeployment ?i ?ts \<noteq> None"
    using assms(7) NextEntityID_spec(1) [of CORE_DEPLOYMENT d] ok(1) by (auto simp: db_inv_def)
  have inv: "db_inv (tx_db t)" using assms(4) by (simp add: tx_inv_def)
  have retained: "settled t \<and> versions_ok (tx_db t) \<and> nodes (db_tables (tx_db t)) = nodes ts1 \<and> stored (db_tables (tx_db t)) = stored ts1"
    if t: "db_tables (tx_db t) = retainDeployment ?i ts1" and wf1: "tables_wf ts1" and si: "scheduled_instances ts1 = scheduled_instances ?ts"
      and up: "\<And>k. tbl_get (deployment_versions ?ts) k \<noteq> None \<Longrightarrow> tbl_get (deployment_versions ts1) k \<noteq> None"
      and ids: "\<And>j v. tbl_get (deployment_versions ts1) (j, v) \<noteq> None \<Longrightarrow> 0 < j \<and> j < counter CORE_DEPLOYMENT (tx_db t)"
      and le: "\<And>j v row. tbl_get (deployment_versions ts1) (j, v) \<noteq> None \<Longrightarrow> tbl_get (deployments ts1) j = Some row \<Longrightarrow> v \<le> dr_Version (row_value row)" for ts1
  proof -
    note w = tables_wf_sel [OF wf1]
    have "pins_ok ts1" using ok(2) up by (fastforce simp: pins_ok_def si)
    then have "pins_ok (db_tables (tx_db t))" using retain_pins_ok w(2,3) by (simp add: t tbl_wf_def)
    moreover have "tbl_get (deployment_versions ts1) k \<noteq> None" if "tbl_get (deployment_versions (retainDeployment ?i ts1)) k \<noteq> None" for k
      using that by (cases k) (auto simp: retain_version_get [OF w(2)] split: if_splits)
    then have "versions_ok (tx_db t)" unfolding versions_ok_def t retained_other using ids le by blast
    ultimately show ?thesis
      using assms(4,5) by (simp add: settled_def t retain_nodes stored_def retain_latest [OF w(2)] fun_eq_iff)
  qed
  from assms(1,2) show ?thesis
  proof (cases rule: deployment_reduce)
    case (written env meta ts1)
    have red: "reduceDeployment env (newMeta env) ?i (Some (drec_Deployment r)) ?ts = Inr (meta, ts1)" using written(3) by (simp add: same)
    have new: "\<exists>row. tbl_get (deployments ?ts) ?i = Some row \<and> v \<le> dr_Version (row_value row)" if "tbl_get (deployment_versions ?ts) (?i, v) \<noteq> None" for v
    proof -
      from old(2) [OF that] have "GetLatestDeployment ?i ?ts \<noteq> None" using alloc by auto
      then obtain row where "tbl_get (deployments ?ts) ?i = Some row" by (auto simp: GetLatestDeployment_def split: option.splits)
      then show ?thesis using old(1) [OF that] by blast
    qed
    have cur: "GetLatestDeployment ?i ?ts \<noteq> None" if "tbl_get (deployments ?ts) ?i \<noteq> None"
      using that key [OF ok(1)] alloc by fastforce
    note E = reduceDeployment_effect [OF red written(2) ok(4) new cur]
    have wf1: "tables_wf ts1" by (rule value_reducers_wf(6) [OF ok(4) red])
    have "GetLatestDeployment ?i (db_tables (tx_db t)) \<noteq> None"
      using fun_cong [OF E(1), of ?i] by (auto simp: written(4) retain_latest [OF tables_wf_sel(2) [OF wf1]] stored_def)
    then have "?i < counter CORE_DEPLOYMENT (tx_db t)"
      using key [OF inv] by (auto simp: GetLatestDeployment_def split: option.splits)
    then have ids: "\<And>j v. tbl_get (deployment_versions ts1) (j, v) \<noteq> None \<Longrightarrow> 0 < j \<and> j < counter CORE_DEPLOYMENT (tx_db t)"
      using E(5) old(2) count order_less_le_trans by blast
    have le: "\<And>j v row. tbl_get (deployment_versions ts1) (j, v) \<noteq> None \<Longrightarrow> tbl_get (deployments ts1) j = Some row \<Longrightarrow> v \<le> dr_Version (row_value row)"
      using E(6) old(1) by blast
    show ?thesis using retained [OF written(4) wf1 E(3,4) ids le] E(1,2) written(1) by simp
  next
    case removed
    have t: "db_tables (tx_db t) = retainDeployment ?i (deleteDeploymentRow ?i ?ts)" using removed(2) by (simp add: same)
    have wf1: "tables_wf (deleteDeploymentRow ?i ?ts)" using ok(4) by (auto simp: deleteDeploymentRow_def intro!: tables_wf_update(1) simp: table_simps)
    have eq: "deployment_versions (deleteDeploymentRow ?i ?ts) = deployment_versions ?ts" "scheduled_instances (deleteDeploymentRow ?i ?ts) = scheduled_instances ?ts"
      "nodes (deleteDeploymentRow ?i ?ts) = nodes ?ts" by (simp_all add: deleteDeploymentRow_def)
    have "settled t \<and> versions_ok (tx_db t) \<and> nodes (db_tables (tx_db t)) = nodes (deleteDeploymentRow ?i ?ts) \<and> stored (db_tables (tx_db t)) = stored (deleteDeploymentRow ?i ?ts)"
    proof (rule retained [OF t wf1])
      show "0 < j \<and> j < counter CORE_DEPLOYMENT (tx_db t)" if "tbl_get (deployment_versions (deleteDeploymentRow ?i ?ts)) (j, v) \<noteq> None" for j v
        using old(2) [of j v] that count by (simp add: eq)
      show "v \<le> dr_Version (row_value row)" if "tbl_get (deployment_versions (deleteDeploymentRow ?i ?ts)) (j, v) \<noteq> None"
        "tbl_get (deployments (deleteDeploymentRow ?i ?ts)) j = Some row" for j v row
        using old(1) [of j v row] that by (simp add: eq deleteDeploymentRow_effect(2) [OF ok(4)] split: if_splits)
    qed (simp_all add: eq)
    then show ?thesis using removed(1) by (simp add: eq deleteDeploymentRow_effect(1) [OF ok(4)])
  qed
qed

lemma stamp_wrote: "(wrote d u)\<lparr>tx_update := (tx_update (wrote d u))\<lparr>upd_Seq := seq\<rparr>\<rparr> = (wrote d u)\<lparr>tx_update := u\<lparr>upd_Seq := seq\<rparr>\<rparr>"
  by (simp add: wrote_def)

text \<open>The trigger and the log leave the deployments as they are.\<close>

lemma reconcile_keeps:
  assumes "settled t1" "versions_ok (tx_db t1)" "reconcile s now scope t1 = Inr x"
  shows "settled x \<and> versions_ok (tx_db x) \<and> stored (db_tables (tx_db x)) = stored (db_tables (tx_db t1)) \<and>
    nodes (db_tables (tx_db x)) = nodes (db_tables (tx_db t1))"
proof -
  from reconcile_spec [OF assms(1), of s now scope] assms(3) have x: "settled x" "frame (db_tables (tx_db t1)) (db_tables (tx_db x))" by auto
  have "tx_steps t1 x" using reconcile_refines [OF assms(3)] by (simp add: refines_def)
  then have "counter CORE_DEPLOYMENT (tx_db t1) \<le> counter CORE_DEPLOYMENT (tx_db x)"
    using tx_steps_inv assms(1) by (auto simp: settled_def counters_le_def)
  moreover have "tbl_get (deployment_versions (db_tables (tx_db t1))) k \<noteq> None" if "tbl_get (deployment_versions (db_tables (tx_db x))) k \<noteq> None" for k
    using x(2) that unfolding frame_def by blast
  moreover have "deployments (db_tables (tx_db x)) = deployments (db_tables (tx_db t1))" using x(2) by (simp add: frame_def)
  ultimately have "versions_ok (tx_db x)" using assms(2) unfolding versions_ok_def by (simp del: not_None_eq) (meson order_less_le_trans)
  with x show ?thesis by (simp add: frame_def stored_def fun_eq_iff)
qed

lemma trigger_keeps:
  assumes "settled t1" "versions_ok (tx_db t1)" "run_triggers [scheduler_trigger s now] t1 = Inr t2"
  shows "pins_ok (db_tables (tx_db t2)) \<and> versions_ok (tx_db t2) \<and> stored (db_tables (tx_db t2)) = stored (db_tables (tx_db t1)) \<and>
    nodes (db_tables (tx_db t2)) = nodes (db_tables (tx_db t1))"
proof -
  from reconcile_spec [OF assms(1), of s now None] obtain x where x: "reconcile s now None t1 = Inr x" "settled x" by blast
  then have "t2 = x" using assms(3) settled_idle [OF x(2)] by (simp add: scheduler_trigger_def)
  then show ?thesis using reconcile_keeps [OF assms(1,2) x(1)] by (simp add: settled_def)
qed

lemma versions_ok_cong: "db_tables d = db_tables e \<Longrightarrow> db_entity_ids d = db_entity_ids e \<Longrightarrow> versions_ok d = versions_ok e"
  by (simp add: versions_ok_def counter_def)

context deployment_writer
begin

lemma reduced_settles:
  assumes "store_ok d" "mutate d seq = Inr (x, t)" "tx_reduce (t\<lparr>tx_update := (tx_update t)\<lparr>upd_Seq := seq\<rparr>\<rparr>) = Inr t1"
  shows "settled t1 \<and> versions_ok (tx_db t1) \<and> nodes (db_tables (tx_db t1)) = nodes (db_tables d) \<and>
    (t = wrote d empty_update \<and> stored (db_tables (tx_db t1)) = stored (db_tables d) \<or>
     (\<exists>d1 r. t = wrote d1 (NewUpdate [DeploymentMutation r]) \<and>
        stored (db_tables (tx_db t1)) = (stored (db_tables d))(dep_ID (drec_Deployment r) := (if meta_Deleted (drec_Meta r) then None else Some (drec_Deployment r)))))"
proof -
  have ok: "db_inv d" "pins_ok (db_tables d)" "versions_ok d" using assms(1) by (simp_all add: store_ok_def)
  from writes [OF assms(2)] consider (none) "t = wrote d empty_update"
    | (one) d1 r where "t = wrote d1 (NewUpdate [DeploymentMutation r])" "NextEntityID CORE_DEPLOYMENT d = (dep_ID (drec_Deployment r), d1) \<or>
       d1 = d \<and> GetLatestDeployment (dep_ID (drec_Deployment r)) (db_tables d) \<noteq> None"
    by cases blast+
  then show ?thesis
  proof cases
    case none
    then have s: "t\<lparr>tx_update := (tx_update t)\<lparr>upd_Seq := seq\<rparr>\<rparr> = seq_txn d seq" by (simp add: seq_txn_def wrote_def)
    then have "t1 = seq_txn d seq" using assms(3) settled_idle [OF settled_start [OF ok(1,2)], of seq] by simp
    then show ?thesis using settled_start [OF ok(1,2), of seq] ok(3) none by (simp add: seq_txn_def wrote_def)
  next
    case (one d1 r)
    have s: "tx_steps (wrote d empty_update) (t\<lparr>tx_update := (tx_update t)\<lparr>upd_Seq := seq\<rparr>\<rparr>)"
      using mutate_steps [OF assms(2)] by (rule tx_steps.stamp)
    have i0: "tx_inv (wrote d empty_update)" using ok(1) by (simp add: tx_inv_def wrote_def)
    note i1 = tx_steps_inv [OF s i0] and i2 = tx_steps_inv [OF tx_steps.reduce [OF s assms(3)] i0]
    have a: "tx_applied t1 = length (upd_Mutations (tx_update t1))" using tx_reduce_spec(3) [OF assms(3)] i1 by blast
    have c: "tx_inv t1" "counters_le d (tx_db t1)" using i2 by (simp_all add: wrote_def)
    show ?thesis using write_settles [OF assms(3) [unfolded one(1) stamp_wrote] refl assms(1) c(1) a c(2) one(2)] one(1) by blast
  qed
qed

lemma commit_effect:
  assumes "Commit [scheduler_trigger s now] mutate d = Inr (x, u, d')" "store_ok d"
  shows "store_ok d' \<and> nodes (db_tables d') = nodes (db_tables d) \<and>
    (mutate d (db_global_seq d + 1) = Inr (x, wrote d empty_update) \<and> stored (db_tables d') = stored (db_tables d) \<or>
     (\<exists>d1 r. mutate d (db_global_seq d + 1) = Inr (x, wrote d1 (NewUpdate [DeploymentMutation r])) \<and>
        stored (db_tables d') = (stored (db_tables d))(dep_ID (drec_Deployment r) := (if meta_Deleted (drec_Meta r) then None else Some (drec_Deployment r)))))"
proof -
  let ?seq = "db_global_seq d + 1"
  have inv: "db_inv d'" by (rule commit_inv(1) [OF assms(1)]) (use assms(2) in \<open>simp add: store_ok_def\<close>)
  from Commit_Inr [OF assms(1)] obtain t t1 t2 where t: "mutate d ?seq = Inr (x, t)"
    "tx_reduce (t\<lparr>tx_update := (tx_update t)\<lparr>upd_Seq := ?seq\<rparr>\<rparr>) = Inr t1" "run_triggers [scheduler_trigger s now] t1 = Inr t2"
    and res: "upd_Mutations (tx_update t2) = [] \<and> u = None \<and> d' = tx_db t2 \<or>
     upd_Mutations (tx_update t2) \<noteq> [] \<and> u = Some (tx_update t2) \<and>
       (\<exists>d2. InsertWriteEvent (tx_update t2) (tx_db t2) = Inr d2 \<and> d' = d2\<lparr>db_global_seq := ?seq\<rparr>)" .
  from res have d': "db_tables d' = db_tables (tx_db t2) \<and> db_entity_ids d' = db_entity_ids (tx_db t2)"
    by (auto simp: InsertWriteEvent_Inr)
  note settles = reduced_settles [OF assms(2) t(1,2)]
  have k: "pins_ok (db_tables d') \<and> versions_ok d' \<and> stored (db_tables d') = stored (db_tables (tx_db t1)) \<and> nodes (db_tables d') = nodes (db_tables (tx_db t1))"
    using trigger_keeps [OF _ _ t(3)] settles d' versions_ok_cong [of d' "tx_db t2"] by simp
  show ?thesis using settles k inv t(1) unfolding store_ok_def by metis
qed

text \<open>Once its mutation reduces, the write commits: the trigger and the log cannot fail.\<close>

lemma commit_total:
  assumes "store_ok d" "mutate d (db_global_seq d + 1) = Inr (x, t)"
    and "tx_reduce (t\<lparr>tx_update := (tx_update t)\<lparr>upd_Seq := db_global_seq d + 1\<rparr>\<rparr>) = Inr t1"
  shows "\<exists>u d'. Commit [scheduler_trigger s now] mutate d = Inr (x, u, d')"
proof -
  let ?seq = "db_global_seq d + 1"
  have inv: "db_inv d" using assms(1) by (simp add: store_ok_def)
  from reduced_settles [OF assms] reconcile_spec [of t1 s now None] obtain t2 where
    t2: "reconcile s now None t1 = Inr t2" "settled t2" by blast
  have steps: "tx_steps (wrote d empty_update) t1" using tx_steps.reduce [OF tx_steps.stamp [OF mutate_steps [OF assms(2)]] assms(3)] .
  have r: "tx_steps t1 t2" "upd_Seq (tx_update t2) = upd_Seq (tx_update t1)" using reconcile_refines [OF t2(1)] by (auto simp: refines_def)
  have "tx_inv (wrote d empty_update)" using inv by (simp add: tx_inv_def wrote_def)
  from tx_steps_inv [OF tx_steps_trans [OF r(1) steps] this] have log: "db_log (tx_db t2) = db_log d"
    by (simp add: counters_le_def wrote_def)
  have "upd_Seq (tx_update t1) = ?seq" using assms(3) by (auto simp: tx_reduce_def ReduceUpdate_def reduceUpdate_def bindE_Inr Let_def split: if_splits)
  then have "upd_Seq (tx_update t2) \<notin> we_seq ` set (db_log (tx_db t2))" using inv r(2) by (fastforce simp: db_inv_def log)
  then obtain d2 where "InsertWriteEvent (tx_update t2) (tx_db t2) = Inr d2" by (auto simp: InsertWriteEvent_Inr)
  then show ?thesis
    by (simp add: Commit_def Let_def assms(2,3) scheduler_trigger_def t2(1) settled_idle [OF t2(2)])
qed

end

text \<open>The drain sweep of the scheduler leaves the deployments as they are.\<close>

lemma Sweep_keeps:
  assumes "Sweep s now [scheduler_trigger s now'] d = Inr (x, u, d')" "store_ok d"
  shows "store_ok d' \<and> stored (db_tables d') = stored (db_tables d) \<and> nodes (db_tables d') = nodes (db_tables d)"
proof -
  let ?seq = "db_global_seq d + 1"
  have ok: "db_inv d" "pins_ok (db_tables d)" "versions_ok d" using assms(2) by (simp_all add: store_ok_def)
  note c = assms(1) [unfolded Sweep_def]
  have inv: "db_inv d'" by (rule sweep.commit_inv(1) [OF c ok(1)])
  from Commit_Inr [OF c] obtain t t1 t2 where t: "bindE (reconcile s now (Some ListDrainingDeploymentIDs) (seq_txn d ?seq)) (\<lambda>x. Inr ((), x)) = Inr (x, t)"
    "tx_reduce (t\<lparr>tx_update := (tx_update t)\<lparr>upd_Seq := ?seq\<rparr>\<rparr>) = Inr t1" "run_triggers [scheduler_trigger s now'] t1 = Inr t2"
    and res: "upd_Mutations (tx_update t2) = [] \<and> u = None \<and> d' = tx_db t2 \<or>
     upd_Mutations (tx_update t2) \<noteq> [] \<and> u = Some (tx_update t2) \<and>
       (\<exists>d2. InsertWriteEvent (tx_update t2) (tx_db t2) = Inr d2 \<and> d' = d2\<lparr>db_global_seq := ?seq\<rparr>)" .
  from res have d': "db_tables d' = db_tables (tx_db t2) \<and> db_entity_ids d' = db_entity_ids (tx_db t2)"
    by (auto simp: InsertWriteEvent_Inr)
  from t(1) have r: "reconcile s now (Some ListDrainingDeploymentIDs) (seq_txn d ?seq) = Inr t" by (auto simp: bindE_Inr)
  have s0: "settled (seq_txn d ?seq)" "versions_ok (tx_db (seq_txn d ?seq))" using settled_start [OF ok(1,2)] ok(3) by (simp_all add: seq_txn_def wrote_def)
  note k = reconcile_keeps [OF s0 r]
  have "upd_Seq (tx_update t) = ?seq" using reconcile_refines [OF r] by (simp add: refines_def seq_txn_def wrote_def)
  then have "t\<lparr>tx_update := (tx_update t)\<lparr>upd_Seq := ?seq\<rparr>\<rparr> = t" by simp
  then have "t1 = t" using t(2) settled_idle [of t] k by simp
  then show ?thesis
    using trigger_keeps [OF _ _ t(3)] k d' inv versions_ok_cong [of d' "tx_db t2"] by (simp add: store_ok_def seq_txn_def wrote_def)
qed

end
