(* ===== verification/Deploy_Plan.thy ===== *)
theory Deploy_Plan
  imports Deploy_Commit
begin

text \<open>
  The ingress plan of the stored deployments. \<open>Evaluate\<close> gives the same verdict for every order and every
  numbering of the deployments (\<open>plan_fine\<close>), so that the plan a write is checked against is the plan of
  the store after the write.
\<close>

section \<open>Claims as a set\<close>

definition claims :: "PlanDeployment set \<Rightarrow> nat list \<Rightarrow> claim set" where
  "claims D known = {c. \<exists>p \<in> D. \<not> pd_HostMode p \<and> (\<exists>route \<in> set (pd_Routes p). c \<in> set (expand p route known None))}"

definition tcp :: "PlanDeployment set \<Rightarrow> (nat \<times> nat) set" where
  "tcp D = {(pd_NodeID p, port) | p port. p \<in> D \<and> \<not> pd_HostMode p \<and> port \<in> set (pd_TCPPorts p)}"

definition blocked :: "Reservation list \<Rightarrow> claim \<Rightarrow> bool" where
  "blocked rs c \<longleftrightarrow> matchReservation rs c \<noteq> None"

definition plan_fine :: "Reservation list \<Rightarrow> nat list \<Rightarrow> PlanDeployment set \<Rightarrow> bool" where
  "plan_fine rs known D \<longleftrightarrow> (\<forall>c \<in> claims D known. \<not> blocked rs c \<longrightarrow> (cl_NodeID c, cl_Port c) \<notin> tcp D \<and>
     (\<forall>c' \<in> claims D known. \<not> blocked rs c' \<longrightarrow> \<not> collides c c'))"

lemma set_plan_claims:
  assumes "pi_Reachable inp = None"
  shows "set (plan_claims inp) = claims (set (pi_Deployments inp)) (map pn_ID (pi_Nodes inp))"
  using assms by (auto simp: plan_claims_def claims_def sorted_deployments_def split: if_splits)

lemma set_tcp: "set (tcpPorts deps) = tcp (set deps)"
  by (auto simp: tcpPorts_def tcp_def split: if_splits)

lemma tcp_insert: "tcp (insert p D) = (if pd_HostMode p then {} else Pair (pd_NodeID p) ` set (pd_TCPPorts p)) \<union> tcp D"
  by (auto simp: tcp_def)

lemma plan_ok_fine:
  assumes "pi_Reachable inp = None"
  shows "plan_ok inp \<longleftrightarrow> (\<forall>c \<in> claims (set (pi_Deployments inp)) (map pn_ID (pi_Nodes inp)). \<not> (blocked (pi_Reservations inp) c \<and> from_candidate inp c)) \<and>
    plan_fine (pi_Reservations inp) (map pn_ID (pi_Nodes inp)) (set (pi_Deployments inp))"
  unfolding plan_ok_def published_claims_def list_all_iff set_filter set_plan_claims [OF assms] tcp_taken_def set_tcp plan_fine_def
  by (auto simp: reserved_def blocked_def)

lemma claims_mono: "D \<subseteq> E \<Longrightarrow> claims D known \<subseteq> claims E known"
  by (auto simp: claims_def)

lemma plan_fine_mono: "plan_fine rs known E \<Longrightarrow> D \<subseteq> E \<Longrightarrow> plan_fine rs known D"
  using claims_mono [of D E known] unfolding plan_fine_def tcp_def by blast

section \<open>Numbering\<close>

text \<open>Two plan deployments that differ in their id and name only.\<close>

definition same_shape :: "PlanDeployment \<Rightarrow> PlanDeployment \<Rightarrow> bool" where
  "same_shape p q \<longleftrightarrow> pd_NodeID q = pd_NodeID p \<and> pd_HostMode q = pd_HostMode p \<and> pd_Routes q = pd_Routes p \<and> pd_TCPPorts q = pd_TCPPorts p"

lemma expand_shape:
  assumes "same_shape p q"
  shows "expand q route known None = map (\<lambda>c. c\<lparr>cl_Deployment := q\<rparr>) (expand p route known None)"
proof -
  have "selector_nodes q known None s = selector_nodes p known None s" for s
    using assms by (simp add: selector_nodes_def same_shape_def)
  then show ?thesis by (simp add: expand_def Let_def map_concat comp_def case_prod_beta')
qed

lemma claims_insert: "claims (insert p D) known = claims {p} known \<union> claims D known"
  by (auto simp: claims_def)

lemma claims_single: "claims {p} known = (if pd_HostMode p then {} else (\<Union>route \<in> set (pd_Routes p). set (expand p route known None)))"
  by (auto simp: claims_def)

lemma claims_shape: "same_shape p q \<Longrightarrow> claims {q} known = (\<lambda>c. c\<lparr>cl_Deployment := q\<rparr>) ` claims {p} known"
  by (simp add: claims_single expand_shape image_UN) (simp add: same_shape_def)

lemma expand_deployment: "c \<in> set (expand p route known r) \<Longrightarrow> cl_Deployment c = p"
  by (auto simp: expand_def Let_def)

lemma claims_deployment: "c \<in> claims D known \<Longrightarrow> cl_Deployment c \<in> D"
  by (auto simp: claims_def dest: expand_deployment)

lemma plan_fine_renumber:
  assumes "plan_fine rs known (insert p D)" "same_shape p q" "\<And>d. d \<in> D \<Longrightarrow> pd_ID d \<noteq> pd_ID p \<and> pd_ID d \<noteq> pd_ID q"
  shows "plan_fine rs known (insert q D)"
proof -
  define f where "f c = (if cl_Deployment c = p then c\<lparr>cl_Deployment := q\<rparr> else c)" for c :: claim
  have tcp: "tcp (insert q D) = tcp (insert p D)"
    using assms(2) unfolding tcp_insert [of p D] tcp_insert [of q D] by (simp add: same_shape_def)
  have place: "cl_NodeID (f c) = cl_NodeID c" "cl_Port (f c) = cl_Port c" "blocked rs (f c) = blocked rs c" for c
    by (simp_all add: f_def blocked_def matchReservation_def)
  have apart: "collides (f c) (f c') = collides c c'" if "c \<in> claims (insert p D) known" "c' \<in> claims (insert p D) known" for c c'
  proof -
    have id: "pd_ID (cl_Deployment (f c')) \<noteq> pd_ID (cl_Deployment (f c)) \<longleftrightarrow> pd_ID (cl_Deployment c') \<noteq> pd_ID (cl_Deployment c)"
      using claims_deployment [OF that(1)] claims_deployment [OF that(2)] assms(3) [of "cl_Deployment c"] assms(3) [of "cl_Deployment c'"]
      by (auto simp: f_def)
    have rest: "cl_Route (f c) = cl_Route c" "cl_Set (f c) = cl_Set c" for c by (simp_all add: f_def)
    show ?thesis unfolding collides_def same_route_taken_def mixed_kinds_def cert_differs_def id rest place ..
  qed
  have p: "cl_Deployment c = p" if "c \<in> claims {p} known" for c using claims_deployment [OF that] by simp
  have d: "cl_Deployment c \<in> D" if "c \<in> claims D known" for c using claims_deployment [OF that] .
  have "p \<notin> D" using assms(3) by blast
  then have other: "f ` claims D known = id ` claims D known" using d by (intro image_cong) (auto simp: f_def)
  have own: "f ` claims {p} known = (\<lambda>c. c\<lparr>cl_Deployment := q\<rparr>) ` claims {p} known" by (rule image_cong) (simp_all add: f_def p)
  have "claims (insert q D) known = f ` claims (insert p D) known"
    unfolding claims_insert [of p D] claims_insert [of q D] claims_shape [OF assms(2)] image_Un own other by simp
  then show ?thesis using assms(1) unfolding plan_fine_def tcp by (auto simp: place apart)
qed

section \<open>Errors name the candidate\<close>

lemma eval_claim_blames: "set (map dg_DeploymentID (es_Errors (eval_claim inp c st))) \<subseteq> insert (pi_Candidate inp) (set (map dg_DeploymentID (es_Errors st)))"
  by (auto simp: eval_claim_def Let_def split: option.splits if_splits)

lemma fold_blames: "set (map dg_DeploymentID (es_Errors (fold (eval_claim inp) cs st))) \<subseteq> insert (pi_Candidate inp) (set (map dg_DeploymentID (es_Errors st)))"
proof (induction cs arbitrary: st)
  case (Cons c cs)
  from Cons [of "eval_claim inp c st"] eval_claim_blames [of inp c st] show ?case by auto
qed auto

lemma dedupe_set: "set (dedupe seen ds) \<subseteq> set ds"
  by (induction ds arbitrary: seen) auto

lemma errors_blame: "d \<in> set (res_Errors (Evaluate inp)) \<Longrightarrow> dg_DeploymentID d = pi_Candidate inp"
  using dedupe_set [of "[]"] fold_blames [of inp "plan_claims inp"] by (fastforce simp: Evaluate_def Let_def run_plan_def)

lemma no_errors: "res_Errors (Evaluate inp) = [] \<longleftrightarrow> plan_ok inp"
  by (simp add: Evaluate_def Let_def run_plan_clean)

section \<open>The stored plan\<close>

definition planned :: "Deployment \<Rightarrow> PlanDeployment" where
  "planned d = DeploymentFromSpec (dep_ID d) (PlacementNodeID d) (dep_Name d) (dep_Spec d)"

definition internal :: "Deployment \<Rightarrow> bool" where
  "internal d \<longleftrightarrow> IsInternalIdentity (dep_SpaceID d) (dep_Name d)"

definition public_plan :: "tables \<Rightarrow> nat \<Rightarrow> PlanDeployment set" where
  "public_plan ts i = planned ` {d \<in> ran (stored ts). dep_ID d \<noteq> i \<and> \<not> internal d}"

definition node_ids :: "tables \<Rightarrow> nat list" where
  "node_ids ts = map pn_ID (plan_nodes (ReadLiveState ts))"

lemma node_ids_nodes: "nodes ts' = nodes ts \<Longrightarrow> node_ids ts' = node_ids ts"
  by (simp add: node_ids_def plan_nodes_def ReadLiveState_def comp_def case_prod_beta')

lemma stored_ID: "stored ts i = Some d \<Longrightarrow> dep_ID d = i"
  by (auto simp: stored_def GetLatestDeployment_def GetDeploymentVersion_def deployment_record_def split: option.splits)

lemma active_records:
  assumes "tables_wf ts"
  shows "cfg \<in> set (ListActiveDeployments ts) \<longleftrightarrow> (\<exists>i. GetLatestDeployment i ts = Some cfg)"
proof -
  have wf: "tbl_wf (deployments ts)" by (rule tables_wf_sel(1) [OF assms])
  show ?thesis
    by (auto simp: ListActiveDeployments_def map_filter_def GetLatestDeployment_def image_iff tbl_get_in [OF wf, symmetric] split: option.splits)
      (force simp: tbl_get_in [OF wf, symmetric])+
qed

lemma active_stored: "tables_wf ts \<Longrightarrow> drec_Deployment ` set (ListActiveDeployments ts) = ran (stored ts)"
  by (auto simp: active_records stored_def ran_def image_iff Bex_def) metis+

lemma stored_inputs:
  assumes "tables_wf ts"
  shows "plan_deployment ` {cfg \<in> set (live_Deployments (ReadLiveState ts)). dep_ID (drec_Deployment cfg) \<noteq> i \<and> \<not> IsInternalConfig cfg} = public_plan ts i"
proof -
  have "{d \<in> ran (stored ts). dep_ID d \<noteq> i \<and> \<not> internal d} =
      drec_Deployment ` {cfg \<in> set (ListActiveDeployments ts). dep_ID (drec_Deployment cfg) \<noteq> i \<and> \<not> IsInternalConfig cfg}"
    unfolding active_stored [OF assms, symmetric] by (auto simp: internal_def IsInternalConfig_def)
  then show ?thesis
    by (simp add: public_plan_def ReadLiveState_def image_image plan_deployment_def planned_def)
qed

lemma stored_plan:
  assumes "tables_wf ts"
  shows "res_Errors (Evaluate (ingressPlanInputs (ReadLiveState ts) rs n 0 None)) = [] \<longleftrightarrow> plan_fine rs (node_ids ts) (public_plan ts 0)"
proof -
  let ?inp = "ingressPlanInputs (ReadLiveState ts) rs n 0 None"
  have "set (pi_Deployments ?inp) = public_plan ts 0"
    unfolding stored_inputs [OF assms, symmetric] by (simp add: ingressPlanInputs_def)
  moreover have "pi_Reachable ?inp = None" "\<not> from_candidate ?inp c" "pi_Reservations ?inp = rs" "map pn_ID (pi_Nodes ?inp) = node_ids ts" for c
    by (simp_all add: ingressPlanInputs_def from_candidate_def node_ids_def)
  ultimately show ?thesis unfolding no_errors by (simp add: plan_ok_fine)
qed

lemma checked_plan:
  assumes "tables_wf ts" "ValidateNodeNetworkingClaims (ReadLiveState ts) rs node i spec = None" "nc_Mode (ds_Networking spec) = NETWORKING_MODE_VIRTUAL"
  obtains name where "plan_fine rs (node_ids ts) (insert (DeploymentFromSpec (eval_id (ReadLiveState ts) i) node name spec) (public_plan ts (eval_id (ReadLiveState ts) i)))"
proof -
  let ?e = "eval_id (ReadLiveState ts) i" let ?inp = "ingressPlanInputs (ReadLiveState ts) rs node ?e (Some spec)"
  let ?name = "case live_deployment (ReadLiveState ts) ?e of None \<Rightarrow> [] | Some e \<Rightarrow> dep_Name (drec_Deployment e)"
  have "res_Errors (Evaluate ?inp) = []"
  proof (cases "res_Errors (Evaluate ?inp)")
    case (Cons d ds)
    then have "dg_DeploymentID d = ?e" using errors_blame [of d ?inp] by (simp add: ingressPlanInputs_def)
    with Cons assms(2,3) show ?thesis by (simp add: ValidateNodeNetworkingClaims_def Let_def)
  qed
  then have "plan_ok ?inp" by (simp add: no_errors)
  moreover have "set (pi_Deployments ?inp) = insert (DeploymentFromSpec ?e node ?name spec) (public_plan ts ?e)"
    unfolding stored_inputs [OF assms(1), symmetric] by (simp add: ingressPlanInputs_def)
  moreover have "pi_Reachable ?inp = None" "pi_Reservations ?inp = rs" "map pn_ID (pi_Nodes ?inp) = node_ids ts"
    by (simp_all add: ingressPlanInputs_def node_ids_def)
  ultimately show ?thesis using that [of ?name] by (simp add: plan_ok_fine)
qed

lemma eval_id_fold: "m \<le> fold (\<lambda>d m. if dep_ID (drec_Deployment d) \<ge> m then dep_ID (drec_Deployment d) + 1 else m) ds m \<and>
  (\<forall>d \<in> set ds. dep_ID (drec_Deployment d) < fold (\<lambda>d m. if dep_ID (drec_Deployment d) \<ge> m then dep_ID (drec_Deployment d) + 1 else m) ds (m :: nat))"
proof (induction ds arbitrary: m)
  case (Cons d ds)
  from Cons [of "if dep_ID (drec_Deployment d) \<ge> m then dep_ID (drec_Deployment d) + 1 else m"] show ?case
    by (auto split: if_splits)
qed simp

lemma eval_id_above: "cfg \<in> set (live_Deployments lv) \<Longrightarrow> dep_ID (drec_Deployment cfg) < eval_id lv 0"
  using eval_id_fold [of 0 "live_Deployments lv"] by (auto simp: eval_id_def Let_def)

lemma plan_fine_idle: "plan_fine rs known D \<Longrightarrow> pd_Routes p = [] \<Longrightarrow> pd_TCPPorts p = [] \<Longrightarrow> plan_fine rs known (insert p D)"
  by (simp add: plan_fine_def claims_insert [of p D] tcp_insert [of p D] claims_single)

lemma public_plan_all:
  assumes "stored ts 0 = None"
  shows "public_plan ts j \<subseteq> public_plan ts 0"
proof -
  have "dep_ID d \<noteq> 0" if "stored ts i = Some d" for i d
    using stored_ID [OF that] that assms by (cases i) auto
  then show ?thesis by (auto simp: public_plan_def ran_def)
qed

text \<open>What the check on the claims of a candidate promises about the store that holds it under the id \<open>j\<close>.\<close>

lemma accepted_plan:
  assumes "tables_wf ts" "ValidateNodeNetworkingClaims (ReadLiveState ts) rs node i spec = None"
    and "plan_fine rs (node_ids ts) (public_plan ts 0)" "stored ts 0 = None" "i = j \<and> 0 < j \<or> i = 0 \<and> stored ts j = None"
  shows "plan_fine rs (node_ids ts) (insert (DeploymentFromSpec j node name spec) (public_plan ts j))"
proof (cases "nc_Mode (ds_Networking spec) = NETWORKING_MODE_VIRTUAL")
  case True
  let ?e = "eval_id (ReadLiveState ts) i"
  have above: "dep_ID d < eval_id (ReadLiveState ts) 0" if "d \<in> ran (stored ts)" for d
    using that eval_id_above [of _ "ReadLiveState ts"] unfolding active_stored [OF assms(1), symmetric] by (auto simp: ReadLiveState_def)
  from checked_plan [OF assms(1,2) True] obtain n where
    "plan_fine rs (node_ids ts) (insert (DeploymentFromSpec ?e node n spec) (public_plan ts ?e))" .
  moreover have e: "i = 0 \<or> ?e = j" using assms(5) by (auto simp: eval_id_def)
  have "public_plan ts j \<subseteq> public_plan ts ?e" using e above by (force simp: public_plan_def)
  ultimately have "plan_fine rs (node_ids ts) (insert (DeploymentFromSpec ?e node n spec) (public_plan ts j))"
    by (auto intro: plan_fine_mono)
  then show ?thesis
  proof (rule plan_fine_renumber)
    show "same_shape (DeploymentFromSpec ?e node n spec) (DeploymentFromSpec j node name spec)"
      by (simp add: same_shape_def DeploymentFromSpec_def Let_def)
    fix d
    assume "d \<in> public_plan ts j"
    then obtain x where "x \<in> ran (stored ts)" "dep_ID x \<noteq> j" "pd_ID d = dep_ID x"
      by (auto simp: public_plan_def planned_def DeploymentFromSpec_def Let_def)
    then show "pd_ID d \<noteq> pd_ID (DeploymentFromSpec ?e node n spec) \<and> pd_ID d \<noteq> pd_ID (DeploymentFromSpec j node name spec)"
      using above [of x] e by (auto simp: DeploymentFromSpec_def Let_def)
  qed
next
  case False
  have "public_plan ts j \<subseteq> public_plan ts 0" by (rule public_plan_all [OF assms(4)])
  then have "plan_fine rs (node_ids ts) (public_plan ts j)" using assms(3) plan_fine_mono by blast
  then show ?thesis using False by (intro plan_fine_idle) (simp_all add: DeploymentFromSpec_def Let_def)
qed

end
