(* ===== verification/Deploy_Inv.thy ===== *)
theory Deploy_Inv
  imports Deploy_Plan
begin

text \<open>
  The deployments service over the store: what \<open>Create\<close>, \<open>Update\<close>, \<open>Delete\<close> and the writers of the system
  deployments do to the stored deployments, and the invariant they keep between them.
\<close>

section \<open>The writers\<close>

interpretation create: deployment_writer "create_mutate env actor now dep" for env actor now dep
  by unfold_locales (auto simp: create_mutate_def NextDeploymentID_def DeploymentCreateRecord_def Let_def split: option.splits prod.splits
      intro!: deployment_txn.new)

lemma DeploymentUpdateRecord_form:
  assumes "DeploymentUpdateRecord actor i seq now def ts = Inr (Some r)"
  obtains prev where "GetLatestDeployment i ts = Some prev" "drec_Deployment r = def\<lparr>dep_ID := i\<rparr>" "\<not> meta_Deleted (drec_Meta r)"
proof -
  from assms obtain prev where p: "GetLatestDeployment i ts = Some prev"
    "drec_Deployment r = def\<lparr>dep_ID := dep_ID (drec_Deployment prev)\<rparr>" "\<not> meta_Deleted (drec_Meta r)"
    by (auto simp: DeploymentUpdateRecord_def BuildDeploymentUpdateRecord_def Let_def split: option.splits if_splits)
  have "dep_ID (drec_Deployment prev) = i" using stored_ID [of ts i] p(1) by (simp add: stored_def)
  with p that show ?thesis by simp
qed

lemma update_mutate_form:
  assumes "update_mutate env actor now req updated d seq = Inr (r, t)"
  shows "inLockValidateDeploymentUpdate env (db_tables d) updated (dur_ExpectedSeq req) = None \<and>
    (t = wrote d empty_update \<and> GetLatestDeployment (dur_DeploymentID req) (db_tables d) = Some r \<or>
     t = wrote d (NewUpdate [DeploymentMutation r]) \<and> GetLatestDeployment (dur_DeploymentID req) (db_tables d) \<noteq> None \<and>
       drec_Deployment r = (drec_Deployment updated)\<lparr>dep_ID := dur_DeploymentID req\<rparr> \<and> \<not> meta_Deleted (drec_Meta r))"
proof -
  have v: "inLockValidateDeploymentUpdate env (db_tables d) updated (dur_ExpectedSeq req) = None"
    using assms by (cases "inLockValidateDeploymentUpdate env (db_tables d) updated (dur_ExpectedSeq req)") (simp_all add: update_mutate_def)
  from assms obtain result where u: "DeploymentUpdateRecord actor (dur_DeploymentID req) seq now (drec_Deployment updated) (db_tables d) = Inr result"
    and t: "(case result of
            None \<Rightarrow> (case GetLatestDeployment (dur_DeploymentID req) (db_tables d) of None \<Rightarrow> Inl NoRows | Some r \<Rightarrow> Inr (r, wrote d empty_update))
          | Some r \<Rightarrow> Inr (r, wrote d (NewUpdate [DeploymentMutation r]))) = Inr (r, t)"
    unfolding update_mutate_def v option.case bindE_Inr by blast
  show ?thesis
  proof (cases result)
    case None
    with t v show ?thesis by (auto split: option.splits)
  next
    case (Some r')
    with t have r: "r' = r" "t = wrote d (NewUpdate [DeploymentMutation r])" by auto
    from u show ?thesis unfolding Some r(1) by (rule DeploymentUpdateRecord_form) (use v r(2) in auto)
  qed
qed

interpretation update: deployment_writer "update_mutate env actor now req updated" for env actor now req updated
  by unfold_locales (drule update_mutate_form, auto intro: deployment_txn.idle deployment_txn.old)

lemma delete_mutate_form:
  assumes "delete_mutate env actor now i expectedSeq d seq = Inr (x, t)"
  obtains r where "t = wrote d (NewUpdate [DeploymentMutation r])" "GetLatestDeployment i (db_tables d) \<noteq> None" "dep_ID (drec_Deployment r) = i" "meta_Deleted (drec_Meta r)"
    "inLockValidateDeploymentDelete env (db_tables d) i expectedSeq = None"
proof -
  from assms obtain prev where p: "GetLatestDeployment i (db_tables d) = Some prev"
    "t = wrote d (NewUpdate [DeploymentMutation (prev\<lparr>drec_Meta := (drec_Meta prev)\<lparr>meta_UpdatedSeq := seq, meta_UpdatedTime := UnixMilli now, meta_UpdatedActor := actor, meta_Deleted := True\<rparr>\<rparr>)])"
    "inLockValidateDeploymentDelete env (db_tables d) i expectedSeq = None"
    by (auto simp: delete_mutate_def DeploymentDeleteRecord_def bindE_Inr split: option.splits)
  have "dep_ID (drec_Deployment prev) = i" using stored_ID [of "db_tables d" i] p(1) by (simp add: stored_def)
  with p that show ?thesis by simp
qed

interpretation delete: deployment_writer "delete_mutate env actor now i expectedSeq" for env actor now i expectedSeq
  by unfold_locales (erule delete_mutate_form, auto intro: deployment_txn.old)

lemma create_system_form:
  assumes "create_system nodeID name base version now d seq = Inr (r, t)"
  obtains i d1 spec where "NextEntityID CORE_DEPLOYMENT d = (i, d1)" "t = wrote d1 (NewUpdate [DeploymentMutation r])" "\<not> meta_Deleted (drec_Meta r)"
    "drec_Deployment r = \<lparr>dep_ID = i, dep_Name = name, dep_SpaceID = internal_SpaceID, dep_Spec = spec, dep_Scheduling = DedicatedScheduling True [nodeID]\<rparr>"
  using assms by (auto simp: create_system_def NextDeploymentID_def DeploymentCreateRecord_def Let_def split: sum.splits prod.splits)

lemma repair_system_form:
  assumes "repair_system cfg def now d seq = Inr (r, t)"
  obtains prev where "t = wrote d (NewUpdate [DeploymentMutation r])" "GetLatestDeployment (dep_ID (drec_Deployment cfg)) (db_tables d) = Some prev"
    "drec_Deployment r = def\<lparr>dep_ID := dep_ID (drec_Deployment cfg)\<rparr>" "\<not> meta_Deleted (drec_Meta r)"
proof -
  from assms obtain r' where u: "DeploymentUpdateRecord 0 (dep_ID (drec_Deployment cfg)) seq now def (db_tables d) = Inr (Some r')"
    "r' = r" "t = wrote d (NewUpdate [DeploymentMutation r])"
    by (auto simp: repair_system_def bindE_Inr split: option.splits)
  from u(1) show ?thesis by (rule DeploymentUpdateRecord_form) (use u that in auto)
qed

text \<open>Both writers of a system deployment find the stored one by its identity, repair it or create it.\<close>

inductive system_write :: "nat \<Rightarrow> string \<Rightarrow> db \<Rightarrow> DeploymentRecord \<Rightarrow> txn \<Rightarrow> bool" for nodeID name d where
  kept: "system_write nodeID name d r (wrote d empty_update)"
| created: "find (\<lambda>cfg. DeploymentKeyMatches (drec_Deployment cfg) nodeID internal_SpaceID name) (ListActiveDeployments (db_tables d)) = None \<Longrightarrow>
    NextEntityID CORE_DEPLOYMENT d = (dep_ID (drec_Deployment r), d1) \<Longrightarrow> \<not> meta_Deleted (drec_Meta r) \<Longrightarrow>
    DeploymentKeyMatches (drec_Deployment r) nodeID internal_SpaceID name \<Longrightarrow> system_write nodeID name d r (wrote d1 (NewUpdate [DeploymentMutation r]))"
| repaired: "cfg \<in> set (ListActiveDeployments (db_tables d)) \<Longrightarrow> GetLatestDeployment (dep_ID (drec_Deployment r)) (db_tables d) \<noteq> None \<Longrightarrow>
    dep_ID (drec_Deployment r) = dep_ID (drec_Deployment cfg) \<Longrightarrow> \<not> meta_Deleted (drec_Meta r) \<Longrightarrow>
    DeploymentKeyMatches (drec_Deployment cfg) nodeID internal_SpaceID name \<Longrightarrow> DeploymentKeyMatches (drec_Deployment r) nodeID internal_SpaceID name \<Longrightarrow>
    system_write nodeID name d r (wrote d (NewUpdate [DeploymentMutation r]))"

lemma system_write_created:
  assumes "create_system nodeID name base version now d seq = Inr (r, t)"
    and "find (\<lambda>cfg. DeploymentKeyMatches (drec_Deployment cfg) nodeID internal_SpaceID name) (ListActiveDeployments (db_tables d)) = None"
  shows "system_write nodeID name d r t"
  using assms(1)
  by (rule create_system_form) (use assms(2) in \<open>auto intro!: system_write.created simp: DeploymentKeyMatches_def PlacementNodeID_def DedicatedScheduling_def\<close>)

lemma system_write_repaired:
  assumes "repair_system cfg def now d seq = Inr (r, t)" "cfg \<in> set (ListActiveDeployments (db_tables d))"
    and "DeploymentKeyMatches (drec_Deployment cfg) nodeID internal_SpaceID name" "DeploymentKeyMatches def nodeID internal_SpaceID name"
  shows "system_write nodeID name d r t"
  using assms(1)
  by (rule repair_system_form) (use assms in \<open>auto intro!: system_write.repaired simp: DeploymentKeyMatches_def PlacementNodeID_def\<close>)

lemma find_found: "find P xs = Some x \<Longrightarrow> x \<in> set xs \<and> P x"
  by (induction xs) (auto split: if_splits)

lemma key_kept [simp]:
  "DeploymentKeyMatches (def\<lparr>dep_Spec := spec\<rparr>) n s name = DeploymentKeyMatches def n s name"
  "DeploymentKeyMatches (def\<lparr>dep_Scheduling := (dep_Scheduling def)\<lparr>sch_Running := b\<rparr>\<rparr>) n s name = DeploymentKeyMatches def n s name"
  "DeploymentKeyMatches (def\<lparr>dep_Spec := spec, dep_Scheduling := (dep_Scheduling def)\<lparr>sch_Running := b\<rparr>\<rparr>) n s name = DeploymentKeyMatches def n s name"
  by (simp_all add: DeploymentKeyMatches_def PlacementNodeID_def)

lemma ensure_system_form:
  assumes "ensure_system_mutate nodeID version now d seq = Inr (r, t)"
  shows "system_write nodeID SelfName d r t"
proof (cases "find (\<lambda>cfg. DeploymentKeyMatches (drec_Deployment cfg) nodeID internal_SpaceID SelfName) (ListActiveDeployments (db_tables d))")
  case None
  then show ?thesis using assms by (simp add: ensure_system_mutate_def system_write_created)
next
  case (Some cfg)
  note f = find_found [OF Some]
  show ?thesis
  proof (cases "IsSelfSpec (dep_Spec (drec_Deployment cfg))")
    case True
    then show ?thesis using assms Some by (auto simp: ensure_system_mutate_def Let_def intro: system_write.kept)
  next
    case False
    with assms Some obtain spec where "repair_system cfg ((drec_Deployment cfg)\<lparr>dep_Spec := spec,
        dep_Scheduling := (dep_Scheduling (drec_Deployment cfg))\<lparr>sch_Running := True\<rparr>\<rparr>) now d seq = Inr (r, t)"
      by (auto simp: ensure_system_mutate_def Let_def split: sum.splits)
    then show ?thesis by (rule system_write_repaired) (use f in auto)
  qed
qed

lemma ensure_netproxy_form:
  assumes "ensure_netproxy_mutate nodeID version now d seq = Inr (r, t)"
  shows "system_write nodeID NetproxyName d r t"
proof (cases "find (\<lambda>cfg. DeploymentKeyMatches (drec_Deployment cfg) nodeID internal_SpaceID NetproxyName) (ListActiveDeployments (db_tables d))")
  case None
  then show ?thesis using assms by (simp add: ensure_netproxy_mutate_def system_write_created)
next
  case (Some cfg)
  note f = find_found [OF Some]
  from assms Some obtain spec where "DeploymentSpecsEqual (dep_Spec (drec_Deployment cfg)) spec \<and> t = wrote d empty_update \<or>
      repair_system cfg ((drec_Deployment cfg)\<lparr>dep_Spec := spec\<rparr>) now d seq = Inr (r, t)"
    by (auto simp: ensure_netproxy_mutate_def Let_def split: sum.splits if_splits)
  then show ?thesis
  proof
    assume "repair_system cfg ((drec_Deployment cfg)\<lparr>dep_Spec := spec\<rparr>) now d seq = Inr (r, t)"
    then show ?thesis by (rule system_write_repaired) (use f in auto)
  qed (auto intro: system_write.kept)
qed

lemma system_write_txn: "system_write nodeID name d r t \<Longrightarrow> deployment_txn d t"
  by (induction rule: system_write.induct) (auto intro: deployment_txn.intros)

interpretation system: deployment_writer "ensure_system_mutate nodeID version now" for nodeID version now
  by unfold_locales (rule system_write_txn, erule ensure_system_form)

interpretation netproxy: deployment_writer "ensure_netproxy_mutate nodeID version now" for nodeID version now
  by unfold_locales (rule system_write_txn, erule ensure_netproxy_form)

section \<open>What a write stores\<close>

lemma one_mutation:
  assumes "wrote d (NewUpdate [DeploymentMutation r]) = wrote d' (NewUpdate [DeploymentMutation r'])"
  shows "d = d' \<and> dep_ID (drec_Deployment r) = dep_ID (drec_Deployment r') \<and> meta_Deleted (drec_Meta r) = meta_Deleted (drec_Meta r') \<and>
    (\<not> meta_Deleted (drec_Meta r) \<longrightarrow> drec_Deployment r = drec_Deployment r')"
  using assms
  by (auto simp: wrote_def NewUpdate_def empty_update_def DeploymentMutation_def DeploymentMutationOf_def entity_mutation_def Wire_def
      CreateMutationOf_def UpdateMutationOf_def DeleteMutationOf_def Let_def split: if_splits)

lemma no_mutation: "wrote d (NewUpdate [DeploymentMutation r]) \<noteq> wrote d' empty_update"
  by (simp add: wrote_def NewUpdate_def empty_update_def Let_def)

context deployment_writer
begin

lemma commit_written:
  assumes "Commit [scheduler_trigger s now] mutate d = Inr (x, u, d')" "store_ok d"
    and "mutate d (db_global_seq d + 1) = Inr (x, wrote d1 (NewUpdate [DeploymentMutation r]))"
  shows "stored (db_tables d') = (stored (db_tables d))(dep_ID (drec_Deployment r) := (if meta_Deleted (drec_Meta r) then None else Some (drec_Deployment r)))"
proof -
  from commit_effect [OF assms(1,2)] assms(3) no_mutation [of d1 r d] obtain d2 r' where
    e: "wrote d1 (NewUpdate [DeploymentMutation r]) = wrote d2 (NewUpdate [DeploymentMutation r'])"
    "stored (db_tables d') = (stored (db_tables d))(dep_ID (drec_Deployment r') := (if meta_Deleted (drec_Meta r') then None else Some (drec_Deployment r')))"
    by auto
  show ?thesis using one_mutation [OF e(1)] e(2) by simp
qed

lemma commit_idle:
  assumes "Commit [scheduler_trigger s now] mutate d = Inr (x, u, d')" "store_ok d" "mutate d (db_global_seq d + 1) = Inr (x, wrote d empty_update)"
  shows "stored (db_tables d') = stored (db_tables d)"
proof -
  from commit_effect [OF assms(1,2)] assms(3) no_mutation [of _ _ d] show ?thesis by (metis Inr_inject prod.inject)
qed

lemma commit_store:
  assumes "Commit [scheduler_trigger s now] mutate d = Inr (x, u, d')" "store_ok d"
  shows "store_ok d'" "node_ids (db_tables d') = node_ids (db_tables d)"
  using commit_effect [OF assms] node_ids_nodes by blast+

lemma commit_ran:
  assumes "Commit [scheduler_trigger s now] mutate d = Inr (x, u, d')"
  obtains t where "mutate d (db_global_seq d + 1) = Inr (x, t)"
  using Commit_Inr [OF assms] by metis

end

lemma stored_bounds:
  assumes "store_ok d" "stored (db_tables d) i = Some x"
  shows "0 < i \<and> i < counter CORE_DEPLOYMENT d"
proof -
  obtain v where "tbl_get (deployment_versions (db_tables d)) (i, v) \<noteq> None"
    using assms(2) by (auto simp: stored_def GetLatestDeployment_def GetDeploymentVersion_def split: option.splits)
  then show ?thesis using assms(1) unfolding store_ok_def versions_ok_def by blast
qed

lemma stored_0: "store_ok d \<Longrightarrow> stored (db_tables d) 0 = None"
  using stored_bounds [of d 0] by (cases "stored (db_tables d) 0") auto

text \<open>
  A writer of a system deployment succeeds on every consistent store while there are ids left: it stores the
  deployment, unless the stored one is as it should be.
\<close>

context deployment_writer
begin

lemma write_commits:
  assumes "store_ok d" "mutate d (db_global_seq d + 1) = Inr (x, t)" "0 < counter CORE_DEPLOYMENT d" "counter CORE_DEPLOYMENT d \<le> 16777215"
    and "\<And>d1 r. t = wrote d1 (NewUpdate [DeploymentMutation r]) \<Longrightarrow> \<not> meta_Deleted (drec_Meta r)"
  shows "\<exists>u d'. Commit [scheduler_trigger s now] mutate d = Inr (x, u, d')"
proof -
  let ?seq = "db_global_seq d + 1"
  have inv: "db_inv d" "pins_ok (db_tables d)" "tbl_wf (db_entity_ids d)" using assms(1) by (simp_all add: store_ok_def db_inv_def)
  have written: "\<exists>t1. tx_reduce (t\<lparr>tx_update := (tx_update t)\<lparr>upd_Seq := ?seq\<rparr>\<rparr>) = Inr t1"
    if "t = wrote d1 (NewUpdate [DeploymentMutation r])" "0 < dep_ID (drec_Deployment r)" "dep_ID (drec_Deployment r) \<le> 16777215" for d1 r
    using deployment_reduces [OF that(2,3) assms(5) [OF that(1)], where d = d1 and seq = ?seq] by (simp add: that(1) stamp_wrote)
  from writes [OF assms(2)] have "\<exists>t1. tx_reduce (t\<lparr>tx_update := (tx_update t)\<lparr>upd_Seq := ?seq\<rparr>\<rparr>) = Inr t1"
  proof cases
    case idle
    then show ?thesis using settled_idle [OF settled_start [OF inv(1,2)], of ?seq] by (simp add: seq_txn_def stamp_wrote wrote_def)
  next
    case (new r d1)
    note n = NextEntityID_spec(1) [OF new(2) inv(3)]
    have "0 < dep_ID (drec_Deployment r)" using n assms(3) by simp
    then show ?thesis using written [OF new(1)] n assms(4) by simp
  next
    case (old r)
    then obtain x where "stored (db_tables d) (dep_ID (drec_Deployment r)) = Some x" by (auto simp: stored_def)
    then show ?thesis using written [OF old(1)] stored_bounds [OF assms(1)] assms(4) by fastforce
  qed
  then show ?thesis using commit_total [OF assms(1,2)] by blast
qed

end

text \<open>A created deployment has an id that is new; the others are as they were.\<close>

lemma Create_effect:
  assumes "Create env [scheduler_trigger s now] actor at pre dep d = Inr (r, u, d')" "store_ok d"
  obtains newDep where "preLockValidateDeploymentCreate env at pre dep = Inr newDep" "inLockValidateDeploymentCreate env (db_tables d) newDep = None"
    "drec_Deployment r = newDep\<lparr>dep_ID := counter CORE_DEPLOYMENT d\<rparr>" "stored (db_tables d) (counter CORE_DEPLOYMENT d) = None"
    "stored (db_tables d') = (stored (db_tables d))(counter CORE_DEPLOYMENT d := Some (drec_Deployment r))"
    "store_ok d'" "node_ids (db_tables d') = node_ids (db_tables d)"
proof -
  from assms(1) obtain newDep where pre: "preLockValidateDeploymentCreate env at pre dep = Inr newDep"
    and c: "Commit [scheduler_trigger s now] (create_mutate env actor at newDep) d = Inr (r, u, d')"
    by (auto simp: Create_def split: sum.splits)
  from create.commit_ran [OF c] obtain t where t: "create_mutate env actor at newDep d (db_global_seq d + 1) = Inr (r, t)" .
  have ok: "inLockValidateDeploymentCreate env (db_tables d) newDep = None"
    using t by (cases "inLockValidateDeploymentCreate env (db_tables d) newDep") (simp_all add: create_mutate_def)
  obtain i d1 where n: "NextEntityID CORE_DEPLOYMENT d = (i, d1)" by (cases "NextEntityID CORE_DEPLOYMENT d")
  have i: "i = counter CORE_DEPLOYMENT d" using NextEntityID_spec(1) [OF n] assms(2) by (simp add: store_ok_def db_inv_def)
  have r: "r = DeploymentCreateRecord actor i (db_global_seq d + 1) at newDep" "t = wrote d1 (NewUpdate [DeploymentMutation r])"
    using t ok n by (auto simp: create_mutate_def NextDeploymentID_def Let_def)
  then have rd: "drec_Deployment r = newDep\<lparr>dep_ID := i\<rparr>" "\<not> meta_Deleted (drec_Meta r)" by (simp_all add: DeploymentCreateRecord_def)
  note w = create.commit_written [OF c assms(2) t [unfolded r(2)]]
  have "stored (db_tables d) i = None"
    using stored_bounds [OF assms(2), of i] i by (cases "stored (db_tables d) i") auto
  then show ?thesis using that [OF pre ok] rd w i create.commit_store [OF c assms(2)] by simp
qed

lemma Update_effect:
  assumes "Update env [scheduler_trigger s now] actor at pre existing req d = Inr (r, u, d')" "store_ok d"
  obtains copy u0 updated where "cloneDeployment existing = Inr copy" "apply_change copy (dur_Update req) = Inr u0"
    "preLockValidateDeploymentUpdate env at pre existing req u0 = Inr updated"
    "inLockValidateDeploymentUpdate env (db_tables d) updated (dur_ExpectedSeq req) = None"
    "stored (db_tables d') = stored (db_tables d) \<and> stored (db_tables d) (dur_DeploymentID req) = Some (drec_Deployment r) \<or>
     stored (db_tables d) (dur_DeploymentID req) \<noteq> None \<and> drec_Deployment r = (drec_Deployment updated)\<lparr>dep_ID := dur_DeploymentID req\<rparr> \<and>
     stored (db_tables d') = (stored (db_tables d))(dur_DeploymentID req := Some (drec_Deployment r))"
    "store_ok d'" "node_ids (db_tables d') = node_ids (db_tables d)"
proof -
  from assms(1) obtain copy u0 updated where p: "cloneDeployment existing = Inr copy" "apply_change copy (dur_Update req) = Inr u0"
    "preLockValidateDeploymentUpdate env at pre existing req u0 = Inr updated"
    and c: "Commit [scheduler_trigger s now] (update_mutate env actor at req updated) d = Inr (r, u, d')"
    by (auto simp: Update_def bindE_Inr split: option.splits sum.splits)
  from update.commit_ran [OF c] obtain t where t: "update_mutate env actor at req updated d (db_global_seq d + 1) = Inr (r, t)" .
  note F = update_mutate_form [OF t]
  have "stored (db_tables d') = stored (db_tables d) \<and> stored (db_tables d) (dur_DeploymentID req) = Some (drec_Deployment r) \<or>
     stored (db_tables d) (dur_DeploymentID req) \<noteq> None \<and> drec_Deployment r = (drec_Deployment updated)\<lparr>dep_ID := dur_DeploymentID req\<rparr> \<and>
     stored (db_tables d') = (stored (db_tables d))(dur_DeploymentID req := Some (drec_Deployment r))"
    using F update.commit_idle [OF c assms(2)] update.commit_written [OF c assms(2)] t by (auto simp: stored_def)
  then show ?thesis by (rule that [OF p conjunct1 [OF F] _ update.commit_store [OF c assms(2)]])
qed

lemma Delete_effect:
  assumes "Delete env [scheduler_trigger s now] actor at i expectedSeq d = Inr (x, u, d')" "store_ok d"
  shows "stored (db_tables d) i \<noteq> None" "inLockValidateDeploymentDelete env (db_tables d) i expectedSeq = None"
    "stored (db_tables d') = (stored (db_tables d))(i := None)" "store_ok d'" "node_ids (db_tables d') = node_ids (db_tables d)"
proof -
  note c = assms(1) [unfolded Delete_def]
  from delete.commit_ran [OF c] obtain t where t: "delete_mutate env actor at i expectedSeq d (db_global_seq d + 1) = Inr (x, t)" .
  from t obtain r where r: "t = wrote d (NewUpdate [DeploymentMutation r])" "GetLatestDeployment i (db_tables d) \<noteq> None" "dep_ID (drec_Deployment r) = i" "meta_Deleted (drec_Meta r)"
    "inLockValidateDeploymentDelete env (db_tables d) i expectedSeq = None" by (rule delete_mutate_form)
  show "stored (db_tables d) i \<noteq> None" "inLockValidateDeploymentDelete env (db_tables d) i expectedSeq = None" using r by (simp_all add: stored_def)
  show "stored (db_tables d') = (stored (db_tables d))(i := None)" using delete.commit_written [OF c assms(2) t [unfolded r(1)]] r by simp
  show "store_ok d'" "node_ids (db_tables d') = node_ids (db_tables d)" using delete.commit_store [OF c assms(2)] by auto
qed

text \<open>The writer of the primary's own deployment never finds nothing to repair where the stored spec is not the one it wants.\<close>

lemma self_spec: "\<exists>spec. SetWorkloadVersion version SelfSpec = Inr spec \<and> IsSelfSpec spec"
  by (simp add: SetWorkloadVersion_def SelfSpec_def IsSelfSpec_def WorkloadVersion_def DeploymentSpec_validate_def Workload_validate_def ContainerSpec_validate_def
      ContainerSource_validate_def ContainerRuntime_validate_def zero_runtime_def NetworkingConfig_validate_def wrapValidationError_def check_each_def
      at_least_1_if_set_def enum_field_def absent_def CONTAINER_UPGRADE_STRATEGY_RECREATE_def NETWORKING_MODE_HOST_def)

lemma ensure_system_runs:
  assumes "store_ok d"
  obtains r t where "ensure_system_mutate nodeID version now d seq = Inr (r, t)" "IsSelfSpec (dep_Spec (drec_Deployment r))"
    "DeploymentKeyMatches (drec_Deployment r) nodeID internal_SpaceID SelfName"
    "t = wrote d empty_update \<and> stored (db_tables d) (dep_ID (drec_Deployment r)) = Some (drec_Deployment r) \<or>
     (\<exists>d1. t = wrote d1 (NewUpdate [DeploymentMutation r])) \<and> \<not> meta_Deleted (drec_Meta r)"
proof (cases "find (\<lambda>cfg. DeploymentKeyMatches (drec_Deployment cfg) nodeID internal_SpaceID SelfName) (ListActiveDeployments (db_tables d))")
  case None
  obtain spec where s: "SetWorkloadVersion version SelfSpec = Inr spec" "IsSelfSpec spec" using self_spec by blast
  obtain i d1 where n: "NextEntityID CORE_DEPLOYMENT d = (i, d1)" by (cases "NextEntityID CORE_DEPLOYMENT d")
  show ?thesis
    by (rule that) (use None s n in \<open>auto simp: ensure_system_mutate_def create_system_def NextDeploymentID_def DeploymentCreateRecord_def Let_def
      DeploymentKeyMatches_def PlacementNodeID_def DedicatedScheduling_def\<close>)
next
  case (Some cfg)
  have wf: "tables_wf (db_tables d)" using assms by (simp add: store_ok_def db_inv_def)
  note f = find_found [OF Some]
  from active_records [OF wf, of cfg] f obtain j where j: "GetLatestDeployment j (db_tables d) = Some cfg" by blast
  have id: "dep_ID (drec_Deployment cfg) = j" using stored_ID [of "db_tables d" j] j by (simp add: stored_def)
  show ?thesis
  proof (cases "IsSelfSpec (dep_Spec (drec_Deployment cfg))")
    case True
    then show ?thesis using that [of cfg "wrote d empty_update"] Some f j id by (simp add: ensure_system_mutate_def Let_def stored_def)
  next
    case False
    obtain spec where s: "SetWorkloadVersion (WorkloadVersion (dep_Spec (drec_Deployment cfg))) SelfSpec = Inr spec" "IsSelfSpec spec"
      using self_spec by blast
    then have "spec \<noteq> dep_Spec (drec_Deployment cfg)" using False by auto
    then show ?thesis
      using that Some f j id s False
      by (auto simp: ensure_system_mutate_def Let_def repair_system_def DeploymentUpdateRecord_def BuildDeploymentUpdateRecord_def DeploymentSpecsEqual_def
          DeploymentKeyMatches_def PlacementNodeID_def)
  qed
qed

section \<open>The invariant\<close>

definition identity :: "Deployment \<Rightarrow> nat \<times> nat \<times> string" where
  "identity d = (PlacementNodeID d, dep_SpaceID d, dep_Name d)"

definition unique_identities :: "(nat \<Rightarrow> Deployment option) \<Rightarrow> bool" where
  "unique_identities st \<longleftrightarrow> (\<forall>i j a b. st i = Some a \<longrightarrow> st j = Some b \<longrightarrow> identity a = identity b \<longrightarrow> i = j)"

definition deployments_ok :: "Reservation list \<Rightarrow> db \<Rightarrow> bool" where
  "deployments_ok rs d \<longleftrightarrow> store_ok d \<and> unique_identities (stored (db_tables d)) \<and>
    plan_fine rs (node_ids (db_tables d)) (public_plan (db_tables d) 0)"

lemma key_identity: "DeploymentKeyMatches d n s name \<longleftrightarrow> identity d = (n, s, name)"
  by (simp add: DeploymentKeyMatches_def identity_def)

lemma deployments_ok_put:
  assumes "deployments_ok rs d" "store_ok d'" "node_ids (db_tables d') = node_ids (db_tables d)"
    and "stored (db_tables d') = (stored (db_tables d))(i := Some dep)"
    and "\<And>j other. j \<noteq> i \<Longrightarrow> stored (db_tables d) j = Some other \<Longrightarrow> identity other \<noteq> identity dep"
    and "internal dep \<or> plan_fine rs (node_ids (db_tables d)) (insert (planned dep) (public_plan (db_tables d) i))"
  shows "deployments_ok rs d'"
proof -
  let ?ts = "db_tables d" let ?ts' = "db_tables d'"
  have "unique_identities (stored ?ts')"
    using assms(1,5) unfolding unique_identities_def assms(4) deployments_ok_def by (auto split: if_splits) metis+
  moreover have "x = dep \<and> \<not> internal dep \<or> x \<in> ran (stored ?ts) \<and> dep_ID x \<noteq> i \<and> \<not> internal x" if "x \<in> ran (stored ?ts')" "\<not> internal x" for x
    using that stored_ID [of ?ts _ x] by (auto simp: assms(4) ran_def split: if_splits)
  then have "public_plan ?ts' 0 \<subseteq> (if internal dep then {} else {planned dep}) \<union> public_plan ?ts i" by (force simp: public_plan_def)
  moreover have "public_plan ?ts i \<subseteq> public_plan ?ts 0" using public_plan_all stored_0 assms(1) by (simp add: deployments_ok_def)
  ultimately show ?thesis
    using assms(1,2,6) plan_fine_mono [of rs "node_ids ?ts"] unfolding deployments_ok_def assms(3) by (auto split: if_splits)
qed

lemma deployments_ok_same:
  assumes "deployments_ok rs d" "store_ok d'" "node_ids (db_tables d') = node_ids (db_tables d)" "stored (db_tables d') = stored (db_tables d)"
  shows "deployments_ok rs d'"
  using assms by (simp add: deployments_ok_def public_plan_def)

lemma deployments_ok_del:
  assumes "deployments_ok rs d" "store_ok d'" "node_ids (db_tables d') = node_ids (db_tables d)" "stored (db_tables d') = (stored (db_tables d))(i := None)"
  shows "deployments_ok rs d'"
proof -
  have "unique_identities (stored (db_tables d'))"
    using assms(1) unfolding unique_identities_def assms(4) deployments_ok_def by (auto split: if_splits)
  moreover have "public_plan (db_tables d') 0 \<subseteq> public_plan (db_tables d) 0"
    by (auto simp: public_plan_def assms(4) ran_def split: if_splits)
  ultimately show ?thesis using assms plan_fine_mono by (auto simp: deployments_ok_def)
qed

end
