(* ===== verification/Deploy_Reach.thy ===== *)
theory Deploy_Reach
  imports Deploy_Inv
begin

text \<open>
  Every operation of the deployments service is a step of an abstract service, also when an update starts from
  a record that is no longer the stored one; and what the ingress plan of the stored deployments needs in addition.
\<close>

section \<open>Each operation\<close>

lemma live_deployment_stored:
  assumes "tables_wf ts" "live_deployment (ReadLiveState ts) i = Some ex"
  shows "stored ts i = Some (drec_Deployment ex)"
proof -
  from find_found [OF assms(2) [unfolded live_deployment_def]] active_records [OF assms(1), of ex]
  obtain j where j: "GetLatestDeployment j ts = Some ex" "dep_ID (drec_Deployment ex) = i" by (auto simp: ReadLiveState_def)
  then have "j = i" using stored_ID [of ts j] by (simp add: stored_def)
  with j show ?thesis by (simp add: stored_def)
qed

lemma no_duplicate:
  assumes "tables_wf ts" "validateNoDuplicateIdentity (ReadLiveState ts) def = None" "stored ts j = Some other" "j \<noteq> dep_ID def"
  shows "identity other \<noteq> identity def"
proof -
  have "other \<in> drec_Deployment ` set (ListActiveDeployments ts)" unfolding active_stored [OF assms(1)] using assms(3) by (auto simp: ran_def)
  then show ?thesis
    using assms(2,4) stored_ID [OF assms(3)]
    by (auto simp: validateNoDuplicateIdentity_def ReadLiveState_def list_ex_iff key_identity identity_def split: if_splits)
qed

lemma create_spec:
  "preLockValidateDeploymentCreate env at pre dep = Inr newDep \<Longrightarrow> dep_ID newDep = dep_ID dep \<and> dep_SpaceID newDep \<noteq> internal_SpaceID \<and>
    (\<exists>spec. ValidateSpec env at pre (dep_Spec dep) = Inr spec \<and> newDep = dep\<lparr>dep_Spec := spec\<rparr>)"
  by (auto simp: preLockValidateDeploymentCreate_def bindE_Inr split: if_splits)

lemma Create_keeps:
  assumes "Create env [scheduler_trigger s now] actor at pre dep d = Inr (r, u, d')" "deployments_ok (de_Reservations env) d" "dep_ID dep = 0"
  shows "deployments_ok (de_Reservations env) d'"
proof -
  let ?ts = "db_tables d" let ?i = "counter CORE_DEPLOYMENT d"
  have ok: "store_ok d" "tables_wf ?ts" using assms(2) by (auto simp: deployments_ok_def store_ok_def db_inv_def)
  from assms(1) ok(1) obtain newDep where pre: "preLockValidateDeploymentCreate env at pre dep = Inr newDep"
    and v: "inLockValidateDeploymentCreate env ?ts newDep = None"
    and r: "drec_Deployment r = newDep\<lparr>dep_ID := ?i\<rparr>" and new: "stored ?ts ?i = None"
    and st: "stored (db_tables d') = (stored ?ts)(?i := Some (drec_Deployment r))" "store_ok d'" "node_ids (db_tables d') = node_ids ?ts"
    by (rule Create_effect)
  have id0: "dep_ID newDep = 0" using create_spec [OF pre] assms(3) by simp
  from v have dup: "validateNoDuplicateIdentity (ReadLiveState ?ts) newDep = None"
    and claims: "ValidateNodeNetworkingClaims (ReadLiveState ?ts) (de_Reservations env) (PlacementNodeID newDep) 0 (dep_Spec newDep) = None"
    by (auto simp: inLockValidateDeploymentCreate_def Let_def id0 err_simps split: if_splits)
  have same: "identity (drec_Deployment r) = identity newDep" "planned (drec_Deployment r) = DeploymentFromSpec ?i (PlacementNodeID newDep) (dep_Name newDep) (dep_Spec newDep)"
    by (simp_all add: r identity_def planned_def PlacementNodeID_def)
  show ?thesis
  proof (rule deployments_ok_put [OF assms(2) st(2,3,1)])
    show "identity other \<noteq> identity (drec_Deployment r)" if "j \<noteq> ?i" "stored ?ts j = Some other" for j other
      using no_duplicate [OF ok(2) dup that(2)] stored_bounds [OF ok(1) that(2)] id0 by (simp add: same)
    show "internal (drec_Deployment r) \<or> plan_fine (de_Reservations env) (node_ids ?ts) (insert (planned (drec_Deployment r)) (public_plan ?ts ?i))"
      unfolding same using accepted_plan [OF ok(2) claims _ stored_0 [OF ok(1)]] assms(2) new by (simp add: deployments_ok_def)
  qed
qed

section \<open>Updates\<close>

text \<open>
  The caller loads the record before the lock, and without an \<open>expected_seq\<close> nothing checks that it is still
  the stored one when the update is written. A deployment keeps its node and name for life, so the record has
  those of the stored one. The ingress plan needs more: a record that has the stored space, so that the branch
  with the claims check is the one taken unless the update is a move, and the stored networking for a move.
\<close>

definition same_place :: "Deployment \<Rightarrow> Deployment \<Rightarrow> bool" where
  "same_place a b \<longleftrightarrow> PlacementNodeID a = PlacementNodeID b \<and> dep_Name a = dep_Name b"

definition up_to_date :: "tables \<Rightarrow> DeploymentRecord \<Rightarrow> DeploymentUpdateRequest \<Rightarrow> bool" where
  "up_to_date ts existing req \<longleftrightarrow>
    (case stored ts (dur_DeploymentID req) of None \<Rightarrow> True
     | Some cur \<Rightarrow> dep_SpaceID cur = dep_SpaceID (drec_Deployment existing) \<and>
        (case dur_Update req of Some (AssignedSpace _) \<Rightarrow> ds_Networking (dep_Spec cur) = ds_Networking (dep_Spec (drec_Deployment existing)) | _ \<Rightarrow> True))"

lemma SetWorkloadState_shape:
  assumes "SetWorkloadState version running r = Inr r'"
  shows "dep_ID (drec_Deployment r') = dep_ID (drec_Deployment r)" "dep_Name (drec_Deployment r') = dep_Name (drec_Deployment r)"
    "dep_SpaceID (drec_Deployment r') = dep_SpaceID (drec_Deployment r)"
    "ds_Networking (dep_Spec (drec_Deployment r')) = ds_Networking (dep_Spec (drec_Deployment r))"
  using assms by (auto simp: SetWorkloadState_def SetWorkloadVersion_def bindE_Inr split: option.splits)

lemma at_field_passes [simp]: "at_field scope x = Inr y \<longleftrightarrow> x = Inr y"
  by (auto simp: at_field_def split: sum.splits)

lemma clone_same: "cloneDeployment existing = Inr copy \<Longrightarrow> copy = existing"
  by (auto simp: cloneDeployment_def cloneDeploymentSpec_def with_spec_def split: sum.splits option.splits)

lemma apply_change_shape:
  assumes "apply_change existing change = Inr u"
  shows "dep_ID (drec_Deployment u) = dep_ID (drec_Deployment existing)" "dep_Name (drec_Deployment u) = dep_Name (drec_Deployment existing)"
    "(\<exists>space. change = Some (AssignedSpace space)) \<or> dep_SpaceID (drec_Deployment u) = dep_SpaceID (drec_Deployment existing)"
    "change = Some (AssignedSpace space) \<Longrightarrow> ds_Networking (dep_Spec (drec_Deployment u)) = ds_Networking (dep_Spec (drec_Deployment existing))"
  using assms by (auto simp: apply_change_def setTargetVersion_def with_spec_def Let_def SetWorkloadState_shape
      split: option.splits deployment_change.splits if_splits)

lemma preLock_shape:
  assumes "preLockValidateDeploymentUpdate env at pre existing req u = Inr updated"
  shows "dep_ID (drec_Deployment updated) = dep_ID (drec_Deployment u)" "dep_Name (drec_Deployment updated) = dep_Name (drec_Deployment u)"
    "dep_SpaceID (drec_Deployment updated) = dep_SpaceID (drec_Deployment u)" "PlacementNodeID (drec_Deployment updated) = PlacementNodeID (drec_Deployment existing)"
    "dur_Update req = Some (AssignedSpace space) \<Longrightarrow> ds_Networking (dep_Spec (drec_Deployment updated)) = ds_Networking (dep_Spec (drec_Deployment u))"
proof -
  from assms obtain u1 where u1: "(case dur_Update req of
        Some (SpecChange _) \<Rightarrow> bindE (fails (validateInternalSpecUnchanged existing u)) (\<lambda>_.
          bindE (ValidateSpec env at pre (dep_Spec (drec_Deployment u))) (\<lambda>spec. Inr (with_spec spec u)))
      | _ \<Rightarrow> Inr u) = Inr u1"
    and u2: "updated = u1 \<or> SetWorkloadState [] False u1 = Inr updated"
    and node: "PlacementNodeID (drec_Deployment updated) = PlacementNodeID (drec_Deployment existing)"
    unfolding preLockValidateDeploymentUpdate_def bindE_Inr Let_def by (auto simp: bindE_Inr split: if_splits)
  have "dep_ID (drec_Deployment u1) = dep_ID (drec_Deployment u)" "dep_Name (drec_Deployment u1) = dep_Name (drec_Deployment u)"
    "dep_SpaceID (drec_Deployment u1) = dep_SpaceID (drec_Deployment u)" "dur_Update req = Some (AssignedSpace space) \<Longrightarrow> u1 = u"
    using u1 by (auto simp: bindE_Inr with_spec_def split: option.splits deployment_change.splits)
  with u2 node SetWorkloadState_shape
  show "dep_ID (drec_Deployment updated) = dep_ID (drec_Deployment u)" "dep_Name (drec_Deployment updated) = dep_Name (drec_Deployment u)"
    "dep_SpaceID (drec_Deployment updated) = dep_SpaceID (drec_Deployment u)" "PlacementNodeID (drec_Deployment updated) = PlacementNodeID (drec_Deployment existing)"
    "dur_Update req = Some (AssignedSpace space) \<Longrightarrow> ds_Networking (dep_Spec (drec_Deployment updated)) = ds_Networking (dep_Spec (drec_Deployment u))"
    by metis+
qed

lemma plan_fine_move:
  assumes "deployments_ok rs d" "stored (db_tables d) i = Some cur" "\<not> internal cur"
    and "PlacementNodeID dep = PlacementNodeID cur" "ds_Networking (dep_Spec dep) = ds_Networking (dep_Spec cur)" "dep_ID dep = i"
  shows "plan_fine rs (node_ids (db_tables d)) (insert (planned dep) (public_plan (db_tables d) i))"
proof -
  let ?ts = "db_tables d"
  have id: "dep_ID cur = i" by (rule stored_ID [OF assms(2)])
  have pos: "0 < i" using stored_bounds [of d i cur] assms(1,2) by (simp add: deployments_ok_def)
  have "stored ?ts 0 = None" using stored_0 assms(1) by (simp add: deployments_ok_def)
  then have "insert (planned cur) (public_plan ?ts i) \<subseteq> public_plan ?ts 0"
    using public_plan_all [of ?ts i] assms(2,3) id pos by (auto simp: public_plan_def ran_def)
  then have "plan_fine rs (node_ids ?ts) (insert (planned cur) (public_plan ?ts i))" using assms(1) plan_fine_mono by (auto simp: deployments_ok_def)
  then show ?thesis
  proof (rule plan_fine_renumber)
    show "same_shape (planned cur) (planned dep)" using assms(4,5) by (simp add: same_shape_def planned_def DeploymentFromSpec_def Let_def)
  qed (use id assms(6) in \<open>auto simp: public_plan_def planned_def DeploymentFromSpec_def Let_def\<close>)
qed

text \<open>An update leaves the store, changes the deployment where it is, or moves it.\<close>

lemma Update_outcome:
  assumes "Update env [scheduler_trigger s now] actor at pre existing req d = Inr (r, u, d')" "store_ok d" "dep_ID (drec_Deployment existing) = dur_DeploymentID req"
    and "\<forall>cur. stored (db_tables d) (dur_DeploymentID req) = Some cur \<longrightarrow> same_place cur (drec_Deployment existing)"
  obtains (idle) "store_ok d'" "node_ids (db_tables d') = node_ids (db_tables d)" "stored (db_tables d') = stored (db_tables d)"
  | (changed) cur dep where "store_ok d'" "node_ids (db_tables d') = node_ids (db_tables d)" "stored (db_tables d) (dur_DeploymentID req) = Some cur"
      "stored (db_tables d') = (stored (db_tables d))(dur_DeploymentID req := Some dep)" "dep_ID dep = dur_DeploymentID req" "identity dep = identity cur"
      "ValidateNodeNetworkingClaims (ReadLiveState (db_tables d)) (de_Reservations env) (PlacementNodeID dep) (dur_DeploymentID req) (dep_Spec dep) = None"
  | (moved) cur dep where "store_ok d'" "node_ids (db_tables d') = node_ids (db_tables d)" "stored (db_tables d) (dur_DeploymentID req) = Some cur"
      "stored (db_tables d') = (stored (db_tables d))(dur_DeploymentID req := Some dep)" "dep_ID dep = dur_DeploymentID req"
      "PlacementNodeID dep = PlacementNodeID cur" "dep_Name dep = dep_Name cur"
      "up_to_date (db_tables d) existing req \<Longrightarrow> ds_Networking (dep_Spec dep) = ds_Networking (dep_Spec cur)" "\<not> internal cur" "1 \<le> dep_SpaceID cur" "1 \<le> dep_SpaceID dep" "dep_SpaceID dep \<le> 65535"
      "\<And>j other. j \<noteq> dur_DeploymentID req \<Longrightarrow> stored (db_tables d) j = Some other \<Longrightarrow> identity other \<noteq> identity dep"
proof -
  let ?ts = "db_tables d" let ?i = "dur_DeploymentID req"
  have wf: "tables_wf ?ts" using assms(2) by (simp add: store_ok_def db_inv_def)
  from assms(1,2) obtain copy u0 updated where p: "cloneDeployment existing = Inr copy" "apply_change copy (dur_Update req) = Inr u0"
    "preLockValidateDeploymentUpdate env at pre existing req u0 = Inr updated"
    and v: "inLockValidateDeploymentUpdate env ?ts updated (dur_ExpectedSeq req) = None"
    and st: "stored (db_tables d') = stored ?ts \<and> stored ?ts ?i = Some (drec_Deployment r) \<or>
     stored ?ts ?i \<noteq> None \<and> drec_Deployment r = (drec_Deployment updated)\<lparr>dep_ID := ?i\<rparr> \<and> stored (db_tables d') = (stored ?ts)(?i := Some (drec_Deployment r))"
    and k: "store_ok d'" "node_ids (db_tables d') = node_ids ?ts"
    by (rule Update_effect)
  note sh = preLock_shape [OF p(3)] apply_change_shape [OF p(2) [unfolded clone_same [OF p(1)]]]
  let ?def = "drec_Deployment updated"
  have id: "dep_ID ?def = ?i" using sh(1,6) assms(3) by simp
  from v obtain ex where ex: "live_deployment (ReadLiveState ?ts) ?i = Some ex"
    and branch: "if dep_SpaceID (drec_Deployment ex) \<noteq> dep_SpaceID ?def then validate_move (ReadLiveState ?ts) ex ?def = None
        else validate_change env (ReadLiveState ?ts) ex updated = None"
    by (auto simp: inLockValidateDeploymentUpdate_def Let_def id split: option.splits if_splits)
  let ?cur = "drec_Deployment ex"
  have cur: "stored ?ts ?i = Some ?cur" by (rule live_deployment_stored [OF wf ex])
  have keep: "PlacementNodeID ?def = PlacementNodeID ?cur" "dep_Name ?def = dep_Name ?cur" using sh assms(4) cur by (simp_all add: same_place_def)
  show ?thesis
  proof (cases "stored (db_tables d') = stored ?ts")
    case False
    with st have r: "stored (db_tables d') = (stored ?ts)(?i := Some ?def)" using id by auto
    show ?thesis
    proof (cases "dep_SpaceID ?cur = dep_SpaceID ?def")
      case True
      then have "validate_change env (ReadLiveState ?ts) ex updated = None" using branch by simp
      then have "ValidateNodeNetworkingClaims (ReadLiveState ?ts) (de_Reservations env) (PlacementNodeID ?def) ?i (dep_Spec ?def) = None"
        using id by (auto simp: validate_change_def Let_def split: if_splits)
      moreover have "identity ?def = identity ?cur" using True keep by (simp add: identity_def)
      ultimately show ?thesis using changed [OF k cur r id] by blast
    next
      case False
      then have m: "validate_move (ReadLiveState ?ts) ex ?def = None" using branch by simp
      have max: "unat MaxSpaceID = 65535" by (simp add: MaxSpaceID_def SpaceBits_def)
      from m have dup: "validateNoDuplicateIdentity (ReadLiveState ?ts) ?def = None" and "\<not> internal ?cur"
        and "1 \<le> dep_SpaceID ?cur" "1 \<le> dep_SpaceID ?def" "dep_SpaceID ?def \<le> 65535"
        by (auto simp: validate_move_def Let_def internal_def IsInternalConfig_def max split: if_splits)
      moreover have "ds_Networking (dep_Spec ?def) = ds_Networking (dep_Spec ?cur)" if u: "up_to_date ?ts existing req"
      proof -
        from False u cur sh obtain space where a: "dur_Update req = Some (AssignedSpace space)" by (auto simp: up_to_date_def)
        then show ?thesis using sh u cur by (simp add: up_to_date_def)
      qed
      moreover have "identity other \<noteq> identity ?def" if "j \<noteq> ?i" "stored ?ts j = Some other" for j other
        using no_duplicate [OF wf dup that(2)] that(1) id by simp
      ultimately show ?thesis using moved [OF k cur r id keep] by blast
    qed
  qed (rule idle [OF k])
qed

lemma Update_keeps:
  assumes "Update env [scheduler_trigger s now] actor at pre existing req d = Inr (r, u, d')" "deployments_ok (de_Reservations env) d"
    and "dep_ID (drec_Deployment existing) = dur_DeploymentID req" "up_to_date (db_tables d) existing req"
    and "\<forall>cur. stored (db_tables d) (dur_DeploymentID req) = Some cur \<longrightarrow> same_place cur (drec_Deployment existing)"
  shows "deployments_ok (de_Reservations env) d'"
proof -
  let ?ts = "db_tables d" let ?i = "dur_DeploymentID req"
  have ok: "store_ok d" "tables_wf ?ts" using assms(2) by (auto simp: deployments_ok_def store_ok_def db_inv_def)
  from assms(1) ok(1) assms(3,5) show ?thesis
  proof (cases rule: Update_outcome)
    case idle
    then show ?thesis by (rule deployments_ok_same [OF assms(2)])
  next
    case (changed cur dep)
    have "0 < ?i" using stored_bounds [OF ok(1) changed(3)] by simp
    from accepted_plan [OF ok(2) changed(7) _ stored_0 [OF ok(1)]] assms(2) this changed(5)
    have "plan_fine (de_Reservations env) (node_ids ?ts) (insert (planned dep) (public_plan ?ts ?i))" by (simp add: planned_def deployments_ok_def)
    moreover have "identity other \<noteq> identity dep" if "j \<noteq> ?i" "stored ?ts j = Some other" for j other
      using assms(2) that changed(3) unfolding deployments_ok_def unique_identities_def changed(6) by metis
    ultimately show ?thesis by (intro deployments_ok_put [OF assms(2) changed(1,2,4)]) auto
  next
    case (moved cur dep)
    have "plan_fine (de_Reservations env) (node_ids ?ts) (insert (planned dep) (public_plan ?ts ?i))"
      by (rule plan_fine_move [OF assms(2) moved(3,9,6) moved(8) [OF assms(4)] moved(5)])
    then show ?thesis using moved(13) by (intro deployments_ok_put [OF assms(2) moved(1,2,4)]) auto
  qed
qed

section \<open>Deletions and system deployments\<close>

lemma Delete_keeps:
  assumes "Delete env [scheduler_trigger s now] actor at i expectedSeq d = Inr (x, u, d')" "deployments_ok rs d"
  shows "deployments_ok rs d'"
proof -
  have "store_ok d" using assms(2) by (simp add: deployments_ok_def)
  note D = Delete_effect [OF assms(1) this]
  show ?thesis by (rule deployments_ok_del [OF assms(2) D(4,5,3)])
qed

lemma system_write_outcome:
  assumes "system_write nodeID name d r t" "store_ok d"
  obtains (kept) "t = wrote d empty_update"
  | (created) d1 where "t = wrote d1 (NewUpdate [DeploymentMutation r])" "\<not> meta_Deleted (drec_Meta r)" "DeploymentKeyMatches (drec_Deployment r) nodeID internal_SpaceID name"
      "stored (db_tables d) (dep_ID (drec_Deployment r)) = None" "\<And>j other. stored (db_tables d) j = Some other \<Longrightarrow> identity other \<noteq> identity (drec_Deployment r)"
      "dep_ID (drec_Deployment r) = counter CORE_DEPLOYMENT d"
  | (repaired) cur where "t = wrote d (NewUpdate [DeploymentMutation r])" "\<not> meta_Deleted (drec_Meta r)" "DeploymentKeyMatches (drec_Deployment r) nodeID internal_SpaceID name"
      "stored (db_tables d) (dep_ID (drec_Deployment r)) = Some cur" "identity (drec_Deployment r) = identity cur"
proof -
  have wf: "tables_wf (db_tables d)" using assms(2) by (simp add: store_ok_def db_inv_def)
  from assms(1) show ?thesis
  proof cases
    case (created d1)
    have id: "dep_ID (drec_Deployment r) = counter CORE_DEPLOYMENT d"
      using NextEntityID_spec(1) [OF created(3)] assms(2) by (simp add: store_ok_def db_inv_def)
    then have "stored (db_tables d) (dep_ID (drec_Deployment r)) = None"
      using stored_bounds [OF assms(2), of "dep_ID (drec_Deployment r)"] by (cases "stored (db_tables d) (dep_ID (drec_Deployment r))") auto
    moreover have "identity other \<noteq> identity (drec_Deployment r)" if "stored (db_tables d) j = Some other" for j other
    proof -
      have "other \<in> drec_Deployment ` set (ListActiveDeployments (db_tables d))" unfolding active_stored [OF wf] using that by (auto simp: ran_def)
      then show ?thesis using created(2,5) by (auto simp: find_None_iff key_identity)
    qed
    ultimately show ?thesis using that(2) [OF created(1,4,5)] id by blast
  next
    case (repaired cfg)
    obtain j where "GetLatestDeployment j (db_tables d) = Some cfg" using repaired(2) active_records [OF wf] by blast
    then have "stored (db_tables d) (dep_ID (drec_Deployment r)) = Some (drec_Deployment cfg)"
      using stored_ID [of "db_tables d" j] repaired(4) by (simp add: stored_def)
    moreover have "identity (drec_Deployment r) = identity (drec_Deployment cfg)" using repaired(6,7) by (simp add: key_identity)
    ultimately show ?thesis using that(3) [OF repaired(1,5,7)] by blast
  qed (rule that(1))
qed

lemma system_write_keeps:
  assumes "system_write nodeID name d r t" "deployments_ok rs d" "store_ok d'" "node_ids (db_tables d') = node_ids (db_tables d)"
    and name: "name = SelfName \<or> name = NetproxyName"
    and idle: "t = wrote d empty_update \<Longrightarrow> stored (db_tables d') = stored (db_tables d)"
    and written: "\<And>d1. t = wrote d1 (NewUpdate [DeploymentMutation r]) \<Longrightarrow> \<not> meta_Deleted (drec_Meta r) \<Longrightarrow>
      stored (db_tables d') = (stored (db_tables d))(dep_ID (drec_Deployment r) := Some (drec_Deployment r))"
  shows "deployments_ok rs d'"
proof -
  have ok: "store_ok d" using assms(2) by (simp add: deployments_ok_def)
  have internal: "internal (drec_Deployment r)" if "DeploymentKeyMatches (drec_Deployment r) nodeID internal_SpaceID name"
    using that name by (auto simp: internal_def IsInternalIdentity_def IsSelfIdentity_def IsNetproxyIdentity_def DeploymentKeyMatches_def)
  from assms(1) ok show ?thesis
  proof (cases rule: system_write_outcome)
    case kept
    then show ?thesis using deployments_ok_same [OF assms(2-4)] idle by blast
  next
    case (created d1)
    then show ?thesis using deployments_ok_put [OF assms(2-4) written [OF created(1,2)]] internal by blast
  next
    case (repaired cur)
    have "identity other \<noteq> identity (drec_Deployment r)" if "j \<noteq> dep_ID (drec_Deployment r)" "stored (db_tables d) j = Some other" for j other
      using assms(2) that repaired(4) unfolding deployments_ok_def unique_identities_def repaired(5) by metis
    then show ?thesis using deployments_ok_put [OF assms(2-4) written [OF repaired(1,2)]] internal [OF repaired(3)] by blast
  qed
qed

lemma EnsureSystem_keeps:
  assumes "EnsureSystem [scheduler_trigger s now] nodeID version at d = Inr (r, u, d')" "deployments_ok rs d"
  shows "deployments_ok rs d'"
proof -
  have ok: "store_ok d" using assms(2) by (simp add: deployments_ok_def)
  from assms(1) have c: "Commit [scheduler_trigger s now] (ensure_system_mutate nodeID (TrimSpace version) at) d = Inr (r, u, d')"
    by (simp add: EnsureSystem_def split: if_splits)
  from system.commit_ran [OF c] obtain t where t: "ensure_system_mutate nodeID (TrimSpace version) at d (db_global_seq d + 1) = Inr (r, t)" .
  note w = system.commit_written [OF c ok] system.commit_idle [OF c ok]
  show ?thesis
    by (rule system_write_keeps [OF ensure_system_form [OF t] assms(2) system.commit_store [OF c ok] disjI1 [OF refl]])
      (use w t in auto)
qed

lemma EnsureNetproxy_keeps:
  assumes "EnsureNetproxy [scheduler_trigger s now] nodeID version at d = Inr (r, u, d')" "deployments_ok rs d"
  shows "deployments_ok rs d'"
proof -
  have ok: "store_ok d" using assms(2) by (simp add: deployments_ok_def)
  from assms(1) have c: "Commit [scheduler_trigger s now] (ensure_netproxy_mutate nodeID (TrimSpace version) at) d = Inr (r, u, d')"
    by (simp add: EnsureNetproxy_def split: if_splits)
  from netproxy.commit_ran [OF c] obtain t where t: "ensure_netproxy_mutate nodeID (TrimSpace version) at d (db_global_seq d + 1) = Inr (r, t)" .
  note w = netproxy.commit_written [OF c ok] netproxy.commit_idle [OF c ok]
  show ?thesis
    by (rule system_write_keeps [OF ensure_netproxy_form [OF t] assms(2) netproxy.commit_store [OF c ok] disjI2 [OF refl]])
      (use w t in auto)
qed

section \<open>The abstract service\<close>

text \<open>
  What the service promises about the map from ids to deployments. A deployment keeps its node and its
  name for life; it changes its space only from one space that is not the system's to another in which its
  identity is free. A new deployment has an id that was never \<open>issued\<close>: those are below the counter of the store.
\<close>

definition identity_free :: "(nat \<Rightarrow> Deployment option) \<Rightarrow> nat \<Rightarrow> Deployment \<Rightarrow> bool" where
  "identity_free st i dep \<longleftrightarrow> (\<forall>j other. j \<noteq> i \<longrightarrow> st j = Some other \<longrightarrow> identity other \<noteq> identity dep)"

inductive service_step :: "nat \<Rightarrow> (nat \<Rightarrow> Deployment option) \<Rightarrow> (nat \<Rightarrow> Deployment option) \<Rightarrow> bool" for issued where
  idle: "service_step issued st st"
| new: "st i = None \<Longrightarrow> 0 < i \<Longrightarrow> issued \<le> i \<Longrightarrow> dep_ID dep = i \<Longrightarrow> identity_free st i dep \<Longrightarrow> service_step issued st (st(i := Some dep))"
| changed: "st i = Some old \<Longrightarrow> dep_ID dep = i \<Longrightarrow> identity dep = identity old \<Longrightarrow> service_step issued st (st(i := Some dep))"
| moved: "st i = Some old \<Longrightarrow> dep_ID dep = i \<Longrightarrow> PlacementNodeID dep = PlacementNodeID old \<Longrightarrow> dep_Name dep = dep_Name old \<Longrightarrow>
    1 \<le> dep_SpaceID old \<Longrightarrow> 1 \<le> dep_SpaceID dep \<Longrightarrow> dep_SpaceID dep \<le> 65535 \<Longrightarrow> identity_free st i dep \<Longrightarrow> service_step issued st (st(i := Some dep))"
| removed: "st i = Some old \<Longrightarrow> service_step issued st (st(i := None))"

text \<open>An id names the same node and name for ever, also after the deployment is gone; and identities stay unique.\<close>

lemma service_step_place: "service_step n st st' \<Longrightarrow> i < n \<Longrightarrow> st' i = Some cur \<Longrightarrow> \<exists>old. st i = Some old \<and> same_place cur old"
  by (induction rule: service_step.induct) (auto simp: same_place_def identity_def split: if_splits)

lemma service_step_unique:
  assumes "service_step n st st'" "unique_identities st"
  shows "unique_identities st'"
proof -
  have put: "unique_identities (st(i := Some dep))" if "identity_free st i dep" for i dep
    using that assms(2) unfolding identity_free_def unique_identities_def by (simp split: if_splits) metis
  from assms(1) show ?thesis
  proof cases
    case (changed i old dep)
    then have "identity_free st i dep" using assms(2) unfolding identity_free_def unique_identities_def by metis
    then show ?thesis using put changed(1) by blast
  next
    case (removed i old)
    then show ?thesis using assms(2) by (auto simp: unique_identities_def split: if_splits)
  qed (use put assms(2) in auto)
qed

lemma system_write_refines:
  assumes "system_write nodeID name d r t" "store_ok d" "store_ok d'"
    and idle: "t = wrote d empty_update \<Longrightarrow> stored (db_tables d') = stored (db_tables d)"
    and written: "\<And>d1. t = wrote d1 (NewUpdate [DeploymentMutation r]) \<Longrightarrow> \<not> meta_Deleted (drec_Meta r) \<Longrightarrow>
      stored (db_tables d') = (stored (db_tables d))(dep_ID (drec_Deployment r) := Some (drec_Deployment r))"
  shows "service_step (counter CORE_DEPLOYMENT d) (stored (db_tables d)) (stored (db_tables d'))"
  using assms(1,2)
proof (cases rule: system_write_outcome)
  case kept
  then show ?thesis using idle service_step.idle by simp
next
  case (created d1)
  note w = written [OF created(1,2)]
  have "0 < dep_ID (drec_Deployment r)" using stored_bounds [OF assms(3), of "dep_ID (drec_Deployment r)"] w by simp
  then show ?thesis unfolding w by (rule service_step.new [where st = "stored (db_tables d)", OF created(4) _ _ refl]) (use created(5,6) in \<open>auto simp: identity_free_def\<close>)
next
  case (repaired cur)
  show ?thesis unfolding written [OF repaired(1,2)] by (rule service_step.changed [where st = "stored (db_tables d)", OF repaired(4) refl repaired(5)])
qed

lemma Create_refines:
  assumes "Create env [scheduler_trigger s now] actor at pre dep d = Inr (r, u, d')" "store_ok d" "dep_ID dep = 0"
  shows "store_ok d' \<and> service_step (counter CORE_DEPLOYMENT d) (stored (db_tables d)) (stored (db_tables d'))"
proof -
  let ?i = "counter CORE_DEPLOYMENT d"
  have wf: "tables_wf (db_tables d)" using assms(2) by (simp add: store_ok_def db_inv_def)
  from assms(1,2) obtain newDep where pre: "preLockValidateDeploymentCreate env at pre dep = Inr newDep"
    and v: "inLockValidateDeploymentCreate env (db_tables d) newDep = None"
    and r: "drec_Deployment r = newDep\<lparr>dep_ID := ?i\<rparr>" and new: "stored (db_tables d) ?i = None"
    and st: "stored (db_tables d') = (stored (db_tables d))(?i := Some (drec_Deployment r))" "store_ok d'"
    by (rule Create_effect)
  have id0: "dep_ID newDep = 0" using create_spec [OF pre] assms(3) by simp
  from v have dup: "validateNoDuplicateIdentity (ReadLiveState (db_tables d)) newDep = None"
    by (auto simp: inLockValidateDeploymentCreate_def Let_def split: if_splits)
  have "identity (drec_Deployment r) = identity newDep" by (simp add: r identity_def PlacementNodeID_def)
  then have free: "identity_free (stored (db_tables d)) ?i (drec_Deployment r)"
    using no_duplicate [OF wf dup] stored_bounds [OF assms(2)] id0 by (auto simp: identity_free_def)
  have pos: "0 < ?i" using stored_bounds [OF st(2), of ?i] st(1) by simp
  have "dep_ID (drec_Deployment r) = ?i" by (simp add: r)
  then show ?thesis unfolding st(1) using service_step.new [where st = "stored (db_tables d)", OF new pos order_refl _ free] st(2) by blast
qed

lemma Update_refines:
  assumes "Update env [scheduler_trigger s now] actor at pre existing req d = Inr (r, u, d')" "store_ok d" "dep_ID (drec_Deployment existing) = dur_DeploymentID req"
    and "\<forall>cur. stored (db_tables d) (dur_DeploymentID req) = Some cur \<longrightarrow> same_place cur (drec_Deployment existing)"
  shows "store_ok d' \<and> service_step (counter CORE_DEPLOYMENT d) (stored (db_tables d)) (stored (db_tables d'))"
  using assms
proof (cases rule: Update_outcome)
  case (moved cur dep)
  have "identity_free (stored (db_tables d)) (dur_DeploymentID req) dep" using moved(13) by (auto simp: identity_free_def)
  then show ?thesis using moved(1) service_step.moved [where st = "stored (db_tables d)", OF moved(3,5,6,7,10,11,12)] by (simp add: moved(4))
next
  case (changed cur dep)
  show ?thesis using changed(1) service_step.changed [where st = "stored (db_tables d)", OF changed(3,5,6)] by (simp add: changed(4))
qed (simp add: service_step.idle)

section \<open>Runs of the service\<close>

text \<open>
  The writes of the deployments service and the drain sweep, each with the scheduler's trigger registered, in
  any environment. The handler gives a create no id, and an update the record of the deployment it names as it was
  stored at some time: \<open>seen\<close> are the records that were. In a \<open>strict\<close> run the reservations are \<open>rs\<close> all the
  time and the record of an update is \<open>up_to_date\<close>.
\<close>

definition loadable :: "db \<Rightarrow> DeploymentRecord set" where
  "loadable d = {r. \<exists>i. GetLatestDeployment i (db_tables d) = Some r}"

inductive deploy_step :: "bool \<Rightarrow> Reservation list \<Rightarrow> DeploymentRecord set \<Rightarrow> db \<Rightarrow> db \<Rightarrow> bool" for strict rs seen where
  created: "Create env [scheduler_trigger s now] actor at pre dep d = Inr (r, u, d') \<Longrightarrow> dep_ID dep = 0 \<Longrightarrow> (strict \<longrightarrow> de_Reservations env = rs) \<Longrightarrow>
    deploy_step strict rs seen d d'"
| updated: "Update env [scheduler_trigger s now] actor at pre existing req d = Inr (r, u, d') \<Longrightarrow> existing \<in> seen \<Longrightarrow>
    dep_ID (drec_Deployment existing) = dur_DeploymentID req \<Longrightarrow> (strict \<longrightarrow> de_Reservations env = rs \<and> up_to_date (db_tables d) existing req) \<Longrightarrow>
    deploy_step strict rs seen d d'"
| deleted: "Delete env [scheduler_trigger s now] actor at i expectedSeq d = Inr (x, u, d') \<Longrightarrow> deploy_step strict rs seen d d'"
| system: "EnsureSystem [scheduler_trigger s now] nodeID version at d = Inr (r, u, d') \<Longrightarrow> deploy_step strict rs seen d d'"
| netproxy: "EnsureNetproxy [scheduler_trigger s now] nodeID version at d = Inr (r, u, d') \<Longrightarrow> deploy_step strict rs seen d d'"
| swept: "Sweep s at [scheduler_trigger s now] d = Inr (x, u, d') \<Longrightarrow> deploy_step strict rs seen d d'"

inductive deploy_run :: "bool \<Rightarrow> Reservation list \<Rightarrow> db \<Rightarrow> db \<Rightarrow> DeploymentRecord set \<Rightarrow> bool" for strict rs d0 where
  start: "deploy_run strict rs d0 d0 (loadable d0)"
| step: "deploy_run strict rs d0 d seen \<Longrightarrow> deploy_step strict rs seen d d' \<Longrightarrow> deploy_run strict rs d0 d' (seen \<union> loadable d')"

text \<open>What is known of a record that was once stored: its id is issued, and what is stored under it is in its place.\<close>

definition seen_ok :: "DeploymentRecord set \<Rightarrow> db \<Rightarrow> bool" where
  "seen_ok seen d \<longleftrightarrow> (\<forall>r \<in> seen. dep_ID (drec_Deployment r) < counter CORE_DEPLOYMENT d \<and>
    (\<forall>cur. stored (db_tables d) (dep_ID (drec_Deployment r)) = Some cur \<longrightarrow> same_place cur (drec_Deployment r)))"

lemma loadable_ok: "store_ok d \<Longrightarrow> seen_ok (loadable d) d"
proof -
  assume ok: "store_ok d"
  have "dep_ID (drec_Deployment r) < counter CORE_DEPLOYMENT d \<and> stored (db_tables d) (dep_ID (drec_Deployment r)) = Some (drec_Deployment r)"
    if "r \<in> loadable d" for r
  proof -
    from that obtain i where i: "stored (db_tables d) i = Some (drec_Deployment r)" by (auto simp: loadable_def stored_def)
    then show ?thesis using stored_ID [OF i] stored_bounds [OF ok i] by simp
  qed
  then show ?thesis by (auto simp: seen_ok_def same_place_def)
qed

lemma seen_place: "seen_ok seen d \<Longrightarrow> existing \<in> seen \<Longrightarrow> dep_ID (drec_Deployment existing) = i \<Longrightarrow>
    \<forall>cur. stored (db_tables d) i = Some cur \<longrightarrow> same_place cur (drec_Deployment existing)"
  by (auto simp: seen_ok_def)

lemma deploy_step_counter:
  assumes "deploy_step strict rs seen d d'" "store_ok d"
  shows "counter CORE_DEPLOYMENT d \<le> counter CORE_DEPLOYMENT d'"
proof -
  have inv: "db_inv d" using assms(2) by (simp add: store_ok_def)
  from assms(1) show ?thesis
  proof cases
    case (created env s now actor at pre dep r u)
    then show ?thesis using create.commit_inv(2) [OF _ inv] by (auto simp: Create_def split: sum.splits)
  next
    case (updated env s now actor at pre existing req r u)
    then show ?thesis using update.commit_inv(2) [OF _ inv] by (auto simp: Update_def split: sum.splits option.splits)
  next
    case (deleted env s now actor at i expectedSeq x u)
    then show ?thesis using delete.commit_inv(2) [OF _ inv] by (auto simp: Delete_def)
  next
    case (system s now nodeID version at r u)
    then show ?thesis using system.commit_inv(2) [OF _ inv] by (auto simp: EnsureSystem_def split: if_splits)
  next
    case (netproxy s now nodeID version at r u)
    then show ?thesis using netproxy.commit_inv(2) [OF _ inv] by (auto simp: EnsureNetproxy_def split: if_splits)
  next
    case (swept s at now x u)
    then show ?thesis using sweep.commit_inv(2) [OF _ inv] by (auto simp: Sweep_def)
  qed
qed

lemma deploy_step_refines:
  assumes "deploy_step strict rs seen d d'" "store_ok d" "seen_ok seen d"
  shows "store_ok d' \<and> service_step (counter CORE_DEPLOYMENT d) (stored (db_tables d)) (stored (db_tables d'))"
  using assms(1)
proof cases
  case (created env s now actor at pre dep r u)
  then show ?thesis using Create_refines assms(2) by blast
next
  case (updated env s now actor at pre existing req r u)
  then show ?thesis using Update_refines [OF updated(1) assms(2) updated(3)] seen_place [OF assms(3) updated(2,3)] by blast
next
  case (deleted env s now actor at i expectedSeq x u)
  note D = Delete_effect [OF deleted assms(2)]
  then show ?thesis using service_step.removed [where st = "stored (db_tables d)" and i = i] by (auto simp: D(3))
next
  case (system s now nodeID version at r u)
  then have c: "Commit [scheduler_trigger s now] (ensure_system_mutate nodeID (TrimSpace version) at) d = Inr (r, u, d')"
    by (simp add: EnsureSystem_def split: if_splits)
  from system.commit_ran [OF c] obtain t where t: "ensure_system_mutate nodeID (TrimSpace version) at d (db_global_seq d + 1) = Inr (r, t)" .
  note w = system.commit_written [OF c assms(2)] system.commit_idle [OF c assms(2)] and k = system.commit_store(1) [OF c assms(2)]
  show ?thesis using system_write_refines [OF ensure_system_form [OF t] assms(2) k] w t k by simp
next
  case (netproxy s now nodeID version at r u)
  then have c: "Commit [scheduler_trigger s now] (ensure_netproxy_mutate nodeID (TrimSpace version) at) d = Inr (r, u, d')"
    by (simp add: EnsureNetproxy_def split: if_splits)
  from netproxy.commit_ran [OF c] obtain t where t: "ensure_netproxy_mutate nodeID (TrimSpace version) at d (db_global_seq d + 1) = Inr (r, t)" .
  note w = netproxy.commit_written [OF c assms(2)] netproxy.commit_idle [OF c assms(2)] and k = netproxy.commit_store(1) [OF c assms(2)]
  show ?thesis using system_write_refines [OF ensure_netproxy_form [OF t] assms(2) k] w t k by simp
next
  case (swept s at now x u)
  show ?thesis using Sweep_keeps [OF swept assms(2)] service_step.idle by simp
qed

lemma deploy_step_seen:
  assumes "deploy_step strict rs seen d d'" "store_ok d" "seen_ok seen d"
  shows "seen_ok (seen \<union> loadable d') d'"
proof -
  note r = deploy_step_refines [OF assms] and c = deploy_step_counter [OF assms(1,2)]
  have "dep_ID (drec_Deployment x) < counter CORE_DEPLOYMENT d' \<and>
      (\<forall>cur. stored (db_tables d') (dep_ID (drec_Deployment x)) = Some cur \<longrightarrow> same_place cur (drec_Deployment x))" if "x \<in> seen" for x
  proof -
    have x: "dep_ID (drec_Deployment x) < counter CORE_DEPLOYMENT d"
      "\<And>cur. stored (db_tables d) (dep_ID (drec_Deployment x)) = Some cur \<Longrightarrow> same_place cur (drec_Deployment x)" using assms(3) that by (auto simp: seen_ok_def)
    have "same_place cur (drec_Deployment x)" if "stored (db_tables d') (dep_ID (drec_Deployment x)) = Some cur" for cur
      using service_step_place [OF conjunct2 [OF r] x(1) that] x(2) by (auto simp: same_place_def)
    then show ?thesis using x(1) c by simp
  qed
  then show ?thesis using loadable_ok [of d'] r unfolding seen_ok_def by blast
qed

lemma deploy_run_ok:
  assumes "deploy_run strict rs d0 d seen" "store_ok d0"
  shows "store_ok d \<and> seen_ok seen d"
  using assms
proof (induction rule: deploy_run.induct)
  case start
  then show ?case using loadable_ok by blast
next
  case (step d seen d')
  then show ?case using deploy_step_refines deploy_step_seen by blast
qed

lemma deploy_run_unique:
  assumes "deploy_run strict rs d0 d seen" "store_ok d0" "unique_identities (stored (db_tables d0))"
  shows "unique_identities (stored (db_tables d))"
  using assms
proof (induction rule: deploy_run.induct)
  case (step d seen d')
  then show ?case using deploy_step_refines [OF step.hyps(2)] deploy_run_ok [OF step.hyps(1)] service_step_unique by blast
qed

lemma deploy_step_keeps:
  assumes "deploy_step True rs seen d d'" "seen_ok seen d" "deployments_ok rs d"
  shows "deployments_ok rs d'"
  using assms(1)
proof cases
  case (created env s now actor at pre dep r u)
  then show ?thesis using Create_keeps assms(3) by blast
next
  case (updated env s now actor at pre existing req r u)
  then show ?thesis using Update_keeps [OF updated(1) _ updated(3)] seen_place [OF assms(2) updated(2,3)] assms(3) by blast
next
  case (swept s at now x u)
  have "store_ok d" using assms(3) by (simp add: deployments_ok_def)
  note k = Sweep_keeps [OF swept this]
  show ?thesis by (rule deployments_ok_same [OF assms(3)]) (use k in \<open>auto intro: node_ids_nodes\<close>)
qed (use assms(3) in \<open>blast intro: Delete_keeps EnsureSystem_keeps EnsureNetproxy_keeps\<close>)+

lemma deploy_run_keeps:
  assumes "deploy_run True rs d0 d seen" "deployments_ok rs d0"
  shows "deployments_ok rs d"
  using assms
proof (induction rule: deploy_run.induct)
  case (step d seen d')
  have "store_ok d0" using step.prems by (simp add: deployments_ok_def)
  then show ?case using deploy_step_keeps [OF step.hyps(2)] deploy_run_ok [OF step.hyps(1)] step.IH step.prems by blast
qed

text \<open>A primary that registers its own deployment succeeds; in an empty store this is the run the properties are applied to.\<close>

lemma EnsureSystem_total:
  assumes "store_ok d" "0 < nodeID" "TrimSpace version \<noteq> []" "0 < counter CORE_DEPLOYMENT d" "counter CORE_DEPLOYMENT d \<le> 16777215"
  obtains r u d' where "EnsureSystem [scheduler_trigger s now] nodeID version at d = Inr (r, u, d')" "IsSelfSpec (dep_Spec (drec_Deployment r))"
    "DeploymentKeyMatches (drec_Deployment r) nodeID internal_SpaceID SelfName" "stored (db_tables d') (dep_ID (drec_Deployment r)) = Some (drec_Deployment r)"
proof -
  let ?mutate = "ensure_system_mutate nodeID (TrimSpace version) at"
  from ensure_system_runs [OF assms(1)] obtain r t where t: "?mutate d (db_global_seq d + 1) = Inr (r, t)"
    and r: "IsSelfSpec (dep_Spec (drec_Deployment r))" "DeploymentKeyMatches (drec_Deployment r) nodeID internal_SpaceID SelfName"
    and w: "t = wrote d empty_update \<and> stored (db_tables d) (dep_ID (drec_Deployment r)) = Some (drec_Deployment r) \<or>
      (\<exists>d1. t = wrote d1 (NewUpdate [DeploymentMutation r])) \<and> \<not> meta_Deleted (drec_Meta r)" .
  have "\<not> meta_Deleted (drec_Meta r')" if "t = wrote d2 (NewUpdate [DeploymentMutation r'])" for d2 r'
    using w that no_mutation [of d2 r' d] one_mutation [of d2 r' _ r] by metis
  with system.write_commits [OF assms(1) t assms(4,5)] obtain u d' where c: "Commit [scheduler_trigger s now] ?mutate d = Inr (r, u, d')" by blast
  have "stored (db_tables d') (dep_ID (drec_Deployment r)) = Some (drec_Deployment r)"
    using w
  proof
    assume "t = wrote d empty_update \<and> stored (db_tables d) (dep_ID (drec_Deployment r)) = Some (drec_Deployment r)"
    then show ?thesis using system.commit_idle [OF c assms(1)] t by simp
  next
    assume "(\<exists>d1. t = wrote d1 (NewUpdate [DeploymentMutation r])) \<and> \<not> meta_Deleted (drec_Meta r)"
    then show ?thesis using system.commit_written [OF c assms(1)] t by auto
  qed
  moreover have "EnsureSystem [scheduler_trigger s now] nodeID version at d = Inr (r, u, d')" using c assms(2,3) by (simp add: EnsureSystem_def)
  ultimately show ?thesis using that r by blast
qed

lemma empty_store_ok: "store_ok empty_db" "stored (db_tables empty_db) = (\<lambda>_. None)" "counter CORE_DEPLOYMENT empty_db = 1"
  by (auto simp: store_ok_def versions_ok_def empty_db_def empty_tables_def db_inv_def tables_wf_def pins_ok_def entity_keys_def counter_def tbl_wf_def
      stored_def GetLatestDeployment_def fun_eq_iff)

lemma first_run:
  obtains r u d' where "EnsureSystem [scheduler_trigger sample_scheduler 5] 1 ''v1'' 5 empty_db = Inr (r, u, d')"
    "stored (db_tables d') (dep_ID (drec_Deployment r)) = Some (drec_Deployment r)"
proof -
  have "TrimSpace ''v1'' \<noteq> []" by code_simp
  then show ?thesis using EnsureSystem_total [OF empty_store_ok(1), of 1 "''v1''" sample_scheduler 5 5] empty_store_ok(3) that by fastforce
qed

lemma empty_plan: "res_Errors (Evaluate (ingressPlanInputs (ReadLiveState (db_tables empty_db)) [] 0 0 None)) = []"
  by code_simp

text \<open>
  C36. The stored deployments stay consistent. In no run of creates, updates, deletes, system deployment writes and
  scheduler sweeps from a consistent store do two stored deployments have the same node, space and name, although an
  update may start from a record of its deployment that is long outdated. If all the time the reservations are the
  same and each update starts from a record with the stored space, and for a move with the stored networking, then
  moreover an ingress plan without errors stays one: no claim on a forwarded port and no two colliding claims
  among all stored deployments together, although each write checked its own claims only, under a
  provisional id, against the state before it. The code does not enforce this for an update without an
  \<open>expected_seq\<close>.
\<close>

theorem deployments_stay_consistent:
  assumes "deploy_run strict rs d0 d seen" "store_ok d0" "unique_identities (stored (db_tables d0))"
  shows "store_ok d \<and> unique_identities (stored (db_tables d)) \<and>
    (strict \<longrightarrow> res_Errors (Evaluate (ingressPlanInputs (ReadLiveState (db_tables d0)) rs 0 0 None)) = [] \<longrightarrow>
      res_Errors (Evaluate (ingressPlanInputs (ReadLiveState (db_tables d)) rs 0 0 None)) = [])"
proof (intro conjI impI)
  show "store_ok d" "unique_identities (stored (db_tables d))" using deploy_run_ok [OF assms(1,2)] deploy_run_unique [OF assms] by simp_all
  assume s: strict and plan: "res_Errors (Evaluate (ingressPlanInputs (ReadLiveState (db_tables d0)) rs 0 0 None)) = []"
  have wf: "tables_wf (db_tables e)" if "store_ok e" for e using that by (simp add: store_ok_def db_inv_def)
  have "deployments_ok rs d0" using assms(2,3) plan wf by (simp add: deployments_ok_def stored_plan)
  with assms(1) s have "deployments_ok rs d" using deploy_run_keeps by simp
  then show "res_Errors (Evaluate (ingressPlanInputs (ReadLiveState (db_tables d)) rs 0 0 None)) = []" using wf by (simp add: deployments_ok_def stored_plan)
qed

theorem deployments_stay_consistent_witness:
  "\<exists>d seen. deploy_run True [] empty_db d seen \<and> stored (db_tables d) \<noteq> (\<lambda>_. None) \<and> store_ok d \<and> unique_identities (stored (db_tables d)) \<and>
     res_Errors (Evaluate (ingressPlanInputs (ReadLiveState (db_tables d)) [] 0 0 None)) = []"
proof -
  obtain r u d where run: "EnsureSystem [scheduler_trigger sample_scheduler 5] 1 ''v1'' 5 empty_db = Inr (r, u, d)"
    "stored (db_tables d) (dep_ID (drec_Deployment r)) = Some (drec_Deployment r)" by (rule first_run)
  note steps = deploy_run.step [OF deploy_run.start [where strict = True and rs = "[]"] deploy_step.system [OF run(1)]]
  have "unique_identities (stored (db_tables empty_db))" by (simp add: empty_store_ok unique_identities_def)
  from deployments_stay_consistent [OF steps empty_store_ok(1) this] empty_plan run(2) steps show ?thesis by force
qed

text \<open>
  C38. The primary can always register itself. On every consistent store with deployment ids left,
  \<open>EnsureSystem\<close> for a node and a version that is not blank returns without an error, whatever spec the node's
  own deployment was stored with: afterwards the record it returns is stored, under the system's identity on that
  node, with the spec the primary runs. The id bound is the one of the table's constraint.
\<close>

theorem EnsureSystem_registers:
  assumes "store_ok d" "0 < nodeID" "TrimSpace version \<noteq> []" "0 < counter CORE_DEPLOYMENT d" "counter CORE_DEPLOYMENT d \<le> 16777215"
  shows "\<exists>r u d'. EnsureSystem [scheduler_trigger s now] nodeID version at d = Inr (r, u, d') \<and> store_ok d' \<and>
    stored (db_tables d') (dep_ID (drec_Deployment r)) = Some (drec_Deployment r) \<and>
    DeploymentKeyMatches (drec_Deployment r) nodeID internal_SpaceID SelfName \<and> IsSelfSpec (dep_Spec (drec_Deployment r))"
proof -
  from EnsureSystem_total [OF assms] obtain r u d' where run: "EnsureSystem [scheduler_trigger s now] nodeID version at d = Inr (r, u, d')"
    "IsSelfSpec (dep_Spec (drec_Deployment r))" "DeploymentKeyMatches (drec_Deployment r) nodeID internal_SpaceID SelfName"
    "stored (db_tables d') (dep_ID (drec_Deployment r)) = Some (drec_Deployment r)" by metis
  from run(1) have "store_ok d'" using system.commit_store(1) [OF _ assms(1)] by (auto simp: EnsureSystem_def split: if_splits)
  with run show ?thesis by blast
qed

theorem EnsureSystem_registers_witness:
  "\<exists>r u d'. EnsureSystem [scheduler_trigger sample_scheduler 5] 1 ''v1'' 5 empty_db = Inr (r, u, d') \<and>
     stored (db_tables d') (dep_ID (drec_Deployment r)) = Some (drec_Deployment r) \<and> dep_Name (drec_Deployment r) = SelfName"
proof -
  have "TrimSpace ''v1'' \<noteq> []" by code_simp
  from EnsureSystem_registers [OF empty_store_ok(1), of 1 "''v1''" sample_scheduler 5 5] this empty_store_ok(3)
  show ?thesis by (auto simp: DeploymentKeyMatches_def)
qed

text \<open>
  C37. The service implements a map from ids to deployments. Whatever a create, update, delete, system
  deployment write or sweep of a run does to the tables, the log, the version history and the placements, what it
  does to the stored deployments is one step of the abstract service: nothing; an id that was never issued with an identity
  nobody has; a change that keeps node, space and name; a move of a deployment that is not the system's to a user's space in
  which its identity is free; or a removal. This holds also for an update that starts from an outdated record of its
  deployment, any that was stored earlier in the run. The write leaves a store on which the next one can rely and
  takes no id back.
\<close>

theorem deployments_refine_service:
  assumes "deploy_run strict rs d0 d seen" "deploy_step strict rs seen d d'" "store_ok d0"
  shows "store_ok d' \<and> counter CORE_DEPLOYMENT d \<le> counter CORE_DEPLOYMENT d' \<and>
    service_step (counter CORE_DEPLOYMENT d) (stored (db_tables d)) (stored (db_tables d'))"
  using deploy_run_ok [OF assms(1,3)] deploy_step_refines [OF assms(2)] deploy_step_counter [OF assms(2)] by blast

theorem deployments_refine_service_witness:
  "\<exists>d. deploy_step False [] (loadable empty_db) empty_db d \<and> service_step 1 (\<lambda>_. None) (stored (db_tables d)) \<and> stored (db_tables d) \<noteq> (\<lambda>_. None)"
proof -
  obtain r u d where run: "EnsureSystem [scheduler_trigger sample_scheduler 5] 1 ''v1'' 5 empty_db = Inr (r, u, d)"
    "stored (db_tables d) (dep_ID (drec_Deployment r)) = Some (drec_Deployment r)" by (rule first_run)
  have step: "deploy_step False [] (loadable empty_db) empty_db d" by (rule deploy_step.system [OF run(1)])
  from deployments_refine_service [OF deploy_run.start step empty_store_ok(1)] run(2) step empty_store_ok(2,3) show ?thesis by force
qed

end
