(* ===== verification/Deploy_Stale.thy ===== *)
theory Deploy_Stale
  imports Deploy_Reach
begin

text \<open>
  A move that starts from an outdated record. On node 1, \<open>web\<close> gave up its route for the host name \<open>a\<close> and
  \<open>shop\<close> took it; a request that loaded \<open>web\<close> before moves it to another space.
\<close>

definition race_spec :: "Ingress list \<Rightarrow> DeploymentSpec" where
  "race_spec routes = \<lparr>ds_Container = Some \<lparr>cs_Source = Some (RemoteImage ''img''), cs_Runtime = zero_runtime, cs_Version = ''1'',
       cs_UpgradeStrategy = CONTAINER_UPGRADE_STRATEGY_RECREATE, cs_ReadinessSignal = None\<rparr>,
     ds_Networking = \<lparr>nc_Mode = NETWORKING_MODE_VIRTUAL, nc_PortForwarding = [], nc_Ingress = routes\<rparr>\<rparr>"

definition race_route :: Ingress where
  "race_route = \<lparr>in_Hostname = ''a'', in_Listen = [], in_Config = Some (Https \<lparr>hc_ContainerPort = 80, hc_PathPrefix = ''/'', hc_StripPrefix = False,
     hc_BackendProtocol = 1, hc_MaxRequestBodyBytes = absent 0, hc_FlushIntervalMs = absent 0, hc_CertSource = None\<rparr>)\<rparr>"

definition race_deployment :: "nat \<Rightarrow> string \<Rightarrow> Ingress list \<Rightarrow> Deployment" where
  "race_deployment i name routes = \<lparr>dep_ID = i, dep_Name = name, dep_SpaceID = 2, dep_Spec = race_spec routes,
     dep_Scheduling = \<lparr>sch_Running = True, sch_DedicatedNodes = Some [1], sch_RestartGeneration = 0\<rparr>\<rparr>"

definition race_row :: "int \<Rightarrow> 'a \<Rightarrow> 'a row" where
  "race_row seq x = \<lparr>row_value = x, row_seq = seq, row_event_time = 0, row_author = 0, row_created_time = 0\<rparr>"

definition race_node :: NodeRow where
  "race_node = \<lparr>nrow_Name = ''node'', nrow_Identifier = ''node'', nrow_Status = 4, nrow_Roles = [], nrow_AllowedSpaces = [2, 3], nrow_EnrolledTime = 0,
     nrow_EnrollmentRequestedAt = 0, nrow_UnderlayAddress = None, nrow_WgPublicKey = ''key'', nrow_HostAddresses = [], nrow_HostAddressesUnknown = False\<rparr>"

definition race_store :: db where
  "race_store = empty_db\<lparr>db_global_seq := 3, db_entity_ids := [(CORE_DEPLOYMENT, 3)], db_tables := empty_tables\<lparr>
     deployments := [(1, race_row 2 \<lparr>dr_SpaceID = 2, dr_Name = ''web'', dr_Version = 2, dr_SpecVersion = 2\<rparr>),
       (2, race_row 3 \<lparr>dr_SpaceID = 2, dr_Name = ''shop'', dr_Version = 1, dr_SpecVersion = 1\<rparr>)],
     deployment_versions := [((1, 2), race_row 2 \<lparr>dvr_SpecVersion = 2, dvr_Value = race_deployment 1 ''web'' []\<rparr>),
       ((2, 1), race_row 3 \<lparr>dvr_SpecVersion = 1, dvr_Value = race_deployment 2 ''shop'' [race_route]\<rparr>)],
     nodes := [(1, race_row 0 race_node)]\<rparr>\<rparr>"

definition race_loaded :: DeploymentRecord where
  "race_loaded = deployment_record 1 1 (race_row 1 \<lparr>dvr_SpecVersion = 1, dvr_Value = race_deployment 1 ''web'' [race_route]\<rparr>)"

definition race_move :: "int \<Rightarrow> DeploymentUpdateRequest" where
  "race_move expectedSeq = \<lparr>dur_DeploymentID = 1, dur_ExpectedSeq = expectedSeq, dur_Update = Some (AssignedSpace 3)\<rparr>"

lemma race_store_ok: "store_ok race_store"
  by (auto simp: store_ok_def versions_ok_def race_store_def race_row_def empty_db_def empty_tables_def db_inv_def tables_wf_def pins_ok_def entity_keys_def counter_def tbl_wf_def split: if_splits)

lemma race_before: "res_Errors (Evaluate (ingressPlanInputs (ReadLiveState (db_tables race_store)) [] 0 0 None)) = []"
  by code_simp

definition race_web :: Deployment where
  "race_web = race_deployment 1 ''web'' [race_route]"

lemma race_web_fields: "drec_Deployment race_loaded = race_web" "dep_Spec race_web = race_spec [race_route]" "sch_Running (dep_Scheduling race_web)" "dep_ID race_web = 1"
  by (simp_all add: race_web_def race_loaded_def deployment_record_def race_row_def race_deployment_def)

lemma race_schema: "DeploymentSpec_validate (race_spec [race_route]) = None"
proof -
  have "Ingress_validate race_route = None"
    by (simp add: race_route_def Ingress_validate_def IngressConfig_validate_def HttpsConfig_validate_def port_range_def at_least_1_def wrapValidationError_def check_each_def
        at_least_1_if_set_def enum_field_def absent_def)
  then show ?thesis
    by (simp add: race_spec_def DeploymentSpec_validate_def Workload_validate_def ContainerSpec_validate_def ContainerSource_validate_def ContainerRuntime_validate_def
        zero_runtime_def NetworkingConfig_validate_def wrapValidationError_def check_each_def at_least_1_if_set_def enum_field_def absent_def
        CONTAINER_UPGRADE_STRATEGY_RECREATE_def NETWORKING_MODE_VIRTUAL_def)
qed

lemma race_web_moved: "validateDeployment (race_web\<lparr>dep_SpaceID := 3\<rparr>) = None"
  by (simp add: validateDeployment_def validateScheduling_def race_web_def race_deployment_def MaxSpaceID_def SpaceBits_def validateNixWorkloadVersion_def race_spec_def nixSource_def)

definition race_updated :: DeploymentRecord where
  "race_updated = race_loaded\<lparr>drec_Deployment := race_web\<lparr>dep_SpaceID := 3\<rparr>\<rparr>"

lemma race_prepared:
  "bindE (cloneDeployment race_loaded) (\<lambda>copy. bindE (apply_change copy (Some (AssignedSpace 3))) (preLockValidateDeploymentUpdate env at pre race_loaded (race_move n))) = Inr race_updated"
proof -
  have nix: "nixSource (race_spec [race_route]) = None" "WorkloadVersion (race_spec [race_route]) \<noteq> []" by (simp_all add: race_spec_def nixSource_def WorkloadVersion_def)
  have clone: "cloneDeployment race_loaded = Inr race_loaded" by (simp add: cloneDeployment_def cloneDeploymentSpec_def with_spec_def race_web_fields race_schema)
  have fields: "WorkloadRunning race_updated" "dep_Spec (drec_Deployment race_updated) = race_spec [race_route]" "PlacementNodeID (drec_Deployment race_updated) = PlacementNodeID race_web"
    "drec_Deployment race_updated = race_web\<lparr>dep_SpaceID := 3\<rparr>"
    by (simp_all add: race_updated_def WorkloadRunning_def race_web_fields PlacementNodeID_def)
  have "apply_change race_loaded (Some (AssignedSpace 3)) = Inr race_updated" by (simp add: apply_change_def race_updated_def race_web_fields)
  moreover have "preLockValidateDeploymentUpdate env at pre race_loaded (race_move n) race_updated = Inr race_updated"
    using nix fields race_web_moved by (simp add: preLockValidateDeploymentUpdate_def race_move_def race_web_fields fails_def)
  ultimately show ?thesis by (simp add: clone)
qed

definition race_current :: DeploymentRecord where
  "race_current = deployment_record 1 2 (race_row 2 \<lparr>dvr_SpecVersion = 2, dvr_Value = race_deployment 1 ''web'' []\<rparr>)"

lemma race_live: "live_deployment (ReadLiveState (db_tables race_store)) 1 = Some race_current" "GetLatestDeployment 1 (db_tables race_store) = Some race_current"
  by code_simp+

lemma race_move_valid: "validate_move (ReadLiveState (db_tables race_store)) race_current (drec_Deployment race_updated) = None"
proof -
  let ?lv = "ReadLiveState (db_tables race_store)" and ?def = "drec_Deployment race_updated"
  have "\<not> IsInternalConfig race_current" "dep_SpaceID (drec_Deployment race_current) = 2" "dep_SpaceID ?def = 3" "validateNoDuplicateIdentity ?lv ?def = None"
    "validateNodeAllowsSpace ?lv (PlacementNodeID ?def) 3 = None" "\<not> UsesAddressID ?lv [dep_ID (drec_Deployment race_current)]"
    "\<not> ReferencesOutsideSpace ?lv [dep_ID (drec_Deployment race_current)] CrossDeploymentMountSourceIDs 3" by code_simp+
  then show ?thesis by (simp add: validate_move_def MaxSpaceID_def SpaceBits_def)
qed

lemma race_validated: "inLockValidateDeploymentUpdate env (db_tables race_store) race_updated 0 = None"
proof -
  let ?lv = "ReadLiveState (db_tables race_store)" and ?def = "drec_Deployment race_updated"
  have "validateNodeNotDraining ?lv ?def (Some race_current) = None" "validate_references env (db_tables race_store) ?lv ?def = None"
    "dep_SpaceID (drec_Deployment race_current) \<noteq> dep_SpaceID ?def" "dep_ID ?def = 1" "\<not> Deleted race_current" by code_simp+
  then show ?thesis using race_live(1) race_move_valid by (simp add: inLockValidateDeploymentUpdate_def changed_since_def)
qed

lemma race_written:
  obtains r where "update_mutate env actor at (race_move 0) race_updated race_store seq = Inr (r, wrote race_store (NewUpdate [DeploymentMutation r]))"
    "drec_Deployment r = race_web\<lparr>dep_SpaceID := 3\<rparr>" "\<not> meta_Deleted (drec_Meta r)"
proof -
  have "drec_Deployment race_updated = race_web\<lparr>dep_SpaceID := 3\<rparr>" by (simp add: race_updated_def)
  moreover have "dep_SpaceID (drec_Deployment race_current) = 2" by (simp add: race_current_def race_deployment_def deployment_record_def race_row_def)
  ultimately have "\<exists>r. DeploymentUpdateRecord actor 1 seq at (drec_Deployment race_updated) (db_tables race_store) = Inr (Some r)"
    using race_live(2) by (simp add: DeploymentUpdateRecord_def BuildDeploymentUpdateRecord_def Let_def)
  then obtain r where r: "DeploymentUpdateRecord actor 1 seq at (drec_Deployment race_updated) (db_tables race_store) = Inr (Some r)" by blast
  from r have "drec_Deployment r = (drec_Deployment race_updated)\<lparr>dep_ID := 1\<rparr> \<and> \<not> meta_Deleted (drec_Meta r)" by (rule DeploymentUpdateRecord_form) simp
  moreover have "race_web\<lparr>dep_SpaceID := 3, dep_ID := 1\<rparr> = race_web\<lparr>dep_SpaceID := 3\<rparr>" by (simp add: race_web_def race_deployment_def)
  ultimately have "drec_Deployment r = race_web\<lparr>dep_SpaceID := 3\<rparr>" "\<not> meta_Deleted (drec_Meta r)" by (simp_all add: race_updated_def)
  then show ?thesis using that r race_validated [of env] by (simp add: update_mutate_def race_move_def)
qed

definition race_claim :: "Deployment \<Rightarrow> claim" where
  "race_claim d = hd (expand (planned d) (hd (pd_Routes (planned d))) [1] None)"

lemma race_collision:
  "race_claim (race_web\<lparr>dep_SpaceID := 3\<rparr>) \<in> claims {planned (race_web\<lparr>dep_SpaceID := 3\<rparr>)} [1]"
  "race_claim (race_deployment 2 ''shop'' [race_route]) \<in> claims {planned (race_deployment 2 ''shop'' [race_route])} [1]"
  "collides (race_claim (race_web\<lparr>dep_SpaceID := 3\<rparr>)) (race_claim (race_deployment 2 ''shop'' [race_route]))"
  unfolding claims_def by code_simp+

lemma race_broken:
  assumes "store_ok d'" "node_ids (db_tables d') = node_ids (db_tables race_store)"
    and "stored (db_tables d') = (stored (db_tables race_store))(1 := Some (race_web\<lparr>dep_SpaceID := 3\<rparr>))"
  shows "res_Errors (Evaluate (ingressPlanInputs (ReadLiveState (db_tables d')) [] 0 0 None)) \<noteq> []"
proof
  let ?web = "race_web\<lparr>dep_SpaceID := 3\<rparr>" and ?shop = "race_deployment 2 ''shop'' [race_route]"
  assume "res_Errors (Evaluate (ingressPlanInputs (ReadLiveState (db_tables d')) [] 0 0 None)) = []"
  moreover have "tables_wf (db_tables d')" using assms(1) by (simp add: store_ok_def db_inv_def)
  moreover have "node_ids (db_tables d') = [1]" unfolding assms(2) by code_simp
  ultimately have fine: "plan_fine [] [1] (public_plan (db_tables d') 0)" by (simp add: stored_plan)
  have "stored (db_tables race_store) 2 = Some ?shop" by code_simp
  then have "stored (db_tables d') 1 = Some ?web" "stored (db_tables d') 2 = Some ?shop" unfolding assms(3) by simp_all
  then have "?web \<in> ran (stored (db_tables d'))" "?shop \<in> ran (stored (db_tables d'))" using ranI by metis+
  moreover have "dep_ID ?web \<noteq> 0" "\<not> internal ?web" "dep_ID ?shop \<noteq> 0" "\<not> internal ?shop" by code_simp+
  ultimately have "planned ?web \<in> public_plan (db_tables d') 0" "planned ?shop \<in> public_plan (db_tables d') 0" unfolding public_plan_def by blast+
  then have "race_claim ?web \<in> claims (public_plan (db_tables d') 0) [1]" "race_claim ?shop \<in> claims (public_plan (db_tables d') 0) [1]"
    using race_collision(1,2) unfolding claims_def by blast+
  moreover have "\<not> blocked [] c" for c by (simp add: blocked_def matchReservation_def)
  ultimately show False using fine race_collision(3) unfolding plan_fine_def by blast
qed

text \<open>
  C40. A move from an outdated record breaks the ingress plan. \<open>web\<close> was loaded with a route for the host name
  \<open>a\<close>; since then it gave the route up and \<open>shop\<close> on the same node took it, and the plan of the store has no error.
  A move of the loaded record to a space the node allows succeeds without an \<open>expected_seq\<close>, in every environment:
  the branch for moves does not check claims, and afterwards the stored deployments collide. With the sequence
  of the loaded record as \<open>expected_seq\<close> the same request is refused.
\<close>

theorem stale_move_breaks_plan:
  "store_ok race_store \<and> res_Errors (Evaluate (ingressPlanInputs (ReadLiveState (db_tables race_store)) [] 0 0 None)) = [] \<and>
   (\<exists>r u d'. Update env [scheduler_trigger s now] actor at pre race_loaded (race_move 0) race_store = Inr (r, u, d') \<and> store_ok d' \<and>
      res_Errors (Evaluate (ingressPlanInputs (ReadLiveState (db_tables d')) [] 0 0 None)) \<noteq> []) \<and>
   (\<exists>e. Update env [scheduler_trigger s now] actor at pre race_loaded (race_move (meta_UpdatedSeq (drec_Meta race_loaded))) race_store = Inl e)"
proof (intro conjI)
  obtain r where r: "update_mutate env actor at (race_move 0) race_updated race_store (db_global_seq race_store + 1) = Inr (r, wrote race_store (NewUpdate [DeploymentMutation r]))"
    "drec_Deployment r = race_web\<lparr>dep_SpaceID := 3\<rparr>" "\<not> meta_Deleted (drec_Meta r)" by (rule race_written)
  have count: "counter CORE_DEPLOYMENT race_store = 3" by code_simp
  have "\<not> meta_Deleted (drec_Meta r')" if "wrote race_store (NewUpdate [DeploymentMutation r]) = wrote d1 (NewUpdate [DeploymentMutation r'])" for d1 r'
    using one_mutation [OF that] r(3) by simp
  with update.write_commits [OF race_store_ok r(1), of s now] count
  obtain u d' where c: "Commit [scheduler_trigger s now] (update_mutate env actor at (race_move 0) race_updated) race_store = Inr (r, u, d')" by auto
  have fields: "dur_ExpectedSeq (race_move n) = n" "dur_Update (race_move n) = Some (AssignedSpace 3)" for n by (simp_all add: race_move_def)
  have "Update env [scheduler_trigger s now] actor at pre race_loaded (race_move 0) race_store = Inr (r, u, d')"
    using c race_prepared by (simp add: Update_def changed_since_def fields)
  moreover note k = update.commit_store [OF c race_store_ok]
  moreover have "stored (db_tables d') = (stored (db_tables race_store))(1 := Some (race_web\<lparr>dep_SpaceID := 3\<rparr>))"
    using update.commit_written [OF c race_store_ok r(1)] r(2,3) by (simp add: race_web_fields)
  ultimately show "\<exists>r u d'. Update env [scheduler_trigger s now] actor at pre race_loaded (race_move 0) race_store = Inr (r, u, d') \<and> store_ok d' \<and>
      res_Errors (Evaluate (ingressPlanInputs (ReadLiveState (db_tables d')) [] 0 0 None)) \<noteq> []" using race_broken by blast
  let ?n = "meta_UpdatedSeq (drec_Meta race_loaded)"
  have "changed_since race_loaded ?n = None" by (simp add: changed_since_def)
  moreover have "inLockValidateDeploymentUpdate env (db_tables race_store) race_updated ?n \<noteq> None"
  proof -
    have "changed_since race_current ?n \<noteq> None" "dep_ID (drec_Deployment race_updated) = 1" by code_simp+
    then show ?thesis using race_live(1) by (auto simp: inLockValidateDeploymentUpdate_def Let_def)
  qed
  ultimately show "\<exists>e. Update env [scheduler_trigger s now] actor at pre race_loaded (race_move ?n) race_store = Inl e"
    using race_prepared by (auto simp: Update_def fields Commit_def update_mutate_def split: option.splits)
qed (rule race_store_ok race_before)+

end
