(* ===== verification/Publisher_Render.thy ===== *)
theory Publisher_Render
  imports Deploy_Service
begin

text \<open>
  The network map of a node, \<open>backend/app/primary/nodepublisher\<close>: \<open>render.go\<close> turns the live instances,
  the policies and the nodes into a render context and the context into one map per node, \<open>scope.go\<close>
  decides what a node has to know. The loop of \<open>prepareRender\<close> over the instances is split into what it
  collects: placements, services, established ordinals. The index maps of the context (\<open>byNode\<close>,
  \<open>bySpace\<close>, \<open>byDeployment\<close>, \<open>out\<close>, \<open>in\<close>) are functions of its slices; a set of indices or ids is a set.
  What the code panics on is the left of a sum.
\<close>

datatype panic = NoAddress nat | NilPointer

section \<open>Inputs\<close>

text \<open>The status of an instance state is not read here.\<close>

record ScheduledInstanceState =
  ss_Instance :: ScheduledInstance
  ss_Config :: DeploymentRecord

record renderInputs =
  ri_nodes :: "Node list"
  ri_instances :: "ScheduledInstanceState list"
  ri_deployments :: "DeploymentRecord list"
  ri_policies :: "NetworkPolicy list"
  ri_deploymentSpaces :: "(nat, nat) table"

definition systemSpaceID :: nat where "systemSpaceID = 0"
definition globalSpaceID :: nat where "globalSpaceID = 1"
definition DefaultWGListenPort :: nat where "DefaultWGListenPort = 51833"

section \<open>The ingress plan\<close>

record IngressPublish =
  ipub_Address :: string
  ipub_Port :: nat

record ingressPlan =
  ip_publish :: "(nat, IngressPublish list) table"
  ip_published :: "(nat, nat list) table"
  ip_diagnostics :: "Diagnostic list"

text \<open>Reading a slice from a Go map: the empty slice when the key is missing.\<close>

definition slice_at :: "('k, 'v list) table \<Rightarrow> 'k \<Rightarrow> 'v list" where
  "slice_at t k = (case tbl_get t k of None \<Rightarrow> [] | Some v \<Rightarrow> v)"

definition publish_plan :: "renderInputs \<Rightarrow> PlanResult" where
  "publish_plan inputs = Evaluate
    \<lparr>pi_Deployments = map (\<lambda>cfg. let d = drec_Deployment cfg in DeploymentFromSpec (dep_ID d) (PlacementNodeID d) (dep_Name d) (dep_Spec d))
       (filter (\<lambda>cfg. \<not> IsInternalConfig cfg) (ri_deployments inputs)),
     pi_Nodes = map (\<lambda>n. \<lparr>pn_ID = node_ID n, pn_HostAddresses = HostAddresses (nr_HostAddresses (node_Reported n))\<rparr>) (ri_nodes inputs),
     pi_Reservations = [], pi_Candidate = 0, pi_Reachable = None\<rparr>"

definition publish_entry :: "PlanPublish \<Rightarrow> IngressPublish" where
  "publish_entry e = \<lparr>ipub_Address = (if pub_Address e = NoAddr then [] else addr_text (pub_Address e)), ipub_Port = pub_Port e\<rparr>"

text \<open>The result maps have the nodes with an entry as their keys; claims are on nodes of the input only.\<close>

definition renderIngressPlan :: "renderInputs \<Rightarrow> ingressPlan" where
  "renderIngressPlan inputs =
    (let result = publish_plan inputs; ids = map node_ID (ri_nodes inputs) in
     \<lparr>ip_publish = map (\<lambda>n. (n, map publish_entry (res_Publish result n))) (filter (\<lambda>n. res_Publish result n \<noteq> []) ids),
      ip_published = map (\<lambda>n. (n, res_PublishedDeployments result n)) (filter (\<lambda>n. res_PublishedDeployments result n \<noteq> []) ids),
      ip_diagnostics = sort_key (\<lambda>d. (dg_DeploymentID d, dg_Message d)) (Diagnostics result @ res_Errors result)\<rparr>)"

section \<open>Policy rules\<close>

definition NETWORK_POLICY_ACTION_ALLOW :: int where "NETWORK_POLICY_ACTION_ALLOW = 1"

text \<open>The inner option is the \<open>ok\<close> of the code; a peer with no target is a nil dereference.\<close>

definition resolvePolicyPeer :: "NetworkPolicyPeer option \<Rightarrow> (nat, nat) table \<Rightarrow> panic + NetPolicyPeer option" where
  "resolvePolicyPeer peer deploymentSpaces =
    (case peer of
       None \<Rightarrow> Inl NilPointer
     | Some (SpacePeer space) \<Rightarrow> Inr (Some \<lparr>npp_SpaceID = space, npp_DeploymentID = 0\<rparr>)
     | Some (DeploymentPeer dep) \<Rightarrow> Inr (map_option (\<lambda>space. \<lparr>npp_SpaceID = space, npp_DeploymentID = dep\<rparr>) (tbl_get deploymentSpaces dep)))"

definition resolve_policy :: "(nat, nat) table \<Rightarrow> NetworkPolicy \<Rightarrow> panic + NetPolicyRule option" where
  "resolve_policy deploymentSpaces policy =
    (if np_Action policy \<noteq> NETWORK_POLICY_ACTION_ALLOW then Inr None
     else bindE (resolvePolicyPeer (np_Source policy) deploymentSpaces) (\<lambda>source.
       case source of None \<Rightarrow> Inr None
       | Some source \<Rightarrow> bindE (resolvePolicyPeer (np_Destination policy) deploymentSpaces) (\<lambda>destination.
           case destination of None \<Rightarrow> Inr None
           | Some destination \<Rightarrow> Inr (Some \<lparr>npr_Source = source, npr_Destination = destination,
               npr_Ports = map (\<lambda>(protocol, start, end). \<lparr>npm_Protocol = protocol, npm_Start = start, npm_End = end\<rparr>) (np_Ports policy)\<rparr>))))"

definition comparePolicyPeers :: "NetPolicyPeer \<Rightarrow> nat \<times> nat" where
  "comparePolicyPeers peer = (npp_SpaceID peer, npp_DeploymentID peer)"

text \<open>The order as a key: the peers, the number of ports, the ports.\<close>

definition comparePolicyRules :: "NetPolicyRule \<Rightarrow> (nat \<times> nat) \<times> (nat \<times> nat) \<times> nat \<times> (int \<times> nat \<times> nat) list" where
  "comparePolicyRules rule = (comparePolicyPeers (npr_Source rule), comparePolicyPeers (npr_Destination rule), length (npr_Ports rule),
     map (\<lambda>p. (npm_Protocol p, npm_Start p, npm_End p)) (npr_Ports rule))"

definition renderPolicyRules :: "NetworkPolicy list \<Rightarrow> (nat, nat) table \<Rightarrow> panic + NetPolicyRule list" where
  "renderPolicyRules policies deploymentSpaces =
    bindE (mapE (resolve_policy deploymentSpaces) policies) (\<lambda>rules.
      Inr (sort_key comparePolicyRules (List.map_filter id rules)))"

section \<open>The render context\<close>

record placement =
  pl_instanceID :: nat
  pl_nodeID :: nat
  pl_deploymentID :: nat
  pl_spaceID :: nat
  pl_serving :: bool
  pl_netproxy :: bool
  pl_placement :: NetPrefix
  pl_instance :: NetPrefix

record ClusterNetMapNode =
  cnn_NodeID :: nat
  cnn_UnderlayAddress :: string
  cnn_WgPublicKey :: string
  cnn_WgListenPort :: nat
  cnn_IngressPublish :: "IngressPublish list"

record ClusterNetMapService =
  cns_Name :: string
  cns_SpaceID :: nat
  cns_DeploymentID :: nat
  cns_Ordinals :: "nat list"

record renderContext =
  rc_prefix :: Prefix
  rc_nodes :: "(nat, ClusterNetMapNode) table"
  rc_nodeIDs :: "nat list"
  rc_placements :: "placement list"
  rc_services :: "ClusterNetMapService list"
  rc_policyRules :: "NetPolicyRule list"
  rc_published :: "(nat, nat list) table"
  rc_diagnostics :: "Diagnostic list"

definition node_entry :: "ingressPlan \<Rightarrow> Node \<Rightarrow> ClusterNetMapNode" where
  "node_entry plan node =
    (let a = IpAddress_Addr (nr_UnderlayAddress (node_Reported node)) in
     \<lparr>cnn_NodeID = node_ID node, cnn_UnderlayAddress = (if a = NoAddr then [] else addr_text (Unmap a)),
      cnn_WgPublicKey = nr_WgPublicKey (node_Reported node), cnn_WgListenPort = DefaultWGListenPort,
      cnn_IngressPublish = slice_at (ip_publish plan) (node_ID node)\<rparr>)"

definition ss_deployment :: "ScheduledInstanceState \<Rightarrow> nat" where
  "ss_deployment s = dep_ID (drec_Deployment (ss_Config s))"

definition ss_virtual :: "ScheduledInstanceState \<Rightarrow> bool" where
  "ss_virtual s \<longleftrightarrow> nc_Mode (ds_Networking (dep_Spec (drec_Deployment (ss_Config s)))) = NETWORKING_MODE_VIRTUAL"

definition ss_placed :: "ScheduledInstanceState \<Rightarrow> bool" where
  "ss_placed s \<longleftrightarrow> ss_virtual s \<and> WantsRunning (si_State (ss_Instance s))"

definition no_address :: "nat \<Rightarrow> addr_error + NetPrefix \<Rightarrow> panic + NetPrefix" where
  "no_address i r = (case r of Inl _ \<Rightarrow> Inl (NoAddress i) | Inr p \<Rightarrow> Inr p)"

text \<open>One placement; every running target but standby and draining serves.\<close>

definition placement_of :: "Prefix \<Rightarrow> ScheduledInstanceState \<Rightarrow> panic + placement" where
  "placement_of prefix s =
    (let dep = drec_Deployment (ss_Config s); inst = ss_Instance s;
         space = of_nat (dep_SpaceID dep) :: 32 word; ordinal = of_nat (si_InstanceOrdinal inst) :: 32 word;
         serving = (si_State inst \<noteq> TARGET_RUN_STANDBY \<and> si_State inst \<noteq> TARGET_RUN_DRAINING) in
     bindE (no_address (si_ID inst) (PlacementCIDR prefix space (of_nat (dep_ID dep)) ordinal (of_nat (si_ID inst)))) (\<lambda>placementPrefix.
     bindE (if serving then no_address (si_ID inst) (InstanceCIDR prefix space (of_nat (dep_ID dep)) ordinal) else Inr no_prefix) (\<lambda>instancePrefix.
       Inr \<lparr>pl_instanceID = si_ID inst, pl_nodeID = si_NodeID inst, pl_deploymentID = dep_ID dep, pl_spaceID = dep_SpaceID dep,
            pl_serving = serving, pl_netproxy = IsNetproxyIdentity (dep_SpaceID dep) (dep_Name dep),
            pl_placement = placementPrefix, pl_instance = instancePrefix\<rparr>)))"

text \<open>An ordinal is established by a serving placement, or by a standby and a draining one together.\<close>

definition established :: "ScheduledInstanceState list \<Rightarrow> nat \<Rightarrow> nat \<Rightarrow> bool" where
  "established ss deploymentID ordinal \<longleftrightarrow>
    (let states = map (\<lambda>s. si_State (ss_Instance s))
           (filter (\<lambda>s. ss_placed s \<and> ss_deployment s = deploymentID \<and> si_InstanceOrdinal (ss_Instance s) = ordinal) ss)
     in list_ex (\<lambda>t. t \<noteq> TARGET_RUN_STANDBY \<and> t \<noteq> TARGET_RUN_DRAINING) states \<or>
        TARGET_RUN_STANDBY \<in> set states \<and> TARGET_RUN_DRAINING \<in> set states)"

definition service_ordinals :: "ScheduledInstanceState list \<Rightarrow> nat \<Rightarrow> nat list" where
  "service_ordinals ss deploymentID =
    sort (remdups (filter (established ss deploymentID) (map (\<lambda>s. si_InstanceOrdinal (ss_Instance s)) (filter (\<lambda>s. ss_deployment s = deploymentID) ss))))"

text \<open>The first instance of a deployment gives its service the name and the space.\<close>

definition add_service :: "ScheduledInstanceState list \<Rightarrow> ScheduledInstanceState \<Rightarrow> ClusterNetMapService list \<Rightarrow> ClusterNetMapService list" where
  "add_service ss s services =
    (if \<not> ss_virtual s \<or> ss_deployment s \<in> set (map cns_DeploymentID services) then services
     else services @ [\<lparr>cns_Name = DNSLabel (dep_Name (drec_Deployment (ss_Config s))), cns_SpaceID = dep_SpaceID (drec_Deployment (ss_Config s)),
       cns_DeploymentID = ss_deployment s, cns_Ordinals = service_ordinals ss (ss_deployment s)\<rparr>])"

definition services_of :: "ScheduledInstanceState list \<Rightarrow> ClusterNetMapService list" where
  "services_of ss = fold (add_service ss) ss []"

definition prepareRender :: "Prefix \<Rightarrow> renderInputs \<Rightarrow> ingressPlan \<Rightarrow> panic + renderContext" where
  "prepareRender prefix inputs plan =
    bindE (mapE (placement_of prefix) (filter ss_placed (ri_instances inputs))) (\<lambda>placements.
    bindE (renderPolicyRules (ri_policies inputs) (ri_deploymentSpaces inputs)) (\<lambda>rules.
      Inr \<lparr>rc_prefix = prefix, rc_nodes = map (\<lambda>n. (node_ID n, node_entry plan n)) (ri_nodes inputs), rc_nodeIDs = map node_ID (ri_nodes inputs),
           rc_placements = placements, rc_services = services_of (ri_instances inputs), rc_policyRules = rules,
           rc_published = ip_published plan, rc_diagnostics = ip_diagnostics plan\<rparr>))"

definition indices :: "renderContext \<Rightarrow> (placement \<Rightarrow> bool) \<Rightarrow> nat list" where
  "indices rc P = filter (\<lambda>i. P (rc_placements rc ! i)) [0 ..< length (rc_placements rc)]"

definition byNode :: "renderContext \<Rightarrow> nat \<Rightarrow> nat list" where
  "byNode rc nodeID = indices rc (\<lambda>p. pl_nodeID p = nodeID)"

definition bySpace :: "renderContext \<Rightarrow> nat \<Rightarrow> nat list" where
  "bySpace rc space = indices rc (\<lambda>p. pl_spaceID p = space)"

definition byDeployment :: "renderContext \<Rightarrow> nat \<Rightarrow> nat list" where
  "byDeployment rc deploymentID = indices rc (\<lambda>p. pl_deploymentID p = deploymentID)"

text \<open>\<open>rc.out\<close> and \<open>rc.in\<close>: the spaces a rule leads to from a space, and those it leads from.\<close>

definition out_edges :: "renderContext \<Rightarrow> nat \<Rightarrow> nat set" where
  "out_edges rc space = set (map (\<lambda>r. npp_SpaceID (npr_Destination r)) (filter (\<lambda>r. npp_SpaceID (npr_Source r) = space) (rc_policyRules rc)))"

definition in_edges :: "renderContext \<Rightarrow> nat \<Rightarrow> nat set" where
  "in_edges rc space = set (map (\<lambda>r. npp_SpaceID (npr_Source r)) (filter (\<lambda>r. npp_SpaceID (npr_Destination r) = space) (rc_policyRules rc)))"

section \<open>The scope of a node\<close>

record nodeScope =
  sc_placements :: "nat set"
  sc_catalog :: "nat set"
  sc_spaces :: "nat set"

definition own_placements :: "renderContext \<Rightarrow> nat \<Rightarrow> placement list" where
  "own_placements rc nodeID = filter (\<lambda>p. pl_spaceID p \<noteq> systemSpaceID) (map (\<lambda>i. rc_placements rc ! i) (byNode rc nodeID))"

definition own_spaces :: "renderContext \<Rightarrow> nat \<Rightarrow> nat set" where
  "own_spaces rc nodeID = set (map pl_spaceID (own_placements rc nodeID))"

definition forward :: "renderContext \<Rightarrow> nat \<Rightarrow> nat set" where
  "forward rc nodeID =
    (let own = own_spaces rc nodeID in
     (own \<union> (\<Union>space \<in> own. out_edges rc space) \<union> (if own = {} then {} else {globalSpaceID})) - {systemSpaceID})"

definition reverse :: "renderContext \<Rightarrow> nat \<Rightarrow> nat set" where
  "reverse rc nodeID = (let own = own_spaces rc nodeID in (own \<union> (\<Union>space \<in> own. in_edges rc space)) - {systemSpaceID})"

definition hostsGlobal :: "renderContext \<Rightarrow> nat \<Rightarrow> bool" where
  "hostsGlobal rc nodeID \<longleftrightarrow> globalSpaceID \<in> own_spaces rc nodeID"

text \<open>A publisher reaches the node when the node hosts a placement of a deployment that it publishes.\<close>

definition publisher_reaches :: "renderContext \<Rightarrow> nat \<Rightarrow> nat \<Rightarrow> bool" where
  "publisher_reaches rc nodeID publisher \<longleftrightarrow>
    list_ex (\<lambda>dep. list_ex (\<lambda>i. pl_nodeID (rc_placements rc ! i) = nodeID) (byDeployment rc dep)) (slice_at (rc_published rc) publisher)"

definition scope :: "renderContext \<Rightarrow> nat \<Rightarrow> nodeScope" where
  "scope rc nodeID =
    (let published = slice_at (rc_published rc) nodeID;
         publishers = filter (\<lambda>publisher. publisher \<noteq> nodeID \<and> publisher_reaches rc nodeID publisher) (map fst (rc_published rc)) in
     \<lparr>sc_placements = set (byNode rc nodeID) \<union>
        (\<Union>space \<in> forward rc nodeID \<union> reverse rc nodeID. set (bySpace rc space)) \<union>
        (if hostsGlobal rc nodeID then set (indices rc (\<lambda>p. pl_spaceID p \<noteq> systemSpaceID)) else {}) \<union>
        (\<Union>dep \<in> set published. set (byDeployment rc dep)) \<union>
        (\<Union>publisher \<in> set publishers. set (filter (\<lambda>i. pl_netproxy (rc_placements rc ! i)) (byNode rc publisher))),
      sc_catalog = set (map pl_deploymentID (own_placements rc nodeID)) \<union>
        set (map cns_DeploymentID (filter (\<lambda>s. cns_SpaceID s \<in> forward rc nodeID) (rc_services rc))) \<union> set published,
      sc_spaces = forward rc nodeID \<union> reverse rc nodeID\<rparr>)"

section \<open>The maps\<close>

record ClusterNetMapRoute =
  cnr_LogicalPrefix :: string
  cnr_HostingNodeID :: nat

record ClusterNetMap =
  cnm_TargetNodeID :: nat
  cnm_UlaPrefix :: "8 word list"
  cnm_Nodes :: "ClusterNetMapNode list"
  cnm_Routes :: "ClusterNetMapRoute list"
  cnm_DerivedFromSeq :: int
  cnm_PolicyRules :: "NetPolicyRule list"
  cnm_DnsServices :: "ClusterNetMapService list"

definition zero_node :: ClusterNetMapNode where
  "zero_node = \<lparr>cnn_NodeID = 0, cnn_UnderlayAddress = [], cnn_WgPublicKey = [], cnn_WgListenPort = 0, cnn_IngressPublish = []\<rparr>"

definition placement_routes :: "placement \<Rightarrow> ClusterNetMapRoute list" where
  "placement_routes p = \<lparr>cnr_LogicalPrefix = prefix_text (pl_placement p), cnr_HostingNodeID = pl_nodeID p\<rparr> #
     (if pl_serving p then [\<lparr>cnr_LogicalPrefix = prefix_text (pl_instance p), cnr_HostingNodeID = pl_nodeID p\<rparr>] else [])"

text \<open>\<open>peers\<close> in any order and without duplicates; \<open>catalog\<close> and \<open>scoped\<close> (the spaces) are \<open>None\<close> where the code passes \<open>nil\<close>.\<close>

definition assemble :: "renderContext \<Rightarrow> nat \<Rightarrow> nat list \<Rightarrow> nat list \<Rightarrow> nat set option \<Rightarrow> nat set option \<Rightarrow> ClusterNetMap" where
  "assemble rc targetNodeID selected peers catalog scoped =
    \<lparr>cnm_TargetNodeID = targetNodeID, cnm_UlaPrefix = Bytes (rc_prefix rc),
     cnm_Nodes = sort_key cnn_NodeID (map (\<lambda>n. case tbl_get (rc_nodes rc) n of None \<Rightarrow> zero_node | Some e \<Rightarrow> e) peers),
     cnm_Routes = sort_key (\<lambda>r. (cnr_LogicalPrefix r, cnr_HostingNodeID r)) (concat (map (\<lambda>i. placement_routes (rc_placements rc ! i)) selected)),
     cnm_DerivedFromSeq = 0,
     cnm_PolicyRules = filter (\<lambda>r. case scoped of None \<Rightarrow> True | Some ids \<Rightarrow> npp_SpaceID (npr_Source r) \<in> ids \<or> npp_SpaceID (npr_Destination r) \<in> ids)
       (rc_policyRules rc),
     cnm_DnsServices = sort_key (\<lambda>s. (cns_SpaceID s, cns_Name s, cns_DeploymentID s))
       (filter (\<lambda>s. case catalog of None \<Rightarrow> True | Some ids \<Rightarrow> cns_DeploymentID s \<in> ids) (rc_services rc))\<rparr>"

definition renderNode :: "renderContext \<Rightarrow> nat \<Rightarrow> ClusterNetMap" where
  "renderNode rc nodeID =
    (let sc = scope rc nodeID; selected = filter (\<lambda>i. i \<in> sc_placements sc) [0 ..< length (rc_placements rc)];
         peers = remdups (nodeID # map (\<lambda>i. pl_nodeID (rc_placements rc ! i)) selected)
     in assemble rc nodeID selected peers (Some (sc_catalog sc)) (Some (sc_spaces sc)))"

definition renderGlobal :: "renderContext \<Rightarrow> ClusterNetMap" where
  "renderGlobal rc = assemble rc 0 [0 ..< length (rc_placements rc)] (map fst (rc_nodes rc)) None None"

definition render :: "Prefix \<Rightarrow> renderInputs \<Rightarrow> panic + ClusterNetMap \<times> Diagnostic list" where
  "render prefix inputs =
    bindE (prepareRender prefix inputs (renderIngressPlan inputs)) (\<lambda>rc. Inr (renderGlobal rc, rc_diagnostics rc))"

text \<open>The bytes two maps are compared by: the encoding is injective, so the map without its stamp.\<close>

definition canonicalContent :: "ClusterNetMap \<Rightarrow> ClusterNetMap" where
  "canonicalContent m = m\<lparr>cnm_DerivedFromSeq := 0\<rparr>"

end
