(* ===== verification/Publisher_Cache.thy ===== *)
theory Publisher_Cache
  imports Publisher_Render
begin

text \<open>
  The cache of the node publisher, \<open>nodepublisher/cache.go\<close>: the nodes, live instances, deployment
  versions and policies it renders from, folded from the mutations of each commit. A Go map is a table in
  key order, so that the slices the code sorts are the values of a table.
\<close>

section \<open>The cache\<close>

record versionEntry =
  ve_record :: DeploymentRecord
  ve_pins :: int

type_synonym versionKey = "nat \<times> nat"

record cache =
  ca_nodes :: "(nat, Node) table"
  ca_instances :: "(nat, ScheduledInstance) table"
  ca_versions :: "(versionKey, versionEntry) table"
  ca_current :: "(nat, DeploymentRecord) table"
  ca_policies :: "(nat, NetworkPolicy) table"
  ca_watermarks :: "(nat, clock) table"

definition newCache :: cache where
  "newCache = \<lparr>ca_nodes = [], ca_instances = [], ca_versions = [], ca_current = [], ca_policies = [], ca_watermarks = []\<rparr>"

definition isMember :: "NodeLifecycleStatus \<Rightarrow> bool" where
  "isMember status \<longleftrightarrow> status \<in> set MemberNodeStatuses"

definition instance_version :: "ScheduledInstance \<Rightarrow> versionKey" where
  "instance_version inst = (dref_DeploymentID (si_Deployment inst), dref_Version (si_Deployment inst))"

section \<open>Versions\<close>

text \<open>
  A version entry and the current record of its deployment are one pointer exactly when the entry is the
  one of the current version: both are set together.
\<close>

definition is_current :: "cache \<Rightarrow> versionKey \<Rightarrow> bool" where
  "is_current c key = (case tbl_get (ca_current c) (fst key) of None \<Rightarrow> False | Some r \<Rightarrow> meta_Version (drec_Meta r) = snd key)"

definition pin :: "versionKey \<Rightarrow> cache \<Rightarrow> panic + cache" where
  "pin key c =
    (case tbl_get (ca_versions c) key of
       None \<Rightarrow> Inl NilPointer
     | Some e \<Rightarrow> Inr (c\<lparr>ca_versions := tbl_put key (e\<lparr>ve_pins := ve_pins e + 1\<rparr>) (ca_versions c)\<rparr>))"

definition unpin :: "versionKey \<Rightarrow> cache \<Rightarrow> panic + cache" where
  "unpin key c =
    (case tbl_get (ca_versions c) key of
       None \<Rightarrow> Inl NilPointer
     | Some e \<Rightarrow>
         let e' = e\<lparr>ve_pins := ve_pins e - 1\<rparr> in
         if ve_pins e' \<le> 0 \<and> \<not> is_current c key then Inr (c\<lparr>ca_versions := tbl_del key (ca_versions c)\<rparr>)
         else Inr (c\<lparr>ca_versions := tbl_put key e' (ca_versions c)\<rparr>))"

definition instance_state :: "cache \<Rightarrow> ScheduledInstance \<Rightarrow> panic + ScheduledInstanceState" where
  "instance_state c inst =
    (case tbl_get (ca_versions c) (instance_version inst) of
       None \<Rightarrow> Inl NilPointer
     | Some e \<Rightarrow> Inr \<lparr>ss_Instance = inst, ss_Config = ve_record e\<rparr>)"

section \<open>Mutations\<close>

text \<open>Each returns what the code returns, the record before and after, and the cache.\<close>

definition applyDeployment :: "CoreMutation \<Rightarrow> cache \<Rightarrow> panic + (DeploymentRecord option \<times> DeploymentRecord option) \<times> cache" where
  "applyDeployment m c =
    (let i = EntityID m; prev = tbl_get (ca_current c) i in
     if Kind m = VERB_DELETE then
       Inr ((prev, None), c\<lparr>ca_current := tbl_del i (ca_current c),
         ca_versions := filter (\<lambda>(key, e). \<not> (fst key = i \<and> ve_pins e \<le> 0)) (ca_versions c)\<rparr>)
     else (case (Meta m, Entity m) of
         (Some meta, Some (EDeployment value)) \<Rightarrow>
           let next = \<lparr>drec_Deployment = value\<lparr>dep_ID := i\<rparr>, drec_Meta = meta\<rparr>;
               versions = tbl_put (i, meta_Version meta) \<lparr>ve_record = next, ve_pins = 0\<rparr> (ca_versions c);
               outdated = (case prev of None \<Rightarrow> False
                 | Some p \<Rightarrow> meta_Version (drec_Meta p) \<noteq> meta_Version meta \<and>
                     (case tbl_get versions (i, meta_Version (drec_Meta p)) of None \<Rightarrow> False | Some e \<Rightarrow> ve_pins e \<le> 0))
           in Inr ((prev, Some next), c\<lparr>ca_current := tbl_put i next (ca_current c),
                ca_versions := (case prev of Some p \<Rightarrow> if outdated then tbl_del (i, meta_Version (drec_Meta p)) versions else versions
                  | None \<Rightarrow> versions)\<rparr>)
       | _ \<Rightarrow> Inl NilPointer))"

definition applyInstance :: "CoreMutation \<Rightarrow> cache \<Rightarrow> panic + (ScheduledInstanceState \<times> ScheduledInstance option) \<times> cache" where
  "applyInstance m c =
    (let i = EntityID m; prev = tbl_get (ca_instances c) i in
     case Entity m of
       Some (EScheduledInstance value) \<Rightarrow>
         let inst = value\<lparr>si_ID := i\<rparr>; key = instance_version inst in
         bindE (instance_state c inst) (\<lambda>row.
         bindE
           (if si_State inst = TARGET_FINALIZED then
              (case prev of None \<Rightarrow> Inl NilPointer
               | Some p \<Rightarrow> unpin (instance_version p) (c\<lparr>ca_instances := tbl_del i (ca_instances c), ca_watermarks := tbl_del i (ca_watermarks c)\<rparr>))
            else (case prev of
                None \<Rightarrow> bindE (pin key c) (\<lambda>c'. Inr (c'\<lparr>ca_instances := tbl_put i inst (ca_instances c')\<rparr>))
              | Some p \<Rightarrow>
                  bindE (if instance_version p \<noteq> key then bindE (unpin (instance_version p) c) (pin key) else Inr c) (\<lambda>c'.
                    Inr (c'\<lparr>ca_instances := tbl_put i inst (ca_instances c')\<rparr>))))
           (\<lambda>c'. Inr ((row, prev), c')))
     | _ \<Rightarrow> Inl NilPointer)"

definition applyNode :: "CoreMutation \<Rightarrow> cache \<Rightarrow> panic + (Node option \<times> Node option) \<times> cache" where
  "applyNode m c =
    (let i = EntityID m; prev = tbl_get (ca_nodes c) i; gone = c\<lparr>ca_nodes := tbl_del i (ca_nodes c)\<rparr> in
     if Kind m = VERB_DELETE then Inr ((prev, None), gone)
     else (case Entity m of
         Some (ENode value) \<Rightarrow>
           if \<not> isMember (node_Status value) then Inr ((prev, None), gone)
           else let next = value\<lparr>node_ID := i\<rparr> in Inr ((prev, Some next), c\<lparr>ca_nodes := tbl_put i next (ca_nodes c)\<rparr>)
       | _ \<Rightarrow> Inl NilPointer))"

definition applyPolicy :: "CoreMutation \<Rightarrow> cache \<Rightarrow> panic + (NetworkPolicy option \<times> NetworkPolicy option) \<times> cache" where
  "applyPolicy m c =
    (let i = EntityID m; prev = tbl_get (ca_policies c) i in
     if Kind m = VERB_DELETE then Inr ((prev, None), c\<lparr>ca_policies := tbl_del i (ca_policies c)\<rparr>)
     else (case Entity m of
         Some (ENetworkPolicy value) \<Rightarrow>
           let next = value\<lparr>np_ID := i\<rparr> in Inr ((prev, Some next), c\<lparr>ca_policies := tbl_put i next (ca_policies c)\<rparr>)
       | _ \<Rightarrow> Inl NilPointer))"

definition applyStatus :: "CoreMutation \<Rightarrow> cache \<Rightarrow> panic + cache" where
  "applyStatus m c =
    (let i = EntityID m in
     if Kind m = VERB_DELETE then Inr (c\<lparr>ca_watermarks := tbl_del i (ca_watermarks c)\<rparr>)
     else if tbl_get (ca_instances c) i = None then Inr c
     else (case Entity m of
         Some (EScheduledInstanceStatus value) \<Rightarrow> Inr (c\<lparr>ca_watermarks := tbl_put i (Value (sis_UpdatedAt value)) (ca_watermarks c)\<rparr>)
       | _ \<Rightarrow> Inl NilPointer))"

section \<open>Reads\<close>

definition inputs :: "cache \<Rightarrow> panic + renderInputs" where
  "inputs c =
    bindE (mapE (\<lambda>(i, inst). instance_state c inst) (ca_instances c)) (\<lambda>instances.
      Inr \<lparr>ri_nodes = map snd (ca_nodes c), ri_instances = instances, ri_deployments = map snd (ca_current c),
           ri_policies = map snd (ca_policies c), ri_deploymentSpaces = map (\<lambda>(i, r). (i, dep_SpaceID (drec_Deployment r))) (ca_current c)\<rparr>)"

record NodeInstance =
  ni_Instance :: ScheduledInstance
  ni_Config :: DeploymentRecord
  ni_StatusWatermark :: "clock maybe"

definition nodeInstance :: "cache \<Rightarrow> ScheduledInstanceState \<Rightarrow> NodeInstance" where
  "nodeInstance c row =
    \<lparr>ni_Instance = ss_Instance row, ni_Config = ss_Config row,
     ni_StatusWatermark = (case tbl_get (ca_watermarks c) (si_ID (ss_Instance row)) of None \<Rightarrow> absent 0 | Some at \<Rightarrow> some_maybe at)\<rparr>"

definition instancesOn :: "cache \<Rightarrow> nat \<Rightarrow> panic + NodeInstance list" where
  "instancesOn c nodeID =
    bindE (mapE (\<lambda>(i, inst). instance_state c inst) (filter (\<lambda>(i, inst). si_NodeID inst = nodeID) (ca_instances c))) (\<lambda>rows.
      Inr (map (nodeInstance c) rows))"

section \<open>Seeding\<close>

text \<open>What the queries of \<open>seedCache\<close> return: the member nodes, read back from their columns (\<open>scanCurrentNode\<close>),
  the current deployments, the live instances with their pinned version and status, the policies.\<close>

definition scanCurrentNode :: "nat \<times> NodeRow row \<Rightarrow> Node" where
  "scanCurrentNode = (\<lambda>(i, r). let n = row_value r in
    \<lparr>node_ID = i, node_Status = nrow_Status n, node_EnrollmentRequestedAt = millisToTime (nrow_EnrollmentRequestedAt n),
     node_Operator = \<lparr>no_Name = nrow_Name n, no_Roles = nrow_Roles n, no_AllowedSpaces = normaliseAllowedSpaces (nrow_AllowedSpaces n),
       no_EnrolledTime = millisToTime (nrow_EnrolledTime n)\<rparr>,
     node_Reported = \<lparr>nr_Identifier = nrow_Identifier n, nr_UnderlayAddress = nrow_UnderlayAddress n, nr_WgPublicKey = nrow_WgPublicKey n,
       nr_HostAddresses = nrow_HostAddresses n, nr_HostAddressesUnknown = nrow_HostAddressesUnknown n\<rparr>\<rparr>)"

definition seed_deployment :: "DeploymentRecord \<Rightarrow> cache \<Rightarrow> cache" where
  "seed_deployment record c =
    (let i = dep_ID (drec_Deployment record) in
     c\<lparr>ca_current := tbl_put i record (ca_current c),
       ca_versions := tbl_put (i, meta_Version (drec_Meta record)) \<lparr>ve_record = record, ve_pins = 0\<rparr> (ca_versions c)\<rparr>)"

definition seed_instance :: "tables \<Rightarrow> ScheduledInstance \<Rightarrow> cache \<Rightarrow> cache" where
  "seed_instance ts inst c =
    (let key = instance_version inst;
         entry = (case tbl_get (ca_versions c) key of Some e \<Rightarrow> Some e
           | None \<Rightarrow> map_option (\<lambda>r. \<lparr>ve_record = r, ve_pins = 0\<rparr>) (GetDeploymentVersion (fst key) (snd key) ts))
     in case entry of None \<Rightarrow> c
        | Some e \<Rightarrow> c\<lparr>ca_instances := tbl_put (si_ID inst) inst (ca_instances c),
            ca_versions := tbl_put key (e\<lparr>ve_pins := ve_pins e + 1\<rparr>) (ca_versions c),
            ca_watermarks := (case tbl_get (scheduled_instance_status ts) (si_ID inst) of None \<Rightarrow> ca_watermarks c
              | Some s \<Rightarrow> tbl_put (si_ID inst) (Value (sis_UpdatedAt (toStatus (si_ID inst) (row_value s)))) (ca_watermarks c))\<rparr>)"

definition seedCache :: "db \<Rightarrow> cache \<times> int" where
  "seedCache d =
    (let ts = db_tables d;
         nodes = map scanCurrentNode (filter (\<lambda>(i, r). nrow_Status (row_value r) \<in> set MemberNodeStatuses) (nodes ts));
         c1 = newCache\<lparr>ca_nodes := fold (\<lambda>n. tbl_put (node_ID n) n) nodes []\<rparr>;
         c2 = fold seed_deployment (ListActiveDeployments ts) c1;
         c3 = fold (seed_instance ts) (map fst (ListLiveScheduledInstanceStates ts)) c2
     in (c3\<lparr>ca_policies := map (\<lambda>(i, r). (i, (row_value r)\<lparr>np_ID := i\<rparr>)) (network_policies ts)\<rparr>, db_global_seq d))"

end
