(* ===== verification/Publisher.thy ===== *)
theory Publisher
  imports Publisher_Cache
begin

text \<open>
  The node publisher, \<open>nodepublisher/publisher.go\<close>, with the over-approximation of the nodes a commit can
  concern (\<open>dirty.go\<close>), the certificates of a node (\<open>acme.go\<close>) and the acknowledgement barrier
  (\<open>barrier.go\<close>). The mutexes are the order of operations. The digests of a map and of a node's
  certificates are parameters, and so is the clock of each node's certificate stamp. Waking the callers of
  \<open>WaitForSeq\<close> and the diagnostics subscribers has no state of its own.
\<close>

section \<open>Dirty nodes\<close>

record dirtySet =
  ds_all :: bool
  ds_nodes :: "nat set"

definition newDirtySet :: dirtySet where "newDirtySet = \<lparr>ds_all = False, ds_nodes = {}\<rparr>"

definition dirty_add :: "nat set \<Rightarrow> dirtySet \<Rightarrow> dirtySet" where
  "dirty_add ids d = d\<lparr>ds_nodes := ds_nodes d \<union> ids\<rparr>"

definition dirty_has :: "dirtySet \<Rightarrow> nat \<Rightarrow> bool" where
  "dirty_has d i \<longleftrightarrow> ds_all d \<or> i \<in> ds_nodes d"

definition node_at :: "renderContext \<Rightarrow> nat \<Rightarrow> nat" where
  "node_at rc i = pl_nodeID (rc_placements rc ! i)"

definition hostsInto :: "renderContext \<Rightarrow> nat \<Rightarrow> nat set" where
  "hostsInto rc space = set (map (node_at rc) (bySpace rc space))"

definition hostsOfInto :: "renderContext \<Rightarrow> nat list \<Rightarrow> nat set" where
  "hostsOfInto rc deploymentIDs = (\<Union>dep \<in> set deploymentIDs. set (map (node_at rc) (byDeployment rc dep)))"

definition publishersOfInto :: "renderContext \<Rightarrow> nat \<Rightarrow> nat set" where
  "publishersOfInto rc deploymentID = set (map fst (filter (\<lambda>(publisher, deployments). deploymentID \<in> set deployments) (rc_published rc)))"

definition nodesReachingInto :: "renderContext \<Rightarrow> nat \<Rightarrow> nat set" where
  "nodesReachingInto rc space =
    hostsInto rc space \<union> (\<Union>to \<in> out_edges rc space. hostsInto rc to) \<union> (\<Union>from \<in> in_edges rc space. hostsInto rc from) \<union>
    hostsInto rc globalSpaceID \<union>
    (if space = globalSpaceID then set (map (node_at rc) (indices rc (\<lambda>p. pl_spaceID p \<noteq> systemSpaceID))) else {})"

definition nodesSeeingInto :: "renderContext \<Rightarrow> nat \<Rightarrow> nat set" where
  "nodesSeeingInto rc nodeID = {nodeID} \<union>
    (\<Union>p \<in> set (own_placements rc nodeID). nodesReachingInto rc (pl_spaceID p) \<union> publishersOfInto rc (pl_deploymentID p)) \<union>
    hostsOfInto rc (slice_at (rc_published rc) nodeID)"

definition dirtyInstance :: "renderContext \<Rightarrow> ScheduledInstanceState \<Rightarrow> dirtySet \<Rightarrow> dirtySet" where
  "dirtyInstance rc row d =
    (let inst = ss_Instance row; d1 = dirty_add {si_NodeID inst} d in
     if si_SpaceID inst = systemSpaceID then dirty_add (hostsOfInto rc (slice_at (rc_published rc) (si_NodeID inst))) d1
     else dirty_add (nodesReachingInto rc (si_SpaceID inst) \<union> publishersOfInto rc (dref_DeploymentID (si_Deployment inst))) d1)"

definition policyReferences :: "cache \<Rightarrow> nat \<Rightarrow> bool" where
  "policyReferences c deploymentID \<longleftrightarrow>
    list_ex (\<lambda>(i, policy). np_Source policy = Some (DeploymentPeer deploymentID) \<or> np_Destination policy = Some (DeploymentPeer deploymentID)) (ca_policies c)"

definition ingressInput :: "DeploymentRecord \<Rightarrow> PlanDeployment" where
  "ingressInput record = (let d = drec_Deployment record in DeploymentFromSpec (dep_ID d) (PlacementNodeID d) (dep_Name d) (dep_Spec d))"

text \<open>The second component is \<open>*planDirty\<close>.\<close>

definition dirtyDeployment ::
  "renderContext \<Rightarrow> cache \<Rightarrow> DeploymentRecord option \<Rightarrow> DeploymentRecord option \<Rightarrow> dirtySet \<times> bool \<Rightarrow> dirtySet \<times> bool" where
  "dirtyDeployment rc c prev next = (\<lambda>(d, planDirty).
    (let i = (case next of Some n \<Rightarrow> dep_ID (drec_Deployment n) | None \<Rightarrow> (case prev of Some p \<Rightarrow> dep_ID (drec_Deployment p) | None \<Rightarrow> 0));
         space = (\<lambda>r. dep_SpaceID (drec_Deployment r));
         moved = (case (prev, next) of (Some p, Some n) \<Rightarrow> space p \<noteq> space n | _ \<Rightarrow> True);
         planDirty' = (planDirty \<or> moved \<or> (case (prev, next) of (Some p, Some n) \<Rightarrow> ingressInput p \<noteq> ingressInput n | _ \<Rightarrow> False));
         d1 = (if moved \<and> policyReferences c i then d\<lparr>ds_all := True\<rparr> else d);
         concerned = (\<lambda>r. nodesReachingInto rc (space r) \<union> publishersOfInto rc i)
     in if ds_all d1 then (d1, planDirty')
        else (case (prev, next) of
            (_, Some n) \<Rightarrow>
              if (case prev of None \<Rightarrow> True | Some p \<Rightarrow> dep_Name (drec_Deployment p) \<noteq> dep_Name (drec_Deployment n) \<or> space p \<noteq> space n)
              then (dirty_add (concerned n) d1, planDirty') else (d1, planDirty')
          | (Some p, None) \<Rightarrow> (dirty_add (concerned p) d1, planDirty')
          | (None, None) \<Rightarrow> (d1, planDirty'))))"

definition dirtyNode :: "Node option \<Rightarrow> Node option \<Rightarrow> dirtySet \<times> bool \<Rightarrow> dirtySet \<times> bool" where
  "dirtyNode prev next = (\<lambda>(d, planDirty).
    (case (prev, next) of
       (Some p, Some n) \<Rightarrow>
         let a = node_Reported p; b = node_Reported n in
         if nr_WgPublicKey a \<noteq> nr_WgPublicKey b \<or> IpAddress_Addr (nr_UnderlayAddress a) \<noteq> IpAddress_Addr (nr_UnderlayAddress b) then (d\<lparr>ds_all := True\<rparr>, True)
         else (d, planDirty \<or> HostAddresses (nr_HostAddresses a) \<noteq> HostAddresses (nr_HostAddresses b) \<or> nr_HostAddressesUnknown a \<noteq> nr_HostAddressesUnknown b)
     | _ \<Rightarrow> (d\<lparr>ds_all := True\<rparr>, True)))"

definition policySpaces :: "cache \<Rightarrow> NetworkPolicy \<Rightarrow> panic + nat list option" where
  "policySpaces c policy =
    (let spaceOf = (\<lambda>peer. case peer of
           None \<Rightarrow> Inl NilPointer
         | Some (SpacePeer space) \<Rightarrow> Inr (Some space)
         | Some (DeploymentPeer dep) \<Rightarrow> Inr (map_option (\<lambda>r. dep_SpaceID (drec_Deployment r)) (tbl_get (ca_current c) dep)))
     in bindE (spaceOf (np_Source policy)) (\<lambda>source. case source of None \<Rightarrow> Inr None | Some s \<Rightarrow>
        bindE (spaceOf (np_Destination policy)) (\<lambda>destination. case destination of None \<Rightarrow> Inr None | Some t \<Rightarrow> Inr (Some [s, t]))))"

definition dirty_policy :: "renderContext \<Rightarrow> cache \<Rightarrow> NetworkPolicy option \<Rightarrow> dirtySet \<Rightarrow> panic + dirtySet" where
  "dirty_policy rc c policy d =
    (case policy of None \<Rightarrow> Inr d
     | Some policy \<Rightarrow> bindE (policySpaces c policy) (\<lambda>concerned.
         case concerned of None \<Rightarrow> Inr d | Some ids \<Rightarrow> Inr (dirty_add (\<Union>space \<in> set ids. nodesReachingInto rc space) d)))"

definition dirtyPolicy :: "renderContext \<Rightarrow> cache \<Rightarrow> NetworkPolicy option \<Rightarrow> NetworkPolicy option \<Rightarrow> dirtySet \<Rightarrow> panic + dirtySet" where
  "dirtyPolicy rc c prev next d = bindE (dirty_policy rc c prev d) (dirty_policy rc c next)"

definition samePublish :: "IngressPublish list \<Rightarrow> IngressPublish list \<Rightarrow> bool" where
  "samePublish a b \<longleftrightarrow> a = b"

definition dirtyPlan :: "renderContext \<Rightarrow> ingressPlan \<Rightarrow> ingressPlan \<Rightarrow> dirtySet \<Rightarrow> dirtySet" where
  "dirtyPlan rc prev next d =
    (let changed = filter (\<lambda>n. \<not> samePublish (slice_at (ip_publish prev) n) (slice_at (ip_publish next) n)) (map fst (ip_publish prev));
         added = filter (\<lambda>n. tbl_get (ip_publish prev) n = None \<and> slice_at (ip_publish next) n \<noteq> []) (map fst (ip_publish next));
         publishers = filter (\<lambda>n. slice_at (ip_published prev) n \<noteq> slice_at (ip_published next) n) (map fst (ip_published prev @ ip_published next))
     in dirty_add ((\<Union>n \<in> set (changed @ added). nodesSeeingInto rc n) \<union> set publishers \<union>
          (\<Union>n \<in> set publishers. hostsOfInto rc (slice_at (ip_published prev) n) \<union> hostsOfInto rc (slice_at (ip_published next) n))) d)"

section \<open>The publisher\<close>

record AcmeState =
  ac_Seq :: int
  ac_CertBindings :: "(string \<times> ValueRef) list"
  ac_Challenges :: "(string \<times> string \<times> string) list"

record acmeEntry =
  ae_state :: AcmeState
  ae_hash :: string

record nodeMap =
  nm_current :: ClusterNetMap
  nm_content :: ClusterNetMap
  nm_hash :: string

record NodeNetmap =
  nn_DerivedSeq :: int
  nn_ContentHash :: string

record NodeProjection =
  pj_Seq :: int
  pj_Instances :: "NodeInstance list"
  pj_NetMap :: "ClusterNetMap option"
  pj_Acme :: "AcmeState option"

text \<open>\<open>pb_netmaps\<close> is the table \<open>node_netmap\<close> of the store, which only the publisher writes. A subscriber has
  the number of its subscription, its node and the updates it has not received yet.\<close>

record Publisher =
  pb_prefix :: Prefix
  pb_cache :: cache
  pb_rc :: renderContext
  pb_plan :: ingressPlan
  pb_maps :: "(nat, nodeMap) table"
  pb_persisted :: "(nat, NodeNetmap) table"
  pb_netmaps :: "(nat, NodeNetmap) table"
  pb_appliedSeq :: int
  pb_subscribers :: "(nat, nat \<times> NodeProjection list) table"
  pb_closed :: bool
  pb_acme :: "AcmeState option"
  pb_acmeByNode :: "(nat, acmeEntry) table"
  pb_diagnostics :: "Diagnostic list"
  pb_applied :: "(nat, int) table"

record outputs =
  ou_seq :: int
  ou_rows :: "(nat, NodeInstance list) table"
  ou_maps :: "(nat, ClusterNetMap) table"
  ou_acme :: "(nat, AcmeState) table"

text \<open>The digests and the clocks: of a map's content, of a node's certificates, the time of each node's stamp.\<close>

record publish_env =
  pe_hash :: "ClusterNetMap \<Rightarrow> string"
  pe_acmeHash :: "AcmeState \<Rightarrow> string"
  pe_now :: "nat \<Rightarrow> int"

definition queueSize :: nat where "queueSize = 256"

section \<open>Rendering\<close>

text \<open>One node of \<open>renderNodesLocked\<close>: the map is kept when its content is; a map that a former run of the
  primary published with the same content keeps the stamp of that run.\<close>

definition render_one :: "publish_env \<Rightarrow> int \<Rightarrow> nat \<Rightarrow> Publisher \<times> (nat, ClusterNetMap) table \<Rightarrow> Publisher \<times> (nat, ClusterNetMap) table" where
  "render_one env seq nodeID = (\<lambda>(p, changed).
    (let next = renderNode (pb_rc p) nodeID; content = canonicalContent next; existing = tbl_get (pb_maps p) nodeID in
     if (case existing of Some e \<Rightarrow> nm_content e = content | None \<Rightarrow> False) then (p, changed)
     else let hash = pe_hash env content;
              stamp = (case (existing, tbl_get (pb_persisted p) nodeID) of
                  (None, Some row) \<Rightarrow> if nn_ContentHash row = hash then nn_DerivedSeq row else seq
                | _ \<Rightarrow> seq);
              next' = next\<lparr>cnm_DerivedFromSeq := stamp\<rparr>
          in (p\<lparr>pb_persisted := tbl_del nodeID (pb_persisted p),
                pb_maps := tbl_put nodeID \<lparr>nm_current = next', nm_content = content, nm_hash = hash\<rparr> (pb_maps p),
                pb_netmaps := tbl_put nodeID \<lparr>nn_DerivedSeq = stamp, nn_ContentHash = hash\<rparr> (pb_netmaps p)\<rparr>,
              tbl_put nodeID next' changed)))"

definition renderNodesLocked :: "publish_env \<Rightarrow> int \<Rightarrow> nat list \<Rightarrow> Publisher \<Rightarrow> Publisher \<times> (nat, ClusterNetMap) table" where
  "renderNodesLocked env seq targets p =
    (let (p1, changed) = fold (render_one env seq) targets (p, []);
         known = (\<lambda>n. tbl_get (rc_nodes (pb_rc p1)) n \<noteq> None);
         deletes = filter (\<lambda>n. \<not> known n) (map fst (pb_maps p1) @ map fst (pb_persisted p1))
     in (p1\<lparr>pb_maps := filter (\<lambda>(n, _). known n) (pb_maps p1), pb_persisted := filter (\<lambda>(n, _). known n) (pb_persisted p1),
            pb_netmaps := fold tbl_del deletes (pb_netmaps p1)\<rparr>, changed))"

definition renderLocked :: "publish_env \<Rightarrow> renderInputs \<Rightarrow> dirtySet option \<Rightarrow> Publisher \<Rightarrow> panic + Publisher \<times> (nat, ClusterNetMap) table" where
  "renderLocked env inp dirty p =
    bindE (prepareRender (pb_prefix p) inp (pb_plan p)) (\<lambda>rc.
      let targets = filter (\<lambda>n. case dirty of None \<Rightarrow> True | Some d \<Rightarrow> dirty_has d n) (rc_nodeIDs rc)
      in Inr (renderNodesLocked env (pb_appliedSeq p) targets (p\<lparr>pb_rc := rc, pb_diagnostics := rc_diagnostics rc\<rparr>)))"

section \<open>Certificates\<close>

definition ingressHostnames :: "DeploymentRecord \<Rightarrow> string set" where
  "ingressHostnames record = set (filter (\<lambda>h. h \<noteq> []) (map in_Hostname (nc_Ingress (ds_Networking (dep_Spec (drec_Deployment record))))))"

text \<open>The names of all nodes, by the node; \<open>p.cache.current[deploymentID]\<close> is dereferenced.\<close>

definition hostnamesByNodeLocked :: "Publisher \<Rightarrow> panic + (nat \<Rightarrow> string set)" where
  "hostnamesByNodeLocked p =
    bindE (mapE (\<lambda>(i, inst). instance_state (pb_cache p) inst) (ca_instances (pb_cache p))) (\<lambda>rows.
    bindE (mapE (\<lambda>(n, dep). case tbl_get (ca_current (pb_cache p)) dep of None \<Rightarrow> Inl NilPointer | Some r \<Rightarrow> Inr (n, r))
        (concat (map (\<lambda>(n, deployments). map (\<lambda>dep. (n, dep)) deployments) (ip_published (pb_plan p))))) (\<lambda>published.
      Inr (\<lambda>n. (\<Union>row \<in> set (filter (\<lambda>row. si_NodeID (ss_Instance row) = n) rows). ingressHostnames (ss_Config row)) \<union>
               (\<Union>(_, r) \<in> set (filter (\<lambda>(m, _). m = n) published). ingressHostnames r))))"

definition acmeSubset :: "AcmeState option \<Rightarrow> string set \<Rightarrow> AcmeState" where
  "acmeSubset global hostnames =
    (case global of None \<Rightarrow> \<lparr>ac_Seq = 0, ac_CertBindings = [], ac_Challenges = []\<rparr>
     | Some g \<Rightarrow> \<lparr>ac_Seq = 0, ac_CertBindings = filter (\<lambda>(h, _). h \<in> hostnames) (ac_CertBindings g),
         ac_Challenges = filter (\<lambda>(h, _). h \<in> hostnames \<or> h = []) (ac_Challenges g)\<rparr>)"

definition refresh_one ::
  "publish_env \<Rightarrow> (nat \<Rightarrow> string set) \<Rightarrow> nat \<Rightarrow> Publisher \<times> (nat, AcmeState) table \<Rightarrow> Publisher \<times> (nat, AcmeState) table" where
  "refresh_one env hostnames nodeID = (\<lambda>(p, changed).
    (let subset = acmeSubset (pb_acme p) (hostnames nodeID); hash = pe_acmeHash env subset; existing = tbl_get (pb_acmeByNode p) nodeID in
     if (case existing of Some e \<Rightarrow> ae_hash e = hash | None \<Rightarrow> False) then (p, changed)
     else let seq = (case existing of Some e \<Rightarrow> max (pe_now env nodeID) (ac_Seq (ae_state e) + 1) | None \<Rightarrow> pe_now env nodeID);
              state = subset\<lparr>ac_Seq := seq\<rparr>
          in (p\<lparr>pb_acmeByNode := tbl_put nodeID \<lparr>ae_state = state, ae_hash = hash\<rparr> (pb_acmeByNode p)\<rparr>,
              if existing = None then changed else tbl_put nodeID state changed)))"

text \<open>No node ids stands for every member, as the nil slice does.\<close>

definition refreshAcmeLocked :: "publish_env \<Rightarrow> nat list \<Rightarrow> Publisher \<Rightarrow> panic + Publisher \<times> (nat, AcmeState) table" where
  "refreshAcmeLocked env nodeIDs p =
    (let (ids, p1) = (if nodeIDs = [] then (map fst (ca_nodes (pb_cache p)),
             p\<lparr>pb_acmeByNode := filter (\<lambda>(n, _). tbl_get (ca_nodes (pb_cache p)) n \<noteq> None) (pb_acmeByNode p)\<rparr>) else (nodeIDs, p))
     in if ids = [] then Inr (p1, [])
        else bindE (hostnamesByNodeLocked p1) (\<lambda>hostnames. Inr (fold (refresh_one env hostnames) ids (p1, []))))"

section \<open>Commits\<close>

text \<open>The types that are not in the map have 0, as reading the map gives.\<close>

definition mutationOrder :: "CoreEntityType \<Rightarrow> nat" where
  "mutationOrder t =
    (if t = CORE_DEPLOYMENT then 1 else if t = CORE_NODE then 2 else if t = CORE_NETWORK_POLICY then 3
     else if t = CORE_SCHEDULED_INSTANCE then 4 else if t = CORE_SCHEDULED_INSTANCE_STATUS then 5 else 0)"

text \<open>The variables of the loop of \<open>applyLocked\<close>.\<close>

record fold_state =
  fs_cache :: cache
  fs_dirty :: dirtySet
  fs_planDirty :: bool
  fs_inputsTouched :: bool
  fs_touched :: "nat set"
  fs_rows :: "(nat, NodeInstance list) table"

definition apply_mutation :: "renderContext \<Rightarrow> CoreMutation \<Rightarrow> fold_state \<Rightarrow> panic + fold_state" where
  "apply_mutation rc m s =
    (if Type m = CORE_DEPLOYMENT then
       bindE (applyDeployment m (fs_cache s)) (\<lambda>((prev, next), c).
         let (d, plan) = dirtyDeployment rc c prev next (fs_dirty s, fs_planDirty s)
         in Inr (s\<lparr>fs_cache := c, fs_dirty := d, fs_planDirty := plan, fs_inputsTouched := True\<rparr>))
     else if Type m = CORE_NODE then
       bindE (applyNode m (fs_cache s)) (\<lambda>((prev, next), c).
         if prev = None \<and> next = None then Inr (s\<lparr>fs_cache := c\<rparr>)
         else let (d, plan) = dirtyNode prev next (fs_dirty s, fs_planDirty s)
           in Inr (s\<lparr>fs_cache := c, fs_dirty := d, fs_planDirty := plan, fs_inputsTouched := True\<rparr>))
     else if Type m = CORE_NETWORK_POLICY then
       bindE (applyPolicy m (fs_cache s)) (\<lambda>((prev, next), c).
       bindE (dirtyPolicy rc c prev next (fs_dirty s)) (\<lambda>d.
         Inr (s\<lparr>fs_cache := c, fs_dirty := d, fs_inputsTouched := True\<rparr>)))
     else if Type m = CORE_SCHEDULED_INSTANCE then
       bindE (applyInstance m (fs_cache s)) (\<lambda>((row, prev), c).
         let n = si_NodeID (ss_Instance row)
         in Inr (s\<lparr>fs_cache := c, fs_inputsTouched := True, fs_rows := tbl_put n (slice_at (fs_rows s) n @ [nodeInstance c row]) (fs_rows s),
              fs_touched := insert n (fs_touched s), fs_dirty := dirtyInstance rc row (fs_dirty s)\<rparr>))
     else bindE (applyStatus m (fs_cache s)) (\<lambda>c. Inr (s\<lparr>fs_cache := c\<rparr>)))"

definition ordered_mutations :: "CoreMutation list \<Rightarrow> CoreMutation list" where
  "ordered_mutations ms = sort_key (\<lambda>m. mutationOrder (Type m)) (filter (\<lambda>m. mutationOrder (Type m) \<noteq> 0) ms)"

definition applyLocked :: "publish_env \<Rightarrow> CoreWriteUpdate \<Rightarrow> Publisher \<Rightarrow> panic + outputs \<times> Publisher" where
  "applyLocked env u p =
    (let out = \<lparr>ou_seq = upd_Seq u, ou_rows = [], ou_maps = [], ou_acme = []\<rparr>;
         ordered = ordered_mutations (upd_Mutations u); p1 = p\<lparr>pb_appliedSeq := upd_Seq u\<rparr> in
     if ordered = [] then Inr (out, p1)
     else bindE (foldE (apply_mutation (pb_rc p1)) ordered
            \<lparr>fs_cache = pb_cache p1, fs_dirty = newDirtySet, fs_planDirty = False, fs_inputsTouched = False, fs_touched = {}, fs_rows = []\<rparr>) (\<lambda>s.
       let p2 = p1\<lparr>pb_cache := fs_cache s\<rparr>; out1 = out\<lparr>ou_rows := fs_rows s\<rparr> in
       if \<not> fs_inputsTouched s then Inr (out1, p2)
       else bindE (inputs (fs_cache s)) (\<lambda>inp.
         let (dirty, p3) = (if fs_planDirty s then
               (let next = renderIngressPlan inp in (dirtyPlan (pb_rc p2) (pb_plan p2) next (fs_dirty s), p2\<lparr>pb_plan := next\<rparr>))
             else (fs_dirty s, p2))
         in bindE (renderLocked env inp (Some dirty) p3) (\<lambda>(p4, maps).
            bindE (refreshAcmeLocked env (if ds_all dirty then [] else sorted_list_of_set (fs_touched s \<union> ds_nodes dirty)) p4) (\<lambda>(p5, acme).
              Inr (out1\<lparr>ou_maps := maps, ou_acme := acme\<rparr>, p5))))))"

definition updateFor :: "outputs \<Rightarrow> nat \<Rightarrow> NodeProjection option" where
  "updateFor out nodeID =
    (let update = \<lparr>pj_Seq = ou_seq out, pj_Instances = slice_at (ou_rows out) nodeID, pj_NetMap = tbl_get (ou_maps out) nodeID,
           pj_Acme = tbl_get (ou_acme out) nodeID\<rparr>
     in if pj_Instances update = [] \<and> pj_NetMap update = None \<and> pj_Acme update = None then None else Some update)"

text \<open>A subscriber whose queue is full is dropped.\<close>

definition enqueueLocked :: "outputs \<Rightarrow> Publisher \<Rightarrow> Publisher" where
  "enqueueLocked out p =
    p\<lparr>pb_subscribers := List.map_filter (\<lambda>(i, nodeID, queue).
        case updateFor out nodeID of None \<Rightarrow> Some (i, nodeID, queue)
        | Some update \<Rightarrow> if length queue < queueSize then Some (i, nodeID, queue @ [update]) else None) (pb_subscribers p)\<rparr>"

definition handle :: "publish_env \<Rightarrow> CoreWriteUpdate \<Rightarrow> Publisher \<Rightarrow> panic + Publisher" where
  "handle env u p = (if pb_closed p then Inr p else bindE (applyLocked env u p) (\<lambda>(out, p'). Inr (enqueueLocked out p')))"

definition SetAcme :: "publish_env \<Rightarrow> AcmeState \<Rightarrow> Publisher \<Rightarrow> panic + Publisher" where
  "SetAcme env state p =
    (let p1 = p\<lparr>pb_acme := Some state\<rparr> in
     if pb_closed p then Inr p1
     else bindE (refreshAcmeLocked env [] p1) (\<lambda>(p2, changed).
       Inr (enqueueLocked \<lparr>ou_seq = pb_appliedSeq p2, ou_rows = [], ou_maps = [], ou_acme = changed\<rparr> p2)))"

section \<open>Opening, sessions\<close>

definition seedLocked :: "publish_env \<Rightarrow> db \<Rightarrow> Publisher \<Rightarrow> panic + Publisher" where
  "seedLocked env d p =
    (let (c, seq) = seedCache d in
     bindE (inputs c) (\<lambda>inp.
       let p1 = p\<lparr>pb_cache := c, pb_maps := [], pb_acmeByNode := [], pb_plan := renderIngressPlan inp, pb_appliedSeq := seq\<rparr> in
       bindE (renderLocked env inp None p1) (\<lambda>(p2, _).
       bindE (refreshAcmeLocked env [] p2) (\<lambda>(p3, _). Inr p3))))"

definition New :: "publish_env \<Rightarrow> Prefix \<Rightarrow> AcmeState option \<Rightarrow> (nat, NodeNetmap) table \<Rightarrow> db \<Rightarrow> panic + Publisher" where
  "New env prefix acme netmaps d =
    seedLocked env d
      \<lparr>pb_prefix = prefix, pb_cache = newCache,
       pb_rc = \<lparr>rc_prefix = prefix, rc_nodes = [], rc_nodeIDs = [], rc_placements = [], rc_services = [], rc_policyRules = [], rc_published = [], rc_diagnostics = []\<rparr>,
       pb_plan = \<lparr>ip_publish = [], ip_published = [], ip_diagnostics = []\<rparr>, pb_maps = [], pb_persisted = netmaps, pb_netmaps = netmaps,
       pb_appliedSeq = 0, pb_subscribers = [], pb_closed = False, pb_acme = acme, pb_acmeByNode = [], pb_diagnostics = [], pb_applied = []\<rparr>"

datatype session_error = NotMember nat | Panicked panic

definition snapshotLocked :: "nat \<Rightarrow> Publisher \<Rightarrow> session_error + NodeProjection" where
  "snapshotLocked nodeID p =
    (if tbl_get (ca_nodes (pb_cache p)) nodeID = None then Inl (NotMember nodeID)
     else case (instancesOn (pb_cache p) nodeID, tbl_get (pb_maps p) nodeID, tbl_get (pb_acmeByNode p) nodeID) of
         (Inr rows, Some m, Some a) \<Rightarrow> Inr \<lparr>pj_Seq = pb_appliedSeq p, pj_Instances = rows, pj_NetMap = Some (nm_current m), pj_Acme = Some (ae_state a)\<rparr>
       | _ \<Rightarrow> Inl (Panicked NilPointer))"

text \<open>The subscription gets the number \<open>i\<close>, one that no open subscription has.\<close>

definition Subscribe :: "nat \<Rightarrow> nat \<Rightarrow> Publisher \<Rightarrow> session_error + NodeProjection \<times> Publisher" where
  "Subscribe i nodeID p =
    bindE (snapshotLocked nodeID p) (\<lambda>snapshot.
      Inr (snapshot, if pb_closed p then p else p\<lparr>pb_subscribers := tbl_put i (nodeID, []) (pb_subscribers p)\<rparr>))"

definition unsubscribe :: "nat \<Rightarrow> Publisher \<Rightarrow> Publisher" where
  "unsubscribe i p = p\<lparr>pb_subscribers := tbl_del i (pb_subscribers p)\<rparr>"

definition Close :: "Publisher \<Rightarrow> Publisher" where
  "Close p = (if pb_closed p then p else p\<lparr>pb_closed := True, pb_subscribers := []\<rparr>)"

section \<open>The barrier\<close>

definition RecordApplied :: "nat \<Rightarrow> int \<Rightarrow> Publisher \<Rightarrow> Publisher" where
  "RecordApplied nodeID appliedSeq p =
    (if (case tbl_get (pb_applied p) nodeID of Some current \<Rightarrow> current \<ge> appliedSeq | None \<Rightarrow> False) then p
     else p\<lparr>pb_applied := tbl_put nodeID appliedSeq (pb_applied p)\<rparr>)"

definition ForgetNode :: "nat \<Rightarrow> Publisher \<Rightarrow> Publisher" where
  "ForgetNode nodeID p = p\<lparr>pb_applied := tbl_del nodeID (pb_applied p)\<rparr>"

definition DecisionInForce :: "int \<Rightarrow> Publisher \<Rightarrow> bool" where
  "DecisionInForce seq p \<longleftrightarrow> pb_appliedSeq p \<ge> seq \<and>
    list_all (\<lambda>(nodeID, e). cnm_DerivedFromSeq (nm_current e) < seq \<or>
      (case tbl_get (pb_applied p) nodeID of Some applied \<Rightarrow> \<not> applied < cnm_DerivedFromSeq (nm_current e) | None \<Rightarrow> True)) (pb_maps p)"

end
