(* ===== verification/Publisher_Scope.thy ===== *)
theory Publisher_Scope
  imports Publisher Net_Filter_Policy "HOL-Library.Multiset"
begin

text \<open>
  What a node's map holds, in terms of the placements of the render context: the scope of a node is a
  property of a placement, and the map of a node is determined by the placements in its scope, the services
  of its catalog, the rules of its spaces and the entries of its peers.
\<close>

section \<open>Index sets as sets of placements\<close>

lemma set_indices [simp]: "set (indices rc P) = {i. i < length (rc_placements rc) \<and> P (rc_placements rc ! i)}"
  by (auto simp: indices_def)

lemma map_indices: "map ((!) (rc_placements rc)) (indices rc P) = filter P (rc_placements rc)"
  by (simp add: indices_def filter_map [unfolded comp_def, symmetric] map_nth)

lemma ex_index: "(\<exists>i < length xs. P (xs ! i)) \<longleftrightarrow> (\<exists>x \<in> set xs. P x)"
  by (metis in_set_conv_nth)

lemma own_placements_eq: "own_placements rc n = filter (\<lambda>p. pl_spaceID p \<noteq> systemSpaceID \<and> pl_nodeID p = n) (rc_placements rc)"
  using map_indices [of rc "\<lambda>p. pl_nodeID p = n"] by (simp add: own_placements_def byNode_def conj_commute)

lemma own_spaces_iff: "s \<in> own_spaces rc n \<longleftrightarrow> s \<noteq> systemSpaceID \<and> (\<exists>p \<in> set (rc_placements rc). pl_nodeID p = n \<and> pl_spaceID p = s)"
  by (auto simp: own_spaces_def own_placements_eq)

lemma hostsInto_iff: "n \<in> hostsInto rc s \<longleftrightarrow> (\<exists>p \<in> set (rc_placements rc). pl_nodeID p = n \<and> pl_spaceID p = s)"
  using ex_index [of "rc_placements rc" "\<lambda>p. pl_nodeID p = n \<and> pl_spaceID p = s"] by (auto simp: hostsInto_def bySpace_def node_at_def image_iff)

lemma hostsOfInto_iff: "n \<in> hostsOfInto rc ds \<longleftrightarrow> (\<exists>p \<in> set (rc_placements rc). pl_nodeID p = n \<and> pl_deploymentID p \<in> set ds)"
  unfolding ex_index [symmetric] by (auto simp: hostsOfInto_def byDeployment_def node_at_def image_iff)

lemma publisher_reaches_iff:
  "publisher_reaches rc n m \<longleftrightarrow> n \<in> hostsOfInto rc (slice_at (rc_published rc) m)"
  using ex_index [of "rc_placements rc" "\<lambda>p. pl_nodeID p = n \<and> pl_deploymentID p \<in> set (slice_at (rc_published rc) m)"]
  by (auto simp: publisher_reaches_def list_ex_iff byDeployment_def hostsOfInto_iff)

lemma slice_at_in: "x \<in> set (slice_at t k) \<Longrightarrow> k \<in> fst ` set t"
  by (cases "tbl_get t k") (auto simp: slice_at_def dest!: map_of_SomeD intro: rev_image_eqI)

lemma publishersOfInto_iff:
  assumes "tbl_wf (rc_published rc)"
  shows "n \<in> publishersOfInto rc d \<longleftrightarrow> d \<in> set (slice_at (rc_published rc) n)"
proof -
  have "(n, ds) \<in> set (rc_published rc) \<longleftrightarrow> tbl_get (rc_published rc) n = Some ds" for ds
    using assms by (simp add: tbl_wf_def)
  then show ?thesis by (cases "tbl_get (rc_published rc) n") (auto simp: publishersOfInto_def slice_at_def image_iff)
qed

section \<open>The scope\<close>

definition in_scope :: "renderContext \<Rightarrow> nat \<Rightarrow> placement \<Rightarrow> bool" where
  "in_scope rc n p \<longleftrightarrow> pl_nodeID p = n \<or> pl_spaceID p \<in> forward rc n \<union> reverse rc n \<or>
     hostsGlobal rc n \<and> pl_spaceID p \<noteq> systemSpaceID \<or> pl_deploymentID p \<in> set (slice_at (rc_published rc) n) \<or>
     pl_netproxy p \<and> pl_nodeID p \<noteq> n \<and> n \<in> hostsOfInto rc (slice_at (rc_published rc) (pl_nodeID p))"

lemma scope_placements:
  assumes "i < length (rc_placements rc)"
  shows "i \<in> sc_placements (scope rc n) \<longleftrightarrow> in_scope rc n (rc_placements rc ! i)"
proof -
  have "(\<exists>m \<in> set (map fst (rc_published rc)). m \<noteq> n \<and> publisher_reaches rc n m \<and> pl_nodeID (rc_placements rc ! i) = m) \<longleftrightarrow>
      pl_nodeID (rc_placements rc ! i) \<noteq> n \<and> n \<in> hostsOfInto rc (slice_at (rc_published rc) (pl_nodeID (rc_placements rc ! i)))"
    using slice_at_in [of _ "rc_published rc" "pl_nodeID (rc_placements rc ! i)"] by (auto simp: publisher_reaches_iff hostsOfInto_iff simp del: set_map) (metis image_set)
  with assms show ?thesis
    by (auto simp: scope_def Let_def in_scope_def byNode_def bySpace_def byDeployment_def)
qed

definition in_catalog :: "renderContext \<Rightarrow> nat \<Rightarrow> ClusterNetMapService \<Rightarrow> bool" where
  "in_catalog rc n s \<longleftrightarrow> cns_DeploymentID s \<in> sc_catalog (scope rc n)"

definition rule_spaces :: "NetPolicyRule \<Rightarrow> nat set" where
  "rule_spaces r = {npp_SpaceID (npr_Source r), npp_SpaceID (npr_Destination r)}"

definition peer_entry :: "renderContext \<Rightarrow> nat \<Rightarrow> ClusterNetMapNode" where
  "peer_entry rc n = (case tbl_get (rc_nodes rc) n of None \<Rightarrow> zero_node | Some e \<Rightarrow> e)"

lemma renderNode_eq:
  "renderNode rc n =
    (let ps = filter (in_scope rc n) (rc_placements rc) in
     \<lparr>cnm_TargetNodeID = n, cnm_UlaPrefix = Bytes (rc_prefix rc),
      cnm_Nodes = sort_key cnn_NodeID (map (peer_entry rc) (remdups (n # map pl_nodeID ps))),
      cnm_Routes = sort_key (\<lambda>r. (cnr_LogicalPrefix r, cnr_HostingNodeID r)) (concat (map placement_routes ps)),
      cnm_DerivedFromSeq = 0,
      cnm_PolicyRules = filter (\<lambda>r. rule_spaces r \<inter> (forward rc n \<union> reverse rc n) \<noteq> {}) (rc_policyRules rc),
      cnm_DnsServices = sort_key (\<lambda>s. (cns_SpaceID s, cns_Name s, cns_DeploymentID s)) (filter (in_catalog rc n) (rc_services rc))\<rparr>)"
proof -
  let ?ps = "rc_placements rc"
  let ?sel = "filter (\<lambda>i. i \<in> sc_placements (scope rc n)) [0 ..< length ?ps]"
  have "?sel = indices rc (in_scope rc n)" unfolding indices_def by (rule filter_cong) (auto simp: scope_placements)
  then have sel: "map ((!) ?ps) ?sel = filter (in_scope rc n) ?ps" by (simp only: map_indices)
  have m: "map (\<lambda>i. f (?ps ! i)) ?sel = map f (filter (in_scope rc n) ?ps)" for f :: "placement \<Rightarrow> 'z"
    unfolding sel [symmetric] by simp
  have r: "filter (\<lambda>r. npp_SpaceID (npr_Source r) \<in> sc_spaces (scope rc n) \<or> npp_SpaceID (npr_Destination r) \<in> sc_spaces (scope rc n)) rs =
      filter (\<lambda>r. rule_spaces r \<inter> (forward rc n \<union> reverse rc n) \<noteq> {}) rs" for rs
    by (rule filter_cong) (auto simp: scope_def Let_def rule_spaces_def)
  show ?thesis
    unfolding renderNode_def assemble_def Let_def option.case m r peer_entry_def in_catalog_def ..
qed

text \<open>Two contexts give a node the same map when they agree on what is in its scope.\<close>

lemma renderNode_cong:
  assumes "rc_prefix rc = rc_prefix rc'"
    and "filter (in_scope rc n) (rc_placements rc) = filter (in_scope rc' n) (rc_placements rc')"
    and "\<And>m. m = n \<or> (\<exists>p \<in> set (rc_placements rc). in_scope rc n p \<and> pl_nodeID p = m) \<Longrightarrow> tbl_get (rc_nodes rc) m = tbl_get (rc_nodes rc') m"
    and "filter (\<lambda>r. rule_spaces r \<inter> (forward rc n \<union> reverse rc n) \<noteq> {}) (rc_policyRules rc) =
         filter (\<lambda>r. rule_spaces r \<inter> (forward rc' n \<union> reverse rc' n) \<noteq> {}) (rc_policyRules rc')"
    and "{s \<in> set (rc_services rc). in_catalog rc n s} = {s \<in> set (rc_services rc'). in_catalog rc' n s}"
    and "distinct (map cns_DeploymentID (rc_services rc))" "distinct (map cns_DeploymentID (rc_services rc'))"
  shows "renderNode rc n = renderNode rc' n"
proof -
  let ?key = "\<lambda>s :: ClusterNetMapService. (cns_SpaceID s, cns_Name s, cns_DeploymentID s)"
  let ?s = "filter (in_catalog rc n) (rc_services rc)" and ?s' = "filter (in_catalog rc' n) (rc_services rc')"
  have d: "distinct ?s" "distinct ?s'" using assms(6,7) by (simp_all add: distinct_map)
  have "set ?s = set ?s'" using assms(5) by auto
  then have "mset ?s = mset ?s'" using set_eq_iff_mset_eq_distinct [OF d] by blast
  moreover have "inj_on ?key (set ?s)" using assms(6) by (auto simp: distinct_map inj_on_def)
  ultimately have services: "sort_key ?key ?s = sort_key ?key ?s'"
    by (intro sort_key_inj_key_eq) simp_all
  have "map (peer_entry rc) (remdups (n # map pl_nodeID (filter (in_scope rc n) (rc_placements rc)))) =
      map (peer_entry rc') (remdups (n # map pl_nodeID (filter (in_scope rc n) (rc_placements rc))))"
  proof (rule map_cong [OF refl])
    fix m assume "m \<in> set (remdups (n # map pl_nodeID (filter (in_scope rc n) (rc_placements rc))))"
    then have "m \<in> insert n (pl_nodeID ` set (filter (in_scope rc n) (rc_placements rc)))" by (simp only: set_remdups list.set set_map)
    then have "tbl_get (rc_nodes rc) m = tbl_get (rc_nodes rc') m" by (intro assms(3)) auto
    then show "peer_entry rc m = peer_entry rc' m" by (simp add: peer_entry_def)
  qed
  then show ?thesis unfolding renderNode_eq Let_def services assms(1,4) by (simp only: assms(2))
qed

section \<open>What a node can reach\<close>

lemma forward_iff:
  "s \<in> forward rc n \<longleftrightarrow> s \<noteq> systemSpaceID \<and>
    (s \<in> own_spaces rc n \<or> (\<exists>o' \<in> own_spaces rc n. s \<in> out_edges rc o') \<or> s = globalSpaceID \<and> own_spaces rc n \<noteq> {})"
  by (auto simp: forward_def Let_def)

lemma reverse_iff:
  "s \<in> reverse rc n \<longleftrightarrow> s \<noteq> systemSpaceID \<and> (s \<in> own_spaces rc n \<or> (\<exists>o' \<in> own_spaces rc n. s \<in> in_edges rc o'))"
  by (auto simp: reverse_def Let_def)

lemma edges_iff: "t \<in> out_edges rc s \<longleftrightarrow> (\<exists>r \<in> set (rc_policyRules rc). npp_SpaceID (npr_Source r) = s \<and> npp_SpaceID (npr_Destination r) = t)"
  "s \<in> in_edges rc t \<longleftrightarrow> (\<exists>r \<in> set (rc_policyRules rc). npp_SpaceID (npr_Source r) = s \<and> npp_SpaceID (npr_Destination r) = t)"
  by (auto simp: out_edges_def in_edges_def image_iff)

lemma scope_routes:
  assumes "p \<in> set (rc_placements rc)" "in_scope rc n p"
  shows "set (placement_routes p) \<subseteq> set (cnm_Routes (renderNode rc n))" "peer_entry rc (pl_nodeID p) \<in> set (cnm_Nodes (renderNode rc n))"
  using assms by (auto simp: renderNode_eq Let_def)

text \<open>Between spaces a node knows both ends of what the policy lets through.\<close>

lemma reachable_in_scope:
  assumes "p \<in> set (rc_placements rc)" "q \<in> set (rc_placements rc)" "pl_spaceID p \<noteq> systemSpaceID" "pl_spaceID q \<noteq> systemSpaceID"
    and "pl_spaceID q = globalSpaceID \<or> pl_spaceID p = pl_spaceID q \<or> pl_spaceID q \<in> out_edges rc (pl_spaceID p)"
  shows "in_scope rc (pl_nodeID p) q" "in_scope rc (pl_nodeID q) p"
proof -
  have own: "pl_spaceID p \<in> own_spaces rc (pl_nodeID p)" "pl_spaceID q \<in> own_spaces rc (pl_nodeID q)"
    using assms(1-4) by (auto simp: own_spaces_iff)
  have edge: "pl_spaceID q \<in> out_edges rc (pl_spaceID p) \<longleftrightarrow> pl_spaceID p \<in> in_edges rc (pl_spaceID q)" by (auto simp: edges_iff)
  show "in_scope rc (pl_nodeID p) q" using assms(4,5) own(1) by (auto simp: in_scope_def forward_iff)
  show "in_scope rc (pl_nodeID q) p" using assms(3,5) own(2) edge by (auto simp: in_scope_def reverse_iff hostsGlobal_def)
qed

text \<open>The rules of a node's map decide about its own workloads as all rules together do.\<close>

lemma own_rules_suffice:
  assumes "q \<in> set (rc_placements rc)" "pl_spaceID q \<noteq> systemSpaceID" "r \<in> set (rc_policyRules rc)" "npp_SpaceID (npr_Destination r) = pl_spaceID q"
  shows "r \<in> set (cnm_PolicyRules (renderNode rc (pl_nodeID q)))"
proof -
  have "pl_spaceID q \<in> forward rc (pl_nodeID q)" using assms(1,2) by (auto simp: forward_iff own_spaces_iff)
  then show ?thesis using assms(3,4) by (auto simp: renderNode_eq Let_def rule_spaces_def)
qed

lemma wire_rule:
  assumes "rule \<in> set (PolicyRulesFromNetMap rs)"
  obtains r where "r \<in> set rs" "policyRuleFromWire r = Inr rule" "peer_SpaceID (pr_Source rule) = of_nat (npp_SpaceID (npr_Source r))"
    "peer_SpaceID (pr_Destination rule) = of_nat (npp_SpaceID (npr_Destination r))" "npp_SpaceID (npr_Source r) \<le> 65535" "npp_SpaceID (npr_Destination r) \<le> 65535"
proof -
  from assms obtain r where r: "r \<in> set rs" "policyRuleFromWire r = Inr rule"
    by (auto simp: PolicyRulesFromNetMap_def split: sum.splits)
  have max: "unat MaxSpaceID = 65535" by (simp add: MaxSpaceID_def SpaceBits_def)
  from r(2) show ?thesis
    by (intro that [OF r]) (auto simp: policyRuleFromWire_def policyPeerFromWire_def bindE_Inr max split: if_splits)
qed

lemma wire_rule_mono: "set rs \<subseteq> set rs' \<Longrightarrow> set (PolicyRulesFromNetMap rs) \<subseteq> set (PolicyRulesFromNetMap rs')"
  by (auto simp: PolicyRulesFromNetMap_def)

lemma space_word: "a \<le> 65535 \<Longrightarrow> b \<le> 65535 \<Longrightarrow> (of_nat a :: 32 word) = of_nat b \<longleftrightarrow> a = b"
  by (auto simp: word_of_nat_eq_iff take_bit_nat_eq_self)

text \<open>
  C11. The maps carry the policy. Whenever the reference policy lets a user's workload open a connection to
  another, for all rules there are, then the node of the caller has the routes of the other and its node
  among its peers, and the other way round for the answers; and the rules in the map of the called node,
  a part of all rules, let the connection through as well.
\<close>

theorem maps_carry_policy:
  assumes "p \<in> set (rc_placements rc)" "q \<in> set (rc_placements rc)" "pl_spaceID p \<noteq> systemSpaceID" "pl_spaceID q \<noteq> systemSpaceID"
    and "pl_spaceID p \<le> 65535" "pl_spaceID q \<le> 65535" "la_SpaceID l = of_nat (pl_spaceID p)" "dep \<noteq> netproxy"
    and "may_reach netproxy (PolicyRulesFromNetMap (rc_policyRules rc)) dep (of_nat (pl_spaceID q)) l k"
  shows "set (placement_routes q) \<subseteq> set (cnm_Routes (renderNode rc (pl_nodeID p))) \<and> peer_entry rc (pl_nodeID q) \<in> set (cnm_Nodes (renderNode rc (pl_nodeID p))) \<and>
    set (placement_routes p) \<subseteq> set (cnm_Routes (renderNode rc (pl_nodeID q))) \<and> peer_entry rc (pl_nodeID p) \<in> set (cnm_Nodes (renderNode rc (pl_nodeID q))) \<and>
    may_reach netproxy (PolicyRulesFromNetMap (cnm_PolicyRules (renderNode rc (pl_nodeID q)))) dep (of_nat (pl_spaceID q)) l k"
proof -
  let ?q = "of_nat (pl_spaceID q) :: 32 word"
  have ids: "GlobalSpaceID = of_nat globalSpaceID" "SystemSpaceID = of_nat systemSpaceID"
    by (simp_all add: GlobalSpaceID_def globalSpaceID_def SystemSpaceID_def systemSpaceID_def)
  have small: "globalSpaceID \<le> 65535" "systemSpaceID \<le> 65535" by (simp_all add: globalSpaceID_def systemSpaceID_def)
  have "la_SpaceID l \<noteq> SystemSpaceID" unfolding assms(7) ids using space_word [OF assms(5) small(2)] assms(3) by simp
  with assms(8,9) consider (space) "?q = GlobalSpaceID \<or> la_SpaceID l = ?q"
    | (rule) rule where "rule \<in> set (PolicyRulesFromNetMap (rc_policyRules rc))" "peer_SpaceID (pr_Destination rule) = ?q"
      "peer_DeploymentID (pr_Destination rule) \<in> {0, dep}" "peer_matches (pr_Source rule) l" "port_allowed (pr_Ports rule) k"
    by (auto simp: may_reach_def)
  then have "(pl_spaceID q = globalSpaceID \<or> pl_spaceID p = pl_spaceID q \<or> pl_spaceID q \<in> out_edges rc (pl_spaceID p)) \<and>
      may_reach netproxy (PolicyRulesFromNetMap (cnm_PolicyRules (renderNode rc (pl_nodeID q)))) dep ?q l k"
  proof cases
    case space
    then show ?thesis unfolding may_reach_def assms(7) ids using space_word [OF assms(6) small(1)] space_word [OF assms(5,6)] by auto
  next
    case rule
    from rule(1) obtain r where r: "r \<in> set (rc_policyRules rc)" "policyRuleFromWire r = Inr rule" "peer_SpaceID (pr_Source rule) = of_nat (npp_SpaceID (npr_Source r))"
      "peer_SpaceID (pr_Destination rule) = of_nat (npp_SpaceID (npr_Destination r))" "npp_SpaceID (npr_Source r) \<le> 65535" "npp_SpaceID (npr_Destination r) \<le> 65535"
      by (rule wire_rule)
    have dst: "npp_SpaceID (npr_Destination r) = pl_spaceID q" using rule(2) r(4) space_word [OF r(6) assms(6)] by simp
    have src: "npp_SpaceID (npr_Source r) = pl_spaceID p" using rule(4) r(3) assms(7) space_word [OF r(5) assms(5)] by (simp add: peer_matches_def)
    have "r \<in> set (cnm_PolicyRules (renderNode rc (pl_nodeID q)))" by (rule own_rules_suffice [OF assms(2,4) r(1) dst])
    then have "rule \<in> set (PolicyRulesFromNetMap (cnm_PolicyRules (renderNode rc (pl_nodeID q))))" using r(2) by (force simp: PolicyRulesFromNetMap_def)
    then show ?thesis using rule(2-5) src dst r(1) by (auto simp: may_reach_def edges_iff)
  qed
  then show ?thesis using reachable_in_scope [OF assms(1-4)] scope_routes assms(1,2) by blast
qed

definition sample_placement :: "nat \<Rightarrow> nat \<Rightarrow> nat \<Rightarrow> placement" where
  "sample_placement node dep space = \<lparr>pl_instanceID = dep, pl_nodeID = node, pl_deploymentID = dep, pl_spaceID = space, pl_serving = False, pl_netproxy = False,
     pl_placement = no_prefix, pl_instance = no_prefix\<rparr>"

definition sample_wire_rule :: NetPolicyRule where
  "sample_wire_rule = \<lparr>npr_Source = \<lparr>npp_SpaceID = 2, npp_DeploymentID = 7\<rparr>, npr_Destination = \<lparr>npp_SpaceID = 3, npp_DeploymentID = 0\<rparr>,
     npr_Ports = [\<lparr>npm_Protocol = NET_PROTOCOL_TCP, npm_Start = 80, npm_End = 90\<rparr>]\<rparr>"

definition sample_context :: renderContext where
  "sample_context = \<lparr>rc_prefix = 1, rc_nodes = [], rc_nodeIDs = [1, 2], rc_placements = [sample_placement 1 7 2, sample_placement 2 8 3], rc_services = [],
     rc_policyRules = [sample_wire_rule], rc_published = [], rc_diagnostics = []\<rparr>"

definition sample_connection :: Packet where
  "sample_connection = \<lparr>pkt_Established = False, pkt_Iif = [], pkt_Oif = [], pkt_Src = NoAddr, pkt_Dst = NoAddr, pkt_Proto = IPPROTO_TCP, pkt_Port = 85\<rparr>"

definition sample_source :: LogicalAddr where
  "sample_source = \<lparr>la_SpaceID = 2, la_DeploymentID = 7, la_Ordinal = 0, la_PlacementSlot = 1, la_RunSlot = 1\<rparr>"

text \<open>A rule from space 2 to space 3: node 1 knows the way to the workload of node 2, and node 2 has the rule.\<close>

theorem maps_carry_policy_witness:
  "set (placement_routes (sample_placement 2 8 3)) \<subseteq> set (cnm_Routes (renderNode sample_context 1)) \<and>
   set (placement_routes (sample_placement 1 7 2)) \<subseteq> set (cnm_Routes (renderNode sample_context 2)) \<and>
   may_reach 9 (PolicyRulesFromNetMap (cnm_PolicyRules (renderNode sample_context 2))) 8 3 sample_source sample_connection"
proof -
  have wire: "PolicyRulesFromNetMap [sample_wire_rule] =
      [\<lparr>pr_Source = \<lparr>peer_SpaceID = 2, peer_DeploymentID = 7\<rparr>, pr_Destination = \<lparr>peer_SpaceID = 3, peer_DeploymentID = 0\<rparr>,
        pr_Ports = [\<lparr>pm_Protocol = IPPROTO_TCP, pm_Port = 80, pm_PortEnd = 90\<rparr>]\<rparr>]"
    by (simp add: PolicyRulesFromNetMap_def policyRuleFromWire_def policyPeerFromWire_def portMatchFromWire_def sample_wire_rule_def NET_PROTOCOL_TCP_def
        MaxSpaceID_def SpaceBits_def MaxDeploymentID_def DeploymentBits_def)
  have "may_reach 9 (PolicyRulesFromNetMap [sample_wire_rule]) 8 3 sample_source sample_connection"
    unfolding wire by (simp add: may_reach_def peer_matches_def port_allowed_def sample_source_def sample_connection_def)
  moreover have "rc_placements sample_context = [sample_placement 1 7 2, sample_placement 2 8 3]" "rc_policyRules sample_context = [sample_wire_rule]"
    by (simp_all add: sample_context_def)
  moreover have pl: "pl_nodeID (sample_placement n d t) = n" "pl_spaceID (sample_placement n d t) = t" for n d t by (simp_all add: sample_placement_def)
  ultimately show ?thesis
    using maps_carry_policy [of "sample_placement 1 7 2" sample_context "sample_placement 2 8 3" sample_source 8 9 sample_connection]
    by (simp add: sample_source_def systemSpaceID_def)
qed

end
