(* ===== verification/Publisher_Quiet.thy ===== *)
theory Publisher_Quiet
  imports Publisher_Scope
begin

text \<open>
  When the map of a node stays as it is. Two caches are compared through what they draw: the states of their
  instances, the resolved rules, the entries of their nodes and their ingress plans. A change is far from a
  node when the node is not among those the dirty set collects for it; a node that is far from every change
  has the same map in both contexts.
\<close>

section \<open>Tables\<close>

lemma map_filter_Cons [simp]: "List.map_filter f (x # xs) = (case f x of None \<Rightarrow> List.map_filter f xs | Some y \<Rightarrow> y # List.map_filter f xs)"
  by (cases "f x") (simp_all add: List.map_filter_def)

lemma map_filter_Nil [simp]: "List.map_filter f [] = []"
  by (simp add: List.map_filter_def)

lemma set_map_filter: "y \<in> set (List.map_filter f xs) \<longleftrightarrow> (\<exists>x \<in> set xs. f x = Some y)"
  by (induction xs) (auto split: option.splits)

text \<open>A list drawn from a table entry by entry is determined by what the entries give.\<close>

lemma drawn_table:
  assumes "tbl_wf t"
  shows "tbl_wf (List.map_filter (\<lambda>(i, x). map_option (Pair i) (f i x)) t) \<and>
    tbl_get (List.map_filter (\<lambda>(i, x). map_option (Pair i) (f i x)) t) i = Option.bind (tbl_get t i) (f i) \<and>
    fst ` set (List.map_filter (\<lambda>(i, x). map_option (Pair i) (f i x)) t) \<subseteq> fst ` set t"
  using assms
proof (induction t)
  case (Cons e t)
  obtain k v where e: "e = (k, v)" by (cases e)
  from Cons.prems have t: "tbl_wf t" and new: "\<And>x. x \<in> fst ` set t \<Longrightarrow> k < x" by (auto simp: tbl_wf_def e order.strict_iff_order)
  let ?r = "List.map_filter (\<lambda>(i, x). map_option (Pair i) (f i x)) t"
  note IH = Cons.IH [OF t]
  have lt: "\<And>x. x \<in> fst ` set ?r \<Longrightarrow> k < x" using IH new by blast
  then have none: "tbl_get ?r k = None" by (auto simp: map_of_eq_None_iff)
  show ?case
  proof (cases "f k v")
    case None
    then show ?thesis using IH none new e by (auto simp: Option.bind_def split: option.splits)
  next
    case (Some y)
    have "tbl_wf ((k, y) # ?r)" using IH lt by (force simp: tbl_wf_def)
    then show ?thesis using Some IH e by (auto split: option.splits)
  qed
qed (simp add: tbl_wf_def)

lemma drawn_eq:
  assumes "tbl_wf t" "tbl_wf t'" "\<And>i. Option.bind (tbl_get t i) (f i) = Option.bind (tbl_get t' i) (f' i)"
  shows "List.map_filter (\<lambda>(i, x). f i x) t = List.map_filter (\<lambda>(i, x). f' i x) t'"
proof -
  have snd: "List.map_filter (\<lambda>(i, x). g i x) u = map snd (List.map_filter (\<lambda>(i, x). map_option (Pair i) (g i x)) u)" for g and u :: "('k \<times> 'v) list"
    by (induction u) (auto split: option.splits)
  have "List.map_filter (\<lambda>(i, x). map_option (Pair i) (f i x)) t = List.map_filter (\<lambda>(i, x). map_option (Pair i) (f' i x)) t'"
    by (rule tbl_ext) (simp_all add: fun_eq_iff drawn_table [OF assms(1)] drawn_table [OF assms(2)] assms(3))
  then show ?thesis by (simp only: snd [of f t] snd [of f' t'])
qed

lemma filter_drawn: "filter P (List.map_filter f xs) = List.map_filter (\<lambda>x. case f x of None \<Rightarrow> None | Some y \<Rightarrow> if P y then Some y else None) xs"
  by (induction xs) (auto split: option.splits)

lemma in_table: "tbl_wf t \<Longrightarrow> (i, x) \<in> set t \<longleftrightarrow> tbl_get t i = Some x"
  by (simp add: tbl_wf_def)

lemma set_drawn: "tbl_wf t \<Longrightarrow> y \<in> set (List.map_filter (\<lambda>(i, x). f x) t) \<longleftrightarrow> (\<exists>i x. tbl_get t i = Some x \<and> f x = Some y)"
proof -
  have "y \<in> set (List.map_filter (\<lambda>(i, x). f x) t) \<longleftrightarrow> (\<exists>i x. (i, x) \<in> set t \<and> f x = Some y)" unfolding set_map_filter by force
  moreover assume "tbl_wf t"
  ultimately show ?thesis by (simp only: in_table)
qed

section \<open>What a cache draws\<close>

definition state_of :: "cache \<Rightarrow> ScheduledInstance \<Rightarrow> ScheduledInstanceState" where
  "state_of c inst = \<lparr>ss_Instance = inst, ss_Config = ve_record (the (tbl_get (ca_versions c) (instance_version inst)))\<rparr>"

definition spaces_of :: "cache \<Rightarrow> (nat, nat) table" where
  "spaces_of c = map (\<lambda>(i, r). (i, dep_SpaceID (drec_Deployment r))) (ca_current c)"

definition place_of :: "Prefix \<Rightarrow> ScheduledInstanceState \<Rightarrow> placement option" where
  "place_of prefix s = (if ss_placed s then (case placement_of prefix s of Inl _ \<Rightarrow> None | Inr p \<Rightarrow> Some p) else None)"

definition rule_of :: "(nat, nat) table \<Rightarrow> NetworkPolicy \<Rightarrow> NetPolicyRule option" where
  "rule_of deploymentSpaces policy = (case resolve_policy deploymentSpaces policy of Inr (Some r) \<Rightarrow> Some r | _ \<Rightarrow> None)"

definition drawn :: "Prefix \<Rightarrow> cache \<Rightarrow> ingressPlan \<Rightarrow> renderInputs \<Rightarrow> renderContext \<Rightarrow> bool" where
  "drawn prefix c plan inp rc \<longleftrightarrow> inputs c = Inr inp \<and> prepareRender prefix inp plan = Inr rc"

lemma mapE_drawn: "mapE f xs = Inr ys \<Longrightarrow> ys = List.map_filter (\<lambda>x. case f x of Inl _ \<Rightarrow> None | Inr y \<Rightarrow> Some y) xs"
  by (induction xs arbitrary: ys) (auto simp: bindE_Inr)

lemma mapE_all: "mapE f xs = Inr ys \<Longrightarrow> x \<in> set xs \<Longrightarrow> \<exists>y. f x = Inr y"
  by (induction xs arbitrary: ys) (auto simp: bindE_Inr)

lemma mapE_Inr_iff: "(\<exists>ys. mapE f xs = Inr ys) \<longleftrightarrow> (\<forall>x \<in> set xs. \<exists>y. f x = Inr y)"
  by (induction xs) (force simp: bindE_Inr)+

lemma inputs_Inr:
  assumes "inputs c = Inr inp"
  shows "inp = \<lparr>ri_nodes = map snd (ca_nodes c), ri_instances = map (\<lambda>(i, inst). state_of c inst) (ca_instances c), ri_deployments = map snd (ca_current c),
    ri_policies = map snd (ca_policies c), ri_deploymentSpaces = spaces_of c\<rparr>"
    and "(i, inst) \<in> set (ca_instances c) \<Longrightarrow> tbl_get (ca_versions c) (instance_version inst) \<noteq> None"
proof -
  from assms obtain ss where ss: "mapE (\<lambda>(i, inst). instance_state c inst) (ca_instances c) = Inr ss"
    and inp: "inp = \<lparr>ri_nodes = map snd (ca_nodes c), ri_instances = ss, ri_deployments = map snd (ca_current c),
      ri_policies = map snd (ca_policies c), ri_deploymentSpaces = spaces_of c\<rparr>"
    unfolding inputs_def bindE_Inr spaces_of_def by auto
  have "zs = map (\<lambda>(i, inst). state_of c inst) xs" if "mapE (\<lambda>(i, inst). instance_state c inst) xs = Inr zs" for xs zs
    using that by (induction xs arbitrary: zs) (auto simp: bindE_Inr instance_state_def state_of_def split: option.splits)
  then show "inp = \<lparr>ri_nodes = map snd (ca_nodes c), ri_instances = map (\<lambda>(i, inst). state_of c inst) (ca_instances c), ri_deployments = map snd (ca_current c),
    ri_policies = map snd (ca_policies c), ri_deploymentSpaces = spaces_of c\<rparr>" using ss inp by simp
  show "tbl_get (ca_versions c) (instance_version inst) \<noteq> None" if "(i, inst) \<in> set (ca_instances c)"
    using mapE_all [OF ss that] by (auto simp: instance_state_def split: option.splits)
qed

lemma renderPolicyRules_Inr:
  assumes "renderPolicyRules policies sp = Inr rules"
  shows "rules = sort_key comparePolicyRules (List.map_filter (rule_of sp) policies)"
proof -
  from assms obtain rs where rs: "mapE (resolve_policy sp) policies = Inr rs" "rules = sort_key comparePolicyRules (List.map_filter id rs)"
    by (auto simp: renderPolicyRules_def bindE_Inr)
  have "List.map_filter id zs = List.map_filter (rule_of sp) xs" if "mapE (resolve_policy sp) xs = Inr zs" for xs zs
    using that by (induction xs arbitrary: zs) (auto simp: bindE_Inr rule_of_def split: option.splits)
  with rs show ?thesis by simp
qed

lemma map_filter_map: "List.map_filter f (map g xs) = List.map_filter (f \<circ> g) xs"
  by (induction xs) (auto split: option.splits)

lemma drawn_context:
  assumes "drawn prefix c plan inp rc"
  shows "rc_prefix rc = prefix" "rc_nodeIDs rc = map (\<lambda>(i, n). node_ID n) (ca_nodes c)" "rc_nodes rc = map (\<lambda>(i, n). (node_ID n, node_entry plan n)) (ca_nodes c)"
    "rc_placements rc = List.map_filter (\<lambda>(i, inst). place_of prefix (state_of c inst)) (ca_instances c)"
    "rc_services rc = services_of (map (\<lambda>(i, inst). state_of c inst) (ca_instances c))"
    "rc_policyRules rc = sort_key comparePolicyRules (List.map_filter (\<lambda>(i, p). rule_of (spaces_of c) p) (ca_policies c))"
    "rc_published rc = ip_published plan"
proof -
  note inp = inputs_Inr(1) [OF assms [unfolded drawn_def, THEN conjunct1]]
  from assms obtain ps rules where ps: "mapE (placement_of prefix) (filter ss_placed (ri_instances inp)) = Inr ps"
    and rules: "renderPolicyRules (ri_policies inp) (ri_deploymentSpaces inp) = Inr rules"
    and rc: "rc = \<lparr>rc_prefix = prefix, rc_nodes = map (\<lambda>n. (node_ID n, node_entry plan n)) (ri_nodes inp), rc_nodeIDs = map node_ID (ri_nodes inp),
      rc_placements = ps, rc_services = services_of (ri_instances inp), rc_policyRules = rules, rc_published = ip_published plan, rc_diagnostics = ip_diagnostics plan\<rparr>"
    by (auto simp: drawn_def prepareRender_def bindE_Inr)
  have "List.map_filter f (filter ss_placed xs) = List.map_filter (\<lambda>s. if ss_placed s then f s else None) xs" for f :: "ScheduledInstanceState \<Rightarrow> placement option" and xs
    by (induction xs) (auto split: option.splits)
  then have "ps = List.map_filter (place_of prefix) (ri_instances inp)" using mapE_drawn [OF ps] by (simp add: place_of_def [abs_def])
  then show "rc_placements rc = List.map_filter (\<lambda>(i, inst). place_of prefix (state_of c inst)) (ca_instances c)"
    by (simp add: rc inp map_filter_map comp_def case_prod_beta')
  show "rc_policyRules rc = sort_key comparePolicyRules (List.map_filter (\<lambda>(i, p). rule_of (spaces_of c) p) (ca_policies c))"
    using renderPolicyRules_Inr [OF rules] by (simp add: rc inp map_filter_map comp_def case_prod_beta')
  show "rc_prefix rc = prefix" "rc_nodeIDs rc = map (\<lambda>(i, n). node_ID n) (ca_nodes c)" "rc_nodes rc = map (\<lambda>(i, n). (node_ID n, node_entry plan n)) (ca_nodes c)"
    "rc_services rc = services_of (map (\<lambda>(i, inst). state_of c inst) (ca_instances c))" "rc_published rc = ip_published plan"
    by (simp_all add: rc inp case_prod_beta')
qed

section \<open>Services\<close>

definition service_for :: "ScheduledInstanceState list \<Rightarrow> ScheduledInstanceState \<Rightarrow> ClusterNetMapService" where
  "service_for ss s = \<lparr>cns_Name = DNSLabel (dep_Name (drec_Deployment (ss_Config s))), cns_SpaceID = dep_SpaceID (drec_Deployment (ss_Config s)),
     cns_DeploymentID = ss_deployment s, cns_Ordinals = service_ordinals ss (ss_deployment s)\<rparr>"

lemma service_for_sel [simp]: "cns_DeploymentID (service_for ss s) = ss_deployment s" "cns_SpaceID (service_for ss s) = dep_SpaceID (drec_Deployment (ss_Config s))"
  by (simp_all add: service_for_def)

lemma fold_services:
  "distinct (map cns_DeploymentID acc) \<Longrightarrow>
   distinct (map cns_DeploymentID (fold (add_service all) ss acc)) \<and>
   set (fold (add_service all) ss acc) = set acc \<union>
     {service_for all x | x. ss_deployment x \<notin> cns_DeploymentID ` set acc \<and> find (\<lambda>y. ss_virtual y \<and> ss_deployment y = ss_deployment x) ss = Some x}"
proof (induction ss arbitrary: acc)
  case (Cons s ss)
  let ?acc = "add_service all s acc"
  have d: "distinct (map cns_DeploymentID ?acc)" using Cons.prems by (auto simp: add_service_def)
  note IH = Cons.IH [OF d]
  show ?case
  proof (cases "ss_virtual s \<and> ss_deployment s \<notin> cns_DeploymentID ` set acc")
    case True
    then have acc: "?acc = acc @ [service_for all s]" by (auto simp: add_service_def service_for_def)
    have "(ss_deployment x \<notin> cns_DeploymentID ` set acc \<and> find (\<lambda>y. ss_virtual y \<and> ss_deployment y = ss_deployment x) (s # ss) = Some x) \<longleftrightarrow>
       x = s \<or> (ss_deployment x \<notin> insert (ss_deployment s) (cns_DeploymentID ` set acc) \<and> find (\<lambda>y. ss_virtual y \<and> ss_deployment y = ss_deployment x) ss = Some x)" for x
      using True by auto
    then show ?thesis using IH by (auto simp: acc simp del: find.simps)
  next
    case False
    then have acc: "?acc = acc" by (auto simp: add_service_def)
    have "(ss_deployment x \<notin> cns_DeploymentID ` set acc \<and> find (\<lambda>y. ss_virtual y \<and> ss_deployment y = ss_deployment x) (s # ss) = Some x) \<longleftrightarrow>
       (ss_deployment x \<notin> cns_DeploymentID ` set acc \<and> find (\<lambda>y. ss_virtual y \<and> ss_deployment y = ss_deployment x) ss = Some x)" for x
      using False by (auto simp: image_iff)
    then show ?thesis using IH by (auto simp: acc simp del: find.simps)
  qed
qed simp

lemma services_of_iff:
  "s \<in> set (services_of ss) \<longleftrightarrow> (\<exists>x. s = service_for ss x \<and> find (\<lambda>y. ss_virtual y \<and> ss_deployment y = ss_deployment x) ss = Some x)"
  and services_of_distinct: "distinct (map cns_DeploymentID (services_of ss))"
  using fold_services [of "[]" ss ss] by (auto simp: services_of_def)

lemma find_filter: "find (\<lambda>y. P y \<and> Q y) xs = find P (filter Q xs)"
  by (induction xs) auto

lemma service_ordinals_own: "service_ordinals ss d = service_ordinals (filter (\<lambda>s. ss_deployment s = d) ss) d"
proof -
  have "filter (\<lambda>s. ss_placed s \<and> ss_deployment s = d \<and> Q s) ss = filter (\<lambda>s. ss_placed s \<and> ss_deployment s = d \<and> Q s) (filter (\<lambda>s. ss_deployment s = d) ss)" for Q
    unfolding filter_filter by (rule filter_cong) auto
  then have "established ss d o' = established (filter (\<lambda>s. ss_deployment s = d) ss) d o'" for o' by (simp only: established_def)
  then show ?thesis unfolding service_ordinals_def filter_filter conj_absorb by (simp only: filter_filter conj_absorb cong: filter_cong)
qed

text \<open>The service of a deployment is a matter of its own instances.\<close>

lemma services_local:
  assumes "filter (\<lambda>s. ss_deployment s = cns_DeploymentID x) ss = filter (\<lambda>s. ss_deployment s = cns_DeploymentID x) ss'" "x \<in> set (services_of ss)"
  shows "x \<in> set (services_of ss')"
proof -
  from assms(2) obtain y where y: "x = service_for ss y" "find (\<lambda>z. ss_virtual z \<and> ss_deployment z = ss_deployment y) ss = Some y" by (auto simp: services_of_iff)
  have "cns_DeploymentID x = ss_deployment y" by (simp add: y(1))
  with assms(1) have e: "filter (\<lambda>s. ss_deployment s = ss_deployment y) ss = filter (\<lambda>s. ss_deployment s = ss_deployment y) ss'" by simp
  have "x = service_for ss' y" unfolding y(1) service_for_def service_ordinals_own [of ss] service_ordinals_own [of ss'] e ..
  moreover have "find (\<lambda>z. ss_virtual z \<and> ss_deployment z = ss_deployment y) ss' = Some y" using y(2) unfolding find_filter e .
  ultimately show ?thesis by (auto simp: services_of_iff)
qed

section \<open>Where deployments live\<close>

text \<open>
  \<open>site\<close> gives the node and the space of a deployment's instances. The scheduler places a deployment on its
  dedicated node and in its space; a cache is sited as long as no instance of another space is left over
  from a move.
\<close>

definition cache_wf :: "cache \<Rightarrow> bool" where
  "cache_wf c \<longleftrightarrow> tbl_wf (ca_nodes c) \<and> tbl_wf (ca_instances c) \<and> tbl_wf (ca_versions c) \<and> tbl_wf (ca_current c) \<and> tbl_wf (ca_policies c) \<and>
    (\<forall>(i, n) \<in> set (ca_nodes c). node_ID n = i) \<and> (\<forall>(i, r) \<in> set (ca_current c). dep_ID (drec_Deployment r) = i)"

abbreviation owner :: "ScheduledInstance \<Rightarrow> nat" where
  "owner inst \<equiv> dref_DeploymentID (si_Deployment inst)"

definition at_site :: "(nat \<Rightarrow> nat \<times> nat) \<Rightarrow> ScheduledInstance \<Rightarrow> bool" where
  "at_site site inst \<longleftrightarrow> site (owner inst) = (si_NodeID inst, si_SpaceID inst)"

definition sited :: "(nat \<Rightarrow> nat \<times> nat) \<Rightarrow> cache \<Rightarrow> bool" where
  "sited site c \<longleftrightarrow> (\<forall>(i, inst) \<in> set (ca_instances c). at_site site inst \<and>
     dep_ID (drec_Deployment (ss_Config (state_of c inst))) = owner inst \<and>
     dep_SpaceID (drec_Deployment (ss_Config (state_of c inst))) = si_SpaceID inst)"

definition public_only :: "(nat \<Rightarrow> nat \<times> nat) \<Rightarrow> ingressPlan \<Rightarrow> bool" where
  "public_only site plan \<longleftrightarrow> tbl_wf (ip_published plan) \<and> (\<forall>n. \<forall>d \<in> set (slice_at (ip_published plan) n). snd (site d) \<noteq> systemSpaceID)"

lemma sitedD:
  assumes "sited site c" "(i, inst) \<in> set (ca_instances c)"
  shows "site (owner inst) = (si_NodeID inst, si_SpaceID inst)" "ss_deployment (state_of c inst) = owner inst"
    "dep_SpaceID (drec_Deployment (ss_Config (state_of c inst))) = si_SpaceID inst"
  using assms unfolding sited_def at_site_def ss_deployment_def by fastforce+

lemma state_of_instance [simp]: "ss_Instance (state_of c inst) = inst"
  by (simp add: state_of_def)

lemma place_of_Some:
  assumes "place_of prefix s = Some p"
  shows "pl_nodeID p = si_NodeID (ss_Instance s)" "pl_deploymentID p = ss_deployment s" "pl_spaceID p = dep_SpaceID (drec_Deployment (ss_Config s))"
    "pl_netproxy p \<Longrightarrow> pl_spaceID p = systemSpaceID"
  using assms
  by (auto simp: place_of_def placement_of_def Let_def bindE_Inr ss_deployment_def IsNetproxyIdentity_def internal_SpaceID_def systemSpaceID_def
      split: if_splits sum.splits)

lemma sited_placement:
  assumes "sited site c" "(i, inst) \<in> set (ca_instances c)" "place_of prefix (state_of c inst) = Some p"
  shows "site (owner inst) = (pl_nodeID p, pl_spaceID p)" "pl_deploymentID p = owner inst"
  using sitedD [OF assms(1,2)] place_of_Some [OF assms(3)] by simp_all

lemma drawn_placement:
  assumes "drawn prefix c plan inp rc" "sited site c" "p \<in> set (rc_placements rc)"
  shows "site (pl_deploymentID p) = (pl_nodeID p, pl_spaceID p)" "pl_netproxy p \<Longrightarrow> pl_spaceID p = systemSpaceID"
proof -
  from assms(3) obtain i inst where i: "(i, inst) \<in> set (ca_instances c)" "place_of prefix (state_of c inst) = Some p"
    unfolding drawn_context(4) [OF assms(1)] set_map_filter by auto
  show "site (pl_deploymentID p) = (pl_nodeID p, pl_spaceID p)" using sited_placement [OF assms(2) i] by simp
  show "pl_netproxy p \<Longrightarrow> pl_spaceID p = systemSpaceID" by (rule place_of_Some(4) [OF i(2)])
qed

section \<open>Far changes\<close>

text \<open>What \<open>dirtyInstance\<close> marks for an instance of the deployment \<open>d\<close> does not hold the node.\<close>

definition far :: "(nat \<Rightarrow> nat \<times> nat) \<Rightarrow> renderContext \<Rightarrow> nat \<Rightarrow> nat \<Rightarrow> bool" where
  "far site rc n d \<longleftrightarrow> fst (site d) \<noteq> n \<and>
    (if snd (site d) = systemSpaceID then n \<notin> hostsOfInto rc (slice_at (rc_published rc) (fst (site d)))
     else n \<notin> nodesReachingInto rc (snd (site d)) \<and> n \<notin> publishersOfInto rc d)"

lemma hosts_own: "n \<in> hostsInto rc s \<longleftrightarrow> s \<in> own_spaces rc n" if "s \<noteq> systemSpaceID"
  using that by (auto simp: hostsInto_iff own_spaces_iff)

lemma reaching:
  assumes "s \<in> forward rc n \<union> reverse rc n \<or> hostsGlobal rc n \<and> s \<noteq> systemSpaceID"
  shows "n \<in> nodesReachingInto rc s"
proof -
  have sym: "s \<in> out_edges rc o' \<longleftrightarrow> o' \<in> in_edges rc s" "s \<in> in_edges rc o' \<longleftrightarrow> o' \<in> out_edges rc s" for o' by (auto simp: edges_iff)
  have own: "n \<in> hostsInto rc o'" if "o' \<in> own_spaces rc n" for o' using that by (auto simp: hostsInto_iff own_spaces_iff)
  have any: "n \<in> set (map (node_at rc) (indices rc (\<lambda>p. pl_spaceID p \<noteq> systemSpaceID)))" if "own_spaces rc n \<noteq> {}"
    using that by (force simp: own_spaces_iff node_at_def in_set_conv_nth)
  have "s \<in> own_spaces rc n \<or> (\<exists>o' \<in> own_spaces rc n. s \<in> out_edges rc o' \<or> s \<in> in_edges rc o') \<or> s = globalSpaceID \<and> own_spaces rc n \<noteq> {} \<or> globalSpaceID \<in> own_spaces rc n"
    using assms by (auto simp: forward_iff reverse_iff hostsGlobal_def)
  then consider "n \<in> hostsInto rc s" | o' where "o' \<in> out_edges rc s \<union> in_edges rc s" "n \<in> hostsInto rc o'"
    | "s = globalSpaceID" "n \<in> set (map (node_at rc) (indices rc (\<lambda>p. pl_spaceID p \<noteq> systemSpaceID)))" | "n \<in> hostsInto rc globalSpaceID"
    using own any sym by blast
  then show ?thesis unfolding nodesReachingInto_def by cases (simp, blast, simp, simp)
qed

lemma far_not_in_scope:
  assumes "far site rc n (pl_deploymentID p)" "site (pl_deploymentID p) = (pl_nodeID p, pl_spaceID p)" "pl_netproxy p \<Longrightarrow> pl_spaceID p = systemSpaceID"
    and "tbl_wf (rc_published rc)" "\<And>m d. d \<in> set (slice_at (rc_published rc) m) \<Longrightarrow> snd (site d) \<noteq> systemSpaceID"
  shows "\<not> in_scope rc n p"
proof
  assume "in_scope rc n p"
  then consider "pl_nodeID p = n" | (space) "pl_spaceID p \<noteq> systemSpaceID" "pl_spaceID p \<in> forward rc n \<union> reverse rc n \<or> hostsGlobal rc n \<and> pl_spaceID p \<noteq> systemSpaceID"
    | (publishes) "pl_deploymentID p \<in> set (slice_at (rc_published rc) n)"
    | (netproxy) "pl_netproxy p" "n \<in> hostsOfInto rc (slice_at (rc_published rc) (pl_nodeID p))"
    unfolding in_scope_def by (auto simp: forward_iff reverse_iff)
  then show False
  proof cases
    case space
    then show False using reaching [OF space(2)] assms(1,2) by (simp add: far_def)
  next
    case publishes
    then show False using assms(1,2) assms(5) [OF publishes] publishersOfInto_iff [OF assms(4)] by (simp add: far_def)
  next
    case netproxy
    then show False using assms(1-3) by (simp add: far_def)
  qed (use assms(1,2) in \<open>simp add: far_def\<close>)
qed

lemma scope_seen:
  assumes "p \<in> set (rc_placements rc)" "in_scope rc n p" "site (pl_deploymentID p) = (pl_nodeID p, pl_spaceID p)" "pl_netproxy p \<Longrightarrow> pl_spaceID p = systemSpaceID"
    and "tbl_wf (rc_published rc)" "\<And>m d. d \<in> set (slice_at (rc_published rc) m) \<Longrightarrow> snd (site d) \<noteq> systemSpaceID"
  shows "n \<in> nodesSeeingInto rc (pl_nodeID p)"
proof -
  have own: "p \<in> set (own_placements rc (pl_nodeID p))" if "pl_spaceID p \<noteq> systemSpaceID" using assms(1) that by (simp add: own_placements_eq)
  from assms(2) consider "pl_nodeID p = n" | (space) "pl_spaceID p \<noteq> systemSpaceID" "pl_spaceID p \<in> forward rc n \<union> reverse rc n \<or> hostsGlobal rc n \<and> pl_spaceID p \<noteq> systemSpaceID"
    | (publishes) "pl_deploymentID p \<in> set (slice_at (rc_published rc) n)"
    | (netproxy) "pl_netproxy p" "n \<in> hostsOfInto rc (slice_at (rc_published rc) (pl_nodeID p))"
    unfolding in_scope_def by (auto simp: forward_iff reverse_iff)
  then show ?thesis
  proof cases
    case space
    then show ?thesis using reaching [OF space(2)] own by (auto simp: nodesSeeingInto_def)
  next
    case publishes
    then have "n \<in> publishersOfInto rc (pl_deploymentID p)" "pl_spaceID p \<noteq> systemSpaceID"
      using publishersOfInto_iff [OF assms(5)] assms(3) assms(6) [OF publishes] by simp_all
    then show ?thesis using own by (auto simp: nodesSeeingInto_def)
  qed (auto simp: nodesSeeingInto_def)
qed

section \<open>A node that no change concerns\<close>

definition rule_at :: "cache \<Rightarrow> nat \<Rightarrow> NetPolicyRule option" where
  "rule_at c i = Option.bind (tbl_get (ca_policies c) i) (rule_of (spaces_of c))"

definition node_key :: "Node \<Rightarrow> string \<times> Addr" where
  "node_key n = (nr_WgPublicKey (node_Reported n), IpAddress_Addr (nr_UnderlayAddress (node_Reported n)))"

abbreviation state_at :: "cache \<Rightarrow> nat \<Rightarrow> ScheduledInstanceState option" where
  "state_at c i \<equiv> map_option (state_of c) (tbl_get (ca_instances c) i)"

definition undisturbed :: "(nat \<Rightarrow> nat \<times> nat) \<Rightarrow> renderContext \<Rightarrow> nat \<Rightarrow> cache \<Rightarrow> ingressPlan \<Rightarrow> cache \<Rightarrow> ingressPlan \<Rightarrow> bool" where
  "undisturbed site rc n c plan c' plan' \<longleftrightarrow>
    (\<forall>i inst. state_at c i \<noteq> state_at c' i \<longrightarrow> tbl_get (ca_instances c) i = Some inst \<or> tbl_get (ca_instances c') i = Some inst \<longrightarrow> far site rc n (owner inst)) \<and>
    (\<forall>i r. rule_at c i \<noteq> rule_at c' i \<longrightarrow> rule_at c i = Some r \<or> rule_at c' i = Some r \<longrightarrow> (\<forall>s \<in> rule_spaces r. n \<notin> nodesReachingInto rc s)) \<and>
    (\<forall>m. map_option node_key (tbl_get (ca_nodes c) m) = map_option node_key (tbl_get (ca_nodes c') m)) \<and>
    slice_at (ip_published plan) n = slice_at (ip_published plan') n \<and>
    (\<forall>m. slice_at (ip_published plan) m \<noteq> slice_at (ip_published plan') m \<longrightarrow>
      n \<notin> hostsOfInto rc (slice_at (ip_published plan) m) \<and> n \<notin> hostsOfInto rc (slice_at (ip_published plan') m)) \<and>
    (\<forall>m. slice_at (ip_publish plan) m \<noteq> slice_at (ip_publish plan') m \<longrightarrow> n \<notin> nodesSeeingInto rc m)"

definition well_drawn :: "(nat \<Rightarrow> nat \<times> nat) \<Rightarrow> Prefix \<Rightarrow> cache \<Rightarrow> ingressPlan \<Rightarrow> renderInputs \<Rightarrow> renderContext \<Rightarrow> bool" where
  "well_drawn site prefix c plan inp rc \<longleftrightarrow> drawn prefix c plan inp rc \<and> cache_wf c \<and> sited site c \<and> public_only site plan"

lemma well_drawnD:
  assumes "well_drawn site prefix c plan inp rc"
  shows "drawn prefix c plan inp rc" "sited site c" "tbl_wf (ca_instances c)" "tbl_wf (ca_policies c)" "tbl_wf (ca_nodes c)" "tbl_wf (rc_published rc)"
    "\<And>m d. d \<in> set (slice_at (rc_published rc) m) \<Longrightarrow> snd (site d) \<noteq> systemSpaceID" "rc_published rc = ip_published plan"
  using assms drawn_context(7) [of prefix c plan inp rc] by (auto simp: well_drawn_def cache_wf_def public_only_def)

lemma placement_at:
  assumes "well_drawn site prefix c plan inp rc"
  shows "p \<in> set (rc_placements rc) \<longleftrightarrow> (\<exists>i. Option.bind (state_at c i) (place_of prefix) = Some p)"
  unfolding drawn_context(4) [OF well_drawnD(1) [OF assms]] set_drawn [OF well_drawnD(3) [OF assms]]
  by (auto simp: bind_eq_Some_conv)

lemma owner_of_placement:
  assumes "well_drawn site prefix c plan inp rc" "tbl_get (ca_instances c) i = Some inst" "place_of prefix (state_of c inst) = Some p"
  shows "pl_deploymentID p = owner inst" "site (owner inst) = (pl_nodeID p, pl_spaceID p)"
  using sited_placement [OF well_drawnD(2) [OF assms(1)] _ assms(3)] in_table [OF well_drawnD(3) [OF assms(1)]] assms(2) by auto

lemma far_change:
  assumes "undisturbed site rc n c plan c' plan'" "well_drawn site prefix c plan inp rc" "well_drawn site prefix c' plan' inp' rc'"
    and "state_at c i \<noteq> state_at c' i" "Option.bind (state_at c i) (place_of prefix) = Some p \<or> Option.bind (state_at c' i) (place_of prefix) = Some p"
  shows "far site rc n (pl_deploymentID p) \<and> site (pl_deploymentID p) = (pl_nodeID p, pl_spaceID p)"
proof -
  from assms(5) consider inst where "tbl_get (ca_instances c) i = Some inst" "place_of prefix (state_of c inst) = Some p"
    | inst where "tbl_get (ca_instances c') i = Some inst" "place_of prefix (state_of c' inst) = Some p" by (auto simp: bind_eq_Some_conv)
  then show ?thesis
  proof cases
    case 1
    then have "far site rc n (owner inst)" using assms(1,4) unfolding undisturbed_def by blast
    then show ?thesis using owner_of_placement [OF assms(2) 1] by simp
  next
    case 2
    then have "far site rc n (owner inst)" using assms(1,4) unfolding undisturbed_def by blast
    then show ?thesis using owner_of_placement [OF assms(3) 2] by simp
  qed
qed

lemma own_same:
  assumes "undisturbed site rc n c plan c' plan'" "well_drawn site prefix c plan inp rc" "well_drawn site prefix c' plan' inp' rc'" "pl_nodeID p = n"
  shows "p \<in> set (rc_placements rc) \<longleftrightarrow> p \<in> set (rc_placements rc')"
  unfolding placement_at [OF assms(2)] placement_at [OF assms(3)]
  using far_change [OF assms(1-3)] assms(4) unfolding far_def by (metis fst_conv)

lemma rule_in:
  assumes "well_drawn site prefix c plan inp rc"
  shows "r \<in> set (rc_policyRules rc) \<longleftrightarrow> (\<exists>i. rule_at c i = Some r)"
  unfolding drawn_context(6) [OF well_drawnD(1) [OF assms]] set_sort set_drawn [OF well_drawnD(4) [OF assms]]
  by (auto simp: rule_at_def bind_eq_Some_conv)

lemma rule_kept:
  assumes "undisturbed site rc n c plan c' plan'" "n \<in> nodesReachingInto rc s" "s \<in> rule_spaces r"
  shows "rule_at c i = Some r \<longleftrightarrow> rule_at c' i = Some r"
proof (rule ccontr)
  assume d: "\<not> (rule_at c i = Some r \<longleftrightarrow> rule_at c' i = Some r)"
  then have "rule_at c i \<noteq> rule_at c' i" "rule_at c i = Some r \<or> rule_at c' i = Some r" by auto
  then show False using assms unfolding undisturbed_def by blast
qed

lemma scope_same:
  assumes "undisturbed site rc n c plan c' plan'" "well_drawn site prefix c plan inp rc" "well_drawn site prefix c' plan' inp' rc'"
  shows "own_spaces rc n = own_spaces rc' n" "n \<in> hostsOfInto rc ds \<longleftrightarrow> n \<in> hostsOfInto rc' ds"
    "forward rc n = forward rc' n" "reverse rc n = reverse rc' n" "in_scope rc n = in_scope rc' n"
proof -
  note own = own_same [OF assms]
  show os: "own_spaces rc n = own_spaces rc' n" unfolding set_eq_iff own_spaces_iff using own by blast
  have hosts: "n \<in> hostsOfInto rc ds \<longleftrightarrow> n \<in> hostsOfInto rc' ds" for ds unfolding hostsOfInto_iff using own by blast
  then show "n \<in> hostsOfInto rc ds \<longleftrightarrow> n \<in> hostsOfInto rc' ds" .
  have touching: "r \<in> set (rc_policyRules rc) \<longleftrightarrow> r \<in> set (rc_policyRules rc')" if "s \<in> rule_spaces r" "s \<in> own_spaces rc n" for r s
  proof -
    have "n \<in> nodesReachingInto rc s" using that(2) hosts_own [of s n rc] by (auto simp: own_spaces_iff nodesReachingInto_def)
    then show ?thesis unfolding rule_in [OF assms(2)] rule_in [OF assms(3)] using rule_kept [OF assms(1) _ that(1)] by blast
  qed
  have e: "out_edges rc s = out_edges rc' s" "in_edges rc s = in_edges rc' s" if "s \<in> own_spaces rc n" for s
    unfolding set_eq_iff edges_iff using touching [OF _ that] unfolding rule_spaces_def by blast+
  show f: "forward rc n = forward rc' n" and r: "reverse rc n = reverse rc' n" unfolding set_eq_iff forward_iff reverse_iff os [symmetric] using e by blast+
  have "n \<in> hostsOfInto rc (slice_at (rc_published rc) m) \<longleftrightarrow> n \<in> hostsOfInto rc' (slice_at (rc_published rc') m)" for m
    using assms(1) unfolding hosts [symmetric] undisturbed_def well_drawnD(8) [OF assms(2)] well_drawnD(8) [OF assms(3)] by metis
  moreover have "slice_at (rc_published rc) n = slice_at (rc_published rc') n"
    using assms(1) unfolding undisturbed_def well_drawnD(8) [OF assms(2)] well_drawnD(8) [OF assms(3)] by blast
  ultimately show "in_scope rc n = in_scope rc' n" unfolding fun_eq_iff in_scope_def f r hostsGlobal_def os by simp
qed

lemma placements_same:
  assumes "undisturbed site rc n c plan c' plan'" "well_drawn site prefix c plan inp rc" "well_drawn site prefix c' plan' inp' rc'"
  shows "filter (in_scope rc n) (rc_placements rc) = filter (in_scope rc' n) (rc_placements rc')"
proof -
  note d = well_drawnD [OF assms(2)] and d' = well_drawnD [OF assms(3)]
  let ?f = "\<lambda>c (i :: nat) inst. case place_of prefix (state_of c inst) of None \<Rightarrow> None | Some p \<Rightarrow> if in_scope rc n p then Some p else None"
  have out: "\<not> in_scope rc n p" if "state_at c i \<noteq> state_at c' i"
    "Option.bind (state_at c i) (place_of prefix) = Some p \<or> Option.bind (state_at c' i) (place_of prefix) = Some p" for i p
  proof -
    have "p \<in> set (rc_placements rc) \<or> p \<in> set (rc_placements rc')" using that(2) placement_at [OF assms(2)] placement_at [OF assms(3)] by blast
    then have net: "pl_netproxy p \<Longrightarrow> pl_spaceID p = systemSpaceID" using drawn_placement(2) d(1,2) d'(1,2) by blast
    show ?thesis by (rule far_not_in_scope [where site = site]) (use far_change [OF assms that] net d(6,7) in auto)
  qed
  have "Option.bind (tbl_get (ca_instances c) i) (?f c i) = Option.bind (tbl_get (ca_instances c') i) (?f c' i)" for i
  proof (cases "state_at c i = state_at c' i")
    case True
    then show ?thesis by (cases "tbl_get (ca_instances c) i"; cases "tbl_get (ca_instances c') i") auto
  next
    case False
    have "Option.bind (tbl_get (ca_instances c) i) (?f c i) = None" "Option.bind (tbl_get (ca_instances c') i) (?f c' i) = None"
      using out [OF False] by (cases "tbl_get (ca_instances c) i"; force split: option.splits) (use out [OF False] in \<open>cases "tbl_get (ca_instances c') i"; force split: option.splits\<close>)
    then show ?thesis by simp
  qed
  from drawn_eq [OF d(3) d'(3) this] show ?thesis
    unfolding drawn_context(4) [OF d(1)] drawn_context(4) [OF d'(1)] filter_drawn scope_same(5) [OF assms, symmetric] by (simp add: case_prod_beta')
qed

lemma rules_same:
  assumes "undisturbed site rc n c plan c' plan'" "well_drawn site prefix c plan inp rc" "well_drawn site prefix c' plan' inp' rc'"
  shows "filter (\<lambda>r. rule_spaces r \<inter> (forward rc n \<union> reverse rc n) \<noteq> {}) (rc_policyRules rc) =
    filter (\<lambda>r. rule_spaces r \<inter> (forward rc' n \<union> reverse rc' n) \<noteq> {}) (rc_policyRules rc')"
proof -
  note d = well_drawnD [OF assms(2)] and d' = well_drawnD [OF assms(3)]
  let ?P = "\<lambda>r. rule_spaces r \<inter> (forward rc n \<union> reverse rc n) \<noteq> {}"
  let ?f = "\<lambda>c (i :: nat) p. case rule_of (spaces_of c) p of None \<Rightarrow> None | Some r \<Rightarrow> if ?P r then Some r else None"
  have f: "Option.bind (tbl_get (ca_policies e) i) (?f e i) = (case rule_at e i of None \<Rightarrow> None | Some r \<Rightarrow> if ?P r then Some r else None)" for e i
    by (cases "tbl_get (ca_policies e) i") (simp_all add: rule_at_def)
  have kept: "rule_at c i = Some r \<longleftrightarrow> rule_at c' i = Some r" if "?P r" for i r
  proof -
    from that obtain s where "s \<in> rule_spaces r" "s \<in> forward rc n \<union> reverse rc n" by blast
    then show ?thesis using rule_kept [OF assms(1)] reaching by blast
  qed
  have "Option.bind (tbl_get (ca_policies c) i) (?f c i) = Option.bind (tbl_get (ca_policies c') i) (?f c' i)" for i
    unfolding f using kept [of _ i] by (cases "rule_at c i"; cases "rule_at c' i") auto
  from drawn_eq [OF d(4) d'(4) this] show ?thesis
    unfolding drawn_context(6) [OF d(1)] drawn_context(6) [OF d'(1)] filter_sort filter_drawn scope_same(3,4) [OF assms, symmetric]
    by (simp add: case_prod_beta')
qed

lemma node_entry_at:
  assumes "drawn prefix c plan inp rc" "cache_wf c"
  shows "tbl_get (rc_nodes rc) m = map_option (node_entry plan) (tbl_get (ca_nodes c) m)"
proof -
  have "map_of (map (\<lambda>(i, n). (node_ID n, node_entry plan n)) t) m = map_option (node_entry plan) (map_of t m)" if "\<forall>(i, n) \<in> set t. node_ID n = i" for t
    using that by (induction t) auto
  moreover have "\<forall>(i, n) \<in> set (ca_nodes c). node_ID n = i" using assms(2) by (simp add: cache_wf_def)
  ultimately show ?thesis unfolding drawn_context(3) [OF assms(1)] by blast
qed

lemma node_at_ID: "well_drawn site prefix c plan inp rc \<Longrightarrow> tbl_get (ca_nodes c) m = Some x \<Longrightarrow> node_ID x = m"
  by (auto simp: well_drawn_def cache_wf_def dest: map_of_SomeD)

lemma entries_same:
  assumes "undisturbed site rc n c plan c' plan'" "well_drawn site prefix c plan inp rc" "well_drawn site prefix c' plan' inp' rc'"
    and "slice_at (ip_publish plan) m = slice_at (ip_publish plan') m"
  shows "tbl_get (rc_nodes rc) m = tbl_get (rc_nodes rc') m"
proof -
  have entry: "tbl_get (rc_nodes rc) m = map_option (node_entry plan) (tbl_get (ca_nodes c) m)" "tbl_get (rc_nodes rc') m = map_option (node_entry plan') (tbl_get (ca_nodes c') m)"
    using node_entry_at assms(2,3) unfolding well_drawn_def by blast+
  have key: "map_option node_key (tbl_get (ca_nodes c) m) = map_option node_key (tbl_get (ca_nodes c') m)" using assms(1) unfolding undisturbed_def by blast
  show ?thesis
  proof (cases "tbl_get (ca_nodes c) m")
    case None
    then show ?thesis using key by (simp add: entry)
  next
    case (Some a)
    then obtain b where b: "tbl_get (ca_nodes c') m = Some b" "node_key a = node_key b" using key by (cases "tbl_get (ca_nodes c') m") auto
    have "node_ID a = m" "node_ID b = m" using node_at_ID [OF assms(2) Some] node_at_ID [OF assms(3) b(1)] .
    then show ?thesis using b Some assms(4) by (simp add: entry node_entry_def node_key_def)
  qed
qed

lemma peers_same:
  assumes "undisturbed site rc n c plan c' plan'" "well_drawn site prefix c plan inp rc" "well_drawn site prefix c' plan' inp' rc'"
    and "m = n \<or> (\<exists>p \<in> set (rc_placements rc). in_scope rc n p \<and> pl_nodeID p = m)"
  shows "tbl_get (rc_nodes rc) m = tbl_get (rc_nodes rc') m"
proof (rule entries_same [OF assms(1-3)])
  note d = well_drawnD [OF assms(2)]
  have "n \<in> nodesSeeingInto rc m"
  proof (cases "m = n")
    case False
    with assms(4) obtain p where p: "p \<in> set (rc_placements rc)" "in_scope rc n p" "pl_nodeID p = m" by blast
    show ?thesis unfolding p(3) [symmetric]
      by (rule scope_seen [OF p(1,2), where site = site]) (use drawn_placement [OF d(1,2) p(1)] d(6,7) in auto)
  qed (simp add: nodesSeeingInto_def)
  then show "slice_at (ip_publish plan) m = slice_at (ip_publish plan') m" using assms(1) unfolding undisturbed_def by blast
qed

text \<open>The catalog of a node, service by service.\<close>

lemma in_catalog_iff:
  assumes "well_drawn site prefix c plan inp rc" "s \<in> set (rc_services rc)"
  shows "in_catalog rc n s \<longleftrightarrow> (\<exists>p \<in> set (rc_placements rc). pl_nodeID p = n \<and> pl_spaceID p \<noteq> systemSpaceID \<and> pl_deploymentID p = cns_DeploymentID s) \<or>
    cns_SpaceID s \<in> forward rc n \<or> cns_DeploymentID s \<in> set (slice_at (rc_published rc) n)"
proof -
  have "distinct (map cns_DeploymentID (rc_services rc))" unfolding drawn_context(5) [OF well_drawnD(1) [OF assms(1)]] by (rule services_of_distinct)
  then have "(\<exists>x \<in> set (rc_services rc). cns_SpaceID x \<in> forward rc n \<and> cns_DeploymentID x = cns_DeploymentID s) \<longleftrightarrow> cns_SpaceID s \<in> forward rc n"
    using assms(2) by (auto simp: distinct_map dest: inj_onD)
  then show ?thesis unfolding in_catalog_def scope_def Let_def nodeScope.select_convs Un_iff own_placements_eq by (auto simp: image_iff)
qed

lemma service_origin:
  assumes "well_drawn site prefix c plan inp rc" "s \<in> set (rc_services rc)"
  obtains i inst where "tbl_get (ca_instances c) i = Some inst" "owner inst = cns_DeploymentID s" "snd (site (cns_DeploymentID s)) = cns_SpaceID s"
proof -
  note d = well_drawnD [OF assms(1)]
  from assms(2) obtain x where x: "s = service_for (map (\<lambda>(i, inst). state_of c inst) (ca_instances c)) x"
    "find (\<lambda>y. ss_virtual y \<and> ss_deployment y = ss_deployment x) (map (\<lambda>(i, inst). state_of c inst) (ca_instances c)) = Some x"
    unfolding drawn_context(5) [OF d(1)] services_of_iff by blast
  have "y \<in> set xs" if "find P xs = Some y" for P and y :: ScheduledInstanceState and xs using that by (induction xs) (auto split: if_splits)
  from this [OF x(2)] obtain i inst where i: "(i, inst) \<in> set (ca_instances c)" "x = state_of c inst" by auto
  note t = sitedD [OF d(2) i(1)]
  show ?thesis by (rule that [of i inst]) (use t i in_table [OF d(3)] in \<open>auto simp: x(1)\<close>)
qed

lemma far_not_catalog:
  assumes "undisturbed site rc n c plan c' plan'" "well_drawn site prefix c plan inp rc" "well_drawn site prefix c' plan' inp' rc'"
    and "far site rc n (cns_DeploymentID s)" "snd (site (cns_DeploymentID s)) = cns_SpaceID s"
    and "rc'' = rc \<and> s \<in> set (rc_services rc) \<or> rc'' = rc' \<and> s \<in> set (rc_services rc')"
  shows "\<not> in_catalog rc'' n s"
proof
  assume cat: "in_catalog rc'' n s"
  note d = well_drawnD [OF assms(2)] and d' = well_drawnD [OF assms(3)]
  have pub: "slice_at (rc_published rc') n = slice_at (rc_published rc) n"
    using assms(1) unfolding undisturbed_def d(8) d'(8) by simp
  have "(\<exists>p \<in> set (rc_placements rc). pl_nodeID p = n \<and> pl_spaceID p \<noteq> systemSpaceID \<and> pl_deploymentID p = cns_DeploymentID s) \<or>
      cns_SpaceID s \<in> forward rc n \<or> cns_DeploymentID s \<in> set (slice_at (rc_published rc) n)"
    using assms(6)
  proof
    assume "rc'' = rc \<and> s \<in> set (rc_services rc)"
    then show ?thesis using cat in_catalog_iff [OF assms(2)] by simp
  next
    assume "rc'' = rc' \<and> s \<in> set (rc_services rc')"
    then show ?thesis using cat in_catalog_iff [OF assms(3)] own_same [OF assms(1-3)] scope_same(3) [OF assms(1-3)] pub by auto
  qed
  then consider p where "p \<in> set (rc_placements rc)" "pl_nodeID p = n" "pl_deploymentID p = cns_DeploymentID s"
    | "cns_SpaceID s \<in> forward rc n" | "cns_DeploymentID s \<in> set (slice_at (rc_published rc) n)" by blast
  then show False
  proof cases
    case 1
    then show False using drawn_placement(1) [OF d(1,2) 1(1)] assms(4) by (auto simp: far_def)
  next
    case 2
    then have "n \<in> nodesReachingInto rc (cns_SpaceID s)" "cns_SpaceID s \<noteq> systemSpaceID" using reaching [of "cns_SpaceID s" rc n] by (auto simp: forward_iff)
    then show False using assms(4,5) by (simp add: far_def)
  next
    case 3
    then show False using assms(4) d(7) [OF 3] publishersOfInto_iff [OF d(6)] by (simp add: far_def)
  qed
qed

lemma services_half:
  assumes "undisturbed site rc n c plan c' plan'" "well_drawn site prefix c plan inp rc" "well_drawn site prefix c' plan' inp' rc'"
    and unchanged: "\<And>i inst. owner inst = cns_DeploymentID s \<Longrightarrow> tbl_get (ca_instances c) i = Some inst \<or> tbl_get (ca_instances c') i = Some inst \<Longrightarrow> state_at c i = state_at c' i"
  shows "s \<in> set (rc_services rc) \<longleftrightarrow> s \<in> set (rc_services rc')"
proof -
  note d = well_drawnD [OF assms(2)] and d' = well_drawnD [OF assms(3)]
  let ?d = "cns_DeploymentID s"
  let ?f = "\<lambda>c (i :: nat) inst. if ss_deployment (state_of c inst) = ?d then Some (state_of c inst) else None"
  have f: "filter (\<lambda>s. ss_deployment s = ?d) (map (\<lambda>(i, inst). state_of e inst) t) = List.map_filter (\<lambda>(i, inst). ?f e i inst) t" for e and t :: "(nat \<times> ScheduledInstance) list"
    by (induction t) auto
  have dep: "ss_deployment (state_of c inst) = owner inst" if "tbl_get (ca_instances c) i = Some inst" for i inst
    using sitedD(2) [OF d(2)] in_table [OF d(3)] that by blast
  have dep': "ss_deployment (state_of c' inst) = owner inst" if "tbl_get (ca_instances c') i = Some inst" for i inst
    using sitedD(2) [OF d'(2)] in_table [OF d'(3)] that by blast
  have "Option.bind (tbl_get (ca_instances c) i) (?f c i) = Option.bind (tbl_get (ca_instances c') i) (?f c' i)" for i
  proof (cases "state_at c i = state_at c' i")
    case True
    then show ?thesis by (cases "tbl_get (ca_instances c) i"; cases "tbl_get (ca_instances c') i") auto
  next
    case False
    then have "owner inst \<noteq> ?d" if "tbl_get (ca_instances c) i = Some inst \<or> tbl_get (ca_instances c') i = Some inst" for inst using unchanged [OF _ that] by blast
    then show ?thesis using dep [of i] dep' [of i] by (cases "tbl_get (ca_instances c) i"; cases "tbl_get (ca_instances c') i") auto
  qed
  from drawn_eq [OF d(3) d'(3) this] have "filter (\<lambda>s. ss_deployment s = ?d) (map (\<lambda>(i, inst). state_of c inst) (ca_instances c)) =
      filter (\<lambda>s. ss_deployment s = ?d) (map (\<lambda>(i, inst). state_of c' inst) (ca_instances c'))" unfolding f .
  then show ?thesis unfolding drawn_context(5) [OF d(1)] drawn_context(5) [OF d'(1)] using services_local by metis
qed

lemma catalog_same:
  assumes "undisturbed site rc n c plan c' plan'" "well_drawn site prefix c plan inp rc" "well_drawn site prefix c' plan' inp' rc'"
  shows "{s \<in> set (rc_services rc). in_catalog rc n s} = {s \<in> set (rc_services rc'). in_catalog rc' n s}"
proof -
  note d = well_drawnD [OF assms(2)] and d' = well_drawnD [OF assms(3)]
  have pub: "slice_at (rc_published rc') n = slice_at (rc_published rc) n"
    using assms(1) unfolding undisturbed_def d(8) d'(8) by simp
  have "s \<in> set (rc_services rc) \<and> in_catalog rc n s \<longleftrightarrow> s \<in> set (rc_services rc') \<and> in_catalog rc' n s" for s
  proof (cases "\<exists>i inst. owner inst = cns_DeploymentID s \<and> (tbl_get (ca_instances c) i = Some inst \<or> tbl_get (ca_instances c') i = Some inst) \<and> state_at c i \<noteq> state_at c' i")
    case True
    then have far: "far site rc n (cns_DeploymentID s)" using assms(1) unfolding undisturbed_def by metis
    have "\<not> in_catalog rc n s" if "s \<in> set (rc_services rc)"
      using far_not_catalog [OF assms far, of rc] service_origin [OF assms(2) that] that by blast
    moreover have "\<not> in_catalog rc' n s" if "s \<in> set (rc_services rc')"
      using far_not_catalog [OF assms far, of rc'] service_origin [OF assms(3) that] that by blast
    ultimately show ?thesis by blast
  next
    case False
    then have same: "s \<in> set (rc_services rc) \<longleftrightarrow> s \<in> set (rc_services rc')" by (intro services_half [OF assms]) blast
    have "in_catalog rc n s \<longleftrightarrow> in_catalog rc' n s" if "s \<in> set (rc_services rc)"
      unfolding in_catalog_iff [OF assms(2) that] in_catalog_iff [OF assms(3) that [unfolded same]] pub scope_same(3) [OF assms, symmetric] using own_same [OF assms] by blast
    then show ?thesis using same by blast
  qed
  then show ?thesis by blast
qed

text \<open>A node that no change concerns has the map it had.\<close>

lemma undisturbed_map:
  assumes "undisturbed site rc n c plan c' plan'" "well_drawn site prefix c plan inp rc" "well_drawn site prefix c' plan' inp' rc'"
  shows "renderNode rc n = renderNode rc' n"
proof (rule renderNode_cong)
  note d = well_drawnD(1) [OF assms(2)] and d' = well_drawnD(1) [OF assms(3)]
  show "rc_prefix rc = rc_prefix rc'" by (simp add: drawn_context(1) [OF d] drawn_context(1) [OF d'])
  show "distinct (map cns_DeploymentID (rc_services rc))" "distinct (map cns_DeploymentID (rc_services rc'))"
    unfolding drawn_context(5) [OF d] drawn_context(5) [OF d'] by (rule services_of_distinct)+
qed (rule placements_same [OF assms] peers_same [OF assms] rules_same [OF assms] catalog_same [OF assms], assumption?)+

end
