(* ===== verification/Publisher_Fold.thy ===== *)
theory Publisher_Fold
  imports Publisher_Quiet
begin

text \<open>
  What the loop of \<open>applyLocked\<close> does to the cache and to the dirty set, phase by phase: the mutations come
  sorted by type, deployments first and statuses last.
\<close>

section \<open>The order of the mutations\<close>

lemma insort_between: "\<forall>a \<in> set A. f a < f x \<Longrightarrow> \<forall>b \<in> set B. f x \<le> f b \<Longrightarrow> insort_key f x (A @ B) = A @ x # B"
proof (induction A)
  case Nil
  then show ?case by (cases B) auto
qed auto

definition of_type :: "CoreEntityType \<Rightarrow> CoreMutation list \<Rightarrow> CoreMutation list" where
  "of_type t ms = filter (\<lambda>m. Type m = t) ms"

lemma sort_buckets:
  fixes f :: "'a \<Rightarrow> nat"
  assumes "\<forall>x \<in> set xs. f x < k"
  shows "sort_key f xs = concat (map (\<lambda>i. filter (\<lambda>x. f x = i) xs) [0 ..< k])"
  using assms
proof (induction xs)
  case (Cons x xs)
  let ?b = "\<lambda>xs i. filter (\<lambda>x. f x = i) xs"
  have split: "[0 ..< k] = [0 ..< f x] @ f x # [Suc (f x) ..< k]" using Cons.prems upt_add_eq_append [of 0 "f x" "k - f x"] upt_conv_Cons [of "f x" k] by simp
  have same: "map (?b (x # xs)) [0 ..< f x] = map (?b xs) [0 ..< f x]" "map (?b (x # xs)) [Suc (f x) ..< k] = map (?b xs) [Suc (f x) ..< k]" by auto
  have "sort_key f (x # xs) = insort_key f x (concat (map (?b xs) [0 ..< f x]) @ ?b xs (f x) @ concat (map (?b xs) [Suc (f x) ..< k]))"
    using Cons.IH Cons.prems unfolding split by simp
  also have "\<dots> = concat (map (?b xs) [0 ..< f x]) @ x # ?b xs (f x) @ concat (map (?b xs) [Suc (f x) ..< k])"
    by (rule insort_between) auto
  also have "\<dots> = concat (map (?b (x # xs)) [0 ..< k])" unfolding split map_append list.map same by simp
  finally show ?case .
qed simp

lemma ordered_phases:
  "ordered_mutations ms = of_type CORE_DEPLOYMENT ms @ of_type CORE_NODE ms @ of_type CORE_NETWORK_POLICY ms @
     of_type CORE_SCHEDULED_INSTANCE ms @ of_type CORE_SCHEDULED_INSTANCE_STATUS ms"
proof -
  let ?f = "\<lambda>m. mutationOrder (Type m)"
  let ?k = "filter (\<lambda>m. ?f m \<noteq> 0) ms"
  have b: "filter (\<lambda>m. ?f m = i) ?k = filter (\<lambda>m. ?f m = i \<and> i \<noteq> 0) ms" for i unfolding filter_filter by (rule filter_cong) auto
  have six: "[0 ..< 6] = [0, 1, 2, 3, 4, 5 :: nat]" by (simp add: upt_rec)
  have "sort_key ?f ?k = concat (map (\<lambda>i. filter (\<lambda>m. ?f m = i) ?k) [0 ..< 6])" by (rule sort_buckets) (auto simp: mutationOrder_def)
  also have "\<dots> = filter (\<lambda>m. ?f m = 1) ms @ filter (\<lambda>m. ?f m = 2) ms @ filter (\<lambda>m. ?f m = 3) ms @ filter (\<lambda>m. ?f m = 4) ms @ filter (\<lambda>m. ?f m = 5) ms"
    unfolding six b by simp
  also have "filter (\<lambda>m. ?f m = 1) ms = of_type CORE_DEPLOYMENT ms" unfolding of_type_def by (rule filter_cong) (auto simp: mutationOrder_def)
  also have "filter (\<lambda>m. ?f m = 2) ms = of_type CORE_NODE ms" unfolding of_type_def by (rule filter_cong) (auto simp: mutationOrder_def)
  also have "filter (\<lambda>m. ?f m = 3) ms = of_type CORE_NETWORK_POLICY ms" unfolding of_type_def by (rule filter_cong) (auto simp: mutationOrder_def)
  also have "filter (\<lambda>m. ?f m = 4) ms = of_type CORE_SCHEDULED_INSTANCE ms" unfolding of_type_def by (rule filter_cong) (auto simp: mutationOrder_def)
  also have "filter (\<lambda>m. ?f m = 5) ms = of_type CORE_SCHEDULED_INSTANCE_STATUS ms" unfolding of_type_def by (rule filter_cong) (auto simp: mutationOrder_def)
  finally show ?thesis unfolding ordered_mutations_def .
qed

section \<open>Deployments\<close>

text \<open>The dirty set and the flags only grow.\<close>

definition grows :: "fold_state \<Rightarrow> fold_state \<Rightarrow> bool" where
  "grows s s' \<longleftrightarrow> ds_nodes (fs_dirty s) \<subseteq> ds_nodes (fs_dirty s') \<and> (ds_all (fs_dirty s) \<longrightarrow> ds_all (fs_dirty s')) \<and>
    (fs_planDirty s \<longrightarrow> fs_planDirty s') \<and> (fs_inputsTouched s \<longrightarrow> fs_inputsTouched s')"

lemma grows_refl: "grows s s" and grows_trans: "grows s t \<Longrightarrow> grows t u \<Longrightarrow> grows s u"
  by (auto simp: grows_def)

text \<open>A version that is still there has the record it had.\<close>

definition versions_kept :: "versionKey set \<Rightarrow> cache \<Rightarrow> cache \<Rightarrow> bool" where
  "versions_kept K c c' \<longleftrightarrow> (\<forall>key \<in> K. \<forall>e'. tbl_get (ca_versions c') key = Some e' \<longrightarrow> (\<exists>e. tbl_get (ca_versions c) key = Some e \<and> ve_record e = ve_record e'))"

lemma versions_kept_refl: "versions_kept K c c"
  and versions_kept_trans: "versions_kept K c c' \<Longrightarrow> versions_kept K c' c'' \<Longrightarrow> versions_kept K c c''"
  unfolding versions_kept_def by (blast, metis)

definition plan_part :: "cache \<Rightarrow> PlanDeployment list" where
  "plan_part c = List.map_filter (\<lambda>(i, r). if IsInternalConfig r then None else Some (ingressInput r)) (ca_current c)"

definition used_versions :: "cache \<Rightarrow> versionKey set" where
  "used_versions c = instance_version ` snd ` set (ca_instances c)"

text \<open>A new version is not one that an instance runs.\<close>

definition new_version :: "cache \<Rightarrow> CoreMutation \<Rightarrow> bool" where
  "new_version c m \<longleftrightarrow> (case Meta m of None \<Rightarrow> True | Some meta \<Rightarrow> (EntityID m, meta_Version meta) \<notin> used_versions c)"

definition deployment_step :: "fold_state \<Rightarrow> fold_state \<Rightarrow> bool" where
  "deployment_step s s' \<longleftrightarrow> (let c = fs_cache s; c' = fs_cache s' in
     grows s s' \<and> cache_wf c' \<and> ca_nodes c' = ca_nodes c \<and> ca_instances c' = ca_instances c \<and> ca_policies c' = ca_policies c \<and>
     versions_kept (used_versions c) c c' \<and>
     (\<not> ds_all (fs_dirty s') \<longrightarrow> (\<forall>d. policyReferences c d \<longrightarrow> tbl_get (spaces_of c') d = tbl_get (spaces_of c) d)) \<and>
     (\<not> fs_planDirty s' \<longrightarrow> plan_part c' = plan_part c))"

lemma spaces_at: "tbl_get (spaces_of c) d = map_option (\<lambda>r. dep_SpaceID (drec_Deployment r)) (tbl_get (ca_current c) d)"
  unfolding spaces_of_def by (induction "ca_current c" arbitrary: c) (auto simp: map_of_map)

lemma keyed_put: "\<forall>(i, x) \<in> set t. P i x \<Longrightarrow> P k v \<Longrightarrow> \<forall>(i, x) \<in> set (tbl_put k v t). P i x"
  by (induction t) (auto split: if_splits)

lemma keyed_del: "\<forall>(i, x) \<in> set t. P i x \<Longrightarrow> \<forall>(i, x) \<in> set (tbl_del k t). P i x"
  by (auto simp: tbl_del_def)

lemma applyDeployment_Inr:
  assumes "applyDeployment m c = Inr ((prev, next), c')" "cache_wf c" "new_version c m"
  shows "prev = tbl_get (ca_current c) (EntityID m) \<and> tbl_get (ca_current c') = (tbl_get (ca_current c))(EntityID m := next) \<and>
      cache_wf c' \<and> ca_nodes c' = ca_nodes c \<and> ca_instances c' = ca_instances c \<and> ca_policies c' = ca_policies c \<and> versions_kept (used_versions c) c c' \<and>
      (\<forall>r. next = Some r \<longrightarrow> dep_ID (drec_Deployment r) = EntityID m)"
proof -
  have wf: "tbl_wf (ca_versions c)" "tbl_wf (ca_current c)" "\<forall>(i, r) \<in> set (ca_current c). dep_ID (drec_Deployment r) = i" using assms(2) by (auto simp: cache_wf_def)
  have filt: "tbl_get (filter P t) k = Some e \<Longrightarrow> tbl_wf t \<Longrightarrow> tbl_get t k = Some e" for P and t :: "(versionKey, versionEntry) table" and k e
    using in_table [of t k e] in_table [of "filter P t" k e] tbl_filter_wf [of t P] by simp
  consider (del) "Kind m = VERB_DELETE" "prev = tbl_get (ca_current c) (EntityID m)" "next = None"
      "c' = c\<lparr>ca_current := tbl_del (EntityID m) (ca_current c), ca_versions := filter (\<lambda>(key, e). \<not> (fst key = EntityID m \<and> ve_pins e \<le> 0)) (ca_versions c)\<rparr>"
    | (put) meta val versions where "Kind m \<noteq> VERB_DELETE" "Meta m = Some meta" "prev = tbl_get (ca_current c) (EntityID m)"
      "next = Some \<lparr>drec_Deployment = val\<lparr>dep_ID := EntityID m\<rparr>, drec_Meta = meta\<rparr>"
      "c' = c\<lparr>ca_current := tbl_put (EntityID m) (the next) (ca_current c), ca_versions := versions\<rparr>"
      "versions = tbl_put (EntityID m, meta_Version meta) \<lparr>ve_record = the next, ve_pins = 0\<rparr> (ca_versions c) \<or>
       (\<exists>key. versions = tbl_del key (tbl_put (EntityID m, meta_Version meta) \<lparr>ve_record = the next, ve_pins = 0\<rparr> (ca_versions c)))"
  proof (cases "Kind m = VERB_DELETE")
    case True
    then show ?thesis using assms(1) by (intro del) (auto simp: applyDeployment_def Let_def)
  next
    case False
    then obtain meta val where "Meta m = Some meta" "Entity m = Some (EDeployment val)"
      using assms(1) unfolding applyDeployment_def Let_def by (auto split: option.splits CoreEntity.splits)
    then show ?thesis using False assms(1) by (intro put [of meta val "ca_versions c'"]) (auto simp: applyDeployment_def Let_def split: option.splits if_splits, blast)
  qed
  then show ?thesis
  proof cases
    case del
    have "versions_kept (used_versions c) c c'" unfolding versions_kept_def using filt [OF _ wf(1)] by (auto simp: del(4))
    moreover have "cache_wf c'" using assms(2) keyed_del [OF wf(3)] by (simp add: del(4) cache_wf_def tbl_del_wf tbl_filter_wf)
    ultimately show ?thesis using del by (auto simp: fun_eq_iff tbl_get_del)
  next
    case put
    have new: "(EntityID m, meta_Version meta) \<notin> used_versions c" using assms(3) put(2) by (simp add: new_version_def)
    have "versions_kept (used_versions c) c c'" unfolding versions_kept_def
      using put(6) new by (auto simp: put(5) tbl_get_put [OF wf(1)] tbl_get_del split: if_splits)
    moreover have "tbl_wf versions" using put(6) wf(1) by (auto simp: tbl_put_wf tbl_del_wf)
    then have "cache_wf c'" using assms(2) keyed_put [OF wf(3), where k = "EntityID m" and v = "the next"] put(4) by (simp add: put(5) cache_wf_def tbl_put_wf)
    ultimately show ?thesis using put by (auto simp: fun_eq_iff tbl_get_put [OF wf(2)])
  qed
qed

lemma dirtyDeployment_marks:
  assumes "dirtyDeployment rc c prev next (d, plan) = (d', plan')"
    and "\<And>r. next = Some r \<Longrightarrow> dep_ID (drec_Deployment r) = i" "\<And>r. prev = Some r \<Longrightarrow> dep_ID (drec_Deployment r) = i"
  shows "ds_nodes d \<subseteq> ds_nodes d' \<and> (ds_all d \<longrightarrow> ds_all d') \<and> (plan \<longrightarrow> plan') \<and>
    (\<not> plan' \<longrightarrow> (\<exists>p n. prev = Some p \<and> next = Some n \<and> dep_SpaceID (drec_Deployment p) = dep_SpaceID (drec_Deployment n) \<and> ingressInput p = ingressInput n)) \<and>
    (\<not> ds_all d' \<longrightarrow> policyReferences c i \<longrightarrow> map_option (\<lambda>r. dep_SpaceID (drec_Deployment r)) prev = map_option (\<lambda>r. dep_SpaceID (drec_Deployment r)) next)"
proof (cases prev)
  case prev: None
  show ?thesis
  proof (cases "next")
    case None
    then show ?thesis using prev assms(1) by (auto simp: dirtyDeployment_def Let_def split: if_splits)
  next
    case (Some n)
    then show ?thesis using prev assms(1) assms(2) [OF Some] by (auto simp: dirtyDeployment_def Let_def dirty_add_def split: if_splits)
  qed
next
  case prev: (Some p)
  show ?thesis
  proof (cases "next")
    case None
    then show ?thesis using prev assms(1) assms(3) [OF prev] by (auto simp: dirtyDeployment_def Let_def dirty_add_def split: if_splits)
  next
    case (Some n)
    then show ?thesis using prev assms(1) assms(2) [OF Some] by (auto simp: dirtyDeployment_def Let_def dirty_add_def split: if_splits)
  qed
qed

lemma same_input_internal:
  assumes "ingressInput p = ingressInput n" "dep_SpaceID (drec_Deployment p) = dep_SpaceID (drec_Deployment n)"
  shows "IsInternalConfig p = IsInternalConfig n"
proof -
  have "pd_Name (ingressInput r) = dep_Name (drec_Deployment r)" for r by (simp add: ingressInput_def DeploymentFromSpec_def Let_def)
  then have "dep_Name (drec_Deployment p) = dep_Name (drec_Deployment n)" using assms(1) by metis
  then show ?thesis using assms(2) by (simp add: IsInternalConfig_def)
qed

lemma deployment_mutation:
  assumes "apply_mutation rc m s = Inr s'" "Type m = CORE_DEPLOYMENT" "cache_wf (fs_cache s)" "new_version (fs_cache s) m"
  shows "deployment_step s s'"
proof -
  let ?c = "fs_cache s" and ?space = "\<lambda>r. dep_SpaceID (drec_Deployment r)"
  from assms(1,2) obtain prev "next" c' where a: "applyDeployment m ?c = Inr ((prev, next), c')"
    and t: "(case dirtyDeployment rc c' prev next (fs_dirty s, fs_planDirty s) of (d, plan) \<Rightarrow> s\<lparr>fs_cache := c', fs_dirty := d, fs_planDirty := plan, fs_inputsTouched := True\<rparr>) = s'"
    by (cases "applyDeployment m ?c") (auto simp: apply_mutation_def case_prod_beta' Let_def)
  obtain d plan where d: "dirtyDeployment rc c' prev next (fs_dirty s, fs_planDirty s) = (d, plan)" by (cases "dirtyDeployment rc c' prev next (fs_dirty s, fs_planDirty s)")
  with t have s': "s' = s\<lparr>fs_cache := c', fs_dirty := d, fs_planDirty := plan, fs_inputsTouched := True\<rparr>" by simp
  note u = applyDeployment_Inr [OF a assms(3,4)]
  have prev: "dep_ID (drec_Deployment r) = EntityID m" if "prev = Some r" for r using that u assms(3) by (auto simp: cache_wf_def dest!: map_of_SomeD)
  have "ds_nodes (fs_dirty s) \<subseteq> ds_nodes d \<and> (ds_all (fs_dirty s) \<longrightarrow> ds_all d) \<and> (fs_planDirty s \<longrightarrow> plan) \<and>
    (\<not> plan \<longrightarrow> (\<exists>p n. prev = Some p \<and> next = Some n \<and> ?space p = ?space n \<and> ingressInput p = ingressInput n)) \<and>
    (\<not> ds_all d \<longrightarrow> policyReferences c' (EntityID m) \<longrightarrow> map_option ?space prev = map_option ?space next)"
    by (rule dirtyDeployment_marks [OF d]) (use u prev in blast)+
  then have marks: "ds_nodes (fs_dirty s) \<subseteq> ds_nodes d" "ds_all (fs_dirty s) \<Longrightarrow> ds_all d" "fs_planDirty s \<Longrightarrow> plan"
    "\<not> plan \<Longrightarrow> \<exists>p n. prev = Some p \<and> next = Some n \<and> ?space p = ?space n \<and> ingressInput p = ingressInput n"
    "\<not> ds_all d \<Longrightarrow> policyReferences c' (EntityID m) \<Longrightarrow> map_option ?space prev = map_option ?space next" by blast+
  have refs: "policyReferences c' = policyReferences ?c" using u by (auto simp: policyReferences_def fun_eq_iff)
  have "tbl_get (spaces_of c') i = tbl_get (spaces_of ?c) i" if "\<not> ds_all d" "policyReferences ?c i" for i
    using marks(5) [OF that(1)] that(2) u unfolding spaces_at refs by (cases "i = EntityID m") auto
  moreover have "plan_part c' = plan_part ?c" if "\<not> plan" unfolding plan_part_def
  proof (rule drawn_eq)
    show "tbl_wf (ca_current c')" "tbl_wf (ca_current ?c)" using u assms(3) by (simp_all add: cache_wf_def)
    from marks(4) [OF that] obtain p n where pn: "prev = Some p" "next = Some n" "?space p = ?space n" "ingressInput p = ingressInput n" by blast
    show "Option.bind (tbl_get (ca_current c') i) (\<lambda>r. if IsInternalConfig r then None else Some (ingressInput r)) =
        Option.bind (tbl_get (ca_current ?c) i) (\<lambda>r. if IsInternalConfig r then None else Some (ingressInput r))" for i
    proof (cases "i = EntityID m")
      case True
      have "tbl_get (ca_current ?c) i = Some p" "tbl_get (ca_current c') i = Some n" using u pn(1,2) True by auto
      then show ?thesis using same_input_internal [OF pn(4,3)] pn(4) by simp
    next
      case False
      then show ?thesis using u by simp
    qed
  qed
  ultimately show ?thesis using u marks(1-3) unfolding deployment_step_def grows_def Let_def s' by simp
qed

lemma deployment_step_trans:
  assumes "deployment_step s t" "deployment_step t u"
  shows "deployment_step s u"
proof -
  let ?c = "fs_cache s" and ?d = "fs_cache t"
  have p: "ca_policies ?d = ca_policies ?c" "ca_instances ?d = ca_instances ?c" using assms(1) by (simp_all add: deployment_step_def Let_def)
  then have eq: "policyReferences ?d = policyReferences ?c" "used_versions ?d = used_versions ?c" by (auto simp: policyReferences_def used_versions_def fun_eq_iff)
  note s = assms(1) [unfolded deployment_step_def Let_def] and t = assms(2) [unfolded deployment_step_def Let_def eq]
  have g: "grows s t" "grows t u" using s t by blast+
  then have "\<not> ds_all (fs_dirty u) \<Longrightarrow> \<not> ds_all (fs_dirty t)" "\<not> fs_planDirty u \<Longrightarrow> \<not> fs_planDirty t" by (auto simp: grows_def)
  then have "\<not> ds_all (fs_dirty u) \<longrightarrow> (\<forall>d. policyReferences ?c d \<longrightarrow> tbl_get (spaces_of (fs_cache u)) d = tbl_get (spaces_of ?c) d)"
    "\<not> fs_planDirty u \<longrightarrow> plan_part (fs_cache u) = plan_part ?c" using s t by simp_all
  moreover have "versions_kept (used_versions ?c) ?c (fs_cache u)" using s t versions_kept_trans by blast
  ultimately show ?thesis using grows_trans [OF g] s t unfolding deployment_step_def Let_def by simp
qed

lemma deployments_fold:
  assumes "foldE (apply_mutation rc) ms s = Inr s'" "\<forall>m \<in> set ms. Type m = CORE_DEPLOYMENT" "cache_wf (fs_cache s)" "\<forall>m \<in> set ms. new_version (fs_cache s) m"
  shows "deployment_step s s'"
  using assms
proof (induction ms arbitrary: s)
  case Nil
  then show ?case by (simp add: deployment_step_def Let_def grows_refl versions_kept_refl)
next
  case (Cons m ms)
  from Cons.prems(1) obtain t where t: "apply_mutation rc m s = Inr t" "foldE (apply_mutation rc) ms t = Inr s'" by (auto simp: bindE_Inr)
  have step: "deployment_step s t" by (rule deployment_mutation [OF t(1)]) (use Cons.prems in simp_all)
  then have "cache_wf (fs_cache t)" "ca_instances (fs_cache t) = ca_instances (fs_cache s)" by (simp_all add: deployment_step_def Let_def)
  then have "cache_wf (fs_cache t)" "used_versions (fs_cache t) = used_versions (fs_cache s)" by (simp_all add: used_versions_def)
  then have "cache_wf (fs_cache t)" "new_version (fs_cache t) = new_version (fs_cache s)" by (simp, simp only: new_version_def [abs_def])
  then show ?case using deployment_step_trans [OF step Cons.IH [OF t(2)]] Cons.prems(2,4) by simp
qed

section \<open>Nodes\<close>

definition member_part :: "cache \<Rightarrow> PlanNode list" where
  "member_part c = map (\<lambda>(i, n). \<lparr>pn_ID = node_ID n, pn_HostAddresses = HostAddresses (nr_HostAddresses (node_Reported n))\<rparr>) (ca_nodes c)"

definition node_step :: "fold_state \<Rightarrow> fold_state \<Rightarrow> bool" where
  "node_step s s' \<longleftrightarrow> (let c = fs_cache s; c' = fs_cache s' in
     grows s s' \<and> cache_wf c' \<and> ca_instances c' = ca_instances c \<and> ca_policies c' = ca_policies c \<and> ca_versions c' = ca_versions c \<and> ca_current c' = ca_current c \<and>
     (\<not> ds_all (fs_dirty s') \<longrightarrow> (\<forall>m. map_option node_key (tbl_get (ca_nodes c') m) = map_option node_key (tbl_get (ca_nodes c) m))) \<and>
     (\<not> fs_planDirty s' \<longrightarrow> member_part c' = member_part c))"

lemma applyNode_Inr:
  assumes "applyNode m c = Inr ((prev, next), c')" "cache_wf c"
  shows "prev = tbl_get (ca_nodes c) (EntityID m) \<and> tbl_get (ca_nodes c') = (tbl_get (ca_nodes c))(EntityID m := next) \<and> cache_wf c' \<and>
    c' = c\<lparr>ca_nodes := ca_nodes c'\<rparr> \<and> (\<forall>n. next = Some n \<longrightarrow> node_ID n = EntityID m)"
proof -
  have wf: "tbl_wf (ca_nodes c)" "\<forall>(i, n) \<in> set (ca_nodes c). node_ID n = i" using assms(2) by (simp_all add: cache_wf_def)
  have gone: "tbl_get (tbl_del (EntityID m) (ca_nodes c)) = (tbl_get (ca_nodes c))(EntityID m := None)" "cache_wf (c\<lparr>ca_nodes := tbl_del (EntityID m) (ca_nodes c)\<rparr>)"
    using assms(2) keyed_del [OF wf(2)] by (simp_all add: fun_eq_iff tbl_get_del cache_wf_def tbl_del_wf)
  have put: "tbl_get (tbl_put (EntityID m) n (ca_nodes c)) = (tbl_get (ca_nodes c))(EntityID m := Some n)"
    "node_ID n = EntityID m \<Longrightarrow> cache_wf (c\<lparr>ca_nodes := tbl_put (EntityID m) n (ca_nodes c)\<rparr>)" for n
    using assms(2) keyed_put [OF wf(2), where k = "EntityID m" and v = n] by (simp_all add: fun_eq_iff tbl_get_put [OF wf(1)] cache_wf_def tbl_put_wf)
  show ?thesis
  proof (cases "next")
    case None
    then have "prev = tbl_get (ca_nodes c) (EntityID m)" "c' = c\<lparr>ca_nodes := tbl_del (EntityID m) (ca_nodes c)\<rparr>"
      using assms(1) by (auto simp: applyNode_def Let_def split: if_splits option.splits CoreEntity.splits)
    then show ?thesis using gone None by simp
  next
    case (Some n)
    then have "prev = tbl_get (ca_nodes c) (EntityID m)" "c' = c\<lparr>ca_nodes := tbl_put (EntityID m) n (ca_nodes c)\<rparr>" "node_ID n = EntityID m"
      using assms(1) by (auto simp: applyNode_def Let_def split: if_splits option.splits CoreEntity.splits)
    then show ?thesis using put Some by simp
  qed
qed

lemma dirtyNode_marks:
  assumes "dirtyNode prev next (d, plan) = (d', plan')"
  shows "ds_nodes d \<subseteq> ds_nodes d' \<and> (ds_all d \<longrightarrow> ds_all d') \<and> (plan \<longrightarrow> plan') \<and>
    (\<not> ds_all d' \<longrightarrow> map_option node_key prev = map_option node_key next) \<and>
    (\<not> plan' \<longrightarrow> (\<exists>p n. prev = Some p \<and> next = Some n \<and> HostAddresses (nr_HostAddresses (node_Reported p)) = HostAddresses (nr_HostAddresses (node_Reported n))))"
  using assms by (cases prev; cases "next") (auto simp: dirtyNode_def Let_def node_key_def split: if_splits)

lemma apply_node:
  assumes "apply_mutation rc m s = Inr s'" "Type m = CORE_NODE"
  obtains prev "next" c' where "applyNode m (fs_cache s) = Inr ((prev, next), c')"
    and "(if prev = None \<and> next = None then s\<lparr>fs_cache := c'\<rparr>
      else case dirtyNode prev next (fs_dirty s, fs_planDirty s) of (d, plan) \<Rightarrow> s\<lparr>fs_cache := c', fs_dirty := d, fs_planDirty := plan, fs_inputsTouched := True\<rparr>) = s'"
  using assms by (cases "applyNode m (fs_cache s)") (auto simp: apply_mutation_def case_prod_beta' Let_def split: if_splits)

lemma node_mutation:
  assumes "apply_mutation rc m s = Inr s'" "Type m = CORE_NODE" "cache_wf (fs_cache s)"
  shows "node_step s s'"
proof -
  let ?c = "fs_cache s"
  from apply_node [OF assms(1,2)] obtain prev "next" c' where a: "applyNode m ?c = Inr ((prev, next), c')"
    and t: "(if prev = None \<and> next = None then s\<lparr>fs_cache := c'\<rparr>
      else case dirtyNode prev next (fs_dirty s, fs_planDirty s) of (d, plan) \<Rightarrow> s\<lparr>fs_cache := c', fs_dirty := d, fs_planDirty := plan, fs_inputsTouched := True\<rparr>) = s'" .
  note u = applyNode_Inr [OF a assms(3)]
  have same: "member_part c' = member_part ?c"
    if "prev = None \<and> next = None \<or> (\<exists>p n. prev = Some p \<and> next = Some n \<and> HostAddresses (nr_HostAddresses (node_Reported p)) = HostAddresses (nr_HostAddresses (node_Reported n)))"
  proof -
    let ?f = "\<lambda>(i :: nat) n. Some \<lparr>pn_ID = node_ID n, pn_HostAddresses = HostAddresses (nr_HostAddresses (node_Reported n))\<rparr>"
    have f: "member_part e = List.map_filter (\<lambda>(i, n). ?f i n) (ca_nodes e)" for e unfolding member_part_def by (induction "ca_nodes e" arbitrary: e) (auto simp: List.map_filter_def comp_def case_prod_beta')
    have id: "node_ID p = EntityID m" if "prev = Some p" for p using that u assms(3) by (auto simp: cache_wf_def dest!: map_of_SomeD)
    have "Option.bind (tbl_get (ca_nodes c') i) (?f i) = Option.bind (tbl_get (ca_nodes ?c) i) (?f i)" for i
      using that u id by (cases "i = EntityID m") auto
    moreover have "tbl_wf (ca_nodes c')" "tbl_wf (ca_nodes ?c)" using u assms(3) by (simp_all add: cache_wf_def)
    ultimately show ?thesis unfolding f by (intro drawn_eq)
  qed
  have rest: "ca_instances c' = ca_instances ?c" "ca_policies c' = ca_policies ?c" "ca_versions c' = ca_versions ?c" "ca_current c' = ca_current ?c"
  proof -
    obtain N where "c' = ?c\<lparr>ca_nodes := N\<rparr>" using u by blast
    then show "ca_instances c' = ca_instances ?c" "ca_policies c' = ca_policies ?c" "ca_versions c' = ca_versions ?c" "ca_current c' = ca_current ?c" by simp_all
  qed
  show ?thesis
  proof (cases "prev = None \<and> next = None")
    case True
    then have "tbl_get (ca_nodes c') = tbl_get (ca_nodes ?c)" using u by (auto simp: fun_eq_iff)
    then show ?thesis using True t u same rest unfolding node_step_def Let_def by (auto simp: grows_refl grows_def)
  next
    case False
    obtain d plan where d: "dirtyNode prev next (fs_dirty s, fs_planDirty s) = (d, plan)" by (cases "dirtyNode prev next (fs_dirty s, fs_planDirty s)")
    then have s': "s' = s\<lparr>fs_cache := c', fs_dirty := d, fs_planDirty := plan, fs_inputsTouched := True\<rparr>" using t False by auto
    note marks = dirtyNode_marks [OF d]
    have "map_option node_key (tbl_get (ca_nodes c') i) = map_option node_key (tbl_get (ca_nodes ?c) i)" if "\<not> ds_all d" for i
      using marks that u by (cases "i = EntityID m") auto
    then show ?thesis using marks u same rest unfolding node_step_def Let_def s' by (auto simp: grows_def)
  qed
qed

lemma node_step_trans: "node_step s t \<Longrightarrow> node_step t u \<Longrightarrow> node_step s u"
  unfolding node_step_def Let_def grows_def by (elim conjE) auto

lemma nodes_fold:
  assumes "foldE (apply_mutation rc) ms s = Inr s'" "\<forall>m \<in> set ms. Type m = CORE_NODE" "cache_wf (fs_cache s)"
  shows "node_step s s'"
  using assms
proof (induction ms arbitrary: s)
  case Nil
  then show ?case by (simp add: node_step_def Let_def grows_refl)
next
  case (Cons m ms)
  from Cons.prems(1) obtain t where t: "apply_mutation rc m s = Inr t" "foldE (apply_mutation rc) ms t = Inr s'" by (auto simp: bindE_Inr)
  have step: "node_step s t" by (rule node_mutation [OF t(1)]) (use Cons.prems in simp_all)
  then have "cache_wf (fs_cache t)" by (simp add: node_step_def Let_def)
  then show ?case using node_step_trans [OF step Cons.IH [OF t(2)]] Cons.prems(2) by simp
qed

end
