(* ===== verification/Publisher_Steps.thy ===== *)
theory Publisher_Steps
  imports Publisher_Fold
begin

text \<open>
  The later phases of a commit: policies, instances and statuses. Each marks the nodes its changes concern;
  together with the phases before, a node that is not marked is undisturbed.
\<close>

section \<open>Policies\<close>

definition policy_step :: "renderContext \<Rightarrow> fold_state \<Rightarrow> fold_state \<Rightarrow> bool" where
  "policy_step rc s s' \<longleftrightarrow> (let c = fs_cache s; c' = fs_cache s' in
     grows s s' \<and> cache_wf c' \<and> ca_instances c' = ca_instances c \<and> ca_nodes c' = ca_nodes c \<and> ca_versions c' = ca_versions c \<and> ca_current c' = ca_current c \<and>
     (\<forall>i r t. rule_at c i \<noteq> rule_at c' i \<longrightarrow> rule_at c i = Some r \<or> rule_at c' i = Some r \<longrightarrow> t \<in> rule_spaces r \<longrightarrow> nodesReachingInto rc t \<subseteq> ds_nodes (fs_dirty s')))"

lemma applyPolicy_Inr:
  assumes "applyPolicy m c = Inr ((prev, next), c')" "cache_wf c"
  shows "prev = tbl_get (ca_policies c) (EntityID m) \<and> tbl_get (ca_policies c') = (tbl_get (ca_policies c))(EntityID m := next) \<and> cache_wf c' \<and>
    c' = c\<lparr>ca_policies := ca_policies c'\<rparr>"
proof -
  have wf: "tbl_wf (ca_policies c)" using assms(2) by (simp add: cache_wf_def)
  show ?thesis
  proof (cases "next")
    case None
    then have "prev = tbl_get (ca_policies c) (EntityID m)" "c' = c\<lparr>ca_policies := tbl_del (EntityID m) (ca_policies c)\<rparr>"
      using assms(1) by (auto simp: applyPolicy_def Let_def split: if_splits option.splits CoreEntity.splits)
    then show ?thesis using None assms(2) by (simp add: fun_eq_iff tbl_get_del cache_wf_def tbl_del_wf)
  next
    case (Some n)
    then have "prev = tbl_get (ca_policies c) (EntityID m)" "c' = c\<lparr>ca_policies := tbl_put (EntityID m) n (ca_policies c)\<rparr>"
      using assms(1) by (auto simp: applyPolicy_def Let_def split: if_splits option.splits CoreEntity.splits)
    then show ?thesis using Some assms(2) by (simp add: fun_eq_iff tbl_get_put [OF wf] cache_wf_def tbl_put_wf)
  qed
qed

text \<open>A rule that a policy resolves to has the spaces that are marked for the policy.\<close>

lemma rule_policySpaces:
  assumes "rule_of (spaces_of c) p = Some r"
  shows "\<exists>ids. policySpaces c p = Inr (Some ids) \<and> set ids = rule_spaces r"
proof -
  have peer: "(case peer of None \<Rightarrow> Inl NilPointer | Some (SpacePeer space) \<Rightarrow> Inr (Some space)
       | Some (DeploymentPeer dep) \<Rightarrow> Inr (map_option (\<lambda>r. dep_SpaceID (drec_Deployment r)) (tbl_get (ca_current c) dep))) =
      (case resolvePolicyPeer peer (spaces_of c) of Inl e \<Rightarrow> Inl e | Inr x \<Rightarrow> Inr (map_option npp_SpaceID x))" for peer
    by (auto simp: resolvePolicyPeer_def spaces_at option.map_comp comp_def split: option.splits NetworkPolicyPeer.splits)
  from assms obtain src dst where "resolvePolicyPeer (np_Source p) (spaces_of c) = Inr (Some src)" "resolvePolicyPeer (np_Destination p) (spaces_of c) = Inr (Some dst)"
    "npr_Source r = src" "npr_Destination r = dst"
    by (auto simp: rule_of_def resolve_policy_def bindE_Inr split: sum.splits option.splits if_splits)
  then show ?thesis unfolding policySpaces_def Let_def peer by (simp add: rule_spaces_def)
qed

lemma dirty_policy_marks:
  assumes "dirty_policy rc c p d = Inr d'"
  shows "d' = d\<lparr>ds_nodes := ds_nodes d'\<rparr> \<and> ds_nodes d \<subseteq> ds_nodes d' \<and>
    (\<forall>q r t. p = Some q \<longrightarrow> rule_of (spaces_of c) q = Some r \<longrightarrow> t \<in> rule_spaces r \<longrightarrow> nodesReachingInto rc t \<subseteq> ds_nodes d')"
proof (cases p)
  case (Some q)
  show ?thesis
  proof (cases "rule_of (spaces_of c) q")
    case None
    then show ?thesis using assms Some by (auto simp: dirty_policy_def bindE_Inr dirty_add_def split: option.splits)
  next
    case r: (Some r)
    from rule_policySpaces [OF r] obtain ids where "policySpaces c q = Inr (Some ids)" "set ids = rule_spaces r" by blast
    then show ?thesis using assms Some r by (auto simp: dirty_policy_def dirty_add_def)
  qed
qed (use assms in \<open>simp add: dirty_policy_def\<close>)

lemma policy_mutation:
  assumes "apply_mutation rc m s = Inr s'" "Type m = CORE_NETWORK_POLICY" "cache_wf (fs_cache s)"
  shows "policy_step rc s s'"
proof -
  let ?c = "fs_cache s"
  from assms(1,2) obtain prev "next" c' d where a: "applyPolicy m ?c = Inr ((prev, next), c')"
    and d: "dirtyPolicy rc c' prev next (fs_dirty s) = Inr d" and s': "s' = s\<lparr>fs_cache := c', fs_dirty := d, fs_inputsTouched := True\<rparr>"
    by (cases "applyPolicy m ?c") (auto simp: apply_mutation_def bindE_Inr)
  note u = applyPolicy_Inr [OF a assms(3)]
  from d obtain d1 where d1: "dirty_policy rc c' prev (fs_dirty s) = Inr d1" "dirty_policy rc c' next d1 = Inr d" by (auto simp: dirtyPolicy_def bindE_Inr)
  note marks = dirty_policy_marks [OF d1(1)] dirty_policy_marks [OF d1(2)]
  have all: "ds_all d = ds_all (fs_dirty s)" using marks by (metis dirtySet.simps(1) dirtySet.surjective dirtySet.update_convs(2))
  have nodes: "ds_nodes (fs_dirty s) \<subseteq> ds_nodes d1" "ds_nodes d1 \<subseteq> ds_nodes d" using marks by blast+
  have rest: "ca_instances c' = ca_instances ?c" "ca_nodes c' = ca_nodes ?c" "ca_versions c' = ca_versions ?c" "ca_current c' = ca_current ?c"
  proof -
    obtain N where "c' = ?c\<lparr>ca_policies := N\<rparr>" using u by blast
    then show "ca_instances c' = ca_instances ?c" "ca_nodes c' = ca_nodes ?c" "ca_versions c' = ca_versions ?c" "ca_current c' = ca_current ?c" by simp_all
  qed
  then have sp: "spaces_of c' = spaces_of ?c" by (simp add: spaces_of_def)
  have rule: "nodesReachingInto rc t \<subseteq> ds_nodes d" if "rule_at ?c i \<noteq> rule_at c' i" "rule_at ?c i = Some r \<or> rule_at c' i = Some r" "t \<in> rule_spaces r" for i r t
  proof -
    have "i = EntityID m" using that(1) u by (auto simp: rule_at_def sp split: if_splits)
    then have "Option.bind prev (rule_of (spaces_of c')) = Some r \<or> Option.bind next (rule_of (spaces_of c')) = Some r" using that(2) u by (simp add: rule_at_def sp)
    then show ?thesis using marks nodes that(3) by (auto simp: bind_eq_Some_conv) blast+
  qed
  show ?thesis unfolding policy_step_def Let_def s' using u rest rule all nodes by (auto simp: grows_def)
qed

lemma policy_step_trans:
  assumes "policy_step rc s t" "policy_step rc t u"
  shows "policy_step rc s u"
proof -
  note s = assms(1) [unfolded policy_step_def Let_def] and t = assms(2) [unfolded policy_step_def Let_def]
  have sub: "ds_nodes (fs_dirty t) \<subseteq> ds_nodes (fs_dirty u)" and g: "grows s u" using s t grows_trans by (auto simp: grows_def)
  have "nodesReachingInto rc x \<subseteq> ds_nodes (fs_dirty u)"
    if "rule_at (fs_cache s) i \<noteq> rule_at (fs_cache u) i" "rule_at (fs_cache s) i = Some r \<or> rule_at (fs_cache u) i = Some r" "x \<in> rule_spaces r" for i r x
  proof -
    have "rule_at (fs_cache s) i \<noteq> rule_at (fs_cache t) i \<and> (rule_at (fs_cache s) i = Some r \<or> rule_at (fs_cache t) i = Some r) \<or>
        rule_at (fs_cache t) i \<noteq> rule_at (fs_cache u) i \<and> (rule_at (fs_cache t) i = Some r \<or> rule_at (fs_cache u) i = Some r)" using that(1,2) by metis
    then show ?thesis using s t that(3) sub by blast
  qed
  then show ?thesis using g s t unfolding policy_step_def Let_def by simp
qed

lemma policies_fold:
  assumes "foldE (apply_mutation rc) ms s = Inr s'" "\<forall>m \<in> set ms. Type m = CORE_NETWORK_POLICY" "cache_wf (fs_cache s)"
  shows "policy_step rc s s'"
  using assms
proof (induction ms arbitrary: s)
  case Nil
  then show ?case by (simp add: policy_step_def Let_def grows_refl)
next
  case (Cons m ms)
  from Cons.prems(1) obtain t where t: "apply_mutation rc m s = Inr t" "foldE (apply_mutation rc) ms t = Inr s'" by (auto simp: bindE_Inr)
  have step: "policy_step rc s t" by (rule policy_mutation [OF t(1)]) (use Cons.prems in simp_all)
  then have "cache_wf (fs_cache t)" by (simp add: policy_step_def Let_def)
  then show ?case using policy_step_trans [OF step Cons.IH [OF t(2)]] Cons.prems(2) by simp
qed

section \<open>Instances\<close>

text \<open>\<open>home\<close> gives the deployment of an instance: it does not change while the instance lives.\<close>

definition at_home :: "(nat \<Rightarrow> nat) \<Rightarrow> (nat \<Rightarrow> nat \<times> nat) \<Rightarrow> nat \<Rightarrow> ScheduledInstance \<Rightarrow> bool" where
  "at_home home site i inst \<longleftrightarrow> owner inst = home i \<and> at_site site inst"

definition instance_step :: "(nat \<Rightarrow> nat) \<Rightarrow> (nat \<Rightarrow> nat \<times> nat) \<Rightarrow> renderContext \<Rightarrow> fold_state \<Rightarrow> fold_state \<Rightarrow> bool" where
  "instance_step home site rc s s' \<longleftrightarrow> (let c = fs_cache s; c' = fs_cache s' in
     grows s s' \<and> cache_wf c' \<and> ca_policies c' = ca_policies c \<and> ca_nodes c' = ca_nodes c \<and> ca_current c' = ca_current c \<and> versions_kept UNIV c c' \<and>
     (\<forall>i inst. tbl_get (ca_instances c') i = Some inst \<longrightarrow> owner inst = home i) \<and>
     (\<forall>i n. tbl_get (ca_instances c) i \<noteq> tbl_get (ca_instances c') i \<longrightarrow> n \<notin> ds_nodes (fs_dirty s') \<longrightarrow> far site rc n (home i)))"

lemma pin_Inr:
  assumes "pin key c = Inr c'" "cache_wf c"
  shows "cache_wf c' \<and> versions_kept UNIV c c' \<and> c' = c\<lparr>ca_versions := ca_versions c'\<rparr>"
proof -
  have wf: "tbl_wf (ca_versions c)" using assms(2) by (simp add: cache_wf_def)
  from assms(1) obtain e where "tbl_get (ca_versions c) key = Some e" "c' = c\<lparr>ca_versions := tbl_put key (e\<lparr>ve_pins := ve_pins e + 1\<rparr>) (ca_versions c)\<rparr>"
    by (auto simp: pin_def split: option.splits)
  then show ?thesis using assms(2) by (auto simp: cache_wf_def tbl_put_wf versions_kept_def tbl_get_put [OF wf])
qed

lemma unpin_Inr:
  assumes "unpin key c = Inr c'" "cache_wf c"
  shows "cache_wf c' \<and> versions_kept UNIV c c' \<and> c' = c\<lparr>ca_versions := ca_versions c'\<rparr>"
proof -
  have wf: "tbl_wf (ca_versions c)" using assms(2) by (simp add: cache_wf_def)
  from assms(1) obtain e where e: "tbl_get (ca_versions c) key = Some e"
    and "c' = c\<lparr>ca_versions := tbl_del key (ca_versions c)\<rparr> \<or> c' = c\<lparr>ca_versions := tbl_put key (e\<lparr>ve_pins := ve_pins e - 1\<rparr>) (ca_versions c)\<rparr>"
    by (auto simp: unpin_def Let_def split: option.splits if_splits)
  then show ?thesis
  proof (elim disjE)
    assume "c' = c\<lparr>ca_versions := tbl_del key (ca_versions c)\<rparr>"
    then show ?thesis using assms(2) by (simp add: cache_wf_def tbl_del_wf versions_kept_def tbl_get_del)
  next
    assume "c' = c\<lparr>ca_versions := tbl_put key (e\<lparr>ve_pins := ve_pins e - 1\<rparr>) (ca_versions c)\<rparr>"
    then show ?thesis using assms(2) e by (auto simp: cache_wf_def tbl_put_wf versions_kept_def tbl_get_put [OF wf])
  qed
qed

text \<open>What both ways of repinning leave of the cache.\<close>

definition repinned :: "cache \<Rightarrow> cache \<Rightarrow> bool" where
  "repinned c c' \<longleftrightarrow> cache_wf c' \<and> versions_kept UNIV c c' \<and> c' = c\<lparr>ca_versions := ca_versions c'\<rparr>"

lemma repinned_trans: "repinned c d \<Longrightarrow> repinned d e \<Longrightarrow> repinned c e"
proof -
  assume a: "repinned c d" "repinned d e"
  then obtain V W where "d = c\<lparr>ca_versions := V\<rparr>" "e = d\<lparr>ca_versions := W\<rparr>" unfolding repinned_def by blast
  then have "e = c\<lparr>ca_versions := ca_versions e\<rparr>" by simp
  then show "repinned c e" using a versions_kept_trans unfolding repinned_def by blast
qed

lemma repinned_fields:
  assumes "repinned c d"
  shows "ca_policies d = ca_policies c" "ca_nodes d = ca_nodes c" "ca_current d = ca_current c" "ca_instances d = ca_instances c" "cache_wf d" "versions_kept UNIV c d"
proof -
  from assms obtain V where "d = c\<lparr>ca_versions := V\<rparr>" unfolding repinned_def by blast
  then show "ca_policies d = ca_policies c" "ca_nodes d = ca_nodes c" "ca_current d = ca_current c" "ca_instances d = ca_instances c" by simp_all
  show "cache_wf d" "versions_kept UNIV c d" using assms by (simp_all add: repinned_def)
qed

lemma cache_wf_instances: "cache_wf c \<Longrightarrow> tbl_wf t \<Longrightarrow> cache_wf (c\<lparr>ca_instances := t\<rparr>)" "cache_wf c \<Longrightarrow> cache_wf (c\<lparr>ca_watermarks := w\<rparr>)"
  by (simp_all add: cache_wf_def)

lemma versions_kept_fields: "ca_versions d = ca_versions c \<Longrightarrow> versions_kept K c c' = versions_kept K d c'" "ca_versions d = ca_versions c' \<Longrightarrow> versions_kept K c c' = versions_kept K c d"
  by (simp_all add: versions_kept_def)

lemma applyInstance_Inr:
  assumes "applyInstance m c = Inr ((row, prev), c')" "cache_wf c"
  shows "\<exists>val. Entity m = Some (EScheduledInstance val) \<and> ss_Instance row = val\<lparr>si_ID := EntityID m\<rparr> \<and>
    cache_wf c' \<and> ca_policies c' = ca_policies c \<and> ca_nodes c' = ca_nodes c \<and> ca_current c' = ca_current c \<and> versions_kept UNIV c c' \<and>
    (\<exists>x. (x = None \<or> x = Some (ss_Instance row)) \<and> tbl_get (ca_instances c') = (tbl_get (ca_instances c))(EntityID m := x))"
proof -
  have wf: "tbl_wf (ca_instances c)" using assms(2) by (simp add: cache_wf_def)
  let ?i = "EntityID m"
  from assms(1) obtain val where v: "Entity m = Some (EScheduledInstance val)" by (auto simp: applyInstance_def Let_def split: option.splits CoreEntity.splits)
  let ?inst = "val\<lparr>si_ID := ?i\<rparr>"
  have "instance_state c ?inst = Inr row" using assms(1) v by (auto simp: applyInstance_def Let_def bindE_Inr)
  then have row: "ss_Instance row = ?inst" by (auto simp: instance_state_def split: option.splits)
  let ?gone = "c\<lparr>ca_instances := tbl_del ?i (ca_instances c), ca_watermarks := tbl_del ?i (ca_watermarks c)\<rparr>"
  consider (final) p where "unpin (instance_version p) ?gone = Inr c'"
    | (live) c1 where "repinned c c1" "c' = c1\<lparr>ca_instances := tbl_put ?i ?inst (ca_instances c1)\<rparr>"
  proof (cases "si_State ?inst = TARGET_FINALIZED")
    case True
    then show ?thesis using assms(1) v by (intro final [of "the (tbl_get (ca_instances c) ?i)"]) (auto simp: applyInstance_def Let_def bindE_Inr split: option.splits)
  next
    case False
    show ?thesis
    proof (cases "tbl_get (ca_instances c) ?i")
      case None
      then obtain c1 where c1: "pin (instance_version ?inst) c = Inr c1" "c' = c1\<lparr>ca_instances := tbl_put ?i ?inst (ca_instances c1)\<rparr>"
        using assms(1) v False by (auto simp: applyInstance_def Let_def bindE_Inr)
      show ?thesis by (rule live [OF _ c1(2)]) (use pin_Inr [OF c1(1) assms(2)] in \<open>simp add: repinned_def\<close>)
    next
      case (Some p)
      then obtain c1 where c1: "(if instance_version p \<noteq> instance_version ?inst then bindE (unpin (instance_version p) c) (pin (instance_version ?inst)) else Inr c) = Inr c1"
        "c' = c1\<lparr>ca_instances := tbl_put ?i ?inst (ca_instances c1)\<rparr>"
        using assms(1) False unfolding applyInstance_def Let_def Some v by (auto simp: bindE_Inr)
      have "repinned c c1"
      proof (cases "instance_version p = instance_version ?inst")
        case True
        then show ?thesis using c1(1) assms(2) by (simp add: repinned_def versions_kept_refl)
      next
        case False
        then obtain c2 where "unpin (instance_version p) c = Inr c2" "pin (instance_version ?inst) c2 = Inr c1" using c1(1) by (auto simp: bindE_Inr)
        then show ?thesis using unpin_Inr [OF _ assms(2)] pin_Inr repinned_trans [of c c2 c1] unfolding repinned_def by blast
      qed
      then show ?thesis by (rule live [OF _ c1(2)])
    qed
  qed
  then have "cache_wf c' \<and> ca_policies c' = ca_policies c \<and> ca_nodes c' = ca_nodes c \<and> ca_current c' = ca_current c \<and> versions_kept UNIV c c' \<and>
    (\<exists>x. (x = None \<or> x = Some ?inst) \<and> tbl_get (ca_instances c') = (tbl_get (ca_instances c))(?i := x))"
  proof cases
    case final
    have "cache_wf ?gone" using assms(2) by (simp add: cache_wf_def tbl_del_wf)
    then have r: "repinned ?gone c'" using unpin_Inr [OF final] unfolding repinned_def by blast
    have "tbl_get (ca_instances c') = (tbl_get (ca_instances c))(?i := None)" using repinned_fields(4) [OF r] by (simp add: fun_eq_iff tbl_get_del)
    moreover have "versions_kept UNIV c c'" using repinned_fields(6) [OF r] versions_kept_fields(1) [of ?gone c] by simp
    ultimately show ?thesis using repinned_fields [OF r] by auto
  next
    case (live c1)
    note f = repinned_fields [OF live(1)]
    have "tbl_get (ca_instances c') = (tbl_get (ca_instances c))(?i := Some ?inst)" by (simp add: live(2) f(4) fun_eq_iff tbl_get_put [OF wf])
    moreover have "cache_wf c'" unfolding live(2) f(4) by (rule cache_wf_instances(1) [OF f(5) tbl_put_wf [OF wf]])
    moreover have "versions_kept UNIV c c'" using f(6) versions_kept_fields(2) [of c' c1] live(2) by simp
    ultimately show ?thesis using f(1-3) live(2) by auto
  qed
  then show ?thesis using v row by simp
qed

lemma dirtyInstance_far:
  assumes "n \<notin> ds_nodes (dirtyInstance rc row d)" "at_site site (ss_Instance row)"
  shows "far site rc n (owner (ss_Instance row))"
  using assms by (auto simp: dirtyInstance_def Let_def dirty_add_def far_def at_site_def split: if_splits)

lemma dirtyInstance_grows: "ds_nodes d \<subseteq> ds_nodes (dirtyInstance rc row d) \<and> ds_all (dirtyInstance rc row d) = ds_all d"
  by (auto simp: dirtyInstance_def Let_def dirty_add_def)

definition steady_instance :: "(nat \<Rightarrow> nat) \<Rightarrow> (nat \<Rightarrow> nat \<times> nat) \<Rightarrow> CoreMutation \<Rightarrow> bool" where
  "steady_instance home site m \<longleftrightarrow> (case Entity m of Some (EScheduledInstance val) \<Rightarrow> at_home home site (EntityID m) val | _ \<Rightarrow> True)"

definition all_home :: "(nat \<Rightarrow> nat) \<Rightarrow> cache \<Rightarrow> bool" where
  "all_home home c \<longleftrightarrow> (\<forall>i inst. tbl_get (ca_instances c) i = Some inst \<longrightarrow> owner inst = home i)"

lemma instance_mutation:
  assumes "apply_mutation rc m s = Inr s'" "Type m = CORE_SCHEDULED_INSTANCE" "cache_wf (fs_cache s)" "all_home home (fs_cache s)" "steady_instance home site m"
  shows "instance_step home site rc s s'"
proof -
  let ?c = "fs_cache s"
  from assms(1,2) obtain row prev c' where a: "applyInstance m ?c = Inr ((row, prev), c')"
    and s': "fs_cache s' = c'" "fs_dirty s' = dirtyInstance rc row (fs_dirty s)" "fs_planDirty s' = fs_planDirty s" "fs_inputsTouched s'"
    by (cases "applyInstance m ?c") (auto simp: apply_mutation_def Let_def)
  from applyInstance_Inr [OF a assms(3)] obtain val x where v: "Entity m = Some (EScheduledInstance val)" "ss_Instance row = val\<lparr>si_ID := EntityID m\<rparr>"
    and c': "cache_wf c'" "ca_policies c' = ca_policies ?c" "ca_nodes c' = ca_nodes ?c" "ca_current c' = ca_current ?c" "versions_kept UNIV ?c c'"
    and x: "x = None \<or> x = Some (ss_Instance row)" "tbl_get (ca_instances c') = (tbl_get (ca_instances ?c))(EntityID m := x)" by blast
  have home: "owner (ss_Instance row) = home (EntityID m)" "at_site site (ss_Instance row)"
    using assms(5) v by (auto simp: steady_instance_def at_home_def at_site_def)
  have "grows s s'" using dirtyInstance_grows s' by (auto simp: grows_def)
  moreover have "owner inst = home i" if "tbl_get (ca_instances c') i = Some inst" for i inst
    using that x home(1) assms(4) unfolding all_home_def by (cases "i = EntityID m") auto
  moreover have "far site rc n (home i)" if "tbl_get (ca_instances ?c) i \<noteq> tbl_get (ca_instances c') i" "n \<notin> ds_nodes (dirtyInstance rc row (fs_dirty s))" for i n
  proof -
    have "i = EntityID m" using that(1) x(2) by (auto split: if_splits)
    then show ?thesis using dirtyInstance_far [OF that(2) home(2)] home(1) by simp
  qed
  ultimately show ?thesis using c' unfolding instance_step_def Let_def s' by blast
qed

lemma instance_step_trans:
  assumes "instance_step home site rc s t" "instance_step home site rc t u"
  shows "instance_step home site rc s u"
proof -
  note s = assms(1) [unfolded instance_step_def Let_def] and t = assms(2) [unfolded instance_step_def Let_def]
  have sub: "ds_nodes (fs_dirty t) \<subseteq> ds_nodes (fs_dirty u)" and g: "grows s u" using s t grows_trans by (auto simp: grows_def)
  have "far site rc n (home i)" if "tbl_get (ca_instances (fs_cache s)) i \<noteq> tbl_get (ca_instances (fs_cache u)) i" "n \<notin> ds_nodes (fs_dirty u)" for i n
  proof -
    have "tbl_get (ca_instances (fs_cache s)) i \<noteq> tbl_get (ca_instances (fs_cache t)) i \<or> tbl_get (ca_instances (fs_cache t)) i \<noteq> tbl_get (ca_instances (fs_cache u)) i"
      using that(1) by metis
    then show ?thesis using s t that(2) sub by blast
  qed
  moreover have "versions_kept UNIV (fs_cache s) (fs_cache u)" using s t versions_kept_trans by blast
  ultimately show ?thesis using g s t unfolding instance_step_def Let_def by simp
qed

lemma instances_fold:
  assumes "foldE (apply_mutation rc) ms s = Inr s'" "\<forall>m \<in> set ms. Type m = CORE_SCHEDULED_INSTANCE" "cache_wf (fs_cache s)" "all_home home (fs_cache s)"
    "\<forall>m \<in> set ms. steady_instance home site m"
  shows "instance_step home site rc s s'"
  using assms
proof (induction ms arbitrary: s)
  case Nil
  then show ?case by (simp add: instance_step_def Let_def grows_refl versions_kept_refl all_home_def)
next
  case (Cons m ms)
  from Cons.prems(1) obtain t where t: "apply_mutation rc m s = Inr t" "foldE (apply_mutation rc) ms t = Inr s'" by (auto simp: bindE_Inr)
  have step: "instance_step home site rc s t" by (rule instance_mutation [OF t(1)]) (use Cons.prems in simp_all)
  then have "cache_wf (fs_cache t)" "all_home home (fs_cache t)" by (simp_all add: instance_step_def Let_def all_home_def)
  then show ?case using instance_step_trans [OF step Cons.IH [OF t(2)]] Cons.prems(2,5) by simp
qed

section \<open>Statuses\<close>

lemma statuses_fold:
  assumes "foldE (apply_mutation rc) ms s = Inr s'" "\<forall>m \<in> set ms. Type m = CORE_SCHEDULED_INSTANCE_STATUS"
  shows "\<exists>w. s' = s\<lparr>fs_cache := fs_cache s\<lparr>ca_watermarks := w\<rparr>\<rparr>"
  using assms
proof (induction ms arbitrary: s)
  case Nil
  then show ?case by (intro exI [of _ "ca_watermarks (fs_cache s)"]) simp
next
  case (Cons m ms)
  from Cons.prems(1) obtain t where t: "apply_mutation rc m s = Inr t" "foldE (apply_mutation rc) ms t = Inr s'" by (auto simp: bindE_Inr)
  then obtain c' where c': "applyStatus m (fs_cache s) = Inr c'" "t = s\<lparr>fs_cache := c'\<rparr>" using Cons.prems(2) by (auto simp: apply_mutation_def bindE_Inr)
  have "\<exists>w. c' = fs_cache s\<lparr>ca_watermarks := w\<rparr>"
  proof (cases "c' = fs_cache s")
    case True
    then show ?thesis by (intro exI [of _ "ca_watermarks (fs_cache s)"]) simp
  next
    case False
    then show ?thesis using c'(1) unfolding applyStatus_def Let_def by (auto split: if_splits option.splits CoreEntity.splits)
  qed
  then show ?case using Cons.IH [OF t(2)] Cons.prems(2) c'(2) by auto
qed

end
