(* ===== verification/Publisher_Fresh.thy ===== *)
theory Publisher_Fresh
  imports Publisher_Steps
begin

text \<open>
  The maps a publisher holds are those of a full render of its cache, and a commit keeps them so although
  only the marked nodes are rendered again.
\<close>

section \<open>A commit and the nodes it does not mark\<close>

text \<open>A steady commit: new deployment versions are not in use yet, and instances stay with their deployment
  and its place.\<close>

definition steady :: "(nat \<Rightarrow> nat) \<Rightarrow> (nat \<Rightarrow> nat \<times> nat) \<Rightarrow> cache \<Rightarrow> CoreMutation list \<Rightarrow> bool" where
  "steady home site c ms \<longleftrightarrow> (\<forall>m \<in> set ms. (Type m = CORE_DEPLOYMENT \<longrightarrow> new_version c m) \<and> (Type m = CORE_SCHEDULED_INSTANCE \<longrightarrow> steady_instance home site m))"

lemma commit_phases:
  assumes "foldE (apply_mutation rc) (ordered_mutations ms) s = Inr s'" "cache_wf (fs_cache s)" "all_home home (fs_cache s)" "steady home site (fs_cache s) ms"
  obtains d n p i w where "deployment_step s d" "node_step d n" "policy_step rc n p" "instance_step home site rc p i" "s' = i\<lparr>fs_cache := fs_cache i\<lparr>ca_watermarks := w\<rparr>\<rparr>"
proof -
  from assms(1) obtain d n p i where f: "foldE (apply_mutation rc) (of_type CORE_DEPLOYMENT ms) s = Inr d" "foldE (apply_mutation rc) (of_type CORE_NODE ms) d = Inr n"
    "foldE (apply_mutation rc) (of_type CORE_NETWORK_POLICY ms) n = Inr p" "foldE (apply_mutation rc) (of_type CORE_SCHEDULED_INSTANCE ms) p = Inr i"
    "foldE (apply_mutation rc) (of_type CORE_SCHEDULED_INSTANCE_STATUS ms) i = Inr s'"
    unfolding ordered_phases foldE_append bindE_Inr by blast
  have d: "deployment_step s d" by (rule deployments_fold [OF f(1)]) (use assms(2,4) in \<open>auto simp: of_type_def steady_def\<close>)
  then have dc: "cache_wf (fs_cache d)" "ca_instances (fs_cache d) = ca_instances (fs_cache s)" by (simp_all add: deployment_step_def Let_def)
  have n: "node_step d n" by (rule nodes_fold [OF f(2) _ dc(1)]) (simp add: of_type_def)
  then have nc: "cache_wf (fs_cache n)" "ca_instances (fs_cache n) = ca_instances (fs_cache d)" by (simp_all add: node_step_def Let_def)
  have p: "policy_step rc n p" by (rule policies_fold [OF f(3) _ nc(1)]) (simp add: of_type_def)
  then have pc: "cache_wf (fs_cache p)" "ca_instances (fs_cache p) = ca_instances (fs_cache n)" by (simp_all add: policy_step_def Let_def)
  have home: "all_home home (fs_cache p)" using assms(3) dc(2) nc(2) pc(2) by (simp add: all_home_def)
  have i: "instance_step home site rc p i" by (rule instances_fold [OF f(4) _ pc(1) home]) (use assms(4) in \<open>auto simp: of_type_def steady_def\<close>)
  obtain w where "s' = i\<lparr>fs_cache := fs_cache i\<lparr>ca_watermarks := w\<rparr>\<rparr>" using statuses_fold [OF f(5)] by (auto simp: of_type_def)
  with d n p i show ?thesis by (rule that)
qed

lemma rules_before:
  assumes "deployment_step s d" "\<not> ds_all (fs_dirty d)"
  shows "rule_at (fs_cache d) i = rule_at (fs_cache s) i"
proof (cases "tbl_get (ca_policies (fs_cache s)) i")
  case (Some q)
  let ?c = "fs_cache s" and ?d = "fs_cache d"
  note s = assms(1) [unfolded deployment_step_def Let_def]
  have sp: "tbl_get (spaces_of ?d) x = tbl_get (spaces_of ?c) x" if "policyReferences ?c x" for x using s assms(2) that by blast
  have ref: "policyReferences ?c x" if "np_Source q = Some (DeploymentPeer x) \<or> np_Destination q = Some (DeploymentPeer x)" for x
    using map_of_SomeD [OF Some] that by (auto simp: policyReferences_def list_ex_iff)
  have peer: "resolvePolicyPeer peer (spaces_of ?d) = resolvePolicyPeer peer (spaces_of ?c)" if "peer = np_Source q \<or> peer = np_Destination q" for peer
    using that sp ref by (auto simp: resolvePolicyPeer_def split: option.splits NetworkPolicyPeer.splits)
  have "rule_of (spaces_of ?d) q = rule_of (spaces_of ?c) q" unfolding rule_of_def resolve_policy_def using peer by simp
  then show ?thesis using Some s by (simp add: rule_at_def)
qed (use assms(1) in \<open>simp add: rule_at_def deployment_step_def Let_def\<close>)

lemma state_kept:
  assumes "versions_kept (used_versions c) c c'" "tbl_wf (ca_instances c)" "tbl_get (ca_instances c) i = tbl_get (ca_instances c') i" "inputs c' = Inr inp'" "tbl_wf (ca_instances c')"
  shows "state_at c i = state_at c' i"
proof (cases "tbl_get (ca_instances c) i")
  case (Some inst)
  then have mem: "(i, inst) \<in> set (ca_instances c)" "(i, inst) \<in> set (ca_instances c')" using assms(3) in_table [OF assms(2)] in_table [OF assms(5)] by auto
  then obtain e' where e': "tbl_get (ca_versions c') (instance_version inst) = Some e'" using inputs_Inr(2) [OF assms(4)] by blast
  have "instance_version inst \<in> used_versions c" using mem(1) by (force simp: used_versions_def)
  then obtain e where "tbl_get (ca_versions c) (instance_version inst) = Some e" "ve_record e = ve_record e'" using assms(1) e' unfolding versions_kept_def by blast
  then show ?thesis using Some assms(3) e' by (simp add: state_of_def)
qed (use assms(3) in simp)

lemma versions_kept_mono: "versions_kept UNIV c c' \<Longrightarrow> versions_kept K c c'"
  unfolding versions_kept_def by blast

text \<open>What an unmarked node keeps, and the plan when it is not marked.\<close>

lemma commit_quiet:
  assumes "foldE (apply_mutation rc) (ordered_mutations ms) s = Inr s'" "cache_wf (fs_cache s)" "all_home home (fs_cache s)" "steady home site (fs_cache s) ms"
    and "inputs (fs_cache s') = Inr inp'"
  defines "c \<equiv> fs_cache s" and "c' \<equiv> fs_cache s'"
  shows "cache_wf c'" "all_home home c'" "\<not> fs_planDirty s' \<Longrightarrow> plan_part c' = plan_part c \<and> member_part c' = member_part c"
    "\<not> ds_all (fs_dirty s') \<Longrightarrow> map_option node_key (tbl_get (ca_nodes c) x) = map_option node_key (tbl_get (ca_nodes c') x)"
    "\<not> ds_all (fs_dirty s') \<Longrightarrow> n \<notin> ds_nodes (fs_dirty s') \<Longrightarrow> rule_at c i \<noteq> rule_at c' i \<Longrightarrow> rule_at c i = Some r \<or> rule_at c' i = Some r \<Longrightarrow>
       t \<in> rule_spaces r \<Longrightarrow> n \<notin> nodesReachingInto rc t"
    "\<not> ds_all (fs_dirty s') \<Longrightarrow> n \<notin> ds_nodes (fs_dirty s') \<Longrightarrow> state_at c i \<noteq> state_at c' i \<Longrightarrow>
       tbl_get (ca_instances c) i = Some inst \<or> tbl_get (ca_instances c') i = Some inst \<Longrightarrow> far site rc n (owner inst)"
proof -
  from commit_phases [OF assms(1-4)] obtain sd sn sp si w where D: "deployment_step s sd" and N: "node_step sd sn" and P: "policy_step rc sn sp"
    and I: "instance_step home site rc sp si" and s': "s' = si\<lparr>fs_cache := fs_cache si\<lparr>ca_watermarks := w\<rparr>\<rparr>" .
  note d = D [unfolded deployment_step_def Let_def] and nn = N [unfolded node_step_def Let_def] and p = P [unfolded policy_step_def Let_def] and ii = I [unfolded instance_step_def Let_def]
  have c': "ca_nodes c' = ca_nodes (fs_cache si)" "ca_instances c' = ca_instances (fs_cache si)" "ca_policies c' = ca_policies (fs_cache si)"
    "ca_current c' = ca_current (fs_cache si)" "ca_versions c' = ca_versions (fs_cache si)" "fs_dirty s' = fs_dirty si" "fs_planDirty s' = fs_planDirty si"
    by (simp_all add: c'_def s')
  have g: "grows sd sn" "grows sn sp" "grows sp si" using nn p ii by simp_all
  have grows: "grows sd si" "grows sn si" "grows sp si" by (rule grows_trans [OF g(1) grows_trans [OF g(2,3)]] grows_trans [OF g(2,3)] g(3))+
  have si: "cache_wf (fs_cache si)" "all_home home (fs_cache si)" using ii unfolding all_home_def by blast+
  then show wf: "cache_wf c'" and home: "all_home home c'" using c' by (simp_all add: cache_wf_def all_home_def)
  have inst: "ca_instances (fs_cache sp) = ca_instances c" using d nn p by (simp add: c_def)
  have same_rest: "ca_nodes c' = ca_nodes (fs_cache sn)" "ca_current c' = ca_current (fs_cache sd)" "ca_nodes (fs_cache sd) = ca_nodes c" using d nn p ii c' by (simp_all add: c_def)
  show "plan_part c' = plan_part c \<and> member_part c' = member_part c" if "\<not> fs_planDirty s'"
  proof -
    have "\<not> fs_planDirty sd" "\<not> fs_planDirty sn" using that grows c' by (auto simp: grows_def)
    then have "plan_part (fs_cache sd) = plan_part c" "member_part (fs_cache sn) = member_part (fs_cache sd)" using d nn by (simp_all add: c_def)
    then show ?thesis using same_rest by (simp add: plan_part_def member_part_def)
  qed
  assume all: "\<not> ds_all (fs_dirty s')"
  then have quiet: "\<not> ds_all (fs_dirty sd)" "\<not> ds_all (fs_dirty sn)" using grows c' by (auto simp: grows_def)
  show "map_option node_key (tbl_get (ca_nodes c) x) = map_option node_key (tbl_get (ca_nodes c') x)" using nn quiet(2) same_rest by metis
  assume n: "n \<notin> ds_nodes (fs_dirty s')"
  have rn: "rule_at c i = rule_at (fs_cache sn) i" for i
    using rules_before [OF D quiet(1)] nn by (simp add: c_def rule_at_def spaces_of_def)
  have rp: "rule_at c' i = rule_at (fs_cache sp) i" for i using ii c' by (simp add: rule_at_def spaces_of_def)
  show "n \<notin> nodesReachingInto rc t" if "rule_at c i \<noteq> rule_at c' i" "rule_at c i = Some r \<or> rule_at c' i = Some r" "t \<in> rule_spaces r"
  proof -
    have "nodesReachingInto rc t \<subseteq> ds_nodes (fs_dirty sp)" using p that unfolding rn rp by blast
    then show ?thesis using grows(3) n c' by (auto simp: grows_def)
  qed
  have kept: "versions_kept (used_versions c) c c'"
  proof -
    have "versions_kept (used_versions c) c (fs_cache sd)" using d by (simp add: c_def)
    moreover have "versions_kept (used_versions c) (fs_cache sp) (fs_cache si)" using ii versions_kept_mono by blast
    moreover have "ca_versions (fs_cache sd) = ca_versions (fs_cache sp)" using nn p by simp
    ultimately have "versions_kept (used_versions c) c (fs_cache si)" using versions_kept_fields(1) versions_kept_trans by blast
    then show ?thesis using versions_kept_fields(2) [OF c'(5)] by blast
  qed
  show "far site rc n (owner inst)" if "state_at c i \<noteq> state_at c' i" "tbl_get (ca_instances c) i = Some inst \<or> tbl_get (ca_instances c') i = Some inst"
  proof -
    have ci: "tbl_wf (ca_instances c)" "tbl_wf (ca_instances c')" using assms(2) wf by (simp_all add: c_def cache_wf_def)
    have "tbl_get (ca_instances c) i \<noteq> tbl_get (ca_instances c') i"
      using state_kept [OF kept ci(1) _ assms(5) [folded c'_def] ci(2)] that(1) by blast
    then have "far site rc n (home i)" using ii n c' inst by metis
    moreover have "owner inst = home i" using that(2) home assms(3) unfolding all_home_def c_def by blast
    ultimately show ?thesis by simp
  qed
qed

section \<open>The plan\<close>

lemma plan_of_parts:
  assumes "inputs c = Inr inp"
  shows "publish_plan inp = Evaluate \<lparr>pi_Deployments = plan_part c, pi_Nodes = member_part c, pi_Reservations = [], pi_Candidate = 0, pi_Reachable = None\<rparr>"
    "map node_ID (ri_nodes inp) = map pn_ID (member_part c)"
proof -
  have "map ingressInput (filter (\<lambda>cfg. \<not> IsInternalConfig cfg) (map snd t)) = List.map_filter (\<lambda>(i, r). if IsInternalConfig r then None else Some (ingressInput r)) t" for t :: "(nat \<times> DeploymentRecord) list"
    by (induction t) auto
  then show "publish_plan inp = Evaluate \<lparr>pi_Deployments = plan_part c, pi_Nodes = member_part c, pi_Reservations = [], pi_Candidate = 0, pi_Reachable = None\<rparr>"
    unfolding publish_plan_def ingressInput_def [symmetric] plan_part_def member_part_def by (simp add: inputs_Inr(1) [OF assms] case_prod_beta' ingressInput_def [abs_def] Let_def comp_def)
  show "map node_ID (ri_nodes inp) = map pn_ID (member_part c)" by (simp add: inputs_Inr(1) [OF assms] member_part_def case_prod_beta')
qed

lemma same_plan:
  assumes "inputs c = Inr inp" "inputs c' = Inr inp'" "plan_part c' = plan_part c" "member_part c' = member_part c"
  shows "renderIngressPlan inp' = renderIngressPlan inp"
  unfolding renderIngressPlan_def plan_of_parts [OF assms(1)] plan_of_parts [OF assms(2)] assms(3,4) ..

lemma dirty_add_nodes: "ds_nodes (dirty_add ids d) = ds_nodes d \<union> ids"
  by (simp add: dirty_add_def)

lemma dirtyPlan_marks:
  assumes "n \<notin> ds_nodes (dirtyPlan rc prev next d)"
  shows "n \<notin> ds_nodes d" "slice_at (ip_published prev) n = slice_at (ip_published next) n"
    "slice_at (ip_published prev) m \<noteq> slice_at (ip_published next) m \<Longrightarrow>
      n \<notin> hostsOfInto rc (slice_at (ip_published prev) m) \<and> n \<notin> hostsOfInto rc (slice_at (ip_published next) m)"
    "slice_at (ip_publish prev) m \<noteq> slice_at (ip_publish next) m \<Longrightarrow> n \<notin> nodesSeeingInto rc m"
proof -
  let ?pub = "filter (\<lambda>n. slice_at (ip_published prev) n \<noteq> slice_at (ip_published next) n) (map fst (ip_published prev @ ip_published next))"
  have key: "m \<in> fst ` set t \<or> slice_at t m = []" for t :: "(nat, 'v list) table" and m by (cases "tbl_get t m") (auto simp: slice_at_def dest: map_of_SomeD intro: rev_image_eqI)
  have some: "m \<in> set ?pub" if "slice_at (ip_published prev) m \<noteq> slice_at (ip_published next) m" for m
    using that key [of m "ip_published prev"] key [of m "ip_published next"] by auto
  let ?changed = "filter (\<lambda>n. \<not> samePublish (slice_at (ip_publish prev) n) (slice_at (ip_publish next) n)) (map fst (ip_publish prev))"
  let ?added = "filter (\<lambda>n. tbl_get (ip_publish prev) n = None \<and> slice_at (ip_publish next) n \<noteq> []) (map fst (ip_publish next))"
  have "n \<notin> ds_nodes d \<union> ((\<Union>n \<in> set (?changed @ ?added). nodesSeeingInto rc n) \<union> set ?pub \<union>
      (\<Union>n \<in> set ?pub. hostsOfInto rc (slice_at (ip_published prev) n) \<union> hostsOfInto rc (slice_at (ip_published next) n)))"
    using assms unfolding dirtyPlan_def Let_def dirty_add_nodes .
  then have out: "n \<notin> ds_nodes d" "n \<notin> set ?pub" "\<And>m. m \<in> set ?pub \<Longrightarrow> n \<notin> hostsOfInto rc (slice_at (ip_published prev) m) \<union> hostsOfInto rc (slice_at (ip_published next) m)"
    "\<And>m. m \<in> set (?changed @ ?added) \<Longrightarrow> n \<notin> nodesSeeingInto rc m"
    by blast+
  show "n \<notin> ds_nodes d" "slice_at (ip_published prev) n = slice_at (ip_published next) n" using out(1,2) some by blast+
  show "n \<notin> hostsOfInto rc (slice_at (ip_published prev) m) \<and> n \<notin> hostsOfInto rc (slice_at (ip_published next) m)" if "slice_at (ip_published prev) m \<noteq> slice_at (ip_published next) m"
    using out(3) [OF some [OF that]] by simp
  assume ne: "slice_at (ip_publish prev) m \<noteq> slice_at (ip_publish next) m"
  show "n \<notin> nodesSeeingInto rc m"
  proof (cases "tbl_get (ip_publish prev) m")
    case None
    then have "slice_at (ip_publish next) m \<noteq> []" using ne by (simp add: slice_at_def)
    then show ?thesis using None key [of m "ip_publish next"] by (intro out(4)) auto
  next
    case (Some x)
    then have "m \<in> fst ` set (ip_publish prev)" by (force dest: map_of_SomeD)
    then show ?thesis using ne by (intro out(4)) (auto simp: samePublish_def)
  qed
qed

section \<open>Rendering\<close>

definition full_render :: "Prefix \<Rightarrow> cache \<Rightarrow> panic + (nat, ClusterNetMap) table" where
  "full_render prefix c =
    bindE (inputs c) (\<lambda>inp. bindE (prepareRender prefix inp (renderIngressPlan inp)) (\<lambda>rc.
      Inr (map (\<lambda>(n, _). (n, renderNode rc n)) (ca_nodes c))))"

definition published_maps :: "Publisher \<Rightarrow> (nat, ClusterNetMap) table" where
  "published_maps p = map (\<lambda>(n, e). (n, canonicalContent (nm_current e))) (pb_maps p)"

definition stamped :: "Publisher \<Rightarrow> bool" where
  "stamped p \<longleftrightarrow> tbl_wf (pb_maps p) \<and> (\<forall>n e. tbl_get (pb_maps p) n = Some e \<longrightarrow> canonicalContent (nm_current e) = nm_content e)"

definition fresh :: "Publisher \<Rightarrow> bool" where
  "fresh p \<longleftrightarrow> cache_wf (pb_cache p) \<and> stamped p \<and>
    (\<exists>inp. inputs (pb_cache p) = Inr inp \<and> pb_plan p = renderIngressPlan inp \<and> prepareRender (pb_prefix p) inp (pb_plan p) = Inr (pb_rc p)) \<and>
    (\<forall>n. map_option nm_content (tbl_get (pb_maps p) n) = map_option (\<lambda>_. renderNode (pb_rc p) n) (tbl_get (ca_nodes (pb_cache p)) n))"

lemma tbl_map_values: "tbl_wf (map (\<lambda>(k, v). (k, f k v)) t) = tbl_wf t" "tbl_get (map (\<lambda>(k, v). (k, f k v)) t) k = map_option (f k) (tbl_get t k)"
proof -
  have "map fst (map (\<lambda>(k, v). (k, f k v)) t) = map fst t" by (induction t) auto
  then show "tbl_wf (map (\<lambda>(k, v). (k, f k v)) t) = tbl_wf t" by (simp only: tbl_wf_def)
  show "tbl_get (map (\<lambda>(k, v). (k, f k v)) t) k = map_option (f k) (tbl_get t k)" by (induction t) auto
qed

lemma fresh_full:
  assumes "fresh p"
  shows "full_render (pb_prefix p) (pb_cache p) = Inr (published_maps p)"
proof -
  from assms obtain inp where inp: "inputs (pb_cache p) = Inr inp" "pb_plan p = renderIngressPlan inp" "prepareRender (pb_prefix p) inp (pb_plan p) = Inr (pb_rc p)"
    and maps: "\<And>n. map_option nm_content (tbl_get (pb_maps p) n) = map_option (\<lambda>_. renderNode (pb_rc p) n) (tbl_get (ca_nodes (pb_cache p)) n)"
    and wf: "tbl_wf (ca_nodes (pb_cache p))" "tbl_wf (pb_maps p)" and st: "\<And>n e. tbl_get (pb_maps p) n = Some e \<Longrightarrow> canonicalContent (nm_current e) = nm_content e"
    by (auto simp: fresh_def cache_wf_def stamped_def)
  have "map (\<lambda>(n, _). (n, renderNode (pb_rc p) n)) (ca_nodes (pb_cache p)) = published_maps p" unfolding published_maps_def
  proof (rule tbl_ext)
    show "tbl_wf (map (\<lambda>(n, _). (n, renderNode (pb_rc p) n)) (ca_nodes (pb_cache p)))" "tbl_wf (map (\<lambda>(n, e). (n, canonicalContent (nm_current e))) (pb_maps p))"
      using wf by (simp_all add: tbl_map_values)
    have "map_option (\<lambda>e. canonicalContent (nm_current e)) (tbl_get (pb_maps p) n) = map_option nm_content (tbl_get (pb_maps p) n)" for n
      using st by (cases "tbl_get (pb_maps p) n") auto
    then show "tbl_get (map (\<lambda>(n, _). (n, renderNode (pb_rc p) n)) (ca_nodes (pb_cache p))) = tbl_get (map (\<lambda>(n, e). (n, canonicalContent (nm_current e))) (pb_maps p))"
      using maps by (simp add: fun_eq_iff tbl_map_values)
  qed
  then show ?thesis using inp by (simp add: full_render_def)
qed

text \<open>What rendering leaves as it was.\<close>

definition render_frame :: "Publisher \<Rightarrow> Publisher \<Rightarrow> bool" where
  "render_frame p q \<longleftrightarrow> pb_prefix q = pb_prefix p \<and> pb_cache q = pb_cache p \<and> pb_rc q = pb_rc p \<and> pb_plan q = pb_plan p \<and> pb_closed q = pb_closed p"

lemma render_one_step:
  assumes "render_one env seq n (p, ch) = (q, ch')" "stamped p"
  shows "render_frame p q \<and> stamped q \<and>
    (\<forall>m. map_option nm_content (tbl_get (pb_maps q) m) = (if m = n then Some (renderNode (pb_rc p) n) else map_option nm_content (tbl_get (pb_maps p) m)))"
proof -
  let ?m = "renderNode (pb_rc p) n"
  have can: "canonicalContent ?m = ?m" "canonicalContent (?m\<lparr>cnm_DerivedFromSeq := k\<rparr>) = ?m" for k
    by (simp_all add: canonicalContent_def renderNode_eq Let_def)
  have wf: "tbl_wf (pb_maps p)" using assms(2) by (simp add: stamped_def)
  show ?thesis
  proof (cases "\<exists>e. tbl_get (pb_maps p) n = Some e \<and> nm_content e = ?m")
    case True
    then show ?thesis using assms by (auto simp: render_one_def Let_def can render_frame_def)
  next
    case False
    then obtain stamp per net where q: "q = p\<lparr>pb_persisted := per, pb_maps := tbl_put n \<lparr>nm_current = ?m\<lparr>cnm_DerivedFromSeq := stamp\<rparr>, nm_content = ?m, nm_hash = pe_hash env ?m\<rparr> (pb_maps p), pb_netmaps := net\<rparr>"
      using assms(1) by (auto simp: render_one_def Let_def can split: option.splits)
    then show ?thesis using assms(2) can(2) by (auto simp: stamped_def render_frame_def tbl_get_put [OF wf] tbl_put_wf)
  qed
qed

lemma render_fold:
  assumes "fold (render_one env seq) ns (p, ch) = (q, ch')" "stamped p"
  shows "render_frame p q \<and> stamped q \<and>
    (\<forall>m. map_option nm_content (tbl_get (pb_maps q) m) = (if m \<in> set ns then Some (renderNode (pb_rc p) m) else map_option nm_content (tbl_get (pb_maps p) m)))"
  using assms
proof (induction ns arbitrary: p ch)
  case (Cons n ns)
  obtain p1 ch1 where p1: "render_one env seq n (p, ch) = (p1, ch1)" by (cases "render_one env seq n (p, ch)")
  note one = render_one_step [OF p1 Cons.prems(2)]
  have "fold (render_one env seq) ns (p1, ch1) = (q, ch')" using Cons.prems(1) p1 by simp
  then show ?case using Cons.IH one by (auto simp: render_frame_def)
qed (simp add: render_frame_def)

lemma renderNodesLocked_maps:
  assumes "renderNodesLocked env seq ns p = (q, ch)" "stamped p"
  shows "render_frame p q \<and> stamped q \<and>
    (\<forall>m. map_option nm_content (tbl_get (pb_maps q) m) =
      (if tbl_get (rc_nodes (pb_rc p)) m = None then None else if m \<in> set ns then Some (renderNode (pb_rc p) m) else map_option nm_content (tbl_get (pb_maps p) m)))"
proof -
  obtain p1 ch1 where f: "fold (render_one env seq) ns (p, []) = (p1, ch1)" by (cases "fold (render_one env seq) ns (p, [])")
  note one = render_fold [OF f assms(2)]
  let ?known = "\<lambda>n. tbl_get (rc_nodes (pb_rc p1)) n \<noteq> None"
  have q: "pb_maps q = filter (\<lambda>(n, _). ?known n) (pb_maps p1)" "render_frame p1 q" using assms(1) f by (auto simp: renderNodesLocked_def Let_def render_frame_def)
  have g: "tbl_get (filter (\<lambda>(n, _). P n) t) m = (if P m then tbl_get t m else None)" for P m and t :: "(nat, nodeMap) table" by (induction t) auto
  have "stamped q" using one q(1) by (auto simp: stamped_def g tbl_filter_wf split: if_splits)
  then show ?thesis using one q by (auto simp: g render_frame_def)
qed

end
