(* ===== verification/Publisher_Reach.thy ===== *)
theory Publisher_Reach
  imports Publisher_Fresh
begin

text \<open>
  The publisher from its opening on: every operation keeps its maps those of a full render, as long as
  the commits are steady.
\<close>

section \<open>What does not concern the maps\<close>

lemma fresh_cong:
  assumes "fresh p" "pb_cache q = pb_cache p" "pb_maps q = pb_maps p" "pb_plan q = pb_plan p" "pb_prefix q = pb_prefix p" "pb_rc q = pb_rc p"
  shows "fresh q"
  using assms by (simp add: fresh_def stamped_def)

lemma refresh_fold:
  assumes "fold (refresh_one env hostnames) ids (p, ch) = (q, ch')"
  shows "\<exists>a. q = p\<lparr>pb_acmeByNode := a\<rparr>"
  using assms
proof (induction ids arbitrary: p ch)
  case Nil
  then have "q = p\<lparr>pb_acmeByNode := pb_acmeByNode p\<rparr>" by simp
  then show ?case by blast
next
  case (Cons i ids)
  obtain p1 ch1 where p1: "refresh_one env hostnames i (p, ch) = (p1, ch1)" by (cases "refresh_one env hostnames i (p, ch)")
  have "\<exists>a. p1 = p\<lparr>pb_acmeByNode := a\<rparr>"
  proof (cases "p1 = p")
    case True
    then have "p1 = p\<lparr>pb_acmeByNode := pb_acmeByNode p\<rparr>" by simp
    then show ?thesis by blast
  next
    case False
    then show ?thesis using p1 by (auto simp: refresh_one_def Let_def split: option.splits if_splits)
  qed
  then obtain a where a: "p1 = p\<lparr>pb_acmeByNode := a\<rparr>" by blast
  have "fold (refresh_one env hostnames) ids (p1, ch1) = (q, ch')" using Cons.prems p1 by simp
  from Cons.IH [OF this] a show ?case by auto
qed

lemma refresh_frame:
  assumes "refreshAcmeLocked env ids p = Inr (q, ch)"
  shows "\<exists>a. q = p\<lparr>pb_acmeByNode := a\<rparr>"
proof -
  obtain ids1 b where b: "(if ids = [] then (map fst (ca_nodes (pb_cache p)), p\<lparr>pb_acmeByNode := filter (\<lambda>(n, _). tbl_get (ca_nodes (pb_cache p)) n \<noteq> None) (pb_acmeByNode p)\<rparr>)
      else (ids, p)) = (ids1, p\<lparr>pb_acmeByNode := b\<rparr>)"
  proof (cases "ids = []")
    case True
    then show ?thesis by (intro that [of "map fst (ca_nodes (pb_cache p))" "filter (\<lambda>(n, _). tbl_get (ca_nodes (pb_cache p)) n \<noteq> None) (pb_acmeByNode p)"]) simp
  next
    case False
    then show ?thesis by (intro that [of ids "pb_acmeByNode p"]) simp
  qed
  show ?thesis
  proof (cases "ids1 = []")
    case True
    then show ?thesis using assms unfolding refreshAcmeLocked_def b Let_def by auto
  next
    case False
    then obtain h where "fold (refresh_one env h) ids1 (p\<lparr>pb_acmeByNode := b\<rparr>, []) = (q, ch)" using assms unfolding refreshAcmeLocked_def b Let_def by (auto simp: bindE_Inr)
    from refresh_fold [OF this] show ?thesis by auto
  qed
qed

lemma untouched_fold:
  assumes "foldE (apply_mutation rc) ms s = Inr s'" "\<not> fs_inputsTouched s'" "cache_wf (fs_cache s)"
  shows "\<exists>w. fs_cache s' = fs_cache s\<lparr>ca_watermarks := w\<rparr>"
proof -
  have touched: "fs_inputsTouched u" if "foldE (apply_mutation rc) xs t = Inr u" "fs_inputsTouched t" for xs t u
    using that
  proof (induction xs arbitrary: t)
    case (Cons m xs)
    from Cons.prems(1) obtain v where v: "apply_mutation rc m t = Inr v" "foldE (apply_mutation rc) xs v = Inr u" by (auto simp: bindE_Inr)
    have "fs_inputsTouched v" using v(1) Cons.prems(2) by (auto simp: apply_mutation_def bindE_Inr Let_def case_prod_beta' split: if_splits)
    then show ?case by (rule Cons.IH [OF v(2)])
  qed simp
  show ?thesis using assms
  proof (induction ms arbitrary: s)
    case Nil
    then have "fs_cache s' = fs_cache s\<lparr>ca_watermarks := ca_watermarks (fs_cache s)\<rparr>" by simp
    then show ?case by blast
  next
    case (Cons m ms)
    from Cons.prems(1) obtain t where t: "apply_mutation rc m s = Inr t" "foldE (apply_mutation rc) ms t = Inr s'" by (auto simp: bindE_Inr)
    have nt: "\<not> fs_inputsTouched t" using touched [OF t(2)] Cons.prems(2) by blast
    have "\<exists>w. fs_cache t = fs_cache s\<lparr>ca_watermarks := w\<rparr>"
    proof (cases "Type m = CORE_NODE")
      case True
      from apply_node [OF t(1) True] obtain prev "next" c' where a: "applyNode m (fs_cache s) = Inr ((prev, next), c')"
        and b: "(if prev = None \<and> next = None then s\<lparr>fs_cache := c'\<rparr>
          else case dirtyNode prev next (fs_dirty s, fs_planDirty s) of (d, plan) \<Rightarrow> s\<lparr>fs_cache := c', fs_dirty := d, fs_planDirty := plan, fs_inputsTouched := True\<rparr>) = t" .
      have none: "prev = None \<and> next = None"
      proof (rule ccontr)
        assume "\<not> (prev = None \<and> next = None)"
        then have "fs_inputsTouched t" using b by (auto simp: case_prod_beta' split: if_splits)
        then show False using nt by blast
      qed
      have c': "applyNode m (fs_cache s) = Inr ((None, None), c')" "t = s\<lparr>fs_cache := c'\<rparr>" using a b none by simp_all
      note u = applyNode_Inr [OF c'(1) Cons.prems(3)]
      have "tbl_get (ca_nodes c') = tbl_get (ca_nodes (fs_cache s))" using u by (auto simp: fun_eq_iff)
      then have "ca_nodes c' = ca_nodes (fs_cache s)" using u Cons.prems(3) by (intro tbl_ext) (simp_all add: cache_wf_def)
      moreover obtain N where "c' = fs_cache s\<lparr>ca_nodes := N\<rparr>" using u by blast
      ultimately have "fs_cache t = fs_cache s\<lparr>ca_watermarks := ca_watermarks (fs_cache s)\<rparr>" using c'(2) by simp
      then show ?thesis by blast
    next
      case False
      then obtain c' where c': "applyStatus m (fs_cache s) = Inr c'" "t = s\<lparr>fs_cache := c'\<rparr>"
        using t(1) nt by (auto simp: apply_mutation_def bindE_Inr Let_def case_prod_beta' split: if_splits)
      show ?thesis
      proof (cases "c' = fs_cache s")
        case True
        then show ?thesis using c'(2) by (intro exI [of _ "ca_watermarks (fs_cache s)"]) simp
      next
        case False
        then show ?thesis using c' unfolding applyStatus_def Let_def by (auto split: if_splits option.splits CoreEntity.splits)
      qed
    qed
    then obtain w where w: "fs_cache t = fs_cache s\<lparr>ca_watermarks := w\<rparr>" by blast
    then have "cache_wf (fs_cache t)" using Cons.prems(3) by (simp add: cache_wf_def)
    from Cons.IH [OF t(2) Cons.prems(2) this] w show ?case by auto
  qed
qed

section \<open>A commit\<close>

definition at_rest :: "(nat \<Rightarrow> nat) \<Rightarrow> (nat \<Rightarrow> nat \<times> nat) \<Rightarrow> Publisher \<Rightarrow> bool" where
  "at_rest home site p \<longleftrightarrow> all_home home (pb_cache p) \<and> sited site (pb_cache p) \<and> public_only site (pb_plan p)"

text \<open>The dirty set and the plan that the render of a commit gets.\<close>

definition commit_plan :: "renderContext \<Rightarrow> ingressPlan \<Rightarrow> renderInputs \<Rightarrow> fold_state \<Rightarrow> dirtySet \<times> ingressPlan" where
  "commit_plan rc plan inp s =
    (if fs_planDirty s then (dirtyPlan rc plan (renderIngressPlan inp) (fs_dirty s), renderIngressPlan inp) else (fs_dirty s, plan))"

lemma dirtyPlan_all: "ds_all (dirtyPlan rc prev next d) = ds_all d"
  by (simp add: dirtyPlan_def Let_def dirty_add_def)

lemma unmarked_same:
  assumes fold: "foldE (apply_mutation rc) (ordered_mutations ms) s = Inr s'" "fs_cache s = c" "fs_cache s' = c'"
    and old: "well_drawn site prefix c plan inp rc" "all_home home c" "steady home site c ms"
    and new: "well_drawn site prefix c' plan' inp' rc'"
    and plan: "commit_plan rc plan inp' s' = (dirty, plan')" "\<not> dirty_has dirty n"
  shows "renderNode rc n = renderNode rc' n \<and> (tbl_get (ca_nodes c) n = None \<longleftrightarrow> tbl_get (ca_nodes c') n = None)"
proof -
  have inp': "inputs (fs_cache s') = Inr inp'" using new fold(3) by (simp add: well_drawn_def drawn_def)
  have wf: "cache_wf (fs_cache s)" using old(1) fold(2) by (simp add: well_drawn_def)
  note q = commit_quiet [OF fold(1) wf old(2,3) [folded fold(2)] inp', unfolded fold(2,3)]
  have quiet: "\<not> ds_all (fs_dirty s')" "n \<notin> ds_nodes (fs_dirty s')"
    using plan dirtyPlan_marks(1) by (auto simp: commit_plan_def dirty_has_def dirtyPlan_all split: if_splits)
  have plans: "slice_at (ip_published plan) n = slice_at (ip_published plan') n \<and>
    (\<forall>m. slice_at (ip_published plan) m \<noteq> slice_at (ip_published plan') m \<longrightarrow>
      n \<notin> hostsOfInto rc (slice_at (ip_published plan) m) \<and> n \<notin> hostsOfInto rc (slice_at (ip_published plan') m)) \<and>
    (\<forall>m. slice_at (ip_publish plan) m \<noteq> slice_at (ip_publish plan') m \<longrightarrow> n \<notin> nodesSeeingInto rc m)"
  proof (cases "fs_planDirty s'")
    case True
    then have "plan' = renderIngressPlan inp'" "n \<notin> ds_nodes (dirtyPlan rc plan plan' (fs_dirty s'))" using plan by (auto simp: commit_plan_def dirty_has_def)
    then show ?thesis using dirtyPlan_marks [of n rc plan plan' "fs_dirty s'"] by blast
  next
    case False
    then show ?thesis using plan(1) by (simp add: commit_plan_def)
  qed
  have keys: "map_option node_key (tbl_get (ca_nodes c) x) = map_option node_key (tbl_get (ca_nodes c') x)" for x by (rule q(4) [OF quiet(1)])
  have "undisturbed site rc n c plan c' plan'" unfolding undisturbed_def
    using q(5) [OF quiet] q(6) [OF quiet] keys plans by blast
  from undisturbed_map [OF this old(1) new] show ?thesis using keys [of n] by (cases "tbl_get (ca_nodes c) n"; cases "tbl_get (ca_nodes c') n") auto
qed

lemma applyLocked_touched:
  assumes "applyLocked env u p = Inr (out, p')" "ordered_mutations (upd_Mutations u) \<noteq> []" "fs_inputsTouched s"
    and "foldE (apply_mutation (pb_rc p)) (ordered_mutations (upd_Mutations u))
      \<lparr>fs_cache = pb_cache p, fs_dirty = newDirtySet, fs_planDirty = False, fs_inputsTouched = False, fs_touched = {}, fs_rows = []\<rparr> = Inr s"
  obtains inp dirty plan q ch ids ch' where "inputs (fs_cache s) = Inr inp" "commit_plan (pb_rc p) (pb_plan p) inp s = (dirty, plan)"
    "renderLocked env inp (Some dirty) (p\<lparr>pb_appliedSeq := upd_Seq u, pb_cache := fs_cache s, pb_plan := plan\<rparr>) = Inr (q, ch)" "refreshAcmeLocked env ids q = Inr (p', ch')"
proof -
  let ?p2 = "p\<lparr>pb_appliedSeq := upd_Seq u, pb_cache := fs_cache s\<rparr>"
  note a = assms(1) [unfolded applyLocked_def Let_def]
  from a assms(2-4) obtain inp where inp: "inputs (fs_cache s) = Inr inp" by (auto simp: bindE_Inr)
  obtain dirty plan where plan: "commit_plan (pb_rc p) (pb_plan p) inp s = (dirty, plan)" by (cases "commit_plan (pb_rc p) (pb_plan p) inp s")
  have pair: "(if fs_planDirty s then (dirtyPlan (pb_rc ?p2) (pb_plan ?p2) (renderIngressPlan inp) (fs_dirty s), ?p2\<lparr>pb_plan := renderIngressPlan inp\<rparr>) else (fs_dirty s, ?p2)) =
      (dirty, ?p2\<lparr>pb_plan := plan\<rparr>)" using plan by (auto simp: commit_plan_def split: if_splits)
  from a assms(2-4) inp obtain q ch ids ch' where "renderLocked env inp (Some dirty) (?p2\<lparr>pb_plan := plan\<rparr>) = Inr (q, ch)" "refreshAcmeLocked env ids q = Inr (p', ch')"
    by (auto simp: bindE_Inr pair [simplified])
  then show ?thesis using that inp plan by simp
qed

lemma member_ids:
  assumes "drawn prefix c plan inp rc" "cache_wf c"
  shows "n \<in> set (rc_nodeIDs rc) \<longleftrightarrow> tbl_get (ca_nodes c) n \<noteq> None"
proof -
  have "\<forall>(i, n) \<in> set (ca_nodes c). node_ID n = i" using assms by (simp add: cache_wf_def)
  then have "map (\<lambda>(i, n). node_ID n) (ca_nodes c) = map fst (ca_nodes c)" by (intro map_cong) auto
  then have "rc_nodeIDs rc = map fst (ca_nodes c)" using drawn_context(2) [OF assms(1)] by simp
  then show ?thesis by (simp add: map_of_eq_None_iff)
qed

lemma applyLocked_fresh:
  assumes "applyLocked env u p = Inr (out, p')" "fresh p" "at_rest home site p" "at_rest home site p'" "steady home site (pb_cache p) (upd_Mutations u)"
  shows "fresh p'"
proof -
  let ?p1 = "p\<lparr>pb_appliedSeq := upd_Seq u\<rparr>" and ?ms = "ordered_mutations (upd_Mutations u)"
  let ?s = "\<lparr>fs_cache = pb_cache p, fs_dirty = newDirtySet, fs_planDirty = False, fs_inputsTouched = False, fs_touched = {}, fs_rows = []\<rparr>"
  from assms(2) obtain inp where old: "cache_wf (pb_cache p)" "stamped p" "inputs (pb_cache p) = Inr inp" "pb_plan p = renderIngressPlan inp" "prepareRender (pb_prefix p) inp (pb_plan p) = Inr (pb_rc p)"
    and maps: "\<And>n. map_option nm_content (tbl_get (pb_maps p) n) = map_option (\<lambda>_. renderNode (pb_rc p) n) (tbl_get (ca_nodes (pb_cache p)) n)" by (auto simp: fresh_def)
  show ?thesis
  proof (cases "?ms = []")
    case True
    then have "p' = ?p1" using assms(1) by (simp add: applyLocked_def Let_def)
    then show ?thesis using fresh_cong [OF assms(2)] by simp
  next
    case False
    then obtain s where fold: "foldE (apply_mutation (pb_rc p)) ?ms ?s = Inr s" using assms(1) by (auto simp: applyLocked_def Let_def bindE_Inr)
    show ?thesis
    proof (cases "fs_inputsTouched s")
      case untouched: False
      then have p': "p' = ?p1\<lparr>pb_cache := fs_cache s\<rparr>" using assms(1) False fold by (simp add: applyLocked_def Let_def)
      from untouched_fold [OF fold untouched] old(1) obtain w where "fs_cache s = pb_cache p\<lparr>ca_watermarks := w\<rparr>" by auto
      then show ?thesis using assms(2) unfolding p' by (auto simp: fresh_def stamped_def cache_wf_def inputs_def instance_state_def)
    next
      case True
      from applyLocked_touched [OF assms(1) False True fold] obtain inp' dirty plan' q ch ids ch' where inp': "inputs (fs_cache s) = Inr inp'"
        and plan: "commit_plan (pb_rc p) (pb_plan p) inp' s = (dirty, plan')"
        and render: "renderLocked env inp' (Some dirty) (?p1\<lparr>pb_cache := fs_cache s, pb_plan := plan'\<rparr>) = Inr (q, ch)"
        and acme: "refreshAcmeLocked env ids q = Inr (p', ch')" by blast
      from render obtain rc' where rc': "prepareRender (pb_prefix p) inp' plan' = Inr rc'"
        and q: "renderNodesLocked env (upd_Seq u) (filter (dirty_has dirty) (rc_nodeIDs rc')) (?p1\<lparr>pb_cache := fs_cache s, pb_plan := plan', pb_rc := rc', pb_diagnostics := rc_diagnostics rc'\<rparr>) = (q, ch)"
        by (auto simp: renderLocked_def bindE_Inr Let_def)
      have st: "stamped (?p1\<lparr>pb_cache := fs_cache s, pb_plan := plan', pb_rc := rc', pb_diagnostics := rc_diagnostics rc'\<rparr>)" using old(2) by (simp add: stamped_def)
      note r = renderNodesLocked_maps [OF q st]
      from refresh_frame [OF acme] obtain a where p': "p' = q\<lparr>pb_acmeByNode := a\<rparr>" by blast
      have f: "pb_cache p' = fs_cache s" "pb_plan p' = plan'" "pb_prefix p' = pb_prefix p" "pb_rc p' = rc'" "pb_maps p' = pb_maps q" using r p' by (auto simp: render_frame_def)
      have home: "all_home home (pb_cache p)" using assms(3) by (simp add: at_rest_def)
      have wf': "cache_wf (fs_cache s)" and parts: "\<not> fs_planDirty s \<Longrightarrow> plan_part (fs_cache s) = plan_part (pb_cache p) \<and> member_part (fs_cache s) = member_part (pb_cache p)"
        using commit_quiet(1,3) [OF fold _ _ _ inp', of home site] old(1) home assms(5) by simp_all
      have plan': "plan' = renderIngressPlan inp'" using plan same_plan [OF old(3) inp'] parts old(4) by (auto simp: commit_plan_def split: if_splits)
      have w: "well_drawn site (pb_prefix p) (pb_cache p) (pb_plan p) inp (pb_rc p)" "well_drawn site (pb_prefix p) (fs_cache s) plan' inp' rc'"
        using assms(3,4) old wf' inp' rc' f by (simp_all add: well_drawn_def drawn_def at_rest_def)
      have nodes: "tbl_get (rc_nodes rc') n = map_option (node_entry plan') (tbl_get (ca_nodes (fs_cache s)) n)" for n by (rule node_entry_at [OF well_drawnD(1) [OF w(2)] wf'])
      have ids: "n \<in> set (rc_nodeIDs rc') \<longleftrightarrow> tbl_get (ca_nodes (fs_cache s)) n \<noteq> None" for n
        by (rule member_ids [OF well_drawnD(1) [OF w(2)] wf'])
      have "map_option nm_content (tbl_get (pb_maps q) n) = map_option (\<lambda>_. renderNode rc' n) (tbl_get (ca_nodes (fs_cache s)) n)" for n
      proof (cases "tbl_get (ca_nodes (fs_cache s)) n")
        case None
        then show ?thesis using r nodes by simp
      next
        case (Some x)
        show ?thesis
        proof (cases "dirty_has dirty n")
          case True
          then show ?thesis using r Some nodes ids by simp
        next
          case False
          have "renderNode (pb_rc p) n = renderNode rc' n \<and> (tbl_get (ca_nodes (pb_cache p)) n = None \<longleftrightarrow> tbl_get (ca_nodes (fs_cache s)) n = None)"
            by (rule unmarked_same [OF fold _ refl w(1) home assms(5) w(2) plan False]) simp
          then show ?thesis using r Some nodes False maps [of n] by auto
        qed
      qed
      then show ?thesis using r wf' inp' rc' plan' p' unfolding fresh_def f by (simp add: stamped_def)
    qed
  qed
qed

section \<open>What the store keeps of the maps\<close>

text \<open>The row of a node's map; a node that has no map yet has the row of a former run.\<close>

definition map_row :: "(ClusterNetMap \<Rightarrow> string) \<Rightarrow> nodeMap \<Rightarrow> NodeNetmap" where
  "map_row hash e = \<lparr>nn_DerivedSeq = cnm_DerivedFromSeq (nm_current e), nn_ContentHash = hash (nm_content e)\<rparr>"

definition recorded :: "(ClusterNetMap \<Rightarrow> string) \<Rightarrow> Publisher \<Rightarrow> bool" where
  "recorded hash p \<longleftrightarrow> tbl_wf (pb_maps p) \<and> tbl_wf (pb_netmaps p) \<and>
    (\<forall>n. tbl_get (pb_netmaps p) n = (case tbl_get (pb_maps p) n of Some e \<Rightarrow> Some (map_row hash e) | None \<Rightarrow> tbl_get (pb_persisted p) n))"

lemma recorded_cong:
  assumes "recorded hash p" "pb_maps q = pb_maps p" "pb_netmaps q = pb_netmaps p" "pb_persisted q = pb_persisted p"
  shows "recorded hash q"
  using assms(1) unfolding recorded_def assms(2-4) .

lemma render_one_recorded:
  assumes "render_one env seq n (p, ch) = (q, ch')" "recorded (pe_hash env) p"
  shows "recorded (pe_hash env) q"
proof (cases "\<exists>e. tbl_get (pb_maps p) n = Some e \<and> nm_content e = canonicalContent (renderNode (pb_rc p) n)")
  case True
  then show ?thesis using assms by (auto simp: render_one_def Let_def)
next
  case False
  then have nc: "\<not> (case tbl_get (pb_maps p) n of Some e \<Rightarrow> nm_content e = canonicalContent (renderNode (pb_rc p) n) | None \<Rightarrow> False)" by (auto split: option.splits)
  define stamp where "stamp = (case (tbl_get (pb_maps p) n, tbl_get (pb_persisted p) n) of
    (None, Some row) \<Rightarrow> if nn_ContentHash row = pe_hash env (canonicalContent (renderNode (pb_rc p) n)) then nn_DerivedSeq row else seq | _ \<Rightarrow> seq)"
  define e where "e = \<lparr>nm_current = renderNode (pb_rc p) n\<lparr>cnm_DerivedFromSeq := stamp\<rparr>, nm_content = canonicalContent (renderNode (pb_rc p) n),
    nm_hash = pe_hash env (canonicalContent (renderNode (pb_rc p) n))\<rparr>"
  have e: "cnm_DerivedFromSeq (nm_current e) = stamp" by (simp add: e_def)
  have q: "q = p\<lparr>pb_persisted := tbl_del n (pb_persisted p), pb_maps := tbl_put n e (pb_maps p),
      pb_netmaps := tbl_put n \<lparr>nn_DerivedSeq = stamp, nn_ContentHash = pe_hash env (nm_content e)\<rparr> (pb_netmaps p)\<rparr>"
    using assms(1) unfolding render_one_def Let_def prod.case if_not_P [OF nc] by (simp add: e_def stamp_def)
  have wf: "tbl_wf (pb_maps p)" "tbl_wf (pb_netmaps p)" using assms(2) by (simp_all add: recorded_def)
  show ?thesis using assms(2) e unfolding q recorded_def
    by (simp add: tbl_put_wf tbl_get_put [OF wf(1)] tbl_get_put [OF wf(2)] tbl_get_del map_row_def split: option.splits)
qed

lemma render_fold_recorded:
  "fold (render_one env seq) ns (p, ch) = (q, ch') \<Longrightarrow> recorded (pe_hash env) p \<Longrightarrow> recorded (pe_hash env) q"
proof (induction ns arbitrary: p ch)
  case (Cons n ns)
  obtain p1 ch1 where "render_one env seq n (p, ch) = (p1, ch1)" by (cases "render_one env seq n (p, ch)")
  then show ?case using Cons render_one_recorded by auto
qed simp

lemma renderNodes_recorded:
  assumes "renderNodesLocked env seq ns p = (q, ch)" "recorded (pe_hash env) p"
  shows "recorded (pe_hash env) q"
proof -
  obtain p1 ch1 where f: "fold (render_one env seq) ns (p, []) = (p1, ch1)" by (cases "fold (render_one env seq) ns (p, [])")
  note one = render_fold_recorded [OF f assms(2)]
  let ?known = "\<lambda>n. tbl_get (rc_nodes (pb_rc p1)) n \<noteq> None"
  let ?dels = "filter (\<lambda>n. \<not> ?known n) (map fst (pb_maps p1) @ map fst (pb_persisted p1))"
  have q: "q = p1\<lparr>pb_maps := filter (\<lambda>(n, _). ?known n) (pb_maps p1), pb_persisted := filter (\<lambda>(n, _). ?known n) (pb_persisted p1), pb_netmaps := fold tbl_del ?dels (pb_netmaps p1)\<rparr>"
    using assms(1) f by (simp add: renderNodesLocked_def Let_def)
  have g: "tbl_get (filter (\<lambda>(n, _). P n) t) m = (if P m then tbl_get t m else None)" for P m and t :: "(nat, 'v) table" by (induction t) auto
  have del: "tbl_get (fold tbl_del ks t) m = (if m \<in> set ks then None else tbl_get t m)" for ks m and t :: "(nat, NodeNetmap) table"
    by (induction ks arbitrary: t) (auto simp: tbl_get_del)
  have wf: "tbl_wf t \<Longrightarrow> tbl_wf (fold tbl_del ks t)" for ks and t :: "(nat, NodeNetmap) table" by (induction ks arbitrary: t) (auto simp: tbl_del_wf)
  have keys: "n \<in> set ?dels \<longleftrightarrow> \<not> ?known n \<and> (tbl_get (pb_maps p1) n \<noteq> None \<or> tbl_get (pb_persisted p1) n \<noteq> None)" for n by (auto simp: map_of_eq_None_iff)
  have "tbl_get (pb_netmaps q) n = (case tbl_get (pb_maps q) n of Some e \<Rightarrow> Some (map_row (pe_hash env) e) | None \<Rightarrow> tbl_get (pb_persisted q) n)" for n
  proof (cases "?known n")
    case True
    then have "tbl_get (pb_netmaps q) n = tbl_get (pb_netmaps p1) n" "tbl_get (pb_maps q) n = tbl_get (pb_maps p1) n" "tbl_get (pb_persisted q) n = tbl_get (pb_persisted p1) n"
      using keys [of n] unfolding q by (auto simp: del g)
    then show ?thesis using one by (simp add: recorded_def split: option.split)
  next
    case False
    then have "tbl_get (pb_maps q) n = None" "tbl_get (pb_persisted q) n = None" unfolding q by (simp_all add: g)
    moreover have "tbl_get (pb_netmaps q) n = None"
    proof (cases "n \<in> set ?dels")
      case True
      then have "tbl_get (fold tbl_del ?dels (pb_netmaps p1)) n = None" unfolding del by (rule if_P)
      then show ?thesis unfolding q by simp
    next
      case nd: False
      then have "tbl_get (pb_maps p1) n = None" "tbl_get (pb_persisted p1) n = None" using keys [of n] False by auto
      then have "tbl_get (pb_netmaps p1) n = None" using one by (simp add: recorded_def)
      then have "tbl_get (fold tbl_del ?dels (pb_netmaps p1)) n = None" unfolding del by simp
      then show ?thesis unfolding q by simp
    qed
    ultimately show ?thesis by simp
  qed
  then show ?thesis using one wf unfolding recorded_def by (simp add: q tbl_filter_wf)
qed

lemma renderLocked_recorded: "renderLocked env inp dirty p = Inr (q, ch) \<Longrightarrow> recorded (pe_hash env) p \<Longrightarrow> recorded (pe_hash env) q"
  by (auto simp: renderLocked_def bindE_Inr Let_def elim!: renderNodes_recorded intro: recorded_cong)

lemma renderLocked_stamped: "renderLocked env inp dirty p = Inr (q, ch) \<Longrightarrow> stamped p \<Longrightarrow> stamped q"
  by (auto simp: renderLocked_def bindE_Inr Let_def stamped_def dest!: renderNodesLocked_maps)

section \<open>Opening\<close>

lemma fold_put_wf: "tbl_wf t \<Longrightarrow> \<forall>(i, x) \<in> set t. f x = i \<Longrightarrow> tbl_wf (fold (\<lambda>x. tbl_put (f x) x) xs t) \<and> (\<forall>(i, x) \<in> set (fold (\<lambda>x. tbl_put (f x) x) xs t). f x = i)"
proof (induction xs arbitrary: t)
  case (Cons x xs)
  have "tbl_wf (tbl_put (f x) x t)" "\<forall>(i, y) \<in> set (tbl_put (f x) x t). f y = i"
    using Cons.prems tbl_put_wf keyed_put [of t "\<lambda>i y. f y = i" "f x" x] by auto
  then show ?case using Cons.IH by simp
qed simp

lemma seedCache_wf:
  assumes "tbl_wf (network_policies (db_tables d))"
  shows "cache_wf (fst (seedCache d))"
proof -
  have dep: "cache_wf (seed_deployment r c)" if "cache_wf c" for r c
    using that keyed_put [of "ca_current c" "\<lambda>i r. dep_ID (drec_Deployment r) = i" "dep_ID (drec_Deployment r)" r]
    by (simp add: cache_wf_def seed_deployment_def Let_def tbl_put_wf)
  have inst: "cache_wf (seed_instance ts i c)" if "cache_wf c" for ts i c
    using that by (auto simp: cache_wf_def seed_instance_def Let_def tbl_put_wf split: option.splits)
  have f1: "cache_wf (fold seed_deployment xs c)" if "cache_wf c" for xs c using that by (induction xs arbitrary: c) (simp_all add: dep)
  have f2: "cache_wf (fold (seed_instance ts) xs c)" if "cache_wf c" for ts xs c using that by (induction xs arbitrary: c) (simp_all add: inst)
  have empty: "tbl_wf ([] :: ('k :: linorder, 'v) table)" by (simp add: tbl_wf_def)
  have "cache_wf (newCache\<lparr>ca_nodes := fold (\<lambda>n. tbl_put (node_ID n) n) ns []\<rparr>)" for ns
    using fold_put_wf [of "[]" node_ID ns] empty by (simp add: cache_wf_def newCache_def)
  moreover have "cache_wf (c\<lparr>ca_policies := map (\<lambda>(i, r). (i, (row_value r)\<lparr>np_ID := i\<rparr>)) (network_policies (db_tables d))\<rparr>)" if "cache_wf c" for c
    using that assms by (simp add: cache_wf_def tbl_map_values)
  ultimately show ?thesis unfolding seedCache_def Let_def fst_conv by (simp add: f1 f2)
qed

lemma seeded:
  assumes "New env prefix acme netmaps d = Inr p"
  obtains inp rc q q' ch a where "inputs (fst (seedCache d)) = Inr inp" "prepareRender prefix inp (renderIngressPlan inp) = Inr rc"
    "renderNodesLocked env (snd (seedCache d)) (rc_nodeIDs rc) q = (q', ch)" "p = q'\<lparr>pb_acmeByNode := a\<rparr>"
    "pb_rc q = rc" "pb_maps q = []" "pb_persisted q = netmaps" "pb_netmaps q = netmaps" "pb_plan q = renderIngressPlan inp" "pb_cache q = fst (seedCache d)" "pb_prefix q = prefix"
proof -
  let ?c = "fst (seedCache d)" and ?seq = "snd (seedCache d)"
  let ?p0 = "\<lparr>pb_prefix = prefix, pb_cache = newCache,
       pb_rc = \<lparr>rc_prefix = prefix, rc_nodes = [], rc_nodeIDs = [], rc_placements = [], rc_services = [], rc_policyRules = [], rc_published = [], rc_diagnostics = []\<rparr>,
       pb_plan = \<lparr>ip_publish = [], ip_published = [], ip_diagnostics = []\<rparr>, pb_maps = [], pb_persisted = netmaps, pb_netmaps = netmaps,
       pb_appliedSeq = 0, pb_subscribers = [], pb_closed = False, pb_acme = acme, pb_acmeByNode = [], pb_diagnostics = [], pb_applied = []\<rparr>"
  from assms obtain inp p2 ch ch' where inp: "inputs ?c = Inr inp"
    and r: "renderLocked env inp None (?p0\<lparr>pb_cache := ?c, pb_maps := [], pb_acmeByNode := [], pb_plan := renderIngressPlan inp, pb_appliedSeq := ?seq\<rparr>) = Inr (p2, ch)"
    and a: "refreshAcmeLocked env [] p2 = Inr (p, ch')"
    by (auto simp: New_def seedLocked_def Let_def case_prod_beta' bindE_Inr)
  from refresh_frame [OF a] obtain b where b: "p = p2\<lparr>pb_acmeByNode := b\<rparr>" by blast
  from r obtain rc where rc: "prepareRender prefix inp (renderIngressPlan inp) = Inr rc"
    "renderNodesLocked env ?seq (rc_nodeIDs rc) (?p0\<lparr>pb_cache := ?c, pb_maps := [], pb_acmeByNode := [], pb_plan := renderIngressPlan inp, pb_appliedSeq := ?seq, pb_rc := rc, pb_diagnostics := rc_diagnostics rc\<rparr>) = (p2, ch)"
    by (auto simp: renderLocked_def bindE_Inr Let_def)
  show ?thesis by (rule that [OF inp rc b]) simp_all
qed

lemma New_fresh:
  assumes "New env prefix acme netmaps d = Inr p" "tbl_wf (network_policies (db_tables d))" "tbl_wf netmaps"
  shows "fresh p" "recorded (pe_hash env) p" "pb_prefix p = prefix" "pb_cache p = fst (seedCache d)"
proof -
  from seeded [OF assms(1)] obtain inp rc q q' ch a where inp: "inputs (fst (seedCache d)) = Inr inp" "prepareRender prefix inp (renderIngressPlan inp) = Inr rc"
    and r: "renderNodesLocked env (snd (seedCache d)) (rc_nodeIDs rc) q = (q', ch)" and p: "p = q'\<lparr>pb_acmeByNode := a\<rparr>"
    and q: "pb_rc q = rc" "pb_maps q = []" "pb_persisted q = netmaps" "pb_netmaps q = netmaps" "pb_plan q = renderIngressPlan inp" "pb_cache q = fst (seedCache d)" "pb_prefix q = prefix" .
  have empty: "tbl_wf ([] :: (nat, nodeMap) table)" by (simp add: tbl_wf_def)
  have st: "stamped q" "recorded (pe_hash env) q" using q empty assms(3) by (simp_all add: stamped_def recorded_def)
  note m = renderNodesLocked_maps [OF r st(1)]
  show "recorded (pe_hash env) p" unfolding p by (rule recorded_cong [OF renderNodes_recorded [OF r st(2)]]) simp_all
  have f: "pb_prefix p = prefix" "pb_cache p = fst (seedCache d)" "pb_rc p = rc" "pb_plan p = renderIngressPlan inp" "pb_maps p = pb_maps q'" using m q p by (auto simp: render_frame_def)
  then show "pb_prefix p = prefix" "pb_cache p = fst (seedCache d)" by blast+
  have d: "drawn prefix (fst (seedCache d)) (renderIngressPlan inp) inp rc" using inp by (simp add: drawn_def)
  note wf = seedCache_wf [OF assms(2)]
  have "map_option nm_content (tbl_get (pb_maps q') n) = map_option (\<lambda>_. renderNode rc n) (tbl_get (ca_nodes (fst (seedCache d))) n)" for n
    using m node_entry_at [OF d wf] member_ids [OF d wf] q by (auto simp: render_frame_def)
  then show "fresh p" using m wf inp f p unfolding fresh_def f by (simp add: stamped_def)
qed

end
