(* ===== verification/Publisher_Example.thy ===== *)
theory Publisher_Example
  imports Publisher_Reach
begin

text \<open>
  When the operations of the publisher do not panic, and small stores and caches on which the theorems are
  applied: two member nodes, the deployment \<open>web\<close> on the first and \<open>api\<close> on the second.
\<close>

section \<open>Commits that return\<close>

lemma refresh_runs:
  assumes "inputs (pb_cache p) = Inr inp" "\<And>n ds d. (n, ds) \<in> set (ip_published (pb_plan p)) \<Longrightarrow> d \<in> set ds \<Longrightarrow> tbl_get (ca_current (pb_cache p)) d \<noteq> None"
  obtains q ch where "refreshAcmeLocked env ids p = Inr (q, ch)"
proof -
  have rows: "\<exists>rows. mapE (\<lambda>(i, inst). instance_state (pb_cache p) inst) (ca_instances (pb_cache p)) = Inr rows" using assms(1) by (auto simp: inputs_def bindE_Inr)
  have published: "\<exists>rs. mapE (\<lambda>(n, dep). case tbl_get (ca_current (pb_cache p)) dep of None \<Rightarrow> Inl NilPointer | Some r \<Rightarrow> Inr (n, r))
      (concat (map (\<lambda>(n, deployments). map (\<lambda>dep. (n, dep)) deployments) (ip_published (pb_plan p)))) = Inr rs"
    unfolding mapE_Inr_iff using assms(2) by (force split: option.splits)
  have "\<exists>names. hostnamesByNodeLocked p' = Inr names" if "pb_cache p' = pb_cache p" "pb_plan p' = pb_plan p" for p'
    using rows published unfolding hostnamesByNodeLocked_def that by (auto simp: bindE_Inr)
  from this [of p] this [of "p\<lparr>pb_acmeByNode := filter (\<lambda>(n, _). tbl_get (ca_nodes (pb_cache p)) n \<noteq> None) (pb_acmeByNode p)\<rparr>"]
  have "\<exists>r. refreshAcmeLocked env ids p = Inr r" by (auto simp: refreshAcmeLocked_def bindE_Inr)
  then show ?thesis using that by (metis surj_pair)
qed

lemma applyLocked_runs:
  assumes "foldE (apply_mutation (pb_rc p)) (ordered_mutations (upd_Mutations u))
      \<lparr>fs_cache = pb_cache p, fs_dirty = newDirtySet, fs_planDirty = False, fs_inputsTouched = False, fs_touched = {}, fs_rows = []\<rparr> = Inr s"
    and "ordered_mutations (upd_Mutations u) \<noteq> []" "fs_inputsTouched s" "inputs (fs_cache s) = Inr inp" "commit_plan (pb_rc p) (pb_plan p) inp s = (dirty, plan)"
    and "prepareRender (pb_prefix p) inp plan = Inr rc" "\<And>n ds d. (n, ds) \<in> set (ip_published plan) \<Longrightarrow> d \<in> set ds \<Longrightarrow> tbl_get (ca_current (fs_cache s)) d \<noteq> None" "stamped p"
  obtains out q ch a where "applyLocked env u p = Inr (out, q\<lparr>pb_acmeByNode := a\<rparr>)"
    "renderNodesLocked env (upd_Seq u) (filter (dirty_has dirty) (rc_nodeIDs rc))
       (p\<lparr>pb_appliedSeq := upd_Seq u, pb_cache := fs_cache s, pb_plan := plan, pb_rc := rc, pb_diagnostics := rc_diagnostics rc\<rparr>) = (q, ch)"
    "pb_cache q = fs_cache s" "pb_plan q = plan" "pb_prefix q = pb_prefix p"
proof -
  let ?p2 = "p\<lparr>pb_appliedSeq := upd_Seq u, pb_cache := fs_cache s\<rparr>"
  obtain q ch where r: "renderNodesLocked env (upd_Seq u) (filter (dirty_has dirty) (rc_nodeIDs rc)) (?p2\<lparr>pb_plan := plan, pb_rc := rc, pb_diagnostics := rc_diagnostics rc\<rparr>) = (q, ch)"
    by (cases "renderNodesLocked env (upd_Seq u) (filter (dirty_has dirty) (rc_nodeIDs rc)) (?p2\<lparr>pb_plan := plan, pb_rc := rc, pb_diagnostics := rc_diagnostics rc\<rparr>)")
  have "stamped (?p2\<lparr>pb_plan := plan, pb_rc := rc, pb_diagnostics := rc_diagnostics rc\<rparr>)" using assms(8) by (simp add: stamped_def)
  from renderNodesLocked_maps [OF r this] have q: "pb_cache q = fs_cache s" "pb_plan q = plan" "pb_prefix q = pb_prefix p" by (simp_all add: render_frame_def)
  have render: "renderLocked env inp (Some dirty) (?p2\<lparr>pb_plan := plan\<rparr>) = Inr (q, ch)" using r assms(6) by (simp add: renderLocked_def)
  have pair: "(if fs_planDirty s then (dirtyPlan (pb_rc ?p2) (pb_plan ?p2) (renderIngressPlan inp) (fs_dirty s), ?p2\<lparr>pb_plan := renderIngressPlan inp\<rparr>) else (fs_dirty s, ?p2)) =
      (dirty, ?p2\<lparr>pb_plan := plan\<rparr>)" using assms(5) by (auto simp: commit_plan_def split: if_splits)
  obtain p5 ch5 where acme: "refreshAcmeLocked env (if ds_all dirty then [] else sorted_list_of_set (fs_touched s \<union> ds_nodes dirty)) q = Inr (p5, ch5)"
    by (rule refresh_runs [of q inp]) (use assms(4,7) q in auto)
  from refresh_frame [OF acme] obtain a where a: "p5 = q\<lparr>pb_acmeByNode := a\<rparr>" by blast
  have "\<exists>out. applyLocked env u p = Inr (out, p5)" unfolding applyLocked_def Let_def using assms(1-4) render acme by (simp add: pair [simplified])
  then obtain out where "applyLocked env u p = Inr (out, q\<lparr>pb_acmeByNode := a\<rparr>)" using a by blast
  from that [OF this r q] show ?thesis .
qed

lemma New_runs:
  assumes "inputs (fst (seedCache d)) = Inr inp" "prepareRender prefix inp (renderIngressPlan inp) = Inr rc"
    and "\<And>n ds dep. (n, ds) \<in> set (ip_published (renderIngressPlan inp)) \<Longrightarrow> dep \<in> set ds \<Longrightarrow> tbl_get (ca_current (fst (seedCache d))) dep \<noteq> None"
  obtains p where "New env prefix acme netmaps d = Inr p" "pb_cache p = fst (seedCache d)" "pb_plan p = renderIngressPlan inp" "pb_prefix p = prefix" "\<not> pb_closed p"
proof -
  let ?p1 = "\<lparr>pb_prefix = prefix, pb_cache = fst (seedCache d),
       pb_rc = \<lparr>rc_prefix = prefix, rc_nodes = [], rc_nodeIDs = [], rc_placements = [], rc_services = [], rc_policyRules = [], rc_published = [], rc_diagnostics = []\<rparr>,
       pb_plan = renderIngressPlan inp, pb_maps = [], pb_persisted = netmaps, pb_netmaps = netmaps,
       pb_appliedSeq = snd (seedCache d), pb_subscribers = [], pb_closed = False, pb_acme = acme, pb_acmeByNode = [], pb_diagnostics = [], pb_applied = []\<rparr>"
  let ?q = "?p1\<lparr>pb_rc := rc, pb_diagnostics := rc_diagnostics rc\<rparr>"
  obtain q ch where r: "renderNodesLocked env (snd (seedCache d)) (rc_nodeIDs rc) ?q = (q, ch)" by (cases "renderNodesLocked env (snd (seedCache d)) (rc_nodeIDs rc) ?q")
  have "stamped ?q" by (simp add: stamped_def tbl_wf_def)
  from renderNodesLocked_maps [OF r this] have q: "pb_cache q = fst (seedCache d)" "pb_plan q = renderIngressPlan inp" "pb_prefix q = prefix" "\<not> pb_closed q" by (simp_all add: render_frame_def)
  obtain p ch' where acme: "refreshAcmeLocked env [] q = Inr (p, ch')"
    by (rule refresh_runs [of q inp]) (use assms(1,3) q in auto)
  from refresh_frame [OF acme] obtain a where a: "p = q\<lparr>pb_acmeByNode := a\<rparr>" by blast
  have "renderLocked env inp None ?p1 = Inr (q, ch)" using r assms(2) by (simp add: renderLocked_def)
  then have "New env prefix acme netmaps d = Inr p" using assms(1) acme by (simp add: New_def seedLocked_def case_prod_beta' Let_def)
  then show ?thesis by (rule that) (use q a in simp_all)
qed

section \<open>Two nodes\<close>

definition ex_row :: "NodeRow row" where
  "ex_row = \<lparr>row_value = \<lparr>nrow_Name = ''node'', nrow_Identifier = ''node'', nrow_Status = 4, nrow_Roles = [], nrow_AllowedSpaces = [], nrow_EnrolledTime = 0,
     nrow_EnrollmentRequestedAt = 0, nrow_UnderlayAddress = None, nrow_WgPublicKey = ''key'', nrow_HostAddresses = [], nrow_HostAddressesUnknown = False\<rparr>,
     row_seq = 1, row_event_time = 1, row_author = 0, row_created_time = 1\<rparr>"

definition ex_node :: "nat \<Rightarrow> Node" where
  "ex_node i = scanCurrentNode (i, ex_row)"

definition ex_record :: "nat \<Rightarrow> string \<Rightarrow> nat \<Rightarrow> nat \<Rightarrow> nat \<Rightarrow> DeploymentRecord" where
  "ex_record i name space node v =
    \<lparr>drec_Deployment = \<lparr>dep_ID = i, dep_Name = name, dep_SpaceID = space,
       dep_Spec = \<lparr>ds_Container = None, ds_Networking = \<lparr>nc_Mode = NETWORKING_MODE_VIRTUAL, nc_PortForwarding = [], nc_Ingress = []\<rparr>\<rparr>,
       dep_Scheduling = \<lparr>sch_Running = True, sch_DedicatedNodes = Some [node], sch_RestartGeneration = 0\<rparr>\<rparr>,
     drec_Meta = \<lparr>meta_CreatedTime = 0, meta_UpdatedTime = 0, meta_UpdatedSeq = 0, meta_UpdatedActor = 0, meta_Version = v, meta_SpecVersion = v, meta_ValueVersion = 0, meta_Deleted = False\<rparr>\<rparr>"

definition ex_instance :: "nat \<Rightarrow> nat \<Rightarrow> nat \<Rightarrow> nat \<Rightarrow> nat \<Rightarrow> ScheduledInstanceTarget \<Rightarrow> ScheduledInstance" where
  "ex_instance i dep v space node state = \<lparr>si_ID = i, si_NodeID = node, si_InstanceOrdinal = 0, si_State = state, si_SpaceID = space,
     si_Deployment = \<lparr>dref_DeploymentID = dep, dref_Version = v\<rparr>\<rparr>"

definition ex_cache :: "(nat \<times> ScheduledInstance) list \<Rightarrow> (versionKey \<times> versionEntry) list \<Rightarrow> cache" where
  "ex_cache instances versions = \<lparr>ca_nodes = [(1, ex_node 1), (2, ex_node 2)], ca_instances = instances,
     ca_versions = versions @ [((7, 2), \<lparr>ve_record = ex_record 7 ''web'' 3 1 2, ve_pins = 1\<rparr>), ((8, 1), \<lparr>ve_record = ex_record 8 ''api'' 3 2 1, ve_pins = 1\<rparr>)],
     ca_current = [(7, ex_record 7 ''web'' 3 1 2), (8, ex_record 8 ''api'' 3 2 1)], ca_policies = [], ca_watermarks = []\<rparr>"

definition ex_live :: "(nat \<times> ScheduledInstance) list" where
  "ex_live = [(2, ex_instance 2 7 2 3 1 TARGET_RUN_SERVING), (3, ex_instance 3 8 1 3 2 TARGET_RUN_SERVING)]"

definition moving :: cache where
  "moving = ex_cache ((1, ex_instance 1 7 1 2 1 TARGET_TERMINATE) # ex_live) [((7, 1), \<lparr>ve_record = ex_record 7 ''web'' 2 1 1, ve_pins = 1\<rparr>)]"

definition after_move :: cache where
  "after_move = ex_cache ex_live []"

definition ex_plan :: ingressPlan where
  "ex_plan = \<lparr>ip_publish = [], ip_published = [], ip_diagnostics = []\<rparr>"

definition web2 :: ScheduledInstanceState where
  "web2 = \<lparr>ss_Instance = ex_instance 2 7 2 3 1 TARGET_RUN_SERVING, ss_Config = ex_record 7 ''web'' 3 1 2\<rparr>"

definition api1 :: ScheduledInstanceState where
  "api1 = \<lparr>ss_Instance = ex_instance 3 8 1 3 2 TARGET_RUN_SERVING, ss_Config = ex_record 8 ''api'' 3 2 1\<rparr>"

definition web1 :: ScheduledInstanceState where
  "web1 = \<lparr>ss_Instance = ex_instance 1 7 1 2 1 TARGET_TERMINATE, ss_Config = ex_record 7 ''web'' 2 1 1\<rparr>"

definition ex_inputs :: "ScheduledInstanceState list \<Rightarrow> renderInputs" where
  "ex_inputs ss = \<lparr>ri_nodes = [ex_node 1, ex_node 2], ri_instances = ss, ri_deployments = [ex_record 7 ''web'' 3 1 2, ex_record 8 ''api'' 3 2 1],
     ri_policies = [], ri_deploymentSpaces = [(7, 3), (8, 3)]\<rparr>"

definition ex_place :: "ScheduledInstanceState \<Rightarrow> placement" where
  "ex_place s = (case placement_of 1 s of Inr p \<Rightarrow> p)"

definition ex_service :: "string \<Rightarrow> nat \<Rightarrow> nat \<Rightarrow> ClusterNetMapService" where
  "ex_service name space dep = \<lparr>cns_Name = name, cns_SpaceID = space, cns_DeploymentID = dep, cns_Ordinals = [0]\<rparr>"

definition ex_context :: "ClusterNetMapService list \<Rightarrow> renderContext" where
  "ex_context services = \<lparr>rc_prefix = 1, rc_nodes = [(1, node_entry ex_plan (ex_node 1)), (2, node_entry ex_plan (ex_node 2))], rc_nodeIDs = [1, 2],
     rc_placements = [ex_place web2, ex_place api1], rc_services = services, rc_policyRules = [], rc_published = [], rc_diagnostics = []\<rparr>"

lemma ex_states: "inputs moving = Inr (ex_inputs [web1, web2, api1])" "inputs after_move = Inr (ex_inputs [web2, api1])"
  by code_simp+

lemma ex_plans: "renderIngressPlan (ex_inputs ss) = ex_plan"
proof -
  have "renderIngressPlan (ex_inputs ss) = renderIngressPlan (ex_inputs [])" by (simp add: renderIngressPlan_def publish_plan_def ex_inputs_def)
  also have "\<dots> = ex_plan" by code_simp
  finally show ?thesis .
qed

lemma ex_placed: "placement_of 1 web2 = Inr (ex_place web2)" "placement_of 1 api1 = Inr (ex_place api1)"
proof -
  have "\<not> isl (placement_of 1 web2)" "\<not> isl (placement_of 1 api1)" by code_simp+
  then show "placement_of 1 web2 = Inr (ex_place web2)" "placement_of 1 api1 = Inr (ex_place api1)" by (auto simp: ex_place_def split: sum.splits)
qed

lemma ex_services: "services_of [web1, web2, api1] = [ex_service ''web'' 2 7, ex_service ''api'' 3 8]" "services_of [web2, api1] = [ex_service ''web'' 3 7, ex_service ''api'' 3 8]"
  by code_simp+

lemma ex_fields: "\<not> ss_placed web1" "ss_placed web2" "ss_placed api1"
  "pl_nodeID (ex_place web2) = 1" "pl_spaceID (ex_place web2) = 3" "pl_deploymentID (ex_place web2) = 7"
  "pl_nodeID (ex_place api1) = 2" "pl_spaceID (ex_place api1) = 3" "pl_deploymentID (ex_place api1) = 8"
  by code_simp+

lemma ex_drawn:
  "prepareRender 1 (ex_inputs [web1, web2, api1]) ex_plan = Inr (ex_context [ex_service ''web'' 2 7, ex_service ''api'' 3 8])"
  "prepareRender 1 (ex_inputs [web2, api1]) ex_plan = Inr (ex_context [ex_service ''web'' 3 7, ex_service ''api'' 3 8])"
  unfolding ex_services [symmetric]
  by (simp_all add: prepareRender_def ex_inputs_def ex_fields ex_placed ex_context_def renderPolicyRules_def ex_plan_def)
     (simp_all add: ex_node_def scanCurrentNode_def Let_def)

lemma ex_context_fields: "rc_placements (ex_context s) = [ex_place web2, ex_place api1]" "rc_policyRules (ex_context s) = []" "rc_published (ex_context s) = []"
  "rc_services (ex_context s) = s" "rc_nodeIDs (ex_context s) = [1, 2]" "rc_nodes (ex_context s) = [(1, node_entry ex_plan (ex_node 1)), (2, node_entry ex_plan (ex_node 2))]"
  by (simp_all add: ex_context_def)

section \<open>A first commit\<close>

definition ex_store :: db where
  "ex_store = empty_db\<lparr>db_tables := empty_tables\<lparr>nodes := [(1, ex_row), (2, ex_row)]\<rparr>\<rparr>"

definition ex_empty :: cache where
  "ex_empty = newCache\<lparr>ca_nodes := [(1, ex_node 1), (2, ex_node 2)]\<rparr>"

definition ex_first :: CoreWriteUpdate where
  "ex_first = \<lparr>upd_Seq = 1, upd_Time = 0, upd_Actor = 0, upd_Mutations =
     [CreateMutation CORE_SCHEDULED_INSTANCE 2 (EScheduledInstance (ex_instance 2 7 2 3 1 TARGET_RUN_SERVING)) None,
      CreateMutation CORE_DEPLOYMENT 7 (EDeployment (drec_Deployment (ex_record 7 ''web'' 3 1 2))) (Some (drec_Meta (ex_record 7 ''web'' 3 1 2)))]\<rparr>"

definition ex_running :: cache where
  "ex_running = ex_empty\<lparr>ca_instances := [(2, ex_instance 2 7 2 3 1 TARGET_RUN_SERVING)],
     ca_versions := [((7, 2), \<lparr>ve_record = ex_record 7 ''web'' 3 1 2, ve_pins = 1\<rparr>)], ca_current := [(7, ex_record 7 ''web'' 3 1 2)]\<rparr>"

lemma ex_seed: "fst (seedCache ex_store) = ex_empty" "inputs ex_empty = Inr \<lparr>ri_nodes = [ex_node 1, ex_node 2], ri_instances = [], ri_deployments = [], ri_policies = [], ri_deploymentSpaces = []\<rparr>"
  by code_simp+

lemma ex_opened:
  obtains p where "New env 1 acme netmaps ex_store = Inr p" "pb_cache p = ex_empty" "pb_plan p = ex_plan" "pb_prefix p = 1" "\<not> pb_closed p"
proof -
  let ?inp = "\<lparr>ri_nodes = [ex_node 1, ex_node 2], ri_instances = [], ri_deployments = [], ri_policies = [], ri_deploymentSpaces = []\<rparr> :: renderInputs"
  have plan: "renderIngressPlan ?inp = ex_plan" by code_simp
  have rc: "\<exists>rc. prepareRender 1 ?inp (renderIngressPlan ?inp) = Inr rc" by (simp add: prepareRender_def renderPolicyRules_def)
  then obtain rc where "prepareRender 1 ?inp (renderIngressPlan ?inp) = Inr rc" by blast
  from New_runs [of ex_store ?inp 1 rc, unfolded ex_seed plan, OF refl this [unfolded plan]]
  show ?thesis using that by (auto simp: ex_plan_def)
qed

lemma ex_inputs_running: "inputs ex_running = Inr ((ex_inputs [web2])\<lparr>ri_deployments := [ex_record 7 ''web'' 3 1 2], ri_deploymentSpaces := [(7, 3)]\<rparr>)"
  by code_simp

lemma ex_first_fold:
  obtains s where "foldE (apply_mutation rc) (ordered_mutations (upd_Mutations ex_first))
      \<lparr>fs_cache = ex_empty, fs_dirty = newDirtySet, fs_planDirty = False, fs_inputsTouched = False, fs_touched = {}, fs_rows = []\<rparr> = Inr s"
    "fs_cache s = ex_running" "fs_planDirty s" "fs_inputsTouched s"
proof -
  let ?d = "CreateMutation CORE_DEPLOYMENT 7 (EDeployment (drec_Deployment (ex_record 7 ''web'' 3 1 2))) (Some (drec_Meta (ex_record 7 ''web'' 3 1 2)))"
  let ?i = "CreateMutation CORE_SCHEDULED_INSTANCE 2 (EScheduledInstance (ex_instance 2 7 2 3 1 TARGET_RUN_SERVING)) None"
  let ?c = "ex_empty\<lparr>ca_versions := [((7, 2), \<lparr>ve_record = ex_record 7 ''web'' 3 1 2, ve_pins = 0\<rparr>)], ca_current := [(7, ex_record 7 ''web'' 3 1 2)]\<rparr>"
  let ?s = "\<lparr>fs_cache = ex_empty, fs_dirty = newDirtySet, fs_planDirty = False, fs_inputsTouched = False, fs_touched = {}, fs_rows = []\<rparr>"
  have ms: "ordered_mutations (upd_Mutations ex_first) = [?d, ?i]" by (simp add: ex_first_def ordered_mutations_def mutationOrder_def)
  have a: "applyDeployment ?d ex_empty = Inr ((None, Some (ex_record 7 ''web'' 3 1 2)), ?c)" "applyInstance ?i ?c = Inr ((web2, None), ex_running)" by code_simp+
  obtain t where t: "apply_mutation rc ?d ?s = Inr t" "fs_cache t = ?c" "fs_planDirty t"
    using a(1) by (auto simp: apply_mutation_def Let_def case_prod_beta' dirtyDeployment_def)
  obtain u where u: "apply_mutation rc ?i t = Inr u" "fs_cache u = ex_running" "fs_planDirty u" "fs_inputsTouched u" using a(2) t by (auto simp: apply_mutation_def Let_def)
  have "foldE (apply_mutation rc) (ordered_mutations (upd_Mutations ex_first)) ?s = Inr u" unfolding ms using t(1) u(1) by simp
  then show ?thesis using u(2-4) by (rule that)
qed

lemma ex_running_drawn:
  obtains inp rc where "inputs ex_running = Inr inp" "renderIngressPlan inp = ex_plan" "prepareRender 1 inp ex_plan = Inr rc"
proof -
  let ?inp = "(ex_inputs [web2])\<lparr>ri_deployments := [ex_record 7 ''web'' 3 1 2], ri_deploymentSpaces := [(7, 3)]\<rparr>"
  have "renderIngressPlan ?inp = renderIngressPlan (?inp\<lparr>ri_instances := []\<rparr>)" by (simp add: renderIngressPlan_def publish_plan_def ex_inputs_def)
  also have "\<dots> = ex_plan" by code_simp
  finally have plan: "renderIngressPlan ?inp = ex_plan" .
  have "\<exists>rc. prepareRender 1 ?inp ex_plan = Inr rc" by (simp add: prepareRender_def ex_inputs_def ex_fields ex_placed renderPolicyRules_def)
  then show ?thesis using that [OF ex_inputs_running plan] by blast
qed

lemma ex_committed:
  assumes "pb_cache p = ex_empty" "\<not> pb_closed p" "pb_prefix p = 1" "stamped p"
  obtains q where "handle env ex_first p = Inr q" "pb_cache q = ex_running" "pb_plan q = ex_plan" "pb_prefix q = 1"
proof -
  obtain inp rc where inp: "inputs ex_running = Inr inp" "renderIngressPlan inp = ex_plan" "prepareRender 1 inp ex_plan = Inr rc" by (rule ex_running_drawn)
  have rc: "prepareRender (pb_prefix p) inp ex_plan = Inr rc" using inp(3) assms(3) by simp
  obtain s where s: "foldE (apply_mutation (pb_rc p)) (ordered_mutations (upd_Mutations ex_first))
      \<lparr>fs_cache = pb_cache p, fs_dirty = newDirtySet, fs_planDirty = False, fs_inputsTouched = False, fs_touched = {}, fs_rows = []\<rparr> = Inr s"
    "fs_cache s = ex_running" "fs_planDirty s" "fs_inputsTouched s" unfolding assms(1) by (rule ex_first_fold)
  have ms: "ordered_mutations (upd_Mutations ex_first) \<noteq> []" by (simp add: ex_first_def ordered_mutations_def mutationOrder_def)
  have cp: "commit_plan (pb_rc p) (pb_plan p) inp s = (dirtyPlan (pb_rc p) (pb_plan p) ex_plan (fs_dirty s), ex_plan)" unfolding commit_plan_def inp(2) using s(3) by (simp only: if_True)
  obtain out q ch a where "applyLocked env ex_first p = Inr (out, q\<lparr>pb_acmeByNode := a\<rparr>)" "pb_cache q = fs_cache s" "pb_plan q = ex_plan" "pb_prefix q = pb_prefix p"
    by (rule applyLocked_runs [OF s(1) ms s(4) inp(1) [folded s(2)] cp rc _ assms(4)]) (simp_all add: ex_plan_def)
  then show ?thesis using assms(2,3) s(2) by (intro that [of "enqueueLocked out (q\<lparr>pb_acmeByNode := a\<rparr>)"]) (simp_all add: handle_def enqueueLocked_def)
qed

section \<open>A store to restart from\<close>

text \<open>The store after the first commit and four others that change nothing the publisher reads.\<close>

definition ex_restart :: db where
  "ex_restart = ex_store\<lparr>db_global_seq := 5, db_tables := (db_tables ex_store)\<lparr>
     deployments := [(7, \<lparr>row_value = \<lparr>dr_SpaceID = 3, dr_Name = ''web'', dr_Version = 2, dr_SpecVersion = 2\<rparr>, row_seq = 0, row_event_time = 0, row_author = 0, row_created_time = 0\<rparr>)],
     deployment_versions := [((7, 2), \<lparr>row_value = \<lparr>dvr_SpecVersion = 2, dvr_Value = drec_Deployment (ex_record 7 ''web'' 3 1 2)\<rparr>, row_seq = 0, row_event_time = 0, row_author = 0, row_created_time = 0\<rparr>)],
     scheduled_instances := [(2, \<lparr>row_value = ex_instance 2 7 2 3 1 TARGET_RUN_SERVING, row_seq = 1, row_event_time = 0, row_author = 0, row_created_time = 0\<rparr>)]\<rparr>\<rparr>"

lemma ex_restart_seed: "fst (seedCache ex_restart) = ex_running"
  by code_simp

lemma ex_reopened:
  obtains q where "New env 1 acme netmaps ex_restart = Inr q"
proof -
  obtain inp rc where inp: "inputs ex_running = Inr inp" "renderIngressPlan inp = ex_plan" "prepareRender 1 inp ex_plan = Inr rc" by (rule ex_running_drawn)
  show ?thesis by (rule New_runs [of ex_restart inp 1 rc, unfolded ex_restart_seed inp(2), OF inp(1,3)]) (auto simp: ex_plan_def intro: that)
qed

end
