(* ===== verification/Publisher_Props.thy ===== *)
theory Publisher_Props
  imports Publisher_Example
begin

text \<open>
  The runs of a publisher and what holds in each of their states: the maps in force are those of a full
  render of the cache, the store has their stamps, and a restart keeps them.
\<close>

section \<open>Runs\<close>

text \<open>
  The operations of a publisher in any order, under \<open>steady\<close> commits and in states \<open>at_rest\<close>: deployments
  keep the node and space that \<open>site\<close> gives them. \<open>Publisher_Stale\<close> shows why this is needed.
\<close>

inductive published :: "(nat \<Rightarrow> nat) \<Rightarrow> (nat \<Rightarrow> nat \<times> nat) \<Rightarrow> (ClusterNetMap \<Rightarrow> string) \<Rightarrow> Publisher \<Rightarrow> bool" for home site hash where
  opened: "New env prefix acme netmaps d = Inr p \<Longrightarrow> pe_hash env = hash \<Longrightarrow> tbl_wf (network_policies (db_tables d)) \<Longrightarrow> tbl_wf netmaps \<Longrightarrow>
    at_rest home site p \<Longrightarrow> published home site hash p"
| committed: "published home site hash p \<Longrightarrow> handle env u p = Inr q \<Longrightarrow> pe_hash env = hash \<Longrightarrow> steady home site (pb_cache p) (upd_Mutations u) \<Longrightarrow>
    at_rest home site q \<Longrightarrow> published home site hash q"
| certified: "published home site hash p \<Longrightarrow> SetAcme env state p = Inr q \<Longrightarrow> published home site hash q"
| subscribed: "published home site hash p \<Longrightarrow> Subscribe i nodeID p = Inr (snapshot, q) \<Longrightarrow> published home site hash q"
| unsubscribed: "published home site hash p \<Longrightarrow> published home site hash (unsubscribe i p)"
| acknowledged: "published home site hash p \<Longrightarrow> published home site hash (RecordApplied nodeID seq p)"
| forgotten: "published home site hash p \<Longrightarrow> published home site hash (ForgetNode nodeID p)"
| closed: "published home site hash p \<Longrightarrow> published home site hash (Close p)"

lemma applyLocked_recorded:
  assumes "applyLocked env u p = Inr (out, p')" "recorded (pe_hash env) p"
  shows "recorded (pe_hash env) p'"
proof (cases "ordered_mutations (upd_Mutations u) = []")
  case True
  then show ?thesis using assms by (auto simp: applyLocked_def Let_def intro: recorded_cong)
next
  case False
  then obtain s where fold: "foldE (apply_mutation (pb_rc p)) (ordered_mutations (upd_Mutations u))
      \<lparr>fs_cache = pb_cache p, fs_dirty = newDirtySet, fs_planDirty = False, fs_inputsTouched = False, fs_touched = {}, fs_rows = []\<rparr> = Inr s"
    using assms(1) by (auto simp: applyLocked_def Let_def bindE_Inr)
  show ?thesis
  proof (cases "fs_inputsTouched s")
    case untouched: False
    then have "p' = p\<lparr>pb_appliedSeq := upd_Seq u, pb_cache := fs_cache s\<rparr>" using assms(1) False fold by (simp add: applyLocked_def Let_def)
    then show ?thesis using recorded_cong [OF assms(2)] by simp
  next
    case True
    from applyLocked_touched [OF assms(1) False True fold] obtain inp dirty plan q ch ids ch'
      where r: "renderLocked env inp (Some dirty) (p\<lparr>pb_appliedSeq := upd_Seq u, pb_cache := fs_cache s, pb_plan := plan\<rparr>) = Inr (q, ch)" "refreshAcmeLocked env ids q = Inr (p', ch')" by metis
    from refresh_frame [OF r(2)] obtain a where "p' = q\<lparr>pb_acmeByNode := a\<rparr>" by blast
    moreover have "recorded (pe_hash env) q" by (rule renderLocked_recorded [OF r(1)]) (rule recorded_cong [OF assms(2)], simp_all)
    ultimately show ?thesis using recorded_cong by simp
  qed
qed

definition kept :: "Publisher \<Rightarrow> Publisher \<Rightarrow> bool" where
  "kept p q \<longleftrightarrow> pb_cache q = pb_cache p \<and> pb_maps q = pb_maps p \<and> pb_plan q = pb_plan p \<and> pb_prefix q = pb_prefix p \<and> pb_rc q = pb_rc p \<and>
    pb_netmaps q = pb_netmaps p \<and> pb_persisted q = pb_persisted p"

lemma keptD: "kept p q \<Longrightarrow> fresh p \<Longrightarrow> fresh q" "kept p q \<Longrightarrow> recorded hash p \<Longrightarrow> recorded hash q" "kept p q \<Longrightarrow> at_rest home site p \<Longrightarrow> at_rest home site q" "kept p q \<Longrightarrow> stamped p \<Longrightarrow> stamped q"
  by (auto simp: kept_def at_rest_def stamped_def intro: fresh_cong recorded_cong)

lemma kept_ok: "kept p q \<Longrightarrow> fresh p \<and> recorded hash p \<and> at_rest home site p \<Longrightarrow> fresh q \<and> recorded hash q \<and> at_rest home site q"
  and kept_recorded: "kept p q \<Longrightarrow> stamped p \<and> recorded hash p \<Longrightarrow> stamped q \<and> recorded hash q"
  using keptD by metis+

lemma enqueue_kept: "kept p (enqueueLocked out p)"
  by (simp add: enqueueLocked_def kept_def)

lemma SetAcme_kept:
  assumes "SetAcme env state p = Inr q"
  shows "kept p q"
proof (cases "pb_closed p")
  case True
  then show ?thesis using assms by (auto simp: SetAcme_def Let_def kept_def)
next
  case False
  then obtain p2 ch where r: "refreshAcmeLocked env [] (p\<lparr>pb_acme := Some state\<rparr>) = Inr (p2, ch)"
    and q: "q = enqueueLocked \<lparr>ou_seq = pb_appliedSeq p2, ou_rows = [], ou_maps = [], ou_acme = ch\<rparr> p2"
    using assms by (auto simp: SetAcme_def Let_def bindE_Inr)
  from refresh_frame [OF r] have "kept p p2" by (auto simp: kept_def)
  then show ?thesis using enqueue_kept [of p2] unfolding q kept_def by simp
qed

lemma Subscribe_kept: "Subscribe i nodeID p = Inr (snapshot, q) \<Longrightarrow> kept p q"
  by (auto simp: Subscribe_def bindE_Inr kept_def split: if_splits)

lemma listener_kept: "kept p (unsubscribe i p)" "kept p (RecordApplied nodeID seq p)" "kept p (ForgetNode nodeID p)" "kept p (Close p)"
  by (auto simp: unsubscribe_def RecordApplied_def ForgetNode_def Close_def kept_def)

lemma published_ok:
  assumes "published home site hash p"
  shows "fresh p \<and> recorded hash p \<and> at_rest home site p"
  using assms
proof (induction rule: published.induct)
  case (opened env prefix acme netmaps d p)
  then show ?case using New_fresh by metis
next
  case (committed p env u q)
  show ?case
  proof (cases "pb_closed p")
    case True
    then show ?thesis using committed by (simp add: handle_def)
  next
    case False
    then obtain out p' where a: "applyLocked env u p = Inr (out, p')" "q = enqueueLocked out p'" using committed.hyps(2) by (auto simp: handle_def bindE_Inr)
    note k = enqueue_kept [of p' out]
    have "at_rest home site p'" using committed.hyps(5) k unfolding a(2) kept_def at_rest_def by simp
    then have "fresh p'" using applyLocked_fresh [OF a(1)] committed.IH committed.hyps(4) by blast
    moreover have "recorded hash p'" using applyLocked_recorded [OF a(1)] committed.IH committed.hyps(3) by simp
    ultimately show ?thesis using keptD(1,2) [OF k] committed.hyps(5) unfolding a(2) by blast
  qed
next
  case (certified p env state q)
  then show ?case using SetAcme_kept keptD by metis
next
  case (subscribed p i nodeID snapshot q)
  then show ?case using kept_ok [OF Subscribe_kept] by blast
next
  case (unsubscribed p i)
  then show ?case by (intro kept_ok [OF listener_kept(1)])
next
  case (acknowledged p nodeID seq)
  then show ?case by (intro kept_ok [OF listener_kept(2)])
next
  case (forgotten p nodeID)
  then show ?case by (intro kept_ok [OF listener_kept(3)])
next
  case (closed p)
  then show ?case by (intro kept_ok [OF listener_kept(4)])
qed

text \<open>
  C10. Rendering the marked nodes is rendering all. In every run of the publisher the maps in force are
  those that a full render of its cache gives for its member nodes, although a commit renders only the
  nodes it marks again. The runs are those in which deployments do not move: there are a map \<open>home\<close> from
  instances to their deployment and a map \<open>site\<close> from deployments to their node and space with which
  every instance of the cache and of the commits agrees, the published deployments are not those of the
  system space, and a new version of a deployment is not one that an instance runs already.
\<close>

theorem maps_in_force_are_full:
  assumes "published home site hash p"
  shows "full_render (pb_prefix p) (pb_cache p) = Inr (published_maps p)"
  using published_ok [OF assms] fresh_full by blast

text \<open>Two nodes; the first commit puts a workload on node 1.\<close>

lemma ex_settled: "pb_cache p = ex_empty \<or> pb_cache p = ex_running \<Longrightarrow> pb_plan p = ex_plan \<Longrightarrow> at_rest (\<lambda>_. 7) (\<lambda>_. (1, 3)) p"
proof -
  have "all_home (\<lambda>_. 7) ex_empty" "sited (\<lambda>_. (1, 3)) ex_empty" by (simp_all add: all_home_def sited_def ex_empty_def newCache_def)
  moreover have "all_home (\<lambda>_. 7) ex_running" "sited (\<lambda>_. (1, 3)) ex_running"
    by (simp_all add: all_home_def sited_def at_site_def state_of_def instance_version_def ex_running_def ex_instance_def ex_record_def)
  moreover have "public_only (\<lambda>_. (1, 3)) ex_plan" by (simp add: public_only_def ex_plan_def tbl_wf_def slice_at_def)
  moreover assume "pb_cache p = ex_empty \<or> pb_cache p = ex_running" "pb_plan p = ex_plan"
  ultimately show ?thesis by (auto simp: at_rest_def)
qed

definition sample_publish_env :: publish_env where
  "sample_publish_env = \<lparr>pe_hash = \<lambda>m. concat (map cns_Name (cnm_DnsServices m)), pe_acmeHash = \<lambda>_. [], pe_now = \<lambda>_. 0\<rparr>"

lemma ex_store_wf: "tbl_wf (network_policies (db_tables ex_store))" "tbl_wf ([] :: (nat, NodeNetmap) table)"
  by (simp_all add: ex_store_def empty_db_def empty_tables_def tbl_wf_def)

lemma ex_steady: "steady (\<lambda>_. 7) (\<lambda>_. (1, 3)) ex_empty (upd_Mutations ex_first)"
  by (simp add: steady_def ex_first_def new_version_def used_versions_def ex_empty_def newCache_def steady_instance_def at_home_def at_site_def ex_instance_def)

theorem maps_in_force_are_full_witness:
  "\<exists>p. full_render (pb_prefix p) (pb_cache p) = Inr (published_maps p) \<and> pb_cache p = ex_running \<and> published (\<lambda>_. 7) (\<lambda>_. (1, 3)) (pe_hash sample_publish_env) p"
proof -
  obtain p where p: "New sample_publish_env 1 None [] ex_store = Inr p" "pb_cache p = ex_empty" "pb_plan p = ex_plan" "pb_prefix p = 1" "\<not> pb_closed p" by (rule ex_opened)
  have run: "published (\<lambda>_. 7) (\<lambda>_. (1, 3)) (pe_hash sample_publish_env) p" by (rule published.opened [OF p(1) refl ex_store_wf ex_settled]) (simp_all add: p(2,3))
  have "stamped p" using New_fresh(1) [OF p(1) ex_store_wf] by (simp add: fresh_def)
  then obtain q where q: "handle sample_publish_env ex_first p = Inr q" "pb_cache q = ex_running" "pb_plan q = ex_plan" using ex_committed [OF p(2,5,4)] by blast
  have "published (\<lambda>_. 7) (\<lambda>_. (1, 3)) (pe_hash sample_publish_env) q"
    by (rule published.committed [OF run q(1) refl ex_steady [folded p(2)] ex_settled]) (simp_all add: q(2,3))
  then show ?thesis using maps_in_force_are_full q(2) by blast
qed

section \<open>A restart\<close>

definition first_stamp :: "publish_env \<Rightarrow> int \<Rightarrow> Publisher \<Rightarrow> nat \<Rightarrow> int" where
  "first_stamp env seq p n = (case tbl_get (pb_persisted p) n of
     Some row \<Rightarrow> if nn_ContentHash row = pe_hash env (renderNode (pb_rc p) n) then nn_DerivedSeq row else seq | None \<Rightarrow> seq)"

lemma canonical_render: "canonicalContent (renderNode rc n) = renderNode rc n"
  by (simp add: canonicalContent_def renderNode_eq Let_def)

lemma restamp: "(canonicalContent m)\<lparr>cnm_DerivedFromSeq := cnm_DerivedFromSeq m\<rparr> = m"
  by (simp add: canonicalContent_def)

lemma render_first:
  assumes "fold (render_one env seq) ns (p, ch) = (q, ch')" "tbl_wf (pb_maps p)" "distinct ns" "\<forall>n \<in> set ns. tbl_get (pb_maps p) n = None"
  shows "map_option nm_current (tbl_get (pb_maps q) n) =
    (if n \<in> set ns then Some ((renderNode (pb_rc p) n)\<lparr>cnm_DerivedFromSeq := first_stamp env seq p n\<rparr>) else map_option nm_current (tbl_get (pb_maps p) n))"
  using assms
proof (induction ns arbitrary: p ch)
  case (Cons k ns)
  let ?e = "\<lparr>nm_current = (renderNode (pb_rc p) k)\<lparr>cnm_DerivedFromSeq := first_stamp env seq p k\<rparr>, nm_content = renderNode (pb_rc p) k, nm_hash = pe_hash env (renderNode (pb_rc p) k)\<rparr>"
  have none: "tbl_get (pb_maps p) k = None" using Cons.prems(4) by simp
  have stamp: "(case tbl_get (pb_persisted p) k of None \<Rightarrow> seq | Some row \<Rightarrow> if nn_ContentHash row = pe_hash env (renderNode (pb_rc p) k) then nn_DerivedSeq row else seq) = first_stamp env seq p k"
    by (simp add: first_stamp_def)
  obtain p1 ch1 where p1: "render_one env seq k (p, ch) = (p1, ch1)" by (cases "render_one env seq k (p, ch)")
  then obtain net where e: "p1 = p\<lparr>pb_persisted := tbl_del k (pb_persisted p), pb_maps := tbl_put k ?e (pb_maps p), pb_netmaps := net\<rparr>"
    unfolding render_one_def Let_def prod.case canonical_render none option.case if_False stamp by blast
  have wf: "tbl_wf (pb_maps p1)" and other: "tbl_get (pb_maps p1) m = (if m = k then Some ?e else tbl_get (pb_maps p) m)" for m
    using Cons.prems(2) by (simp_all add: e tbl_put_wf tbl_get_put)
  have fs: "first_stamp env seq p1 m = first_stamp env seq p m" if "m \<noteq> k" for m
  proof -
    have "pb_rc p1 = pb_rc p" "tbl_get (pb_persisted p1) m = tbl_get (pb_persisted p) m" using that by (simp_all add: e tbl_get_del)
    then show ?thesis by (simp only: first_stamp_def)
  qed
  have "fold (render_one env seq) ns (p1, ch1) = (q, ch')" using Cons.prems(1) p1 by simp
  moreover have "distinct ns" "k \<notin> set ns" "\<forall>m \<in> set ns. tbl_get (pb_maps p1) m = None" using Cons.prems(3,4) other by auto
  ultimately have "map_option nm_current (tbl_get (pb_maps q) n) =
      (if n \<in> set ns then Some ((renderNode (pb_rc p1) n)\<lparr>cnm_DerivedFromSeq := first_stamp env seq p1 n\<rparr>) else map_option nm_current (tbl_get (pb_maps p1) n))"
    by (intro Cons.IH wf)
  moreover have "pb_rc p1 = pb_rc p" by (simp add: e)
  moreover have "k \<notin> set ns" using Cons.prems(3) by simp
  ultimately show ?case using other [of n] fs [of n] by (cases "n = k") simp_all
qed simp

lemma New_stamps:
  assumes "New env prefix acme netmaps d = Inr p" "tbl_wf (network_policies (db_tables d))" "tbl_get (pb_maps p) n = Some e"
  shows "nm_current e = (canonicalContent (nm_current e))\<lparr>cnm_DerivedFromSeq := (case tbl_get netmaps n of
    Some row \<Rightarrow> if nn_ContentHash row = pe_hash env (canonicalContent (nm_current e)) then nn_DerivedSeq row else snd (seedCache d) | None \<Rightarrow> snd (seedCache d))\<rparr>"
proof -
  from seeded [OF assms(1)] obtain inp rc q q' ch a where inp: "inputs (fst (seedCache d)) = Inr inp" "prepareRender prefix inp (renderIngressPlan inp) = Inr rc"
    and r: "renderNodesLocked env (snd (seedCache d)) (rc_nodeIDs rc) q = (q', ch)" and p: "p = q'\<lparr>pb_acmeByNode := a\<rparr>"
    and q: "pb_rc q = rc" "pb_maps q = []" "pb_persisted q = netmaps" by metis
  obtain p1 ch1 where f: "fold (render_one env (snd (seedCache d))) (rc_nodeIDs rc) (q, []) = (p1, ch1)" by (cases "fold (render_one env (snd (seedCache d))) (rc_nodeIDs rc) (q, [])")
  have g: "tbl_get (filter (\<lambda>(n, _). P n) t) m = (if P m then tbl_get t m else None)" for P m and t :: "(nat, nodeMap) table" by (induction t) auto
  have maps: "pb_maps p = filter (\<lambda>(n, _). tbl_get (rc_nodes (pb_rc p1)) n \<noteq> None) (pb_maps p1)" using r f by (auto simp: renderNodesLocked_def Let_def p)
  then have e: "tbl_get (pb_maps p1) n = Some e" using assms(3) by (simp add: g split: if_splits)
  have d: "drawn prefix (fst (seedCache d)) (renderIngressPlan inp) inp rc" using inp by (simp add: drawn_def)
  note wf = seedCache_wf [OF assms(2)]
  have "rc_nodeIDs rc = map fst (ca_nodes (fst (seedCache d)))"
    using wf unfolding drawn_context(2) [OF d] cache_wf_def by (intro map_cong) auto
  then have dist: "distinct (rc_nodeIDs rc)" using wf by (simp add: cache_wf_def tbl_wf_def)
  have "map_option nm_current (tbl_get (pb_maps p1) n) =
      (if n \<in> set (rc_nodeIDs rc) then Some ((renderNode rc n)\<lparr>cnm_DerivedFromSeq := first_stamp env (snd (seedCache d)) q n\<rparr>) else None)"
    using render_first [OF f _ dist, of n] q by (simp add: tbl_wf_def)
  then have cur: "nm_current e = (renderNode rc n)\<lparr>cnm_DerivedFromSeq := first_stamp env (snd (seedCache d)) q n\<rparr>" using e by (simp split: if_splits)
  then have can: "canonicalContent (nm_current e) = renderNode rc n" using canonical_render [of rc n] by (simp add: canonicalContent_def)
  show ?thesis using cur unfolding can first_stamp_def q .
qed

text \<open>
  All runs, in which deployments may also move: the operations of a publisher in any order, with any commits.
\<close>

inductive ran :: "(ClusterNetMap \<Rightarrow> string) \<Rightarrow> Publisher \<Rightarrow> bool" for hash where
  opened: "New env prefix acme netmaps d = Inr p \<Longrightarrow> pe_hash env = hash \<Longrightarrow> tbl_wf (network_policies (db_tables d)) \<Longrightarrow> tbl_wf netmaps \<Longrightarrow> ran hash p"
| committed: "ran hash p \<Longrightarrow> handle env u p = Inr q \<Longrightarrow> pe_hash env = hash \<Longrightarrow> ran hash q"
| certified: "ran hash p \<Longrightarrow> SetAcme env state p = Inr q \<Longrightarrow> ran hash q"
| subscribed: "ran hash p \<Longrightarrow> Subscribe i nodeID p = Inr (snapshot, q) \<Longrightarrow> ran hash q"
| unsubscribed: "ran hash p \<Longrightarrow> ran hash (unsubscribe i p)"
| acknowledged: "ran hash p \<Longrightarrow> ran hash (RecordApplied nodeID seq p)"
| forgotten: "ran hash p \<Longrightarrow> ran hash (ForgetNode nodeID p)"
| closed: "ran hash p \<Longrightarrow> ran hash (Close p)"

lemma applyLocked_stamped:
  assumes "applyLocked env u p = Inr (out, p')" "stamped p"
  shows "stamped p'"
proof (cases "ordered_mutations (upd_Mutations u) = []")
  case True
  then show ?thesis using assms by (auto simp: applyLocked_def Let_def stamped_def)
next
  case False
  then obtain s where fold: "foldE (apply_mutation (pb_rc p)) (ordered_mutations (upd_Mutations u))
      \<lparr>fs_cache = pb_cache p, fs_dirty = newDirtySet, fs_planDirty = False, fs_inputsTouched = False, fs_touched = {}, fs_rows = []\<rparr> = Inr s"
    using assms(1) by (auto simp: applyLocked_def Let_def bindE_Inr)
  show ?thesis
  proof (cases "fs_inputsTouched s")
    case untouched: False
    then have "p' = p\<lparr>pb_appliedSeq := upd_Seq u, pb_cache := fs_cache s\<rparr>" using assms(1) False fold by (simp add: applyLocked_def Let_def)
    then show ?thesis using assms(2) by (simp add: stamped_def)
  next
    case True
    from applyLocked_touched [OF assms(1) False True fold] obtain inp dirty plan q ch ids ch'
      where r: "renderLocked env inp (Some dirty) (p\<lparr>pb_appliedSeq := upd_Seq u, pb_cache := fs_cache s, pb_plan := plan\<rparr>) = Inr (q, ch)" "refreshAcmeLocked env ids q = Inr (p', ch')" by metis
    from refresh_frame [OF r(2)] obtain a where "p' = q\<lparr>pb_acmeByNode := a\<rparr>" by blast
    moreover have "stamped q" by (rule renderLocked_stamped [OF r(1)]) (use assms(2) in \<open>simp add: stamped_def\<close>)
    ultimately show ?thesis by (simp add: stamped_def)
  qed
qed

lemma ran_ok:
  assumes "ran hash p"
  shows "stamped p \<and> recorded hash p"
  using assms
proof (induction rule: ran.induct)
  case (opened env prefix acme netmaps d p)
  then show ?case using New_fresh [OF opened(1,3,4)] by (simp add: fresh_def)
next
  case (committed p env u q)
  then show ?case
  proof (cases "pb_closed p")
    case False
    then obtain out p' where a: "applyLocked env u p = Inr (out, p')" "q = enqueueLocked out p'" using committed.hyps(2) by (auto simp: handle_def bindE_Inr)
    have "stamped p'" "recorded hash p'" using applyLocked_stamped [OF a(1)] applyLocked_recorded [OF a(1)] committed.IH committed.hyps(3) by auto
    then show ?thesis using keptD(2,4) [OF enqueue_kept [of p' out]] unfolding a(2) by blast
  qed (simp add: handle_def)
next
  case (certified p env state q)
  then show ?case using kept_recorded [OF SetAcme_kept] by blast
next
  case (subscribed p i nodeID snapshot q)
  then show ?case using kept_recorded [OF Subscribe_kept] by blast
next
  case (unsubscribed p i)
  then show ?case by (intro kept_recorded [OF listener_kept(1)])
next
  case (acknowledged p nodeID seq)
  then show ?case by (intro kept_recorded [OF listener_kept(2)])
next
  case (forgotten p nodeID)
  then show ?case by (intro kept_recorded [OF listener_kept(3)])
next
  case (closed p)
  then show ?case by (intro kept_recorded [OF listener_kept(4)])
qed

text \<open>
  C12. A restart keeps what is up to date. A publisher is opened again with the rows that any former run left
  in \<open>node_netmap\<close>, whatever was committed in that run, moves of deployments included, and whatever the store
  now holds. Every member then has the map of a full render of the store. A node for which this is the map it
  had in the former run has it with the same stamp, so it sees no new version; where it is a map with another
  hash, its stamp is the sequence of the store.
\<close>

theorem restart_keeps_maps:
  assumes "ran (pe_hash env) p" "New env (pb_prefix p) acme (pb_netmaps p) d = Inr q" "tbl_wf (network_policies (db_tables d))"
  shows "full_render (pb_prefix p) (fst (seedCache d)) = Inr (published_maps q) \<and>
    (\<forall>n m e. tbl_get (published_maps q) n = Some m \<longrightarrow> tbl_get (pb_maps p) n = Some e \<longrightarrow>
      (m = canonicalContent (nm_current e) \<longrightarrow> map_option nm_current (tbl_get (pb_maps q) n) = Some (nm_current e)) \<and>
      (pe_hash env m \<noteq> pe_hash env (canonicalContent (nm_current e)) \<longrightarrow>
        map_option nm_current (tbl_get (pb_maps q) n) = Some (m\<lparr>cnm_DerivedFromSeq := snd (seedCache d)\<rparr>)))"
proof (intro conjI allI impI)
  have p: "stamped p" "recorded (pe_hash env) p" using ran_ok [OF assms(1)] by simp_all
  then have "tbl_wf (pb_netmaps p)" by (simp add: recorded_def)
  note q = New_fresh [OF assms(2,3) this]
  show "full_render (pb_prefix p) (fst (seedCache d)) = Inr (published_maps q)" using fresh_full [OF q(1)] q(3,4) by simp
  fix n m e assume m: "tbl_get (published_maps q) n = Some m" and e: "tbl_get (pb_maps p) n = Some e"
  then obtain e' where e': "tbl_get (pb_maps q) n = Some e'" "canonicalContent (nm_current e') = m" by (auto simp: published_maps_def tbl_map_values)
  have "canonicalContent (nm_current e) = nm_content e" "tbl_get (pb_netmaps p) n = Some (map_row (pe_hash env) e)"
    using p e by (simp_all add: stamped_def recorded_def)
  then have at: "nm_current e' = m\<lparr>cnm_DerivedFromSeq := if pe_hash env (canonicalContent (nm_current e)) = pe_hash env m
      then cnm_DerivedFromSeq (nm_current e) else snd (seedCache d)\<rparr>"
    using New_stamps [OF assms(2,3) e'(1)] unfolding e'(2) by (simp add: map_row_def)
  show "map_option nm_current (tbl_get (pb_maps q) n) = Some (nm_current e)" if "m = canonicalContent (nm_current e)"
    using at e'(1) that restamp [of "nm_current e"] by simp
  show "map_option nm_current (tbl_get (pb_maps q) n) = Some (m\<lparr>cnm_DerivedFromSeq := snd (seedCache d)\<rparr>)"
    if "pe_hash env m \<noteq> pe_hash env (canonicalContent (nm_current e))"
    using at e'(1) that by simp
qed

theorem restart_keeps_maps_witness:
  "\<exists>p q. ran (pe_hash sample_publish_env) p \<and> pb_cache p = ex_running \<and> tbl_get (pb_maps p) 1 \<noteq> None \<and> New sample_publish_env 1 None (pb_netmaps p) ex_restart = Inr q \<and>
     (\<forall>n. map_option nm_current (tbl_get (pb_maps q) n) = map_option nm_current (tbl_get (pb_maps p) n))"
proof -
  obtain p0 where p0: "New sample_publish_env 1 None [] ex_store = Inr p0" "pb_cache p0 = ex_empty" "pb_plan p0 = ex_plan" "pb_prefix p0 = 1" "\<not> pb_closed p0" by (rule ex_opened)
  have "stamped p0" using New_fresh(1) [OF p0(1) ex_store_wf] by (simp add: fresh_def)
  then obtain p where p: "handle sample_publish_env ex_first p0 = Inr p" "pb_cache p = ex_running" "pb_plan p = ex_plan" "pb_prefix p = 1" using ex_committed [OF p0(2,5,4)] by blast
  have run: "ran (pe_hash sample_publish_env) p" by (rule ran.committed [OF ran.opened [OF p0(1) refl ex_store_wf] p(1) refl])
  obtain q where q: "New sample_publish_env 1 None (pb_netmaps p) ex_restart = Inr q" by (rule ex_reopened)
  have "published (\<lambda>_. 7) (\<lambda>_. (1, 3)) (pe_hash sample_publish_env) p0" by (rule published.opened [OF p0(1) refl ex_store_wf ex_settled]) (simp_all add: p0(2,3))
  then have "published (\<lambda>_. 7) (\<lambda>_. (1, 3)) (pe_hash sample_publish_env) p"
    by (rule published.committed [OF _ p(1) refl ex_steady [folded p0(2)] ex_settled]) (simp_all add: p(2,3))
  then have f: "fresh p" using published_ok by blast
  have "tbl_wf (network_policies (db_tables ex_restart))" by (simp add: ex_restart_def ex_store_def empty_db_def empty_tables_def tbl_wf_def)
  note k = restart_keeps_maps [OF run q [folded p(4)] this, unfolded ex_restart_seed]
  have same: "published_maps q = published_maps p" using k fresh_full [OF f] p(2) by simp
  have "map_option nm_current (tbl_get (pb_maps q) n) = map_option nm_current (tbl_get (pb_maps p) n)" for n
  proof (cases "tbl_get (pb_maps p) n")
    case None
    then show ?thesis using arg_cong [OF same, of "\<lambda>t. tbl_get t n"] by (simp add: published_maps_def tbl_map_values)
  next
    case (Some e)
    then have "tbl_get (published_maps q) n = Some (canonicalContent (nm_current e))" unfolding same by (simp add: published_maps_def tbl_map_values)
    then show ?thesis using k Some by simp
  qed
  moreover have "tbl_get (pb_maps p) 1 \<noteq> None"
  proof -
    have "map_option nm_content (tbl_get (pb_maps p) 1) = map_option (\<lambda>_. renderNode (pb_rc p) 1) (tbl_get (ca_nodes (pb_cache p)) 1)" using f unfolding fresh_def by blast
    then show ?thesis by (auto simp: p(2) ex_running_def ex_empty_def)
  qed
  ultimately show ?thesis using run p(2) q by blast
qed

end
