(* ===== verification/Publisher_Stale.thy ===== *)
theory Publisher_Stale
  imports Publisher_Props
begin

text \<open>
  A run on two nodes. The deployment \<open>web\<close> of node 1 moves from space 2 to space 3, in which node 2 has \<open>api\<close>;
  the commit that removes the old instance of \<open>web\<close> is the one that gives its service the new space.
\<close>

section \<open>The example\<close>

abbreviation before :: renderContext where
  "before \<equiv> ex_context [ex_service ''web'' 2 7, ex_service ''api'' 3 8]"

abbreviation after :: renderContext where
  "after \<equiv> ex_context [ex_service ''web'' 3 7, ex_service ''api'' 3 8]"

definition ex_publisher :: Publisher where
  "ex_publisher = \<lparr>pb_prefix = 1, pb_cache = moving, pb_rc = before, pb_plan = ex_plan,
     pb_maps = map (\<lambda>n. (n, \<lparr>nm_current = renderNode before n, nm_content = renderNode before n, nm_hash = []\<rparr>)) [1, 2],
     pb_persisted = [], pb_netmaps = [], pb_appliedSeq = 2, pb_subscribers = [], pb_closed = False, pb_acme = None, pb_acmeByNode = [], pb_diagnostics = [], pb_applied = []\<rparr>"

definition finalize_web :: CoreWriteUpdate where
  "finalize_web = \<lparr>upd_Seq = 3, upd_Time = 0, upd_Actor = 0,
     upd_Mutations = [UpdateMutation CORE_SCHEDULED_INSTANCE 1 (EScheduledInstance (ex_instance 1 7 1 2 1 TARGET_FINALIZED)) None]\<rparr>"

definition final_row :: ScheduledInstanceState where
  "final_row = \<lparr>ss_Instance = ex_instance 1 7 1 2 1 TARGET_FINALIZED, ss_Config = ex_record 7 ''web'' 2 1 1\<rparr>"

lemma ex_fresh: "fresh ex_publisher"
proof -
  have "cache_wf moving" by code_simp
  moreover have "tbl_wf (pb_maps ex_publisher)" by (simp add: ex_publisher_def tbl_wf_def)
  moreover have "tbl_get (ca_nodes moving) n = (if n = 1 then Some (ex_node 1) else if n = 2 then Some (ex_node 2) else None)" for n by (simp add: moving_def ex_cache_def)
  ultimately show ?thesis using ex_states(1) ex_drawn(1) canonical_render
    by (auto simp: fresh_def stamped_def ex_publisher_def ex_plans split: if_splits)
qed

lemma ex_fold:
  "apply_mutation before (UpdateMutation CORE_SCHEDULED_INSTANCE 1 (EScheduledInstance (ex_instance 1 7 1 2 1 TARGET_FINALIZED)) None)
     \<lparr>fs_cache = moving, fs_dirty = newDirtySet, fs_planDirty = False, fs_inputsTouched = False, fs_touched = {}, fs_rows = []\<rparr> =
   Inr \<lparr>fs_cache = after_move, fs_dirty = dirtyInstance before final_row newDirtySet, fs_planDirty = False, fs_inputsTouched = True, fs_touched = {1}, fs_rows = [(1, [nodeInstance after_move final_row])]\<rparr>"
proof -
  have "applyInstance (UpdateMutation CORE_SCHEDULED_INSTANCE 1 (EScheduledInstance (ex_instance 1 7 1 2 1 TARGET_FINALIZED)) None) moving =
      Inr ((final_row, Some (ex_instance 1 7 1 2 1 TARGET_TERMINATE)), after_move)" by code_simp
  moreover have "si_NodeID (ss_Instance final_row) = 1" by (simp add: final_row_def ex_instance_def)
  ultimately show ?thesis by (simp add: apply_mutation_def slice_at_def)
qed

lemma ex_dirty: "dirtyInstance before final_row newDirtySet = \<lparr>ds_all = False, ds_nodes = {1}\<rparr>"
proof -
  have "hostsInto before 2 = {}" "hostsInto before 1 = {}" by (auto simp: set_eq_iff hostsInto_iff ex_context_fields ex_fields)
  then have "nodesReachingInto before 2 = {}" by (simp add: nodesReachingInto_def globalSpaceID_def out_edges_def in_edges_def ex_context_fields)
  moreover have "publishersOfInto before 7 = {}" by (simp add: publishersOfInto_def ex_context_fields)
  ultimately show ?thesis by (simp add: dirtyInstance_def Let_def final_row_def ex_instance_def dirty_add_def newDirtySet_def systemSpaceID_def)
qed

text \<open>What rendering after the commit gives, for every environment.\<close>

lemma ex_commit:
  obtains p' where "handle env finalize_web ex_publisher = Inr p'" "pb_prefix p' = 1" "pb_cache p' = after_move"
    "map_option nm_content (tbl_get (pb_maps p') 2) = Some (renderNode before 2)" "stamped p'"
proof -
  let ?s = "\<lparr>fs_cache = after_move, fs_dirty = \<lparr>ds_all = False, ds_nodes = {1}\<rparr>, fs_planDirty = False, fs_inputsTouched = True, fs_touched = {1 :: nat}, fs_rows = [(1 :: nat, [nodeInstance after_move final_row])]\<rparr>"
  have ms: "ordered_mutations (upd_Mutations finalize_web) = upd_Mutations finalize_web" "upd_Mutations finalize_web \<noteq> []" by (simp_all add: finalize_web_def ordered_mutations_def mutationOrder_def)
  have fold: "foldE (apply_mutation (pb_rc ex_publisher)) (ordered_mutations (upd_Mutations finalize_web))
      \<lparr>fs_cache = pb_cache ex_publisher, fs_dirty = newDirtySet, fs_planDirty = False, fs_inputsTouched = False, fs_touched = {}, fs_rows = []\<rparr> = Inr ?s"
    using ex_fold unfolding ex_dirty ms by (simp add: finalize_web_def ex_publisher_def)
  have p: "pb_prefix ex_publisher = 1" "pb_plan ex_publisher = ex_plan" "\<not> pb_closed ex_publisher"
    "tbl_get (pb_maps ex_publisher) 2 = Some \<lparr>nm_current = renderNode before 2, nm_content = renderNode before 2, nm_hash = []\<rparr>" by (simp_all add: ex_publisher_def)
  have cp: "commit_plan (pb_rc ex_publisher) (pb_plan ex_publisher) (ex_inputs [web2, api1]) ?s = (\<lparr>ds_all = False, ds_nodes = {1}\<rparr>, ex_plan)" by (simp add: commit_plan_def p)
  have st: "stamped ex_publisher" using ex_fresh by (simp add: fresh_def)
  obtain out q ch a where run: "applyLocked env finalize_web ex_publisher = Inr (out, q\<lparr>pb_acmeByNode := a\<rparr>)"
    and r: "renderNodesLocked env (upd_Seq finalize_web) (filter (dirty_has \<lparr>ds_all = False, ds_nodes = {1}\<rparr>) (rc_nodeIDs after))
       (ex_publisher\<lparr>pb_appliedSeq := upd_Seq finalize_web, pb_cache := fs_cache ?s, pb_plan := ex_plan, pb_rc := after, pb_diagnostics := rc_diagnostics after\<rparr>) = (q, ch)"
    and q: "pb_cache q = after_move" "pb_prefix q = 1"
    by (rule applyLocked_runs [OF fold _ _ _ cp, of after]) (use ms ex_states(2) ex_drawn(2) p st in \<open>simp_all add: ex_plan_def\<close>)
  have "stamped (ex_publisher\<lparr>pb_appliedSeq := upd_Seq finalize_web, pb_cache := fs_cache ?s, pb_plan := ex_plan, pb_rc := after, pb_diagnostics := rc_diagnostics after\<rparr>)"
    using st by (simp add: stamped_def)
  note m = renderNodesLocked_maps [OF r this]
  have "2 \<notin> set (filter (dirty_has \<lparr>ds_all = False, ds_nodes = {1}\<rparr>) (rc_nodeIDs after))" by (simp add: dirty_has_def)
  then have map2: "map_option nm_content (tbl_get (pb_maps q) 2) = Some (renderNode before 2)" using m p(4) by (simp add: ex_context_fields)
  have "handle env finalize_web ex_publisher = Inr (enqueueLocked out (q\<lparr>pb_acmeByNode := a\<rparr>))" using run p(3) by (simp add: handle_def)
  then show ?thesis
  proof (rule that)
    show "stamped (enqueueLocked out (q\<lparr>pb_acmeByNode := a\<rparr>))" using m by (simp add: enqueueLocked_def stamped_def)
  qed (use q map2 in \<open>simp_all add: enqueueLocked_def\<close>)
qed

text \<open>
  C39. A moved service goes missing. There is a state in which all maps are those of a full render, the
  deployment \<open>web\<close> having moved from space 2 to space 3, and a commit that removes its old instance, after
  which node 2, with a workload in space 3, does not have the DNS service of \<open>web\<close> in its map although a
  full render gives it that service: the service takes the new space with this commit, but the nodes that
  \<open>dirtyInstance\<close> marks are those of the old space.
\<close>

theorem moved_service_goes_missing:
  "fresh ex_publisher \<and>
   (\<exists>p' full m m'. handle env finalize_web ex_publisher = Inr p' \<and> full_render (pb_prefix p') (pb_cache p') = Inr full \<and>
      tbl_get full 2 = Some m \<and> tbl_get (published_maps p') 2 = Some m' \<and>
      ex_service ''web'' 3 7 \<in> set (cnm_DnsServices m) \<and> ex_service ''web'' 3 7 \<notin> set (cnm_DnsServices m'))"
proof -
  obtain p' where p': "handle env finalize_web ex_publisher = Inr p'" "pb_prefix p' = 1" "pb_cache p' = after_move"
    "map_option nm_content (tbl_get (pb_maps p') 2) = Some (renderNode before 2)" "stamped p'" by (rule ex_commit)
  have full: "full_render (pb_prefix p') (pb_cache p') = Inr [(1, renderNode after 1), (2, renderNode after 2)]"
    using p'(2,3) ex_states(2) ex_drawn(2) by (simp add: full_render_def ex_plans after_move_def ex_cache_def)
  from p'(4) obtain e where e: "tbl_get (pb_maps p') 2 = Some e" "nm_content e = renderNode before 2" by auto
  have "canonicalContent (nm_current e) = renderNode before 2" using p'(5) e by (simp add: stamped_def)
  then have map2: "tbl_get (published_maps p') 2 = Some (renderNode before 2)" using e(1) by (simp add: published_maps_def tbl_map_values)
  have "3 \<in> forward after 2" by (simp add: forward_iff own_spaces_iff ex_context_fields ex_fields systemSpaceID_def)
  then have "in_catalog after 2 (ex_service ''web'' 3 7)" by (auto simp: in_catalog_def scope_def Let_def ex_context_fields ex_service_def)
  then have "ex_service ''web'' 3 7 \<in> set (cnm_DnsServices (renderNode after 2))" by (simp add: renderNode_eq Let_def ex_context_fields)
  moreover have "ex_service ''web'' 3 7 \<notin> set (cnm_DnsServices (renderNode before 2))" by (simp add: renderNode_eq Let_def ex_context_fields ex_service_def)
  ultimately show ?thesis using ex_fresh p'(1) full map2 by auto
qed

end
