(* ===== verification/Publisher_Ingress.thy ===== *)
theory Publisher_Ingress
  imports Publisher_Render Ingress_Props
begin

text \<open>
  What the publisher makes of the ingress plan. A write is checked against the plan with the listener reservations
  of the platform, \<open>render.go\<close> evaluates the plan without them.
\<close>












end
