(* ===== verification/Spec2Isabelle.thy ===== *)
theory Spec2Isabelle
  imports Authz_Service_Reach Net_Isolation Deploy_Spec_Props Deploy_Stale Publisher_Stale Publisher_Ingress
begin

text \<open>
  OpenDeploy, the primary of a small container platform: what it stores, decides and hands to the
  nodes. One Go process, the primary, keeps the state of the cluster in SQLite; administrators and
  agents change it through domain services, a scheduler places deployments on nodes, and every node
  receives the part of the state it needs and programs its containers, its routes and its packet
  filter from it.

  \<^bold>\<open>The parts and how they interact.\<close>

  \<^item> The store (\<open>backend/storage/primarydb\<close>) is event sourced. \<open>Commit\<close> (\<open>state/commit.go\<close>) runs a
    service's mutation function under one lock, reduces the mutations into the tables
    (\<open>pq/materialise.go\<close> and the reducers beside it), runs the registered triggers on the same
    transaction, and appends one event to the write log. The tables are a function of the log.
  \<^item> The scheduler (\<open>app/primary/scheduler\<close>) is such a trigger: after each write it reconciles the
    placements of the deployments that the write touched, in the transaction of that write.
  \<^item> Access control (\<open>domain/authz\<close>) keeps templates, grants and global rules, caches them, and decides
    requests.
  \<^item> The deployments service (\<open>domain/deployments\<close>) validates specs and writes deployments. Under the
    lock it evaluates the ingress plan (\<open>lib/ingressplan\<close>) of all stored deployments and the new one.
  \<^item> The virtual network (\<open>lib/network\<close>) derives an address of every workload from the ids of its space,
    deployment and placement, and renders the packet filter from the attached containers and the
    policy rules.
  \<^item> The node publisher (\<open>app/primary/nodepublisher\<close>) folds each commit into a cache and renders the
    network map of every node.

  \<^bold>\<open>How the theories follow the code.\<close>

  \<^item> \<open>Prelude\<close>: an \<open>error\<close> return as an option or the left of a sum (\<open>bindE\<close>, \<open>foldE\<close>, \<open>then_err\<close>), the
    rule collection \<open>err_simps\<close>, lists. \<open>Api\<close>, \<open>Authz_Model\<close>, \<open>Store_Model\<close>: the messages of
    \<open>apigen/model.gen.go\<close> as records and datatypes, under their Go names with a prefix per record.
  \<^item> \<open>Tables\<close>, \<open>Store\<close>, \<open>Reducer\<close>, \<open>Commit\<close>: keyed tables, one reducer per entity, retention, the
    transaction (\<open>txn\<close>), \<open>Commit\<close>, the log and \<open>RebuildFromLog\<close>. \<open>Retention\<close>, \<open>Store_Inv\<close> and
    \<open>Store_Props\<close> prove what they keep. \<open>tx_steps\<close> is the closure of what a transaction may do; the
    locale \<open>store_clients\<close> is the contract of a writer and its triggers towards \<open>Commit\<close>, interpreted
    for the scheduler, access control and deployments.
  \<^item> \<open>Scheduler\<close> (the code), \<open>Scheduler_Refine\<close> (it acts on the store by transaction steps only),
    \<open>Scheduler_Track\<close> (the slice of a pass mirrors the rows), \<open>Scheduler_Pass\<close> (one pass),
    \<open>Scheduler_Inv\<close> (the whole reconciliation).
  \<^item> \<open>Authz_Eval\<close>, \<open>Authz_Validate\<close>, \<open>Authz_Store\<close>, \<open>Authz_Service\<close> (the code); \<open>Authz_Policy\<close> (the
    denotation of rules and the decision); \<open>Authz_Service_Inv\<close>, \<open>Authz_Service_Reach\<close> (the service
    over its commits, restarts and the commits of others).
  \<^item> \<open>Net_Addr\<close> (\<open>addr.go\<close>), \<open>Net_Filter\<close> (\<open>filter.go\<close>, \<open>topology_map.go\<close>), \<open>Net_Filter_Policy\<close> (what
    the rules emitted by \<open>nft_linux.go\<close> do to a packet), \<open>Net_Isolation\<close> (what the rendered filter lets
    through), \<open>Net_Text\<close> (\<open>names.go\<close>, \<open>v4.go\<close>, address literals).
  \<^item> \<open>Ingress_Plan\<close> (\<open>ingressplan.go\<close>), \<open>Ingress_Props\<close>.
  \<^item> \<open>Deploy_Validate\<close> (the checks under the lock), \<open>Spec_Schema\<close> (the generated checks of a spec),
    \<open>Source_Text\<close> (image references, repository urls, flake paths), \<open>Deploy_Spec\<close>
    (\<open>ValidateSpecWithResolvers\<close>), \<open>Deploy_Service\<close> (\<open>Create\<close>, \<open>Update\<close>, \<open>Delete\<close>, \<open>EnsureSystem\<close>,
    \<open>EnsureNetproxy\<close>); \<open>Text_Lemmas\<close> and \<open>Deploy_Spec_Props\<close> (what an accepted spec is),
    \<open>Deploy_Commit\<close>, \<open>Deploy_Plan\<close>, \<open>Deploy_Inv\<close>, \<open>Deploy_Reach\<close> (the service over the store),
    \<open>Deploy_Stale\<close> (a move from an outdated record).
  \<^item> \<open>Publisher_Render\<close> (\<open>render.go\<close>, \<open>scope.go\<close>), \<open>Publisher_Cache\<close> (\<open>cache.go\<close>), \<open>Publisher\<close>
    (\<open>dirty.go\<close>, \<open>publisher.go\<close>, \<open>acme.go\<close>, \<open>barrier.go\<close>); \<open>Publisher_Scope\<close> (what a map contains),
    \<open>Publisher_Quiet\<close> (which changes leave a map as it is), \<open>Publisher_Fold\<close> and \<open>Publisher_Steps\<close> (the
    mutations of a commit, by entity), \<open>Publisher_Fresh\<close> and \<open>Publisher_Reach\<close> (a whole commit and the
    start), \<open>Publisher_Example\<close> (sample runs), \<open>Publisher_Props\<close> (runs and restarts), \<open>Publisher_Stale\<close> (a
    map that is not rendered again), \<open>Publisher_Ingress\<close> (the publish set against the plan at save time).

  \<^bold>\<open>What is shown.\<close>

  \<^item> Scheduling. \<open>reconcile\<close> returns on every consistent store: neither its pass limit nor an error
    branch is reachable. Afterwards every deployment it visited is stable, at most one placement of a
    deployment serves, a stopped or deleted deployment has no running placement, and one that should
    run has a placement of its current version or waits for a predecessor to stop.
  \<^item> The store. Every commit keeps the tables and counters consistent; retention keeps what is read and
    does not depend on the order of visits; of the status reports of an instance the newest wins in
    every order, and which of them read back from their row as the published form is characterised.
  \<^item> Access control. \<open>HasAccess\<close> is the deny-overrides policy over the denotations of the rules; the
    caches agree with the tables in every reachable state, a restart changes nothing, every rule in
    force is valid, and access management survives the operations that guard it. The one that does not
    guard it has a concrete counterexample.
  \<^item> The network. Addresses encode and decode exactly; collisions of outbound addresses are
    characterised; the rendered filter lets a connection through exactly when the reference policy does for
    the space the destination's chain was made for, drops spoofed sources and confines builds in both
    address families. While a deployment moves, one of its placements has a chain of the wrong space.
  \<^item> Ingress. The sequential evaluation of a plan decides a symmetric condition on its claims, and
    publishes exactly the addresses the accepted claims denote. The publisher evaluates without the
    reservations of the platform's own listeners, and publishes what they reserve.
  \<^item> Deployments. Validation is idempotent on what it accepts exactly when two fields have no blank at
    an end; accepted host mounts expose nothing protected. In every run, updates from outdated records
    included, each write refines one step of an abstract map from ids to deployments and the stored
    identities stay unique. The joint ingress plan stays free of errors if the reservations do not change and
    updates start from records with the stored space and networking, and a concrete move shows that it
    does not otherwise. The primary can always register its own deployment.
  \<^item> Network maps. A commit renders the nodes it marks, and as long as deployments do not move the maps in
    force are those of a full render; a restart, after any run, gives the full render and keeps every map
    that is up to date with its stamp; the maps carry the routes,
    peers and rules that the policy needs. A deployment that changes its space can be missing from the
    map of another node, by a concrete run.

  \<^bold>\<open>Representation.\<close> Go's \<open>uint64\<close> ids are \<^typ>\<open>nat\<close> where they only count and are compared, and words
  where the code shifts, masks or truncates them (\<open>Net_Addr\<close>). An optional field is an \<open>option\<close> or the
  record \<open>maybe\<close> with the flag \<open>Present\<close>. Text is a list of bytes in UTF-8: trimming knows the
  blanks of Unicode, the other functions treat the ASCII characters the code looks for, and lower case is ASCII.
  The mutexes are the order of operations: each operation is one function from state to state. SQL is
  what the statements do to keyed tables. A Go map is an association list in key order, or its order is
  shown not to matter. The generated codecs are taken to be a bijection on the values modelled, so that
  comparing encodings is comparing values. Time is a number that operations receive.

  \<^bold>\<open>Parameters.\<close> Certificate parsing, the secret manager, the asset resolver, the git check and the
  connectivity of nodes are fields of the environment of the deployments service (\<open>deploy_env\<close>), and
  the acknowledgement barrier of the publisher is a parameter of the scheduler. The digests of maps and
  certificates and the clock of certificate stamps are the environment of the publisher (\<open>publish_env\<close>).
  No theorem assumes anything about them. The network prefix is an argument.

  \<^bold>\<open>Termination.\<close> All functions are total. The stabilisation loop of the scheduler carries the bound of
  the code (\<open>pass_limit\<close>) and is shown never to reach it. The pages of \<open>RebuildFromLog\<close> and the digits
  of numbers terminate by measures. No fuel is used.

  \<^bold>\<open>Not modelled.\<close> The generated codecs, muxes and clients (checked against the schema by their
  generator); the HTTP handlers of the web interface; the transport of the sessions with the nodes (their
  queues are modelled), the waiting of \<open>WaitForSeq\<close>, the subscribers to diagnostics and failing writes of
  the map stamps; the engine that runs
  containers on a node and the kernel interfaces of the network (containerd, systemd, netlink); logs and
  metrics (columnar files); the services for secrets, assets, configuration values and node enrolment,
  apart from the reducers of their writes; installer, backup, certificates and ACME. These are I/O
  around third-party systems, or repeat for other entities the patterns modelled here.
\<close>

end
